(* ===== verification/Prelude.thy ===== *)
theory Prelude
  imports Main "HOL-Library.Word"
begin

text \<open>
  Shared vocabulary of the development: C integer types as words, the results of C functions as
  sums, the comparison macros of \<^verbatim>\<open>quic/common.h\<close>, byte memory with bounds-checked access, and the
  lemma collections the component theories rely on.
\<close>

unbundle bit_operations_syntax

section \<open>C types\<close>

type_synonym u8 = "8 word"
type_synonym u16 = "16 word"
type_synonym u32 = "32 word"
type_synonym u64 = "64 word"
type_synonym bytes = "u8 list"

lemma uint_bounds:
  "uint (a :: u8) < 256" "uint (b :: u16) < 65536" "uint (c :: u32) < 4294967296"
  "uint (d :: u64) < 18446744073709551616"
  by (rule order.strict_trans2[OF uint_lt2p]; simp)+

lemma unat64_bound: "unat (a :: u64) < 18446744073709551616"
  using unsigned_less[of a, where ?'a = nat] by simp

lemma of_nat_unat64: "n < 2 ^ 64 \<Longrightarrow> unat (of_nat n :: u64) = n"
  by (simp add: unat_of_nat take_bit_nat_eq_self)

lemma of_nat_unat64_inv: "of_nat (unat (a :: u64)) = a"
  by simp

lemma uint_le_int [simp]: "uint (a :: u64) \<le> int k \<longleftrightarrow> unat a \<le> k"
  by (simp only: uint_nat of_nat_le_iff)

lemma uint_less_int [simp]: "uint (a :: u64) < int k \<longleftrightarrow> unat a < k"
  by (simp only: uint_nat of_nat_less_iff)

lemma int_less_2_31: "int k < 2 ^ 31 \<longleftrightarrow> k < 2 ^ 31"
  by simp

lemma uint_less_unat: "uint (n :: u64) < 2 ^ 31 \<longleftrightarrow> unat n < 2 ^ 31"
  by (simp only: uint_nat int_less_2_31)

section \<open>Results of C functions\<close>

text \<open>
  \<open>Fail\<close> is the error value of the C function (\<open>-1\<close> or \<open>NULL\<close>). The other three are what the C
  program does instead of returning: a failed \<^verbatim>\<open>assert\<close>, an access outside the object a pointer
  points into, a use of a \<open>NULL\<close> pointer (data or function).
\<close>

datatype c_err = Fail | Abort | Bad_mem | Null_ptr

type_synonym 'a res = "c_err + 'a"

definition bindR :: "'a res \<Rightarrow> ('a \<Rightarrow> 'b res) \<Rightarrow> 'b res" where
  "bindR r f = (case r of Inl e \<Rightarrow> Inl e | Inr x \<Rightarrow> f x)"

text \<open>The same with a state that survives the error, as the C objects do.\<close>

definition bindS :: "'s \<times> 'a res \<Rightarrow> ('s \<Rightarrow> 'a \<Rightarrow> 's \<times> 'b res) \<Rightarrow> 's \<times> 'b res" where
  "bindS r f = (case r of (s, Inl e) \<Rightarrow> (s, Inl e) | (s, Inr x) \<Rightarrow> f s x)"

definition assertR :: "bool \<Rightarrow> unit res" where
  "assertR b = (if b then Inr () else Inl Abort)"

definition guardR :: "bool \<Rightarrow> unit res" where
  "guardR b = (if b then Inr () else Inl Fail)"

text \<open>A result that is either a value or the ordinary error return, so no undefined behaviour.\<close>

definition safe :: "'a res \<Rightarrow> bool" where
  "safe r \<longleftrightarrow> (case r of Inl e \<Rightarrow> e = Fail | Inr _ \<Rightarrow> True)"

definition ok :: "'a res \<Rightarrow> bool" where
  "ok r \<longleftrightarrow> (case r of Inl _ \<Rightarrow> False | Inr _ \<Rightarrow> True)"

named_theorems res_simps \<open>unfolding of results\<close>
named_theorems wf_intros \<open>preservation of well-formedness\<close>

lemma bindR_simps [simp, res_simps]:
  "bindR (Inl e) f = Inl e" "bindR (Inr x) f = f x"
  by (simp_all add: bindR_def)

lemma bindS_simps [simp, res_simps]:
  "bindS (s, Inl e) g = (s, Inl e)" "bindS (s, Inr x) g = g s x"
  by (simp_all add: bindS_def)

lemma bindR_eq_Inr [res_simps]: "bindR r f = Inr y \<longleftrightarrow> (\<exists>x. r = Inr x \<and> f x = Inr y)"
  by (cases r) auto

lemma bindR_eq_Inl [res_simps]:
  "bindR r f = Inl e \<longleftrightarrow> r = Inl e \<or> (\<exists>x. r = Inr x \<and> f x = Inl e)"
  by (cases r) auto

lemma bindS_eq_Inr [res_simps]:
  "bindS r g = (s', Inr y) \<longleftrightarrow> (\<exists>s x. r = (s, Inr x) \<and> g s x = (s', Inr y))"
  by (cases r; cases "snd r") (auto simp: bindS_def split: sum.splits)

lemma bindR_assoc: "bindR (bindR r f) g = bindR r (\<lambda>x. bindR (f x) g)"
  by (cases r) auto

lemma assertR_simps [simp, res_simps]:
  "assertR True = Inr ()" "assertR False = Inl Abort" "(assertR b = Inr u) = b"
  by (auto simp: assertR_def)

lemma guardR_simps [simp, res_simps]:
  "guardR True = Inr ()" "guardR False = Inl Fail" "(guardR b = Inr u) = b"
  by (auto simp: guardR_def)

lemma safe_simps [simp]: "safe (Inl e) = (e = Fail)" "safe (Inr x) = True"
  by (simp_all add: safe_def)

lemma ok_simps [simp]: "ok (Inl e) = False" "ok (Inr x) = True"
  by (simp_all add: ok_def)

lemma safe_bindR: "safe r \<Longrightarrow> (\<And>x. r = Inr x \<Longrightarrow> safe (f x)) \<Longrightarrow> safe (bindR r f)"
  by (cases r) auto

section \<open>The comparison macros of quic/common.h\<close>

text \<open>
  \<^verbatim>\<open>QUIC_LT(a, b)\<close> is \<^verbatim>\<open>((int)((a) - (b)) < 0)\<close>: the unsigned difference is truncated to the
  32-bit \<^verbatim>\<open>int\<close> before its sign is read, whatever the width of the operands.
\<close>

definition quic_diff :: "'a::len word \<Rightarrow> 'a word \<Rightarrow> int" where
  "quic_diff a b = sint (ucast (a - b) :: u32)"

definition QUIC_LT :: "'a::len word \<Rightarrow> 'a word \<Rightarrow> bool" where
  "QUIC_LT a b = (quic_diff a b < 0)"

definition QUIC_GT :: "'a::len word \<Rightarrow> 'a word \<Rightarrow> bool" where
  "QUIC_GT a b = (quic_diff a b > 0)"

definition QUIC_LE :: "'a::len word \<Rightarrow> 'a word \<Rightarrow> bool" where
  "QUIC_LE a b = (quic_diff a b \<le> 0)"

definition QUIC_GE :: "'a::len word \<Rightarrow> 'a word \<Rightarrow> bool" where
  "QUIC_GE a b = (quic_diff a b \<ge> 0)"

definition QUIC_MIN :: "'a::len word \<Rightarrow> 'a word \<Rightarrow> 'a word" where
  "QUIC_MIN a b = (if QUIC_GT a b then b else a)"

definition QUIC_MAX :: "'a::len word \<Rightarrow> 'a word \<Rightarrow> 'a word" where
  "QUIC_MAX a b = (if QUIC_GT a b then a else b)"

lemmas quic_cmp_defs = QUIC_LT_def QUIC_GT_def QUIC_LE_def QUIC_GE_def

lemma quic_diff_signed_take_bit:
  assumes "32 \<le> LENGTH('a::len)"
  shows "quic_diff (a :: 'a word) b = signed_take_bit 31 (uint a - uint b)"
proof -
  have "quic_diff a b = signed_take_bit 31 (take_bit 32 (uint (a - b)))"
    by (simp add: quic_diff_def sint_uint unsigned_ucast_eq)
  also have "\<dots> = signed_take_bit 31 (take_bit 32 (take_bit LENGTH('a) (uint a - uint b)))"
    by (simp add: uint_word_ariths take_bit_eq_mod)
  also have "\<dots> = signed_take_bit 31 (uint a - uint b)"
    using assms by (simp add: signed_take_bit_take_bit min_def)
  finally show ?thesis .
qed

text \<open>Any integer that represents the word difference gives its value.\<close>

lemma quic_diff_of_int:
  assumes "32 \<le> LENGTH('a::len)" and "a - b = (word_of_int x :: 'a word)"
  shows "quic_diff a b = signed_take_bit 31 x"
proof -
  have "quic_diff a b = signed_take_bit 31 (take_bit 32 (take_bit LENGTH('a) x))"
    using assms(2) by (simp add: quic_diff_def sint_uint unsigned_ucast_eq unsigned_of_int)
  also have "\<dots> = signed_take_bit 31 x"
    using assms(1) by (simp add: signed_take_bit_take_bit min_def)
  finally show ?thesis .
qed

text \<open>Where the operands are less than \<open>2 ^ 31\<close> apart, the macros are the comparisons they name.\<close>

lemma quic_diff_exact:
  assumes "32 \<le> LENGTH('a::len)"
    and "- (2 ^ 31) \<le> uint (a :: 'a word) - uint b" and "uint a - uint b < 2 ^ 31"
  shows "quic_diff a b = uint a - uint b"
  using assms by (simp add: quic_diff_signed_take_bit signed_take_bit_int_eq_self)

lemma quic_diff_small64:
  fixes a b :: u64
  assumes "uint a < 2 ^ 31" and "uint b < 2 ^ 31"
  shows "quic_diff a b = uint a - uint b"
proof (rule quic_diff_exact)
  have "0 \<le> uint a" "0 \<le> uint b" by simp_all
  then show "- (2 ^ 31) \<le> uint a - uint b" and "uint a - uint b < 2 ^ 31"
    using assms by linarith+
qed simp

lemma quic_cmp_small64:
  fixes a b :: u64
  assumes "uint a < 2 ^ 31" and "uint b < 2 ^ 31"
  shows "QUIC_LT a b = (a < b)" and "QUIC_GT a b = (b < a)"
    and "QUIC_LE a b = (a \<le> b)" and "QUIC_GE a b = (b \<le> a)"
  using assms by (simp_all add: quic_cmp_defs quic_diff_small64 word_less_def word_le_def)

text \<open>The same on naturals, the form lengths come in.\<close>

lemma quic_cmp_unat:
  fixes a b :: u64
  assumes "unat a < 2147483648" and "unat b < 2147483648"
  shows "QUIC_LT a b = (unat a < unat b)" and "QUIC_GT a b = (unat b < unat a)"
    and "QUIC_LE a b = (unat a \<le> unat b)" and "QUIC_GE a b = (unat b \<le> unat a)"
  using assms quic_cmp_small64[of a b]
  by (simp_all only: uint_less_unat word_less_nat_alt word_le_nat_alt) simp_all

section \<open>Byte memory\<close>

text \<open>
  An object is the list of its bytes; a pointer into it is an integer offset, so that a pointer
  before the start or past the end is a value that cannot be dereferenced.
\<close>

definition mem_get :: "bytes \<Rightarrow> int \<Rightarrow> u8 res" where
  "mem_get m i = (if 0 \<le> i \<and> i < int (length m) then Inr (m ! nat i) else Inl Bad_mem)"

definition mem_set :: "bytes \<Rightarrow> int \<Rightarrow> u8 \<Rightarrow> bytes res" where
  "mem_set m i b = (if 0 \<le> i \<and> i < int (length m) then Inr (m[nat i := b]) else Inl Bad_mem)"

definition mem_slice :: "bytes \<Rightarrow> int \<Rightarrow> nat \<Rightarrow> bytes res" where
  "mem_slice m i n =
     (if n = 0 then Inr []
      else if 0 \<le> i \<and> i + int n \<le> int (length m) then Inr (take n (drop (nat i) m))
      else Inl Bad_mem)"

definition mem_copy :: "bytes \<Rightarrow> int \<Rightarrow> bytes \<Rightarrow> bytes res" where
  "mem_copy m i src =
     (if src = [] then Inr m
      else if 0 \<le> i \<and> i + int (length src) \<le> int (length m)
      then Inr (take (nat i) m @ src @ drop (nat i + length src) m)
      else Inl Bad_mem)"

lemma mem_get_Inr: "mem_get m i = Inr b \<longleftrightarrow> 0 \<le> i \<and> i < int (length m) \<and> b = m ! nat i"
  by (auto simp: mem_get_def)

lemma mem_slice_length: "mem_slice m i n = Inr s \<Longrightarrow> length s = n"
  by (auto simp: mem_slice_def split: if_splits)

lemma mem_copy_length: "mem_copy m i s = Inr m' \<Longrightarrow> length m' = length m"
  by (auto simp: mem_copy_def split: if_splits)

lemma mem_set_length: "mem_set m i b = Inr m' \<Longrightarrow> length m' = length m"
  by (auto simp: mem_set_def split: if_splits)

lemma mem_slice_append: "mem_slice (xs @ ys @ zs) (int (length xs)) (length ys) = Inr ys"
  by (simp add: mem_slice_def)

lemma mem_copy_append:
  "length ys = length zs \<Longrightarrow> mem_copy (xs @ ys @ ws) (int (length xs)) zs = Inr (xs @ zs @ ws)"
  by (auto simp: mem_copy_def)

section \<open>The environment\<close>

text \<open>
  What the code obtains from outside \<^verbatim>\<open>src/\<close>: whether the C library's allocator can serve a
  request of a size and what the memory it returns holds, OpenSSL's \<^verbatim>\<open>BUF_MEM_grow\<close> (the new
  contents, or \<open>None\<close> when it returns 0), OpenSSL's \<^verbatim>\<open>RAND_bytes\<close> (for the \<open>k\<close>-th draw of an
  operation, the bytes, or \<open>None\<close> when it returns 0) and the clock in microseconds.
\<close>

record env =
  env_alloc :: "nat \<Rightarrow> bool"
  env_junk :: "nat \<Rightarrow> bytes"
  env_grow :: "bytes \<Rightarrow> nat \<Rightarrow> bytes option"
  env_rand :: "nat \<Rightarrow> nat \<Rightarrow> bytes option"
  env_now :: u64

text \<open>The documented behaviour of \<^verbatim>\<open>BUF_MEM_grow\<close>: the old contents are kept, the length is the
  requested one.\<close>

definition grow_spec :: "env \<Rightarrow> bool" where
  "grow_spec e \<longleftrightarrow> (\<forall>m n m'. env_grow e m n = Some m' \<longrightarrow>
     length m' = n \<and> take (min n (length m)) m' = take (min n (length m)) m)"

definition zero_grow :: "bytes \<Rightarrow> nat \<Rightarrow> bytes option" where
  "zero_grow m n = Some (take n m @ replicate (n - length m) 0)"

definition env0 :: env where
  "env0 = \<lparr>env_alloc = (\<lambda>_. True), env_junk = (\<lambda>_. []), env_grow = zero_grow,
           env_rand = (\<lambda>k n. Some (replicate n (of_nat k))), env_now = 0\<rparr>"

lemma env0_grow_spec: "grow_spec env0"
  by (auto simp: grow_spec_def env0_def zero_grow_def min_def)

definition alloc :: "env \<Rightarrow> nat \<Rightarrow> unit res" where
  "alloc e n = guardR (env_alloc e n)"

text \<open>Memory fresh from \<^verbatim>\<open>malloc\<close>: its contents are arbitrary, its length is the requested one.\<close>

definition fresh_mem :: "env \<Rightarrow> nat \<Rightarrow> bytes" where
  "fresh_mem e n = take n (env_junk e n) @ replicate (n - length (env_junk e n)) 0"

lemma length_fresh_mem [simp]: "length (fresh_mem e n) = n"
  by (simp add: fresh_mem_def)

text \<open>\<^verbatim>\<open>RAND_bytes\<close> fills the whole buffer it is given.\<close>

definition rand_spec :: "env \<Rightarrow> bool" where
  "rand_spec e \<longleftrightarrow> (\<forall>k n r. env_rand e k n = Some r \<longrightarrow> length r = n)"

lemma env0_rand_spec: "rand_spec env0"
  by (auto simp: rand_spec_def env0_def)

lemma env0_alloc [simp]: "env_alloc env0 n" by (simp add: env0_def)

text \<open>\<^verbatim>\<open>QuicRandBytes\<close> over a buffer: on failure the buffer keeps what it held.\<close>

definition QuicRandBytes :: "env \<Rightarrow> nat \<Rightarrow> bytes \<Rightarrow> bytes \<times> unit res" where
  "QuicRandBytes e k buf = (case env_rand e k (length buf) of
     None \<Rightarrow> (buf, Inl Fail)
   | Some r \<Rightarrow> (r, Inr ()))"

lemma length_QuicRandBytes: "rand_spec e \<Longrightarrow> length (fst (QuicRandBytes e k buf)) = length buf"
  by (auto simp: QuicRandBytes_def rand_spec_def split: option.split)

section \<open>Simulation\<close>

text \<open>
  The contract between a component and its abstract specification: under an invariant with a budget
  of steps left, one step of the code is one step of the specification. Any run then is.
\<close>

locale simulation =
  fixes step :: "'op \<Rightarrow> 's \<Rightarrow> 's"
    and spec :: "'op \<Rightarrow> 'a \<Rightarrow> 'a"
    and abs :: "'s \<Rightarrow> 'a"
    and inv :: "nat \<Rightarrow> 's \<Rightarrow> bool"
    and allowed :: "'op \<Rightarrow> bool"
  assumes sim: "inv (Suc n) s \<Longrightarrow> allowed op \<Longrightarrow> inv n (step op s) \<and> abs (step op s) = spec op (abs s)"
begin

lemma run_budget:
  "inv (length ops + n) s \<Longrightarrow> \<forall>op\<in>set ops. allowed op \<Longrightarrow>
     inv n (fold step ops s) \<and> abs (fold step ops s) = fold spec ops (abs s)"
proof (induction ops arbitrary: s)
  case Nil
  then show ?case by simp
next
  case (Cons op ops)
  then have "inv (length ops + n) (step op s) \<and> abs (step op s) = spec op (abs s)"
    by (intro sim) simp_all
  with Cons.IH[of "step op s"] Cons.prems(2) show ?case by simp
qed

lemma run:
  "inv (length ops) s \<Longrightarrow> \<forall>op\<in>set ops. allowed op \<Longrightarrow>
     inv 0 (fold step ops s) \<and> abs (fold step ops s) = fold spec ops (abs s)"
  using run_budget[of ops 0] by simp

end

end
