(* ===== verification/Packet_Read.thy ===== *)
theory Packet_Read
  imports Prelude
begin

text \<open>
  The read side of \<^verbatim>\<open>quic/packet.c\<close>: \<^verbatim>\<open>RPacket\<close> is a window (\<^verbatim>\<open>curr\<close>, \<^verbatim>\<open>remaining\<close>) into a buffer
  with a \<^verbatim>\<open>head\<close> pointer to its start. A pointer is an offset into the buffer \<open>rp_buf\<close>. Every length
  test goes through \<open>QUIC_LT\<close>, so the bounds of a packet are only enforced for lengths below
  \<open>2 ^ 31\<close>; the model keeps the pointer arithmetic of the code past that and reports the access
  outside the buffer as \<open>Bad_mem\<close>. A failed read leaves the position as it was or is never followed
  by another read of the same packet, so the functions return the new packet on success only.
\<close>

record RPacket =
  rp_buf :: bytes
  rp_head :: int
  rp_curr :: int
  rp_total :: u64
  rp_remaining :: u64

section \<open>Operations\<close>

definition RPacketHeadSet :: "RPacket \<Rightarrow> int \<Rightarrow> RPacket" where
  "RPacketHeadSet pkt head = pkt\<lparr>rp_head := head\<rparr>"

definition RPacketHeadSync :: "RPacket \<Rightarrow> RPacket" where
  "RPacketHeadSync pkt = pkt\<lparr>rp_head := rp_curr pkt\<rparr>"

definition RPacketBufInit :: "bytes \<Rightarrow> int \<Rightarrow> u64 \<Rightarrow> RPacket" where
  "RPacketBufInit buf ptr len =
     RPacketHeadSync \<lparr>rp_buf = buf, rp_head = ptr, rp_curr = ptr, rp_total = len, rp_remaining = len\<rparr>"

definition RPacketReadLen :: "RPacket \<Rightarrow> u64" where
  "RPacketReadLen pkt = word_of_int (rp_curr pkt - rp_head pkt)"

definition RPacketForward :: "RPacket \<Rightarrow> u64 \<Rightarrow> RPacket" where
  "RPacketForward pkt len =
     pkt\<lparr>rp_curr := rp_curr pkt + uint len, rp_remaining := rp_remaining pkt - len\<rparr>"

definition RPacketTotalLen :: "RPacket \<Rightarrow> u64" where
  "RPacketTotalLen pkt = rp_total pkt"

definition RPacketHead :: "RPacket \<Rightarrow> int" where
  "RPacketHead pkt = rp_head pkt"

definition RPacketHeadPush :: "RPacket \<Rightarrow> u64 \<Rightarrow> RPacket" where
  "RPacketHeadPush pkt len =
     pkt\<lparr>rp_head := rp_head pkt - uint len, rp_total := rp_total pkt + len\<rparr>"

definition RPacketRemaining :: "RPacket \<Rightarrow> u64" where
  "RPacketRemaining pkt = rp_remaining pkt"

definition RPacketData :: "RPacket \<Rightarrow> int" where
  "RPacketData pkt = rp_curr pkt"

definition RPacketUpdate :: "RPacket \<Rightarrow> RPacket" where
  "RPacketUpdate pkt = RPacketBufInit (rp_buf pkt) (RPacketData pkt) (RPacketRemaining pkt)"

definition RPacketPull :: "RPacket \<Rightarrow> u64 \<Rightarrow> RPacket res" where
  "RPacketPull pkt len =
     (if QUIC_LT (RPacketRemaining pkt) len then Inl Fail else Inr (RPacketForward pkt len))"

text \<open>The loop of \<^verbatim>\<open>RPacketPeekData\<close>: \<open>n\<close> more bytes from \<open>pos\<close>, most significant first.\<close>

fun peek_loop :: "bytes \<Rightarrow> int \<Rightarrow> nat \<Rightarrow> u32 \<Rightarrow> u32 res" where
  "peek_loop buf pos 0 acc = Inr acc"
| "peek_loop buf pos (Suc n) acc =
     bindR (mem_get buf pos) (\<lambda>b. peek_loop buf (pos + 1) n (push_bit 8 acc OR ucast b))"

definition RPacketPeekData :: "RPacket \<Rightarrow> u64 \<Rightarrow> u32 res" where
  "RPacketPeekData pkt len =
     (if QUIC_LT (RPacketRemaining pkt) len then Inl Fail
      else bindR (mem_get (rp_buf pkt) (rp_curr pkt))
             (\<lambda>b. peek_loop (rp_buf pkt) (rp_curr pkt + 1) (unat len - 1) (ucast b)))"

definition RPacketGetData :: "RPacket \<Rightarrow> u64 \<Rightarrow> (u32 \<times> RPacket) res" where
  "RPacketGetData pkt len =
     bindR (RPacketPeekData pkt len) (\<lambda>d. Inr (d, RPacketForward pkt len))"

definition RPacketPeek1 :: "RPacket \<Rightarrow> u32 res" where "RPacketPeek1 pkt = RPacketPeekData pkt 1"

definition RPacketGet1 :: "RPacket \<Rightarrow> (u32 \<times> RPacket) res" where
  "RPacketGet1 pkt = RPacketGetData pkt 1"

definition RPacketPeek2 :: "RPacket \<Rightarrow> u32 res" where "RPacketPeek2 pkt = RPacketPeekData pkt 2"

definition RPacketGet2 :: "RPacket \<Rightarrow> (u32 \<times> RPacket) res" where
  "RPacketGet2 pkt = RPacketGetData pkt 2"

definition RPacketPeek3 :: "RPacket \<Rightarrow> u32 res" where "RPacketPeek3 pkt = RPacketPeekData pkt 3"

definition RPacketGet3 :: "RPacket \<Rightarrow> (u32 \<times> RPacket) res" where
  "RPacketGet3 pkt = RPacketGetData pkt 3"

definition RPacketPeek4 :: "RPacket \<Rightarrow> u32 res" where "RPacketPeek4 pkt = RPacketPeekData pkt 4"

definition RPacketGet4 :: "RPacket \<Rightarrow> (u32 \<times> RPacket) res" where
  "RPacketGet4 pkt = RPacketGetData pkt 4"

text \<open>\<^verbatim>\<open>RPacketPeekBytes\<close> and \<^verbatim>\<open>RPacketGetBytes\<close> return a pointer into the buffer.\<close>

definition RPacketPeekBytes :: "RPacket \<Rightarrow> u64 \<Rightarrow> int res" where
  "RPacketPeekBytes pkt len =
     (if QUIC_LT (RPacketRemaining pkt) len then Inl Fail else Inr (rp_curr pkt))"

definition RPacketGetBytes :: "RPacket \<Rightarrow> u64 \<Rightarrow> (int \<times> RPacket) res" where
  "RPacketGetBytes pkt len =
     bindR (RPacketPeekBytes pkt len) (\<lambda>p. Inr (p, RPacketForward pkt len))"

definition RPacketPeekCopyBytes :: "RPacket \<Rightarrow> u64 \<Rightarrow> bytes res" where
  "RPacketPeekCopyBytes pkt len =
     (if QUIC_LT (RPacketRemaining pkt) len then Inl Fail
      else mem_slice (rp_buf pkt) (rp_curr pkt) (unat len))"

definition RPacketCopyBytes :: "RPacket \<Rightarrow> u64 \<Rightarrow> (bytes \<times> RPacket) res" where
  "RPacketCopyBytes pkt len =
     bindR (RPacketPeekCopyBytes pkt len) (\<lambda>d. Inr (d, RPacketForward pkt len))"

definition RPacketTransfer :: "RPacket \<Rightarrow> u64 \<Rightarrow> (RPacket \<times> RPacket) res" where
  "RPacketTransfer parent len =
     (if QUIC_LT (RPacketRemaining parent) len then Inl Fail
      else Inr (RPacketBufInit (rp_buf parent) (RPacketData parent) len, RPacketForward parent len))"

definition RPacketGetLengthPrefixed :: "RPacket \<Rightarrow> u64 \<Rightarrow> (RPacket \<times> RPacket) res" where
  "RPacketGetLengthPrefixed pkt len =
     bindR (RPacketGetBytes pkt len) (\<lambda>(p, pkt'). Inr (RPacketBufInit (rp_buf pkt) p len, pkt'))"

definition RPacketGetLengthPrefixed1 :: "RPacket \<Rightarrow> (RPacket \<times> RPacket) res" where
  "RPacketGetLengthPrefixed1 pkt =
     bindR (RPacketGet1 pkt) (\<lambda>(len, pkt'). RPacketGetLengthPrefixed pkt' (ucast len))"

definition RPacketGetLengthPrefixed2 :: "RPacket \<Rightarrow> (RPacket \<times> RPacket) res" where
  "RPacketGetLengthPrefixed2 pkt =
     bindR (RPacketGet2 pkt) (\<lambda>(len, pkt'). RPacketGetLengthPrefixed pkt' (ucast len))"

definition PRacketContainsZeroByte :: "RPacket \<Rightarrow> bool res" where
  "PRacketContainsZeroByte pkt =
     bindR (mem_slice (rp_buf pkt) (rp_curr pkt) (unat (rp_remaining pkt))) (\<lambda>d. Inr (0 \<in> set d))"

text \<open>The loop of \<^verbatim>\<open>RPacketSaveU16\<close>: it stops early when a read fails, and the caller compares the
  count. \<open>fuel\<close> is the number of iterations left.\<close>

fun save_u16_loop :: "nat \<Rightarrow> RPacket \<Rightarrow> u16 list \<Rightarrow> (u16 list \<times> RPacket) res" where
  "save_u16_loop 0 pkt acc = Inr (acc, pkt)"
| "save_u16_loop (Suc n) pkt acc =
     (case RPacketGet2 pkt of
        Inr (v, pkt') \<Rightarrow> save_u16_loop n pkt' (acc @ [ucast v])
      | Inl Fail \<Rightarrow> Inr (acc, pkt)
      | Inl e \<Rightarrow> Inl e)"

definition RPacketSaveU16 :: "env \<Rightarrow> RPacket \<Rightarrow> (u16 list \<times> RPacket) res" where
  "RPacketSaveU16 e pkt =
     (let size = RPacketRemaining pkt in
      if size = 0 \<or> size AND 1 \<noteq> 0 then Inl Fail
      else let n = drop_bit 1 size in
        bindR (alloc e (unat (n * 2))) (\<lambda>_.
        bindR (save_u16_loop (unat n) pkt []) (\<lambda>(vs, pkt').
        if length vs \<noteq> unat n then Inl Fail else Inr (vs, pkt'))))"

text \<open>\<^verbatim>\<open>strndup\<close> copies up to the first zero byte.\<close>

definition RPacketStrndup :: "env \<Rightarrow> RPacket \<Rightarrow> bytes res" where
  "RPacketStrndup e pkt =
     bindR (mem_slice (rp_buf pkt) (rp_curr pkt) (unat (RPacketRemaining pkt))) (\<lambda>d.
     let s = takeWhile (\<lambda>b. b \<noteq> 0) d in bindR (alloc e (length s + 1)) (\<lambda>_. Inr s))"

text \<open>\<^verbatim>\<open>PRacketMemDup\<close> frees the old object first; an empty packet leaves \<^verbatim>\<open>NULL\<close> of length 0.\<close>

definition PRacketMemDup :: "env \<Rightarrow> RPacket \<Rightarrow> bytes option res" where
  "PRacketMemDup e pkt =
     (let n = RPacketRemaining pkt in
      if n = 0 then Inr None
      else bindR (alloc e (unat n)) (\<lambda>_.
           bindR (mem_slice (rp_buf pkt) (rp_curr pkt) (unat n)) (\<lambda>d. Inr (Some d))))"

lemmas rpacket_get_defs = RPacketGet1_def RPacketGet2_def RPacketGet3_def RPacketGet4_def
lemmas rpacket_peek_defs = RPacketPeek1_def RPacketPeek2_def RPacketPeek3_def RPacketPeek4_def
lemmas rpacket_acc_defs = RPacketTotalLen_def RPacketHead_def RPacketRemaining_def RPacketData_def

section \<open>Well-formed packets and their abstract view\<close>

text \<open>The unread window lies inside a buffer shorter than \<open>2 ^ 31\<close> bytes; the view is its contents.\<close>

definition rp_wf :: "RPacket \<Rightarrow> bool" where
  "rp_wf p \<longleftrightarrow> 0 \<le> rp_curr p \<and> rp_curr p + uint (rp_remaining p) \<le> int (length (rp_buf p))
     \<and> length (rp_buf p) < 2 ^ 31"

definition rp_view :: "RPacket \<Rightarrow> bytes" where
  "rp_view p = take (unat (rp_remaining p)) (drop (nat (rp_curr p)) (rp_buf p))"

text \<open>Reading only moves forward in the same buffer.\<close>

definition rp_adv :: "RPacket \<Rightarrow> RPacket \<Rightarrow> bool" where
  "rp_adv p p' \<longleftrightarrow> rp_buf p' = rp_buf p \<and> rp_curr p \<le> rp_curr p'"

lemma rp_adv_refl [simp]: "rp_adv p p" by (simp add: rp_adv_def)

lemma rp_adv_trans [trans]: "rp_adv p q \<Longrightarrow> rp_adv q r \<Longrightarrow> rp_adv p r"
  by (auto simp: rp_adv_def)

lemma rp_adv_Forward [simp]: "rp_adv p (RPacketForward p n)"
  by (simp add: rp_adv_def RPacketForward_def)

lemma rp_wf_remaining_bound: "rp_wf p \<Longrightarrow> uint (rp_remaining p) < 2 ^ 31"
  by (auto simp: rp_wf_def)

lemma rp_wf_nat:
  "rp_wf p \<longleftrightarrow> 0 \<le> rp_curr p \<and> nat (rp_curr p) + unat (rp_remaining p) \<le> length (rp_buf p)
     \<and> length (rp_buf p) < 2 ^ 31"
proof -
  have "uint (rp_remaining p) = int (unat (rp_remaining p))" by simp
  then show ?thesis unfolding rp_wf_def by linarith
qed

lemma length_rp_view: "rp_wf p \<Longrightarrow> length (rp_view p) = unat (rp_remaining p)"
  by (auto simp: rp_wf_nat rp_view_def)

lemma rp_view_full: "length b < 2 ^ 31 \<Longrightarrow> rp_view (RPacketBufInit b 0 (of_nat (length b))) = b"
  by (simp add: rp_view_def RPacketBufInit_def RPacketHeadSync_def unat_of_nat take_bit_nat_eq_self)

lemma rp_wf_BufInit [wf_intros]:
  "0 \<le> i \<Longrightarrow> i + uint n \<le> int (length b) \<Longrightarrow> length b < 2 ^ 31 \<Longrightarrow> rp_wf (RPacketBufInit b i n)"
  by (simp add: rp_wf_def RPacketBufInit_def RPacketHeadSync_def)

text \<open>The bounds test is exact on a well-formed packet, for a length below \<open>2 ^ 31\<close>.\<close>

lemma rp_bound_exact:
  assumes "rp_wf p" and "uint n < 2 ^ 31"
  shows "QUIC_LT (RPacketRemaining p) n \<longleftrightarrow> length (rp_view p) < unat n"
  using assms rp_wf_remaining_bound[OF assms(1)]
  by (simp add: quic_cmp_small64 RPacketRemaining_def length_rp_view word_less_nat_alt)

lemma rp_Forward_wf [wf_intros]:
  assumes "rp_wf p" and "unat n \<le> length (rp_view p)"
  shows "rp_wf (RPacketForward p n)" and "rp_view (RPacketForward p n) = drop (unat n) (rp_view p)"
proof -
  have le: "n \<le> rp_remaining p"
    using assms by (simp add: length_rp_view word_le_nat_alt)
  then have un: "unat (rp_remaining p - n) = unat (rp_remaining p) - unat n"
    by (simp add: unat_sub)
  have cu: "0 \<le> rp_curr p" and nt: "nat (rp_curr p + uint n) = nat (rp_curr p) + unat n"
    using assms(1) by (simp_all add: rp_wf_def nat_add_distrib)
  show "rp_wf (RPacketForward p n)"
    using assms le cu by (simp add: rp_wf_nat RPacketForward_def un nt word_le_nat_alt)
  show "rp_view (RPacketForward p n) = drop (unat n) (rp_view p)"
    by (simp add: rp_view_def RPacketForward_def un nt drop_take add.commute)
qed

lemma rp_view_nth:
  assumes "rp_wf p" and "k < length (rp_view p)"
  shows "mem_get (rp_buf p) (rp_curr p + int k) = Inr (rp_view p ! k)"
proof -
  from assms have "nat (rp_curr p) + k < length (rp_buf p)" and "0 \<le> rp_curr p"
    and "k < unat (rp_remaining p)"
    by (auto simp: rp_wf_nat length_rp_view)
  then show ?thesis by (simp add: mem_get_def rp_view_def nat_add_distrib)
qed

lemma rp_slice:
  assumes "rp_wf p" and "k \<le> length (rp_view p)"
  shows "mem_slice (rp_buf p) (rp_curr p) k = Inr (take k (rp_view p))"
proof -
  from assms have "nat (rp_curr p) + k \<le> length (rp_buf p)" and "0 \<le> rp_curr p"
    and "k \<le> unat (rp_remaining p)"
    by (auto simp: rp_wf_nat length_rp_view)
  then show ?thesis by (auto simp: mem_slice_def rp_view_def min_def)
qed

section \<open>Functional behaviour of the reads\<close>

text \<open>The big-endian value of a byte string.\<close>

definition be_word :: "bytes \<Rightarrow> u32" where
  "be_word bs = foldl (\<lambda>a b. push_bit 8 a OR ucast b) 0 bs"

lemma peek_loop_view:
  assumes "rp_wf p" and "k + n \<le> length (rp_view p)"
  shows "peek_loop (rp_buf p) (rp_curr p + int k) n acc =
    Inr (foldl (\<lambda>a b. push_bit 8 a OR ucast b) acc (take n (drop k (rp_view p))))"
  using assms(2)
proof (induction n arbitrary: k acc)
  case 0
  then show ?case by simp
next
  case (Suc n)
  then have k: "k < length (rp_view p)" by simp
  have eq: "rp_curr p + int k + 1 = rp_curr p + int (Suc k)" by simp
  have "take (Suc n) (drop k (rp_view p)) = rp_view p ! k # take n (drop (Suc k) (rp_view p))"
    using k by (simp add: Cons_nth_drop_Suc[symmetric])
  moreover have "peek_loop (rp_buf p) (rp_curr p + int k + 1) n (push_bit 8 acc OR ucast (rp_view p ! k)) =
    Inr (foldl (\<lambda>a b. push_bit 8 a OR ucast b) (push_bit 8 acc OR ucast (rp_view p ! k))
      (take n (drop (Suc k) (rp_view p))))"
    unfolding eq using Suc.prems by (intro Suc.IH) simp
  ultimately show ?case
    using rp_view_nth[OF assms(1) k] by simp
qed

lemma RPacketPeekData_spec:
  assumes "rp_wf p" and "0 < n" and "uint n < 2 ^ 31"
  shows "RPacketPeekData p n =
    (if unat n \<le> length (rp_view p) then Inr (be_word (take (unat n) (rp_view p))) else Inl Fail)"
proof (cases "unat n \<le> length (rp_view p)")
  case False
  then show ?thesis
    using assms rp_bound_exact[OF assms(1,3)] by (simp add: RPacketPeekData_def)
next
  case True
  have n0: "0 < unat n" using assms(2) by (simp add: unat_gt_0 word_gt_0)
  then have v: "0 < length (rp_view p)" using True by linarith
  obtain m where m: "unat n = Suc m" using n0 by (cases "unat n") auto
  have g: "mem_get (rp_buf p) (rp_curr p) = Inr (rp_view p ! 0)"
    using rp_view_nth[OF assms(1) v] by simp
  have "peek_loop (rp_buf p) (rp_curr p + 1) m (ucast (rp_view p ! 0)) =
    Inr (foldl (\<lambda>a b. push_bit 8 a OR ucast b) (ucast (rp_view p ! 0)) (take m (drop 1 (rp_view p))))"
    using peek_loop_view[OF assms(1), of 1 m] True m by simp
  moreover have "take (unat n) (rp_view p) = rp_view p ! 0 # take m (drop 1 (rp_view p))"
    using v m by (cases "rp_view p") auto
  ultimately show ?thesis
    using True g m rp_bound_exact[OF assms(1,3)]
    by (simp add: RPacketPeekData_def be_word_def)
qed

lemma RPacketGetData_spec:
  assumes "rp_wf p" and "0 < n" and "uint n < 2 ^ 31"
  shows "RPacketGetData p n =
    (if unat n \<le> length (rp_view p)
     then Inr (be_word (take (unat n) (rp_view p)), RPacketForward p n) else Inl Fail)"
  using RPacketPeekData_spec[OF assms] by (simp add: RPacketGetData_def)

lemma be_word_single [simp]: "be_word [b] = ucast b"
  by (simp add: be_word_def)

lemma RPacketGet1_spec:
  assumes "rp_wf p"
  shows "RPacketGet1 p = (case rp_view p of [] \<Rightarrow> Inl Fail
     | b # _ \<Rightarrow> Inr (ucast b, RPacketForward p 1))"
  using RPacketGetData_spec[OF assms, of 1]
  by (auto simp: RPacketGet1_def split: list.split)

lemma RPacketGetBytes_spec:
  assumes "rp_wf p" and "uint n < 2 ^ 31"
  shows "RPacketGetBytes p n =
    (if unat n \<le> length (rp_view p) then Inr (rp_curr p, RPacketForward p n) else Inl Fail)"
  using rp_bound_exact[OF assms] by (simp add: RPacketGetBytes_def RPacketPeekBytes_def)

lemma RPacketCopyBytes_spec:
  assumes "rp_wf p" and "uint n < 2 ^ 31"
  shows "RPacketCopyBytes p n =
    (if unat n \<le> length (rp_view p)
     then Inr (take (unat n) (rp_view p), RPacketForward p n) else Inl Fail)"
  using rp_bound_exact[OF assms] rp_slice[OF assms(1)]
  by (simp add: RPacketCopyBytes_def RPacketPeekCopyBytes_def)

lemma RPacketPull_spec:
  assumes "rp_wf p" and "uint n < 2 ^ 31"
  shows "RPacketPull p n =
    (if unat n \<le> length (rp_view p) then Inr (RPacketForward p n) else Inl Fail)"
  using rp_bound_exact[OF assms] by (simp add: RPacketPull_def)

text \<open>Every successful read advances the packet.\<close>

lemma read_adv [wf_intros]:
  "RPacketGetData p n = Inr (d, p') \<Longrightarrow> rp_adv p p'"
  "RPacketGetBytes p n = Inr (i, p') \<Longrightarrow> rp_adv p p'"
  "RPacketCopyBytes p n = Inr (s, p') \<Longrightarrow> rp_adv p p'"
  "RPacketPull p n = Inr p' \<Longrightarrow> rp_adv p p'"
  by (auto simp: RPacketGetData_def RPacketGetBytes_def RPacketCopyBytes_def RPacketPull_def
      bindR_eq_Inr split: if_splits)

text \<open>A successful one-byte read lies inside the buffer and moves strictly forward.\<close>

lemma RPacketGet1_strict:
  assumes "RPacketGet1 p = Inr (d, p')"
  shows "rp_buf p' = rp_buf p" and "rp_curr p' = rp_curr p + 1"
    and "0 \<le> rp_curr p" and "rp_curr p < int (length (rp_buf p))"
  using assms
  by (auto simp: RPacketGet1_def RPacketGetData_def RPacketPeekData_def RPacketForward_def
      bindR_eq_Inr mem_get_Inr split: if_splits)

lemma rp_sub_view:
  assumes "rp_wf p" and "unat n \<le> length (rp_view p)"
  shows "rp_wf (RPacketBufInit (rp_buf p) (rp_curr p) n)"
    and "rp_view (RPacketBufInit (rp_buf p) (rp_curr p) n) = take (unat n) (rp_view p)"
proof -
  have "unat n \<le> unat (rp_remaining p)" using assms by (simp add: length_rp_view)
  then show "rp_wf (RPacketBufInit (rp_buf p) (rp_curr p) n)"
    using assms(1) by (simp add: rp_wf_nat RPacketBufInit_def RPacketHeadSync_def)
  from \<open>unat n \<le> unat (rp_remaining p)\<close>
  show "rp_view (RPacketBufInit (rp_buf p) (rp_curr p) n) = take (unat n) (rp_view p)"
    by (simp add: rp_view_def RPacketBufInit_def RPacketHeadSync_def min_def)
qed

section \<open>The reader interface\<close>

text \<open>
  What the parsers of the development need of a reader: a view as a byte string, an invariant, and
  a one-byte read that takes the head of the view and fails only on the empty one.
\<close>

locale byte_reader =
  fixes get1 :: "'p \<Rightarrow> (u32 \<times> 'p) res"
    and view :: "'p \<Rightarrow> bytes"
    and inv :: "'p \<Rightarrow> bool"
  assumes get1_Nil: "inv p \<Longrightarrow> view p = [] \<Longrightarrow> get1 p = Inl Fail"
    and get1_Cons: "inv p \<Longrightarrow> view p = b # bs \<Longrightarrow>
      \<exists>p'. get1 p = Inr (ucast b, p') \<and> inv p' \<and> view p' = bs"

interpretation rpr: byte_reader RPacketGet1 rp_view rp_wf
proof
  fix p assume "rp_wf p" and "rp_view p = []"
  then show "RPacketGet1 p = Inl Fail" by (simp add: RPacketGet1_spec)
next
  fix p b bs assume wf: "rp_wf p" and v: "rp_view p = b # bs"
  have "rp_wf (RPacketForward p 1)" and "rp_view (RPacketForward p 1) = bs"
    using rp_Forward_wf[OF wf, of 1] v by simp_all
  then show "\<exists>p'. RPacketGet1 p = Inr (ucast b, p') \<and> rp_wf p' \<and> rp_view p' = bs"
    using wf v by (simp add: RPacketGet1_spec)
qed

section \<open>Lengths the bounds test does not see\<close>

lemma quic_diff_multiple_2_32:
  fixes a :: u64
  assumes "uint a < 2 ^ 31" and "k < 2 ^ 32"
  shows "quic_diff a (of_nat (k * 2 ^ 32)) = uint a"
proof -
  have "a - of_nat (k * 2 ^ 32) = word_of_int (uint a - int k * 2 ^ 32)" by simp
  then have "quic_diff a (of_nat (k * 2 ^ 32)) = signed_take_bit 31 (uint a - int k * 2 ^ 32)"
    by (intro quic_diff_of_int) simp_all
  also have "take_bit 32 (uint a - int k * 2 ^ 32) = take_bit 32 (uint a)"
    by (metis diff_conv_add_uminus mod_mult_self1 mult_minus_left take_bit_eq_mod)
  then have "signed_take_bit 31 (uint a - int k * 2 ^ 32) = signed_take_bit 31 (uint a)"
    by (simp add: signed_take_bit_eq_iff_take_bit_eq)
  also have "\<dots> = uint a"
  proof (rule signed_take_bit_int_eq_self)
    show "- (2 ^ 31) \<le> uint a" by (rule order_trans [OF _ uint_ge_0]) simp
  qed (use assms(1) in simp)
  finally show ?thesis .
qed

text \<open>C35: the bounds test of the packet reader compares 32-bit truncations, so on every well-formed
  packet a length that is a positive multiple of \<open>2 ^ 32\<close> passes it: \<^verbatim>\<open>RPacketPull\<close> moves the read
  position past the end of the buffer and \<^verbatim>\<open>RPacketCopyBytes\<close> reads outside it.\<close>

theorem huge_length_accepted:
  assumes "rp_wf p" and "0 < k" and "k < 2 ^ 32"
  shows "(\<exists>p'. RPacketPull p (of_nat (k * 2 ^ 32)) = Inr p' \<and> int (length (rp_buf p')) < rp_curr p')
    \<and> RPacketCopyBytes p (of_nat (k * 2 ^ 32)) = Inl Bad_mem"
proof -
  let ?n = "of_nat (k * 2 ^ 32) :: u64"
  have un: "unat ?n = k * 2 ^ 32" using assms(3) by (intro of_nat_unat64) simp
  then have un': "uint ?n = int k * 2 ^ 32" by (metis of_nat_mult of_nat_numeral of_nat_power uint_nat)
  have "\<not> QUIC_LT (RPacketRemaining p) ?n"
    using quic_diff_multiple_2_32[OF rp_wf_remaining_bound[OF assms(1)] assms(3)] uint_ge_0[of "rp_remaining p"]
    by (simp only: QUIC_LT_def RPacketRemaining_def not_less)
  moreover have "int (length (rp_buf p)) < 2 ^ 31" "0 \<le> rp_curr p"
    using assms(1) by (auto simp: rp_wf_def)
  moreover have "(2 :: int) ^ 32 \<le> int k * 2 ^ 32" using assms(2) by simp
  ultimately show ?thesis
    using un un' assms(2)
    by (simp add: RPacketPull_def RPacketCopyBytes_def RPacketPeekCopyBytes_def RPacketForward_def mem_slice_def)
qed

theorem huge_length_accepted_witness:
  "RPacketCopyBytes (RPacketBufInit [1, 2, 3] 0 3) 4294967296 = Inl Bad_mem"
  using huge_length_accepted[of "RPacketBufInit [1, 2, 3] 0 3" 1]
  by (simp add: rp_wf_def RPacketBufInit_def RPacketHeadSync_def)

end
