(* ===== verification/VarInt.thy ===== *)
theory VarInt
  imports Packet_Read
begin

text \<open>
  Variable-length integers of \<^verbatim>\<open>quic/format.c\<close>: \<^verbatim>\<open>QuicVariableLengthEncode\<close> writes into a byte
  buffer, \<^verbatim>\<open>QuicVariableLengthDecode\<close> reads from a packet. The two high bits of the first byte
  (the bit-field \<^verbatim>\<open>prefix\<close> of \<^verbatim>\<open>QuicVarLenFirstByte\<close>) hold the logarithm of the length.
\<close>

section \<open>Operations\<close>

definition var_set_prefix :: "u8 \<Rightarrow> u8 \<Rightarrow> u8" where
  "var_set_prefix b p = (b AND 0x3F) OR push_bit 6 (p AND 0x03)"

definition var_set_value :: "u8 \<Rightarrow> u8 \<Rightarrow> u8" where
  "var_set_value b v = (b AND 0xC0) OR (v AND 0x3F)"

definition var_prefix :: "u8 \<Rightarrow> u8" where "var_prefix b = drop_bit 6 b"

definition var_value :: "u8 \<Rightarrow> u8" where "var_value b = b AND 0x3F"

text \<open>Bytes \<open>i = len - n .. len - 1\<close> of the encoding.\<close>

fun varenc_loop :: "bytes \<Rightarrow> u64 \<Rightarrow> nat \<Rightarrow> nat \<Rightarrow> bytes res" where
  "varenc_loop buf v len 0 = Inr buf"
| "varenc_loop buf v len (Suc n) =
     (let i = len - Suc n; shift = (len - i - 1) * 8 in
      bindR (mem_set buf (int i) (ucast (drop_bit shift v AND 0xFF)))
        (\<lambda>buf'. varenc_loop buf' v len n))"

definition QuicVariableLengthValueEncode ::
    "bytes \<Rightarrow> u64 \<Rightarrow> u64 \<Rightarrow> nat \<Rightarrow> (bytes \<times> nat) res" where
  "QuicVariableLengthValueEncode buf blen v prefix =
     (let len = 2 ^ prefix; shift = (len - 1) * 8 in
      if len > unat blen then Inl Fail
      else
        bindR (mem_get buf 0) (\<lambda>b0.
        bindR (mem_set buf 0 (var_set_value (var_set_prefix b0 (of_nat prefix))
                 (ucast (drop_bit shift v AND 0x3F)))) (\<lambda>buf1.
        bindR (varenc_loop buf1 v len (len - 1)) (\<lambda>buf2. Inr (buf2, len)))))"

text \<open>The search for the shortest form: the loop over \<^verbatim>\<open>prefix\<close> from 3 down to 1.\<close>

fun varenc_prefix :: "nat \<Rightarrow> u64 \<Rightarrow> nat" where
  "varenc_prefix 0 v = 0"
| "varenc_prefix (Suc p) v =
     (if drop_bit (2 ^ p * 8 - 2) v > 0 then Suc p else varenc_prefix p v)"

definition QuicVariableLengthEncode :: "bytes \<Rightarrow> u64 \<Rightarrow> u64 \<Rightarrow> (bytes \<times> nat) res" where
  "QuicVariableLengthEncode buf blen v =
     (if drop_bit 62 v > 0 then Inl Fail
      else QuicVariableLengthValueEncode buf blen v (varenc_prefix 3 v))"

text \<open>The decoding loop, over any one-byte reader.\<close>

fun vardec_loop :: "('p \<Rightarrow> (u32 \<times> 'p) res) \<Rightarrow> nat \<Rightarrow> u64 \<Rightarrow> 'p \<Rightarrow> (u64 \<times> 'p) res" where
  "vardec_loop get1 0 acc p = Inr (acc, p)"
| "vardec_loop get1 (Suc n) acc p =
     bindR (get1 p) (\<lambda>(v, p'). vardec_loop get1 n (push_bit 8 acc + ucast v) p')"

definition QuicVariableLengthDecode :: "RPacket \<Rightarrow> (u64 \<times> RPacket) res" where
  "QuicVariableLengthDecode pkt =
     bindR (RPacketGet1 pkt) (\<lambda>(v, pkt').
       let var = ucast v :: u8; len = 2 ^ unat (var_prefix var) in
       vardec_loop RPacketGet1 (len - 1) (ucast (var_value var)) pkt')"

section \<open>Reference encoding\<close>

text \<open>The big-endian bytes of the low \<open>8 * n\<close> bits, and the length RFC 9000 (section 16) gives.\<close>

fun be_bytes :: "nat \<Rightarrow> u64 \<Rightarrow> bytes" where
  "be_bytes 0 v = []"
| "be_bytes (Suc n) v = ucast (drop_bit (8 * n) v) # be_bytes n v"

definition varint_prefix :: "u64 \<Rightarrow> nat" where
  "varint_prefix v = (if uint v < 2 ^ 6 then 0 else if uint v < 2 ^ 14 then 1 else if uint v < 2 ^ 30 then 2 else 3)"

definition varint_len :: "u64 \<Rightarrow> nat" where
  "varint_len v = 2 ^ varint_prefix v"

definition varint_bytes :: "u64 \<Rightarrow> bytes" where
  "varint_bytes v = (let p = varint_prefix v; m = 2 ^ p - 1 in
     (push_bit 6 (of_nat p) OR (ucast (drop_bit (8 * m) v) AND 0x3F)) # be_bytes m v)"

lemma length_be_bytes [simp]: "length (be_bytes n v) = n"
  by (induction n) auto

lemma varint_prefix_le: "varint_prefix v \<le> 3"
  by (simp add: varint_prefix_def)

lemma length_varint_bytes [simp]: "length (varint_bytes v) = varint_len v"
  by (simp add: varint_bytes_def varint_len_def Let_def)

lemma drop_bit_pos_iff: "0 < drop_bit n (v :: u64) \<longleftrightarrow> \<not> uint v < 2 ^ n"
proof -
  have "take_bit 64 (uint v) = uint v"
    using uint_lt2p[of v] by (intro take_bit_int_eq_self) simp_all
  moreover have "uint (drop_bit n v) = drop_bit n (take_bit LENGTH(64) (uint v))"
    by (rule unsigned_drop_bit_eq)
  ultimately have "uint (drop_bit n v) = drop_bit n (uint v)" by simp
  also have "\<dots> = uint v div 2 ^ n" by (rule drop_bit_eq_div)
  finally have "uint (drop_bit n v) = uint v div 2 ^ n" .
  moreover have "0 < drop_bit n v \<longleftrightarrow> 0 < uint (drop_bit n v)"
    by (simp add: word_less_def)
  ultimately show ?thesis
    by (simp add: pos_imp_zdiv_pos_iff not_less)
qed

lemma varenc_prefix_eq: "varenc_prefix 3 v = varint_prefix v"
  by (simp add: numeral_3_eq_3 drop_bit_pos_iff varint_prefix_def)

lemma varint_bound: "uint v < 2 ^ 62 \<Longrightarrow> uint v < 2 ^ (8 * (2 ^ varint_prefix v - 1) + 6)"
  by (auto simp: varint_prefix_def)

section \<open>The encoder writes the reference encoding\<close>

lemma ucast_and_ff: "ucast ((w :: u64) AND 0xFF) = (ucast w :: u8)"
proof -
  have m: "(0xFF :: u64) = mask 8" by (simp add: mask_eq_exp_minus_1)
  show ?thesis unfolding m by (rule bit_eqI) (auto simp: bit_simps)
qed

lemma varenc_loop_spec:
  assumes "length buf = k" and "len = i + n" and "len \<le> k" and "0 < len"
  shows "varenc_loop buf v len n = Inr (take i buf @ be_bytes n v @ drop len buf)"
  using assms
proof (induction n arbitrary: buf i)
  case 0
  then show ?case by simp
next
  case (Suc n)
  let ?b = "buf[i := ucast (drop_bit (8 * n) v)]"
  have "varenc_loop ?b v len n = Inr (take (Suc i) ?b @ be_bytes n v @ drop len ?b)"
    using Suc.prems by (intro Suc.IH) auto
  moreover have "take (Suc i) ?b = take i buf @ [ucast (drop_bit (8 * n) v)]"
    using Suc.prems by (simp add: take_Suc_conv_app_nth)
  moreover have "drop len ?b = drop len buf" using Suc.prems by simp
  ultimately show ?case
    using Suc.prems by (simp add: mem_set_def ucast_and_ff mult.commute)
qed

lemma var_first_byte_bits:
  "((b AND 0x3F OR push_bit 6 (q AND 0x03)) AND 0xC0) OR (x AND 0x3F) = push_bit 6 q OR (x AND 0x3F :: u8)"
proof -
  have m: "(0x3F :: u8) = mask 6" "(0x03 :: u8) = mask 2" "(0xC0 :: u8) = push_bit 6 (mask 2)"
    by (simp_all add: mask_eq_exp_minus_1)
  show ?thesis unfolding m by (rule bit_eqI) (auto simp: bit_simps)
qed

lemma var_first_byte:
  "var_set_value (var_set_prefix b q) (ucast (w AND 0x3F :: u64)) = push_bit 6 q OR (ucast w AND 0x3F)"
proof -
  have m: "(0x3F :: u64) = mask 6" "(0x3F :: u8) = mask 6"
    by (simp_all add: mask_eq_exp_minus_1)
  have "ucast (w AND 0x3F :: u64) = (ucast w AND 0x3F :: u8)"
    unfolding m by (rule bit_eqI) (auto simp: bit_simps)
  then show ?thesis
    by (simp only: var_set_value_def var_set_prefix_def var_first_byte_bits and.assoc and.idem)
qed

theorem QuicVariableLengthEncode_spec:
  assumes "uint v < 2 ^ 62" and "varint_len v \<le> unat blen" and "unat blen = length buf"
  shows "QuicVariableLengthEncode buf blen v =
    Inr (varint_bytes v @ drop (varint_len v) buf, varint_len v)"
proof -
  let ?p = "varint_prefix v"
  let ?l = "(2::nat) ^ ?p"
  let ?f = "var_set_value (var_set_prefix (buf ! 0) (of_nat ?p))
       (ucast (drop_bit ((?l - 1) * 8) v AND 0x3F))"
  have l0: "0 < ?l" by simp
  have l1: "?l \<le> length buf" using assms(2,3) by (simp add: varint_len_def)
  have l: "?l \<le> length buf" "0 < length buf" "0 < ?l"
    using l1 less_le_trans[OF l0 l1] by simp_all
  have g: "mem_get buf 0 = Inr (buf ! 0)" "mem_set buf 0 ?f = Inr (buf[0 := ?f])"
    using l by (simp_all add: mem_get_def mem_set_def)
  have "varenc_loop (buf[0 := ?f]) v ?l (?l - 1) =
    Inr (take 1 (buf[0 := ?f]) @ be_bytes (?l - 1) v @ drop ?l (buf[0 := ?f]))"
    using l by (intro varenc_loop_spec) auto
  moreover have "take 1 (buf[0 := ?f]) = [?f]" using l by (cases buf) auto
  moreover have "drop ?l (buf[0 := ?f]) = drop ?l buf" using l by simp
  moreover have "?f = push_bit 6 (of_nat ?p) OR (ucast (drop_bit (8 * (?l - 1)) v) AND 0x3F)"
    by (simp add: var_first_byte mult.commute)
  ultimately show ?thesis
    using assms(1) l g
    by (simp add: QuicVariableLengthEncode_def QuicVariableLengthValueEncode_def drop_bit_pos_iff
        varenc_prefix_eq varint_bytes_def varint_len_def Let_def assms(3))
qed

lemma QuicVariableLengthEncode_too_large:
  "\<not> uint v < 2 ^ 62 \<Longrightarrow> QuicVariableLengthEncode buf blen v = Inl Fail"
  by (simp add: QuicVariableLengthEncode_def drop_bit_pos_iff)

lemma QuicVariableLengthEncode_no_room:
  "unat blen < varint_len v \<Longrightarrow> QuicVariableLengthEncode buf blen v = Inl Fail"
  by (simp add: QuicVariableLengthEncode_def QuicVariableLengthValueEncode_def varenc_prefix_eq
      varint_len_def Let_def)

section \<open>The decoder\<close>

lemma ucast_via_u32: "(ucast (ucast (b :: u8) :: u32) :: u64) = ucast b"
  by (rule bit_eqI) (auto simp: bit_simps dest: bit_imp_le_length)

definition be_acc :: "u64 \<Rightarrow> bytes \<Rightarrow> u64" where
  "be_acc acc bs = foldl (\<lambda>a b. push_bit 8 a + ucast b) acc bs"

context byte_reader begin

lemma vardec_loop_view:
  "inv p \<Longrightarrow> view p = bs @ rest \<Longrightarrow> \<exists>p'. vardec_loop get1 (length bs) acc p =
     Inr (be_acc acc bs, p') \<and> inv p' \<and> view p' = rest"
proof (induction bs arbitrary: p acc)
  case Nil
  then show ?case by (simp add: be_acc_def)
next
  case (Cons b bs)
  then obtain p' where p': "get1 p = Inr (ucast b, p')" "inv p'" "view p' = bs @ rest"
    using get1_Cons[of p b "bs @ rest"] by auto
  from Cons.IH[OF p'(2,3), of "push_bit 8 acc + ucast b"] p'(1)
  show ?case by (auto simp: be_acc_def ucast_via_u32)
qed

lemma vardec_loop_short:
  "inv p \<Longrightarrow> length (view p) < n \<Longrightarrow> vardec_loop get1 n acc p = Inl Fail"
proof (induction n arbitrary: p acc)
  case 0
  then show ?case by simp
next
  case (Suc n)
  show ?case
  proof (cases "view p")
    case Nil
    then show ?thesis using Suc.prems get1_Nil by simp
  next
    case (Cons b bs)
    then obtain p' where "get1 p = Inr (ucast b, p')" "inv p'" "view p' = bs"
      using get1_Cons[OF Suc.prems(1)] by blast
    then show ?thesis using Suc Cons by simp
  qed
qed

end

text \<open>Folding the bytes back gives the low bits they were taken from.\<close>

lemma be_acc_be_bytes:
  "be_acc acc (be_bytes n v) = push_bit (8 * n) acc + take_bit (8 * n) v"
proof (induction n arbitrary: acc)
  case 0
  then show ?case by (simp add: be_acc_def)
next
  case (Suc n)
  let ?d = "ucast (ucast (drop_bit (8 * n) v) :: u8) :: u64"
  have d: "?d = take_bit 8 (drop_bit (8 * n) v)"
    by (rule bit_eqI) (auto simp: bit_simps)
  have t: "take_bit (8 * n + 8) v = push_bit (8 * n) (take_bit 8 (drop_bit (8 * n) v)) + take_bit (8 * n) v"
    using bits_ident[of "8 * n" "take_bit (8 * n + 8) v"] by (simp add: drop_bit_take_bit)
  have "be_acc acc (be_bytes (Suc n) v) = be_acc (push_bit 8 acc + ?d) (be_bytes n v)"
    by (simp add: be_acc_def)
  also have "\<dots> = push_bit (8 * n) (push_bit 8 acc + ?d) + take_bit (8 * n) v"
    by (rule Suc.IH)
  also have "\<dots> = push_bit (8 * n + 8) acc + take_bit (8 * n + 8) v"
    unfolding d t by (simp add: push_bit_add add.assoc)
  finally show ?case by (simp add: add.commute)
qed

definition var_extra :: "u8 \<Rightarrow> nat" where
  "var_extra b = 2 ^ unat (var_prefix b) - 1"

lemma ucast_u8_u32 [simp]: "(ucast (ucast (b :: u8) :: u32) :: u8) = b"
  by (rule bit_eqI) (auto simp: bit_simps)

theorem QuicVariableLengthDecode_view:
  assumes "rp_wf p" and "rp_view p = b # bs @ rest" and "length bs = var_extra b"
  shows "\<exists>p'. QuicVariableLengthDecode p = Inr (be_acc (ucast (var_value b)) bs, p') \<and> rp_wf p'
    \<and> rp_view p' = rest"
proof -
  obtain q where q: "RPacketGet1 p = Inr (ucast b, q)" "rp_wf q" "rp_view q = bs @ rest"
    using rpr.get1_Cons[OF assms(1,2)] by blast
  from rpr.vardec_loop_view[OF q(2,3), of "ucast (var_value b)"] show ?thesis
    using q(1) assms(3) by (auto simp: QuicVariableLengthDecode_def var_extra_def Let_def)
qed

lemma QuicVariableLengthDecode_short:
  assumes "rp_wf p"
    and "rp_view p = [] \<or> (\<exists>b bs. rp_view p = b # bs \<and> length bs < var_extra b)"
  shows "QuicVariableLengthDecode p = Inl Fail"
proof (cases "rp_view p")
  case Nil
  then show ?thesis
    using rpr.get1_Nil[OF assms(1)] by (simp add: QuicVariableLengthDecode_def)
next
  case (Cons b bs)
  obtain q where q: "RPacketGet1 p = Inr (ucast b, q)" "rp_wf q" "rp_view q = bs"
    using rpr.get1_Cons[OF assms(1) Cons] by blast
  from assms(2) Cons have "length (rp_view q) < var_extra b" using q by simp
  from rpr.vardec_loop_short[OF q(2) this] show ?thesis
    using q(1) by (simp add: QuicVariableLengthDecode_def var_extra_def Let_def)
qed

text \<open>On a well-formed packet the decoder never leaves the buffer.\<close>

lemma QuicVariableLengthDecode_safe: "rp_wf p \<Longrightarrow> safe (QuicVariableLengthDecode p)"
proof -
  assume wf: "rp_wf p"
  consider "rp_view p = [] \<or> (\<exists>b bs. rp_view p = b # bs \<and> length bs < var_extra b)"
    | b bs where "rp_view p = b # bs" "var_extra b \<le> length bs"
    by (cases "rp_view p") (use not_less in \<open>blast+\<close>)
  then show ?thesis
  proof cases
    case 1
    then show ?thesis using QuicVariableLengthDecode_short[OF wf] by simp
  next
    case (2 b bs)
    have "rp_view p = b # take (var_extra b) bs @ drop (var_extra b) bs" using 2(1) by simp
    from QuicVariableLengthDecode_view[OF wf this] 2(2) show ?thesis by auto
  qed
qed

lemma take_bit_full: "uint (v :: 'a::len word) < 2 ^ n \<Longrightarrow> take_bit n v = v"
proof -
  assume "uint v < 2 ^ n"
  then have "take_bit n (uint v) = uint v" by (intro take_bit_int_eq_self) simp_all
  then show ?thesis by (simp add: word_uint_eq_iff unsigned_take_bit_eq)
qed

lemma var_value_first:
  assumes "p \<le> 3"
  shows "var_prefix (push_bit 6 (of_nat p) OR (x AND 0x3F)) = of_nat p"
    and "var_value (push_bit 6 (of_nat p) OR (x AND 0x3F)) = x AND 0x3F"
proof -
  have m: "(0x3F :: u8) = mask 6" by (simp add: mask_eq_exp_minus_1)
  have "uint (of_nat p :: u8) < 2 ^ 2"
    using assms by (simp add: unsigned_of_nat take_bit_nat_eq_self)
  then have q: "(of_nat p :: u8) = take_bit 2 (of_nat p)"
    by (simp add: take_bit_full)
  show "var_prefix (push_bit 6 (of_nat p) OR (x AND 0x3F)) = of_nat p"
    unfolding m var_prefix_def by (subst (1 2) q, rule bit_eqI) (auto simp: bit_simps simp del: bit_of_nat_iff)
  show "var_value (push_bit 6 (of_nat p) OR (x AND 0x3F)) = x AND 0x3F"
    unfolding m var_value_def by (rule bit_eqI) (auto simp: bit_simps)
qed

lemma be_acc_first:
  "uint v < 2 ^ (8 * m + 6) \<Longrightarrow>
     be_acc (ucast (ucast (drop_bit (8 * m) v) AND 0x3F :: u8)) (be_bytes m v) = v"
proof -
  assume v: "uint v < 2 ^ (8 * m + 6)"
  have m6: "(0x3F :: u8) = mask 6" by (simp add: mask_eq_exp_minus_1)
  have u: "ucast (ucast (drop_bit (8 * m) v) AND 0x3F :: u8) = take_bit 6 (drop_bit (8 * m) v)"
    unfolding m6 by (rule bit_eqI) (auto simp: bit_simps)
  have "push_bit (8 * m) (take_bit 6 (drop_bit (8 * m) v)) + take_bit (8 * m) v
    = take_bit (8 * m + 6) v"
    using bits_ident[of "8 * m" "take_bit (8 * m + 6) v"] by (simp add: drop_bit_take_bit)
  then show ?thesis by (simp add: be_acc_be_bytes u take_bit_full[OF v])
qed

theorem varint_decode_bytes:
  assumes "rp_wf p" and "uint v < 2 ^ 62" and "rp_view p = varint_bytes v @ rest"
  shows "\<exists>p'. QuicVariableLengthDecode p = Inr (v, p') \<and> rp_wf p' \<and> rp_view p' = rest"
proof -
  let ?m = "2 ^ varint_prefix v - 1"
  let ?b = "push_bit 6 (of_nat (varint_prefix v)) OR (ucast (drop_bit (8 * ?m) v) AND 0x3F) :: u8"
  have "unat (of_nat (varint_prefix v) :: u8) = varint_prefix v"
    using varint_prefix_le[of v] by (simp add: unat_of_nat take_bit_nat_eq_self)
  then have x: "var_extra ?b = ?m"
    by (simp add: var_extra_def var_value_first[OF varint_prefix_le])
  have "rp_view p = ?b # be_bytes ?m v @ rest"
    using assms(3) by (simp add: varint_bytes_def Let_def)
  from QuicVariableLengthDecode_view[OF assms(1) this] x show ?thesis
    using be_acc_first[OF varint_bound[OF assms(2)]]
    by (simp add: var_value_first[OF varint_prefix_le])
qed

section \<open>Progress of the decoder\<close>

lemma vardec_loop_adv: "vardec_loop RPacketGet1 n acc p = Inr (v, p') \<Longrightarrow> rp_adv p p'"
proof (induction n arbitrary: acc p)
  case 0
  then show ?case by simp
next
  case (Suc n)
  then obtain b q where q: "RPacketGet1 p = Inr (b, q)"
    and r: "vardec_loop RPacketGet1 n (push_bit 8 acc + ucast b) q = Inr (v, p')"
    by (auto simp: bindR_eq_Inr)
  have "rp_adv p q" using RPacketGet1_strict[OF q] by (simp add: rp_adv_def)
  also have "rp_adv q p'" using r by (rule Suc.IH)
  finally show ?case .
qed

text \<open>A decoded integer starts inside the buffer and the packet moves past its first byte, for any
  packet: the parser loops that decode until the packet ends therefore end.\<close>

lemma QuicVariableLengthDecode_strict:
  assumes "QuicVariableLengthDecode p = Inr (v, p')"
  shows "rp_buf p' = rp_buf p" and "rp_curr p < rp_curr p'"
    and "0 \<le> rp_curr p" and "rp_curr p < int (length (rp_buf p))"
proof -
  obtain b q where q: "RPacketGet1 p = Inr (b, q)" and "rp_adv q p'"
    using assms by (auto simp: QuicVariableLengthDecode_def Let_def bindR_eq_Inr
        intro: vardec_loop_adv)
  then show "rp_buf p' = rp_buf p" and "rp_curr p < rp_curr p'"
    and "0 \<le> rp_curr p" and "rp_curr p < int (length (rp_buf p))"
    using RPacketGet1_strict[OF q] by (auto simp: rp_adv_def)
qed

lemma QuicVariableLengthDecode_adv [wf_intros]:
  "QuicVariableLengthDecode p = Inr (v, p') \<Longrightarrow> rp_adv p p'"
  using QuicVariableLengthDecode_strict by (force simp: rp_adv_def)

text \<open>C20: on every well-formed packet \<^verbatim>\<open>QuicVariableLengthDecode\<close> stays inside the buffer: it fails
  exactly when the packet is empty or ends before the number of bytes its first byte announces,
  and otherwise consumes exactly that many bytes.\<close>

theorem varint_decode_exact:
  assumes "rp_wf p"
  shows "case rp_view p of [] \<Rightarrow> QuicVariableLengthDecode p = Inl Fail
    | b # bs \<Rightarrow> if length bs < var_extra b then QuicVariableLengthDecode p = Inl Fail
        else \<exists>v p'. QuicVariableLengthDecode p = Inr (v, p') \<and> rp_wf p' \<and> rp_view p' = drop (var_extra b) bs"
proof (cases "rp_view p")
  case Nil
  then show ?thesis using QuicVariableLengthDecode_short[OF assms] by simp
next
  case (Cons b bs)
  show ?thesis
  proof (cases "length bs < var_extra b")
    case True
    then show ?thesis using QuicVariableLengthDecode_short[OF assms] Cons by simp
  next
    case False
    have "rp_view p = b # take (var_extra b) bs @ drop (var_extra b) bs" using Cons by simp
    from QuicVariableLengthDecode_view[OF assms this] False Cons show ?thesis by auto
  qed
qed

theorem varint_decode_exact_witness:
  "QuicVariableLengthDecode (RPacketBufInit [0xC0, 0, 0] 0 3) = Inl Fail"
proof -
  have "var_extra 0xC0 = 7" by code_simp
  then show ?thesis
    using varint_decode_exact[of "RPacketBufInit [0xC0, 0, 0] 0 3"]
    by (simp add: rp_wf_def rp_view_def RPacketBufInit_def RPacketHeadSync_def)
qed

end
