(* ===== verification/Pkt_Num.thy ===== *)
theory Pkt_Num
  imports Prelude
begin

text \<open>
  Packet number encoding and decoding of \<^verbatim>\<open>quic/format.c\<close> (after RFC 9000, appendices A.2 and A.3),
  with the RFC's algorithm over unbounded integers as the reference.
\<close>

section \<open>Operations\<close>

definition QuicPktNumberGetParam :: "nat \<Rightarrow> (u64 \<times> u64 \<times> u64) res" where
  "QuicPktNumberGetParam pn_nbits =
     bindR (assertR (pn_nbits \<le> 32)) (\<lambda>_.
       let win = push_bit pn_nbits 1 in Inr (win, drop_bit 1 win, win - 1))"

text \<open>The index of the highest set bit below \<open>n\<close>, or -1: the loop over \<^verbatim>\<open>i\<close>.\<close>

fun high_bit :: "nat \<Rightarrow> u64 \<Rightarrow> int" where
  "high_bit 0 v = -1"
| "high_bit (Suc i) v = (if drop_bit i v \<noteq> 0 then int i else high_bit i v)"

definition QuicPktNumberEncode :: "u64 \<Rightarrow> u64 \<Rightarrow> nat \<Rightarrow> u32 res" where
  "QuicPktNumberEncode full_pn largest_acked pn_nbits =
     bindR (QuicPktNumberGetParam pn_nbits) (\<lambda>(pn_win, pn_hwin, pn_mask).
     bindR (if largest_acked = 0 then Inr (full_pn + 1)
            else bindR (assertR (QUIC_GE full_pn largest_acked)) (\<lambda>_. Inr (full_pn - largest_acked)))
     (\<lambda>num_unacked.
       let min_bits = nat (high_bit 64 num_unacked + 2);
           num_bytes = min_bits div 8 + (if min_bits mod 8 \<noteq> 0 then 1 else 0)
       in if num_bytes > pn_nbits then Inr (- 1) else Inr (ucast (full_pn AND pn_mask))))"

definition QuicPktNumberDecode :: "u64 \<Rightarrow> u32 \<Rightarrow> nat \<Rightarrow> u64 res" where
  "QuicPktNumberDecode largest_pn truncated_pn pn_nbits =
     (let expected_pn = largest_pn + 1 in
      bindR (QuicPktNumberGetParam pn_nbits) (\<lambda>(pn_win, pn_hwin, pn_mask).
        let candidate_pn = (expected_pn AND NOT pn_mask) OR ucast truncated_pn in
        if QUIC_LE candidate_pn (expected_pn - pn_hwin) \<and>
           QUIC_LT candidate_pn (push_bit 62 1 - pn_win) then Inr (candidate_pn + pn_win)
        else if QUIC_GT candidate_pn (expected_pn + pn_hwin) \<and> QUIC_GE candidate_pn pn_win
        then Inr (candidate_pn - pn_win)
        else Inr candidate_pn))"

section \<open>The reference algorithm\<close>

definition rfc_candidate :: "int \<Rightarrow> int \<Rightarrow> nat \<Rightarrow> int" where
  "rfc_candidate largest t n = (largest + 1) div 2 ^ n * 2 ^ n + t"

definition rfc_decode :: "int \<Rightarrow> int \<Rightarrow> nat \<Rightarrow> int" where
  "rfc_decode largest t n =
     (let expected = largest + 1; win = 2 ^ n; hwin = win div 2;
          candidate = rfc_candidate largest t n in
      if candidate \<le> expected - hwin \<and> candidate < 2 ^ 62 - win then candidate + win
      else if candidate > expected + hwin \<and> candidate \<ge> win then candidate - win
      else candidate)"

section \<open>The candidate\<close>

lemma win_mask: "(push_bit n 1 - 1 :: u64) = mask n" "(2 ^ n - 1 :: u64) = mask n"
  by (simp_all add: mask_eq_exp_minus_1)

lemma uint_candidate:
  fixes l :: u64 and t :: u32
  assumes "n \<le> 32" and "uint l < 2 ^ 62" and "uint t < 2 ^ n"
  shows "uint (((l + 1) AND NOT (push_bit n 1 - 1)) OR ucast t :: u64) = rfc_candidate (uint l) (uint t) n"
proof -
  let ?e = "l + 1"
  have tb: "take_bit n t = t"
  proof -
    have "take_bit n (uint t) = uint t" using assms(3) by (intro take_bit_int_eq_self) simp_all
    then show ?thesis by (simp add: word_uint_eq_iff unsigned_take_bit_eq)
  qed
  have "take_bit 64 (uint t) = uint t"
  proof -
    have "uint t < 2 ^ 64" using uint_bounds(3)[of t] by simp
    then show ?thesis by (intro take_bit_int_eq_self) simp_all
  qed
  then have u: "uint (ucast t :: u64) = uint t" by (simp add: unsigned_ucast_eq)
  have e: "uint ?e = uint l + 1" using assms(2) by (simp add: uint_word_ariths)
  have hi: "uint (?e AND NOT (mask n)) = (uint l + 1) div 2 ^ n * 2 ^ n"
  proof -
    have "uint (?e AND NOT (mask n)) = uint ?e AND NOT (mask n)"
      by (rule bit_eqI) (auto simp: bit_simps dest: bit_imp_le_length)
    also have "\<dots> = push_bit n (drop_bit n (uint ?e))"
      by (rule bit_eqI) (auto simp: bit_simps)
    also have "\<dots> = (uint l + 1) div 2 ^ n * 2 ^ n"
      by (simp add: e push_bit_eq_mult drop_bit_eq_div)
    finally show ?thesis .
  qed
  have "uint (?e AND NOT (mask n) OR ucast t) = uint (?e AND NOT (mask n)) OR uint (take_bit n t)"
    by (simp add: unsigned_or_eq tb u)
  also have "\<dots> = uint (?e AND NOT (mask n)) + uint (take_bit n t)"
    by (rule disjunctive_add_eq_or[symmetric], rule bit_eqI) (auto simp: bit_simps)
  finally show ?thesis by (simp add: win_mask hi tb rfc_candidate_def)
qed

lemma candidate_near:
  assumes "0 \<le> t" and "t < 2 ^ n"
  shows "- (2 ^ n) < rfc_candidate l t n - (l + 1)" and "rfc_candidate l t n - (l + 1) < 2 ^ n"
proof -
  have "(l + 1) div 2 ^ n * 2 ^ n = l + 1 - (l + 1) mod 2 ^ n"
    by (simp add: minus_mod_eq_div_mult)
  moreover have "0 \<le> (l + 1) mod 2 ^ n" "(l + 1) mod 2 ^ n < 2 ^ n" by simp_all
  ultimately show "- (2 ^ n) < rfc_candidate l t n - (l + 1)"
    and "rfc_candidate l t n - (l + 1) < 2 ^ n"
    unfolding rfc_candidate_def using assms by linarith+
qed

section \<open>What the decoder computes\<close>

text \<open>
  For the 8, 16 and 24 bit forms the two window tests are exact, but the overflow guards
  \<^verbatim>\<open>candidate_pn < (1 << 62) - pn_win\<close> and \<^verbatim>\<open>candidate_pn >= pn_win\<close> look at bit 31 of the
  difference only, because the comparison macros truncate to \<^verbatim>\<open>int\<close>.
\<close>

definition quic_decode :: "int \<Rightarrow> int \<Rightarrow> nat \<Rightarrow> int" where
  "quic_decode largest t n =
     (let expected = largest + 1; win = 2 ^ n; hwin = win div 2;
          candidate = rfc_candidate largest t n in
      if candidate \<le> expected - hwin \<and> bit (candidate + win) 31 then candidate + win
      else if candidate > expected + hwin \<and> \<not> bit (candidate - win) 31 then candidate - win
      else candidate)"

lemma signed_take_bit_add_2_62: "signed_take_bit 31 (x - 2 ^ 62 :: int) = signed_take_bit 31 x"
proof -
  have "take_bit 32 (x - 2 ^ 62) = take_bit 32 x"
  proof -
    have "x - 2 ^ 62 = x + 2 ^ 32 * (- (2 ^ 30))" by simp
    then show ?thesis by (simp only: take_bit_eq_mod mod_mult_self2)
  qed
  then show ?thesis by (simp add: signed_take_bit_eq_iff_take_bit_eq)
qed

theorem QuicPktNumberDecode_eq:
  assumes "1 \<le> n" and "n \<le> 24" and "uint l < 2 ^ 62" and "uint t < 2 ^ n"
  shows "QuicPktNumberDecode l t n = Inr (word_of_int (quic_decode (uint l) (uint t) n))"
proof -
  let ?E = "uint l + 1" and ?W = "2 ^ n :: int" and ?H = "2 ^ n div 2 :: int"
  let ?C = "rfc_candidate (uint l) (uint t) n"
  let ?c = "((l + 1) AND NOT (push_bit n 1 - 1)) OR ucast t :: u64"
  have n: "n \<le> 32" using assms by simp
  have c: "?c = word_of_int ?C"
    by (simp flip: uint_candidate[OF n assms(3,4)])
  have e: "l + 1 = word_of_int ?E" by simp
  have w: "(push_bit n 1 :: u64) = word_of_int ?W" by (simp add: push_bit_eq_mult)
  have h: "(drop_bit 1 (push_bit n 1) :: u64) = word_of_int ?H"
  proof -
    obtain k where k: "n = Suc k" using assms(1) by (cases n) auto
    have "(drop_bit 1 (push_bit n 1) :: u64) = push_bit k 1"
      unfolding k by (rule bit_eqI) (use assms(2) k in \<open>auto simp: bit_simps\<close>)
    then show ?thesis by (simp add: k push_bit_eq_mult)
  qed
  have W: "0 < ?W" "?W \<le> 2 ^ 24" using power_increasing[OF assms(2), of "2 :: int"] by simp_all
  have near: "- ?W < ?C - ?E" "?C - ?E < ?W"
    using candidate_near[of "uint t" n "uint l"] assms(4) by simp_all
  have half: "\<And>x::int. 0 < x \<Longrightarrow> 0 \<le> x div 2 \<and> x div 2 \<le> x" by presburger
  have H: "0 \<le> ?H" "?H \<le> ?W" using half[OF W(1)] by blast+
  have d1: "quic_diff ?c (l + 1 - drop_bit 1 (push_bit n 1)) = ?C - ?E + ?H"
    unfolding c unfolding h
    by (subst quic_diff_of_int[where x = "?C - ?E + ?H"])
      (use near W H in \<open>simp_all add: signed_take_bit_int_eq_self algebra_simps\<close>)
  have d2: "quic_diff ?c (l + 1 + drop_bit 1 (push_bit n 1)) = ?C - ?E - ?H"
    unfolding c unfolding h
    by (subst quic_diff_of_int[where x = "?C - ?E - ?H"])
      (use near W H in \<open>simp_all add: signed_take_bit_int_eq_self algebra_simps\<close>)
  have d3: "quic_diff ?c (push_bit 62 1 - push_bit n 1) = signed_take_bit 31 (?C + ?W)"
    unfolding c unfolding w using signed_take_bit_add_2_62[of "?C + ?W"]
    by (subst quic_diff_of_int[where x = "?C + ?W - 2 ^ 62"]) (simp_all add: push_bit_eq_mult)
  have d4: "quic_diff ?c (push_bit n 1) = signed_take_bit 31 (?C - ?W)"
    unfolding c unfolding w by (subst quic_diff_of_int[where x = "?C - ?W"]) simp_all
  have c2: "((l + 1) AND NOT (2 ^ n - 1)) OR ucast t = (word_of_int ?C :: u64)"
    using c by simp
  have k: "(?C - ?E + ?H \<le> 0) = (?C \<le> ?E - ?H)" "(0 < ?C - ?E - ?H) = (?C > ?E + ?H)" by linarith+
  show ?thesis
    unfolding QuicPktNumberDecode_def QuicPktNumberGetParam_def Let_def quic_cmp_defs
      quic_decode_def
    using n by (simp only: d1 d2 d3 d4 k assertR_simps bindR_simps prod.case if_True)
      (simp add: c2 not_less not_le)
qed

section \<open>The encoder\<close>

lemma high_bit_le: "drop_bit n v = 0 \<Longrightarrow> n \<le> m \<Longrightarrow> high_bit m v < int n"
proof (induction m)
  case 0
  then show ?case by simp
next
  case (Suc m)
  show ?case
  proof (cases "n \<le> m")
    case True
    have "drop_bit m v = drop_bit (m - n) (drop_bit n v)" using True by (simp add: drop_bit_drop_bit)
    then show ?thesis using Suc True by simp
  next
    case False
    then have "n = Suc m" using Suc.prems(2) by simp
    moreover have "high_bit m v < int m"
      by (induction m) auto
    ultimately show ?thesis by simp
  qed
qed

lemma drop_bit_zero64: "uint (v :: u64) < 2 ^ n \<Longrightarrow> drop_bit n v = 0"
proof -
  assume a: "uint v < 2 ^ n"
  have "take_bit LENGTH(64) (uint v) = uint v"
    using uint_lt2p[of v] by (intro take_bit_int_eq_self) simp_all
  then have "uint (drop_bit n v) = drop_bit n (uint v)"
    using unsigned_drop_bit_eq[of n v, where ?'a = int] by metis
  also have "\<dots> = 0" using a by (simp add: drop_bit_eq_div)
  finally show ?thesis by (simp add: uint_0_iff)
qed

text \<open>
  The size check of the encoder compares a number of bytes with a number of bits, so for the
  8, 16, 24 and 32 bit forms it never rejects a packet number below \<open>2 ^ 62\<close>.
\<close>

theorem QuicPktNumberEncode_eq:
  assumes "8 \<le> n" and "n \<le> 32" and "uint full < 2 ^ 62"
    and "acked = 0 \<or> QUIC_GE full acked \<and> acked \<le> full"
  shows "QuicPktNumberEncode full acked n = Inr (ucast (take_bit n full))"
proof -
  let ?u = "if acked = 0 then full + 1 else full - acked"
  have u: "uint ?u < 2 ^ 63"
  proof (cases "acked = 0")
    case True
    then show ?thesis using assms(3) by (simp add: uint_word_ariths)
  next
    case False
    then have "uint (full - acked) = uint full - uint acked"
      using assms(4) by (simp add: uint_sub_lem[symmetric] word_le_def)
    moreover have "uint full < 4611686018427387904" using assms(3) by simp
    ultimately have "uint (full - acked) < 9223372036854775808" using uint_ge_0[of acked] by linarith
    then show ?thesis using False by simp
  qed
  have "high_bit 64 ?u < 63" using high_bit_le[OF drop_bit_zero64[OF u], of 64] by simp
  then have mb: "nat (high_bit 64 ?u + 2) \<le> 64" by simp
  have nb: "\<And>x::nat. x \<le> 64 \<Longrightarrow> x div 8 + (if x mod 8 \<noteq> 0 then 1 else 0) \<le> 8" by auto arith
  have "\<not> nat (high_bit 64 ?u + 2) div 8 + (if nat (high_bit 64 ?u + 2) mod 8 \<noteq> 0 then 1 else 0) > n"
    using nb[OF mb] assms(1) by linarith
  then show ?thesis
    using assms(2,4)
    by (auto simp: QuicPktNumberEncode_def QuicPktNumberGetParam_def Let_def win_mask take_bit_eq_mask)
qed

section \<open>Round trip, and where it breaks\<close>

lemma uint_take_bit_trunc:
  "n \<le> 32 \<Longrightarrow> uint (ucast (take_bit n (full :: u64)) :: u32) = uint full mod 2 ^ n"
proof -
  assume "n \<le> 32"
  then have "uint (ucast (take_bit n full) :: u32) = take_bit n (uint full)"
    by (simp add: unsigned_ucast_eq unsigned_take_bit_eq take_bit_take_bit min_def)
  then show ?thesis by (simp add: take_bit_eq_mod)
qed

lemma rfc_candidate_window:
  assumes "full div 2 ^ n = (l + 1) div 2 ^ n + k"
  shows "rfc_candidate l (full mod 2 ^ n) n = full - k * 2 ^ n"
proof -
  have "full = full div 2 ^ n * 2 ^ n + full mod 2 ^ n" by (rule div_mult_mod_eq [symmetric])
  then show ?thesis using assms by (simp add: rfc_candidate_def algebra_simps)
qed

text \<open>The reference recovers any number within half a window of the expected one.\<close>

theorem rfc_decode_correct:
  assumes "1 \<le> n" and "0 \<le> l" and "0 \<le> full" and "full < 2 ^ 62"
    and "l + 1 - 2 ^ n div 2 < full" and "full \<le> l + 1 + 2 ^ n div 2"
  shows "rfc_decode l (full mod 2 ^ n) n = full"
proof -
  let ?W = "2 ^ n :: int" and ?k = "full div 2 ^ n - (l + 1) div 2 ^ n"
  have c: "rfc_candidate l (full mod 2 ^ n) n = full - ?k * ?W"
    by (rule rfc_candidate_window) simp
  have W: "0 < ?W" and W2: "?W div 2 + ?W div 2 = ?W"
  proof -
    obtain m where "n = Suc m" using assms(1) by (cases n) auto
    then show "?W div 2 + ?W div 2 = ?W" by simp
  qed simp
  have near: "- ?W < full - ?k * ?W - (l + 1)" "full - ?k * ?W - (l + 1) < ?W"
    using candidate_near[of "full mod 2 ^ n" n l] c by simp_all
  have "?k * ?W < 2 * ?W" "- 2 * ?W < ?k * ?W" using near assms(5,6) W W2 by linarith+
  then have "?k < 2" "- 2 < ?k" using W by (simp_all only: mult_less_cancel_right)
  then consider "?k = 0" | "?k = 1" | "?k = -1" by linarith
  then show ?thesis
  proof cases
    case 1
    with c have c': "rfc_candidate l (full mod 2 ^ n) n = full" by simp
    show ?thesis using assms(5,6) unfolding rfc_decode_def Let_def c' by auto
  next
    case 2
    with c have c': "rfc_candidate l (full mod 2 ^ n) n = full - ?W" by simp
    have "full - ?W \<le> l + 1 - ?W div 2" using assms(6) W2 by linarith
    then show ?thesis using assms(4) unfolding rfc_decode_def Let_def c' by auto
  next
    case 3
    with c have c': "rfc_candidate l (full mod 2 ^ n) n = full + ?W" by simp
    have "l + 1 + ?W div 2 < full + ?W" using assms(5) W2 by linarith
    then show ?thesis using assms(3) W2 W unfolding rfc_decode_def Let_def c' by auto
  qed
qed

lemma pn_roundtrip_aux:
  assumes "n \<in> {8, 16, 24}" and "uint full < 2 ^ 62" and "uint l < 2 ^ 62"
    and "acked = 0 \<or> QUIC_GE full acked \<and> acked \<le> full"
  obtains t where "QuicPktNumberEncode full acked n = Inr t"
    and "uint t = uint full mod 2 ^ n"
    and "QuicPktNumberDecode l t n = Inr (word_of_int (quic_decode (uint l) (uint full mod 2 ^ n) n))"
proof -
  have n: "8 \<le> n" "n \<le> 32" "1 \<le> n" "n \<le> 24" using assms(1) by auto
  let ?t = "ucast (take_bit n full) :: u32"
  have t: "uint ?t = uint full mod 2 ^ n" using uint_take_bit_trunc[OF n(2)] .
  have "uint ?t < 2 ^ n" unfolding t by simp
  from QuicPktNumberDecode_eq[OF n(3,4) assms(3) this] t
    QuicPktNumberEncode_eq[OF n(1,2) assms(2,4)]
  show ?thesis by (intro that[of ?t]) auto
qed

text \<open>A number in the window of the one expected after \<open>l\<close>, and within half a window of it.\<close>

definition pn_in_window :: "u64 \<Rightarrow> u64 \<Rightarrow> nat \<Rightarrow> bool" where
  "pn_in_window l full n \<longleftrightarrow>
     (let e = uint l + 1; h = 2 ^ n div 2 in e - h < uint full \<and> uint full \<le> e + h \<and> uint full div 2 ^ n = e div 2 ^ n)"

lemma pn_window_roundtrip:
  assumes "n \<in> {8, 16, 24}" and "uint full < 2 ^ 62" and "uint l < 2 ^ 62"
    and "acked = 0 \<or> QUIC_GE full acked \<and> acked \<le> full" and "pn_in_window l full n"
  obtains t where "QuicPktNumberEncode full acked n = Inr t" "QuicPktNumberDecode l t n = Inr full" "uint t < 2 ^ n"
proof -
  from assms(1-4) obtain t where t: "QuicPktNumberEncode full acked n = Inr t" "uint t = uint full mod 2 ^ n"
    "QuicPktNumberDecode l t n = Inr (word_of_int (quic_decode (uint l) (uint full mod 2 ^ n) n))"
    by (rule pn_roundtrip_aux)
  have "rfc_candidate (uint l) (uint full mod 2 ^ n) n = uint full"
    using rfc_candidate_window[of "uint full" n "uint l" 0] assms(5) by (simp add: pn_in_window_def Let_def)
  then have "quic_decode (uint l) (uint full mod 2 ^ n) n = uint full"
    using assms(5) by (auto simp: quic_decode_def Let_def pn_in_window_def)
  then show ?thesis using t by (intro that[of t]) simp_all
qed

text \<open>C23: for the 8, 16 and 24 bit forms, a packet number below \<open>2 ^ 62\<close> that lies in the same window as
  the number expected next, and within half a window of it, survives \<^verbatim>\<open>QuicPktNumberEncode\<close> followed by
  \<^verbatim>\<open>QuicPktNumberDecode\<close>.\<close>

theorem pn_roundtrip_same_window:
  assumes "n \<in> {8, 16, 24}" and "uint full < 2 ^ 62" and "uint l < 2 ^ 62"
    and "acked = 0 \<or> QUIC_GE full acked \<and> acked \<le> full"
    and "uint l + 1 - 2 ^ n div 2 < uint full" and "uint full \<le> uint l + 1 + 2 ^ n div 2"
    and "uint full div 2 ^ n = (uint l + 1) div 2 ^ n"
  shows "\<exists>t. QuicPktNumberEncode full acked n = Inr t \<and> QuicPktNumberDecode l t n = Inr full"
proof -
  have w: "pn_in_window l full n" using assms(5-7) by (simp add: pn_in_window_def)
  from assms(1-4) w show ?thesis by (rule pn_window_roundtrip) blast
qed

theorem pn_roundtrip_same_window_witness:
  "\<exists>t. QuicPktNumberEncode 0xa82f9b32 0 16 = Inr t \<and> QuicPktNumberDecode 0xa82f30ea t 16 = Inr 0xa82f9b32"
  using pn_roundtrip_same_window[of 16 "0xa82f9b32" "0xa82f30ea" 0] by simp

text \<open>C34: past the end of the window the decoder disagrees with RFC 9000, appendix A.3: for every packet
  number below \<open>2 ^ 31\<close> in the window after the expected one, in the 8, 16 and 24 bit forms,
  \<^verbatim>\<open>QuicPktNumberDecode\<close> returns a number one window too small, where the RFC's algorithm returns the
  number that was encoded.\<close>

theorem pn_next_window_lost:
  assumes "n \<in> {8, 16, 24}" and "uint full < 2 ^ 31" and "uint l < 2 ^ 62"
    and "acked = 0 \<or> QUIC_GE full acked \<and> acked \<le> full"
    and "uint full \<le> uint l + 1 + 2 ^ n div 2"
    and "uint full div 2 ^ n = (uint l + 1) div 2 ^ n + 1"
  shows "\<exists>t. QuicPktNumberEncode full acked n = Inr t
    \<and> QuicPktNumberDecode l t n = Inr (word_of_int (uint full - 2 ^ n))
    \<and> rfc_decode (uint l) (uint t) n = uint full"
proof -
  have f62: "uint full < 2 ^ 62" using assms(2) by simp
  from assms(1) f62 assms(3,4) obtain t where t: "QuicPktNumberEncode full acked n = Inr t"
    "uint t = uint full mod 2 ^ n"
    "QuicPktNumberDecode l t n = Inr (word_of_int (quic_decode (uint l) (uint full mod 2 ^ n) n))"
    by (rule pn_roundtrip_aux)
  have n1: "1 \<le> n" using assms(1) by auto
  have c: "rfc_candidate (uint l) (uint full mod 2 ^ n) n = uint full - 2 ^ n"
    using rfc_candidate_window[OF assms(6)] by simp
  have "\<not> bit (uint full) 31"
  proof -
    have "take_bit 31 (uint full) = uint full" using assms(2) by (intro take_bit_int_eq_self) simp_all
    then have "bit (uint full) 31 = bit (take_bit 31 (uint full)) 31" by simp
    then show ?thesis by (simp add: bit_take_bit_iff)
  qed
  moreover have h: "(2 :: int) ^ n div 2 \<ge> 0" by simp
  moreover have "uint full - 2 ^ n \<le> uint l + 1 + 2 ^ n div 2"
    using assms(5) zero_less_power [of "2 :: int" n] by linarith
  ultimately have q: "quic_decode (uint l) (uint full mod 2 ^ n) n = uint full - 2 ^ n"
    using assms(5) unfolding quic_decode_def Let_def c by auto
  have "(uint l + 1) div 2 ^ n * 2 ^ n + 2 ^ n \<le> uint full"
  proof -
    have "uint full div 2 ^ n * 2 ^ n \<le> uint full"
      by (metis div_mult_mod_eq le_add_same_cancel1 pos_mod_sign zero_less_numeral zero_less_power)
    then show ?thesis using assms(6) by (simp add: distrib_right)
  qed
  moreover have "uint l + 1 < (uint l + 1) div 2 ^ n * 2 ^ n + 2 ^ n"
    by (metis add_le_cancel_left div_mult_mod_eq not_le pos_mod_bound zero_less_numeral zero_less_power)
  ultimately have "uint l + 1 - 2 ^ n div 2 < uint full" using h by linarith
  from rfc_decode_correct[OF n1 _ _ f62 this assms(5)]
  have "rfc_decode (uint l) (uint t) n = uint full" using t(2) by simp
  then show ?thesis using t q by simp
qed

theorem pn_next_window_lost_witness:
  "\<exists>t. QuicPktNumberEncode 300 0 8 = Inr t \<and> QuicPktNumberDecode 250 t 8 = Inr 44
    \<and> rfc_decode 250 (uint t) 8 = 300"
  using pn_next_window_lost[of 8 300 250 0] by simp

end
