(* ===== verification/Packet_Write.thy ===== *)
theory Packet_Write
  imports Packet_Read VarInt
begin

text \<open>
  The write side of \<^verbatim>\<open>quic/packet.c\<close>. A \<^verbatim>\<open>WPacket\<close> writes either into a caller's buffer
  (\<open>wp_static\<close>, the object \<^verbatim>\<open>static_buf\<close> points to is \<open>wp_data\<close>) or into an OpenSSL \<^verbatim>\<open>BUF_MEM\<close>
  that it grows on demand (\<open>wp_data\<close> is \<^verbatim>\<open>buf->data\<close>, its length \<^verbatim>\<open>buf->length\<close>). A pointer into the
  packet is an offset with the generation of the buffer it was taken from: \<^verbatim>\<open>BUF_MEM_grow\<close> may move
  the contents, after which a pointer of an earlier generation must not be used. Length-prefixed
  parts are kept on the stack \<open>wp_subs\<close> until they are closed. Every operation returns the packet it
  leaves behind next to its result, since the code writes before it reports an error.
\<close>

section \<open>State\<close>

type_synonym wptr = "nat \<times> int"

record WPACKET_SUB =
  sub_value :: "wptr option"
  sub_val_len :: u64

record WPacket =
  wp_data :: bytes
  wp_static :: bool
  wp_gen :: nat
  wp_flags :: u64
  wp_curr :: u64
  wp_written :: u64
  wp_maxsize :: u64
  wp_subs :: "WPACKET_SUB list"

definition WPACKET_BUF_MAX_LEN :: u64 where "WPACKET_BUF_MAX_LEN = 65535"
definition DEFAULT_BUF_SIZE :: u64 where "DEFAULT_BUF_SIZE = 256"
definition WPACKET_FLAGS_CLOSED :: u64 where "WPACKET_FLAGS_CLOSED = 0x01"

section \<open>Operations\<close>

definition WPacketBufInit :: "bytes \<Rightarrow> WPacket" where
  "WPacketBufInit buf = \<lparr>wp_data = buf, wp_static = False, wp_gen = 0, wp_flags = 0, wp_curr = 0,
     wp_written = 0, wp_maxsize = WPACKET_BUF_MAX_LEN, wp_subs = []\<rparr>"

definition WPacketStaticBufInit :: "bytes \<Rightarrow> u64 \<Rightarrow> WPacket" where
  "WPacketStaticBufInit buf len = \<lparr>wp_data = buf, wp_static = True, wp_gen = 0, wp_flags = 0,
     wp_curr = 0, wp_written = 0, wp_maxsize = len, wp_subs = []\<rparr>"

definition WPacket_get_data :: "WPacket \<Rightarrow> u64 \<Rightarrow> wptr" where
  "WPacket_get_data pkt offset = (wp_gen pkt, uint offset)"

definition WPacket_get_curr :: "WPacket \<Rightarrow> wptr" where
  "WPacket_get_curr pkt = WPacket_get_data pkt (wp_curr pkt)"

definition WPacket_get_space :: "WPacket \<Rightarrow> u32" where
  "WPacket_get_space pkt = ucast (wp_maxsize pkt - wp_written pkt)"

definition WPacket_get_maxsize :: "WPacket \<Rightarrow> u64" where
  "WPacket_get_maxsize pkt = wp_maxsize pkt"

definition WPacket_get_written :: "WPacket \<Rightarrow> u64" where
  "WPacket_get_written pkt = wp_written pkt"

definition wp_newlen :: "u64 \<Rightarrow> u64 \<Rightarrow> u64" where
  "wp_newlen len blen =
     (let reflen = (if len > blen then len else blen) in
      if reflen > (- 1) div 2 then - 1
      else let newlen = reflen * 2 in
        if newlen < DEFAULT_BUF_SIZE then DEFAULT_BUF_SIZE else newlen)"

definition WPacketReserveBytes :: "env \<Rightarrow> WPacket \<Rightarrow> u64 \<Rightarrow> WPacket \<times> wptr res" where
  "WPacketReserveBytes e pkt len =
     (let blen = of_nat (length (wp_data pkt)) :: u64 in
      if QUIC_LT (wp_maxsize pkt - wp_written pkt) len then (pkt, Inl Fail)
      else if \<not> wp_static pkt \<and> blen - wp_written pkt < len then
        (case env_grow e (wp_data pkt) (unat (wp_newlen len blen)) of
           None \<Rightarrow> (pkt, Inl Fail)
         | Some d \<Rightarrow> let pkt' = pkt\<lparr>wp_data := d, wp_gen := Suc (wp_gen pkt)\<rparr>
                     in (pkt', Inr (WPacket_get_curr pkt')))
      else (pkt, Inr (WPacket_get_curr pkt)))"

definition WPacketAllocateBytes :: "env \<Rightarrow> WPacket \<Rightarrow> u64 \<Rightarrow> WPacket \<times> wptr res" where
  "WPacketAllocateBytes e pkt len =
     bindS (WPacketReserveBytes e pkt len) (\<lambda>pkt' p.
       (pkt'\<lparr>wp_written := wp_written pkt' + len, wp_curr := wp_curr pkt' + len\<rparr>, Inr p))"

definition WPacketBufPull :: "WPacket \<Rightarrow> u64 \<Rightarrow> WPacket res" where
  "WPacketBufPull pkt len =
     (if QUIC_LT (wp_maxsize pkt) len then Inl Fail
      else Inr (pkt\<lparr>wp_curr := wp_curr pkt + len, wp_maxsize := wp_maxsize pkt - len\<rparr>))"

text \<open>A store through a pointer into the packet: out of date or out of bounds is \<open>Bad_mem\<close>.\<close>

definition wp_store :: "WPacket \<Rightarrow> wptr \<Rightarrow> bytes \<Rightarrow> WPacket \<times> unit res" where
  "wp_store pkt p bs =
     (if fst p \<noteq> wp_gen pkt then (pkt, Inl Bad_mem)
      else case mem_copy (wp_data pkt) (snd p) bs of
        Inl err \<Rightarrow> (pkt, Inl err)
      | Inr d \<Rightarrow> (pkt\<lparr>wp_data := d\<rparr>, Inr ()))"

definition WPacketMemcpy :: "env \<Rightarrow> WPacket \<Rightarrow> bytes option \<Rightarrow> WPacket \<times> unit res" where
  "WPacketMemcpy e pkt src =
     (case src of
        None \<Rightarrow> (pkt, Inl Fail)
      | Some bs \<Rightarrow>
          if bs = [] then (pkt, Inr ())
          else bindS (WPacketAllocateBytes e pkt (of_nat (length bs)))
                 (\<lambda>pkt' dest. wp_store pkt' dest bs))"

definition WPacketMemset :: "env \<Rightarrow> WPacket \<Rightarrow> u8 \<Rightarrow> u64 \<Rightarrow> WPacket \<times> unit res" where
  "WPacketMemset e pkt c len =
     (if len = 0 then (pkt, Inr ())
      else bindS (WPacketAllocateBytes e pkt len)
             (\<lambda>pkt' dest. wp_store pkt' dest (replicate (unat len) c)))"

text \<open>The loop of \<^verbatim>\<open>WPacketPutValue\<close>, last byte first: the memory and what is left of the value.\<close>

fun put_value_loop :: "bytes \<Rightarrow> int \<Rightarrow> nat \<Rightarrow> u64 \<Rightarrow> (bytes \<times> u64) res" where
  "put_value_loop m data 0 v = Inr (m, v)"
| "put_value_loop m data (Suc n) v =
     bindR (mem_set m (data + int n) (ucast (v AND 0xFF)))
       (\<lambda>m'. put_value_loop m' data n (drop_bit 8 v))"

definition WPacketPutValue :: "WPacket \<Rightarrow> wptr \<Rightarrow> u64 \<Rightarrow> u64 \<Rightarrow> WPacket \<times> unit res" where
  "WPacketPutValue pkt p v len =
     (if fst p \<noteq> wp_gen pkt then (pkt, Inl Bad_mem)
      else case put_value_loop (wp_data pkt) (snd p) (unat len) v of
        Inl err \<Rightarrow> (pkt, Inl err)
      | Inr (m, left) \<Rightarrow>
          (pkt\<lparr>wp_data := m\<rparr>, if left > 0 then Inl Fail else Inr ()))"

definition WPacketPutBytes :: "env \<Rightarrow> WPacket \<Rightarrow> u32 \<Rightarrow> u64 \<Rightarrow> WPacket \<times> unit res" where
  "WPacketPutBytes e pkt v n =
     bindS (WPacketAllocateBytes e pkt n) (\<lambda>pkt' p. WPacketPutValue pkt' p (ucast v) n)"

definition WPacketPut1 :: "env \<Rightarrow> WPacket \<Rightarrow> u32 \<Rightarrow> WPacket \<times> unit res" where
  "WPacketPut1 e pkt v = WPacketPutBytes e pkt v 1"

definition WPacketPut2 :: "env \<Rightarrow> WPacket \<Rightarrow> u32 \<Rightarrow> WPacket \<times> unit res" where
  "WPacketPut2 e pkt v = WPacketPutBytes e pkt v 2"

definition WPacketPut3 :: "env \<Rightarrow> WPacket \<Rightarrow> u32 \<Rightarrow> WPacket \<times> unit res" where
  "WPacketPut3 e pkt v = WPacketPutBytes e pkt v 3"

definition WPacketPut4 :: "env \<Rightarrow> WPacket \<Rightarrow> u32 \<Rightarrow> WPacket \<times> unit res" where
  "WPacketPut4 e pkt v = WPacketPutBytes e pkt v 4"

text \<open>The size of \<^verbatim>\<open>struct WPacketSub\<close> on a 64-bit target.\<close>

definition sizeof_sub :: nat where "sizeof_sub = 24"

definition WPacketStartSubBytes :: "env \<Rightarrow> WPacket \<Rightarrow> u64 \<Rightarrow> WPacket \<times> unit res" where
  "WPacketStartSubBytes e pkt len =
     (case alloc e sizeof_sub of Inl err \<Rightarrow> (pkt, Inl err) | Inr _ \<Rightarrow>
        let pkt1 = pkt\<lparr>wp_subs := \<lparr>sub_value = None, sub_val_len = 0\<rparr> # wp_subs pkt\<rparr> in
        bindS (WPacketAllocateBytes e pkt1 len) (\<lambda>pkt2 p.
          (pkt2\<lparr>wp_subs := \<lparr>sub_value = Some p, sub_val_len = len\<rparr> # tl (wp_subs pkt2)\<rparr>, Inr ())))"

definition WPacketStartSubU8 :: "env \<Rightarrow> WPacket \<Rightarrow> WPacket \<times> unit res" where
  "WPacketStartSubU8 e pkt = WPacketStartSubBytes e pkt 1"

definition WPacketStartSubU16 :: "env \<Rightarrow> WPacket \<Rightarrow> WPacket \<times> unit res" where
  "WPacketStartSubU16 e pkt = WPacketStartSubBytes e pkt 2"

definition WPacketStartSubU24 :: "env \<Rightarrow> WPacket \<Rightarrow> WPacket \<times> unit res" where
  "WPacketStartSubU24 e pkt = WPacketStartSubBytes e pkt 3"

definition WPacketStartSubU32 :: "env \<Rightarrow> WPacket \<Rightarrow> WPacket \<times> unit res" where
  "WPacketStartSubU32 e pkt = WPacketStartSubBytes e pkt 4"

text \<open>The distance between the write position and the start of the part, between pointers that
  must be into the same buffer.\<close>

definition wp_ptr_diff :: "wptr \<Rightarrow> wptr option \<Rightarrow> u64 res" where
  "wp_ptr_diff a b = (case b of None \<Rightarrow> Inl Null_ptr
     | Some b' \<Rightarrow> if fst a = fst b' then Inr (word_of_int (snd a - snd b')) else Inl Bad_mem)"

definition WPacketClose :: "WPacket \<Rightarrow> WPacket \<times> unit res" where
  "WPacketClose pkt =
     (case wp_subs pkt of
        [] \<Rightarrow> (pkt, if wp_flags pkt AND WPACKET_FLAGS_CLOSED \<noteq> 0 then Inr () else Inl Fail)
      | sub # parent \<Rightarrow>
          (case wp_ptr_diff (WPacket_get_curr pkt) (sub_value sub) of
             Inl err \<Rightarrow> (pkt, Inl err)
           | Inr d \<Rightarrow>
               let data_len = d - sub_val_len sub in
               if \<not> QUIC_GE data_len 0 then (pkt, Inl Abort)
               else bindS (WPacketPutValue pkt (the (sub_value sub)) data_len (sub_val_len sub))
                      (\<lambda>pkt' _. (pkt'\<lparr>wp_subs := parent\<rparr>, Inr ()))))"

lemma WPacketClose_subs:
  "wp_subs pkt = s # ss \<Longrightarrow> WPacketClose pkt = (pkt', Inr u) \<Longrightarrow> wp_subs pkt' = ss"
  by (auto simp: WPacketClose_def Let_def bindS_eq_Inr split: sum.splits if_splits)

function WPacketForceClose :: "WPacket \<Rightarrow> WPacket \<times> unit res" where
  "WPacketForceClose pkt =
     (case wp_subs pkt of
        [] \<Rightarrow> (pkt\<lparr>wp_flags := wp_flags pkt OR WPACKET_FLAGS_CLOSED\<rparr>, Inr ())
      | _ # _ \<Rightarrow>
          (case WPacketClose pkt of
             (pkt', Inl err) \<Rightarrow> (pkt', Inl err)
           | (pkt', Inr _) \<Rightarrow> WPacketForceClose pkt'))"
  by pat_completeness auto
termination
  by (relation "measure (\<lambda>p. length (wp_subs p))")
    (auto dest!: WPacketClose_subs[OF _ sym])

declare WPacketForceClose.simps [simp del]

definition WPacketSubMemcpyBytes :: "env \<Rightarrow> WPacket \<Rightarrow> bytes option \<Rightarrow> u64 \<Rightarrow> WPacket \<times> unit res" where
  "WPacketSubMemcpyBytes e pkt src lenbytes =
     bindS (WPacketStartSubBytes e pkt lenbytes) (\<lambda>pkt1 _.
     bindS (WPacketMemcpy e pkt1 src) (\<lambda>pkt2 _. WPacketClose pkt2))"

definition WPacketSubMemcpyU8 :: "env \<Rightarrow> WPacket \<Rightarrow> bytes option \<Rightarrow> WPacket \<times> unit res" where
  "WPacketSubMemcpyU8 e pkt src = WPacketSubMemcpyBytes e pkt src 1"

definition WPacketSubMemcpyU16 :: "env \<Rightarrow> WPacket \<Rightarrow> bytes option \<Rightarrow> WPacket \<times> unit res" where
  "WPacketSubMemcpyU16 e pkt src = WPacketSubMemcpyBytes e pkt src 2"

definition WPacketSubMemcpyU24 :: "env \<Rightarrow> WPacket \<Rightarrow> bytes option \<Rightarrow> WPacket \<times> unit res" where
  "WPacketSubMemcpyU24 e pkt src = WPacketSubMemcpyBytes e pkt src 3"

definition WPacketSubMemcpyU32 :: "env \<Rightarrow> WPacket \<Rightarrow> bytes option \<Rightarrow> WPacket \<times> unit res" where
  "WPacketSubMemcpyU32 e pkt src = WPacketSubMemcpyBytes e pkt src 4"

definition WPacketSubAllocBytes :: "env \<Rightarrow> WPacket \<Rightarrow> u64 \<Rightarrow> u64 \<Rightarrow> WPacket \<times> wptr res" where
  "WPacketSubAllocBytes e pkt len lenbytes =
     bindS (WPacketStartSubBytes e pkt lenbytes) (\<lambda>pkt1 _.
     bindS (WPacketAllocateBytes e pkt1 len) (\<lambda>pkt2 p.
     bindS (WPacketClose pkt2) (\<lambda>pkt3 _. (pkt3, Inr p))))"

definition WPacketSubAllocBytesU8 :: "env \<Rightarrow> WPacket \<Rightarrow> u64 \<Rightarrow> WPacket \<times> wptr res" where
  "WPacketSubAllocBytesU8 e pkt len = WPacketSubAllocBytes e pkt len 1"

definition WPacketSubAllocBytesU24 :: "env \<Rightarrow> WPacket \<Rightarrow> u64 \<Rightarrow> WPacket \<times> wptr res" where
  "WPacketSubAllocBytesU24 e pkt len = WPacketSubAllocBytes e pkt len 3"

definition WPacketCleanup :: "WPacket \<Rightarrow> WPacket" where
  "WPacketCleanup pkt = pkt\<lparr>wp_subs := []\<rparr>"

section \<open>Well-formed packets\<close>

text \<open>
  The unwritten part of the packet lies inside the buffer (a static one), or what has been written
  does (a growable one, which never exceeds its limit).
\<close>

definition wp_room :: "WPacket \<Rightarrow> nat" where
  "wp_room p = unat (wp_maxsize p) - unat (wp_written p)"

definition wp_wf :: "WPacket \<Rightarrow> bool" where
  "wp_wf p \<longleftrightarrow> wp_written p \<le> wp_maxsize p \<and> length (wp_data p) < 2 ^ 31 \<and>
     (if wp_static p then unat (wp_curr p) + wp_room p \<le> length (wp_data p)
      else wp_curr p = wp_written p \<and> unat (wp_curr p) \<le> length (wp_data p) \<and> unat (wp_maxsize p) < 2 ^ 30)"

text \<open>What has been written so far.\<close>

definition wp_out :: "WPacket \<Rightarrow> bytes" where
  "wp_out p = take (unat (wp_curr p)) (wp_data p)"

text \<open>The packet differs from an earlier one in its contents past the write position only.\<close>

definition wp_ext :: "WPacket \<Rightarrow> WPacket \<Rightarrow> bytes \<Rightarrow> bool" where
  "wp_ext p p' bs \<longleftrightarrow> wp_wf p' \<and> wp_out p' = wp_out p @ bs \<and> wp_room p = wp_room p' + length bs
     \<and> wp_curr p' = wp_curr p + of_nat (length bs) \<and> wp_written p' = wp_written p + of_nat (length bs)
     \<and> wp_subs p' = wp_subs p \<and> wp_static p' = wp_static p \<and> wp_maxsize p' = wp_maxsize p
     \<and> wp_flags p' = wp_flags p \<and> wp_gen p \<le> wp_gen p' \<and> (wp_static p \<longrightarrow> wp_gen p' = wp_gen p \<and>
     length (wp_data p') = length (wp_data p))"

lemma wp_curr_bound: "wp_wf p \<Longrightarrow> unat (wp_curr p) + wp_room p < 2 ^ 31 + 2 ^ 30"
  by (auto simp: wp_wf_def wp_room_def split: if_splits)

lemma wp_room_bound: "wp_wf p \<Longrightarrow> wp_room p < 2 ^ 31"
  by (auto simp: wp_wf_def wp_room_def split: if_splits)

lemma length_wp_out: "wp_wf p \<Longrightarrow> length (wp_out p) = unat (wp_curr p)"
  by (auto simp: wp_wf_def wp_out_def split: if_splits)

lemma wp_space_exact:
  assumes "wp_wf p" and "unat n < 2 ^ 31"
  shows "QUIC_LT (wp_maxsize p - wp_written p) n \<longleftrightarrow> wp_room p < unat n"
proof -
  have le: "wp_written p \<le> wp_maxsize p" using assms(1) by (simp add: wp_wf_def)
  then have u: "unat (wp_maxsize p - wp_written p) = wp_room p"
    by (simp add: wp_room_def unat_sub)
  then have "uint (wp_maxsize p - wp_written p) < 2 ^ 31"
    using wp_room_bound[OF assms(1)] by (simp only: uint_less_unat)
  moreover have "uint n < 2 ^ 31" using assms(2) by (simp only: uint_less_unat)
  ultimately show ?thesis by (simp add: quic_cmp_small64 word_less_nat_alt u)
qed

lemma wp_newlen_eq:
  assumes "unat len < 2 ^ 30" and "unat blen < 2 ^ 30"
  shows "unat (wp_newlen len blen) = max 256 (2 * max (unat len) (unat blen))"
proof -
  let ?r = "if len > blen then len else blen"
  have r: "unat ?r = max (unat len) (unat blen)" by (auto simp: word_less_nat_alt max_def)
  then have b: "unat ?r < 2 ^ 30" using assms by (simp add: max_def split: if_splits)
  have two: "unat (?r * 2) = 2 * unat ?r"
    by (subst unat_mult_lem[THEN iffD1]) (use b in simp_all)
  have ngt: "\<not> ?r > (- 1) div 2"
  proof -
    have "unat ((- 1 :: u64) div 2) = 2 ^ 63 - 1" by (simp add: unat_div)
    then show ?thesis using b by (simp add: word_less_nat_alt)
  qed
  show ?thesis
    unfolding wp_newlen_def Let_def DEFAULT_BUF_SIZE_def
    using ngt two r by (auto simp: word_less_nat_alt max_def simp del: if_split_asm)
qed

section \<open>Functional behaviour of the writes\<close>

text \<open>The growth of the buffer succeeds whenever the packet needs it.\<close>

definition grow_ok :: "env \<Rightarrow> WPacket \<Rightarrow> bool" where
  "grow_ok e p \<longleftrightarrow> wp_static p \<or> grow_spec e \<and> (\<forall>m n. env_grow e m n \<noteq> None)"

lemma grow_ok_static [simp]: "wp_static p \<Longrightarrow> grow_ok e p"
  by (simp add: grow_ok_def)

lemma grow_ok_ext: "grow_ok e p \<Longrightarrow> wp_ext p p' bs \<Longrightarrow> grow_ok e p'"
  by (auto simp: grow_ok_def wp_ext_def)

lemma wp_ext_refl [simp]: "wp_wf p \<Longrightarrow> wp_ext p p []"
  by (simp add: wp_ext_def)

lemma wp_ext_trans [trans]: "wp_ext p q xs \<Longrightarrow> wp_ext q r ys \<Longrightarrow> wp_ext p r (xs @ ys)"
  by (auto simp: wp_ext_def)

lemma wp_ext_wf: "wp_ext p p' bs \<Longrightarrow> wp_wf p'" and wp_ext_out: "wp_ext p p' bs \<Longrightarrow> wp_out p' = wp_out p @ bs"
  and wp_ext_room: "wp_ext p p' bs \<Longrightarrow> wp_room p = wp_room p' + length bs"
  by (simp_all add: wp_ext_def)

lemma WPacketReserveBytes_ok:
  assumes wf: "wp_wf p" and g: "grow_ok e p" and r: "unat len \<le> wp_room p"
  shows "\<exists>p'. WPacketReserveBytes e p len = (p', Inr (wp_gen p', uint (wp_curr p'))) \<and> wp_ext p p' []
    \<and> unat (wp_curr p') + unat len \<le> length (wp_data p')"
proof -
  let ?b = "of_nat (length (wp_data p)) :: u64"
  have l31: "unat len < 2 ^ 31" using wp_room_bound[OF wf] r by linarith
  have nlt: "\<not> QUIC_LT (wp_maxsize p - wp_written p) len"
    using wp_space_exact[OF wf l31] r by simp
  have ub: "unat ?b = length (wp_data p)"
    using wf by (intro of_nat_unat64) (simp add: wp_wf_def)
  show ?thesis
  proof (cases "wp_static p")
    case True
    then have "unat (wp_curr p) + unat len \<le> length (wp_data p)"
      using wf r by (simp add: wp_wf_def)
    then show ?thesis
      using True nlt wf
      by (simp add: WPacketReserveBytes_def WPacket_get_curr_def WPacket_get_data_def Let_def)
  next
    case False
    have w: "wp_curr p = wp_written p" "unat (wp_written p) \<le> length (wp_data p)"
      "unat (wp_maxsize p) < 2 ^ 30" "wp_written p \<le> wp_maxsize p"
      using False wf by (auto simp: wp_wf_def)
    have "wp_written p \<le> ?b" using w(2) ub by (simp add: word_le_nat_alt)
    then have d: "unat (?b - wp_written p) = length (wp_data p) - unat (wp_written p)"
      by (simp add: unat_sub ub)
    have rm: "unat len + unat (wp_written p) \<le> unat (wp_maxsize p)"
      using r w(4) by (simp add: wp_room_def word_le_nat_alt)
    show ?thesis
    proof (cases "?b - wp_written p < len")
      case nogrow: False
      then have "unat (wp_curr p) + unat len \<le> length (wp_data p)"
        using d w by (simp add: word_less_nat_alt)
      then show ?thesis
        using nogrow nlt wf
        by (simp add: WPacketReserveBytes_def WPacket_get_curr_def WPacket_get_data_def Let_def)
    next
      case grow: True
      then have lt: "length (wp_data p) < unat len + unat (wp_written p)"
        using d w(2) by (simp add: word_less_nat_alt)
      then have small: "unat len < 2 ^ 30" "unat ?b < 2 ^ 30"
        using rm w(3) ub by linarith+
      let ?n = "unat (wp_newlen len ?b)"
      obtain m where m: "env_grow e (wp_data p) ?n = Some m" "length m = ?n"
        "take (min ?n (length (wp_data p))) m = take (min ?n (length (wp_data p))) (wp_data p)"
        using g False by (fastforce simp: grow_ok_def grow_spec_def)
      have n: "?n = max 256 (2 * max (unat len) (length (wp_data p)))"
        using wp_newlen_eq[OF small] ub by simp
      have "length (wp_data p) \<le> ?n" using n by linarith
      then have keep: "take (length (wp_data p)) m = wp_data p" using m(3) by (simp add: min_absorb2)
      have big: "unat (wp_curr p) + unat len \<le> length m"
        using m(2) n w(2) unfolding w(1) by linarith
      have l2: "length m < 2 ^ 31" unfolding m(2) n using small(1) small(2)[unfolded ub] by simp
      let ?p = "p\<lparr>wp_data := m, wp_gen := Suc (wp_gen p)\<rparr>"
      have "take (unat (wp_curr p)) m = take (unat (wp_curr p)) (wp_data p)"
        using keep w(1,2) by (metis take_take min.absorb1)
      then have "wp_ext p ?p []"
        using wf False big l2 by (auto simp: wp_ext_def wp_wf_def wp_out_def wp_room_def)
      then show ?thesis
        using False grow nlt m(1) big
        by (simp add: WPacketReserveBytes_def WPacket_get_curr_def WPacket_get_data_def Let_def)
    qed
  qed
qed

lemma WPacketReserveBytes_full:
  assumes "wp_wf p" and "unat len < 2 ^ 31" and "wp_room p < unat len"
  shows "WPacketReserveBytes e p len = (p, Inl Fail)"
  using wp_space_exact[OF assms(1,2)] assms(3) by (simp add: WPacketReserveBytes_def)

text \<open>Room for \<open>len\<close> bytes is taken and the bytes are then stored: the output grows by them.\<close>

lemma alloc_store_ok:
  assumes wf: "wp_wf p" and g: "grow_ok e p" and r: "length bs \<le> wp_room p"
  shows "\<exists>p1 p2 q. WPacketAllocateBytes e p (of_nat (length bs)) = (p1, Inr q)
    \<and> q = (wp_gen p1, uint (wp_curr p)) \<and> length (wp_data p2) = length (wp_data p1)
    \<and> wp_data p2 = take (unat (wp_curr p)) (wp_data p1) @ bs @
         drop (unat (wp_curr p) + length bs) (wp_data p1)
    \<and> unat (wp_curr p) + length bs \<le> length (wp_data p1)
    \<and> p2 = p1\<lparr>wp_data := wp_data p2\<rparr> \<and> wp_ext p p2 bs"
proof -
  let ?n = "of_nat (length bs) :: u64"
  have n: "unat ?n = length bs"
    using wp_room_bound[OF wf] r by (intro of_nat_unat64) simp
  obtain p' where p': "WPacketReserveBytes e p ?n = (p', Inr (wp_gen p', uint (wp_curr p')))"
    "wp_ext p p' []" "unat (wp_curr p') + length bs \<le> length (wp_data p')"
    using WPacketReserveBytes_ok[OF wf g, of ?n] r n by auto
  have c: "wp_curr p' = wp_curr p" "wp_written p' = wp_written p" "wp_maxsize p' = wp_maxsize p"
    "wp_static p' = wp_static p" "wp_wf p'"
    using p'(2) by (auto simp: wp_ext_def)
  let ?p1 = "p'\<lparr>wp_written := wp_written p' + ?n, wp_curr := wp_curr p' + ?n\<rparr>"
  let ?d = "take (unat (wp_curr p)) (wp_data p') @ bs @ drop (unat (wp_curr p) + length bs) (wp_data p')"
  let ?p2 = "?p1\<lparr>wp_data := ?d\<rparr>"
  have a: "WPacketAllocateBytes e p ?n = (?p1, Inr (wp_gen p', uint (wp_curr p)))"
    using p'(1) c by (simp add: WPacketAllocateBytes_def)
  have len: "length ?d = length (wp_data p')" using p'(3) c by simp
  have wr: "unat (wp_written p') + length bs \<le> unat (wp_maxsize p')"
  proof -
    have "unat (wp_written p) \<le> unat (wp_maxsize p)" using wf by (simp add: wp_wf_def word_le_nat_alt)
    then show ?thesis using r c(2,3) unfolding wp_room_def by simp
  qed
  have uw: "unat (wp_written p' + ?n) = unat (wp_written p') + length bs"
    using wr unat64_bound[of "wp_maxsize p'"] n
    by (subst unat_add_lem[THEN iffD1]) simp_all
  have uc: "unat (wp_curr p' + ?n) = unat (wp_curr p') + length bs"
    using p'(3) c(5) n by (subst unat_add_lem[THEN iffD1]) (simp_all add: wp_wf_def)
  have room: "wp_room p' = wp_room ?p2 + length bs"
    using wr uw by (simp add: wp_room_def)
  have "wp_wf ?p2"
    using c(5) p'(3) uw uc wr len room c(1)
    by (auto simp: wp_wf_def word_le_nat_alt wp_room_def split: if_splits)
  moreover have "wp_out ?p2 = wp_out p' @ bs"
    using uc p'(3) c(1) by (cases bs) (simp_all add: wp_out_def min_def)
  ultimately have "wp_ext p ?p2 bs"
    using p'(2) room len c by (auto simp: wp_ext_def)
  then show ?thesis
    using a len p'(3) c(1) by (intro exI[of _ ?p1] exI[of _ ?p2]) simp
qed

lemma WPacketMemcpy_ok:
  assumes "wp_wf p" and "grow_ok e p" and "length bs \<le> wp_room p"
  shows "\<exists>p'. WPacketMemcpy e p (Some bs) = (p', Inr ()) \<and> wp_ext p p' bs"
proof (cases "bs = []")
  case True
  then show ?thesis using assms(1) by (simp add: WPacketMemcpy_def)
next
  case False
  from alloc_store_ok[OF assms] obtain p1 p2 q where
    a: "WPacketAllocateBytes e p (of_nat (length bs)) = (p1, Inr q)"
    and q: "q = (wp_gen p1, uint (wp_curr p))"
    and d: "wp_data p2 = take (unat (wp_curr p)) (wp_data p1) @ bs @
         drop (unat (wp_curr p) + length bs) (wp_data p1)"
    and b: "unat (wp_curr p) + length bs \<le> length (wp_data p1)"
    and p2: "p2 = p1\<lparr>wp_data := wp_data p2\<rparr>" "wp_ext p p2 bs"
    by blast
  have "mem_copy (wp_data p1) (uint (wp_curr p)) bs = Inr (wp_data p2)"
    using b d False by (simp add: mem_copy_def uint_nat del: of_nat_unat)
  then have "wp_store p1 q bs = (p2, Inr ())"
    using q p2(1) by (simp add: wp_store_def)
  then show ?thesis using a False p2(2) by (simp add: WPacketMemcpy_def)
qed

lemma WPacketAllocateBytes_full:
  "wp_wf p \<Longrightarrow> unat len < 2 ^ 31 \<Longrightarrow> wp_room p < unat len \<Longrightarrow>
     WPacketAllocateBytes e p len = (p, Inl Fail)"
  by (simp add: WPacketAllocateBytes_def WPacketReserveBytes_full)

lemma WPacketMemcpy_full:
  assumes "wp_wf p" and "length bs < 2 ^ 31" and "wp_room p < length bs"
  shows "WPacketMemcpy e p (Some bs) = (p, Inl Fail)"
proof -
  have u: "unat (of_nat (length bs) :: u64) = length bs"
    using assms(2) by (intro of_nat_unat64) simp
  have "WPacketAllocateBytes e p (of_nat (length bs)) = (p, Inl Fail)"
    using assms u by (intro WPacketAllocateBytes_full) auto
  moreover have "bs \<noteq> []" using assms(3) by auto
  ultimately show ?thesis by (simp add: WPacketMemcpy_def)
qed

text \<open>The value loop stores the big-endian bytes and leaves the bits above them.\<close>

lemma be_bytes_drop: "be_bytes (Suc n) v = be_bytes n (drop_bit 8 v) @ [ucast v]"
proof (induction n arbitrary: v)
  case 0
  show ?case by simp
next
  case (Suc n)
  have "be_bytes (Suc (Suc n)) v = ucast (drop_bit (8 * Suc n) v) # be_bytes n (drop_bit 8 v) @ [ucast v]"
    using Suc.IH[of v] by simp
  also have "ucast (drop_bit (8 * Suc n) v) = (ucast (drop_bit (8 * n) (drop_bit 8 v)) :: u8)"
    by (simp add: add.commute)
  finally show ?case by simp
qed

lemma put_value_loop_spec:
  "i + n \<le> length m \<Longrightarrow> put_value_loop m (int i) n v =
     Inr (take i m @ be_bytes n v @ drop (i + n) m, drop_bit (8 * n) v)"
proof (induction n arbitrary: m v)
  case 0
  then show ?case by simp
next
  case (Suc n)
  let ?m = "m[i + n := ucast (v AND 0xFF)]"
  have s: "mem_set m (int i + int n) (ucast (v AND 0xFF)) = Inr ?m"
    using Suc.prems by (simp add: mem_set_def nat_add_distrib)
  have "drop (i + n) ?m = ucast v # drop (i + Suc n) m"
    using Suc.prems by (simp add: drop_update_swap ucast_and_ff flip: Cons_nth_drop_Suc)
  then show ?case
    using Suc.IH[of ?m "drop_bit 8 v"] Suc.prems s
    by (simp add: be_bytes_drop add.commute del: be_bytes.simps)
qed

lemma WPacketPutBytes_ok:
  assumes "wp_wf p" and "grow_ok e p" and "n \<le> wp_room p"
  shows "\<exists>p'. WPacketPutBytes e p v (of_nat n) =
      (p', if uint v < 2 ^ (8 * n) then Inr () else Inl Fail) \<and> wp_ext p p' (be_bytes n (ucast v))"
proof -
  let ?bs = "be_bytes n (ucast v)"
  from assms(3) have "length ?bs \<le> wp_room p" by simp
  from alloc_store_ok[OF assms(1,2) this] obtain p1 p2 q where
    a: "WPacketAllocateBytes e p (of_nat n) = (p1, Inr q)"
    and q: "q = (wp_gen p1, uint (wp_curr p))"
    and d: "wp_data p2 = take (unat (wp_curr p)) (wp_data p1) @ ?bs @ drop (unat (wp_curr p) + n) (wp_data p1)"
    and b: "unat (wp_curr p) + n \<le> length (wp_data p1)"
    and p2: "p2 = p1\<lparr>wp_data := wp_data p2\<rparr>" "wp_ext p p2 ?bs"
    by (auto simp: length_be_bytes)
  have un: "unat (of_nat n :: u64) = n"
    using wp_room_bound[OF assms(1)] assms(3) by (intro of_nat_unat64) simp
  have l: "put_value_loop (wp_data p1) (uint (wp_curr p)) n (ucast v) =
    Inr (wp_data p2, drop_bit (8 * n) (ucast v))"
    using put_value_loop_spec[OF b, of "ucast v"] d by (simp add: uint_nat del: of_nat_unat)
  have uv: "uint (ucast v :: u64) = uint v" by (rule uint_up_ucast) (simp add: is_up)
  have "0 < drop_bit (8 * n) (ucast v :: u64) \<longleftrightarrow> \<not> uint v < 2 ^ (8 * n)"
    by (simp add: drop_bit_pos_iff uv)
  then have "WPacketPutValue p1 q (ucast v) (of_nat n) = (p2, if uint v < 2 ^ (8 * n) then Inr () else Inl Fail)"
    using q un l p2(1) by (auto simp: WPacketPutValue_def)
  then show ?thesis using a p2(2) by (auto simp: WPacketPutBytes_def)
qed

lemma WPacketPutBytes_full:
  assumes "wp_wf p" and "unat n < 2 ^ 31" and "wp_room p < unat n"
  shows "WPacketPutBytes e p v n = (p, Inl Fail)"
  using WPacketAllocateBytes_full[OF assms] by (simp add: WPacketPutBytes_def)

section \<open>Length-prefixed parts\<close>

lemma WPacketAllocateBytes_ok:
  assumes "wp_wf p" and "grow_ok e p" and "n \<le> wp_room p"
  shows "\<exists>p1 g. WPacketAllocateBytes e p (of_nat n) = (p1, Inr (wp_gen p1, uint (wp_curr p)))
    \<and> length g = n \<and> wp_ext p p1 g"
proof -
  from alloc_store_ok[OF assms(1,2), of "replicate n 0"] assms(3) obtain p1 where
    a: "WPacketAllocateBytes e p (of_nat n) = (p1, Inr (wp_gen p1, uint (wp_curr p)))"
    and b: "unat (wp_curr p) + n \<le> length (wp_data p1)" by auto
  let ?g = "take n (drop (unat (wp_curr p)) (wp_data p1))"
  have g: "length ?g = n" using b by simp
  with assms(3) have "length ?g \<le> wp_room p" by simp
  from alloc_store_ok[OF assms(1,2) this] a g obtain p2 where
    "wp_data p2 = take (unat (wp_curr p)) (wp_data p1) @ ?g @ drop (unat (wp_curr p) + n) (wp_data p1)"
    "p2 = p1\<lparr>wp_data := wp_data p2\<rparr>" "wp_ext p p2 ?g"
    by auto
  moreover have "take (unat (wp_curr p)) (wp_data p1) @ ?g @ drop (unat (wp_curr p) + n) (wp_data p1) = wp_data p1"
    by (metis append_take_drop_id drop_drop add.commute)
  ultimately have "wp_ext p p1 ?g" by simp
  then show ?thesis using a g by blast
qed

lemma wp_subs_upd [simp]:
  "wp_wf (p\<lparr>wp_subs := ss\<rparr>) = wp_wf p" "wp_room (p\<lparr>wp_subs := ss\<rparr>) = wp_room p"
  "wp_out (p\<lparr>wp_subs := ss\<rparr>) = wp_out p" "grow_ok e (p\<lparr>wp_subs := ss\<rparr>) = grow_ok e p"
  by (simp_all add: wp_wf_def wp_room_def wp_out_def grow_ok_def)

lemma wp_wf_data: "length d = length (wp_data p) \<Longrightarrow> wp_wf (p\<lparr>wp_data := d\<rparr>) = wp_wf p"
  by (simp add: wp_wf_def wp_room_def)

lemma WPacketStartSubBytes_ok:
  assumes "wp_wf p" and "grow_ok e p" and "n \<le> wp_room p" and "env_alloc e sizeof_sub"
  shows "\<exists>p1 g. WPacketStartSubBytes e p (of_nat n) = (p1, Inr ()) \<and> length g = n
    \<and> wp_ext p (p1\<lparr>wp_subs := wp_subs p\<rparr>) g
    \<and> wp_subs p1 = \<lparr>sub_value = Some (wp_gen p1, uint (wp_curr p)), sub_val_len = of_nat n\<rparr> # wp_subs p"
proof -
  let ?p = "p\<lparr>wp_subs := \<lparr>sub_value = None, sub_val_len = 0\<rparr> # wp_subs p\<rparr>"
  have "wp_wf ?p" "grow_ok e ?p" "n \<le> wp_room ?p" using assms by simp_all
  from WPacketAllocateBytes_ok[OF this] obtain p1 g where
    "WPacketAllocateBytes e ?p (of_nat n) = (p1, Inr (wp_gen p1, uint (wp_curr p)))"
    "length g = n" "wp_ext ?p p1 g" by auto
  then show ?thesis using assms(4)
    by (simp add: WPacketStartSubBytes_def alloc_def wp_ext_def)
qed

text \<open>
  Closing the innermost part stores the length of what was written since in its length bytes, and
  fails when it does not fit; the part must have been opened in the current buffer.
\<close>

lemma uint_of_nat64: "n < 2 ^ 63 \<Longrightarrow> uint (of_nat n :: u64) = int n"
  by (simp add: unsigned_of_nat take_bit_nat_eq_self)

lemma WPacketClose_ok:
  assumes wf: "wp_wf p" and out: "wp_out p = pre @ g @ body"
    and sub: "wp_subs p = \<lparr>sub_value = Some (wp_gen p, int (length pre)), sub_val_len = of_nat (length g)\<rparr> # ss"
    and len: "length body < 2 ^ 31"
  shows "\<exists>p'. WPacketClose p = (if length body < 2 ^ (8 * length g)
        then (p'\<lparr>wp_subs := ss\<rparr>, Inr ()) else (p', Inl Fail))
    \<and> wp_wf p' \<and> wp_out p' = pre @ be_bytes (length g) (of_nat (length body)) @ body
    \<and> p' = p\<lparr>wp_data := wp_data p'\<rparr> \<and> length (wp_data p') = length (wp_data p)"
proof -
  let ?n = "length g" and ?v = "of_nat (length body) :: u64"
  have lo: "unat (wp_curr p) = length pre + ?n + length body"
    using length_wp_out[OF wf] out by simp
  have inb: "unat (wp_curr p) \<le> length (wp_data p)"
    using wf by (auto simp: wp_wf_def split: if_splits)
  have split: "wp_data p = pre @ g @ body @ drop (unat (wp_curr p)) (wp_data p)"
    using out inb append_take_drop_id[of "unat (wp_curr p)" "wp_data p"] by (simp add: wp_out_def)
  have small: "length pre + ?n + length body < 2 ^ 31"
    using inb wf lo by (simp add: wp_wf_def)
  have "wp_curr p = of_nat (length pre + ?n + length body)"
    using lo by (metis of_nat_unat64_inv)
  then have d: "wp_curr p - of_nat (length pre) - of_nat ?n = ?v" by simp
  have "uint ?v < 2 ^ 31" "uint (0::u64) < 2 ^ 31" using len by (simp_all add: uint_of_nat64)
  then have ge: "QUIC_GE ?v 0" by (simp add: quic_cmp_small64)
  let ?m = "pre @ be_bytes ?n ?v @ body @ drop (unat (wp_curr p)) (wp_data p)"
  have un: "unat (of_nat ?n :: u64) = ?n" using small by (intro of_nat_unat64) simp
  have "put_value_loop (wp_data p) (int (length pre)) ?n ?v =
    Inr (take (length pre) (wp_data p) @ be_bytes ?n ?v @ drop (length pre + ?n) (wp_data p),
      drop_bit (8 * ?n) ?v)"
    using inb lo by (intro put_value_loop_spec) simp
  also have "take (length pre) (wp_data p) = pre" by (subst split) simp
  also have "drop (length pre + ?n) (wp_data p) = body @ drop (unat (wp_curr p)) (wp_data p)"
    by (subst split) simp
  finally have l: "put_value_loop (wp_data p) (int (length pre)) ?n ?v = Inr (?m, drop_bit (8 * ?n) ?v)" .
  have fits: "0 < drop_bit (8 * ?n) ?v \<longleftrightarrow> \<not> length body < 2 ^ (8 * ?n)"
  proof -
    have "uint ?v = int (length body)" using len by (simp add: uint_of_nat64)
    then show ?thesis unfolding drop_bit_pos_iff
      by (metis of_nat_less_iff of_nat_numeral of_nat_power)
  qed
  have pv: "WPacketPutValue p (wp_gen p, int (length pre)) ?v (of_nat ?n) =
      (p\<lparr>wp_data := ?m\<rparr>, if length body < 2 ^ (8 * ?n) then Inr () else Inl Fail)"
    using fits by (simp add: WPacketPutValue_def un l)
  let ?p = "p\<lparr>wp_data := ?m\<rparr>"
  have lm: "length ?m = length (wp_data p)" using inb lo by simp
  have "WPacketClose p = (if length body < 2 ^ (8 * ?n) then (?p\<lparr>wp_subs := ss\<rparr>, Inr ()) else (?p, Inl Fail))"
    unfolding WPacketClose_def
    by (simp add: sub wp_ptr_diff_def WPacket_get_curr_def WPacket_get_data_def d ge pv Let_def)
  moreover have "wp_wf ?p" using wf by (simp only: wp_wf_data[OF lm])
  moreover have "wp_out ?p = pre @ be_bytes ?n ?v @ body" using lo by (simp add: wp_out_def)
  ultimately show ?thesis using lm by (intro exI[of _ ?p]) simp
qed

text \<open>Opening a part and copying into it, and what a store over its length bytes then gives.\<close>

lemma sub_open_copy:
  assumes wf: "wp_wf p" and st: "wp_static p" and room: "n + length bs \<le> wp_room p"
    and al: "env_alloc e sizeof_sub"
  obtains p1 p2 g where "WPacketStartSubBytes e p (of_nat n) = (p1, Inr ())"
    and "WPacketMemcpy e p1 (Some bs) = (p2, Inr ())" and "length g = n" and "wp_wf p2"
    and "wp_out p2 = wp_out p @ g @ bs"
    and "wp_subs p2 = \<lparr>sub_value = Some (wp_gen p2, int (length (wp_out p))), sub_val_len = of_nat (length g)\<rparr> # wp_subs p"
    and "\<forall>p3 v. length v = n \<and> wp_wf p3 \<and> wp_out p3 = wp_out p @ v @ bs \<and>
      p3 = p2\<lparr>wp_data := wp_data p3\<rparr> \<and> length (wp_data p3) = length (wp_data p2) \<longrightarrow>
      wp_ext p (p3\<lparr>wp_subs := wp_subs p\<rparr>) (v @ bs)"
proof -
  obtain p1 g where p1: "WPacketStartSubBytes e p (of_nat n) = (p1, Inr ())" "length g = n"
    "wp_ext p (p1\<lparr>wp_subs := wp_subs p\<rparr>) g"
    "wp_subs p1 = \<lparr>sub_value = Some (wp_gen p1, uint (wp_curr p)), sub_val_len = of_nat n\<rparr> # wp_subs p"
    using WPacketStartSubBytes_ok[OF wf grow_ok_static[OF st] _ al, of n] room by auto
  have x1: "wp_wf p1" "wp_static p1" "length bs \<le> wp_room p1"
    using p1(2,3) st room wp_ext_wf[OF p1(3)] wp_ext_room[OF p1(3)] by (auto simp: wp_ext_def)
  from WPacketMemcpy_ok[OF x1(1) _ x1(3)] x1(2)
  obtain p2 where p2: "WPacketMemcpy e p1 (Some bs) = (p2, Inr ())" "wp_ext p1 p2 bs" by auto
  have patch: "wp_ext p (p3\<lparr>wp_subs := wp_subs p\<rparr>) (v @ bs)"
    if "length v = n" "wp_wf p3" "wp_out p3 = wp_out p @ v @ bs"
      and u: "p3 = p2\<lparr>wp_data := wp_data p3\<rparr>" and "length (wp_data p3) = length (wp_data p2)" for p3 v
  proof -
    have "wp_room p3 = wp_room p2" "wp_curr p3 = wp_curr p2" "wp_written p3 = wp_written p2"
      "wp_static p3 = wp_static p2" "wp_maxsize p3 = wp_maxsize p2" "wp_flags p3 = wp_flags p2"
      "wp_gen p3 = wp_gen p2"
      using u by (metis WPacket.select_convs WPacket.surjective WPacket.update_convs(1) wp_room_def)+
    then show ?thesis using that(1,2,3,5) p1(2,3) p2(2) by (auto simp: wp_ext_def)
  qed
  show thesis
    by (rule that[OF p1(1) p2(1) p1(2)])
      (use p1 p2(2) x1(2) length_wp_out[OF wf] patch in \<open>auto simp: wp_ext_def\<close>)
qed

lemma WPacketSubMemcpyBytes_ok:
  assumes wf: "wp_wf p" and st: "wp_static p" and room: "n + length bs \<le> wp_room p"
    and al: "env_alloc e sizeof_sub" and fit: "length bs < 2 ^ (8 * n)"
  shows "\<exists>p'. WPacketSubMemcpyBytes e p (Some bs) (of_nat n) = (p', Inr ())
    \<and> wp_ext p p' (be_bytes n (of_nat (length bs)) @ bs)"
proof -
  obtain p1 p2 g where s: "WPacketStartSubBytes e p (of_nat n) = (p1, Inr ())"
    "WPacketMemcpy e p1 (Some bs) = (p2, Inr ())" "length g = n"
    and c: "wp_wf p2" "wp_out p2 = wp_out p @ g @ bs"
    "wp_subs p2 = \<lparr>sub_value = Some (wp_gen p2, int (length (wp_out p))), sub_val_len = of_nat (length g)\<rparr> # wp_subs p"
    and patch: "\<forall>p3 v. length v = n \<and> wp_wf p3 \<and> wp_out p3 = wp_out p @ v @ bs \<and>
      p3 = p2\<lparr>wp_data := wp_data p3\<rparr> \<and> length (wp_data p3) = length (wp_data p2) \<longrightarrow>
      wp_ext p (p3\<lparr>wp_subs := wp_subs p\<rparr>) (v @ bs)"
    using sub_open_copy[OF wf st room al] .
  have l31: "length bs < 2 ^ 31" using wp_room_bound[OF wf] room by linarith
  from WPacketClose_ok[OF c l31] fit s(3) obtain p3 where
    p3: "WPacketClose p2 = (p3\<lparr>wp_subs := wp_subs p\<rparr>, Inr ())" "wp_wf p3"
    "wp_out p3 = wp_out p @ be_bytes n (of_nat (length bs)) @ bs" "p3 = p2\<lparr>wp_data := wp_data p3\<rparr>"
    "length (wp_data p3) = length (wp_data p2)" by auto
  have "wp_ext p (p3\<lparr>wp_subs := wp_subs p\<rparr>) (be_bytes n (of_nat (length bs)) @ bs)"
    using patch p3 by simp
  then show ?thesis using s p3(1) by (auto simp: WPacketSubMemcpyBytes_def)
qed

section \<open>The writer interface\<close>

text \<open>
  What the builders of frames and messages need of a writer: an output that only grows, by exactly
  the bytes written, as long as there is room.
\<close>

locale byte_writer =
  fixes put :: "'s \<Rightarrow> bytes \<Rightarrow> 's \<times> unit res"
    and out :: "'s \<Rightarrow> bytes"
    and room :: "'s \<Rightarrow> nat"
    and inv :: "'s \<Rightarrow> bool"
  assumes put_ok: "inv s \<Longrightarrow> length bs \<le> room s \<Longrightarrow>
      \<exists>s'. put s bs = (s', Inr ()) \<and> inv s' \<and> out s' = out s @ bs \<and> room s = room s' + length bs"
    and put_full: "inv s \<Longrightarrow> length bs < 2 ^ 31 \<Longrightarrow> room s < length bs \<Longrightarrow> put s bs = (s, Inl Fail)"

primrec put_all :: "('s \<Rightarrow> bytes \<Rightarrow> 's \<times> unit res) \<Rightarrow> 's \<Rightarrow> bytes list \<Rightarrow> 's \<times> unit res" where
  "put_all put s [] = (s, Inr ())"
| "put_all put s (b # bs) = bindS (put s b) (\<lambda>s' _. put_all put s' bs)"

context byte_writer begin

lemma put_all_ok:
  "inv s \<Longrightarrow> length (concat bss) \<le> room s \<Longrightarrow> \<exists>s'. put_all put s bss = (s', Inr ()) \<and> inv s'
     \<and> out s' = out s @ concat bss \<and> room s = room s' + length (concat bss)"
proof (induction bss arbitrary: s)
  case Nil
  then show ?case by simp
next
  case (Cons b bss)
  then obtain s1 where s1: "put s b = (s1, Inr ())" "inv s1" "out s1 = out s @ b"
    "room s = room s1 + length b"
    using put_ok[of s b] by auto
  with Cons.IH[of s1] Cons.prems(2) show ?case by auto
qed

lemma put_all_full:
  "inv s \<Longrightarrow> room s < length (concat bss) \<Longrightarrow> length (concat bss) < 2 ^ 31 \<Longrightarrow>
     \<exists>s'. put_all put s bss = (s', Inl Fail) \<and> (\<exists>cs. out s' = out s @ cs)"
proof (induction bss arbitrary: s)
  case Nil
  then show ?case by simp
next
  case (Cons b bss)
  show ?case
  proof (cases "length b \<le> room s")
    case True
    then obtain s1 where s1: "put s b = (s1, Inr ())" "inv s1" "out s1 = out s @ b"
      "room s = room s1 + length b"
      using put_ok Cons.prems(1) by blast
    with Cons.IH[of s1] Cons.prems(2,3) show ?thesis by auto
  next
    case False
    then have "put s b = (s, Inl Fail)" using Cons.prems by (intro put_full) auto
    then show ?thesis by simp
  qed
qed

end

text \<open>Static packets are writers for any environment, as they never call the allocator.\<close>

interpretation wpw: byte_writer "\<lambda>p bs. WPacketMemcpy e p (Some bs)" wp_out wp_room
  "\<lambda>p. wp_wf p \<and> wp_static p"
  for e
proof
  fix p and bs :: bytes assume "wp_wf p \<and> wp_static p" and "length bs \<le> wp_room p"
  then show "\<exists>p'. WPacketMemcpy e p (Some bs) = (p', Inr ()) \<and> (wp_wf p' \<and> wp_static p')
    \<and> wp_out p' = wp_out p @ bs \<and> wp_room p = wp_room p' + length bs"
    using WPacketMemcpy_ok[of p e bs] by (auto simp: wp_ext_def)
next
  fix p and bs :: bytes assume "wp_wf p \<and> wp_static p" and "length bs < 2 ^ 31" and "wp_room p < length bs"
  then show "WPacketMemcpy e p (Some bs) = (p, Inl Fail)"
    by (intro WPacketMemcpy_full) auto
qed

section \<open>Round trip through a length-prefixed part\<close>

lemma be_word_be_bytes:
  assumes "uint v < 2 ^ (8 * n)" and "n \<le> 4"
  shows "ucast (be_word (be_bytes n v)) = (v :: u64)"
proof -
  have step: "foldl (\<lambda>a b. push_bit 8 a OR ucast b) acc (be_bytes n v) =
    push_bit (8 * n) acc OR (ucast (take_bit (8 * n) v) :: u32)" for acc n
  proof (induction n arbitrary: acc)
    case 0
    show ?case by simp
  next
    case (Suc n)
    show ?case
      by (simp only: be_bytes.simps foldl_Cons Suc.IH, rule bit_eqI)
        (auto simp: bit_simps algebra_simps)
  qed
  have "be_word (be_bytes n v) = ucast (take_bit (8 * n) v)"
    unfolding be_word_def step by simp
  also have "take_bit (8 * n) v = v" using assms(1) by (rule take_bit_full)
  finally have w: "be_word (be_bytes n v) = ucast v" .
  have "(2 :: int) ^ (8 * n) \<le> 2 ^ 32" using assms(2) by (intro power_increasing) simp_all
  then have "uint v < 2 ^ 32" using assms(1) by (rule less_le_trans[rotated])
  then have "take_bit 32 v = v" by (rule take_bit_full)
  moreover have "ucast (ucast v :: u32) = take_bit 32 v"
    by (rule bit_eqI) (auto simp: bit_simps)
  ultimately show ?thesis unfolding w by simp
qed

lemma rp_sub_pkt:
  assumes "rp_wf r" and "rp_view r = bs @ rest" and "uint n < 2 ^ 31" and "unat n = length bs"
  shows "\<exists>sub r'. RPacketGetLengthPrefixed r n = Inr (sub, r') \<and> rp_wf sub \<and> rp_view sub = bs
    \<and> rp_wf r' \<and> rp_view r' = rest"
proof -
  have le: "unat n \<le> length (rp_view r)" using assms(2,4) by simp
  then have "RPacketGetLengthPrefixed r n =
    Inr (RPacketBufInit (rp_buf r) (rp_curr r) n, RPacketForward r n)"
    using RPacketGetBytes_spec[OF assms(1,3)] by (simp add: RPacketGetLengthPrefixed_def)
  then show ?thesis
    using rp_sub_view[OF assms(1) le] rp_Forward_wf[OF assms(1) le] assms(2,4) by auto
qed

lemma RPacketGetLengthPrefixed_bytes:
  assumes "rp_wf r" and "rp_view r = be_bytes n (of_nat (length bs)) @ bs @ rest"
    and "0 < n" and "n \<le> 4" and "length bs < 2 ^ (8 * n)" and "length bs < 2 ^ 31"
  shows "\<exists>sub r'. bindR (RPacketGetData r (of_nat n)) (\<lambda>(len, pkt'). RPacketGetLengthPrefixed pkt' (ucast len)) =
      Inr (sub, r') \<and> rp_wf sub \<and> rp_view sub = bs \<and> rp_wf r' \<and> rp_view r' = rest"
proof -
  let ?v = "of_nat (length bs) :: u64" and ?n = "of_nat n :: u64"
  have n: "0 < ?n" "uint ?n < 2 ^ 31" "unat ?n = n"
    using assms(3,4) by (simp_all add: word_gt_0 uint_of_nat64 of_nat_unat64 flip: unat_gt_0)
  have v: "uint ?v = int (length bs)" "unat ?v = length bs" "uint ?v < 2 ^ 31"
    using assms(6) by (simp_all add: uint_of_nat64 of_nat_unat64)
  have "uint ?v < 2 ^ (8 * n)"
    using assms(5) unfolding v(1) by (metis of_nat_less_iff of_nat_numeral of_nat_power)
  then have w: "ucast (be_word (be_bytes n ?v)) = ?v" using assms(4) by (rule be_word_be_bytes)
  have le: "unat ?n \<le> length (rp_view r)" using assms(2) n(3) by simp
  have g: "RPacketGetData r ?n = Inr (be_word (be_bytes n ?v), RPacketForward r ?n)"
    using RPacketGetData_spec[OF assms(1) n(1,2)] le assms(2) n(3) by simp
  have "rp_view (RPacketForward r ?n) = bs @ rest"
    using rp_Forward_wf(2)[OF assms(1) le] assms(2) n(3) by simp
  from rp_sub_pkt[OF rp_Forward_wf(1)[OF assms(1) le] this v(3,2)] show ?thesis
    using g w by simp
qed

text \<open>C21: writing a byte string with \<^verbatim>\<open>WPacketSubMemcpyU8\<close> or \<^verbatim>\<open>WPacketSubMemcpyU16\<close> into a static
  packet with room for it appends its big-endian length and the bytes, and reading that output
  back with \<^verbatim>\<open>RPacketGetLengthPrefixed1\<close> or \<^verbatim>\<open>RPacketGetLengthPrefixed2\<close> gives a sub-packet that holds
  exactly the string and leaves the rest unread.\<close>

theorem length_prefixed_roundtrip:
  assumes "(n, put, get) \<in> {(1, WPacketSubMemcpyU8, RPacketGetLengthPrefixed1),
      (2, WPacketSubMemcpyU16, RPacketGetLengthPrefixed2)}"
    and "wp_wf p" and "wp_static p" and "n + length bs \<le> wp_room p" and "env_alloc e sizeof_sub"
    and "length bs < 2 ^ (8 * n)"
  shows "\<exists>p'. put e p (Some bs) = (p', Inr ()) \<and> wp_wf p'
    \<and> wp_out p' = wp_out p @ be_bytes n (of_nat (length bs)) @ bs
    \<and> (\<forall>r rest. rp_wf r \<and> rp_view r = drop (length (wp_out p)) (wp_out p') @ rest \<longrightarrow>
         (\<exists>sub r'. get r = Inr (sub, r') \<and> rp_view sub = bs \<and> rp_wf r' \<and> rp_view r' = rest))"
proof -
  have n: "0 < n" "n \<le> 4" and put: "put e p (Some bs) = WPacketSubMemcpyBytes e p (Some bs) (of_nat n)"
    and get: "\<And>r. get r = bindR (RPacketGetData r (of_nat n)) (\<lambda>(len, pkt'). RPacketGetLengthPrefixed pkt' (ucast len))"
    using assms(1)
    by (auto simp: WPacketSubMemcpyU8_def WPacketSubMemcpyU16_def RPacketGetLengthPrefixed1_def
        RPacketGetLengthPrefixed2_def RPacketGet1_def RPacketGet2_def)
  have l31: "length bs < 2 ^ 31" using wp_room_bound[OF assms(2)] assms(4) by linarith
  obtain p' where p': "put e p (Some bs) = (p', Inr ())"
    "wp_ext p p' (be_bytes n (of_nat (length bs)) @ bs)"
    using WPacketSubMemcpyBytes_ok[OF assms(2-6)] put by auto
  show ?thesis
    using p' RPacketGetLengthPrefixed_bytes[OF _ _ n assms(6) l31] wp_ext_wf[OF p'(2)] wp_ext_out[OF p'(2)]
    unfolding get by fastforce
qed

theorem length_prefixed_roundtrip_witness:
  "\<exists>p'. WPacketSubMemcpyU8 env0 (WPacketStaticBufInit [0, 0, 0, 0, 0] 5) (Some [7, 8, 9]) = (p', Inr ())
    \<and> wp_out p' = [3, 7, 8, 9]"
  using length_prefixed_roundtrip[of 1 WPacketSubMemcpyU8 RPacketGetLengthPrefixed1
      "WPacketStaticBufInit [0, 0, 0, 0, 0] 5" "[7, 8, 9]" env0]
  by (auto simp: WPacketStaticBufInit_def wp_wf_def wp_room_def env0_def wp_out_def)

lemma wp_store_gen: "wp_store p q bs = (p', r) \<Longrightarrow> wp_gen p' = wp_gen p"
  by (auto simp: wp_store_def split: sum.splits if_splits)

lemma WPacketMemcpy_grows:
  assumes "\<not> wp_static p" and "bs \<noteq> []" and "WPacketMemcpy e p (Some bs) = (p', Inr ())"
    and "of_nat (length (wp_data p)) - wp_written p < (of_nat (length bs) :: u64)"
  shows "wp_gen p' = Suc (wp_gen p)"
proof -
  obtain p1 q where a: "WPacketAllocateBytes e p (of_nat (length bs)) = (p1, Inr q)"
    and st: "wp_store p1 q bs = (p', Inr ())"
    using assms(2,3) by (auto simp: WPacketMemcpy_def bindS_eq_Inr)
  have "wp_gen p1 = Suc (wp_gen p)"
    using a assms(1,4)
    by (auto simp: WPacketAllocateBytes_def WPacketReserveBytes_def bindS_eq_Inr Let_def
        split: option.splits if_splits)
  then show ?thesis using wp_store_gen[OF st] by simp
qed

lemma wp_left_unat:
  assumes "wp_wf p" and "unat (wp_written p) \<le> length (wp_data p)"
  shows "unat (of_nat (length (wp_data p)) - wp_written p) = length (wp_data p) - unat (wp_written p)"
proof -
  have ub: "unat (of_nat (length (wp_data p)) :: u64) = length (wp_data p)"
    using assms(1) by (intro of_nat_unat64) (simp add: wp_wf_def)
  then have "wp_written p \<le> of_nat (length (wp_data p))" using assms(2) by (simp add: word_le_nat_alt)
  then show ?thesis by (simp add: unat_sub ub)
qed

text \<open>A part opened where the buffer already has the room for its length bytes.\<close>

lemma WPacketStartSubBytes_in_place:
  assumes "wp_wf p" and "\<not> wp_static p" and "env_alloc e sizeof_sub" and "2 \<le> wp_room p"
    and "unat (wp_written p) + 2 \<le> length (wp_data p)"
  defines "p1 \<equiv> p\<lparr>wp_subs := \<lparr>sub_value = Some (wp_gen p, uint (wp_curr p)), sub_val_len = 2\<rparr> # wp_subs p,
      wp_written := wp_written p + 2, wp_curr := wp_curr p + 2\<rparr>"
  shows "WPacketStartSubBytes e p 2 = (p1, Inr ())" and "wp_wf p1" and "wp_room p = wp_room p1 + 2"
    and "unat (wp_written p1) = unat (wp_written p) + 2"
proof -
  have w: "wp_curr p = wp_written p" "length (wp_data p) < 2 ^ 31" "unat (wp_maxsize p) < 2 ^ 30"
    using assms(1,2) by (auto simp: wp_wf_def)
  have "\<not> (of_nat (length (wp_data p)) - wp_written p < (2 :: u64))"
    using wp_left_unat[OF assms(1)] assms(5) by (simp add: word_less_nat_alt)
  moreover have "\<not> QUIC_LT (wp_maxsize p - wp_written p) 2"
    using wp_space_exact[OF assms(1), of 2] assms(4) by simp
  ultimately show "WPacketStartSubBytes e p 2 = (p1, Inr ())"
    using assms(3)
    by (simp add: p1_def WPacketStartSubBytes_def alloc_def WPacketAllocateBytes_def
        WPacketReserveBytes_def WPacket_get_curr_def WPacket_get_data_def Let_def)
  have u: "unat (wp_written p + 2) = unat (wp_written p) + 2"
    using assms(5) w(2) by (subst unat_add_lem[THEN iffD1]) simp_all
  then show "unat (wp_written p1) = unat (wp_written p) + 2" by (simp add: p1_def)
  have rm: "unat (wp_written p) + 2 \<le> unat (wp_maxsize p)"
    using assms(4) unfolding wp_room_def by linarith
  then show "wp_wf p1" and "wp_room p = wp_room p1 + 2"
    using assms(1,2,5) u w by (simp_all add: p1_def wp_wf_def wp_room_def word_le_nat_alt)
qed

text \<open>A length-prefixed part opened in a growable packet cannot be closed once the packet has
  grown: the pointer to its length bytes is into the buffer \<^verbatim>\<open>BUF_MEM_grow\<close> replaced. Writing the
  part with \<^verbatim>\<open>WPacketSubMemcpyU16\<close> so that the copy needs more than what is left of the buffer ends in
  a store through that pointer.\<close>

theorem grown_packet_dangling_part:
  assumes "wp_wf p" and "\<not> wp_static p" and "grow_spec e" and "\<And>m n. env_grow e m n \<noteq> None"
    and "env_alloc e sizeof_sub" and "length bs + 2 \<le> wp_room p"
    and "unat (wp_written p) + 2 \<le> length (wp_data p)"
    and "length (wp_data p) < unat (wp_written p) + 2 + length bs"
  shows "\<exists>p'. WPacketSubMemcpyU16 e p (Some bs) = (p', Inl Bad_mem)"
proof -
  have "2 \<le> wp_room p" using assms(6) by linarith
  note s = WPacketStartSubBytes_in_place[OF assms(1,2,5) this assms(7)]
  let ?p1 = "p\<lparr>wp_subs := \<lparr>sub_value = Some (wp_gen p, uint (wp_curr p)), sub_val_len = 2\<rparr> # wp_subs p,
      wp_written := wp_written p + 2, wp_curr := wp_curr p + 2\<rparr>"
  have g1: "grow_ok e ?p1" using assms(3,4) by (simp add: grow_ok_def)
  have room1: "length bs \<le> wp_room ?p1" using s(3) assms(6) by linarith
  obtain p2 where p2: "WPacketMemcpy e ?p1 (Some bs) = (p2, Inr ())" "wp_ext ?p1 p2 bs"
    using WPacketMemcpy_ok[OF s(2) g1 room1] by blast
  have ne: "bs \<noteq> []" using assms(7,8) by auto
  have un: "unat (of_nat (length bs) :: u64) = length bs"
    using wp_room_bound[OF s(2)] room1 by (intro of_nat_unat64) simp
  have "of_nat (length (wp_data ?p1)) - wp_written ?p1 < (of_nat (length bs) :: u64)"
    using wp_left_unat[OF s(2)] s(4) assms(7,8) un unfolding word_less_nat_alt by simp
  then have "wp_gen p2 = Suc (wp_gen p)"
    using WPacketMemcpy_grows[OF _ ne p2(1)] assms(2) by simp
  moreover have "wp_subs p2 = wp_subs ?p1" using p2(2) by (simp add: wp_ext_def)
  ultimately have "WPacketClose p2 = (p2, Inl Bad_mem)"
    by (simp add: WPacketClose_def wp_ptr_diff_def WPacket_get_curr_def WPacket_get_data_def)
  then show ?thesis
    using s(1) p2(1) by (simp add: WPacketSubMemcpyU16_def WPacketSubMemcpyBytes_def)
qed

theorem grown_packet_dangling_part_witness:
  "\<exists>p'. WPacketSubMemcpyU16 env0 (WPacketBufInit [0, 0, 0, 0]) (Some [1, 2, 3]) = (p', Inl Bad_mem)"
  using grown_packet_dangling_part[of "WPacketBufInit [0, 0, 0, 0]" env0 "[1, 2, 3]"]
  by (auto simp: WPacketBufInit_def wp_wf_def wp_room_def env0_grow_spec WPACKET_BUF_MAX_LEN_def)
    (auto simp: env0_def zero_grow_def)

end
