(* ===== verification/VarInt_Write.thy ===== *)
theory VarInt_Write
  imports Packet_Write
begin

text \<open>
  Writing variable-length integers and variable-length-prefixed byte strings into a packet
  (\<^verbatim>\<open>quic/format.c\<close>): the 8-byte local variable the encoder fills is a buffer of zero bytes.
\<close>

section \<open>Operations\<close>

definition zero8 :: bytes where "zero8 = replicate 8 0"

definition QUIC_VARIABLE_LEN_MAX_SIZE :: nat where "QUIC_VARIABLE_LEN_MAX_SIZE = 8"

definition QuicVariableLengthWrite :: "env \<Rightarrow> WPacket \<Rightarrow> u64 \<Rightarrow> WPacket \<times> unit res" where
  "QuicVariableLengthWrite e pkt len =
     (case QuicVariableLengthEncode zero8 8 len of
        Inl err \<Rightarrow> (pkt, Inl err)
      | Inr (var_len, wlen) \<Rightarrow>
          if \<not> wlen \<le> QUIC_VARIABLE_LEN_MAX_SIZE then (pkt, Inl Abort)
          else WPacketMemcpy e pkt (Some (take wlen var_len)))"

definition QuicVariableLenWPacketClose :: "WPacket \<Rightarrow> bytes \<Rightarrow> WPacket \<times> unit res" where
  "QuicVariableLenWPacketClose pkt v =
     (case wp_subs pkt of
        [] \<Rightarrow> (pkt, Inl Fail)
      | sub # parent \<Rightarrow>
          (case sub_value sub of
             None \<Rightarrow> (pkt, Inl Null_ptr)
           | Some p \<Rightarrow> bindS (wp_store pkt p (take (unat (sub_val_len sub)) v))
               (\<lambda>pkt' _. (pkt'\<lparr>wp_subs := parent\<rparr>, Inr ()))))"

text \<open>The copy is cut to the space left; the result is the number of bytes copied, as an \<^verbatim>\<open>int\<close>.\<close>

definition QuicWPacketSubMemcpyVar :: "env \<Rightarrow> WPacket \<Rightarrow> bytes option \<Rightarrow> u64 \<Rightarrow> WPacket \<times> u32 res" where
  "QuicWPacketSubMemcpyVar e pkt src len =
     (let space = scast (WPacket_get_space pkt) :: u64 in
      case QuicVariableLengthEncode zero8 8 len of
        Inl err \<Rightarrow> (pkt, Inl err)
      | Inr (v0, wlen0) \<Rightarrow>
        if wlen0 = 0 then (pkt, Inl Fail)
        else
          (case (if QUIC_LT space (len + of_nat wlen0)
                 then if QUIC_LE space (of_nat wlen0) then Inl Fail
                      else let data_len = space - of_nat wlen0 in
                        bindR (QuicVariableLengthEncode v0 8 data_len) (\<lambda>(v, wlen).
                          if wlen = 0 then Inl Fail else Inr (data_len, v, wlen))
                 else Inr (len, v0, wlen0)) of
             Inl err \<Rightarrow> (pkt, Inl err)
           | Inr (data_len, v, wlen) \<Rightarrow>
               bindS (WPacketStartSubBytes e pkt (of_nat wlen)) (\<lambda>pkt1 _.
               bindS (WPacketMemcpy e pkt1 (map_option (take (unat data_len)) src)) (\<lambda>pkt2 _.
               bindS (QuicVariableLenWPacketClose pkt2 v) (\<lambda>pkt3 _. (pkt3, Inr (ucast data_len)))))))"

text \<open>A variable-length integer with its own length before it.\<close>

definition QuicVariableLengthValueWrite :: "env \<Rightarrow> WPacket \<Rightarrow> u64 \<Rightarrow> WPacket \<times> unit res" where
  "QuicVariableLengthValueWrite e pkt v =
     (case QuicVariableLengthEncode zero8 8 v of
        Inl err \<Rightarrow> (pkt, Inl err)
      | Inr (var, wlen) \<Rightarrow>
          if \<not> wlen \<le> QUIC_VARIABLE_LEN_MAX_SIZE then (pkt, Inl Abort)
          else bindS (QuicVariableLengthWrite e pkt (of_nat wlen))
                 (\<lambda>pkt' _. WPacketMemcpy e pkt' (Some (take wlen var))))"

section \<open>Behaviour\<close>

lemma varint_len_le: "varint_len v \<le> 8" "0 < varint_len v"
proof -
  have "(2 :: nat) ^ varint_prefix v \<le> 2 ^ 3" by (intro power_increasing varint_prefix_le) simp
  then show "varint_len v \<le> 8" by (simp add: varint_len_def)
  show "0 < varint_len v" by (simp add: varint_len_def)
qed

lemma encode_any8:
  assumes "uint v < 2 ^ 62" and "length buf = 8"
  shows "QuicVariableLengthEncode buf 8 v = Inr (varint_bytes v @ drop (varint_len v) buf, varint_len v)"
  using assms varint_len_le by (intro QuicVariableLengthEncode_spec) simp_all

lemma encode_zero8:
  "uint v < 2 ^ 62 \<Longrightarrow>
     QuicVariableLengthEncode zero8 8 v = Inr (varint_bytes v @ drop (varint_len v) zero8, varint_len v)"
  by (rule encode_any8) (simp_all add: zero8_def)

lemma QuicVariableLengthWrite_eq:
  "uint v < 2 ^ 62 \<Longrightarrow> QuicVariableLengthWrite e p v = WPacketMemcpy e p (Some (varint_bytes v))"
  using varint_len_le(1)[of v]
  by (simp add: QuicVariableLengthWrite_def encode_zero8 QUIC_VARIABLE_LEN_MAX_SIZE_def)

lemma QuicVariableLengthWrite_ok:
  "uint v < 2 ^ 62 \<Longrightarrow> wp_wf p \<Longrightarrow> grow_ok e p \<Longrightarrow> varint_len v \<le> wp_room p \<Longrightarrow>
     \<exists>p'. QuicVariableLengthWrite e p v = (p', Inr ()) \<and> wp_ext p p' (varint_bytes v)"
  using WPacketMemcpy_ok[of p e "varint_bytes v"] by (simp add: QuicVariableLengthWrite_eq)

lemma QuicVariableLengthWrite_full:
  "uint v < 2 ^ 62 \<Longrightarrow> wp_wf p \<Longrightarrow> wp_room p < varint_len v \<Longrightarrow>
     QuicVariableLengthWrite e p v = (p, Inl Fail)"
  using WPacketMemcpy_full[of p "varint_bytes v" e] varint_len_le(1)[of v]
  by (simp add: QuicVariableLengthWrite_eq)

lemma QuicVariableLengthWrite_too_large:
  "\<not> uint v < 2 ^ 62 \<Longrightarrow> QuicVariableLengthWrite e p v = (p, Inl Fail)"
  by (simp add: QuicVariableLengthWrite_def QuicVariableLengthEncode_too_large)

text \<open>A store over the length bytes of the innermost part.\<close>

lemma QuicVariableLenWPacketClose_ok:
  assumes wf: "wp_wf p" and out: "wp_out p = pre @ g @ body"
    and sub: "wp_subs p = \<lparr>sub_value = Some (wp_gen p, int (length pre)), sub_val_len = of_nat (length g)\<rparr> # ss"
    and l: "length v = length g"
  shows "\<exists>p'. QuicVariableLenWPacketClose p (v @ rest) = (p'\<lparr>wp_subs := ss\<rparr>, Inr ())
    \<and> wp_wf p' \<and> wp_out p' = pre @ v @ body
    \<and> p' = p\<lparr>wp_data := wp_data p'\<rparr> \<and> length (wp_data p') = length (wp_data p)"
proof -
  have lo: "unat (wp_curr p) = length pre + length g + length body"
    using length_wp_out[OF wf] out by simp
  have inb: "unat (wp_curr p) \<le> length (wp_data p)"
    using wf by (auto simp: wp_wf_def split: if_splits)
  have split: "wp_data p = pre @ g @ body @ drop (unat (wp_curr p)) (wp_data p)"
    using out inb append_take_drop_id[of "unat (wp_curr p)" "wp_data p"] by (simp add: wp_out_def)
  have "unat (of_nat (length g) :: u64) = length g"
    using inb wf lo by (intro of_nat_unat64) (simp add: wp_wf_def)
  then have t: "take (unat (of_nat (length g) :: u64)) (v @ rest) = v" using l by simp
  let ?m = "pre @ v @ body @ drop (unat (wp_curr p)) (wp_data p)"
  have c: "mem_copy (wp_data p) (int (length pre)) v = Inr ?m"
    by (subst split, rule mem_copy_append) (simp add: l)
  have lm: "length ?m = length (wp_data p)" using inb lo l by simp
  have "wp_wf (p\<lparr>wp_data := ?m\<rparr>)" using wf by (simp only: wp_wf_data[OF lm])
  moreover have "wp_out (p\<lparr>wp_data := ?m\<rparr>) = pre @ v @ body" using lo l by (simp add: wp_out_def)
  ultimately show ?thesis using t c lm
    by (intro exI[of _ "p\<lparr>wp_data := ?m\<rparr>"]) (simp add: QuicVariableLenWPacketClose_def sub wp_store_def)
qed

lemma var_part_ok:
  assumes wf: "wp_wf p" and st: "wp_static p" and room: "length v + length bs \<le> wp_room p"
    and al: "env_alloc e sizeof_sub"
  shows "\<exists>p'. bindS (WPacketStartSubBytes e p (of_nat (length v))) (\<lambda>pkt1 _.
      bindS (WPacketMemcpy e pkt1 (Some bs)) (\<lambda>pkt2 _.
      bindS (QuicVariableLenWPacketClose pkt2 (v @ rest)) (\<lambda>pkt3 _. (pkt3, Inr r)))) = (p', Inr r)
    \<and> wp_ext p p' (v @ bs)"
proof -
  obtain p1 p2 g where s: "WPacketStartSubBytes e p (of_nat (length v)) = (p1, Inr ())"
    "WPacketMemcpy e p1 (Some bs) = (p2, Inr ())" "length g = length v"
    and c: "wp_wf p2" "wp_out p2 = wp_out p @ g @ bs"
    "wp_subs p2 = \<lparr>sub_value = Some (wp_gen p2, int (length (wp_out p))), sub_val_len = of_nat (length g)\<rparr> # wp_subs p"
    and patch: "\<forall>p3 v'. length v' = length v \<and> wp_wf p3 \<and> wp_out p3 = wp_out p @ v' @ bs \<and>
      p3 = p2\<lparr>wp_data := wp_data p3\<rparr> \<and> length (wp_data p3) = length (wp_data p2) \<longrightarrow>
      wp_ext p (p3\<lparr>wp_subs := wp_subs p\<rparr>) (v' @ bs)"
    using sub_open_copy[OF wf st room al] .
  from QuicVariableLenWPacketClose_ok[OF c, of v rest] s(3) obtain p3 where
    p3: "QuicVariableLenWPacketClose p2 (v @ rest) = (p3\<lparr>wp_subs := wp_subs p\<rparr>, Inr ())" "wp_wf p3"
    "wp_out p3 = wp_out p @ v @ bs" "p3 = p2\<lparr>wp_data := wp_data p3\<rparr>"
    "length (wp_data p3) = length (wp_data p2)" by auto
  have "wp_ext p (p3\<lparr>wp_subs := wp_subs p\<rparr>) (v @ bs)"
    using patch p3 by simp
  then show ?thesis using s p3(1) by auto
qed

lemma scast_space:
  assumes "wp_wf p"
  shows "scast (WPacket_get_space p) = (of_nat (wp_room p) :: u64)"
proof -
  have le: "wp_written p \<le> wp_maxsize p" using assms by (simp add: wp_wf_def)
  have r: "wp_room p < 2 ^ 31" using assms by (rule wp_room_bound)
  have "wp_maxsize p - wp_written p = of_nat (wp_room p)"
    by (metis le of_nat_unat64_inv unat_sub wp_room_def)
  moreover have "ucast (of_nat (wp_room p) :: u64) = (of_nat (wp_room p) :: u32)"
    using r by (simp add: unsigned_of_nat take_bit_nat_eq_self)
  ultimately have "WPacket_get_space p = of_nat (wp_room p)" by (simp add: WPacket_get_space_def)
  moreover have "scast (of_nat (wp_room p) :: u32) = (of_nat (wp_room p) :: u64)"
    using r by (simp add: signed_of_nat signed_take_bit_int_eq_self)
  ultimately show ?thesis by simp
qed

lemma of_nat_cmp31:
  assumes "a < 2 ^ 31" and "b < 2 ^ 31"
  shows "QUIC_LT (of_nat a :: u64) (of_nat b) = (a < b)" and "QUIC_LE (of_nat a :: u64) (of_nat b) = (a \<le> b)"
    and "QUIC_GT (of_nat a :: u64) (of_nat b) = (b < a)" and "QUIC_GE (of_nat a :: u64) (of_nat b) = (b \<le> a)"
  using assms by (simp_all add: quic_cmp_small64 uint_of_nat64 word_less_def word_le_def)

text \<open>How many of \<open>n\<close> bytes a variable-length-prefixed copy takes with \<open>r\<close> bytes of room.\<close>

definition var_cut :: "nat \<Rightarrow> nat \<Rightarrow> nat" where
  "var_cut r n = (if n + varint_len (of_nat n) \<le> r then n else r - varint_len (of_nat n))"

lemma varint_len_mono: "uint a \<le> uint b \<Longrightarrow> varint_len a \<le> varint_len b"
  by (auto simp: varint_len_def varint_prefix_def)

lemma var_cut_fits:
  assumes "n < 2 ^ 30" and "varint_len (of_nat n) < r"
  shows "varint_len (of_nat (var_cut r n)) + var_cut r n \<le> r" and "var_cut r n \<le> n"
    and "0 < n \<Longrightarrow> 0 < var_cut r n"
proof -
  show le: "var_cut r n \<le> n" by (auto simp: var_cut_def)
  have "varint_len (of_nat (var_cut r n)) \<le> varint_len (of_nat n)"
    using assms(1) le by (intro varint_len_mono) (simp add: uint_of_nat64)
  then show "varint_len (of_nat (var_cut r n)) + var_cut r n \<le> r"
    using assms(2) by (auto simp: var_cut_def split: if_splits)
  show "0 < n \<Longrightarrow> 0 < var_cut r n" using assms(2) by (auto simp: var_cut_def)
qed

text \<open>The variable-length-prefixed copy into a static packet with more room than the prefix: as many
  bytes as fit, after their number.\<close>

lemma QuicWPacketSubMemcpyVar_ok:
  assumes wf: "wp_wf p" and st: "wp_static p" and al: "env_alloc e sizeof_sub"
    and n: "length bs < 2 ^ 30" and room: "varint_len (of_nat (length bs)) < wp_room p"
  shows "\<exists>p'. QuicWPacketSubMemcpyVar e p (Some bs) (of_nat (length bs)) =
      (p', Inr (of_nat (var_cut (wp_room p) (length bs))))
    \<and> wp_ext p p' (varint_bytes (of_nat (var_cut (wp_room p) (length bs))) @
         take (var_cut (wp_room p) (length bs)) bs)"
proof -
  let ?n = "length bs" and ?r = "wp_room p"
  let ?c = "var_cut ?r ?n"
  let ?v = "of_nat ?c :: u64" and ?w0 = "varint_len (of_nat ?n)"
  note cut = var_cut_fits[OF n room]
  have r: "?r < 2 ^ 31" using wf by (rule wp_room_bound)
  have w0: "?w0 \<le> 8" "0 < ?w0" by (rule varint_len_le)+
  have u: "uint (of_nat ?n :: u64) < 2 ^ 62" "uint ?v < 2 ^ 62"
    using n cut(2) by (simp_all add: uint_of_nat64)
  have uv: "unat ?v = ?c" using n cut(2) by (intro of_nat_unat64) simp
  have sp: "scast (WPacket_get_space p) = (of_nat ?r :: u64)" using wf by (rule scast_space)
  let ?buf = "varint_bytes (of_nat ?n) @ drop ?w0 zero8"
  have lv0: "length ?buf = 8" using w0 by (simp add: zero8_def)
  let ?choice = "if QUIC_LT (of_nat ?r :: u64) (of_nat ?n + of_nat ?w0)
       then if QUIC_LE (of_nat ?r :: u64) (of_nat ?w0) then Inl Fail
            else let data_len = of_nat ?r - of_nat ?w0 in
              bindR (QuicVariableLengthEncode ?buf 8 data_len) (\<lambda>(v, wlen).
                if wlen = 0 then Inl Fail else Inr (data_len, v, wlen))
       else Inr (of_nat ?n, ?buf, ?w0) :: (u64 \<times> bytes \<times> nat) res"
  have "\<exists>rest. ?choice = Inr (?v, varint_bytes ?v @ rest, varint_len ?v)"
  proof (cases "?n + ?w0 \<le> ?r")
    case True
    then have "\<not> QUIC_LT (of_nat ?r :: u64) (of_nat ?n + of_nat ?w0)"
      using of_nat_cmp31(1)[OF r, of "?n + ?w0"] n w0 by simp
    then show ?thesis using True by (simp add: var_cut_def)
  next
    case False
    have "QUIC_LT (of_nat ?r :: u64) (of_nat ?n + of_nat ?w0)" "\<not> QUIC_LE (of_nat ?r :: u64) (of_nat ?w0)"
      using of_nat_cmp31(1)[OF r, of "?n + ?w0"] of_nat_cmp31(2)[OF r, of ?w0] n w0 False room by simp_all
    moreover have "of_nat ?r - of_nat ?w0 = ?v"
      using False room by (simp add: var_cut_def of_nat_diff)
    ultimately show ?thesis
      using encode_any8[OF u(2) lv0] varint_len_le(2)[of ?v] by (simp add: Let_def)
  qed
  then obtain rest where choice: "?choice = Inr (?v, varint_bytes ?v @ rest, varint_len ?v)" by blast
  have "length (varint_bytes ?v) + length (take ?c bs) \<le> ?r" using cut(1,2) by simp
  from var_part_ok[OF wf st this al, of rest "ucast ?v :: u32"] obtain p' where
    p': "bindS (WPacketStartSubBytes e p (of_nat (varint_len ?v))) (\<lambda>pkt1 _.
      bindS (WPacketMemcpy e pkt1 (Some (take ?c bs))) (\<lambda>pkt2 _.
      bindS (QuicVariableLenWPacketClose pkt2 (varint_bytes ?v @ rest)) (\<lambda>pkt3 _. (pkt3, Inr (ucast ?v :: u32))))) =
      (p', Inr (ucast ?v))" "wp_ext p p' (varint_bytes ?v @ take ?c bs)"
    by auto
  have uc: "(ucast ?v :: u32) = of_nat ?c"
    using n cut(2) by (simp add: unsigned_of_nat take_bit_nat_eq_self)
  show ?thesis
    using p' w0(2) choice
    by (intro exI[of _ p']) (simp add: QuicWPacketSubMemcpyVar_def sp encode_zero8[OF u(1)] uv uc)
qed

text \<open>Without that room it fails and leaves the packet alone.\<close>

lemma QuicWPacketSubMemcpyVar_full:
  assumes "wp_wf p" and "length bs < 2 ^ 30" and "0 < length bs"
    and "wp_room p \<le> varint_len (of_nat (length bs))"
  shows "QuicWPacketSubMemcpyVar e p (Some bs) (of_nat (length bs)) = (p, Inl Fail)"
proof -
  let ?n = "length bs" and ?r = "wp_room p"
  let ?w0 = "varint_len (of_nat ?n)"
  have r: "?r < 2 ^ 31" using assms(1) by (rule wp_room_bound)
  have w0: "?w0 \<le> 8" "0 < ?w0" by (rule varint_len_le)+
  have u: "uint (of_nat ?n :: u64) < 2 ^ 62" using assms(2) by (simp add: uint_of_nat64)
  have "QUIC_LT (of_nat ?r :: u64) (of_nat ?n + of_nat ?w0)" "QUIC_LE (of_nat ?r :: u64) (of_nat ?w0)"
    using of_nat_cmp31(1)[OF r, of "?n + ?w0"] of_nat_cmp31(2)[OF r, of ?w0] assms(2-4) w0 by simp_all
  then show ?thesis
    using w0(2) by (simp add: QuicWPacketSubMemcpyVar_def scast_space[OF assms(1)] encode_zero8[OF u])
qed

section \<open>Round trips\<close>

text \<open>C19: a variable-length integer below \<open>2 ^ 62\<close> written with \<^verbatim>\<open>QuicVariableLengthWrite\<close> into a
  packet with room for it appends the 1, 2, 4 or 8 bytes RFC 9000 gives it, and
  \<^verbatim>\<open>QuicVariableLengthDecode\<close> reads the same value back and leaves the rest unread.\<close>

theorem varint_roundtrip:
  assumes "uint v < 2 ^ 62" and "wp_wf p" and "grow_ok e p" and "varint_len v \<le> wp_room p"
  shows "\<exists>p'. QuicVariableLengthWrite e p v = (p', Inr ()) \<and> wp_out p' = wp_out p @ varint_bytes v
    \<and> (\<forall>r rest. rp_wf r \<and> rp_view r = drop (length (wp_out p)) (wp_out p') @ rest \<longrightarrow>
         (\<exists>r'. QuicVariableLengthDecode r = Inr (v, r') \<and> rp_wf r' \<and> rp_view r' = rest))"
proof -
  obtain p' where p': "QuicVariableLengthWrite e p v = (p', Inr ())" "wp_out p' = wp_out p @ varint_bytes v"
    using QuicVariableLengthWrite_ok[OF assms] wp_ext_out by blast
  then show ?thesis using varint_decode_bytes[OF _ assms(1)] by (intro exI[of _ p']) auto
qed

lemma varint_example: "varint_bytes 15293 = [0x7b, 0xbd]" "varint_len 15293 = 2"
  by code_simp+

theorem varint_roundtrip_witness:
  "\<exists>p'. QuicVariableLengthWrite env0 (WPacketStaticBufInit [0, 0, 0] 3) 15293 = (p', Inr ())
    \<and> wp_out p' = [0x7b, 0xbd]"
  using varint_roundtrip[of 15293 "WPacketStaticBufInit [0, 0, 0] 3" env0]
  by (auto simp: WPacketStaticBufInit_def wp_wf_def wp_room_def wp_out_def varint_example)



end
