(* ===== verification/Data_Base.thy ===== *)
theory Data_Base
  imports Packet_Read
begin

text \<open>
  \<^verbatim>\<open>quic/mem.c\<close> and \<^verbatim>\<open>quic/base.c\<close>: \<^verbatim>\<open>QUIC_DATA\<close> is a pointer to a heap object (\<open>None\<close> is \<^verbatim>\<open>NULL\<close>)
  with a length of its own, \<^verbatim>\<open>QUIC_DATA_BUF\<close> a reference-counted one.
\<close>

section \<open>Memory\<close>

definition QuicMemDup :: "env \<Rightarrow> bytes option \<Rightarrow> nat \<Rightarrow> bytes option res" where
  "QuicMemDup e ptr n =
     (case ptr of
        None \<Rightarrow> Inr None
      | Some m \<Rightarrow> if env_alloc e n then bindR (mem_slice m 0 n) (\<lambda>d. Inr (Some d)) else Inr None)"

definition QuicMemStrDup :: "env \<Rightarrow> bytes option \<Rightarrow> bytes option res" where
  "QuicMemStrDup e str =
     (case str of
        None \<Rightarrow> Inr None
      | Some m \<Rightarrow>
          if 0 \<notin> set m then Inl Bad_mem
          else let s = takeWhile (\<lambda>b. b \<noteq> 0) m in
            if env_alloc e (length s + 1) then Inr (Some (s @ [0])) else Inr None)"

text \<open>Reading \<open>n\<close> bytes through a pointer.\<close>

definition ptr_bytes :: "bytes option \<Rightarrow> nat \<Rightarrow> bytes res" where
  "ptr_bytes p n = (case p of None \<Rightarrow> if n = 0 then Inr [] else Inl Null_ptr | Some m \<Rightarrow> mem_slice m 0 n)"

text \<open>Whether \<^verbatim>\<open>memcmp\<close> over \<open>n\<close> bytes gives 0.\<close>

definition QuicMemCmp :: "bytes option \<Rightarrow> bytes option \<Rightarrow> nat \<Rightarrow> bool res" where
  "QuicMemCmp p q n = bindR (ptr_bytes p n) (\<lambda>a. bindR (ptr_bytes q n) (\<lambda>b. Inr (a = b)))"

section \<open>QUIC_DATA\<close>

record QUIC_DATA =
  qd_data :: "bytes option"
  qd_len :: u64

record QUIC_DATA_BUF =
  db_ref :: u32
  db_data_len :: u64
  db_buf :: QUIC_DATA

definition qd_empty :: QUIC_DATA where "qd_empty = \<lparr>qd_data = None, qd_len = 0\<rparr>"

definition QuicDataIsEmpty :: "QUIC_DATA \<Rightarrow> bool" where
  "QuicDataIsEmpty d \<longleftrightarrow> qd_data d = None \<or> qd_len d = 0"

definition QuicDataDupBytes :: "env \<Rightarrow> QUIC_DATA \<Rightarrow> QUIC_DATA \<Rightarrow> u64 \<Rightarrow> QUIC_DATA \<times> unit res" where
  "QuicDataDupBytes e dst src byte_len =
     (if qd_data src = None then (dst\<lparr>qd_data := None, qd_len := qd_len src\<rparr>, Inr ())
      else case QuicMemDup e (qd_data src) (unat (qd_len src * byte_len)) of
        Inl err \<Rightarrow> (dst\<lparr>qd_data := None\<rparr>, Inl err)
      | Inr None \<Rightarrow> (dst\<lparr>qd_data := None\<rparr>, Inl Fail)
      | Inr (Some d) \<Rightarrow> (dst\<lparr>qd_data := Some d, qd_len := qd_len src\<rparr>, Inr ()))"

definition QuicDataDup :: "env \<Rightarrow> QUIC_DATA \<Rightarrow> QUIC_DATA \<Rightarrow> QUIC_DATA \<times> unit res" where
  "QuicDataDup e dst src = QuicDataDupBytes e dst src 1"

definition QuicDataDupU16 :: "env \<Rightarrow> QUIC_DATA \<Rightarrow> QUIC_DATA \<Rightarrow> QUIC_DATA \<times> unit res" where
  "QuicDataDupU16 e dst src = QuicDataDupBytes e dst src 2"

definition QuicDataEq :: "QUIC_DATA \<Rightarrow> QUIC_DATA \<Rightarrow> bool res" where
  "QuicDataEq d1 d2 =
     (let len = qd_len d2 in
      if qd_len d1 = len then QuicMemCmp (qd_data d1) (qd_data d2) (unat len) else Inr False)"

definition QuicDataSet :: "bytes option \<Rightarrow> u64 \<Rightarrow> QUIC_DATA" where
  "QuicDataSet data len = \<lparr>qd_data = data, qd_len = len\<rparr>"

definition QuicDataGet :: "QUIC_DATA \<Rightarrow> bytes option \<times> u64" where
  "QuicDataGet src = (qd_data src, qd_len src)"

definition QuicDataGetU16 :: "QUIC_DATA \<Rightarrow> bytes option \<times> u64" where
  "QuicDataGetU16 src = (qd_data src, qd_len src)"

definition QuicDataCopyBytes :: "env \<Rightarrow> QUIC_DATA \<Rightarrow> bytes option \<Rightarrow> u64 \<Rightarrow> u64 \<Rightarrow> QUIC_DATA \<times> unit res" where
  "QuicDataCopyBytes e dst data len byte_len =
     QuicDataDupBytes e dst \<lparr>qd_data = data, qd_len = len\<rparr> byte_len"

definition QuicDataCopy :: "env \<Rightarrow> QUIC_DATA \<Rightarrow> bytes option \<Rightarrow> u64 \<Rightarrow> QUIC_DATA \<times> unit res" where
  "QuicDataCopy e dst data len = QuicDataCopyBytes e dst data len 1"

definition QuicDataCopyU16 :: "env \<Rightarrow> QUIC_DATA \<Rightarrow> bytes option \<Rightarrow> u64 \<Rightarrow> QUIC_DATA \<times> unit res" where
  "QuicDataCopyU16 e dst data len = QuicDataCopyBytes e dst data len 2"

definition QuicDataFree :: "QUIC_DATA \<Rightarrow> QUIC_DATA" where
  "QuicDataFree d = d\<lparr>qd_data := None, qd_len := 0\<rparr>"

text \<open>
  When the copy fails the code frees \<^verbatim>\<open>data\<close>, the structure, and not \<^verbatim>\<open>data->data\<close>; every caller
  passes a structure that is a member of another object, so this is a \<^verbatim>\<open>free\<close> of a pointer that
  \<^verbatim>\<open>malloc\<close> did not return (\<open>Bad_mem\<close>).
\<close>

definition QuicDataParse :: "env \<Rightarrow> QUIC_DATA \<Rightarrow> RPacket \<Rightarrow> u64 \<Rightarrow> QUIC_DATA \<times> RPacket res" where
  "QuicDataParse e data pkt len =
     (let d0 = QuicDataFree data in
      if \<not> env_alloc e (unat len) then (d0, Inl Fail)
      else case RPacketCopyBytes pkt len of
        Inl Fail \<Rightarrow> (d0\<lparr>qd_data := Some (fresh_mem e (unat len))\<rparr>, Inl Bad_mem)
      | Inl err \<Rightarrow> (d0\<lparr>qd_data := Some (fresh_mem e (unat len))\<rparr>, Inl err)
      | Inr (bs, pkt') \<Rightarrow> (d0\<lparr>qd_data := Some bs, qd_len := len\<rparr>, Inr pkt'))"

text \<open>The sizes of the structures on a 64-bit target.\<close>

definition sizeof_QUIC_DATA :: nat where "sizeof_QUIC_DATA = 16"
definition sizeof_QUIC_DATA_BUF :: nat where "sizeof_QUIC_DATA_BUF = 32"

definition QuicDataCreate :: "env \<Rightarrow> u64 \<Rightarrow> QUIC_DATA res" where
  "QuicDataCreate e len =
     bindR (alloc e sizeof_QUIC_DATA) (\<lambda>_.
     bindR (alloc e (unat len)) (\<lambda>_.
       Inr \<lparr>qd_data = Some (fresh_mem e (unat len)), qd_len = len\<rparr>))"

definition QuicDataBufCreate :: "env \<Rightarrow> u64 \<Rightarrow> QUIC_DATA_BUF res" where
  "QuicDataBufCreate e len =
     bindR (alloc e sizeof_QUIC_DATA_BUF) (\<lambda>_.
     bindR (alloc e (unat len)) (\<lambda>_.
       Inr \<lparr>db_ref = 1, db_data_len = 0,
            db_buf = \<lparr>qd_data = Some (fresh_mem e (unat len)), qd_len = len\<rparr>\<rparr>))"

definition QuicDataBufGet :: "QUIC_DATA_BUF option \<Rightarrow> QUIC_DATA_BUF option" where
  "QuicDataBufGet buf = map_option (\<lambda>b. b\<lparr>db_ref := db_ref b + 1\<rparr>) buf"

text \<open>\<open>None\<close> once the last reference is gone and the object is freed.\<close>

definition QuicDataBufFree :: "QUIC_DATA_BUF option \<Rightarrow> QUIC_DATA_BUF option" where
  "QuicDataBufFree buf =
     (case buf of
        None \<Rightarrow> None
      | Some b \<Rightarrow> let b' = b\<lparr>db_ref := db_ref b - 1\<rparr> in if db_ref b' = 0 then None else Some b')"

section \<open>Well-formed data\<close>

text \<open>The length lies inside the object; a \<^verbatim>\<open>NULL\<close> pointer has length 0. The value is the string.\<close>

definition qd_wf :: "QUIC_DATA \<Rightarrow> bool" where
  "qd_wf d \<longleftrightarrow> (case qd_data d of None \<Rightarrow> qd_len d = 0 | Some m \<Rightarrow> unat (qd_len d) \<le> length m)"

definition qd_val :: "QUIC_DATA \<Rightarrow> bytes" where
  "qd_val d = (case qd_data d of None \<Rightarrow> [] | Some m \<Rightarrow> take (unat (qd_len d)) m)"

lemma qd_wf_empty [simp]: "qd_wf qd_empty" "qd_val qd_empty = []"
  by (simp_all add: qd_wf_def qd_val_def qd_empty_def)

lemma length_qd_val: "qd_wf d \<Longrightarrow> length (qd_val d) = unat (qd_len d)"
  by (auto simp: qd_wf_def qd_val_def split: option.splits)

lemma qd_val_empty: "qd_wf d \<Longrightarrow> QuicDataIsEmpty d \<longleftrightarrow> qd_val d = []"
proof -
  assume "qd_wf d"
  then have "qd_val d = [] \<longleftrightarrow> unat (qd_len d) = 0" by (metis length_0_conv length_qd_val)
  also have "\<dots> \<longleftrightarrow> qd_len d = 0" by (rule unat_eq_0)
  finally show ?thesis using \<open>qd_wf d\<close> by (auto simp: QuicDataIsEmpty_def qd_wf_def)
qed

lemma ptr_bytes_val: "qd_wf d \<Longrightarrow> ptr_bytes (qd_data d) (unat (qd_len d)) = Inr (qd_val d)"
  by (auto simp: ptr_bytes_def qd_wf_def qd_val_def mem_slice_def unat_eq_0 split: option.splits)

text \<open>Equality is equality of the strings.\<close>

lemma QuicDataEq_iff:
  assumes "qd_wf a" and "qd_wf b"
  shows "QuicDataEq a b = Inr (qd_val a = qd_val b)"
proof (cases "qd_len a = qd_len b")
  case True
  then show ?thesis
    using ptr_bytes_val[OF assms(1)] ptr_bytes_val[OF assms(2)]
    by (simp add: QuicDataEq_def QuicMemCmp_def)
next
  case False
  then have "qd_val a \<noteq> qd_val b"
    using length_qd_val[OF assms(1)] length_qd_val[OF assms(2)] by (metis word_unat_eq_iff)
  then show ?thesis using False by (simp add: QuicDataEq_def)
qed

text \<open>Duplication gives the same string, for any destination, or fails and leaves it empty.\<close>

lemma QuicDataDup_ok:
  assumes "qd_wf src"
  shows "QuicDataDup e dst src = (if qd_data src = None \<or> env_alloc e (unat (qd_len src))
      then (dst\<lparr>qd_data := map_option (\<lambda>_. qd_val src) (qd_data src), qd_len := qd_len src\<rparr>, Inr ())
      else (dst\<lparr>qd_data := None\<rparr>, Inl Fail))"
  using assms
  by (auto simp: QuicDataDup_def QuicDataDupBytes_def QuicMemDup_def qd_wf_def qd_val_def
      mem_slice_def unat_eq_0 split: option.splits)

lemma QuicDataDup_wf:
  assumes "qd_wf src" and "QuicDataDup e dst src = (d, Inr ())"
  shows "qd_wf d" and "qd_val d = qd_val src"
  using assms QuicDataDup_ok[OF assms(1), of e dst] length_qd_val[OF assms(1)]
  by (auto simp: qd_wf_def qd_val_def split: option.splits if_splits)

lemma QuicDataCopy_ok:
  assumes "unat len \<le> length m" and "env_alloc e (unat len)"
  shows "QuicDataCopy e dst (Some m) len = (dst\<lparr>qd_data := Some (take (unat len) m), qd_len := len\<rparr>, Inr ())"
  using assms
  by (auto simp: QuicDataCopy_def QuicDataCopyBytes_def QuicDataDupBytes_def QuicMemDup_def mem_slice_def)

lemma QuicDataParse_ok:
  assumes "rp_wf pkt" and "uint len < 2 ^ 31" and "env_alloc e (unat len)" and "unat len \<le> length (rp_view pkt)"
  shows "QuicDataParse e d pkt len =
    (d\<lparr>qd_data := Some (take (unat len) (rp_view pkt)), qd_len := len\<rparr>, Inr (RPacketForward pkt len))"
  using RPacketCopyBytes_spec[OF assms(1,2)] assms(3,4)
  by (simp add: QuicDataParse_def QuicDataFree_def)

lemma QuicDataParse_short:
  assumes "rp_wf pkt" and "uint len < 2 ^ 31" and "env_alloc e (unat len)" and "length (rp_view pkt) < unat len"
  shows "snd (QuicDataParse e d pkt len) = Inl Bad_mem"
  using RPacketCopyBytes_spec[OF assms(1,2)] assms(3,4)
  by (simp add: QuicDataParse_def)

text \<open>A buffer lives exactly as long as it has references.\<close>

lemma buf_get_free:
  "QuicDataBufFree (QuicDataBufGet (Some b)) = (if db_ref b = 0 then None else Some b)"
  by (simp add: QuicDataBufFree_def QuicDataBufGet_def Let_def)

lemma buf_create_free:
  "QuicDataBufCreate e len = Inr b \<Longrightarrow> QuicDataBufFree (Some b) = None"
  by (auto simp: QuicDataBufCreate_def QuicDataBufFree_def bindR_eq_Inr)

end
