(* ===== verification/Trans_Param.thy ===== *)
theory Trans_Param
  imports Prelude
begin

text \<open>
  Transport parameters (\<^verbatim>\<open>quic/transport.c\<close>): a table maps a parameter type to an offset into the
  structure and to the functions that initialise, read and write the 64-bit value there. A
  function pointer the table leaves out is \<open>None\<close>, and a call through it is \<open>Null_ptr\<close>.
\<close>

section \<open>State\<close>

record QuicTransParams =
  max_idle_timeout :: u64
  max_udp_payload_size :: u64
  initial_max_data :: u64
  initial_max_stream_data_bidi_local :: u64
  initial_max_stream_data_bidi_remote :: u64
  initial_max_stream_data_uni :: u64
  initial_max_stream_bidi :: u64
  initial_max_stream_uni :: u64
  max_datagrame_frame_size :: u64
  active_connection_id_limit :: u64
  stateless_reset_token :: bytes

text \<open>\<open>max_udp_payload_size\<close> is the 8-byte slot at its offset: the \<^verbatim>\<open>uint16_t\<close> of the structure and the
  padding after it, which the accessors below read and write together.\<close>

definition QUIC_TRANS_ACTIVE_CONN_ID_LIMIT :: u64 where "QUIC_TRANS_ACTIVE_CONN_ID_LIMIT = 2"

record QuicTransParamsDefines =
  tpd_type :: u64
  tpd_offset :: u64
  tpd_init :: "(QuicTransParams \<Rightarrow> u64 \<Rightarrow> QuicTransParams res) option"
  tpd_get :: "(QuicTransParams \<Rightarrow> u64 \<Rightarrow> u64 res) option"
  tpd_set :: "(QuicTransParams \<Rightarrow> u64 \<Rightarrow> u64 \<Rightarrow> QuicTransParams res) option"

section \<open>Access by offset\<close>

definition QUIC_GET_U64_VALUE_BY_OFFSET :: "QuicTransParams \<Rightarrow> u64 \<Rightarrow> u64 res" where
  "QUIC_GET_U64_VALUE_BY_OFFSET p off =
     (if off = 0 then Inr (max_idle_timeout p)
      else if off = 8 then Inr (max_udp_payload_size p)
      else if off = 16 then Inr (initial_max_data p)
      else if off = 24 then Inr (initial_max_stream_data_bidi_local p)
      else if off = 32 then Inr (initial_max_stream_data_bidi_remote p)
      else if off = 40 then Inr (initial_max_stream_data_uni p)
      else if off = 48 then Inr (initial_max_stream_bidi p)
      else if off = 56 then Inr (initial_max_stream_uni p)
      else if off = 64 then Inr (max_datagrame_frame_size p)
      else if off = 72 then Inr (active_connection_id_limit p)
      else Inl Bad_mem)"

definition QUIC_SET_U64_VALUE_BY_OFFSET :: "QuicTransParams \<Rightarrow> u64 \<Rightarrow> u64 \<Rightarrow> QuicTransParams res" where
  "QUIC_SET_U64_VALUE_BY_OFFSET p off v =
     (if off = 0 then Inr (p\<lparr>max_idle_timeout := v\<rparr>)
      else if off = 8 then Inr (p\<lparr>max_udp_payload_size := v\<rparr>)
      else if off = 16 then Inr (p\<lparr>initial_max_data := v\<rparr>)
      else if off = 24 then Inr (p\<lparr>initial_max_stream_data_bidi_local := v\<rparr>)
      else if off = 32 then Inr (p\<lparr>initial_max_stream_data_bidi_remote := v\<rparr>)
      else if off = 40 then Inr (p\<lparr>initial_max_stream_data_uni := v\<rparr>)
      else if off = 48 then Inr (p\<lparr>initial_max_stream_bidi := v\<rparr>)
      else if off = 56 then Inr (p\<lparr>initial_max_stream_uni := v\<rparr>)
      else if off = 64 then Inr (p\<lparr>max_datagrame_frame_size := v\<rparr>)
      else if off = 72 then Inr (p\<lparr>active_connection_id_limit := v\<rparr>)
      else Inl Bad_mem)"

section \<open>Operations\<close>

definition QuicTransParamGetInt :: "QuicTransParams \<Rightarrow> u64 \<Rightarrow> u64 res" where
  "QuicTransParamGetInt param offset = QUIC_GET_U64_VALUE_BY_OFFSET param offset"

definition QuicTransParamGetActiveConnIdLimit :: "QuicTransParams \<Rightarrow> u64 \<Rightarrow> u64 res" where
  "QuicTransParamGetActiveConnIdLimit param offset =
     bindR (QuicTransParamGetInt param offset) (\<lambda>v.
       Inr (if v < QUIC_TRANS_ACTIVE_CONN_ID_LIMIT then QUIC_TRANS_ACTIVE_CONN_ID_LIMIT else v))"

definition QuicTransParamSetInt :: "QuicTransParams \<Rightarrow> u64 \<Rightarrow> u64 \<Rightarrow> QuicTransParams res" where
  "QuicTransParamSetInt param offset v = QUIC_SET_U64_VALUE_BY_OFFSET param offset v"

definition QuicTransParamActiveConnIdLimitInit :: "QuicTransParams \<Rightarrow> u64 \<Rightarrow> QuicTransParams res" where
  "QuicTransParamActiveConnIdLimitInit param offset =
     QUIC_SET_U64_VALUE_BY_OFFSET param offset QUIC_TRANS_ACTIVE_CONN_ID_LIMIT"

definition tpd_int :: "u64 \<Rightarrow> u64 \<Rightarrow> QuicTransParamsDefines" where
  "tpd_int ty off = \<lparr>tpd_type = ty, tpd_offset = off, tpd_init = None,
     tpd_get = Some QuicTransParamGetInt, tpd_set = Some QuicTransParamSetInt\<rparr>"

definition trans_param_definition :: "QuicTransParamsDefines list" where
  "trans_param_definition =
    [tpd_int 0x01 0, tpd_int 0x03 8, tpd_int 0x04 16, tpd_int 0x05 24, tpd_int 0x06 32,
     tpd_int 0x07 40, tpd_int 0x08 48, tpd_int 0x09 56,
     \<lparr>tpd_type = 0x0E, tpd_offset = 72, tpd_init = Some QuicTransParamActiveConnIdLimitInit,
       tpd_get = Some QuicTransParamGetActiveConnIdLimit, tpd_set = Some QuicTransParamSetInt\<rparr>,
     \<lparr>tpd_type = 0x0F, tpd_offset = 0, tpd_init = None, tpd_get = None, tpd_set = None\<rparr>,
     tpd_int 0x20 64]"

definition QuicTransParamDefFind :: "u64 \<Rightarrow> QuicTransParamsDefines option" where
  "QuicTransParamDefFind ty = List.find (\<lambda>p. tpd_type p = ty) trans_param_definition"

definition QuicTransParamGetOffset :: "u64 \<Rightarrow> u64 res" where
  "QuicTransParamGetOffset ty = (case QuicTransParamDefFind ty of None \<Rightarrow> Inl Fail | Some p \<Rightarrow> Inr (tpd_offset p))"

definition QuicTransParamSet :: "QuicTransParams \<Rightarrow> u64 \<Rightarrow> u64 \<Rightarrow> QuicTransParams res" where
  "QuicTransParamSet param ty v =
     (case QuicTransParamDefFind ty of None \<Rightarrow> Inl Fail
      | Some p \<Rightarrow> (case tpd_set p of None \<Rightarrow> Inl Null_ptr | Some f \<Rightarrow> f param (tpd_offset p) v))"

definition QuicTransParamGet :: "QuicTransParams \<Rightarrow> u64 \<Rightarrow> u64 res" where
  "QuicTransParamGet param ty =
     (case QuicTransParamDefFind ty of None \<Rightarrow> Inl Fail
      | Some p \<Rightarrow> (case tpd_get p of None \<Rightarrow> Inl Null_ptr | Some f \<Rightarrow> f param (tpd_offset p)))"

fun trans_param_init_loop :: "QuicTransParamsDefines list \<Rightarrow> QuicTransParams \<Rightarrow> QuicTransParams res" where
  "trans_param_init_loop [] param = Inr param"
| "trans_param_init_loop (p # ps) param =
     bindR (case tpd_init p of None \<Rightarrow> Inr param | Some f \<Rightarrow> f param (tpd_offset p))
       (trans_param_init_loop ps)"

definition QuicTransParamInit :: "QuicTransParams \<Rightarrow> QuicTransParams res" where
  "QuicTransParamInit param = trans_param_init_loop trans_param_definition param"

section \<open>The store of integer parameters\<close>

text \<open>The parameter types whose table entry has the accessors, and what a read makes of a value.\<close>

definition int_param_types :: "u64 list" where
  "int_param_types = [0x01, 0x03, 0x04, 0x05, 0x06, 0x07, 0x08, 0x09, 0x0E, 0x20]"

definition tp_clamp :: "u64 \<Rightarrow> u64 \<Rightarrow> u64" where
  "tp_clamp ty v = (if ty = 0x0E then max 2 v else v)"

lemmas tp_defs = QuicTransParamSet_def QuicTransParamGet_def QuicTransParamDefFind_def
  QuicTransParamGetOffset_def trans_param_definition_def tpd_int_def QuicTransParamSetInt_def
  QuicTransParamGetInt_def QuicTransParamGetActiveConnIdLimit_def QUIC_TRANS_ACTIVE_CONN_ID_LIMIT_def
  QUIC_SET_U64_VALUE_BY_OFFSET_def QUIC_GET_U64_VALUE_BY_OFFSET_def

lemma int_param_cases:
  assumes "ty \<in> set int_param_types"
  obtains "ty = 0x01" | "ty = 0x03" | "ty = 0x04" | "ty = 0x05" | "ty = 0x06" | "ty = 0x07" | "ty = 0x08"
    | "ty = 0x09" | "ty = 0x0E" | "ty = 0x20"
  using assms by (auto simp: int_param_types_def)

lemma set_total:
  assumes "ty \<in> set int_param_types"
  shows "\<exists>p'. QuicTransParamSet p ty v = Inr p'"
  using assms by (elim int_param_cases) (simp_all add: tp_defs)

lemma get_set_same:
  assumes "ty \<in> set int_param_types" and "QuicTransParamSet p ty v = Inr p'"
  shows "QuicTransParamGet p' ty = Inr (tp_clamp ty v)"
  using assms by (elim int_param_cases) (auto simp: tp_defs tp_clamp_def max_def)

lemma get_set_other:
  assumes "ty \<in> set int_param_types" and "ty' \<in> set int_param_types" and "ty \<noteq> ty'"
    and "QuicTransParamSet p ty v = Inr p'"
  shows "QuicTransParamGet p' ty' = QuicTransParamGet p ty'"
  by (rule int_param_cases[OF assms(1)]; rule int_param_cases[OF assms(2)];
      use assms(3,4) in \<open>auto simp: tp_defs\<close>)

text \<open>The interface of a parameter store: a write is total on the known keys, a read returns what was
  written last, up to the store's own clamping, and other keys keep their value.\<close>

locale param_store =
  fixes keys :: "'k set"
    and put :: "'s \<Rightarrow> 'k \<Rightarrow> 'v \<Rightarrow> 's res"
    and get :: "'s \<Rightarrow> 'k \<Rightarrow> 'v res"
    and clamp :: "'k \<Rightarrow> 'v \<Rightarrow> 'v"
  assumes put_total: "k \<in> keys \<Longrightarrow> \<exists>s'. put s k v = Inr s'"
    and get_put_same: "k \<in> keys \<Longrightarrow> put s k v = Inr s' \<Longrightarrow> get s' k = Inr (clamp k v)"
    and get_put_other: "k \<in> keys \<Longrightarrow> k' \<in> keys \<Longrightarrow> k \<noteq> k' \<Longrightarrow> put s k v = Inr s' \<Longrightarrow> get s' k' = get s k'"

text \<open>A sequence of writes.\<close>

fun put_list :: "('s \<Rightarrow> 'k \<Rightarrow> 'v \<Rightarrow> 's res) \<Rightarrow> 's \<Rightarrow> ('k \<times> 'v) list \<Rightarrow> 's res" where
  "put_list put s [] = Inr s"
| "put_list put s ((k, v) # kvs) = bindR (put s k v) (\<lambda>s'. put_list put s' kvs)"

context param_store begin

lemma put_list_last:
  "fst ` set kvs \<subseteq> keys \<Longrightarrow> k \<in> keys \<Longrightarrow> \<exists>s'. put_list put s kvs = Inr s' \<and>
     get s' k = (case map_of (rev kvs) k of Some v \<Rightarrow> Inr (clamp k v) | None \<Rightarrow> get s k)"
proof (induction kvs arbitrary: s)
  case Nil
  then show ?case by simp
next
  case (Cons kv kvs)
  obtain k0 v0 where kv: "kv = (k0, v0)" by (cases kv)
  obtain s1 where s1: "put s k0 v0 = Inr s1" using put_total Cons.prems kv by force
  have k0: "k0 \<in> keys" using Cons.prems kv by simp
  from Cons.IH[of s1] Cons.prems obtain s' where
    s': "put_list put s1 kvs = Inr s'" "get s' k = (case map_of (rev kvs) k of Some v \<Rightarrow> Inr (clamp k v) | None \<Rightarrow> get s1 k)"
    by auto
  have "get s1 k = (if k = k0 then Inr (clamp k v0) else get s k)"
    using get_put_same[OF k0 s1] get_put_other[OF k0 _ _ s1, of k] Cons.prems(2) by auto
  then show ?case using s1 s' kv by (auto simp: map_add_def split: option.splits)
qed

end

interpretation tps: param_store "set int_param_types" QuicTransParamSet QuicTransParamGet tp_clamp
  by unfold_locales (rule set_total get_set_same get_set_other; assumption)+



text \<open>The table names the parameter \<^verbatim>\<open>initial_source_connection_id\<close> (0x0F) without accessors, so
  \<^verbatim>\<open>QuicTransParamSet\<close> and \<^verbatim>\<open>QuicTransParamGet\<close> call a null function pointer for it.\<close>

theorem trans_param_unset_accessors:
  "QuicTransParamSet p 0x0F v = Inl Null_ptr \<and> QuicTransParamGet p 0x0F = Inl Null_ptr"
  by (simp_all add: tp_defs)

lemma trans_param_unknown:
  "ty \<notin> set int_param_types \<Longrightarrow> ty \<noteq> 0x0F \<Longrightarrow> QuicTransParamSet p ty v = Inl Fail \<and> QuicTransParamGet p ty = Inl Fail"
  by (simp add: tp_defs int_param_types_def)

lemma QuicTransParamInit_eq: "QuicTransParamInit p = Inr (p\<lparr>active_connection_id_limit := 2\<rparr>)"
  by (simp add: QuicTransParamInit_def QuicTransParamActiveConnIdLimitInit_def tp_defs)

end
