(* ===== verification/Conn_Id.thy ===== *)
theory Conn_Id
  imports Data_Base
begin

text \<open>
  Connection identifiers (\<^verbatim>\<open>quic/connection.c\<close>): a pool is a queue of identifiers with their sequence
  numbers and stateless reset tokens. The kernel-style list of the code is a HOL list, in queue
  order. Draws from the random generator are numbered, so that two of them may differ.
\<close>

section \<open>State\<close>

definition QUIC_STATELESS_RESET_TOKEN_LEN :: nat where "QUIC_STATELESS_RESET_TOKEN_LEN = 16"

record QuicCid =
  cid_seq :: u64
  cid_id :: QUIC_DATA
  cid_token :: bytes

record QuicCidPool =
  cp_max_seq :: u64
  cp_retire_prior_to :: u64
  cp_num :: u64
  cp_queue :: "QuicCid list"

record QuicConn =
  conn_dcid :: QuicCidPool
  conn_scid :: QuicCidPool

definition sizeof_QuicCid :: nat where "sizeof_QuicCid = 56"

section \<open>Operations\<close>

text \<open>The result of \<^verbatim>\<open>QuicRandBytes\<close> is not looked at: when it fails the identifier is what the fresh
  memory held.\<close>

definition QuicCidGen :: "env \<Rightarrow> nat \<Rightarrow> QUIC_DATA \<Rightarrow> u64 \<Rightarrow> QUIC_DATA \<times> unit res" where
  "QuicCidGen e k cd len =
     (if qd_data cd \<noteq> None then (cd, Inl Abort)
      else if \<not> env_alloc e (unat len) then (cd\<lparr>qd_data := None\<rparr>, Inl Fail)
      else (cd\<lparr>qd_data := Some (fst (QuicRandBytes e k (fresh_mem e (unat len)))), qd_len := len\<rparr>, Inr ()))"

definition QuicCidAlloc :: "env \<Rightarrow> u64 \<Rightarrow> QuicCid res" where
  "QuicCidAlloc e seq =
     bindR (alloc e sizeof_QuicCid) (\<lambda>_.
       Inr \<lparr>cid_seq = seq, cid_id = qd_empty, cid_token = replicate QUIC_STATELESS_RESET_TOKEN_LEN 0\<rparr>)"

definition QuicCidAdd :: "QuicCidPool \<Rightarrow> QuicCid \<Rightarrow> QuicCidPool" where
  "QuicCidAdd p cd = p\<lparr>cp_queue := cp_queue p @ [cd], cp_num := cp_num p + 1\<rparr>"

definition QuicCidIssue :: "env \<Rightarrow> nat \<Rightarrow> QuicCidPool \<Rightarrow> u64 \<Rightarrow> QuicCidPool \<times> QuicCid res" where
  "QuicCidIssue e k p id_len =
     (case QuicCidAlloc e (cp_max_seq p) of
        Inl err \<Rightarrow> (p, Inl err)
      | Inr cid \<Rightarrow>
          (case QuicCidGen e k (cid_id cid) id_len of
             (_, Inl err) \<Rightarrow> (p, Inl err)
           | (cd, Inr _) \<Rightarrow>
               let cid' = cid\<lparr>cid_id := cd, cid_token := fst (QuicRandBytes e (Suc k) (cid_token cid))\<rparr>;
                   p' = QuicCidAdd p cid'
               in (p'\<lparr>cp_max_seq := cp_max_seq p' + 1\<rparr>, Inr cid')))"

fun cid_find_loop :: "QuicCid list \<Rightarrow> u64 \<Rightarrow> QuicCid option" where
  "cid_find_loop [] seq = None"
| "cid_find_loop (cid # cs) seq =
     (if QUIC_GT (cid_seq cid) seq then None
      else if cid_seq cid = seq then Some cid
      else cid_find_loop cs seq)"

definition QuicCidFind :: "QuicCidPool \<Rightarrow> u64 \<Rightarrow> QuicCid option" where
  "QuicCidFind p seq =
     (if QUIC_GE seq (cp_max_seq p) then None else cid_find_loop (cp_queue p) seq)"

fun cid_match_loop :: "QuicCid list \<Rightarrow> QUIC_DATA \<Rightarrow> unit res" where
  "cid_match_loop [] cd = Inl Fail"
| "cid_match_loop (cid # cs) cd =
     bindR (QuicDataEq (cid_id cid) cd) (\<lambda>eq. if eq then Inr () else cid_match_loop cs cd)"

definition QuicCidMatch :: "QuicCidPool \<Rightarrow> bytes option \<Rightarrow> u64 \<Rightarrow> unit res" where
  "QuicCidMatch p data len = cid_match_loop (cp_queue p) \<lparr>qd_data = data, qd_len = len\<rparr>"

text \<open>Unlinking the identifier the search returned: the first of the queue that is it.\<close>

definition QuicCidRetire :: "QuicCidPool \<Rightarrow> u64 \<Rightarrow> QuicCidPool res" where
  "QuicCidRetire p seq =
     (case QuicCidFind p seq of
        None \<Rightarrow> Inl Fail
      | Some cid \<Rightarrow> Inr (p\<lparr>cp_queue := remove1 cid (cp_queue p), cp_num := cp_num p - 1\<rparr>))"

fun retire_prior_loop :: "QuicCid list \<Rightarrow> u64 \<Rightarrow> u64 \<Rightarrow> QuicCid list \<times> u64" where
  "retire_prior_loop [] num prior_to = ([], num)"
| "retire_prior_loop (cid # cs) num prior_to =
     (if QUIC_GE (cid_seq cid) prior_to then (cid # cs, num)
      else retire_prior_loop cs (num - 1) prior_to)"

definition QuicCidRetirePriorTo :: "QuicCidPool \<Rightarrow> u64 \<Rightarrow> QuicCidPool" where
  "QuicCidRetirePriorTo p prior_to =
     (let (q, n) = retire_prior_loop (cp_queue p) (cp_num p) prior_to
      in p\<lparr>cp_queue := q, cp_num := n\<rparr>)"

definition QuicCidPoolInit :: QuicCidPool where
  "QuicCidPoolInit = \<lparr>cp_max_seq = 0, cp_retire_prior_to = 0, cp_num = 0, cp_queue = []\<rparr>"

definition QuicCidPoolDestroy :: "QuicCidPool \<Rightarrow> QuicCidPool" where
  "QuicCidPoolDestroy p = p\<lparr>cp_queue := []\<rparr>"

definition QuicActiveCidLimitCheck :: "QuicCidPool \<Rightarrow> u64 \<Rightarrow> unit res" where
  "QuicActiveCidLimitCheck p limit = (if QUIC_GE (cp_num p) limit then Inl Fail else Inr ())"

definition QuicConnInit :: QuicConn where
  "QuicConnInit = \<lparr>conn_dcid = QuicCidPoolInit, conn_scid = QuicCidPoolInit\<rparr>"

definition QuicConnFree :: "QuicConn \<Rightarrow> QuicConn" where
  "QuicConnFree c = c\<lparr>conn_scid := QuicCidPoolDestroy (conn_scid c), conn_dcid := QuicCidPoolDestroy (conn_dcid c)\<rparr>"

section \<open>The pool of identifiers an endpoint issues\<close>

text \<open>Sequence numbers ascend and are below the next one to issue, and the count is right; the
  bound keeps the comparison macros exact.\<close>

definition pool_seqs :: "QuicCidPool \<Rightarrow> u64 list" where
  "pool_seqs p = map cid_seq (cp_queue p)"

definition pool_wf :: "QuicCidPool \<Rightarrow> bool" where
  "pool_wf p \<longleftrightarrow> sorted_wrt (<) (pool_seqs p) \<and> (\<forall>s\<in>set (pool_seqs p). s < cp_max_seq p)
     \<and> uint (cp_max_seq p) < 2 ^ 31 \<and> cp_num p = of_nat (length (cp_queue p)) \<and> length (cp_queue p) < 2 ^ 31"

lemma pool_seq_small: "pool_wf p \<Longrightarrow> c \<in> set (cp_queue p) \<Longrightarrow> uint (cid_seq c) < 2 ^ 31"
  by (force simp: pool_wf_def pool_seqs_def word_less_def)

lemma pool_wf_init: "pool_wf QuicCidPoolInit"
  by (simp add: pool_wf_def pool_seqs_def QuicCidPoolInit_def)

lemma QuicCidIssue_ok:
  assumes "QuicCidIssue e k p n = (p', Inr c)"
  shows "cp_queue p' = cp_queue p @ [c]" and "cid_seq c = cp_max_seq p" and "cp_max_seq p' = cp_max_seq p + 1"
    and "cp_num p' = cp_num p + 1"
  using assms
  by (auto simp: QuicCidIssue_def QuicCidAlloc_def QuicCidAdd_def Let_def bindR_eq_Inr
      split: sum.splits prod.splits)

lemma uint_incr: "uint (a :: u64) < 2 ^ 31 \<Longrightarrow> uint (a + 1) = uint a + 1"
  by (simp add: uint_word_ariths)

lemma issue_wf:
  assumes "pool_wf p" and "uint (cp_max_seq p) + 1 < 2 ^ 31" and "length (cp_queue p) + 1 < 2 ^ 31"
    and "QuicCidIssue e k p n = (p', Inr c)"
  shows "pool_wf p'" and "pool_seqs p' = pool_seqs p @ [cp_max_seq p]"
proof -
  note q = QuicCidIssue_ok[OF assms(4)]
  show s: "pool_seqs p' = pool_seqs p @ [cp_max_seq p]" by (simp add: pool_seqs_def q)
  have "cp_max_seq p < cp_max_seq p'" using assms(2) by (simp add: q word_less_def uint_incr)
  then show "pool_wf p'"
    using assms(1-3) s q
    by (auto simp: pool_wf_def sorted_wrt_append uint_incr intro: order.strict_trans)
qed

text \<open>The search finds exactly the identifiers of the pool.\<close>

lemma cid_find_loop_iff:
  assumes "sorted_wrt (<) (map cid_seq q)" and "\<forall>c\<in>set q. uint (cid_seq c) < 2 ^ 31" and "uint seq < 2 ^ 31"
  shows "cid_find_loop q seq = Some c \<longleftrightarrow> c \<in> set q \<and> cid_seq c = seq"
    and "cid_find_loop q seq = None \<longleftrightarrow> seq \<notin> cid_seq ` set q"
  using assms(1,2)
  by (induction q) (auto simp: quic_cmp_small64[OF _ assms(3)] dest: order.strict_trans)

lemma QuicCidFind_iff:
  assumes "pool_wf p" and "uint seq < 2 ^ 31"
  shows "QuicCidFind p seq = Some c \<longleftrightarrow> c \<in> set (cp_queue p) \<and> cid_seq c = seq"
    and "QuicCidFind p seq = None \<longleftrightarrow> seq \<notin> set (pool_seqs p)"
proof -
  have s: "sorted_wrt (<) (map cid_seq (cp_queue p))" and m: "uint (cp_max_seq p) < 2 ^ 31"
    and b: "\<forall>c\<in>set (cp_queue p). cid_seq c < cp_max_seq p"
    using assms(1) by (auto simp: pool_wf_def pool_seqs_def)
  have sm: "\<forall>c\<in>set (cp_queue p). uint (cid_seq c) < 2 ^ 31"
    using pool_seq_small[OF assms(1)] by blast
  note l = cid_find_loop_iff[OF s sm assms(2)]
  have ge: "QUIC_GE seq (cp_max_seq p) = (cp_max_seq p \<le> seq)"
    using quic_cmp_small64(4)[OF assms(2) m] .
  show "QuicCidFind p seq = Some c \<longleftrightarrow> c \<in> set (cp_queue p) \<and> cid_seq c = seq"
    using l(1)[of c] b ge by (auto simp: QuicCidFind_def)
  show "QuicCidFind p seq = None \<longleftrightarrow> seq \<notin> set (pool_seqs p)"
    using l(2) b ge by (auto simp: QuicCidFind_def pool_seqs_def)
qed

lemma remove1_seqs:
  "distinct (map cid_seq q) \<Longrightarrow> c \<in> set q \<Longrightarrow> map cid_seq (remove1 c q) = remove1 (cid_seq c) (map cid_seq q)"
  by (induction q) (auto simp: image_iff)

lemma sorted_lt_distinct: "sorted_wrt (<) (xs :: u64 list) \<Longrightarrow> distinct xs"
  by (simp add: strict_sorted_iff)

lemma sorted_wrt_remove1: "sorted_wrt P xs \<Longrightarrow> sorted_wrt P (remove1 x xs)"
  by (induction xs) (auto dest: notin_set_remove1 in_set_remove1[THEN iffD1, rotated] set_remove1_subset[THEN subsetD])

lemma QuicCidRetire_ok:
  assumes "pool_wf p" and "uint seq < 2 ^ 31"
  shows "QuicCidRetire p seq = Inl Fail \<longleftrightarrow> seq \<notin> set (pool_seqs p)"
    and "QuicCidRetire p seq = Inr p' \<Longrightarrow> pool_wf p' \<and> pool_seqs p' = remove1 seq (pool_seqs p)
      \<and> cp_max_seq p' = cp_max_seq p"
proof -
  show "QuicCidRetire p seq = Inl Fail \<longleftrightarrow> seq \<notin> set (pool_seqs p)"
    using QuicCidFind_iff(2)[OF assms] by (auto simp: QuicCidRetire_def split: option.splits)
  assume "QuicCidRetire p seq = Inr p'"
  then obtain c where c: "QuicCidFind p seq = Some c"
    and p': "p' = p\<lparr>cp_queue := remove1 c (cp_queue p), cp_num := cp_num p - 1\<rparr>"
    by (auto simp: QuicCidRetire_def split: option.splits)
  have m: "c \<in> set (cp_queue p)" "cid_seq c = seq" using c QuicCidFind_iff(1)[OF assms] by auto
  have srt: "sorted_wrt (<) (pool_seqs p)" using assms(1) by (simp add: pool_wf_def)
  have s: "pool_seqs p' = remove1 seq (pool_seqs p)"
    using remove1_seqs[OF _ m(1)] sorted_lt_distinct[OF srt] m(2) p' by (simp add: pool_seqs_def)
  have "0 < length (cp_queue p)" using m(1) by (cases "cp_queue p") auto
  then have "of_nat (length (cp_queue p) - 1) = (of_nat (length (cp_queue p)) :: u64) - 1"
    by (simp add: of_nat_diff Suc_leI)
  then have "pool_wf p'"
    using assms(1) s p' m(1) sorted_wrt_remove1[OF srt] set_remove1_subset[of seq "pool_seqs p"]
    by (auto simp: pool_wf_def length_remove1)
  then show "pool_wf p' \<and> pool_seqs p' = remove1 seq (pool_seqs p) \<and> cp_max_seq p' = cp_max_seq p"
    using s p' by simp
qed

lemma retire_prior_loop_eq:
  assumes "\<forall>c\<in>set q. uint (cid_seq c) < 2 ^ 31" and "uint pt < 2 ^ 31"
  shows "retire_prior_loop q n pt = (dropWhile (\<lambda>c. cid_seq c < pt) q, n - of_nat (length (takeWhile (\<lambda>c. cid_seq c < pt) q)))"
  using assms(1) by (induction q arbitrary: n) (auto simp: quic_cmp_small64[OF _ assms(2)])

lemma dropWhile_sorted_lt:
  "sorted_wrt (<) (xs :: u64 list) \<Longrightarrow> dropWhile (\<lambda>s. s < k) xs = filter (\<lambda>s. k \<le> s) xs"
proof (induction xs)
  case Nil
  then show ?case by simp
next
  case (Cons x xs)
  show ?case
  proof (cases "x < k")
    case True
    then show ?thesis using Cons by auto
  next
    case False
    then have "\<forall>y\<in>set (x # xs). k \<le> y" using Cons.prems by (auto intro: order_trans less_imp_le)
    then have "filter (\<lambda>s. k \<le> s) (x # xs) = x # xs" by (simp only: filter_True)
    then show ?thesis using False by simp
  qed
qed

lemma QuicCidRetirePriorTo_ok:
  assumes "pool_wf p" and "uint pt < 2 ^ 31"
  shows "pool_wf (QuicCidRetirePriorTo p pt)"
    and "pool_seqs (QuicCidRetirePriorTo p pt) = filter (\<lambda>s. pt \<le> s) (pool_seqs p)"
    and "cp_max_seq (QuicCidRetirePriorTo p pt) = cp_max_seq p"
proof -
  let ?q = "cp_queue p" and ?P = "\<lambda>c. cid_seq c < pt"
  have "\<forall>c\<in>set ?q. uint (cid_seq c) < 2 ^ 31" using pool_seq_small[OF assms(1)] by blast
  note eq = retire_prior_loop_eq[OF this assms(2)]
  have srt: "sorted_wrt (<) (pool_seqs p)" using assms(1) by (simp add: pool_wf_def)
  show m: "cp_max_seq (QuicCidRetirePriorTo p pt) = cp_max_seq p"
    by (simp add: QuicCidRetirePriorTo_def eq)
  have "map cid_seq (dropWhile ?P ?q) = dropWhile (\<lambda>s. s < pt) (map cid_seq ?q)"
    by (simp add: dropWhile_map comp_def)
  then show s: "pool_seqs (QuicCidRetirePriorTo p pt) = filter (\<lambda>s. pt \<le> s) (pool_seqs p)"
    using dropWhile_sorted_lt[OF srt] by (simp add: QuicCidRetirePriorTo_def eq pool_seqs_def)
  have len: "length ?q = length (takeWhile ?P ?q) + length (dropWhile ?P ?q)"
    by (metis length_append takeWhile_dropWhile_id)
  have n: "of_nat (length ?q) - of_nat (length (takeWhile ?P ?q)) = (of_nat (length (dropWhile ?P ?q)) :: u64)"
    using len by simp
  show "pool_wf (QuicCidRetirePriorTo p pt)"
    unfolding pool_wf_def s m
    using assms(1) len n sorted_wrt_filter[OF srt]
    by (auto simp: pool_wf_def QuicCidRetirePriorTo_def eq)
qed

section \<open>Any history of a pool\<close>

datatype pool_op = Issue nat u64 | Retire u64 | Retire_prior u64

text \<open>The code's operations, a failed one leaving the pool as it is, and what they mean for the
  sequence numbers in use and the next one.\<close>

fun pool_step :: "env \<Rightarrow> pool_op \<Rightarrow> QuicCidPool \<Rightarrow> QuicCidPool" where
  "pool_step e (Issue k len) p = fst (QuicCidIssue e k p len)"
| "pool_step e (Retire seq) p = (case QuicCidRetire p seq of Inl _ \<Rightarrow> p | Inr p' \<Rightarrow> p')"
| "pool_step e (Retire_prior pt) p = QuicCidRetirePriorTo p pt"

fun pool_spec :: "env \<Rightarrow> pool_op \<Rightarrow> u64 list \<times> u64 \<Rightarrow> u64 list \<times> u64" where
  "pool_spec e (Issue k len) (ss, n) =
     (if env_alloc e sizeof_QuicCid \<and> env_alloc e (unat len) then (ss @ [n], n + 1) else (ss, n))"
| "pool_spec e (Retire seq) (ss, n) = (remove1 seq ss, n)"
| "pool_spec e (Retire_prior pt) (ss, n) = (filter (\<lambda>s. pt \<le> s) ss, n)"

fun pool_op_ok :: "pool_op \<Rightarrow> bool" where
  "pool_op_ok (Issue k len) = True"
| "pool_op_ok (Retire seq) = (uint seq < 2 ^ 31)"
| "pool_op_ok (Retire_prior pt) = (uint pt < 2 ^ 31)"

definition pool_abs :: "QuicCidPool \<Rightarrow> u64 list \<times> u64" where
  "pool_abs p = (pool_seqs p, cp_max_seq p)"

definition pool_inv :: "nat \<Rightarrow> QuicCidPool \<Rightarrow> bool" where
  "pool_inv n p \<longleftrightarrow> pool_wf p \<and> uint (cp_max_seq p) + int n < 2 ^ 31 \<and> length (cp_queue p) + n < 2 ^ 31"

lemma QuicCidIssue_total:
  "(\<exists>p' c. QuicCidIssue e k p len = (p', Inr c)) \<longleftrightarrow> env_alloc e sizeof_QuicCid \<and> env_alloc e (unat len)"
  and QuicCidIssue_fail: "\<not> (env_alloc e sizeof_QuicCid \<and> env_alloc e (unat len)) \<Longrightarrow> fst (QuicCidIssue e k p len) = p"
  by (auto simp: QuicCidIssue_def QuicCidAlloc_def QuicCidGen_def alloc_def guardR_def qd_empty_def Let_def
      bindR_def split: sum.splits prod.splits)

lemma pool_len: "length (pool_seqs p) = length (cp_queue p)"
  by (simp add: pool_seqs_def)

lemma pool_sim:
  assumes "pool_inv (Suc n) p" and "pool_op_ok op"
  shows "pool_inv n (pool_step e op p) \<and> pool_abs (pool_step e op p) = pool_spec e op (pool_abs p)"
proof (cases op)
  case (Issue k len)
  show ?thesis
  proof (cases "env_alloc e sizeof_QuicCid \<and> env_alloc e (unat len)")
    case True
    then obtain p' c where p': "QuicCidIssue e k p len = (p', Inr c)" using QuicCidIssue_total by blast
    have b: "pool_wf p" "uint (cp_max_seq p) + 1 < 2 ^ 31" "length (cp_queue p) + 1 < 2 ^ 31"
      using assms(1) by (auto simp: pool_inv_def)
    from issue_wf[OF b p'] show ?thesis
      using assms(1) True Issue p' QuicCidIssue_ok[OF p']
      by (simp add: pool_inv_def pool_abs_def uint_incr)
  next
    case False
    then show ?thesis using assms(1) Issue QuicCidIssue_fail[OF False, of k p]
      by (auto simp: pool_inv_def pool_abs_def)
  qed
next
  case (Retire seq)
  have b: "pool_wf p" "uint seq < 2 ^ 31" using assms Retire by (auto simp: pool_inv_def)
  show ?thesis
  proof (cases "QuicCidRetire p seq")
    case (Inl err)
    then have "err = Fail" by (auto simp: QuicCidRetire_def split: option.splits)
    then have "remove1 seq (pool_seqs p) = pool_seqs p"
      using QuicCidRetire_ok(1)[OF b] Inl by (simp add: remove1_idem)
    then show ?thesis using assms(1) Retire Inl by (simp add: pool_inv_def pool_abs_def)
  next
    case (Inr p')
    from QuicCidRetire_ok(2)[OF b Inr] have "pool_wf p'" "pool_seqs p' = remove1 seq (pool_seqs p)"
      "cp_max_seq p' = cp_max_seq p" by simp_all
    moreover from this(2) have "length (cp_queue p') \<le> length (cp_queue p)"
      using pool_len by (metis length_remove1 diff_le_self order_refl)
    ultimately show ?thesis using assms(1) Retire Inr by (simp add: pool_inv_def pool_abs_def)
  qed
next
  case (Retire_prior pt)
  have b: "pool_wf p" "uint pt < 2 ^ 31" using assms Retire_prior by (auto simp: pool_inv_def)
  have "length (cp_queue (QuicCidRetirePriorTo p pt)) \<le> length (cp_queue p)"
    by (metis QuicCidRetirePriorTo_ok(2)[OF b] length_filter_le pool_len)
  then show ?thesis
    using assms(1) Retire_prior QuicCidRetirePriorTo_ok[OF b] by (simp add: pool_inv_def pool_abs_def)
qed

interpretation pool: simulation "pool_step e" "pool_spec e" pool_abs pool_inv pool_op_ok
  for e
  by unfold_locales (rule pool_sim)

text \<open>C17: whatever an endpoint does with its own pool of connection identifiers, starting from the empty
  one, with fewer than \<open>2 ^ 31\<close> operations on sequence numbers below \<open>2 ^ 31\<close>: the sequence numbers in
  the queue are exactly those that were issued and neither retired nor below a retire-prior-to, in
  ascending order without duplicates, all below the next number to issue, and the counter \<^verbatim>\<open>num\<close> is
  their number.\<close>

theorem cid_pool_history:
  fixes e :: env
  assumes "length ops < 2 ^ 31" and "\<forall>op\<in>set ops. pool_op_ok op"
  defines "p \<equiv> fold (pool_step e) ops QuicCidPoolInit"
  shows "pool_abs p = fold (pool_spec e) ops ([], 0) \<and> sorted_wrt (<) (pool_seqs p) \<and>
    (\<forall>s\<in>set (pool_seqs p). s < cp_max_seq p) \<and> cp_num p = of_nat (length (cp_queue p))"
proof -
  have "pool_inv (length ops) QuicCidPoolInit"
    using assms(1) pool_wf_init by (simp add: pool_inv_def QuicCidPoolInit_def)
  from pool.run[OF this assms(2), of e] have r: "pool_inv 0 p" "pool_abs p = fold (pool_spec e) ops (pool_abs QuicCidPoolInit)"
    unfolding p_def by simp_all
  moreover have "pool_abs QuicCidPoolInit = ([], 0)"
    by (simp add: pool_abs_def pool_seqs_def QuicCidPoolInit_def)
  ultimately show ?thesis by (auto simp: pool_inv_def pool_wf_def)
qed

theorem cid_pool_history_witness:
  "pool_abs (fold (pool_step env0) [Issue 0 8, Issue 2 8, Issue 4 8, Retire 1, Retire_prior 1] QuicCidPoolInit) = ([2], 3)"
  using cid_pool_history[of "[Issue 0 8, Issue 2 8, Issue 4 8, Retire 1, Retire_prior 1]" env0]
  by simp

text \<open>A pool whose \<^verbatim>\<open>max_seq\<close> is still 0 (\<^verbatim>\<open>QuicCidAdd\<close> leaves it, only \<^verbatim>\<open>QuicCidIssue\<close> would
  advance it) never finds an identifier: every \<^verbatim>\<open>QuicCidRetire\<close> of a sequence number below \<open>2 ^ 31\<close>
  fails, whatever was added to the pool.\<close>

theorem received_cid_never_retired:
  assumes "uint seq < 2 ^ 31"
  shows "QuicCidRetire (fold (\<lambda>c p. QuicCidAdd p c) cs QuicCidPoolInit) seq = Inl Fail"
proof -
  have "cp_max_seq (fold (\<lambda>c p. QuicCidAdd p c) cs p) = cp_max_seq p" for p
    by (induction cs arbitrary: p) (simp_all add: QuicCidAdd_def)
  moreover have "QUIC_GE seq 0" using quic_cmp_small64(4)[OF assms, of 0] by simp
  ultimately show ?thesis by (simp add: QuicCidRetire_def QuicCidFind_def QuicCidPoolInit_def)
qed

theorem received_cid_never_retired_witness:
  "QuicCidRetire (QuicCidAdd QuicCidPoolInit \<lparr>cid_seq = 1, cid_id = qd_empty, cid_token = []\<rparr>) 1 = Inl Fail"
  using received_cid_never_retired[of 1 "[\<lparr>cid_seq = 1, cid_id = qd_empty, cid_token = []\<rparr>]"] by simp

end
