(* ===== verification/Stream_Data.thy ===== *)
theory Stream_Data
  imports Data_Base Trans_Param
begin

text \<open>
  The data of streams (\<^verbatim>\<open>quic/stream.c\<close>): the receive queue of a stream instance, reading from it, and
  adding a chunk to it under flow control. A chunk points into a reference-counted packet buffer; the
  buffers live in a store that maps their identity to the object, \<open>None\<close> once it is freed, so that a
  chunk whose buffer is gone is seen as \<open>Bad_mem\<close>. The record \<open>QuicTrans\<close> is the part of \<^verbatim>\<open>struct Quic\<close>
  that streams use; the connection extends it.
\<close>

section \<open>State\<close>

datatype stream_state =
  QUIC_STREAM_STATE_DISABLE | QUIC_STREAM_STATE_START | QUIC_STREAM_STATE_READY | QUIC_STREAM_STATE_SEND
| QUIC_STREAM_STATE_RECV | QUIC_STREAM_STATE_SIZE_KNOWN | QUIC_STREAM_STATE_DATA_SENT
| QUIC_STREAM_STATE_RESET_SENT | QUIC_STREAM_STATE_DATA_RECVD | QUIC_STREAM_STATE_RESET_RECVD
| QUIC_STREAM_STATE_DATA_READ | QUIC_STREAM_STATE_RESET_READ

record QuicDataStat =
  stat_sent :: u64
  stat_recvd :: u64

record QuicStreamData =
  sd_offset :: u64
  sd_data :: int
  sd_len :: u64
  sd_origin_buf :: nat

record QuicStreamInstance =
  si_recv_state :: stream_state
  si_send_state :: stream_state
  si_notified :: bool
  si_local_opened :: bool
  si_uni :: bool
  si_max_stream_data :: u64
  si_stat_bytes :: QuicDataStat
  si_offset :: u64
  si_queue :: "QuicStreamData list"

datatype msg_type = QUIC_STREAM_MSG_TYPE_DATA_RECVED

record QuicStreamMsg =
  sm_type :: msg_type
  sm_id :: u64

record QuicStreamConf =
  scf_stat_all :: QuicDataStat
  scf_bidi_id_alloced :: u64
  scf_uni_id_alloced :: u64
  scf_max_id_opened :: u64
  scf_max_id_value :: u64
  scf_stream :: "QuicStreamInstance list option"
  scf_msg_queue :: "QuicStreamMsg list"

type_synonym buf_store = "nat \<Rightarrow> QUIC_DATA_BUF option"

record QuicTrans =
  q_server :: bool
  q_local_param :: QuicTransParams
  q_peer_param :: QuicTransParams
  q_stream :: QuicStreamConf
  q_bufs :: buf_store

definition QUIC_STREAM_INITIATED_BY_SERVER :: u64 where "QUIC_STREAM_INITIATED_BY_SERVER = 0x01"
definition QUIC_STREAM_UNIDIRECTIONAL :: u64 where "QUIC_STREAM_UNIDIRECTIONAL = 0x02"
definition QUIC_STREAM_ID_MASK :: u64 where "QUIC_STREAM_ID_MASK = 0x03"
definition QUIC_STREAM_DATA_FLAGS_FIN :: u32 where "QUIC_STREAM_DATA_FLAGS_FIN = 0x01"
definition QUIC_STREAM_DATA_FLAGS_RESET :: u32 where "QUIC_STREAM_DATA_FLAGS_RESET = 0x02"

section \<open>Chunks\<close>

definition sizeof_QuicStreamData :: nat where "sizeof_QuicStreamData = 48"

definition store_get :: "buf_store \<Rightarrow> nat \<Rightarrow> buf_store res" where
  "store_get st b = (case st b of None \<Rightarrow> Inl Bad_mem | Some _ \<Rightarrow> Inr (st(b := QuicDataBufGet (st b))))"

definition store_free :: "buf_store \<Rightarrow> nat \<Rightarrow> buf_store res" where
  "store_free st b = (case st b of None \<Rightarrow> Inl Bad_mem | Some _ \<Rightarrow> Inr (st(b := QuicDataBufFree (st b))))"

text \<open>A \<^verbatim>\<open>NULL\<close> origin buffer is \<open>None\<close>.\<close>

definition QuicStreamDataCreate ::
    "env \<Rightarrow> buf_store \<Rightarrow> nat option \<Rightarrow> u64 \<Rightarrow> int \<Rightarrow> u64 \<Rightarrow> (QuicStreamData \<times> buf_store) res" where
  "QuicStreamDataCreate e st origin_buf offset data len =
     (case origin_buf of
        None \<Rightarrow> Inl Fail
      | Some b \<Rightarrow> bindR (alloc e sizeof_QuicStreamData) (\<lambda>_.
          bindR (store_get st b) (\<lambda>st'.
            Inr (\<lparr>sd_offset = offset, sd_data = data, sd_len = len, sd_origin_buf = b\<rparr>, st'))))"

definition QuicStreamDataFree :: "buf_store \<Rightarrow> QuicStreamData \<Rightarrow> buf_store res" where
  "QuicStreamDataFree st sd = store_free st (sd_origin_buf sd)"

text \<open>The first \<open>n\<close> bytes of a chunk.\<close>

definition sd_bytes :: "buf_store \<Rightarrow> QuicStreamData \<Rightarrow> nat \<Rightarrow> bytes res" where
  "sd_bytes st sd n =
     (case st (sd_origin_buf sd) of
        None \<Rightarrow> Inl Bad_mem
      | Some b \<Rightarrow> (case qd_data (db_buf b) of None \<Rightarrow> Inl Null_ptr | Some m \<Rightarrow> mem_slice m (sd_data sd) n))"

section \<open>Instances\<close>

definition QuicStreamPeerOpened :: "u64 \<Rightarrow> bool \<Rightarrow> bool" where
  "QuicStreamPeerOpened i server \<longleftrightarrow>
     (server \<and> i AND QUIC_STREAM_INITIATED_BY_SERVER = 0) \<or>
     (\<not> server \<and> i AND QUIC_STREAM_INITIATED_BY_SERVER \<noteq> 0)"

text \<open>On an instance that \<^verbatim>\<open>calloc\<close> has zeroed.\<close>

definition si_zero :: QuicStreamInstance where
  "si_zero = \<lparr>si_recv_state = QUIC_STREAM_STATE_DISABLE, si_send_state = QUIC_STREAM_STATE_DISABLE,
     si_notified = False, si_local_opened = False, si_uni = False, si_max_stream_data = 0,
     si_stat_bytes = \<lparr>stat_sent = 0, stat_recvd = 0\<rparr>, si_offset = 0, si_queue = []\<rparr>"

definition QuicStreamInstanceInit :: "QuicStreamInstance \<Rightarrow> u64 \<Rightarrow> bool \<Rightarrow> QuicStreamInstance" where
  "QuicStreamInstanceInit si0 i server =
     (let si1 = si0\<lparr>si_recv_state := QUIC_STREAM_STATE_START, si_send_state := QUIC_STREAM_STATE_START,
            si_uni := False\<rparr>;
          si2 = (if QuicStreamPeerOpened i server
             then (if i AND QUIC_STREAM_UNIDIRECTIONAL \<noteq> 0
                   then si1\<lparr>si_send_state := QUIC_STREAM_STATE_DISABLE, si_uni := True\<rparr> else si1)
                  \<lparr>si_local_opened := False\<rparr>
             else (if i AND QUIC_STREAM_UNIDIRECTIONAL \<noteq> 0
                   then si1\<lparr>si_recv_state := QUIC_STREAM_STATE_DISABLE, si_uni := True\<rparr> else si1)
                  \<lparr>si_local_opened := True\<rparr>)
      in si2\<lparr>si_queue := []\<rparr>)"

fun stream_deinit_loop :: "QuicStreamData list \<Rightarrow> buf_store \<Rightarrow> buf_store res" where
  "stream_deinit_loop [] st = Inr st"
| "stream_deinit_loop (sd # q) st = bindR (QuicStreamDataFree st sd) (stream_deinit_loop q)"

definition QuicStreamInstanceDeInit :: "QuicStreamInstance \<Rightarrow> buf_store \<Rightarrow> (QuicStreamInstance \<times> buf_store) res" where
  "QuicStreamInstanceDeInit si st =
     bindR (stream_deinit_loop (si_queue si) st) (\<lambda>st'. Inr (si\<lparr>si_queue := []\<rparr>, st'))"

definition QuicStreamInstanceRecvOpen :: "QuicStreamInstance \<Rightarrow> QuicStreamInstance" where
  "QuicStreamInstanceRecvOpen si =
     (if si_recv_state si = QUIC_STREAM_STATE_START then si\<lparr>si_recv_state := QUIC_STREAM_STATE_RECV\<rparr> else si)"

section \<open>Reading\<close>

text \<open>The loop of \<^verbatim>\<open>QuicStreamReadData\<close>: the queue left, the read offset, the buffer store, the
  caller's buffer and \<^verbatim>\<open>rlen\<close>, an \<^verbatim>\<open>int\<close>.\<close>

fun stream_read_loop ::
    "QuicStreamData list \<Rightarrow> u64 \<Rightarrow> buf_store \<Rightarrow> bytes \<Rightarrow> u32 \<Rightarrow> u64 \<Rightarrow>
     (QuicStreamData list \<times> u64 \<times> buf_store \<times> bytes \<times> u32) res" where
  "stream_read_loop [] off st data rlen len = Inr ([], off, st, data, rlen)"
| "stream_read_loop (sd # q) off st data rlen len =
     (if off \<noteq> sd_offset sd then Inr (sd # q, off, st, data, rlen)
      else
        bindR (if sd_len sd + scast rlen > len
               then bindR (assertR (QUIC_GT (len - scast rlen) 0)) (\<lambda>_. Inr (len - scast rlen))
               else Inr (sd_len sd)) (\<lambda>copy_bytes.
        bindR (sd_bytes st sd (unat copy_bytes)) (\<lambda>bs.
        bindR (mem_copy data (sint rlen) bs) (\<lambda>data'.
        bindR (if copy_bytes = sd_len sd
               then bindR (QuicStreamDataFree st sd) (\<lambda>st'. Inr ([], st'))
               else Inr ([sd\<lparr>sd_data := sd_data sd + uint copy_bytes, sd_len := sd_len sd - copy_bytes\<rparr>], st))
              (\<lambda>(kept, st').
        let off' = off + copy_bytes; rlen' = ucast (scast rlen + copy_bytes) :: u32 in
        if scast rlen' = len then Inr (kept @ q, off', st', data', rlen')
        else bindR (stream_read_loop q off' st' data' rlen' len)
               (\<lambda>(q', r). Inr (kept @ q', r)))))))"

text \<open>The result is \<^verbatim>\<open>rlen\<close>; a \<^verbatim>\<open>NULL\<close> \<^verbatim>\<open>flags\<close> is \<open>None\<close>.\<close>

definition QuicStreamReadData ::
    "QuicStreamInstance \<Rightarrow> buf_store \<Rightarrow> u32 option \<Rightarrow> bytes \<Rightarrow> u64 \<Rightarrow>
     (QuicStreamInstance \<times> buf_store \<times> u32 option \<times> bytes \<times> u32) res" where
  "QuicStreamReadData si st flags data len =
     bindR (stream_read_loop (si_queue si) (si_offset si) st data 0 len) (\<lambda>(q, off, st', data', rlen).
       let si1 = si\<lparr>si_queue := q, si_offset := off\<rparr>;
           fin = (q = [] \<and> si_recv_state si1 = QUIC_STREAM_STATE_DATA_RECVD);
           si2 = (if fin then si1\<lparr>si_recv_state := QUIC_STREAM_STATE_DATA_READ\<rparr> else si1);
           flags1 = (if fin then map_option (\<lambda>f. f OR QUIC_STREAM_DATA_FLAGS_FIN) flags else flags);
           flags2 = (if si_recv_state si2 = QUIC_STREAM_STATE_RESET_RECVD
                     then map_option (\<lambda>f. f OR QUIC_STREAM_DATA_FLAGS_RESET) flags1 else flags1)
       in Inr (si2\<lparr>si_notified := False\<rparr>, st', flags2, data', rlen))"

section \<open>Adding a chunk\<close>

definition QuicStreamRecvFlowCtrl ::
    "'a QuicTrans_scheme \<Rightarrow> QuicStreamInstance \<Rightarrow> u64 \<Rightarrow> ('a QuicTrans_scheme \<times> QuicStreamInstance) res" where
  "QuicStreamRecvFlowCtrl quic si data_len =
     (let scf = q_stream quic; loc = q_local_param quic; peer = q_peer_param quic;
          recvd = stat_recvd (si_stat_bytes si) + data_len;
          total_recvd = stat_recvd (scf_stat_all scf) + data_len
      in bindR (if si_local_opened si
                then if si_uni si then Inl Fail else Inr (initial_max_stream_data_bidi_remote loc)
                else if si_uni si then Inr (initial_max_stream_data_uni loc)
                else Inr (initial_max_stream_data_bidi_remote peer)) (\<lambda>local_limit.
         if QUIC_GT recvd local_limit then Inl Fail
         else if QUIC_GT total_recvd (initial_max_data peer) then Inl Fail
         else Inr (quic\<lparr>q_stream := scf\<lparr>scf_stat_all := (scf_stat_all scf)\<lparr>stat_recvd := total_recvd\<rparr>\<rparr>\<rparr>,
                   si\<lparr>si_stat_bytes := (si_stat_bytes si)\<lparr>stat_recvd := recvd\<rparr>\<rparr>)))"

definition free_sd :: "'a QuicTrans_scheme \<Rightarrow> QuicStreamData \<Rightarrow> 'a QuicTrans_scheme res" where
  "free_sd quic sd = bindR (QuicStreamDataFree (q_bufs quic) sd) (\<lambda>st. Inr (quic\<lparr>q_bufs := st\<rparr>))"

definition QuicStreamDataAddOfo ::
    "'a QuicTrans_scheme \<Rightarrow> QuicStreamData \<Rightarrow> QuicStreamInstance \<Rightarrow> ('a QuicTrans_scheme \<times> QuicStreamInstance) res" where
  "QuicStreamDataAddOfo quic sd si =
     (case QuicStreamRecvFlowCtrl quic si (sd_len sd) of
        Inl _ \<Rightarrow> bindR (free_sd quic sd) (\<lambda>quic'. Inr (quic', si))
      | Inr (quic', si') \<Rightarrow> Inr (quic', si'\<lparr>si_queue := si_queue si' @ [sd]\<rparr>))"

fun stream_ordered_loop :: "QuicStreamData list \<Rightarrow> u64 \<Rightarrow> bool" where
  "stream_ordered_loop [] start = True"
| "stream_ordered_loop (sd # q) start =
     (if start \<noteq> sd_offset sd then False else stream_ordered_loop q (sd_offset sd + sd_len sd))"

definition QuicStreamOrdered :: "QuicStreamInstance \<Rightarrow> bool" where
  "QuicStreamOrdered si = stream_ordered_loop (si_queue si) (si_offset si)"

definition QuicStreamDataAdd ::
    "'a QuicTrans_scheme \<Rightarrow> QuicStreamData \<Rightarrow> QuicStreamInstance \<Rightarrow> ('a QuicTrans_scheme \<times> QuicStreamInstance) res" where
  "QuicStreamDataAdd quic sd si =
     (let start = sd_offset sd; fin = sd_offset sd + sd_len sd in
      if sint fin \<le> sint (si_offset si) then bindR (free_sd quic sd) (\<lambda>quic'. Inr (quic', si))
      else if sint (si_offset si) < sint start then QuicStreamDataAddOfo quic sd si
      else
        let sd' = (if sint start < sint (si_offset si)
                   then let offset = si_offset si - start in
                     sd\<lparr>sd_data := sd_data sd + sint offset, sd_len := sd_len sd - offset,
                        sd_offset := si_offset si\<rparr>
                   else sd)
        in case QuicStreamRecvFlowCtrl quic si (sd_len sd') of
             Inl _ \<Rightarrow> bindR (free_sd quic sd') (\<lambda>quic'. Inr (quic', si))
           | Inr (quic', si1) \<Rightarrow>
               let si2 = si1\<lparr>si_queue := si_queue si1 @ [sd']\<rparr>;
                   si3 = (if si_recv_state si2 \<in> {QUIC_STREAM_STATE_SIZE_KNOWN, QUIC_STREAM_STATE_RESET_RECVD}
                             \<and> QuicStreamOrdered si2
                          then si2\<lparr>si_recv_state := QUIC_STREAM_STATE_DATA_RECVD\<rparr> else si2)
               in Inr (quic', si3))"

section \<open>References to packet buffers\<close>

text \<open>Every chunk of a queue holds a reference to its buffer.\<close>

definition chunk_refs :: "QuicStreamData list \<Rightarrow> nat \<Rightarrow> nat" where
  "chunk_refs q b = length (filter (\<lambda>sd. sd_origin_buf sd = b) q)"

definition refs_ok :: "buf_store \<Rightarrow> QuicStreamData list \<Rightarrow> bool" where
  "refs_ok st q \<longleftrightarrow> (\<forall>b. 0 < chunk_refs q b \<longrightarrow> (\<exists>x. st b = Some x \<and> chunk_refs q b \<le> unat (db_ref x)))"

lemma chunk_refs_simps [simp]:
  "chunk_refs [] b = 0"
  "chunk_refs (sd # q) b = (if sd_origin_buf sd = b then 1 else 0) + chunk_refs q b"
  "chunk_refs (q @ q') b = chunk_refs q b + chunk_refs q' b"
  by (simp_all add: chunk_refs_def)

lemma chunk_refs_mem: "sd \<in> set q \<Longrightarrow> 0 < chunk_refs q (sd_origin_buf sd)"
  by (induction q) auto

lemma unat_pred32: "0 < unat (r :: u32) \<Longrightarrow> unat (r - 1) = unat r - 1"
  by (simp add: unat_sub word_le_nat_alt)

text \<open>Releasing the head of the queue keeps the references of the rest and what they read.\<close>

lemma free_head:
  assumes "refs_ok st (sd # q)"
  obtains st' where "QuicStreamDataFree st sd = Inr st'" and "refs_ok st' q"
    and "\<forall>s\<in>set q. \<forall>n. sd_bytes st' s n = sd_bytes st s n"
proof -
  let ?b = "sd_origin_buf sd"
  obtain x where x: "st ?b = Some x" "Suc (chunk_refs q ?b) \<le> unat (db_ref x)"
    using assms[unfolded refs_ok_def, rule_format, of ?b] by auto
  let ?x = "x\<lparr>db_ref := db_ref x - 1\<rparr>"
  let ?st = "st(?b := if db_ref ?x = 0 then None else Some ?x)"
  have f: "QuicStreamDataFree st sd = Inr ?st"
    using x(1) by (simp add: QuicStreamDataFree_def store_free_def QuicDataBufFree_def Let_def)
  have r: "unat (db_ref ?x) = unat (db_ref x) - 1" using x(2) by (simp add: unat_pred32)
  then have z: "db_ref ?x = 0 \<Longrightarrow> chunk_refs q ?b = 0" using x(2) by (simp add: unat_0_iff[symmetric])
  have "refs_ok ?st q"
    unfolding refs_ok_def
  proof (intro allI impI)
    fix b assume b: "0 < chunk_refs q b"
    show "\<exists>y. ?st b = Some y \<and> chunk_refs q b \<le> unat (db_ref y)"
    proof (cases "b = ?b")
      case True
      then show ?thesis using b z x(2) r by auto
    next
      case False
      then show ?thesis using assms[unfolded refs_ok_def, rule_format, of b] b by simp
    qed
  qed
  moreover have "\<forall>s\<in>set q. \<forall>n. sd_bytes ?st s n = sd_bytes st s n"
  proof (intro ballI allI)
    fix s n assume "s \<in> set q"
    then have "0 < chunk_refs q (sd_origin_buf s)" by (rule chunk_refs_mem)
    then show "sd_bytes ?st s n = sd_bytes st s n" using z x(1) by (auto simp: sd_bytes_def)
  qed
  ultimately show thesis using that f by blast
qed

section \<open>Reading a queue in order\<close>

text \<open>The bytes of a queue, and their number.\<close>

fun queue_bytes :: "buf_store \<Rightarrow> QuicStreamData list \<Rightarrow> bytes res" where
  "queue_bytes st [] = Inr []"
| "queue_bytes st (sd # q) =
     bindR (sd_bytes st sd (unat (sd_len sd))) (\<lambda>a. bindR (queue_bytes st q) (\<lambda>b. Inr (a @ b)))"

lemma queue_bytes_cong:
  "\<forall>s\<in>set q. \<forall>n. sd_bytes st' s n = sd_bytes st s n \<Longrightarrow> queue_bytes st' q = queue_bytes st q"
  by (induction q) auto

lemma sd_bytes_length: "sd_bytes st sd n = Inr bs \<Longrightarrow> length bs = n"
  by (auto simp: sd_bytes_def mem_slice_length split: option.splits)

lemma scast_nat31: "n < 2 ^ 31 \<Longrightarrow> scast (of_nat n :: u32) = (of_nat n :: u64)"
  by (simp add: signed_of_nat signed_take_bit_int_eq_self)

lemma sint_nat31: "n < 2 ^ 31 \<Longrightarrow> sint (of_nat n :: u32) = int n"
  by (simp add: signed_of_nat signed_take_bit_int_eq_self)

lemma ucast_nat31: "n < 2 ^ 31 \<Longrightarrow> ucast (of_nat n :: u64) = (of_nat n :: u32)"
  by (simp add: unsigned_of_nat take_bit_nat_eq_self)

lemma of_nat64_eq_iff: "a < 2 ^ 64 \<Longrightarrow> b < 2 ^ 64 \<Longrightarrow> (of_nat a :: u64) = of_nat b \<longleftrightarrow> a = b"
  by (metis of_nat_unat64)

lemma of_nat64_less_iff: "a < 2 ^ 64 \<Longrightarrow> b < 2 ^ 64 \<Longrightarrow> (of_nat a :: u64) < of_nat b \<longleftrightarrow> a < b"
  by (simp add: word_less_nat_alt of_nat_unat64)

lemma stream_read_loop_all:
  assumes "stream_ordered_loop q off" and "\<forall>sd\<in>set q. sd_len sd \<noteq> 0" and "refs_ok st q"
    and "queue_bytes st q = Inr bs" and "r + length bs \<le> n" and "n < 2 ^ 31" and "n \<le> length data"
  shows "\<exists>st'. stream_read_loop q off st data (of_nat r) (of_nat n) =
    Inr ([], off + of_nat (length bs), st', take r data @ bs @ drop (r + length bs) data, of_nat (r + length bs))"
  using assms
proof (induction q arbitrary: off st data r bs)
  case Nil
  then show ?case by simp
next
  case (Cons sd q)
  obtain a b where a: "sd_bytes st sd (unat (sd_len sd)) = Inr a" and b: "queue_bytes st q = Inr b"
    and bs: "bs = a @ b"
    using Cons.prems(4) by (auto simp: bindR_eq_Inr)
  have la: "length a = unat (sd_len sd)" using a by (rule sd_bytes_length)
  then have sl: "sd_len sd = of_nat (length a)" by (metis of_nat_unat64_inv)
  have r: "r + length a \<le> n" "r < 2 ^ 31" "r + length a < 2 ^ 31" using Cons.prems(5,6) bs by simp_all
  have off: "off = sd_offset sd" and ord: "stream_ordered_loop q (off + sd_len sd)"
    using Cons.prems(1) by (auto split: if_splits)
  obtain st' where f: "QuicStreamDataFree st sd = Inr st'" "refs_ok st' q"
    "\<forall>s\<in>set q. \<forall>m. sd_bytes st' s m = sd_bytes st s m"
    using free_head[OF Cons.prems(3)] by blast
  have sum: "sd_len sd + scast (of_nat r :: u32) = of_nat (r + length a)"
    using r(2) sl by (simp add: scast_nat31)
  have ngt: "\<not> (sd_len sd + scast (of_nat r :: u32) > of_nat n)"
    unfolding sum using r Cons.prems(6) by (subst of_nat64_less_iff) simp_all
  have cp: "mem_copy data (sint (of_nat r :: u32)) a = Inr (take r data @ a @ drop (r + length a) data)"
    using r Cons.prems(7) by (simp add: mem_copy_def sint_nat31)
  have rl: "ucast (scast (of_nat r :: u32) + sd_len sd) = (of_nat (r + length a) :: u32)"
    using r(2,3) sl ucast_nat31[OF r(3)] by (simp add: scast_nat31)
  have rn: "scast (of_nat (r + length a) :: u32) = (of_nat n :: u64) \<longleftrightarrow> r + length a = n"
    using r(1,3) Cons.prems(6) by (simp only: scast_nat31) (subst of_nat64_eq_iff, simp_all)
  let ?d = "take r data @ a @ drop (r + length a) data"
  have nb: "queue_bytes st' q = Inr b" using queue_bytes_cong[OF f(3)] b by simp
  show ?case
  proof (cases "r + length a = n")
    case True
    have "r + (length a + length b) \<le> n" using Cons.prems(5) bs by simp
    then have "length b = 0" using True by linarith
    then have "b = []" by simp
    then have "q = []"
      using b Cons.prems(2) by (cases q) (auto simp: bindR_eq_Inr unat_eq_0 dest!: sd_bytes_length)
    then show ?thesis
      using ngt a f(1) off cp rl rn True bs \<open>b = []\<close> sl by simp
  next
    case False
    have pre: "\<forall>sd\<in>set q. sd_len sd \<noteq> 0" "r + length a + length b \<le> n" "n \<le> length ?d"
      using Cons.prems(2,5,7) bs r by auto
    from Cons.IH[OF ord pre(1) f(2) nb pre(2) Cons.prems(6) pre(3)] obtain st'' where
      "stream_read_loop q (off + sd_len sd) st' ?d (of_nat (r + length a)) (of_nat n) =
        Inr ([], off + sd_len sd + of_nat (length b), st'',
          take (r + length a) ?d @ b @ drop (r + length a + length b) ?d, of_nat (r + length a + length b))"
      by blast
    moreover have "take (r + length a) ?d = take r data @ a" using r(1) Cons.prems(7) by simp
    moreover have "drop (r + length a + length b) ?d = drop (r + length bs) data"
      using r(1) Cons.prems(7) bs by (simp add: add.commute add.left_commute)
    ultimately show ?thesis
      using ngt a f(1) off cp rl rn False bs sl by (simp add: add.assoc)
  qed
qed

lemma QuicStreamReadData_all:
  assumes "stream_ordered_loop (si_queue si) (si_offset si)" and "\<forall>sd\<in>set (si_queue si). sd_len sd \<noteq> 0"
    and "refs_ok st (si_queue si)" and "queue_bytes st (si_queue si) = Inr bs"
    and "length bs \<le> n" and "n < 2 ^ 31" and "n \<le> length data"
  shows "\<exists>si' st' flags'. QuicStreamReadData si st flags data (of_nat n) =
      Inr (si', st', flags', bs @ drop (length bs) data, of_nat (length bs))
    \<and> si_queue si' = [] \<and> si_offset si' = si_offset si + of_nat (length bs)"
proof -
  have "0 + length bs \<le> n" using assms(5) by simp
  from stream_read_loop_all[OF assms(1-4) this assms(6,7)] show ?thesis
    by (auto simp: QuicStreamReadData_def Let_def)
qed

section \<open>Flow control\<close>

definition recv_limit :: "'a QuicTrans_scheme \<Rightarrow> QuicStreamInstance \<Rightarrow> u64 option" where
  "recv_limit quic si =
     (if si_local_opened si
      then if si_uni si then None else Some (initial_max_stream_data_bidi_remote (q_local_param quic))
      else if si_uni si then Some (initial_max_stream_data_uni (q_local_param quic))
      else Some (initial_max_stream_data_bidi_remote (q_peer_param quic)))"

definition count_recvd :: "u64 \<Rightarrow> 'a QuicTrans_scheme \<Rightarrow> 'a QuicTrans_scheme" where
  "count_recvd n quic = quic\<lparr>q_stream := (q_stream quic)\<lparr>scf_stat_all :=
     (scf_stat_all (q_stream quic))\<lparr>stat_recvd := stat_recvd (scf_stat_all (q_stream quic)) + n\<rparr>\<rparr>\<rparr>"

definition si_count_recvd :: "u64 \<Rightarrow> QuicStreamInstance \<Rightarrow> QuicStreamInstance" where
  "si_count_recvd n si = si\<lparr>si_stat_bytes := (si_stat_bytes si)\<lparr>stat_recvd := stat_recvd (si_stat_bytes si) + n\<rparr>\<rparr>"

text \<open>The counters after \<open>n\<close> more bytes stay within the limits.\<close>

definition recv_room :: "'a QuicTrans_scheme \<Rightarrow> QuicStreamInstance \<Rightarrow> nat \<Rightarrow> bool" where
  "recv_room quic si n \<longleftrightarrow> (\<exists>l. recv_limit quic si = Some l
     \<and> unat (stat_recvd (si_stat_bytes si)) + n \<le> unat l \<and> unat l < 2 ^ 31)
     \<and> unat (stat_recvd (scf_stat_all (q_stream quic))) + n \<le> unat (initial_max_data (q_peer_param quic))
     \<and> unat (initial_max_data (q_peer_param quic)) < 2 ^ 31"

lemma QUIC_GT_sum:
  assumes "unat (a :: u64) + unat b < 2 ^ 31" and "unat l < 2 ^ 31"
  shows "QUIC_GT (a + b) l \<longleftrightarrow> unat l < unat a + unat b"
proof -
  have s: "unat (a + b) = unat a + unat b"
    using assms(1) by (subst unat_add_lem[THEN iffD1]) simp_all
  then have "uint (a + b) < 2 ^ 31" "uint l < 2 ^ 31" using assms by (simp_all only: uint_less_unat)
  then show ?thesis by (simp add: quic_cmp_small64 word_less_nat_alt s)
qed

lemma flow_ctrl_ok:
  assumes "recv_room quic si (unat n)"
  shows "QuicStreamRecvFlowCtrl quic si n = Inr (count_recvd n quic, si_count_recvd n si)"
proof -
  obtain l where l: "recv_limit quic si = Some l" "unat (stat_recvd (si_stat_bytes si)) + unat n \<le> unat l"
    "unat l < 2 ^ 31" using assms by (auto simp: recv_room_def)
  let ?t = "stat_recvd (scf_stat_all (q_stream quic))" and ?m = "initial_max_data (q_peer_param quic)"
  have m: "unat ?t + unat n \<le> unat ?m" "unat ?m < 2 ^ 31" using assms by (auto simp: recv_room_def)
  have "\<not> QUIC_GT (stat_recvd (si_stat_bytes si) + n) l" "\<not> QUIC_GT (?t + n) ?m"
    using QUIC_GT_sum[of "stat_recvd (si_stat_bytes si)" n l] QUIC_GT_sum[of ?t n ?m] l(2,3) m by simp_all
  then show ?thesis
    using l(1)
    by (auto simp: QuicStreamRecvFlowCtrl_def recv_limit_def Let_def count_recvd_def si_count_recvd_def
        split: if_splits)
qed

lemma flow_ctrl_cases:
  "(\<exists>e. QuicStreamRecvFlowCtrl quic si n = Inl e) \<or>
   QuicStreamRecvFlowCtrl quic si n = Inr (count_recvd n quic, si_count_recvd n si)"
  by (auto simp: QuicStreamRecvFlowCtrl_def Let_def count_recvd_def si_count_recvd_def)

section \<open>Adding chunks in order\<close>

lemma add_in_order:
  assumes "sint (si_offset si) \<le> sint (sd_offset sd)" and "sint (si_offset si) < sint (sd_offset sd + sd_len sd)"
    and "recv_room quic si (unat (sd_len sd))"
  shows "\<exists>si'. QuicStreamDataAdd quic sd si = Inr (count_recvd (sd_len sd) quic, si')
    \<and> si_queue si' = si_queue si @ [sd] \<and> si_offset si' = si_offset si
    \<and> si_stat_bytes si' = si_stat_bytes (si_count_recvd (sd_len sd) si)
    \<and> si_local_opened si' = si_local_opened si \<and> si_uni si' = si_uni si"
  using flow_ctrl_ok[OF assms(3)] assms(1,2)
  by (auto simp: QuicStreamDataAdd_def QuicStreamDataAddOfo_def Let_def si_count_recvd_def)

section \<open>Histories of a stream\<close>

datatype stream_op = Add QuicStreamData | Read bytes u64

text \<open>A run of the two operations, with the results of the reads: what was copied.\<close>

fun stream_run :: "stream_op list \<Rightarrow> 'a QuicTrans_scheme \<Rightarrow> QuicStreamInstance \<Rightarrow>
    ('a QuicTrans_scheme \<times> QuicStreamInstance \<times> bytes list) res" where
  "stream_run [] quic si = Inr (quic, si, [])"
| "stream_run (Add sd # ops) quic si =
     bindR (QuicStreamDataAdd quic sd si) (\<lambda>(quic', si'). stream_run ops quic' si')"
| "stream_run (Read data len # ops) quic si =
     bindR (QuicStreamReadData si (q_bufs quic) None data len) (\<lambda>(si', st', _, data', rlen).
     bindR (stream_run ops (quic\<lparr>q_bufs := st'\<rparr>) si') (\<lambda>(quic2, si2, rs).
       Inr (quic2, si2, take (unat rlen) data' # rs)))"

lemma stream_run_append:
  "stream_run (xs @ ys) quic si = bindR (stream_run xs quic si) (\<lambda>(quic1, si1, rs).
     bindR (stream_run ys quic1 si1) (\<lambda>(quic2, si2, rs'). Inr (quic2, si2, rs @ rs')))"
proof (induction xs arbitrary: quic si)
  case Nil
  show ?case by (cases "stream_run ys quic si") auto
next
  case (Cons x xs)
  then show ?case by (cases x) (auto simp: bindR_assoc prod.case_distrib bindR_def split: sum.splits)
qed

definition queue_len :: "QuicStreamData list \<Rightarrow> nat" where
  "queue_len q = sum_list (map (\<lambda>sd. unat (sd_len sd)) q)"

lemma queue_bytes_len: "queue_bytes st q = Inr bs \<Longrightarrow> length bs = queue_len q"
  by (induction q arbitrary: bs) (auto simp: bindR_eq_Inr queue_len_def dest: sd_bytes_length)

lemma recv_room_after:
  assumes "recv_room quic si (m + n)" and "m < 2 ^ 64"
    and "si_stat_bytes si' = si_stat_bytes (si_count_recvd (of_nat m) si)"
    and "si_local_opened si' = si_local_opened si" and "si_uni si' = si_uni si"
  shows "recv_room (count_recvd (of_nat m) quic) si' n"
proof -
  have u: "unat (a + of_nat m) = unat a + m" if "unat a + (m + n) < 2 ^ 31" for a :: u64
    using that assms(2) by (subst unat_add_lem[THEN iffD1]) (simp_all add: of_nat_unat64)
  obtain l where l: "recv_limit quic si = Some l" "unat (stat_recvd (si_stat_bytes si)) + (m + n) \<le> unat l"
    "unat l < 2 ^ 31" using assms(1) by (auto simp: recv_room_def)
  let ?t = "stat_recvd (scf_stat_all (q_stream quic))"
  have t: "unat ?t + (m + n) \<le> unat (initial_max_data (q_peer_param quic))"
    "unat (initial_max_data (q_peer_param quic)) < 2 ^ 31" using assms(1) by (auto simp: recv_room_def)
  have "unat (stat_recvd (si_stat_bytes si) + of_nat m) = unat (stat_recvd (si_stat_bytes si)) + m"
    "unat (?t + of_nat m) = unat ?t + m"
    using l(2,3) t by (auto intro!: u)
  then show ?thesis
    using l t assms(3-5)
    by (auto simp: recv_room_def recv_limit_def count_recvd_def si_count_recvd_def)
qed

lemma sint_of_int64: "sint (word_of_int x :: u64) = signed_take_bit 63 x"
  by (simp add: signed_of_int)

lemma signed_take_bit_63: "0 \<le> x \<Longrightarrow> x < 2 ^ 62 \<Longrightarrow> signed_take_bit 63 x = (x :: int)"
  by (rule signed_take_bit_int_eq_self) (erule order_trans [rotated], simp_all)

lemma run_adds_in_order:
  assumes "stream_ordered_loop cs off" and "\<forall>sd\<in>set cs. sd_len sd \<noteq> 0"
    and "0 \<le> sint (si_offset si)" and "sint (si_offset si) \<le> sint off"
    and "sint off + int (queue_len cs) < 2 ^ 62" and "recv_room quic si (queue_len cs)"
  shows "\<exists>quic' si'. stream_run (map Add cs) quic si = Inr (quic', si', []) \<and> si_queue si' = si_queue si @ cs
    \<and> si_offset si' = si_offset si \<and> q_bufs quic' = q_bufs quic"
  using assms
proof (induction cs arbitrary: off si quic)
  case Nil
  then show ?case by simp
next
  case (Cons sd cs)
  let ?n = "unat (sd_len sd)"
  have o: "off = sd_offset sd" "stream_ordered_loop cs (off + sd_len sd)"
    using Cons.prems(1) by (auto split: if_splits)
  have ql: "queue_len (sd # cs) = ?n + queue_len cs" by (simp add: queue_len_def)
  have n0: "0 < ?n" using Cons.prems(2) by (simp add: unat_gt_0)
  have sum: "sint (off + sd_len sd) = sint off + int ?n"
  proof -
    have "off + sd_len sd = word_of_int (sint off + int ?n)" by simp
    then have "sint (off + sd_len sd) = signed_take_bit 63 (sint off + int ?n)"
      by (simp only: sint_of_int64)
    moreover have "0 \<le> sint off + int ?n" using Cons.prems(3,4) by linarith
    moreover have "sint off + int ?n < 2 ^ 62" using Cons.prems(5) unfolding ql by simp
    ultimately show ?thesis by (simp only: signed_take_bit_63)
  qed
  have room: "recv_room quic si ?n" using Cons.prems(6) ql by (auto simp: recv_room_def)
  have "0 < int ?n" using n0 by (simp only: of_nat_0_less_iff)
  then have lt: "sint (si_offset si) < sint (sd_offset sd + sd_len sd)"
    unfolding o(1)[symmetric] sum using Cons.prems(4) by linarith
  from add_in_order[OF _ lt room] Cons.prems(4) o(1)
  obtain si1 where si1: "QuicStreamDataAdd quic sd si = Inr (count_recvd (sd_len sd) quic, si1)"
    "si_queue si1 = si_queue si @ [sd]" "si_offset si1 = si_offset si"
    "si_stat_bytes si1 = si_stat_bytes (si_count_recvd (sd_len sd) si)"
    "si_local_opened si1 = si_local_opened si" "si_uni si1 = si_uni si"
    by auto
  have r1: "recv_room (count_recvd (sd_len sd) quic) si1 (queue_len cs)"
    using recv_room_after[of quic si ?n "queue_len cs" si1] Cons.prems(6) ql si1(4-6) unat64_bound[of "sd_len sd"]
    by simp
  have le2: "sint (si_offset si) \<le> sint (off + sd_len sd)" using lt o(1) by simp
  have "\<forall>sd\<in>set cs. sd_len sd \<noteq> 0" "0 \<le> sint (si_offset si1)" "sint (si_offset si1) \<le> sint (off + sd_len sd)"
    "sint (off + sd_len sd) + int (queue_len cs) < 2 ^ 62"
    using Cons.prems(2,3,5) si1(3) le2 unfolding sum ql by auto
  from Cons.IH[OF o(2) this r1] si1 show ?case by (auto simp: count_recvd_def)
qed

text \<open>C6: chunks that arrive in order are delivered: starting from a stream whose queue is empty, adding
  non-empty chunks that continue at the read offset one after another with \<^verbatim>\<open>QuicStreamDataAdd\<close>, within
  the flow control limits and with their buffers alive, and then reading with \<^verbatim>\<open>QuicStreamReadData\<close> into
  a buffer that holds them all returns exactly the concatenation of the chunks, advances the read
  offset by its length and leaves the queue empty.\<close>

theorem stream_in_order_delivery:
  assumes "si_queue si = []" and "stream_ordered_loop cs (si_offset si)" and "\<forall>sd\<in>set cs. sd_len sd \<noteq> 0"
    and "0 \<le> sint (si_offset si)" and "sint (si_offset si) + int (length bs) < 2 ^ 62"
    and "recv_room quic si (length bs)" and "refs_ok (q_bufs quic) cs" and "queue_bytes (q_bufs quic) cs = Inr bs"
    and "length bs \<le> n" and "n < 2 ^ 31" and "n \<le> length data"
  shows "\<exists>quic' si'. stream_run (map Add cs @ [Read data (of_nat n)]) quic si = Inr (quic', si', [bs])
    \<and> si_queue si' = [] \<and> si_offset si' = si_offset si + of_nat (length bs)"
proof -
  have ql: "length bs = queue_len cs" using assms(8) by (rule queue_bytes_len)
  from run_adds_in_order[OF assms(2,3,4), of quic] assms(1,5,6) ql obtain quic1 si1 where
    1: "stream_run (map Add cs) quic si = Inr (quic1, si1, [])" "si_queue si1 = cs"
    "si_offset si1 = si_offset si" "q_bufs quic1 = q_bufs quic" by auto
  from QuicStreamReadData_all[of si1 "q_bufs quic" bs n data None] assms(2,3,7-11) 1 obtain si2 st' fl where
    2: "QuicStreamReadData si1 (q_bufs quic) None data (of_nat n) =
      Inr (si2, st', fl, bs @ drop (length bs) data, of_nat (length bs))"
    "si_queue si2 = []" "si_offset si2 = si_offset si1 + of_nat (length bs)" by auto
  have "unat (of_nat (length bs) :: u32) = length bs"
    using assms(9,10) by (simp add: unat_of_nat take_bit_nat_eq_self)
  then show ?thesis using 1 2 by (simp add: stream_run_append)
qed

text \<open>A stream on the connection of a client whose limits are 100 bytes; packet buffer 0 holds 5 bytes
  and is referenced by two chunks.\<close>

definition demo_params :: QuicTransParams where
  "demo_params = QuicTransParams.make 0 0 100 100 100 100 4 4 0 2 []"

definition demo_quic :: QuicTrans where
  "demo_quic = \<lparr>q_server = False, q_local_param = demo_params, q_peer_param = demo_params,
     q_stream = \<lparr>scf_stat_all = \<lparr>stat_sent = 0, stat_recvd = 0\<rparr>, scf_bidi_id_alloced = 0,
       scf_uni_id_alloced = 0, scf_max_id_opened = 0, scf_max_id_value = 0, scf_stream = None, scf_msg_queue = []\<rparr>,
     q_bufs = (\<lambda>b. if b = 0 then Some \<lparr>db_ref = 3, db_data_len = 5,
       db_buf = \<lparr>qd_data = Some [1, 2, 3, 4, 5], qd_len = 5\<rparr>\<rparr> else None)\<rparr>"

definition demo_chunk1 :: QuicStreamData where
  "demo_chunk1 = \<lparr>sd_offset = 0, sd_data = 0, sd_len = 3, sd_origin_buf = 0\<rparr>"

definition demo_chunk2 :: QuicStreamData where
  "demo_chunk2 = \<lparr>sd_offset = 3, sd_data = 3, sd_len = 2, sd_origin_buf = 0\<rparr>"

lemmas demo_defs = demo_params_def demo_quic_def demo_chunk1_def demo_chunk2_def QuicTransParams.make_def

lemma demo_refs: "refs_ok (q_bufs demo_quic) [demo_chunk1, demo_chunk2]"
  by (auto simp: refs_ok_def demo_defs)

lemma demo_bytes: "queue_bytes (q_bufs demo_quic) [demo_chunk1, demo_chunk2] = Inr [1, 2, 3, 4, 5]"
  by (simp add: sd_bytes_def mem_slice_def demo_defs)

definition demo_si :: QuicStreamInstance where
  "demo_si = QuicStreamInstanceInit si_zero 1 False"

lemma demo_si_simps: "si_queue demo_si = []" "si_offset demo_si = 0" "si_local_opened demo_si = False"
  "si_uni demo_si = False" "si_stat_bytes demo_si = \<lparr>stat_sent = 0, stat_recvd = 0\<rparr>"
  by (simp_all add: demo_si_def QuicStreamInstanceInit_def si_zero_def QuicStreamPeerOpened_def
      QUIC_STREAM_INITIATED_BY_SERVER_def QUIC_STREAM_UNIDIRECTIONAL_def Let_def)

theorem stream_in_order_delivery_witness:
  "\<exists>quic' si'. stream_run [Add demo_chunk1, Add demo_chunk2, Read [0, 0, 0, 0, 0, 0] 6] demo_quic demo_si =
     Inr (quic', si', [[1, 2, 3, 4, 5]])"
proof -
  have "recv_room demo_quic demo_si (length [1, 2, 3, 4, 5 :: u8])"
    by (simp add: recv_room_def recv_limit_def demo_si_simps) (simp add: demo_defs)
  then have "\<exists>quic' si'. stream_run (map Add [demo_chunk1, demo_chunk2] @ [Read [0, 0, 0, 0, 0, 0] (of_nat 6)])
      demo_quic demo_si = Inr (quic', si', [[1, 2, 3, 4, 5]]) \<and> si_queue si' = []
      \<and> si_offset si' = si_offset demo_si + of_nat (length [1, 2, 3, 4, 5 :: u8])"
    by (intro stream_in_order_delivery demo_refs demo_bytes)
      (simp_all add: demo_si_simps demo_chunk1_def demo_chunk2_def)
  then show ?thesis by auto
qed

section \<open>Streams that never deliver again\<close>

text \<open>The head of the queue is not at the read offset.\<close>

definition stalled :: "QuicStreamInstance \<Rightarrow> bool" where
  "stalled si \<longleftrightarrow> (case si_queue si of [] \<Rightarrow> False | sd # _ \<Rightarrow> sd_offset sd \<noteq> si_offset si)"

lemma stalled_read:
  assumes "stalled si" and "QuicStreamReadData si st flags data len = Inr (si', st', flags', data', rlen)"
  shows "rlen = 0" and "stalled si'"
proof -
  obtain sd q where q: "si_queue si = sd # q" "sd_offset sd \<noteq> si_offset si"
    using assms(1) by (auto simp: stalled_def split: list.splits)
  then have "stream_read_loop (si_queue si) (si_offset si) st data 0 len = Inr (si_queue si, si_offset si, st, data, 0)"
    by simp
  then show "rlen = 0" and "stalled si'"
    using assms q by (auto simp: QuicStreamReadData_def Let_def stalled_def)
qed

lemma flow_ctrl_queue:
  "QuicStreamRecvFlowCtrl quic si n = Inr (quic', si') \<Longrightarrow> si_queue si' = si_queue si \<and> si_offset si' = si_offset si"
  using flow_ctrl_cases[of quic si n] by (auto simp: si_count_recvd_def)

text \<open>Adding a chunk appends to the queue, if anything, and never moves the read offset.\<close>

lemma add_shape:
  "QuicStreamDataAdd quic sd si = Inr (quic', si') \<Longrightarrow>
     (\<exists>ext. si_queue si' = si_queue si @ ext) \<and> si_offset si' = si_offset si"
  by (auto simp: QuicStreamDataAdd_def QuicStreamDataAddOfo_def Let_def bindR_eq_Inr
      split: sum.splits if_splits dest: flow_ctrl_queue)

lemma stalled_add:
  "stalled si \<Longrightarrow> QuicStreamDataAdd quic sd si = Inr (quic', si') \<Longrightarrow> stalled si'"
  by (drule add_shape) (auto simp: stalled_def split: list.splits)

lemma stalled_run:
  "stalled si \<Longrightarrow> stream_run ops quic si = Inr (quic', si', rs) \<Longrightarrow> set rs \<subseteq> {[]} \<and> stalled si'"
proof (induction ops arbitrary: quic si rs)
  case Nil
  then show ?case by simp
next
  case (Cons op ops)
  show ?case
  proof (cases op)
    case (Add sd)
    then obtain quic1 si1 where "QuicStreamDataAdd quic sd si = Inr (quic1, si1)"
      "stream_run ops quic1 si1 = Inr (quic', si', rs)"
      using Cons.prems(2) by (auto simp: bindR_eq_Inr)
    then show ?thesis using Cons.IH stalled_add Cons.prems(1) by blast
  next
    case (Read data len)
    then obtain si1 st' fl data' rlen rs' where
      r: "QuicStreamReadData si (q_bufs quic) None data len = Inr (si1, st', fl, data', rlen)"
      and run: "stream_run ops (quic\<lparr>q_bufs := st'\<rparr>) si1 = Inr (quic', si', rs')"
      and rs: "rs = take (unat rlen) data' # rs'"
      using Cons.prems(2) by (auto simp: bindR_eq_Inr)
    note z = stalled_read[OF Cons.prems(1) r]
    have "set rs' \<subseteq> {[]} \<and> stalled si'" by (rule Cons.IH[OF z(2) run])
    then show ?thesis using rs z(1) by simp
  qed
qed

text \<open>C36: a chunk that arrives before the data it follows blocks its stream for good. When the queue is
  empty and a chunk beyond the read offset is added, within the flow control limits, it becomes the
  head of the queue, and whatever chunks are added later, the missing ones included, every later
  \<^verbatim>\<open>QuicStreamReadData\<close> returns nothing: \<^verbatim>\<open>QuicStreamDataAddOfo\<close> appends without sorting and the read
  loop stops at the first chunk that is not at the read offset.\<close>

theorem reordered_chunk_blocks_stream:
  assumes "si_queue si = []" and "sint (si_offset si) < sint (sd_offset sd)"
    and "sint (si_offset si) < sint (sd_offset sd + sd_len sd)" and "recv_room quic si (unat (sd_len sd))"
  shows "\<exists>quic1 si1. QuicStreamDataAdd quic sd si = Inr (quic1, si1) \<and> si_queue si1 = [sd] \<and>
    (\<forall>ops quic' si' rs. stream_run ops quic1 si1 = Inr (quic', si', rs) \<longrightarrow> set rs \<subseteq> {[]})"
proof -
  from add_in_order[OF less_imp_le[OF assms(2)] assms(3,4)] assms(1)
  obtain si1 where si1: "QuicStreamDataAdd quic sd si = Inr (count_recvd (sd_len sd) quic, si1)"
    "si_queue si1 = [sd]" "si_offset si1 = si_offset si" by auto
  then have "stalled si1" using assms(2) by (auto simp: stalled_def)
  then show ?thesis using si1(1,2) stalled_run by blast
qed

theorem reordered_chunk_blocks_stream_witness:
  "\<exists>quic1 si1. QuicStreamDataAdd demo_quic demo_chunk2 demo_si = Inr (quic1, si1) \<and>
    si_queue si1 = [demo_chunk2]"
proof -
  have "recv_room demo_quic demo_si (unat (sd_len demo_chunk2))"
    by (simp add: recv_room_def recv_limit_def demo_si_simps) (simp add: demo_defs)
  then show ?thesis
    using reordered_chunk_blocks_stream[of demo_si demo_chunk2 demo_quic]
    by (auto simp: demo_si_simps demo_chunk2_def)
qed

text \<open>C37: a read that takes only part of the chunk at the head of the queue is the last one that returns
  anything: \<^verbatim>\<open>QuicStreamReadData\<close> advances the read offset of the stream, and the data pointer and
  length of the chunk, but not the chunk's offset, so the rest of the chunk no longer matches.\<close>

theorem partial_read_blocks_stream:
  assumes "si_queue si = sd # q" and "sd_offset sd = si_offset si" and "0 < n" and "n < unat (sd_len sd)"
    and "unat (sd_len sd) < 2 ^ 31" and "sd_bytes (q_bufs quic) sd n = Inr bs" and "n \<le> length data"
  shows "\<exists>si1. QuicStreamReadData si (q_bufs quic) fl data (of_nat n) =
      Inr (si1, q_bufs quic, if si_recv_state si = QUIC_STREAM_STATE_RESET_RECVD
         then map_option (\<lambda>f. f OR QUIC_STREAM_DATA_FLAGS_RESET) fl else fl, bs @ drop n data, of_nat n)
    \<and> (\<forall>ops quic' si' rs. stream_run ops quic si1 = Inr (quic', si', rs) \<longrightarrow> set rs \<subseteq> {[]})"
proof -
  have n: "n < 2 ^ 31" using assms(4,5) by simp
  have un: "unat (of_nat n :: u64) = n" using n by (intro of_nat_unat64) simp
  have gt: "of_nat n < sd_len sd" using assms(4) un by (simp add: word_less_nat_alt)
  have ne: "of_nat n \<noteq> sd_len sd" using gt by simp
  have uu: "uint (of_nat n :: u64) < 2 ^ 31" unfolding uint_less_unat un by (rule n)
  have pos: "QUIC_GT (of_nat n :: u64) 0"
    using un assms(3) quic_cmp_small64(2)[OF uu, of 0] by (simp add: word_less_nat_alt)
  have lb: "length bs = n" using assms(6) by (rule sd_bytes_length)
  have cp: "mem_copy data 0 bs = Inr (bs @ drop n data)"
    using assms(7) lb by (auto simp: mem_copy_def)
  have rl: "scast (of_nat n :: u32) = (of_nat n :: u64)" "ucast (of_nat n :: u64) = (of_nat n :: u32)"
    using n by (simp_all add: scast_nat31 ucast_nat31)
  let ?sd = "sd\<lparr>sd_data := sd_data sd + uint (of_nat n :: u64), sd_len := sd_len sd - of_nat n\<rparr>"
  have loop: "stream_read_loop (si_queue si) (si_offset si) (q_bufs quic) data 0 (of_nat n) =
    Inr (?sd # q, si_offset si + of_nat n, q_bufs quic, bs @ drop n data, of_nat n)"
    using assms(1,2,6) gt ne pos un cp rl by (simp add: Let_def)
  let ?si = "si\<lparr>si_queue := ?sd # q, si_offset := si_offset si + of_nat n, si_notified := False\<rparr>"
  have nz: "(of_nat n :: u64) \<noteq> 0" using un assms(3) by (metis less_irrefl unat_0)
  have "stalled ?si" using assms(2) nz by (simp add: stalled_def)
  moreover have "QuicStreamReadData si (q_bufs quic) fl data (of_nat n) =
      Inr (?si, q_bufs quic, if si_recv_state si = QUIC_STREAM_STATE_RESET_RECVD
         then map_option (\<lambda>f. f OR QUIC_STREAM_DATA_FLAGS_RESET) fl else fl, bs @ drop n data, of_nat n)"
    by (simp add: QuicStreamReadData_def loop Let_def)
  ultimately show ?thesis using stalled_run by blast
qed

theorem partial_read_blocks_stream_witness:
  "\<exists>si1. QuicStreamReadData (demo_si\<lparr>si_queue := [demo_chunk1]\<rparr>) (q_bufs demo_quic) None [0, 0] 2 =
      Inr (si1, q_bufs demo_quic, None, [1, 2], 2)"
  using partial_read_blocks_stream[of "demo_si\<lparr>si_queue := [demo_chunk1]\<rparr>" demo_chunk1 "[]" 2 demo_quic "[1, 2]" "[0, 0]" None]
  by (auto simp: demo_si_simps sd_bytes_def mem_slice_def demo_defs)



end
