(* ===== verification/Stream_Conn.thy ===== *)
theory Stream_Conn
  imports Stream_Data
begin

text \<open>
  The streams of a connection (\<^verbatim>\<open>quic/stream.c\<close>): the table of instances, sized from the transport
  parameters, the allocation and the checking of stream identifiers, and opening streams. A stream
  identifier is an \<^verbatim>\<open>int64_t\<close>, kept as the 64-bit word that \<^verbatim>\<open>sint\<close> reads.
\<close>

section \<open>Operations\<close>

definition QuicStreamComputeMaxId :: "u64 \<Rightarrow> bool \<Rightarrow> bool \<Rightarrow> u64" where
  "QuicStreamComputeMaxId num uni server =
     (let base0 = num AND QUIC_STREAM_ID_MASK;
          top = num AND NOT QUIC_STREAM_ID_MASK;
          base1 = (if uni then base0 OR QUIC_STREAM_UNIDIRECTIONAL else base0);
          base2 = (if server then base1 OR QUIC_STREAM_INITIATED_BY_SERVER else base1)
      in push_bit 1 top OR base2)"

definition sizeof_QuicStreamInstance :: u64 where "sizeof_QuicStreamInstance = 56"

definition stream_init_table :: "nat \<Rightarrow> bool \<Rightarrow> QuicStreamInstance list" where
  "stream_init_table n server = map (\<lambda>i. QuicStreamInstanceInit si_zero (of_nat i) server) [0..<n]"

definition QuicStreamConfInit :: "env \<Rightarrow> QuicStreamConf \<Rightarrow> u64 \<Rightarrow> u64 \<Rightarrow> bool \<Rightarrow> QuicStreamConf \<times> unit res" where
  "QuicStreamConfInit e scf max_stream_bidi max_stream_uni server =
     (if scf_stream scf \<noteq> None then (scf, Inl Fail)
      else
        let max_bidi_stream_id = QuicStreamComputeMaxId max_stream_bidi False server;
            max_uni_stream_id = QuicStreamComputeMaxId max_stream_uni True server;
            scf1 = scf\<lparr>scf_max_id_value := QUIC_MAX max_bidi_stream_id max_uni_stream_id\<rparr>
        in if \<not> env_alloc e (unat (sizeof_QuicStreamInstance * scf_max_id_value scf1)) then (scf1, Inl Fail)
           else (scf1\<lparr>scf_stream := Some (stream_init_table (unat (scf_max_id_value scf1)) server),
                      scf_msg_queue := []\<rparr>, Inr ()))"

fun conf_deinit_loop :: "QuicStreamInstance list \<Rightarrow> buf_store \<Rightarrow> buf_store res" where
  "conf_deinit_loop [] st = Inr st"
| "conf_deinit_loop (si # sis) st =
     bindR (QuicStreamInstanceDeInit si st) (\<lambda>(_, st'). conf_deinit_loop sis st')"

text \<open>The table is freed; the pointer to it is left as it was, so the structure must not be used again.\<close>

definition QuicStreamConfDeInit :: "QuicStreamConf \<Rightarrow> buf_store \<Rightarrow> (QuicStreamConf \<times> buf_store) res" where
  "QuicStreamConfDeInit scf st =
     (case scf_stream scf of
        None \<Rightarrow> Inr (scf, st)
      | Some sis \<Rightarrow> bindR (conf_deinit_loop sis st) (\<lambda>st'. Inr (scf\<lparr>scf_msg_queue := []\<rparr>, st')))"

definition sizeof_QuicStreamMsg :: nat where "sizeof_QuicStreamMsg = 32"

definition QuicStreamMsgCreate :: "env \<Rightarrow> u64 \<Rightarrow> msg_type \<Rightarrow> QuicStreamMsg res" where
  "QuicStreamMsgCreate e i ty = bindR (alloc e sizeof_QuicStreamMsg) (\<lambda>_. Inr \<lparr>sm_type = ty, sm_id = i\<rparr>)"

definition QuicStreamMsgAdd :: "QuicStreamConf \<Rightarrow> QuicStreamMsg \<Rightarrow> QuicStreamConf" where
  "QuicStreamMsgAdd scf msg = scf\<lparr>scf_msg_queue := scf_msg_queue scf @ [msg]\<rparr>"

definition QuicStreamIdCheckPeer :: "'a QuicTrans_scheme \<Rightarrow> u64 \<Rightarrow> unit res" where
  "QuicStreamIdCheckPeer quic i =
     (if QuicStreamPeerOpened i (q_server quic) then Inr ()
      else let param = q_local_param quic;
               max_stream_id =
                 (if i AND QUIC_STREAM_UNIDIRECTIONAL \<noteq> 0
                  then QuicStreamComputeMaxId (initial_max_stream_uni param) True (q_server quic)
                  else QuicStreamComputeMaxId (initial_max_stream_bidi param) False (q_server quic))
           in if i \<ge> max_stream_id then Inl Fail else Inr ())"

definition QuicStreamIdCheck :: "'a QuicTrans_scheme \<Rightarrow> u64 \<Rightarrow> unit res" where
  "QuicStreamIdCheck quic i =
     (if sint i < 0 then Inl Fail
      else bindR (QuicStreamIdCheckPeer quic i) (\<lambda>_.
        if i \<ge> scf_max_id_value (q_stream quic) then Inl Fail else Inr ()))"

definition QuicStreamIdGen :: "QuicStreamConf \<Rightarrow> QuicTransParams \<Rightarrow> bool \<Rightarrow> bool \<Rightarrow> (u64 \<times> QuicStreamConf) res" where
  "QuicStreamIdGen scf param server uni =
     (let n = (if uni then scf_uni_id_alloced scf else scf_bidi_id_alloced scf) in
      if n \<ge> (if uni then initial_max_stream_uni param else initial_max_stream_bidi param) then Inl Fail
      else
        let id1 = (if uni then push_bit 2 n OR QUIC_STREAM_UNIDIRECTIONAL else push_bit 2 n);
            id2 = (if server then id1 OR QUIC_STREAM_INITIATED_BY_SERVER else id1)
        in if id2 \<ge> scf_max_id_value scf then Inl Fail
           else Inr (id2, if uni then scf\<lparr>scf_uni_id_alloced := n + 1\<rparr> else scf\<lparr>scf_bidi_id_alloced := n + 1\<rparr>))"

text \<open>Access to an instance of the table, and its update.\<close>

definition stream_at :: "QuicStreamConf \<Rightarrow> u64 \<Rightarrow> QuicStreamInstance res" where
  "stream_at scf i = (case scf_stream scf of
     None \<Rightarrow> Inl Null_ptr
   | Some sis \<Rightarrow> if 0 \<le> sint i \<and> unat i < length sis then Inr (sis ! unat i) else Inl Bad_mem)"

definition stream_upd :: "QuicStreamConf \<Rightarrow> u64 \<Rightarrow> QuicStreamInstance \<Rightarrow> QuicStreamConf" where
  "stream_upd scf i si = scf\<lparr>scf_stream := map_option (\<lambda>sis. sis[unat i := si]) (scf_stream scf)\<rparr>"

definition q_stream_upd :: "'a QuicTrans_scheme \<Rightarrow> u64 \<Rightarrow> QuicStreamInstance \<Rightarrow> 'a QuicTrans_scheme" where
  "q_stream_upd quic i si = quic\<lparr>q_stream := stream_upd (q_stream quic) i si\<rparr>"

definition QuicStreamOpen :: "'a QuicTrans_scheme \<Rightarrow> bool \<Rightarrow> 'a QuicTrans_scheme \<times> u64 res" where
  "QuicStreamOpen quic uni =
     (let peer = q_peer_param quic in
      if scf_stream (q_stream quic) = None then (quic, Inl Fail)
      else case QuicStreamIdGen (q_stream quic) peer (q_server quic) uni of
        Inl err \<Rightarrow> (quic, Inl err)
      | Inr (i, scf) \<Rightarrow>
          let quic1 = quic\<lparr>q_stream := scf\<rparr> in
          if sint i < 0 then (quic1, Inl Fail)
          else case stream_at scf i of
            Inl err \<Rightarrow> (quic1, Inl err)
          | Inr si \<Rightarrow>
              if si_send_state si \<noteq> QUIC_STREAM_STATE_START then (quic1, Inl Abort)
              else
                let si1 = si\<lparr>si_send_state := QUIC_STREAM_STATE_READY\<rparr>;
                    si2 = (if uni then si1\<lparr>si_max_stream_data := initial_max_stream_data_uni peer\<rparr>
                           else QuicStreamInstanceRecvOpen
                             (si1\<lparr>si_max_stream_data := initial_max_stream_data_bidi_remote peer\<rparr>))
                in (q_stream_upd quic1 i si2, Inr i))"

text \<open>The loop of \<^verbatim>\<open>QuicStreamGetInstance\<close> over the identifiers after the highest opened so far.\<close>

fun recv_open_loop :: "nat list \<Rightarrow> QuicStreamInstance list \<Rightarrow> QuicStreamInstance list res" where
  "recv_open_loop [] sis = Inr sis"
| "recv_open_loop (i # is) sis =
     (if i < length sis then recv_open_loop is (sis[i := QuicStreamInstanceRecvOpen (sis ! i)]) else Inl Bad_mem)"

definition QuicStreamGetInstance :: "'a QuicTrans_scheme \<Rightarrow> u64 \<Rightarrow> 'a QuicTrans_scheme \<times> QuicStreamInstance res" where
  "QuicStreamGetInstance quic i =
     (let scf = q_stream quic in
      case scf_stream scf of
        None \<Rightarrow> (quic, Inl Fail)
      | Some sis \<Rightarrow>
          (case QuicStreamIdCheck quic i of
             Inl err \<Rightarrow> (quic, Inl err)
           | Inr _ \<Rightarrow>
               (case stream_at scf i of
                  Inl err \<Rightarrow> (quic, Inl err)
                | Inr si \<Rightarrow>
                    if \<not> QuicStreamPeerOpened i (q_server quic) \<and> si_send_state si = QUIC_STREAM_STATE_START
                    then (quic, Inl Fail)
                    else if i > scf_max_id_opened scf then
                      (case recv_open_loop [unat (scf_max_id_opened scf) + 1..<unat i + 1] sis of
                         Inl err \<Rightarrow> (quic, Inl err)
                       | Inr sis' \<Rightarrow>
                           let scf' = scf\<lparr>scf_stream := Some sis', scf_max_id_opened := i\<rparr>
                           in (quic\<lparr>q_stream := scf'\<rparr>, stream_at scf' i))
                    else (quic, Inr si))))"

definition QuicStreamInit :: "env \<Rightarrow> 'a QuicTrans_scheme \<Rightarrow> 'a QuicTrans_scheme \<times> unit res" where
  "QuicStreamInit e quic =
     (let loc = q_local_param quic; peer = q_peer_param quic;
          max_stream_bidi = ucast (QUIC_MAX (initial_max_stream_bidi loc) (initial_max_stream_bidi peer)) :: u32;
          max_stream_uni = ucast (QUIC_MAX (initial_max_stream_uni loc) (initial_max_stream_uni peer)) :: u32;
          (scf, r) = QuicStreamConfInit e (q_stream quic) (ucast max_stream_bidi) (ucast max_stream_uni) (q_server quic)
      in (quic\<lparr>q_stream := scf\<rparr>, r))"

section \<open>The table of instances\<close>

text \<open>The table has one instance per identifier below the maximum, and no more than \<open>2 ^ 62\<close> of them.\<close>

definition conf_wf :: "QuicStreamConf \<Rightarrow> bool" where
  "conf_wf scf \<longleftrightarrow> (case scf_stream scf of None \<Rightarrow> True
     | Some sis \<Rightarrow> length sis = unat (scf_max_id_value scf) \<and> length sis < 2 ^ 62)"

lemma sint_nonneg_small: "unat (i :: u64) < 2 ^ 62 \<Longrightarrow> 0 \<le> sint i"
proof -
  assume a: "unat i < 2 ^ 62"
  then have "uint i < 2 ^ 62" unfolding uint_nat by (metis of_nat_less_iff of_nat_numeral of_nat_power)
  then have "signed_take_bit 63 (uint i) = uint i" by (intro signed_take_bit_63) simp_all
  moreover have "sint i = signed_take_bit 63 (uint i)" by (simp add: sint_uint)
  ultimately show ?thesis by simp
qed

lemma stream_at_ok:
  assumes "conf_wf scf" and "scf_stream scf = Some sis" and "i < scf_max_id_value scf"
  shows "stream_at scf i = Inr (sis ! unat i)"
proof -
  have "unat i < length sis" "length sis < 2 ^ 62" using assms by (auto simp: conf_wf_def word_less_nat_alt)
  then show ?thesis using assms(2) sint_nonneg_small[of i] by (simp add: stream_at_def)
qed

lemma recv_open_loop_ok:
  "\<forall>i\<in>set is. i < length sis \<Longrightarrow> \<exists>sis'. recv_open_loop is sis = Inr sis' \<and> length sis' = length sis"
proof (induction "is" arbitrary: sis)
  case Nil
  then show ?case by simp
next
  case (Cons i "is")
  then show ?case using Cons.IH[of "sis[i := QuicStreamInstanceRecvOpen (sis ! i)]"] by simp
qed

lemma QuicStreamIdCheck_iff:
  "QuicStreamIdCheck quic i = Inr () \<longleftrightarrow>
     0 \<le> sint i \<and> QuicStreamIdCheckPeer quic i = Inr () \<and> i < scf_max_id_value (q_stream quic)"
  by (auto simp: QuicStreamIdCheck_def bindR_eq_Inr not_le not_less)

lemma QuicStreamIdCheck_err: "QuicStreamIdCheck quic i = Inl err \<Longrightarrow> err = Fail"
  by (auto simp: QuicStreamIdCheck_def QuicStreamIdCheckPeer_def bindR_eq_Inl Let_def split: if_splits)

lemma QuicStreamGetInstance_safe:
  assumes "conf_wf (q_stream quic)" and "QuicStreamGetInstance quic i = (quic', r)"
  shows "safe r" and "conf_wf (q_stream quic')"
proof -
  let ?scf = "q_stream quic"
  have "safe r \<and> conf_wf (q_stream quic')"
  proof (cases "scf_stream ?scf")
    case None
    then show ?thesis using assms by (auto simp: QuicStreamGetInstance_def)
  next
    case (Some sis)
    show ?thesis
    proof (cases "QuicStreamIdCheck quic i")
      case (Inl err)
      then show ?thesis using assms Some QuicStreamIdCheck_err[OF Inl]
        by (auto simp: QuicStreamGetInstance_def)
    next
      case (Inr u)
      then have i: "i < scf_max_id_value ?scf" using QuicStreamIdCheck_iff[of quic i] by simp
      have len: "length sis = unat (scf_max_id_value ?scf)" "length sis < 2 ^ 62"
        using assms(1) Some by (simp_all add: conf_wf_def)
      have at: "stream_at ?scf i = Inr (sis ! unat i)" by (rule stream_at_ok[OF assms(1) Some i])
      have "\<forall>j\<in>set [unat (scf_max_id_opened ?scf) + 1..<unat i + 1]. j < length sis"
        using i len by (auto simp: word_less_nat_alt)
      from recv_open_loop_ok[OF this] obtain sis' where
        l: "recv_open_loop [unat (scf_max_id_opened ?scf) + 1..<unat i + 1] sis = Inr sis'"
        "length sis' = length sis" by blast
      let ?scf' = "?scf\<lparr>scf_stream := Some sis', scf_max_id_opened := i\<rparr>"
      have wf': "conf_wf ?scf'" using l len by (simp add: conf_wf_def)
      have at': "stream_at ?scf' i = Inr (sis' ! unat i)"
        by (rule stream_at_ok[OF wf']) (use i in simp_all)
      have "QuicStreamGetInstance quic i =
        (if \<not> QuicStreamPeerOpened i (q_server quic) \<and> si_send_state (sis ! unat i) = QUIC_STREAM_STATE_START
         then (quic, Inl Fail)
         else if i > scf_max_id_opened ?scf then (quic\<lparr>q_stream := ?scf'\<rparr>, Inr (sis' ! unat i))
         else (quic, Inr (sis ! unat i)))"
        using l(1) by (simp add: QuicStreamGetInstance_def Let_def Some Inr at at' del: upt_Suc)
      then show ?thesis using assms wf' by (auto split: if_splits)
    qed
  qed
  then show "safe r" and "conf_wf (q_stream quic')" by simp_all
qed

section \<open>How many streams can be opened\<close>

lemma push_bit_or_add:
  fixes x y :: u64
  assumes "uint y < 2 ^ n"
  shows "push_bit n x OR y = push_bit n x + y"
proof -
  have "take_bit n (uint y) = uint y" using assms by (intro take_bit_int_eq_self) simp_all
  then have y: "take_bit n y = y" by (simp add: word_uint_eq_iff unsigned_take_bit_eq)
  have "push_bit n x AND take_bit n y = 0" by (rule bit_eqI) (auto simp: bit_simps)
  then show ?thesis unfolding y by (rule disjunctive_add_eq_or[symmetric])
qed

definition id_flags :: "bool \<Rightarrow> bool \<Rightarrow> u64" where
  "id_flags uni server = (if uni then 2 else 0) + (if server then 1 else 0)"

lemma max_id_of_multiple:
  "QuicStreamComputeMaxId (push_bit 2 x) uni server = push_bit 3 x + id_flags uni server"
proof -
  have m: "(3 :: u64) = mask 2" by (simp add: mask_eq_exp_minus_1)
  have b: "push_bit 2 x AND mask 2 = (0 :: u64)" and t: "push_bit 2 x AND NOT (mask 2) = (push_bit 2 x :: u64)"
    by (rule bit_eqI; auto simp: bit_simps)+
  have f: "(if server then (if uni then 0 OR 2 else 0) OR 1 else (if uni then 0 OR 2 else 0)) = id_flags uni server"
    by (simp add: id_flags_def)
  have "QuicStreamComputeMaxId (push_bit 2 x) uni server = push_bit 1 (push_bit 2 x) OR id_flags uni server"
    unfolding QuicStreamComputeMaxId_def Let_def QUIC_STREAM_ID_MASK_def QUIC_STREAM_UNIDIRECTIONAL_def
      QUIC_STREAM_INITIATED_BY_SERVER_def m b t f ..
  also have "push_bit 1 (push_bit 2 x) = push_bit 3 x" by (simp add: push_bit_eq_mult)
  also have "push_bit 3 x OR id_flags uni server = push_bit 3 x + id_flags uni server"
    by (rule push_bit_or_add) (simp add: id_flags_def)
  finally show ?thesis .
qed

lemma push_bit_of_nat: "push_bit m (of_nat n :: u64) = of_nat (2 ^ m * n)"
  by (simp add: push_bit_eq_mult mult.commute)

lemma id_flags_nat: "id_flags uni server = of_nat ((if uni then 2 else 0) + (if server then 1 else 0))"
  by (simp add: id_flags_def)

lemma QUIC_MAX_small:
  "a < 2 ^ 31 \<Longrightarrow> b < 2 ^ 31 \<Longrightarrow> QUIC_MAX (of_nat a :: u64) (of_nat b) = of_nat (max a b)"
proof -
  assume a: "a < 2 ^ 31" "b < 2 ^ 31"
  have "uint (of_nat a :: u64) < 2 ^ 31" "uint (of_nat b :: u64) < 2 ^ 31"
    using a by (simp_all add: unsigned_of_nat take_bit_nat_eq_self)
  then have "QUIC_GT (of_nat a :: u64) (of_nat b) \<longleftrightarrow> b < a"
    using a by (simp add: quic_cmp_small64 of_nat64_less_iff)
  then show ?thesis by (auto simp: QUIC_MAX_def max_def)
qed

lemma bidi_id_gen:
  "QuicStreamIdGen scf param server False =
     (let n = scf_bidi_id_alloced scf;
          i = (if server then push_bit 2 n OR QUIC_STREAM_INITIATED_BY_SERVER else push_bit 2 n) in
      if initial_max_stream_bidi param \<le> n then Inl Fail
      else if scf_max_id_value scf \<le> i then Inl Fail
      else Inr (i, scf\<lparr>scf_bidi_id_alloced := n + 1\<rparr>))"
  by (simp add: QuicStreamIdGen_def Let_def)



section \<open>Opening streams\<close>

lemma QuicStreamIdGen_bound:
  "QuicStreamIdGen scf param server uni = Inr (i, scf') \<Longrightarrow> i < scf_max_id_value scf \<and>
     scf_stream scf' = scf_stream scf \<and> scf_max_id_value scf' = scf_max_id_value scf"
  by (auto simp: QuicStreamIdGen_def Let_def split: if_splits)

lemma conf_wf_upd: "conf_wf scf \<Longrightarrow> conf_wf (stream_upd scf i si)"
  by (auto simp: conf_wf_def stream_upd_def split: option.splits)



end
