(* ===== verification/Quic_Buffer.thy ===== *)
theory Quic_Buffer
  imports Prelude
begin

text \<open>
  The growable buffer of \<^verbatim>\<open>quic/buffer.c\<close>: a \<^verbatim>\<open>BUF_MEM\<close> of OpenSSL with a reserved prefix, the length of
  the data after it and a read offset. The \<^verbatim>\<open>BUF_MEM\<close> is its contents, \<open>None\<close> for a null pointer; a
  pointer into it is an offset from its start. \<^verbatim>\<open>BUF_MEM_grow\<close> is \<open>env_grow\<close> of the environment.
\<close>

section \<open>Operations\<close>

definition QUIC_BUF_MAX_LEN :: nat where "QUIC_BUF_MAX_LEN = 65535"

record QUIC_BUFFER =
  qbf_buf :: "bytes option"
  qbf_offset :: u64
  qbf_reserved :: u64
  qbf_data_len :: u64

text \<open>\<^verbatim>\<open>BUF_MEM_grow\<close> returns the requested length, or 0 on failure; a request for 0 returns 0 too.\<close>

definition QuicBufInit :: "env \<Rightarrow> QUIC_BUFFER \<Rightarrow> u64 \<Rightarrow> QUIC_BUFFER \<times> unit res" where
  "QuicBufInit e qbuf len =
     (case env_grow e [] (unat len) of
        None \<Rightarrow> (qbuf, Inl Fail)
      | Some m \<Rightarrow>
          if len = 0 then (qbuf, Inl Fail)
          else (\<lparr>qbf_buf = Some m, qbf_offset = 0, qbf_reserved = 0, qbf_data_len = 0\<rparr>, Inr ()))"

definition QuicBufMemGrow :: "env \<Rightarrow> QUIC_BUFFER \<Rightarrow> u64 \<Rightarrow> (QUIC_BUFFER \<times> u64) res" where
  "QuicBufMemGrow e qbuf len =
     (case qbf_buf qbuf of
        None \<Rightarrow> Inl Null_ptr
      | Some m \<Rightarrow>
          (case env_grow e m (unat len) of
             None \<Rightarrow> Inr (qbuf, 0)
           | Some m' \<Rightarrow> Inr (qbuf\<lparr>qbf_buf := Some m'\<rparr>, len)))"

definition QuicBufData :: "QUIC_BUFFER \<Rightarrow> int res" where
  "QuicBufData qbuf = bindR (assertR (qbf_buf qbuf \<noteq> None)) (\<lambda>_. Inr (uint (qbf_reserved qbuf)))"

definition QuicBufMsg :: "QUIC_BUFFER \<Rightarrow> int res" where
  "QuicBufMsg qbuf = bindR (QuicBufData qbuf) (\<lambda>p. Inr (p + uint (qbf_offset qbuf)))"

definition QuicBufHead :: "QUIC_BUFFER \<Rightarrow> int res" where
  "QuicBufHead qbuf = bindR (assertR (qbf_buf qbuf \<noteq> None)) (\<lambda>_. Inr 0)"

definition QuicBufTail :: "QUIC_BUFFER \<Rightarrow> int res" where
  "QuicBufTail qbuf = bindR (QuicBufData qbuf) (\<lambda>p. Inr (p + uint (qbf_data_len qbuf)))"

definition QuicBufLength :: "QUIC_BUFFER \<Rightarrow> u64 res" where
  "QuicBufLength qbuf = (case qbf_buf qbuf of None \<Rightarrow> Inl Abort | Some m \<Rightarrow> Inr (of_nat (length m)))"

definition QuicBufGetOffset :: "QUIC_BUFFER \<Rightarrow> u64" where
  "QuicBufGetOffset qbuf = qbf_offset qbuf"

definition QuicBufAddOffset :: "QUIC_BUFFER \<Rightarrow> u64 \<Rightarrow> QUIC_BUFFER res" where
  "QuicBufAddOffset qbuf offset =
     (let total = qbf_offset qbuf + offset in
      bindR (QuicBufLength qbuf) (\<lambda>l.
        if QUIC_LT l total then Inl Fail else Inr (qbuf\<lparr>qbf_offset := total\<rparr>)))"

definition QuicBufResetOffset :: "QUIC_BUFFER \<Rightarrow> QUIC_BUFFER" where
  "QuicBufResetOffset qbuf = qbuf\<lparr>qbf_offset := 0\<rparr>"

definition QuicBufRemaining :: "QUIC_BUFFER \<Rightarrow> u64 res" where
  "QuicBufRemaining qbuf =
     (let total_len = qbf_reserved qbuf + qbf_data_len qbuf in
      case qbf_buf qbuf of
        None \<Rightarrow> Inl Abort
      | Some m \<Rightarrow>
          bindR (assertR (QUIC_GE (of_nat (length m)) total_len)) (\<lambda>_. Inr (of_nat (length m) - total_len)))"

definition QuicBufGetDataLength :: "QUIC_BUFFER \<Rightarrow> u64" where
  "QuicBufGetDataLength qbuf = qbf_data_len qbuf"

definition QuicBufSetDataLength :: "QUIC_BUFFER \<Rightarrow> u64 \<Rightarrow> QUIC_BUFFER" where
  "QuicBufSetDataLength qbuf len = qbuf\<lparr>qbf_data_len := len\<rparr>"

definition QuicBufAddDataLength :: "QUIC_BUFFER \<Rightarrow> u64 \<Rightarrow> QUIC_BUFFER" where
  "QuicBufAddDataLength qbuf len = qbuf\<lparr>qbf_data_len := qbf_data_len qbuf + len\<rparr>"

definition QuicBufResetDataLength :: "QUIC_BUFFER \<Rightarrow> QUIC_BUFFER" where
  "QuicBufResetDataLength qbuf = qbuf\<lparr>qbf_data_len := 0\<rparr>"

definition QuicBufReserve :: "QUIC_BUFFER \<Rightarrow> QUIC_BUFFER" where
  "QuicBufReserve qbuf = qbuf\<lparr>qbf_reserved := qbf_data_len qbuf, qbf_data_len := 0\<rparr>"

definition QuicBufGetReserved :: "QUIC_BUFFER \<Rightarrow> u64" where
  "QuicBufGetReserved qbuf = qbf_reserved qbuf"

definition QuicBufCopyData :: "QUIC_BUFFER \<Rightarrow> bytes \<Rightarrow> u64 \<Rightarrow> QUIC_BUFFER res" where
  "QuicBufCopyData qbuf data len =
     (case qbf_buf qbuf of
        None \<Rightarrow> Inl Abort
      | Some m \<Rightarrow>
          bindR (QuicBufRemaining qbuf) (\<lambda>r.
            if QUIC_LT r len then Inl Fail
            else
              bindR (mem_slice data 0 (unat len)) (\<lambda>d.
              bindR (QuicBufData qbuf) (\<lambda>p.
              bindR (mem_copy m p d) (\<lambda>m'.
                Inr (QuicBufSetDataLength (qbuf\<lparr>qbf_buf := Some m'\<rparr>) len))))))"

definition QuicBufClear :: "QUIC_BUFFER \<Rightarrow> QUIC_BUFFER" where
  "QuicBufClear qbuf = qbuf\<lparr>qbf_reserved := 0, qbf_data_len := 0\<rparr>"

section \<open>Well-formed buffers\<close>

definition buf_wf :: "QUIC_BUFFER \<Rightarrow> bool" where
  "buf_wf b \<longleftrightarrow> (\<exists>m. qbf_buf b = Some m \<and> length m < 2 ^ 31
     \<and> unat (qbf_reserved b) + unat (qbf_data_len b) \<le> length m)"

text \<open>The data of a buffer: what stands after the reserved prefix.\<close>

definition buf_data :: "QUIC_BUFFER \<Rightarrow> bytes" where
  "buf_data b = (case qbf_buf b of None \<Rightarrow> []
     | Some m \<Rightarrow> take (unat (qbf_data_len b)) (drop (unat (qbf_reserved b)) m))"

lemma unat_sum_small:
  "unat (a :: u64) + unat b < 2 ^ 31 \<Longrightarrow> unat (a + b) = unat a + unat b"
  by (subst unat_add_lem[THEN iffD1]) simp_all

lemma QuicBufRemaining_ok:
  assumes "buf_wf b" and "qbf_buf b = Some m"
  shows "QuicBufRemaining b = Inr (of_nat (length m - unat (qbf_reserved b) - unat (qbf_data_len b)))"
proof -
  let ?t = "qbf_reserved b + qbf_data_len b"
  have m: "length m < 2 ^ 31" and le: "unat (qbf_reserved b) + unat (qbf_data_len b) \<le> length m"
    using assms by (auto simp: buf_wf_def)
  have t: "unat ?t = unat (qbf_reserved b) + unat (qbf_data_len b)"
    using m le by (intro unat_sum_small) linarith
  have l: "unat (of_nat (length m) :: u64) = length m" using m by (intro of_nat_unat64) simp
  have ge: "QUIC_GE (of_nat (length m)) ?t"
    using m le t l by (subst quic_cmp_unat(4)) simp_all
  have "of_nat (length m) - ?t = (of_nat (length m - unat ?t) :: u64)"
    using le t by (simp add: of_nat_diff)
  with ge assms(2) t show ?thesis by (simp add: QuicBufRemaining_def Let_def)
qed

lemma QuicBufReserve_wf [wf_intros]: "buf_wf b \<Longrightarrow> buf_wf (QuicBufReserve b)"
  by (auto simp: buf_wf_def QuicBufReserve_def)

lemma QuicBufClear_wf [wf_intros]: "buf_wf b \<Longrightarrow> buf_wf (QuicBufClear b)"
  by (auto simp: buf_wf_def QuicBufClear_def)

lemma QuicBufResetDataLength_wf [wf_intros]: "buf_wf b \<Longrightarrow> buf_wf (QuicBufResetDataLength b)"
  by (auto simp: buf_wf_def QuicBufResetDataLength_def)

lemma mem_copy_at:
  assumes "unat (r :: u64) + length d \<le> length m"
  shows "mem_copy m (uint r) d = Inr (take (unat r) m @ d @ drop (unat r + length d) m)"
proof -
  have "uint r + int (length d) \<le> int (length m)" using assms by (simp only: uint_nat of_nat_add[symmetric] of_nat_le_iff)
  moreover have "nat (uint r) = unat r" by simp
  ultimately show ?thesis by (auto simp: mem_copy_def)
qed

lemma mem_slice_all: "n = length d \<Longrightarrow> mem_slice d 0 n = Inr d"
  by (simp add: mem_slice_def)

lemma QuicBufCopyData_eq:
  assumes "buf_wf b" and "qbf_buf b = Some m" and "unat len = length d"
    and "k = length m - unat (qbf_reserved b) - unat (qbf_data_len b)"
    and "unat (qbf_reserved b) + length d \<le> length m" and "\<not> QUIC_LT (of_nat k) len"
  shows "QuicBufCopyData b d len =
    Inr (b\<lparr>qbf_buf := Some (take (unat (qbf_reserved b)) m @ d @ drop (unat (qbf_reserved b) + length d) m),
          qbf_data_len := len\<rparr>)"
  using assms(2,6) mem_copy_at[OF assms(5)] mem_slice_all[OF assms(3)]
  unfolding QuicBufCopyData_def QuicBufRemaining_ok[OF assms(1,2), folded assms(4)]
  by (simp add: QuicBufData_def QuicBufSetDataLength_def)

text \<open>A copy that is accepted fits, and its bytes are the data of the buffer afterwards.\<close>

lemma QuicBufCopyData_ok:
  assumes wf: "buf_wf b" and len: "uint len < 2 ^ 31" "unat len = length d"
    and r: "QuicBufCopyData b d len = Inr b'"
  shows "buf_wf b'" and "buf_data b' = d"
proof -
  from wf obtain m where m: "qbf_buf b = Some m" "length m < 2 ^ 31"
      "unat (qbf_reserved b) + unat (qbf_data_len b) \<le> length m"
    by (auto simp: buf_wf_def)
  let ?r = "unat (qbf_reserved b)"
  let ?k = "length m - ?r - unat (qbf_data_len b)"
  have k: "unat (of_nat ?k :: u64) = ?k" using m(2) by (intro of_nat_unat64) simp
  have lt: "unat len < 2 ^ 31" using len(1) by (simp only: uint_less_unat)
  from r have acc: "\<not> QUIC_LT (of_nat ?k) len"
    using m(1) by (auto simp: QuicBufCopyData_def QuicBufRemaining_ok[OF wf m(1)] bindR_eq_Inr split: if_splits)
  have "length d \<le> ?k"
    using acc len(2) lt k m(2) by (subst (asm) quic_cmp_unat(1)) simp_all
  then have fit: "?r + length d \<le> length m" using m(3) by linarith
  have b': "b' = b\<lparr>qbf_buf := Some (take ?r m @ d @ drop (?r + length d) m), qbf_data_len := len\<rparr>"
    using r QuicBufCopyData_eq[OF wf m(1) len(2) refl fit acc] by simp
  show "buf_wf b'" using b' fit m(2) len(2) by (simp add: buf_wf_def)
  show "buf_data b' = d" using b' fit len(2) by (simp add: buf_data_def)
qed

lemma QuicBufCopyData_safe:
  assumes wf: "buf_wf b" and len: "uint len < 2 ^ 31" "unat len = length d"
  shows "safe (QuicBufCopyData b d len)"
proof -
  from wf obtain m where m: "qbf_buf b = Some m" "length m < 2 ^ 31"
      "unat (qbf_reserved b) + unat (qbf_data_len b) \<le> length m"
    by (auto simp: buf_wf_def)
  let ?r = "unat (qbf_reserved b)"
  let ?k = "length m - ?r - unat (qbf_data_len b)"
  have k: "unat (of_nat ?k :: u64) = ?k" using m(2) by (intro of_nat_unat64) simp
  have lt: "unat len < 2 ^ 31" using len(1) by (simp only: uint_less_unat)
  have fit: "\<not> QUIC_LT (of_nat ?k) len \<Longrightarrow> ?r + length d \<le> length m"
    using len(2) lt k m(2,3) by (subst (asm) quic_cmp_unat(1)) simp_all
  show ?thesis
  proof (cases "QUIC_LT (of_nat ?k) len")
    case True
    then show ?thesis using m(1) by (simp add: QuicBufCopyData_def QuicBufRemaining_ok[OF wf m(1)])
  next
    case False
    then show ?thesis using QuicBufCopyData_eq[OF wf m(1) len(2) refl fit False] by simp
  qed
qed

end
