(* ===== verification/QBuff.thy ===== *)
theory QBuff
  imports Quic_Buffer Stream_Conn
begin

text \<open>
  Send buffers (\<^verbatim>\<open>quic/q_buff.c\<close>): a \<^verbatim>\<open>QBUFF\<close> holds the frames of one packet, a queue of them the packets
  to send or the packets sent and not yet acknowledged. A queue is a HOL list in queue order. The
  method of a buffer is the entry of its packet type in \<^verbatim>\<open>QuicBuffPktMethod\<close>, so the packet type stands
  for it.
\<close>

section \<open>Operations\<close>

definition QUIC_PKT_TYPE_INITIAL :: u32 where "QUIC_PKT_TYPE_INITIAL = 0"
definition QUIC_PKT_TYPE_0RTT :: u32 where "QUIC_PKT_TYPE_0RTT = 1"
definition QUIC_PKT_TYPE_HANDSHAKE :: u32 where "QUIC_PKT_TYPE_HANDSHAKE = 2"
definition QUIC_PKT_TYPE_RETRY :: u32 where "QUIC_PKT_TYPE_RETRY = 3"
definition QUIC_PKT_TYPE_1RTT :: u32 where "QUIC_PKT_TYPE_1RTT = 4"
definition QUIC_PKT_TYPE_MAX :: u32 where "QUIC_PKT_TYPE_MAX = 5"

definition QBUFF_FLAGS_STREAM_FIN :: u64 where "QBUFF_FLAGS_STREAM_FIN = 1"
definition QBUFF_FLAGS_STREAM_RESET :: u64 where "QBUFF_FLAGS_STREAM_RESET = 2"

record QBUFF =
  qb_pkt_num :: u64
  qb_flags :: u64
  qb_stream_id :: u64
  qb_pkt_type :: u32
  qb_buff :: bytes
  qb_buff_len :: u64
  qb_data_len :: u64
  qb_stream_len :: u64

definition sizeof_QBUFF :: nat where "sizeof_QBUFF = 88"

definition QBuffPktMethodFind :: "u32 \<Rightarrow> u32 res" where
  "QBuffPktMethodFind ty = (if QUIC_GE ty QUIC_PKT_TYPE_MAX then Inl Fail else Inr ty)"

definition QBuffNew :: "env \<Rightarrow> u32 \<Rightarrow> u64 \<Rightarrow> QBUFF res" where
  "QBuffNew e pkt_type len =
     bindR (QBuffPktMethodFind pkt_type) (\<lambda>_.
     bindR (alloc e sizeof_QBUFF) (\<lambda>_.
     bindR (alloc e (unat len)) (\<lambda>_.
       Inr \<lparr>qb_pkt_num = 0, qb_flags = 0, qb_stream_id = - 1, qb_pkt_type = pkt_type,
            qb_buff = fresh_mem e (unat len), qb_buff_len = len, qb_data_len = 0, qb_stream_len = 0\<rparr>)))"

text \<open>Pointers into the buffer are offsets from its start.\<close>

definition QBuffHead :: "QBUFF \<Rightarrow> int" where "QBuffHead qb = 0"

definition QBuffTail :: "QBUFF \<Rightarrow> int" where "QBuffTail qb = uint (qb_data_len qb)"

definition QBuffLen :: "QBUFF \<Rightarrow> u64" where "QBuffLen qb = qb_buff_len qb"

definition QBuffGetDataLen :: "QBUFF \<Rightarrow> u64" where "QBuffGetDataLen qb = qb_data_len qb"

definition QBuffSpace :: "QBUFF \<Rightarrow> u64 res" where
  "QBuffSpace qb =
     bindR (assertR (QUIC_GE (qb_buff_len qb) (qb_data_len qb))) (\<lambda>_. Inr (qb_buff_len qb - qb_data_len qb))"

definition QBuffSetDataLen :: "QBUFF \<Rightarrow> u64 \<Rightarrow> QBUFF res" where
  "QBuffSetDataLen qb len =
     (if QUIC_LT (qb_buff_len qb) len then Inl Fail else Inr (qb\<lparr>qb_data_len := len\<rparr>))"

definition QBuffAddDataLen :: "QBUFF \<Rightarrow> u64 \<Rightarrow> QBUFF res" where
  "QBuffAddDataLen qb len = QBuffSetDataLen qb (qb_data_len qb + len)"

definition QBuffQueueAdd :: "QBUFF list \<Rightarrow> QBUFF \<Rightarrow> QBUFF list" where
  "QBuffQueueAdd h qb = h @ [qb]"

definition QBuffQueueUnlink :: "QBUFF list \<Rightarrow> QBUFF \<Rightarrow> QBUFF list" where
  "QBuffQueueUnlink h qb = remove1 qb h"

definition QBuffQueueEmpty :: "QBUFF list \<Rightarrow> bool" where "QBuffQueueEmpty h \<longleftrightarrow> h = []"

definition QBuffQueueDestroy :: "QBUFF list \<Rightarrow> QBUFF list" where "QBuffQueueDestroy h = []"

text \<open>\<^verbatim>\<open>void\<close>: an identifier that has no instance is ignored; what the lookup opens stays opened.\<close>

definition QBufStreamFlagsProc :: "'a QuicTrans_scheme \<Rightarrow> u64 \<Rightarrow> u64 \<Rightarrow> 'a QuicTrans_scheme res" where
  "QBufStreamFlagsProc quic i flags =
     (if sint i < 0 then Inr quic
      else case QuicStreamGetInstance quic i of
        (quic', Inl err) \<Rightarrow> if err = Fail then Inr quic' else Inl err
      | (quic', Inr si) \<Rightarrow>
          let si1 = (if flags AND QBUFF_FLAGS_STREAM_FIN \<noteq> 0 \<and> si_send_state si = QUIC_STREAM_STATE_DATA_SENT
                     then si\<lparr>si_send_state := QUIC_STREAM_STATE_DATA_RECVD\<rparr> else si);
              si2 = (if flags AND QBUFF_FLAGS_STREAM_RESET \<noteq> 0 \<and> si_send_state si1 = QUIC_STREAM_STATE_RESET_SENT
                     then si1\<lparr>si_send_state := QUIC_STREAM_STATE_RESET_RECVD\<rparr> else si1)
          in Inr (q_stream_upd quic' i si2))"

text \<open>The backward loop over the buffers not yet visited, the last of the queue first; what is left of
  them comes back in the same order, with the buffer the loop returns.\<close>

fun ack_loop ::
    "'a QuicTrans_scheme \<Rightarrow> QBUFF list \<Rightarrow> u64 \<Rightarrow> u64 \<Rightarrow>
     ('a QuicTrans_scheme \<times> QBUFF list \<times> QBUFF option) res" where
  "ack_loop quic [] smallest largest = Inr (quic, [], None)"
| "ack_loop quic (qb # qbs) smallest largest =
     (if QUIC_GT (qb_pkt_num qb) largest
      then bindR (ack_loop quic qbs smallest largest) (\<lambda>(quic', qbs', r). Inr (quic', qb # qbs', r))
      else if QUIC_GT smallest (qb_pkt_num qb) then Inr (quic, qb # qbs, Some qb)
      else bindR (QBufStreamFlagsProc quic (qb_stream_id qb) (qb_flags qb)) (\<lambda>quic'.
             ack_loop quic' qbs smallest largest))"

text \<open>With a start the cursor stays null, and the loop begins by reading the links of a null buffer.\<close>

definition QBufAckSentPkt ::
    "'a QuicTrans_scheme \<Rightarrow> QBUFF list \<Rightarrow> u64 \<Rightarrow> u64 \<Rightarrow> QBUFF option \<Rightarrow>
     ('a QuicTrans_scheme \<times> QBUFF list \<times> QBUFF option) res" where
  "QBufAckSentPkt quic h smallest largest start =
     (case start of
        Some _ \<Rightarrow> Inl Null_ptr
      | None \<Rightarrow> bindR (ack_loop quic (rev h) smallest largest) (\<lambda>(quic', qbs, r). Inr (quic', rev qbs, r)))"

section \<open>Buffers\<close>

definition qb_wf :: "QBUFF \<Rightarrow> bool" where
  "qb_wf qb \<longleftrightarrow> unat (qb_buff_len qb) = length (qb_buff qb) \<and> length (qb_buff qb) < 2 ^ 31
     \<and> unat (qb_data_len qb) \<le> length (qb_buff qb)"

lemma QBuffNew_wf: "QBuffNew e ty len = Inr qb \<Longrightarrow> unat len < 2 ^ 31 \<Longrightarrow> qb_wf qb"
  by (auto simp: QBuffNew_def bindR_eq_Inr qb_wf_def)

lemma QBuffSpace_ok: "qb_wf qb \<Longrightarrow> QBuffSpace qb = Inr (qb_buff_len qb - qb_data_len qb)"
  by (simp add: QBuffSpace_def qb_wf_def quic_cmp_unat)

lemma QBuffSetDataLen_wf:
  "qb_wf qb \<Longrightarrow> unat len < 2 ^ 31 \<Longrightarrow> QBuffSetDataLen qb len = Inr qb' \<Longrightarrow> qb_wf qb'"
  by (auto simp: QBuffSetDataLen_def qb_wf_def quic_cmp_unat split: if_splits)

section \<open>Acknowledging\<close>

text \<open>The streams stay well-formed under the flags of an acknowledged buffer, and the rest of the
  connection is not touched.\<close>

lemma stream_upd_wf [wf_intros]: "conf_wf scf \<Longrightarrow> conf_wf (stream_upd scf i si)"
  by (auto simp: conf_wf_def stream_upd_def split: option.splits)

lemma QBufStreamFlagsProc_ok:
  assumes "conf_wf (q_stream quic)"
  obtains quic' where "QBufStreamFlagsProc quic i fl = Inr quic'" and "conf_wf (q_stream quic')"
proof (cases "sint i < 0")
  case True
  with assms that show ?thesis by (simp add: QBufStreamFlagsProc_def)
next
  case False
  obtain quic1 r where g: "QuicStreamGetInstance quic i = (quic1, r)" by fastforce
  note s = QuicStreamGetInstance_safe[OF assms g]
  show ?thesis
  proof (cases r)
    case (Inl err)
    with g s that False show ?thesis by (simp add: QBufStreamFlagsProc_def)
  next
    case (Inr si)
    with g s that False show ?thesis
      by (simp add: QBufStreamFlagsProc_def Let_def q_stream_upd_def stream_upd_wf)
  qed
qed

definition acked :: "u64 \<Rightarrow> u64 \<Rightarrow> QBUFF \<Rightarrow> bool" where
  "acked smallest largest qb \<longleftrightarrow> smallest \<le> qb_pkt_num qb \<and> qb_pkt_num qb \<le> largest"

definition sent_wf :: "QBUFF list \<Rightarrow> bool" where
  "sent_wf h \<longleftrightarrow> sorted_wrt (\<lambda>a b. qb_pkt_num a < qb_pkt_num b) h \<and> (\<forall>qb\<in>set h. uint (qb_pkt_num qb) < 2 ^ 31)"

lemma find_append: "find P (xs @ ys) = (case find P xs of None \<Rightarrow> find P ys | Some x \<Rightarrow> Some x)"
  by (induction xs) auto

lemma ack_loop_exact:
  assumes "conf_wf (q_stream quic)" and "uint smallest < 2 ^ 31" and "uint largest < 2 ^ 31"
    and "smallest \<le> largest"
    and "\<forall>qb\<in>set qbs. uint (qb_pkt_num qb) < 2 ^ 31"
    and "sorted_wrt (\<lambda>a b. qb_pkt_num b < qb_pkt_num a) qbs"
  shows "\<exists>quic'. conf_wf (q_stream quic') \<and>
    ack_loop quic qbs smallest largest =
      Inr (quic', filter (\<lambda>qb. \<not> acked smallest largest qb) qbs, find (\<lambda>qb. qb_pkt_num qb < smallest) qbs)"
  using assms
proof (induction qbs arbitrary: quic)
  case Nil
  then show ?case by simp
next
  case (Cons qb qbs)
  have n: "uint (qb_pkt_num qb) < 2 ^ 31" using Cons.prems by simp
  consider (above) "largest < qb_pkt_num qb" | (below) "qb_pkt_num qb < smallest"
    | (inside) "smallest \<le> qb_pkt_num qb" "qb_pkt_num qb \<le> largest"
    by force
  then show ?case
  proof cases
    case above
    obtain quic' where "conf_wf (q_stream quic')" "ack_loop quic qbs smallest largest =
      Inr (quic', filter (\<lambda>qb. \<not> acked smallest largest qb) qbs, find (\<lambda>qb. qb_pkt_num qb < smallest) qbs)"
      using Cons.IH[of quic] Cons.prems by auto
    moreover have "\<not> qb_pkt_num qb < smallest" using above Cons.prems(4) by force
    ultimately show ?thesis using above n Cons.prems(3) by (simp add: quic_cmp_small64 acked_def not_le)
  next
    case below
    have "\<forall>q\<in>set qbs. qb_pkt_num q < smallest" using Cons.prems(6) below by force
    then have "filter (\<lambda>q. \<not> acked smallest largest q) qbs = qbs"
      by (intro filter_True) (auto simp: acked_def not_le)
    moreover have "\<not> largest < qb_pkt_num qb" using below Cons.prems(4) by force
    ultimately show ?thesis using below n Cons.prems(1,2,3)
      by (simp add: quic_cmp_small64 acked_def not_le)
  next
    case inside
    obtain quic1 where q1: "QBufStreamFlagsProc quic (qb_stream_id qb) (qb_flags qb) = Inr quic1"
        "conf_wf (q_stream quic1)"
      using QBufStreamFlagsProc_ok[OF Cons.prems(1)] by blast
    obtain quic' where "conf_wf (q_stream quic')" "ack_loop quic1 qbs smallest largest =
      Inr (quic', filter (\<lambda>qb. \<not> acked smallest largest qb) qbs, find (\<lambda>qb. qb_pkt_num qb < smallest) qbs)"
      using Cons.IH[of quic1] Cons.prems q1(2) by auto
    then show ?thesis using inside n q1 Cons.prems(2,3)
      by (simp add: quic_cmp_small64 acked_def not_less[symmetric])
  qed
qed

lemma QBufAckSentPkt_ok:
  assumes "conf_wf (q_stream quic)" and "sent_wf h"
    and "smallest \<le> largest" and "uint smallest < 2 ^ 31" and "uint largest < 2 ^ 31"
  shows "\<exists>quic'. conf_wf (q_stream quic') \<and>
    QBufAckSentPkt quic h smallest largest None =
      Inr (quic', filter (\<lambda>qb. \<not> acked smallest largest qb) h,
           if \<exists>qb\<in>set h. qb_pkt_num qb < smallest
           then Some (last (filter (\<lambda>qb. qb_pkt_num qb < smallest) h)) else None)"
proof -
  have "\<exists>quic'. conf_wf (q_stream quic') \<and>
    ack_loop quic (rev h) smallest largest =
      Inr (quic', filter (\<lambda>qb. \<not> acked smallest largest qb) (rev h),
           find (\<lambda>qb. qb_pkt_num qb < smallest) (rev h))"
    using assms by (intro ack_loop_exact) (simp_all add: sent_wf_def sorted_wrt_rev)
  moreover have "find P (rev h) = (if \<exists>x\<in>set h. P x then Some (last (filter P h)) else None)"
    for P :: "QBUFF \<Rightarrow> bool"
    by (induction h) (auto simp: find_append filter_empty_conv split: option.splits)
  ultimately show ?thesis by (auto simp: QBufAckSentPkt_def rev_filter)
qed

text \<open>C13: acknowledging a range of packet numbers on a queue of sent packets in ascending order removes
  exactly the packets of the range, keeps the order of the others, and returns the last packet below
  the range, or null when there is none.\<close>

theorem ack_range_exact:
  assumes "conf_wf (q_stream quic)" and "sent_wf h"
    and "smallest \<le> largest" and "uint smallest < 2 ^ 31" and "uint largest < 2 ^ 31"
  shows "\<exists>quic'. conf_wf (q_stream quic') \<and>
    QBufAckSentPkt quic h smallest largest None =
      Inr (quic', filter (\<lambda>qb. \<not> acked smallest largest qb) h,
           if \<exists>qb\<in>set h. qb_pkt_num qb < smallest
           then Some (last (filter (\<lambda>qb. qb_pkt_num qb < smallest) h)) else None)"
  using assms by (rule QBufAckSentPkt_ok)

definition demo_qb :: "u64 \<Rightarrow> QBUFF" where
  "demo_qb n = \<lparr>qb_pkt_num = n, qb_flags = 0, qb_stream_id = - 1, qb_pkt_type = QUIC_PKT_TYPE_1RTT,
     qb_buff = [], qb_buff_len = 0, qb_data_len = 0, qb_stream_len = 0\<rparr>"

theorem ack_range_exact_witness:
  "conf_wf (q_stream demo_quic) \<and> sent_wf [demo_qb 3, demo_qb 4, demo_qb 6] \<and>
   (\<exists>quic'. conf_wf (q_stream quic') \<and>
      QBufAckSentPkt demo_quic [demo_qb 3, demo_qb 4, demo_qb 6] 4 5 None =
        Inr (quic', [demo_qb 3, demo_qb 6], Some (demo_qb 3)))"
proof -
  have a: "conf_wf (q_stream demo_quic)" "sent_wf [demo_qb 3, demo_qb 4, demo_qb 6]"
    by (simp_all add: conf_wf_def demo_quic_def sent_wf_def demo_qb_def word_less_def)
  show ?thesis using ack_range_exact[OF a, of 4 5] a by (simp add: acked_def demo_qb_def word_less_def word_le_def)
qed

end
