(* ===== verification/Cipher.thy ===== *)
theory Cipher
  imports QBuff
begin

text \<open>
  Ciphers (\<^verbatim>\<open>quic/cipher.c\<close>, \<^verbatim>\<open>quic/evp.c\<close> and the setters of \<^verbatim>\<open>quic/quic_lib.c\<close>): the table of algorithms,
  the cipher state of a packet number space, and the wrappers around OpenSSL's EVP interface. An EVP
  context is a value of an arbitrary type \<open>'c\<close>; the EVP operations on it are the fields of a record
  \<open>evp\<close>, a parameter of everything that encrypts. What the proofs rely on of it is \<open>aead_spec\<close> and
  \<open>hp_spec\<close>, and \<open>demo_evp\<close> shows that they can hold.
\<close>

section \<open>The table of algorithms\<close>

definition QUIC_ALG_AES_128_ECB :: u32 where "QUIC_ALG_AES_128_ECB = 0"
definition QUIC_ALG_AES_128_GCM :: u32 where "QUIC_ALG_AES_128_GCM = 3"
definition QUIC_ALG_AES_128_CCM_8 :: u32 where "QUIC_ALG_AES_128_CCM_8 = 9"
definition QUIC_ALG_CHACHA20POLY1305 :: u32 where "QUIC_ALG_CHACHA20POLY1305 = 11"
definition QUIC_ALG_MAX :: u32 where "QUIC_ALG_MAX = 12"

text \<open>\<open>NID_undef\<close> is the 0 of an entry the table does not set.\<close>

datatype nid = NID_undef
| NID_aes_128_ecb | NID_aes_192_ecb | NID_aes_256_ecb
| NID_aes_128_gcm | NID_aes_192_gcm | NID_aes_256_gcm
| NID_aes_128_ccm | NID_aes_192_ccm | NID_aes_256_ccm

record QuicCipherSuite =
  cs_nid :: nid
  cs_tag_len :: u32
  cs_get_cipher_len :: "(u64 \<Rightarrow> u64 \<Rightarrow> u64) option"

definition EVP_GCM_TLS_TAG_LEN :: u32 where "EVP_GCM_TLS_TAG_LEN = 16"

definition QuicAesEcbGetCipherLen :: "u64 \<Rightarrow> u64 \<Rightarrow> u64" where
  "QuicAesEcbGetCipherLen plaintext_len tag_len = plaintext_len"

definition QuicAesGcmGetCipherLen :: "u64 \<Rightarrow> u64 \<Rightarrow> u64" where
  "QuicAesGcmGetCipherLen plaintext_len tag_len = plaintext_len + tag_len"

definition QuicAesCcmGetCipherLen :: "u64 \<Rightarrow> u64 \<Rightarrow> u64" where
  "QuicAesCcmGetCipherLen plaintext_len tag_len = plaintext_len"

definition cipher_suite :: "QuicCipherSuite list" where
  "cipher_suite =
    [\<lparr>cs_nid = NID_aes_128_ecb, cs_tag_len = 0, cs_get_cipher_len = Some QuicAesEcbGetCipherLen\<rparr>,
     \<lparr>cs_nid = NID_aes_192_ecb, cs_tag_len = 0, cs_get_cipher_len = Some QuicAesEcbGetCipherLen\<rparr>,
     \<lparr>cs_nid = NID_aes_256_ecb, cs_tag_len = 0, cs_get_cipher_len = Some QuicAesEcbGetCipherLen\<rparr>,
     \<lparr>cs_nid = NID_aes_128_gcm, cs_tag_len = EVP_GCM_TLS_TAG_LEN, cs_get_cipher_len = Some QuicAesGcmGetCipherLen\<rparr>,
     \<lparr>cs_nid = NID_aes_192_gcm, cs_tag_len = EVP_GCM_TLS_TAG_LEN, cs_get_cipher_len = Some QuicAesGcmGetCipherLen\<rparr>,
     \<lparr>cs_nid = NID_aes_256_gcm, cs_tag_len = EVP_GCM_TLS_TAG_LEN, cs_get_cipher_len = Some QuicAesGcmGetCipherLen\<rparr>,
     \<lparr>cs_nid = NID_aes_128_ccm, cs_tag_len = 0, cs_get_cipher_len = Some QuicAesCcmGetCipherLen\<rparr>,
     \<lparr>cs_nid = NID_aes_192_ccm, cs_tag_len = 0, cs_get_cipher_len = Some QuicAesCcmGetCipherLen\<rparr>,
     \<lparr>cs_nid = NID_aes_256_ccm, cs_tag_len = 0, cs_get_cipher_len = Some QuicAesCcmGetCipherLen\<rparr>,
     \<lparr>cs_nid = NID_undef, cs_tag_len = 0, cs_get_cipher_len = None\<rparr>,
     \<lparr>cs_nid = NID_aes_256_ccm, cs_tag_len = 0, cs_get_cipher_len = Some QuicAesCcmGetCipherLen\<rparr>,
     \<lparr>cs_nid = NID_undef, cs_tag_len = 0, cs_get_cipher_len = None\<rparr>]"

definition QuicCipherSuiteFind :: "u32 \<Rightarrow> QuicCipherSuite res" where
  "QuicCipherSuiteFind alg = (if alg \<ge> QUIC_ALG_MAX then Inl Fail else Inr (cipher_suite ! unat alg))"

text \<open>0 for an unknown algorithm; the length function of a known one may be null.\<close>

definition QuicCipherLenGet :: "u32 \<Rightarrow> u64 \<Rightarrow> u64 res" where
  "QuicCipherLenGet alg plaintext_len =
     (case QuicCipherSuiteFind alg of
        Inl _ \<Rightarrow> Inr 0
      | Inr suite \<Rightarrow>
          (case cs_get_cipher_len suite of
             None \<Rightarrow> Inl Null_ptr
           | Some f \<Rightarrow> Inr (f plaintext_len (ucast (cs_tag_len suite)))))"

definition QuicCipherNidFind :: "u32 \<Rightarrow> nid res" where
  "QuicCipherNidFind alg = bindR (QuicCipherSuiteFind alg) (\<lambda>suite. Inr (cs_nid suite))"

definition QuicCipherGetTagLen :: "u32 \<Rightarrow> u32 res" where
  "QuicCipherGetTagLen alg = bindR (QuicCipherSuiteFind alg) (\<lambda>suite. Inr (cs_tag_len suite))"

section \<open>State\<close>

record 'c QUIC_CIPHER =
  qc_alg :: u32
  qc_enc :: bool
  qc_ctx :: "'c option"

record 'c QuicPPCipher =
  pp_cipher :: "'c QUIC_CIPHER"
  pp_iv :: bytes

record 'c QUIC_CIPHERS =
  qcs_hp_cipher :: "'c QUIC_CIPHER"
  qcs_pp_cipher :: "'c QuicPPCipher"

record 'c QuicCipherSpace =
  csp_ciphers :: "'c QUIC_CIPHERS"
  csp_cipher_inited :: bool

record 'c QUIC_CRYPTO =
  qy_pkt_num :: u64
  qy_min_pkt_num :: u64
  qy_largest_pn :: u64
  qy_largest_acked :: u64
  qy_largest_ack :: u64
  qy_arriv_time :: u64
  qy_first_ack_range :: u64
  qy_sent_queue :: "QBUFF list"
  qy_decrypt :: "'c QuicCipherSpace"
  qy_encrypt :: "'c QuicCipherSpace"

definition TLS13_AEAD_NONCE_LENGTH :: nat where "TLS13_AEAD_NONCE_LENGTH = 12"

section \<open>Setting the algorithms\<close>

definition QUIC_set_cipher_alg :: "'c QUIC_CIPHER \<Rightarrow> u32 \<Rightarrow> 'c QUIC_CIPHER res" where
  "QUIC_set_cipher_alg cipher alg = (if alg \<ge> QUIC_ALG_MAX then Inl Fail else Inr (cipher\<lparr>qc_alg := alg\<rparr>))"

definition QUIC_set_hp_ciphers_alg :: "'c QUIC_CIPHERS \<Rightarrow> u32 \<Rightarrow> 'c QUIC_CIPHERS res" where
  "QUIC_set_hp_ciphers_alg cs alg =
     bindR (QUIC_set_cipher_alg (qcs_hp_cipher cs) alg) (\<lambda>c. Inr (cs\<lparr>qcs_hp_cipher := c\<rparr>))"

definition QUIC_set_hp_cipher_space_alg :: "'c QuicCipherSpace \<Rightarrow> u32 \<Rightarrow> 'c QuicCipherSpace res" where
  "QUIC_set_hp_cipher_space_alg sp alg =
     bindR (QUIC_set_hp_ciphers_alg (csp_ciphers sp) alg) (\<lambda>cs. Inr (sp\<lparr>csp_ciphers := cs\<rparr>))"

definition QUIC_set_hp_cipher :: "'c QUIC_CRYPTO \<Rightarrow> u32 \<Rightarrow> 'c QUIC_CRYPTO res" where
  "QUIC_set_hp_cipher c alg =
     bindR (QUIC_set_hp_cipher_space_alg (qy_decrypt c) alg) (\<lambda>d.
     bindR (QUIC_set_hp_cipher_space_alg (qy_encrypt c) alg) (\<lambda>e.
       Inr (c\<lparr>qy_decrypt := d, qy_encrypt := e\<rparr>)))"

definition QUIC_set_pp_ciphers_alg :: "'c QUIC_CIPHERS \<Rightarrow> u32 \<Rightarrow> 'c QUIC_CIPHERS res" where
  "QUIC_set_pp_ciphers_alg cs alg =
     bindR (QUIC_set_cipher_alg (pp_cipher (qcs_pp_cipher cs)) alg) (\<lambda>c.
       Inr (cs\<lparr>qcs_pp_cipher := (qcs_pp_cipher cs)\<lparr>pp_cipher := c\<rparr>\<rparr>))"

definition QUIC_set_pp_cipher_space_alg :: "'c QuicCipherSpace \<Rightarrow> u32 \<Rightarrow> 'c QuicCipherSpace res" where
  "QUIC_set_pp_cipher_space_alg sp alg =
     bindR (QUIC_set_pp_ciphers_alg (csp_ciphers sp) alg) (\<lambda>cs. Inr (sp\<lparr>csp_ciphers := cs\<rparr>))"

definition QuicCipherSpaceInit :: "'c QuicCipherSpace \<Rightarrow> 'c QuicCipherSpace" where
  "QuicCipherSpaceInit sp = sp\<lparr>csp_cipher_inited := False\<rparr>"

definition QuicCryptoCipherInit :: "'c QUIC_CRYPTO \<Rightarrow> 'c QUIC_CRYPTO" where
  "QuicCryptoCipherInit c =
     c\<lparr>qy_decrypt := QuicCipherSpaceInit (qy_decrypt c), qy_encrypt := QuicCipherSpaceInit (qy_encrypt c),
       qy_sent_queue := []\<rparr>"

definition QuicCipherFree :: "'c QUIC_CIPHER \<Rightarrow> 'c QUIC_CIPHER" where
  "QuicCipherFree cipher = cipher\<lparr>qc_ctx := None\<rparr>"

definition QuicCipherCtxFree :: "'c QUIC_CIPHERS \<Rightarrow> 'c QUIC_CIPHERS" where
  "QuicCipherCtxFree cs =
     cs\<lparr>qcs_hp_cipher := QuicCipherFree (qcs_hp_cipher cs),
        qcs_pp_cipher := (qcs_pp_cipher cs)\<lparr>pp_cipher := QuicCipherFree (pp_cipher (qcs_pp_cipher cs))\<rparr>\<rparr>"

definition QuicCryptoCipherFree :: "'c QuicCipherSpace \<Rightarrow> 'c QuicCipherSpace" where
  "QuicCryptoCipherFree cs = cs\<lparr>csp_ciphers := QuicCipherCtxFree (csp_ciphers cs)\<rparr>"

definition QuicCryptoKeyFree :: "'c QUIC_CRYPTO \<Rightarrow> 'c QUIC_CRYPTO" where
  "QuicCryptoKeyFree c =
     c\<lparr>qy_decrypt := QuicCryptoCipherFree (qy_decrypt c), qy_encrypt := QuicCryptoCipherFree (qy_encrypt c)\<rparr>"

definition QuicCryptoFree :: "'c QUIC_CRYPTO \<Rightarrow> 'c QUIC_CRYPTO" where
  "QuicCryptoFree c = QuicCryptoKeyFree (c\<lparr>qy_sent_queue := QBuffQueueDestroy (qy_sent_queue c)\<rparr>)"

section \<open>The EVP interface\<close>

text \<open>
  The operations of OpenSSL on a context, \<open>None\<close> where they report failure: setting the nonce and the
  direction (\<^verbatim>\<open>EVP_CipherInit\<close> without cipher and key), the nonce length, the expected tag, reading the
  tag, additional data (\<^verbatim>\<open>EVP_CipherUpdate\<close> with no output; the length it stores in \<^verbatim>\<open>*outl\<close>),
  data (its output) and the end (its output).
\<close>

record 'c evp =
  evp_iv :: "'c \<Rightarrow> bytes \<Rightarrow> bool \<Rightarrow> 'c option"
  evp_ivlen :: "'c \<Rightarrow> nat \<Rightarrow> 'c option"
  evp_set_tag :: "'c \<Rightarrow> bytes \<Rightarrow> 'c option"
  evp_get_tag :: "'c \<Rightarrow> nat \<Rightarrow> bytes option"
  evp_aad :: "'c \<Rightarrow> bytes \<Rightarrow> ('c \<times> nat) option"
  evp_update :: "'c \<Rightarrow> bytes \<Rightarrow> ('c \<times> bytes) option"
  evp_final :: "'c \<Rightarrow> ('c \<times> bytes) option"

definition ctxR :: "'c option \<Rightarrow> ('c \<Rightarrow> 'a option) \<Rightarrow> 'a res" where
  "ctxR ctx f = (case ctx of None \<Rightarrow> Inl Null_ptr | Some c \<Rightarrow> (case f c of None \<Rightarrow> Inl Fail | Some x \<Rightarrow> Inr x))"

lemma ctxR_simps [simp]:
  "ctxR None f = Inl Null_ptr" "f c = None \<Longrightarrow> ctxR (Some c) f = Inl Fail" "f c = Some x \<Longrightarrow> ctxR (Some c) f = Inr x"
  by (simp_all add: ctxR_def)

text \<open>The \<^verbatim>\<open>size_t\<close> that receives an \<^verbatim>\<open>int\<close> through a cast pointer keeps its upper half.\<close>

definition set_int :: "u64 \<Rightarrow> nat \<Rightarrow> u64" where
  "set_int outl n = (outl AND NOT (mask 32)) OR ucast (of_nat n :: u32)"

text \<open>A length narrowed to \<^verbatim>\<open>int\<close>, and the input it names.\<close>

definition evp_input :: "bytes \<Rightarrow> int \<Rightarrow> u64 \<Rightarrow> bytes res" where
  "evp_input m p inl =
     (let n = sint (ucast inl :: u32) in if n < 0 then Inl Fail else mem_slice m p (nat n))"

definition QuicEvpCipherInit :: "'c evp \<Rightarrow> 'c option \<Rightarrow> bytes \<Rightarrow> bool \<Rightarrow> 'c res" where
  "QuicEvpCipherInit ev ctx iv enc = ctxR ctx (\<lambda>c. evp_iv ev c iv enc)"

definition QUIC_EVP_CIPHER_set_iv_len :: "'c evp \<Rightarrow> 'c option \<Rightarrow> nat \<Rightarrow> 'c res" where
  "QUIC_EVP_CIPHER_set_iv_len ev ctx len = ctxR ctx (\<lambda>c. evp_ivlen ev c len)"

definition QUIC_EVP_CIPHER_gcm_set_tag :: "'c evp \<Rightarrow> 'c option \<Rightarrow> bytes \<Rightarrow> 'c res" where
  "QUIC_EVP_CIPHER_gcm_set_tag ev ctx tag = ctxR ctx (\<lambda>c. evp_set_tag ev c tag)"

definition QUIC_EVP_CIPHER_gcm_get_tag :: "'c evp \<Rightarrow> 'c option \<Rightarrow> nat \<Rightarrow> bytes res" where
  "QUIC_EVP_CIPHER_gcm_get_tag ev ctx len = ctxR ctx (\<lambda>c. evp_get_tag ev c len)"

text \<open>\<^verbatim>\<open>QuicEvpCipherUpdate\<close> with a null output and with an output at offset \<open>p\<close> of an object.\<close>

definition QuicEvpCipherAad :: "'c evp \<Rightarrow> 'c option \<Rightarrow> u64 \<Rightarrow> bytes \<Rightarrow> ('c \<times> u64) res" where
  "QuicEvpCipherAad ev ctx outl aad =
     bindR (ctxR ctx (\<lambda>c. evp_aad ev c aad)) (\<lambda>(c, n). Inr (c, set_int outl n))"

definition QuicEvpCipherUpdate ::
    "'c evp \<Rightarrow> 'c option \<Rightarrow> bytes \<Rightarrow> int \<Rightarrow> u64 \<Rightarrow> bytes \<Rightarrow> ('c \<times> bytes \<times> u64) res" where
  "QuicEvpCipherUpdate ev ctx out p outl inp =
     bindR (ctxR ctx (\<lambda>c. evp_update ev c inp)) (\<lambda>(c, o1).
     bindR (mem_copy out p o1) (\<lambda>out'. Inr (c, out', set_int outl (length o1))))"

definition QuicEvpCipherFinal :: "'c evp \<Rightarrow> 'c option \<Rightarrow> bytes \<Rightarrow> int \<Rightarrow> u64 \<Rightarrow> ('c \<times> bytes \<times> u64) res" where
  "QuicEvpCipherFinal ev ctx out p outl =
     bindR (ctxR ctx (evp_final ev)) (\<lambda>(c, o1).
     bindR (mem_copy out p o1) (\<lambda>out'. Inr (c, out', set_int outl (length o1))))"

definition QuicDoCipher ::
    "'c evp \<Rightarrow> 'c QUIC_CIPHER \<Rightarrow> bytes \<Rightarrow> int \<Rightarrow> u64 \<Rightarrow> u64 \<Rightarrow> bytes \<Rightarrow> ('c QUIC_CIPHER \<times> bytes \<times> u64) res" where
  "QuicDoCipher ev cipher out p outl out_buf_len inp =
     bindR (QuicEvpCipherUpdate ev (qc_ctx cipher) out p outl inp) (\<lambda>(c1, out1, outl1).
     bindR (assertR (QUIC_LE outl1 out_buf_len)) (\<lambda>_.
     bindR (QuicEvpCipherFinal ev (Some c1) out1 (p + uint outl1) 0) (\<lambda>(c2, out2, len).
     let outl2 = outl1 + len in
     bindR (assertR (QUIC_LE outl2 out_buf_len)) (\<lambda>_.
       Inr (cipher\<lparr>qc_ctx := Some c2\<rparr>, out2, outl2)))))"

section \<open>What the code relies on of EVP\<close>

text \<open>The calls that seal a message and those that open it, with the length stored for the
  additional data.\<close>

definition seal_calls :: "'c evp \<Rightarrow> 'c \<Rightarrow> bytes \<Rightarrow> bytes \<Rightarrow> bytes \<Rightarrow> ('c \<times> nat \<times> bytes \<times> bytes \<times> bytes) option" where
  "seal_calls ev e nonce aad pt =
     Option.bind (evp_iv ev e nonce True) (\<lambda>e1.
     Option.bind (evp_ivlen ev e1 TLS13_AEAD_NONCE_LENGTH) (\<lambda>e2.
     Option.bind (evp_aad ev e2 aad) (\<lambda>(e3, n).
     Option.bind (evp_update ev e3 pt) (\<lambda>(e4, ct).
     Option.bind (evp_final ev e4) (\<lambda>(e5, fin).
     Option.bind (evp_get_tag ev e5 (unat EVP_GCM_TLS_TAG_LEN)) (\<lambda>tag. Some (e5, n, ct, fin, tag)))))))"

definition open_calls :: "'c evp \<Rightarrow> 'c \<Rightarrow> bytes \<Rightarrow> bytes \<Rightarrow> bytes \<Rightarrow> bytes \<Rightarrow> ('c \<times> nat \<times> bytes \<times> bytes) option" where
  "open_calls ev d nonce tag aad ct =
     Option.bind (evp_iv ev d nonce False) (\<lambda>d1.
     Option.bind (evp_ivlen ev d1 TLS13_AEAD_NONCE_LENGTH) (\<lambda>d2.
     Option.bind (evp_set_tag ev d2 tag) (\<lambda>d3.
     Option.bind (evp_aad ev d3 aad) (\<lambda>(d4, n).
     Option.bind (evp_update ev d4 ct) (\<lambda>(d5, pt).
     Option.bind (evp_final ev d5) (\<lambda>(d6, fin). Some (d6, n, pt, fin)))))))"

text \<open>
  Two contexts that share a key: what one seals the other opens, the ciphertext is as long as the
  plaintext, the tag has 16 bytes, and afterwards they still share it.
\<close>

definition aead_spec :: "'c evp \<Rightarrow> ('c \<Rightarrow> 'c \<Rightarrow> bool) \<Rightarrow> bool" where
  "aead_spec ev P \<longleftrightarrow> (\<forall>e d nonce aad pt. P e d \<longrightarrow>
     (\<exists>e' d' ct tag. seal_calls ev e nonce aad pt = Some (e', length aad, ct, [], tag)
        \<and> length ct = length pt \<and> length tag = unat EVP_GCM_TLS_TAG_LEN
        \<and> open_calls ev d nonce tag aad ct = Some (d', length aad, pt, []) \<and> P e' d'))"

text \<open>Two contexts of the header protection cipher that share a key: a 16-byte sample gives both the
  same mask of 16 to 32 bytes.\<close>

definition hp_spec :: "'c evp \<Rightarrow> ('c \<Rightarrow> 'c \<Rightarrow> bool) \<Rightarrow> bool" where
  "hp_spec ev H \<longleftrightarrow> (\<forall>e d s. H e d \<and> length s = 16 \<longrightarrow>
     (\<exists>e1 e' d1 d' m1 m2. evp_update ev e s = Some (e1, m1) \<and> evp_final ev e1 = Some (e', m2)
        \<and> evp_update ev d s = Some (d1, m1) \<and> evp_final ev d1 = Some (d', m2)
        \<and> 16 \<le> length m1 + length m2 \<and> length m1 + length m2 \<le> 32 \<and> H e' d'))"

text \<open>An instance: the keystream is a function of key and nonce, the tag a checksum.\<close>

record demo_ctx =
  dx_key :: u8
  dx_enc :: bool
  dx_iv :: bytes
  dx_sum :: u8
  dx_tag :: bytes

definition demo_stream :: "demo_ctx \<Rightarrow> u8" where
  "demo_stream c = dx_key c + sum_list (dx_iv c)"

definition demo_tag :: "demo_ctx \<Rightarrow> nat \<Rightarrow> bytes" where
  "demo_tag c n = replicate n (dx_sum c + demo_stream c)"

definition demo_evp :: "demo_ctx evp" where
  "demo_evp = \<lparr>
     evp_iv = (\<lambda>c iv enc. Some (c\<lparr>dx_iv := iv, dx_enc := enc, dx_sum := 0, dx_tag := []\<rparr>)),
     evp_ivlen = (\<lambda>c n. Some c),
     evp_set_tag = (\<lambda>c t. Some (c\<lparr>dx_tag := t\<rparr>)),
     evp_get_tag = (\<lambda>c n. Some (demo_tag c n)),
     evp_aad = (\<lambda>c a. Some (c\<lparr>dx_sum := dx_sum c + sum_list a\<rparr>, length a)),
     evp_update = (\<lambda>c x. let y = map (\<lambda>b. b XOR demo_stream c) x
        in Some (c\<lparr>dx_sum := dx_sum c + sum_list (if dx_enc c then y else x)\<rparr>, y)),
     evp_final = (\<lambda>c. if \<not> dx_enc c \<and> dx_tag c \<noteq> demo_tag c 16 then None else Some (c, []))\<rparr>"

lemma map_xor_twice: "map ((\<lambda>b. b XOR k) \<circ> (\<lambda>b. b XOR (k :: u8))) xs = xs"
  by (simp add: comp_def xor.assoc)

lemma demo_aead: "aead_spec demo_evp (\<lambda>e d. dx_key e = dx_key d)"
  by (auto simp: aead_spec_def seal_calls_def open_calls_def demo_evp_def Let_def demo_tag_def
      demo_stream_def EVP_GCM_TLS_TAG_LEN_def map_xor_twice)

lemma demo_hp: "hp_spec demo_evp (\<lambda>e d. dx_key e = dx_key d \<and> dx_enc e \<and> dx_enc d \<and> dx_iv e = dx_iv d)"
  by (auto simp: hp_spec_def demo_evp_def Let_def demo_stream_def)

section \<open>Lemmas\<close>

lemma set_int_0: "n < 2 ^ 31 \<Longrightarrow> set_int 0 n = of_nat n"
  by (simp add: set_int_def unsigned_of_nat take_bit_nat_eq_self)

lemma set_int_small:
  assumes "n < 2 ^ 31" and "unat outl < 2 ^ 32"
  shows "set_int outl n = of_nat n"
proof -
  have "outl < 2 ^ 32" using assms(2) by (simp add: word_less_nat_alt)
  then have "outl AND mask 32 = outl" by (rule less_mask_eq)
  then have "outl AND NOT (mask 32) = 0" by (metis and.assoc and.right_neutral bit.conj_cancel_right bit.conj_zero_right)
  then show ?thesis using assms(1) by (simp add: set_int_def unsigned_of_nat take_bit_nat_eq_self)
qed

lemma evp_input_small: "n < 2 ^ 31 \<Longrightarrow> evp_input m p (of_nat n) = mem_slice m p n"
  by (simp add: evp_input_def ucast_nat31 sint_nat31)

end
