(* ===== verification/Protect.thy ===== *)
theory Protect
  imports Cipher Packet_Write Pkt_Num
begin

text \<open>
  Packet protection (\<^verbatim>\<open>quic/format.c\<close>): the header protection mask, protecting and unprotecting the
  first byte and the packet number, the nonce, and sealing and opening the payload. The packet is one
  object of bytes; the parts of it the C code points at are offsets. When a call of OpenSSL fails the
  context keeps its value here; every use starts by setting it again.
\<close>

section \<open>Operations\<close>

definition QUIC_SAMPLE_LEN :: nat where "QUIC_SAMPLE_LEN = 16"
definition QUIC_PACKET_NUM_MAX_LEN :: nat where "QUIC_PACKET_NUM_MAX_LEN = 4"
definition QUIC_PKT_NUM_MAX :: u64 where "QUIC_PKT_NUM_MAX = 0x3FFFFFFFFFFFFFFF"
definition QUIC_LPACKET_TYPE_RESV_MASK :: u8 where "QUIC_LPACKET_TYPE_RESV_MASK = 0x0F"
definition QUIC_SPACKET_TYPE_RESV_MASK :: u8 where "QUIC_SPACKET_TYPE_RESV_MASK = 0x1F"

definition QuicHPDoCipher ::
    "'c evp \<Rightarrow> 'c QUIC_CIPHER \<Rightarrow> bytes \<Rightarrow> int \<Rightarrow> u64 \<Rightarrow> u64 \<Rightarrow> bytes \<Rightarrow> ('c QUIC_CIPHER \<times> bytes \<times> u64) res" where
  "QuicHPDoCipher ev cipher out p outl out_buf_len inp = QuicDoCipher ev cipher out p outl out_buf_len inp"

definition QuicHPMaskGen ::
    "'c evp \<Rightarrow> 'c QUIC_CIPHER \<Rightarrow> nat \<Rightarrow> bytes \<Rightarrow> int \<Rightarrow> u64 \<Rightarrow> ('c QUIC_CIPHER \<times> bytes) res" where
  "QuicHPMaskGen ev hp mask_out_len m pkt_num_start total_len =
     (let msk = replicate (QUIC_SAMPLE_LEN * 2) (0 :: u8) in
      if qc_ctx hp = None then Inl Fail
      else if total_len < of_nat (QUIC_PACKET_NUM_MAX_LEN + QUIC_SAMPLE_LEN) then Inl Fail
      else
        bindR (mem_slice m (pkt_num_start + int QUIC_PACKET_NUM_MAX_LEN) QUIC_SAMPLE_LEN) (\<lambda>sample.
        bindR (QuicHPDoCipher ev hp msk 0 0 (of_nat (length msk)) sample) (\<lambda>(hp', msk', mask_len).
        bindR (assertR (QUIC_LE mask_len (of_nat (length msk)) \<and> QUIC_GE mask_len (of_nat mask_out_len))) (\<lambda>_.
          Inr (hp', take mask_out_len msk')))))"

text \<open>The loop that unmasks \<open>k\<close> bytes of the packet number from the \<open>i\<close>-th and collects its value;
  \<open>n\<close> is the length of the packet number.\<close>

fun dec_pn_loop :: "bytes \<Rightarrow> int \<Rightarrow> bytes \<Rightarrow> nat \<Rightarrow> nat \<Rightarrow> nat \<Rightarrow> u32 \<Rightarrow> (bytes \<times> u32) res" where
  "dec_pn_loop m p msk n i 0 pkt_num = Inr (m, pkt_num)"
| "dec_pn_loop m p msk n i (Suc k) pkt_num =
     bindR (mem_get m (p + int i)) (\<lambda>b.
     bindR (mem_set m (p + int i) (b XOR msk ! (i + 1))) (\<lambda>m'.
       dec_pn_loop m' p msk n (Suc i) k
         (pkt_num OR push_bit (8 * (n - i - 1)) (ucast (b XOR msk ! (i + 1))))))"

definition QuicDecryptHeader ::
    "'c evp \<Rightarrow> 'c QUIC_CIPHER \<Rightarrow> u32 \<Rightarrow> RPacket \<Rightarrow> u8 \<Rightarrow> ('c QUIC_CIPHER \<times> u32 \<times> u8 \<times> RPacket) res" where
  "QuicDecryptHeader ev hp pkt_num pkt bits_mask =
     bindR (QuicHPMaskGen ev hp QUIC_SAMPLE_LEN (rp_buf pkt) (RPacketData pkt) (RPacketRemaining pkt)) (\<lambda>(hp', msk).
     bindR (mem_get (rp_buf pkt) (RPacketHead pkt)) (\<lambda>h0.
     let h = h0 XOR (msk ! 0 AND bits_mask); pkt_num_len = (h AND 3) + 1 in
     bindR (mem_set (rp_buf pkt) (RPacketHead pkt) h) (\<lambda>m1.
     if RPacketRemaining pkt < ucast pkt_num_len then Inl Fail
     else
       let pkt1 = RPacketForward (pkt\<lparr>rp_buf := m1\<rparr>) (ucast pkt_num_len) in
       bindR (assertR (unat pkt_num_len < QUIC_SAMPLE_LEN)) (\<lambda>_.
       bindR (dec_pn_loop m1 (RPacketData pkt) msk (unat pkt_num_len) 0 (unat pkt_num_len) pkt_num) (\<lambda>(m2, pn).
         Inr (hp', pn, pkt_num_len, pkt1\<lparr>rp_buf := m2\<rparr>))))))"

fun enc_pn_loop :: "bytes \<Rightarrow> int \<Rightarrow> bytes \<Rightarrow> nat \<Rightarrow> nat \<Rightarrow> bytes res" where
  "enc_pn_loop m p msk i 0 = Inr m"
| "enc_pn_loop m p msk i (Suc k) =
     bindR (mem_get m (p + int i)) (\<lambda>b.
     bindR (mem_set m (p + int i) (b XOR msk ! (i + 1))) (\<lambda>m'. enc_pn_loop m' p msk (Suc i) k))"

definition QuicEncryptHeader ::
    "'c evp \<Rightarrow> 'c QUIC_CIPHER \<Rightarrow> bytes \<Rightarrow> int \<Rightarrow> int \<Rightarrow> u64 \<Rightarrow> u8 \<Rightarrow> ('c QUIC_CIPHER \<times> bytes) res" where
  "QuicEncryptHeader ev hp m first_byte pkt_num_start data_len bits_mask =
     bindR (QuicHPMaskGen ev hp QUIC_SAMPLE_LEN m pkt_num_start data_len) (\<lambda>(hp', msk).
     bindR (mem_get m first_byte) (\<lambda>h.
     let pkt_num_len = (h AND 3) + 1 in
     bindR (mem_set m first_byte (h XOR (msk ! 0 AND bits_mask))) (\<lambda>m1.
     bindR (assertR (unat pkt_num_len < QUIC_SAMPLE_LEN)) (\<lambda>_.
     bindR (enc_pn_loop m1 pkt_num_start msk 0 (unat pkt_num_len)) (\<lambda>m2. Inr (hp', m2))))))"

text \<open>The nonce: the packet number is combined with the last eight bytes of the IV.\<close>

fun nonce_loop :: "bytes \<Rightarrow> u64 \<Rightarrow> nat \<Rightarrow> nat \<Rightarrow> bytes res" where
  "nonce_loop nonce pkt_num i 0 = Inr nonce"
| "nonce_loop nonce pkt_num i (Suc k) =
     (let p = int (TLS13_AEAD_NONCE_LENGTH - 1 - i) in
      bindR (mem_get nonce p) (\<lambda>b.
      bindR (mem_set nonce p (b XOR ucast (drop_bit (8 * i) pkt_num AND 0xFF))) (\<lambda>nonce'.
        nonce_loop nonce' pkt_num (Suc i) k)))"

definition QuicCryptoSetIV :: "'c evp \<Rightarrow> 'c QuicPPCipher \<Rightarrow> u64 \<Rightarrow> 'c QuicPPCipher res" where
  "QuicCryptoSetIV ev cipher pkt_num =
     (let c = pp_cipher cipher in
      bindR (mem_slice (pp_iv cipher) 0 TLS13_AEAD_NONCE_LENGTH) (\<lambda>nonce0.
      bindR (nonce_loop nonce0 pkt_num 0 8) (\<lambda>nonce.
      bindR (QuicEvpCipherInit ev (qc_ctx c) nonce (qc_enc c)) (\<lambda>x1.
      bindR (QUIC_EVP_CIPHER_set_iv_len ev (Some x1) (length nonce)) (\<lambda>x2.
        Inr (cipher\<lparr>pp_cipher := c\<lparr>qc_ctx := Some x2\<rparr>\<rparr>))))))"

definition pp_set_ctx :: "'c QuicPPCipher \<Rightarrow> 'c \<Rightarrow> 'c QuicPPCipher" where
  "pp_set_ctx pp x = pp\<lparr>pp_cipher := (pp_cipher pp)\<lparr>qc_ctx := Some x\<rparr>\<rparr>"

definition QuicDecryptMessage ::
    "'c evp \<Rightarrow> 'c QuicPPCipher \<Rightarrow> bytes \<Rightarrow> u64 \<Rightarrow> u64 \<Rightarrow> u64 \<Rightarrow> RPacket \<Rightarrow> ('c QuicPPCipher \<times> bytes \<times> u64) res" where
  "QuicDecryptMessage ev cipher out outl out_buf_len pkt_num pkt =
     (let data_len = RPacketRemaining pkt;
          header_len = ucast (RPacketTotalLen pkt - data_len) :: u32
      in
      bindR (assertR (0 < sint header_len)) (\<lambda>_.
      bindR (QuicCryptoSetIV ev cipher pkt_num) (\<lambda>pp1.
      bindR (QuicCipherGetTagLen (qc_alg (pp_cipher pp1))) (\<lambda>tag_len.
      if data_len < ucast tag_len then Inl Fail
      else
        bindR (if tag_len = 0 then Inr pp1
               else
                 bindR (mem_slice (rp_buf pkt) (RPacketData pkt + uint (data_len - ucast tag_len)) (unat tag_len)) (\<lambda>tag.
                 bindR (QUIC_EVP_CIPHER_gcm_set_tag ev (qc_ctx (pp_cipher pp1)) tag) (\<lambda>x. Inr (pp_set_ctx pp1 x))))
              (\<lambda>pp2.
        bindR (evp_input (rp_buf pkt) (RPacketHead pkt) (scast header_len)) (\<lambda>head.
        bindR (QuicEvpCipherAad ev (qc_ctx (pp_cipher pp2)) outl head) (\<lambda>(x3, outl3).
        bindR (assertR (QUIC_LT outl3 out_buf_len)) (\<lambda>_.
        bindR (evp_input (rp_buf pkt) (RPacketData pkt) (data_len - ucast tag_len)) (\<lambda>inp.
        bindR (QuicDoCipher ev (pp_cipher (pp_set_ctx pp2 x3)) out 0 outl3 out_buf_len inp) (\<lambda>(c, out', outl').
          Inr (pp2\<lparr>pp_cipher := c\<rparr>, out', outl')))))))))))"

text \<open>The output is at offset \<open>p\<close> of the object \<open>m\<close>. A tag that cannot be read is only logged.\<close>

definition QuicEncryptMessage ::
    "'c evp \<Rightarrow> 'c QuicPPCipher \<Rightarrow> bytes \<Rightarrow> int \<Rightarrow> u64 \<Rightarrow> u64 \<Rightarrow> bytes \<Rightarrow> u64 \<Rightarrow> bytes \<Rightarrow>
     ('c QuicPPCipher \<times> bytes \<times> u64) res" where
  "QuicEncryptMessage ev cipher m p outl out_buf_len head pkt_num inp =
     bindR (QuicCryptoSetIV ev cipher pkt_num) (\<lambda>pp1.
     bindR (QuicEvpCipherAad ev (qc_ctx (pp_cipher pp1)) outl head) (\<lambda>(x2, outl2).
     bindR (assertR (QUIC_LT outl2 out_buf_len)) (\<lambda>_.
     bindR (QuicDoCipher ev (pp_cipher (pp_set_ctx pp1 x2)) m p outl2 out_buf_len inp) (\<lambda>(c, m3, outl3).
     bindR (QuicCipherGetTagLen (qc_alg c)) (\<lambda>tag_len.
     let pp3 = pp1\<lparr>pp_cipher := c\<rparr> in
     if tag_len = 0 then Inr (pp3, m3, outl3)
     else if outl3 + ucast tag_len > out_buf_len then Inl Fail
     else
       (case QUIC_EVP_CIPHER_gcm_get_tag ev (qc_ctx c) (unat tag_len) of
          Inl Null_ptr \<Rightarrow> Inl Null_ptr
        | Inl _ \<Rightarrow> Inr (pp3, m3, outl3 + ucast tag_len)
        | Inr tag \<Rightarrow> bindR (mem_copy m3 (p + uint outl3) tag) (\<lambda>m4. Inr (pp3, m4, outl3 + ucast tag_len))))))))"

definition QuicTokenVerify :: "QUIC_DATA \<Rightarrow> bytes \<Rightarrow> int \<Rightarrow> u64 \<Rightarrow> unit res" where
  "QuicTokenVerify token m p len =
     (if len = 0 then Inr ()
      else case qd_data token of
        None \<Rightarrow> Inl Fail
      | Some t \<Rightarrow>
          if qd_len token \<noteq> len then Inl Fail
          else bindR (mem_slice t 0 (unat len)) (\<lambda>a.
               bindR (mem_slice m p (unat len)) (\<lambda>b. guardR (a = b))))"

text \<open>Opening a packet: the time is taken first; the packet number is recovered for the largest seen, while
  the nonce is made from the number as it stands in the header.\<close>

definition QuicDecryptPacket ::
    "env \<Rightarrow> 'c evp \<Rightarrow> 'c QUIC_CRYPTO \<Rightarrow> RPacket \<Rightarrow> bytes \<Rightarrow> u64 \<Rightarrow> u64 \<Rightarrow> u8 \<Rightarrow>
     'c QUIC_CRYPTO \<times> (RPacket \<times> bytes \<times> u64) res" where
  "QuicDecryptPacket e ev c0 pkt buf len buf_size bit_mask =
     (let c = c0\<lparr>qy_arriv_time := env_now e\<rparr>; cs = qy_decrypt c; ciphers = csp_ciphers cs in
      case QuicDecryptHeader ev (qcs_hp_cipher ciphers) 0 pkt bit_mask of
        Inl err \<Rightarrow> (c, Inl err)
      | Inr (hp, h_pkt_num, pkt_num_len, pkt1) \<Rightarrow>
          let ciphers1 = ciphers\<lparr>qcs_hp_cipher := hp\<rparr>;
              c1 = c\<lparr>qy_decrypt := cs\<lparr>csp_ciphers := ciphers1\<rparr>\<rparr> in
          case QuicPktNumberDecode (qy_largest_pn c1) h_pkt_num (unat (pkt_num_len * 8)) of
            Inl err \<Rightarrow> (c1, Inl err)
          | Inr pkt_num \<Rightarrow>
              if pkt_num = QUIC_PKT_NUM_MAX then (c1, Inl Fail)
              else case QuicDecryptMessage ev (qcs_pp_cipher ciphers1) buf len buf_size (ucast h_pkt_num) pkt1 of
                Inl err \<Rightarrow> (c1, Inl err)
              | Inr (pp, buf', len') \<Rightarrow>
                  let c2 = c1\<lparr>qy_decrypt := cs\<lparr>csp_ciphers := ciphers1\<lparr>qcs_pp_cipher := pp\<rparr>\<rparr>\<rparr>;
                      c3 = (if QUIC_LT (qy_largest_pn c2) pkt_num then c2\<lparr>qy_largest_pn := pkt_num\<rparr> else c2)
                  in (c3, Inr (pkt1, buf', len')))"

section \<open>Header protection\<close>

lemma mem_get_at: "p = int (length xs) \<Longrightarrow> mem_get (xs @ y # zs) p = Inr y"
  by (simp add: mem_get_def)

lemma mem_set_at: "p = int (length xs) \<Longrightarrow> mem_set (xs @ y # zs) p b = Inr (xs @ b # zs)"
  by (simp add: mem_set_def)

lemma mem_slice_at: "p = int (length xs) \<Longrightarrow> n = length ys \<Longrightarrow> mem_slice (xs @ ys @ zs) p n = Inr ys"
  by (simp add: mem_slice_append)

text \<open>Masking a packet number byte by byte.\<close>

fun xor_bytes :: "bytes \<Rightarrow> bytes \<Rightarrow> bytes" where
  "xor_bytes (a # as) (b # bs) = (a XOR b) # xor_bytes as bs"
| "xor_bytes _ _ = []"

lemma xor_bytes_twice: "length a \<le> length b \<Longrightarrow> xor_bytes (xor_bytes a b) b = a"
  by (induction a b rule: xor_bytes.induct) (simp_all add: xor.assoc)

lemma length_xor_bytes [simp]: "length (xor_bytes a b) = min (length a) (length b)"
  by (induction a b rule: xor_bytes.induct) simp_all

lemma enc_pn_loop_ok:
  "length msk = length u + 1 + length todo + k \<Longrightarrow> i = length u \<Longrightarrow>
   enc_pn_loop (xs @ u @ todo @ zs) (int (length xs)) msk i (length todo) =
     Inr (xs @ u @ xor_bytes todo (drop (i + 1) msk) @ zs)"
proof (induction todo arbitrary: u i)
  case Nil
  then show ?case by simp
next
  case (Cons b todo)
  have g: "mem_get (xs @ u @ (b # todo) @ zs) (int (length xs) + int i) = Inr b"
    using mem_get_at[of _ "xs @ u" b "todo @ zs"] Cons.prems by simp
  have s: "mem_set (xs @ u @ (b # todo) @ zs) (int (length xs) + int i) c = Inr (xs @ (u @ [c]) @ todo @ zs)" for c
    using mem_set_at[of _ "xs @ u" b "todo @ zs"] Cons.prems by simp
  have d: "drop (i + 1) msk = msk ! (i + 1) # drop (Suc i + 1) msk"
    using Cons.prems by (simp add: Cons_nth_drop_Suc)
  have "enc_pn_loop (xs @ (u @ [b XOR msk ! (i + 1)]) @ todo @ zs) (int (length xs)) msk (Suc i) (length todo) =
     Inr (xs @ (u @ [b XOR msk ! (i + 1)]) @ xor_bytes todo (drop (Suc i + 1) msk) @ zs)"
    by (rule Cons.IH) (use Cons.prems in simp_all)
  then show ?case unfolding enc_pn_loop.simps list.size(4) add_Suc_right add_0_right
    using g s d by simp
qed

text \<open>The value the decoder collects from \<open>k\<close> bytes that are left of \<open>n\<close>.\<close>

fun pn_collect :: "nat \<Rightarrow> bytes \<Rightarrow> u32 \<Rightarrow> u32" where
  "pn_collect k [] v = v"
| "pn_collect k (b # bs) v = pn_collect (k - 1) bs (v OR push_bit (8 * (k - 1)) (ucast b))"

lemma dec_pn_loop_ok:
  "length msk = length u + 1 + length todo + k \<Longrightarrow> i = length u \<Longrightarrow> n = i + length todo \<Longrightarrow>
   dec_pn_loop (xs @ u @ todo @ zs) (int (length xs)) msk n i (length todo) v =
     Inr (xs @ u @ xor_bytes todo (drop (i + 1) msk) @ zs,
          pn_collect (n - i) (xor_bytes todo (drop (i + 1) msk)) v)"
proof (induction todo arbitrary: u i v)
  case Nil
  then show ?case by simp
next
  case (Cons b todo)
  let ?c = "b XOR msk ! (i + 1)"
  have g: "mem_get (xs @ u @ (b # todo) @ zs) (int (length xs) + int i) = Inr b"
    using mem_get_at[of _ "xs @ u" b "todo @ zs"] Cons.prems by simp
  have s: "mem_set (xs @ u @ (b # todo) @ zs) (int (length xs) + int i) c = Inr (xs @ (u @ [c]) @ todo @ zs)" for c
    using mem_set_at[of _ "xs @ u" b "todo @ zs"] Cons.prems by simp
  have d: "drop (i + 1) msk = msk ! (i + 1) # drop (Suc i + 1) msk"
    using Cons.prems by (simp add: Cons_nth_drop_Suc)
  have "dec_pn_loop (xs @ (u @ [?c]) @ todo @ zs) (int (length xs)) msk n (Suc i) (length todo)
       (v OR push_bit (8 * (n - i - 1)) (ucast ?c)) =
     Inr (xs @ (u @ [?c]) @ xor_bytes todo (drop (Suc i + 1) msk) @ zs,
       pn_collect (n - Suc i) (xor_bytes todo (drop (Suc i + 1) msk)) (v OR push_bit (8 * (n - i - 1)) (ucast ?c)))"
    by (rule Cons.IH) (use Cons.prems in simp_all)
  then show ?case unfolding dec_pn_loop.simps list.size(4) add_Suc_right add_0_right
    using g s d by (simp only: bindR_simps) simp
qed

lemma pn_collect_be_word:
  "length bs \<in> {1, 2, 3, 4} \<Longrightarrow> pn_collect (length bs) bs 0 = be_word bs"
proof -
  assume "length bs \<in> {1, 2, 3, 4}"
  then consider (a) x where "bs = [x]" | (b) x y where "bs = [x, y]" | (c) x y z where "bs = [x, y, z]"
    | (d) x y z w where "bs = [x, y, z, w]"
    by (auto simp: length_Suc_conv eval_nat_numeral)
  then show ?thesis
    by cases (simp_all add: be_word_def push_bit_or or.assoc)
qed

text \<open>Both ends draw the same mask from the sample.\<close>

lemma hp_mask_pair:
  assumes "hp_spec ev H" and "qc_ctx hpe = Some e" and "qc_ctx hpd = Some d" and "H e d" and "length s = 16"
    and "20 \<le> unat len"
  shows "\<exists>e' d' msk. H e' d' \<and> length msk = 16
    \<and> (\<forall>m p. mem_slice m (p + 4) 16 = Inr s \<longrightarrow> QuicHPMaskGen ev hpe 16 m p len = Inr (hpe\<lparr>qc_ctx := Some e'\<rparr>, msk))
    \<and> (\<forall>m p. mem_slice m (p + 4) 16 = Inr s \<longrightarrow> QuicHPMaskGen ev hpd 16 m p len = Inr (hpd\<lparr>qc_ctx := Some d'\<rparr>, msk))"
proof -
  obtain e1 e' d1 d' m1 m2 where s: "evp_update ev e s = Some (e1, m1)" "evp_final ev e1 = Some (e', m2)"
      "evp_update ev d s = Some (d1, m1)" "evp_final ev d1 = Some (d', m2)"
      "16 \<le> length m1 + length m2" "length m1 + length m2 \<le> 32" "H e' d'"
    using assms(1,4,5) unfolding hp_spec_def by blast
  let ?z = "replicate 32 (0 :: u8)"
  have z1: "mem_copy ?z 0 m1 = Inr (m1 @ replicate (32 - length m1) 0)"
    using s(6) by (cases "m1 = []") (auto simp: mem_copy_def)
  have z2: "mem_copy (m1 @ replicate (32 - length m1) 0) (int (length m1)) m2
      = Inr (m1 @ m2 @ replicate (32 - length m1 - length m2) 0)"
    using s(6) by (cases "m2 = []") (auto simp: mem_copy_def)
  have l1: "set_int 0 (length m1) = of_nat (length m1)" "set_int 0 (length m2) = of_nat (length m2)"
    using s(6) by (simp_all add: set_int_0)
  have u1: "uint (of_nat (length m1) :: u64) = int (length m1)"
    using s(6) by (simp add: unsigned_of_nat take_bit_nat_eq_self)
  have cmp: "QUIC_LE (of_nat (length m1) :: u64) 32" "QUIC_LE (of_nat (length m1) + of_nat (length m2) :: u64) 32"
      "QUIC_GE (of_nat (length m1) + of_nat (length m2) :: u64) 16"
    using s(5,6) by (simp_all add: quic_cmp_unat of_nat_unat64 flip: of_nat_add)
  have doc: "QuicDoCipher ev hp ?z 0 0 32 s =
      Inr (hp\<lparr>qc_ctx := Some x'\<rparr>, m1 @ m2 @ replicate (32 - length m1 - length m2) 0, of_nat (length m1) + of_nat (length m2))"
    if "qc_ctx hp = Some x" "evp_update ev x s = Some (x1, m1)" "evp_final ev x1 = Some (x', m2)" for hp x x1 x'
    using that z1 z2 l1 u1 cmp
    by (simp add: QuicDoCipher_def QuicEvpCipherUpdate_def QuicEvpCipherFinal_def Let_def)
  let ?msk = "take 16 (m1 @ m2)"
  have msk: "take 16 (m1 @ m2 @ replicate (32 - length m1 - length m2) 0) = ?msk" using s(5) by simp
  have gen: "QuicHPMaskGen ev hp 16 m p len = Inr (hp\<lparr>qc_ctx := Some x'\<rparr>, ?msk)"
    if "qc_ctx hp = Some x" "evp_update ev x s = Some (x1, m1)" "evp_final ev x1 = Some (x', m2)"
       "mem_slice m (p + 4) 16 = Inr s" for hp x x1 x' m p
    using doc[OF that(1-3)] that assms(6) cmp msk
    by (simp add: QuicHPMaskGen_def Let_def QUIC_SAMPLE_LEN_def QUIC_PACKET_NUM_MAX_LEN_def QuicHPDoCipher_def
        word_less_nat_alt not_less)
  show ?thesis
    using s gen[OF assms(2) s(1,2)] gen[OF assms(3) s(3,4)]
    by (intro exI[of _ e'] exI[of _ d'] exI[of _ ?msk]) auto
qed

text \<open>A packet of the form first byte, rest of the header, packet number, payload, at an offset.\<close>

lemma sample_at:
  assumes "p = int (length xs)" and "length pn \<le> 4" and "20 \<le> length pn + length rest"
  shows "mem_slice (xs @ pn @ rest) (p + 4) 16 = Inr (take 16 (drop (4 - length pn) rest))"
proof -
  have "xs @ pn @ rest = (xs @ pn @ take (4 - length pn) rest) @ take 16 (drop (4 - length pn) rest)
      @ drop 16 (drop (4 - length pn) rest)"
    by (simp del: drop_drop)
  then show ?thesis
    by (simp only:) (rule mem_slice_at; use assms in simp)
qed

lemma and3_cases: "unat ((h :: u8) AND 3) < 4"
proof -
  have "h AND mask 2 < 2 ^ 2" by (rule and_mask_less') simp
  then show ?thesis by (simp add: word_less_nat_alt mask_eq_exp_minus_1)
qed

lemma pn_len_unat: "unat ((h :: u8) AND 3) + 1 = n \<Longrightarrow> unat ((h AND 3) + 1) = n \<and> ((h AND 3) + 1) = of_nat n"
proof -
  assume n: "unat (h AND 3) + 1 = n"
  then have "unat ((h AND 3) + 1) = n" using and3_cases[of h] by (simp add: unat_word_ariths)
  moreover have "(h AND 3) + 1 = of_nat (unat ((h AND 3) + 1))" by simp
  ultimately show ?thesis by metis
qed

lemma header_protection_pair:
  assumes "hp_spec ev H" and "qc_ctx hpe = Some e" and "qc_ctx hpd = Some d" and "H e d"
    and "length pn = unat (f AND 3) + 1" and "20 \<le> length pn + length rest" and "length pn + length rest < 2 ^ 31"
    and "len = of_nat (length pn + length rest)"
  shows "\<exists>e' d' g x. H e' d' \<and> length x = length pn \<and>
    (\<forall>pre ys. QuicEncryptHeader ev hpe (pre @ f # mid @ pn @ rest @ ys) (int (length pre))
         (int (length pre) + 1 + int (length mid)) len bits
       = Inr (hpe\<lparr>qc_ctx := Some e'\<rparr>, pre @ g # mid @ x @ rest @ ys)) \<and>
    (\<forall>pre ys tot p. p = int (length pre) + 1 + int (length mid) \<longrightarrow>
       QuicDecryptHeader ev hpd 0 \<lparr>rp_buf = pre @ g # mid @ x @ rest @ ys, rp_head = int (length pre), rp_curr = p,
           rp_total = tot, rp_remaining = len\<rparr> bits
       = Inr (hpd\<lparr>qc_ctx := Some d'\<rparr>, be_word pn, of_nat (length pn),
           RPacketForward \<lparr>rp_buf = pre @ f # mid @ pn @ rest @ ys, rp_head = int (length pre), rp_curr = p,
             rp_total = tot, rp_remaining = len\<rparr> (of_nat (length pn))))"
proof -
  let ?s = "take 16 (drop (4 - length pn) rest)"
  have pn4: "length pn \<le> 4" "length pn \<noteq> 0" using assms(5) and3_cases[of f] by linarith+
  then have pn_in: "length pn \<in> {1, 2, 3, 4}" by (simp only: insert_iff empty_iff) linarith
  have l: "unat len = length pn + length rest" using assms(7,8) by (simp add: of_nat_unat64 flip: of_nat_add)
  have "length ?s = 16" using assms(6) pn4 by simp
  from hp_mask_pair[OF assms(1-4) this, of len] obtain e' d' k where k: "H e' d'" "length k = 16"
      "\<And>m p. mem_slice m (p + 4) 16 = Inr ?s \<Longrightarrow> QuicHPMaskGen ev hpe 16 m p len = Inr (hpe\<lparr>qc_ctx := Some e'\<rparr>, k)"
      "\<And>m p. mem_slice m (p + 4) 16 = Inr ?s \<Longrightarrow> QuicHPMaskGen ev hpd 16 m p len = Inr (hpd\<lparr>qc_ctx := Some d'\<rparr>, k)"
    using l assms(6) by auto
  let ?g = "f XOR (k ! 0 AND bits)" and ?x = "xor_bytes pn (drop 1 k)"
  have x: "length ?x = length pn" using k(2) pn4 by simp
  have n: "unat ((f AND 3) + 1) = length pn" "(f AND 3) + 1 = of_nat (length pn)"
    using pn_len_unat[OF assms(5)[symmetric]] by auto
  have a: "?g XOR (k ! 0 AND bits) = f" by (simp add: xor.assoc)
  have samp: "mem_slice (xs @ y @ rest @ ys) (int (length xs) + 4) 16 = Inr ?s" if "length y = length pn" for xs y ys
    using sample_at[of "int (length xs)" xs y "rest @ ys"] that pn4(1) assms(6) by simp
  have E: "QuicEncryptHeader ev hpe (pre @ f # mid @ pn @ rest @ ys) (int (length pre))
         (int (length pre) + 1 + int (length mid)) len bits
       = Inr (hpe\<lparr>qc_ctx := Some e'\<rparr>, pre @ ?g # mid @ ?x @ rest @ ys)" for pre ys
  proof -
    let ?p = "int (length pre) + 1 + int (length mid)"
    have enc: "enc_pn_loop (pre @ ?g # mid @ pn @ rest @ ys) ?p k 0 (length pn) = Inr (pre @ ?g # mid @ ?x @ rest @ ys)"
      using enc_pn_loop_ok[of k "[]" pn "16 - 1 - length pn" 0 "pre @ ?g # mid" "rest @ ys"] k(2) pn4 by (simp add: ac_simps)
    have s1: "mem_slice (pre @ f # mid @ pn @ rest @ ys) (?p + 4) 16 = Inr ?s"
      using samp[of pn "pre @ f # mid" ys] by (simp add: ac_simps)
    show ?thesis using k(3)[OF s1] n pn4 enc
      by (simp add: QuicEncryptHeader_def QUIC_SAMPLE_LEN_def mem_get_at mem_set_at Let_def)
  qed
  have r: "\<not> len < ucast ((of_nat (length pn)) :: u8)"
    using l pn4 assms(6) by (simp add: word_less_nat_alt unsigned_of_nat take_bit_nat_eq_self of_nat_unat64)
  have c: "ucast (of_nat (length pn) :: u8) = (of_nat (length pn) :: u64)"
    using pn4 by (simp add: unsigned_of_nat take_bit_nat_eq_self)
  have D: "QuicDecryptHeader ev hpd 0 \<lparr>rp_buf = pre @ ?g # mid @ ?x @ rest @ ys, rp_head = int (length pre), rp_curr = p,
           rp_total = tot, rp_remaining = len\<rparr> bits
       = Inr (hpd\<lparr>qc_ctx := Some d'\<rparr>, be_word pn, of_nat (length pn),
           RPacketForward \<lparr>rp_buf = pre @ f # mid @ pn @ rest @ ys, rp_head = int (length pre), rp_curr = p,
             rp_total = tot, rp_remaining = len\<rparr> (of_nat (length pn)))"
    if p: "p = int (length pre) + 1 + int (length mid)" for pre ys tot p
  proof -
    have p1: "p = int (length (pre @ f # mid))" using p by simp
    have dec: "dec_pn_loop (pre @ f # mid @ ?x @ rest @ ys) p k (length pn) 0 (length pn) 0 =
        Inr (pre @ f # mid @ pn @ rest @ ys, be_word pn)"
    proof -
      have "length k = length ([] :: bytes) + 1 + length ?x + (15 - length pn)" using k(2) pn4 unfolding x by simp
      from dec_pn_loop_ok[OF this refl, where n = "length pn" and xs = "pre @ f # mid" and zs = "rest @ ys" and v = 0]
      have "dec_pn_loop ((pre @ f # mid) @ [] @ ?x @ rest @ ys) p k (length pn) 0 (length pn) 0 =
          Inr ((pre @ f # mid) @ [] @ xor_bytes ?x (drop 1 k) @ rest @ ys, pn_collect (length pn) (xor_bytes ?x (drop 1 k)) 0)"
        unfolding x p1[symmetric] by simp
      moreover have "xor_bytes ?x (drop 1 k) = pn" using k(2) pn4 by (intro xor_bytes_twice) simp
      ultimately show ?thesis using pn_collect_be_word[OF pn_in] by simp
    qed
    have s2: "mem_slice (pre @ ?g # mid @ ?x @ rest @ ys) (p + 4) 16 = Inr ?s"
      using samp[OF x, of "pre @ ?g # mid" ys] p by (simp add: ac_simps)
    show ?thesis using k(4)[OF s2] n pn4 dec a r c
      by (simp add: QuicDecryptHeader_def QUIC_SAMPLE_LEN_def mem_get_at mem_set_at Let_def RPacketRemaining_def
          RPacketData_def RPacketHead_def RPacketForward_def)
  qed
  show ?thesis using k(1) x E D by blast
qed

text \<open>C14: header protection round trip: what \<^verbatim>\<open>QuicEncryptHeader\<close> does to the first byte and the packet
  number of a packet, \<^verbatim>\<open>QuicDecryptHeader\<close> undoes at an endpoint that shares the header protection key,
  and it returns the packet number and its length and leaves the packet at the payload.\<close>

theorem header_protection_roundtrip:
  assumes "hp_spec ev H" and "qc_ctx hpe = Some e" and "qc_ctx hpd = Some d" and "H e d"
    and "length pn = unat (f AND 3) + 1" and "20 \<le> length pn + length rest" and "length pn + length rest < 2 ^ 31"
    and "p = int (length pre) + 1 + int (length mid)" and "len = of_nat (length pn + length rest)"
  shows "\<exists>e' d' m'. H e' d' \<and>
    QuicEncryptHeader ev hpe (pre @ f # mid @ pn @ rest) (int (length pre)) p len bits = Inr (hpe\<lparr>qc_ctx := Some e'\<rparr>, m') \<and>
    QuicDecryptHeader ev hpd 0 \<lparr>rp_buf = m', rp_head = int (length pre), rp_curr = p, rp_total = tot, rp_remaining = len\<rparr> bits
      = Inr (hpd\<lparr>qc_ctx := Some d'\<rparr>, be_word pn, of_nat (length pn),
             RPacketForward \<lparr>rp_buf = pre @ f # mid @ pn @ rest, rp_head = int (length pre), rp_curr = p,
                             rp_total = tot, rp_remaining = len\<rparr> (of_nat (length pn)))"
proof -
  from header_protection_pair[OF assms(1-7,9), of mid bits] obtain e' d' g x where h: "H e' d'"
    and en: "\<And>pre ys. QuicEncryptHeader ev hpe (pre @ f # mid @ pn @ rest @ ys) (int (length pre))
         (int (length pre) + 1 + int (length mid)) len bits = Inr (hpe\<lparr>qc_ctx := Some e'\<rparr>, pre @ g # mid @ x @ rest @ ys)"
    and de: "\<And>pre ys tot p. p = int (length pre) + 1 + int (length mid) \<Longrightarrow>
       QuicDecryptHeader ev hpd 0 \<lparr>rp_buf = pre @ g # mid @ x @ rest @ ys, rp_head = int (length pre), rp_curr = p,
           rp_total = tot, rp_remaining = len\<rparr> bits
       = Inr (hpd\<lparr>qc_ctx := Some d'\<rparr>, be_word pn, of_nat (length pn),
           RPacketForward \<lparr>rp_buf = pre @ f # mid @ pn @ rest @ ys, rp_head = int (length pre), rp_curr = p,
             rp_total = tot, rp_remaining = len\<rparr> (of_nat (length pn)))"
    by blast
  show ?thesis using h en[of pre "[]"] de[OF assms(8), of "[]" tot] assms(8)
    by (intro exI[of _ e'] exI[of _ d'] exI[of _ "pre @ g # mid @ x @ rest"]) simp
qed

definition demo_key :: demo_ctx where
  "demo_key = \<lparr>dx_key = 7, dx_enc = True, dx_iv = [], dx_sum = 0, dx_tag = []\<rparr>"

definition demo_hp_cipher :: "demo_ctx QUIC_CIPHER" where
  "demo_hp_cipher = \<lparr>qc_alg = QUIC_ALG_AES_128_ECB, qc_enc = True, qc_ctx = Some demo_key\<rparr>"

theorem header_protection_roundtrip_witness:
  "\<exists>e' d' m'.
    QuicEncryptHeader demo_evp demo_hp_cipher ([] @ 0x41 # [9, 9] @ [1, 2] @ replicate 20 5) 0 3 22 0x1F
      = Inr (demo_hp_cipher\<lparr>qc_ctx := Some e'\<rparr>, m') \<and>
    QuicDecryptHeader demo_evp demo_hp_cipher 0
        \<lparr>rp_buf = m', rp_head = 0, rp_curr = 3, rp_total = 25, rp_remaining = 22\<rparr> 0x1F
      = Inr (demo_hp_cipher\<lparr>qc_ctx := Some d'\<rparr>, be_word [1, 2], 2,
             RPacketForward \<lparr>rp_buf = [] @ 0x41 # [9, 9] @ [1, 2] @ replicate 20 5, rp_head = 0, rp_curr = 3,
                rp_total = 25, rp_remaining = 22\<rparr> 2)"
proof -
  have c: "qc_ctx demo_hp_cipher = Some demo_key" by (simp add: demo_hp_cipher_def)
  have k: "dx_key demo_key = dx_key demo_key \<and> dx_enc demo_key \<and> dx_enc demo_key \<and> dx_iv demo_key = dx_iv demo_key"
    by (simp add: demo_key_def)
  have n: "length [1, 2 :: u8] = unat ((0x41 :: u8) AND 3) + 1" by simp
  have l: "20 \<le> length [1, 2 :: u8] + length (replicate 20 (5 :: u8))"
    "length [1, 2 :: u8] + length (replicate 20 (5 :: u8)) < 2 ^ 31"
    "(3 :: int) = int (length ([] :: bytes)) + 1 + int (length [9, 9 :: u8])"
    "(22 :: u64) = of_nat (length [1, 2 :: u8] + length (replicate 20 (5 :: u8)))"
    by simp_all
  from header_protection_roundtrip[OF demo_hp c c k n l, of "0x1F" 25] show ?thesis
    by (simp only: list.size of_nat_0 of_nat_add of_nat_1 add_0 add_Suc_right One_nat_def[symmetric]) auto
qed

section \<open>Sealing and opening\<close>

text \<open>The nonce of RFC 9001, section 5.3: the packet number, left-padded, combined with the IV.\<close>

definition nonce_of :: "bytes \<Rightarrow> u64 \<Rightarrow> bytes" where
  "nonce_of iv pn = xor_bytes iv (replicate 4 0 @ be_bytes 8 pn)"

lemma and_ff: "ucast ((x :: u64) AND 0xFF) = (ucast x :: u8)"
proof -
  have m: "(0xFF :: u64) = mask 8" by (simp add: mask_eq_exp_minus_1)
  show ?thesis unfolding m by (rule bit_eqI) (auto simp: bit_simps)
qed

lemma nonce_loop_ok:
  assumes "length iv = 12"
  shows "nonce_loop iv pn 0 8 = Inr (nonce_of iv pn)"
proof -
  from assms obtain a0 a1 a2 a3 a4 a5 a6 a7 a8 a9 a10 a11 where
    iv: "iv = [a0, a1, a2, a3, a4, a5, a6, a7, a8, a9, a10, a11]"
    by (auto simp: length_Suc_conv eval_nat_numeral)
  show ?thesis
    unfolding iv
    by (simp add: nonce_of_def and_ff mem_get_def mem_set_def TLS13_AEAD_NONCE_LENGTH_def Let_def eval_nat_numeral)
qed

lemma length_nonce_of: "length iv = 12 \<Longrightarrow> length (nonce_of iv pn) = 12"
  by (simp add: nonce_of_def length_be_bytes)

lemma SetIV_ok:
  assumes "length (pp_iv pp) = 12" and "qc_ctx (pp_cipher pp) = Some x"
    and "evp_iv ev x (nonce_of (pp_iv pp) pn) (qc_enc (pp_cipher pp)) = Some x1" and "evp_ivlen ev x1 TLS13_AEAD_NONCE_LENGTH = Some x2"
  shows "QuicCryptoSetIV ev pp pn = Inr (pp_set_ctx pp x2)"
proof -
  have "mem_slice (pp_iv pp) 0 TLS13_AEAD_NONCE_LENGTH = Inr (pp_iv pp)"
    using assms(1) by (simp add: mem_slice_def TLS13_AEAD_NONCE_LENGTH_def)
  moreover have "length (nonce_of (pp_iv pp) pn) = TLS13_AEAD_NONCE_LENGTH"
    using length_nonce_of[OF assms(1)] by (simp add: TLS13_AEAD_NONCE_LENGTH_def)
  ultimately show ?thesis
    using assms nonce_loop_ok[OF assms(1)]
    by (simp add: QuicCryptoSetIV_def Let_def QuicEvpCipherInit_def QUIC_EVP_CIPHER_set_iv_len_def pp_set_ctx_def)
qed

lemma DoCipher_ok:
  assumes "qc_ctx c = Some x" and "evp_update ev x inp = Some (x1, o1)" and "evp_final ev x1 = Some (x2, [])"
    and "mem_copy out p o1 = Inr out'" and "unat outl < 2 ^ 32" and "length o1 \<le> unat obl" and "unat obl < 2 ^ 31"
  shows "QuicDoCipher ev c out p outl obl inp = Inr (c\<lparr>qc_ctx := Some x2\<rparr>, out', of_nat (length o1))"
proof -
  have "length o1 < 2 ^ 31" using assms(6,7) by linarith
  then have u: "unat (of_nat (length o1) :: u64) = length o1" by (simp add: of_nat_unat64)
  have "QUIC_LE (of_nat (length o1)) obl"
    using assms(6,7) u by (simp add: quic_cmp_unat)
  then show ?thesis
    using assms(1-4) set_int_small[OF \<open>length o1 < 2 ^ 31\<close> assms(5)] set_int_0[of 0]
    by (simp add: QuicDoCipher_def QuicEvpCipherUpdate_def QuicEvpCipherFinal_def Let_def mem_copy_def)
qed

lemma encrypt_message_ok:
  assumes "aead_spec ev P" and "P e d" and "qc_ctx (pp_cipher pe) = Some e" and "qc_enc (pp_cipher pe)"
    and "QuicCipherGetTagLen (qc_alg (pp_cipher pe)) = Inr EVP_GCM_TLS_TAG_LEN" and "length (pp_iv pe) = 12"
    and "length D = length pt + 16" and "length D < 2 ^ 31" and "length head < length D"
  shows "\<exists>e' d' ct tag.
    QuicEncryptMessage ev pe (A @ D @ B) (int (length A)) 0 (of_nat (length D)) head pn pt =
      Inr (pp_set_ctx pe e', A @ ct @ tag @ B, of_nat (length D)) \<and> length ct = length pt \<and> length tag = 16
    \<and> open_calls ev d (nonce_of (pp_iv pe) pn) tag head ct = Some (d', length head, pt, []) \<and> P e' d'"
proof -
  from assms(1,2) obtain e' d' ct tag where
    s: "seal_calls ev e (nonce_of (pp_iv pe) pn) head pt = Some (e', length head, ct, [], tag)"
    and c: "length ct = length pt" "length tag = 16"
    and o1: "open_calls ev d (nonce_of (pp_iv pe) pn) tag head ct = Some (d', length head, pt, [])" "P e' d'"
    unfolding aead_spec_def EVP_GCM_TLS_TAG_LEN_def by fastforce
  from s obtain e1 e2 e3 e4 where calls:
    "evp_iv ev e (nonce_of (pp_iv pe) pn) True = Some e1" "evp_ivlen ev e1 TLS13_AEAD_NONCE_LENGTH = Some e2"
    "evp_aad ev e2 head = Some (e3, length head)" "evp_update ev e3 pt = Some (e4, ct)"
    "evp_final ev e4 = Some (e', [])" "evp_get_tag ev e' (unat EVP_GCM_TLS_TAG_LEN) = Some tag"
    by (auto simp: seal_calls_def bind_eq_Some_conv split: prod.splits)
  have iv: "QuicCryptoSetIV ev pe pn = Inr (pp_set_ctx pe e2)"
    using SetIV_ok[OF assms(6,3)] calls(1,2) assms(4) by simp
  let ?n = "of_nat (length D) :: u64"
  have n: "unat ?n = length D" using assms(8) by (simp add: of_nat_unat64)
  have h: "length head < 2 ^ 31" using assms(8,9) by linarith
  have uh: "unat (of_nat (length head) :: u64) = length head" using h by (simp add: of_nat_unat64)
  have lt: "QUIC_LT (of_nat (length head)) ?n" using assms(8,9) n h uh by (simp add: quic_cmp_unat)
  have cp1: "mem_copy (A @ D @ B) (int (length A)) ct = Inr (A @ ct @ drop (length ct) D @ B)"
    using mem_copy_append[of "take (length ct) D" ct A "drop (length ct) D @ B"] assms(7) c
    by (simp flip: append_assoc)
  have doc: "QuicDoCipher ev (pp_cipher (pp_set_ctx (pp_set_ctx pe e2) e3)) (A @ D @ B) (int (length A))
      (of_nat (length head)) ?n pt =
      Inr ((pp_cipher (pp_set_ctx (pp_set_ctx pe e2) e3))\<lparr>qc_ctx := Some e'\<rparr>, A @ ct @ drop (length ct) D @ B, of_nat (length ct))"
    by (rule DoCipher_ok[OF _ calls(4,5) cp1]) (use n c assms(7,8) uh h in \<open>simp_all add: pp_set_ctx_def\<close>)
  have ct16: "(of_nat (length ct) :: u64) + 16 = ?n" using assms(7) c by simp
  have uc: "uint (of_nat (length ct) :: u64) = int (length ct)"
    using assms(7,8) c by (simp add: unsigned_of_nat take_bit_nat_eq_self)
  have cp2: "mem_copy (A @ ct @ drop (length ct) D @ B) (int (length A) + int (length ct)) tag = Inr (A @ ct @ tag @ B)"
    using mem_copy_append[of "drop (length ct) D" tag "A @ ct" B] assms(7) c by simp
  have "QuicEncryptMessage ev pe (A @ D @ B) (int (length A)) 0 ?n head pn pt =
      Inr (pp_set_ctx pe e', A @ ct @ tag @ B, ?n)"
    unfolding QuicEncryptMessage_def iv
    using calls doc lt set_int_0[OF h] assms(5) ct16 uc cp2
    by (simp add: QuicEvpCipherAad_def pp_set_ctx_def EVP_GCM_TLS_TAG_LEN_def QUIC_EVP_CIPHER_gcm_get_tag_def)
  then show ?thesis using c o1 by blast
qed

lemma decrypt_message_ok:
  assumes "open_calls ev d (nonce_of (pp_iv pd) pn) tag head ct = Some (d', length head, pt, [])"
    and "length ct = length pt" and "length tag = 16"
    and "qc_ctx (pp_cipher pd) = Some d" and "\<not> qc_enc (pp_cipher pd)"
    and "QuicCipherGetTagLen (qc_alg (pp_cipher pd)) = Inr EVP_GCM_TLS_TAG_LEN" and "length (pp_iv pd) = 12"
    and "head \<noteq> []" and "length head + length ct + 16 < 2 ^ 31"
    and "pkt = \<lparr>rp_buf = A @ head @ ct @ tag @ B, rp_head = int (length A), rp_curr = int (length A) + int (length head),
          rp_total = of_nat (length head + length ct + 16), rp_remaining = of_nat (length ct + 16)\<rparr>"
    and "length pt \<le> length out" and "length pt \<le> unat obl" and "length head < unat obl" and "unat obl < 2 ^ 31"
    and "unat outl < 2 ^ 32"
  shows "QuicDecryptMessage ev pd out outl obl pn pkt = Inr (pp_set_ctx pd d', pt @ drop (length pt) out, of_nat (length pt))"
proof -
  from assms(1) obtain d1 d2 d3 d4 d5 where calls:
    "evp_iv ev d (nonce_of (pp_iv pd) pn) False = Some d1" "evp_ivlen ev d1 TLS13_AEAD_NONCE_LENGTH = Some d2"
    "evp_set_tag ev d2 tag = Some d3" "evp_aad ev d3 head = Some (d4, length head)"
    "evp_update ev d4 ct = Some (d5, pt)" "evp_final ev d5 = Some (d', [])"
    by (auto simp: open_calls_def bind_eq_Some_conv split: prod.splits)
  let ?n = "of_nat (length ct + 16) :: u64"
  have n: "unat ?n = length ct + 16" using assms(9) by (intro of_nat_unat64) simp
  have hd: "RPacketTotalLen pkt - RPacketRemaining pkt = of_nat (length head)"
    by (simp add: assms(10) RPacketTotalLen_def RPacketRemaining_def)
  have h31: "length head < 2 ^ 31" using assms(9) by linarith
  have h: "ucast (of_nat (length head) :: u64) = (of_nat (length head) :: u32)"
      "sint (of_nat (length head) :: u32) = int (length head)" "scast (of_nat (length head) :: u32) = (of_nat (length head) :: u64)"
    using h31 by (simp_all only: ucast_nat31 sint_nat31 scast_nat31)
  have uh: "unat (of_nat (length head) :: u64) = length head" using h31 by (simp add: of_nat_unat64)
  have iv: "QuicCryptoSetIV ev pd pn = Inr (pp_set_ctx pd d2)"
    using SetIV_ok[OF assms(7,4)] calls(1,2) assms(5) by simp
  have dl: "?n - 16 = of_nat (length ct)" by simp
  have uc: "uint (of_nat (length ct) :: u64) = int (length ct)"
    using assms(9) by (simp add: unsigned_of_nat take_bit_nat_eq_self)
  have tg: "mem_slice (A @ head @ ct @ tag @ B) (int (length A) + int (length head) + int (length ct)) 16 = Inr tag"
    using mem_slice_at[of _ "A @ head @ ct" 16 tag B] assms(3) by (simp add: add.assoc)
  have hi: "evp_input (A @ head @ ct @ tag @ B) (int (length A)) (of_nat (length head)) = Inr head"
    using mem_slice_at[of _ A "length head" head "ct @ tag @ B"] by (simp add: evp_input_small[OF h31])
  have ci: "evp_input (A @ head @ ct @ tag @ B) (int (length A) + int (length head)) (of_nat (length ct)) = Inr ct"
    using mem_slice_at[of _ "A @ head" "length ct" ct "tag @ B"] assms(9) by (subst evp_input_small) simp_all
  have lt: "QUIC_LT (of_nat (length head)) obl" using assms(13,14) uh by (simp add: quic_cmp_unat)
  have cp: "mem_copy out 0 pt = Inr (pt @ drop (length pt) out)"
    using mem_copy_append[of "take (length pt) out" pt "[]" "drop (length pt) out"] assms(11) by simp
  have doc: "QuicDoCipher ev (pp_cipher (pp_set_ctx (pp_set_ctx (pp_set_ctx pd d2) d3) d4)) out 0 (of_nat (length head)) obl ct =
      Inr ((pp_cipher (pp_set_ctx (pp_set_ctx (pp_set_ctx pd d2) d3) d4))\<lparr>qc_ctx := Some d'\<rparr>, pt @ drop (length pt) out, of_nat (length pt))"
    by (rule DoCipher_ok[OF _ calls(5,6) cp]) (use assms(12,14) uh h31 in \<open>simp_all add: pp_set_ctx_def\<close>)
  have so: "set_int outl (length head) = of_nat (length head)" by (rule set_int_small[OF h31 assms(15)])
  have ge: "\<not> ?n < 16" using n by (simp add: word_less_nat_alt)
  show ?thesis
    unfolding QuicDecryptMessage_def hd h Let_def iv
    using calls doc lt so assms(2,3,6,8,10) tg hi ci dl uc ge
    by (simp add: QuicEvpCipherAad_def pp_set_ctx_def EVP_GCM_TLS_TAG_LEN_def QUIC_EVP_CIPHER_gcm_set_tag_def
        RPacketRemaining_def RPacketHead_def RPacketData_def h)
qed

end
