(* ===== verification/Tls_State.thy ===== *)
theory Tls_State
  imports Cipher
begin

text \<open>
  The state of the TLS engine and its tables: the states and messages of \<^verbatim>\<open>quic/tls/tls.h\<close> and \<^verbatim>\<open>quic/statem.h\<close>,
  the cipher suites (\<^verbatim>\<open>quic/tls/tls_cipher.c\<close>), the signature algorithms (\<^verbatim>\<open>quic/tls/sig_alg.c\<close>), the groups
  (\<^verbatim>\<open>quic/tls/tls_lib.c\<close>), sessions and certificates (\<^verbatim>\<open>quic/session.h\<close>, \<^verbatim>\<open>quic/cert.h\<close>). Keys and certificates are objects
  of OpenSSL: they are named by numbers, and everything OpenSSL computes from them is a parameter of the
  operations. An array of 16-bit values with its length is a list, empty for a null pointer. Numbers of
  OpenSSL that the code only compares (NIDs and key types) are constructors.
\<close>

section \<open>States and messages\<close>

datatype TlsState =
  TLS_ST_OK | TLS_ST_CW_CLIENT_HELLO | TLS_ST_CW_CLIENT_CERTIFICATE | TLS_ST_CW_CERT_VERIFY | TLS_ST_CW_FINISHED
| TLS_ST_CR_SERVER_HELLO | TLS_ST_CR_ENCRYPTED_EXTENSIONS | TLS_ST_CR_CERT_REQUEST | TLS_ST_CR_SERVER_CERTIFICATE
| TLS_ST_CR_CERT_VERIFY | TLS_ST_CR_FINISHED | TLS_ST_CR_NEW_SESSION_TICKET
| TLS_ST_SR_CLIENT_HELLO | TLS_ST_SR_CLIENT_CERTIFICATE | TLS_ST_SR_CERT_VERIFY | TLS_ST_SR_FINISHED
| TLS_ST_SW_SERVER_HELLO | TLS_ST_SW_ENCRYPTED_EXTENSIONS | TLS_ST_SW_CERT_REQUEST | TLS_ST_SW_SERVER_CERTIFICATE
| TLS_ST_SW_CERT_VERIFY | TLS_ST_SW_FINISHED | TLS_ST_SW_NEW_SESSION_TICKET | TLS_ST_SW_HANDSHAKE_DONE
| TLS_ST_HANDSHAKE_DONE

text \<open>The states in their order, which gives the numbers the code compares.\<close>

definition tls_states :: "TlsState list" where
  "tls_states = [TLS_ST_OK, TLS_ST_CW_CLIENT_HELLO, TLS_ST_CW_CLIENT_CERTIFICATE, TLS_ST_CW_CERT_VERIFY, TLS_ST_CW_FINISHED,
     TLS_ST_CR_SERVER_HELLO, TLS_ST_CR_ENCRYPTED_EXTENSIONS, TLS_ST_CR_CERT_REQUEST, TLS_ST_CR_SERVER_CERTIFICATE,
     TLS_ST_CR_CERT_VERIFY, TLS_ST_CR_FINISHED, TLS_ST_CR_NEW_SESSION_TICKET,
     TLS_ST_SR_CLIENT_HELLO, TLS_ST_SR_CLIENT_CERTIFICATE, TLS_ST_SR_CERT_VERIFY, TLS_ST_SR_FINISHED,
     TLS_ST_SW_SERVER_HELLO, TLS_ST_SW_ENCRYPTED_EXTENSIONS, TLS_ST_SW_CERT_REQUEST, TLS_ST_SW_SERVER_CERTIFICATE,
     TLS_ST_SW_CERT_VERIFY, TLS_ST_SW_FINISHED, TLS_ST_SW_NEW_SESSION_TICKET, TLS_ST_SW_HANDSHAKE_DONE,
     TLS_ST_HANDSHAKE_DONE]"

text \<open>The place of an element in a list, the length of the list when it is not there.\<close>

fun index_of :: "'a \<Rightarrow> 'a list \<Rightarrow> nat" where
  "index_of x [] = 0"
| "index_of x (y # ys) = (if x = y then 0 else Suc (index_of x ys))"

definition st_index :: "TlsState \<Rightarrow> nat" where "st_index s = index_of s tls_states"

definition TLS_MT_HELLO_REQUEST :: u32 where "TLS_MT_HELLO_REQUEST = 0"
definition TLS_MT_CLIENT_HELLO :: u32 where "TLS_MT_CLIENT_HELLO = 1"
definition TLS_MT_SERVER_HELLO :: u32 where "TLS_MT_SERVER_HELLO = 2"
definition TLS_MT_NEW_SESSION_TICKET :: u32 where "TLS_MT_NEW_SESSION_TICKET = 4"
definition TLS_MT_ENCRYPTED_EXTENSIONS :: u32 where "TLS_MT_ENCRYPTED_EXTENSIONS = 8"
definition TLS_MT_CERTIFICATE :: u32 where "TLS_MT_CERTIFICATE = 11"
definition TLS_MT_CERTIFICATE_REQUEST :: u32 where "TLS_MT_CERTIFICATE_REQUEST = 13"
definition TLS_MT_CERTIFICATE_VERIFY :: u32 where "TLS_MT_CERTIFICATE_VERIFY = 15"
definition TLS_MT_FINISHED :: u32 where "TLS_MT_FINISHED = 20"

datatype QuicFlowState = QUIC_FLOW_NOTHING | QUIC_FLOW_READING | QUIC_FLOW_WRITING | QUIC_FLOW_FINISHED

section \<open>Cipher suites\<close>

definition QUIC_ALG_AES_256_GCM :: u32 where "QUIC_ALG_AES_256_GCM = 5"
definition QUIC_ALG_AES_128_CCM :: u32 where "QUIC_ALG_AES_128_CCM = 6"

definition QUIC_DIGEST_SHA256 :: u32 where "QUIC_DIGEST_SHA256 = 0"
definition QUIC_DIGEST_SHA384 :: u32 where "QUIC_DIGEST_SHA384 = 1"
definition QUIC_DIGEST_SHA512 :: u32 where "QUIC_DIGEST_SHA512 = 2"

record TlsCipher =
  tc_name :: string
  tc_id :: u16
  tc_algorithm_enc :: u32
  tc_alg_bits :: u32
  tc_digest :: u32
  tc_strength_bits :: u32

definition tls_ciphers :: "TlsCipher list" where
  "tls_ciphers =
    [\<lparr>tc_name = ''TLS_AES_128_GCM_SHA256'', tc_id = 0x1301, tc_algorithm_enc = QUIC_ALG_AES_128_GCM,
      tc_alg_bits = 128, tc_digest = QUIC_DIGEST_SHA256, tc_strength_bits = 128\<rparr>,
     \<lparr>tc_name = ''TLS_AES_256_GCM_SHA384'', tc_id = 0x1302, tc_algorithm_enc = QUIC_ALG_AES_256_GCM,
      tc_alg_bits = 256, tc_digest = QUIC_DIGEST_SHA384, tc_strength_bits = 256\<rparr>,
     \<lparr>tc_name = ''TLS_CHACHA20_POLY1305_SHA256'', tc_id = 0x1303, tc_algorithm_enc = QUIC_ALG_CHACHA20POLY1305,
      tc_alg_bits = 256, tc_digest = QUIC_DIGEST_SHA256, tc_strength_bits = 256\<rparr>,
     \<lparr>tc_name = ''TLS_AES_128_CCM_SHA256'', tc_id = 0x1304, tc_algorithm_enc = QUIC_ALG_AES_128_CCM,
      tc_alg_bits = 128, tc_digest = QUIC_DIGEST_SHA256, tc_strength_bits = 128\<rparr>,
     \<lparr>tc_name = ''TLS_AES_128_CCM_8_SHA256'', tc_id = 0x1305, tc_algorithm_enc = QUIC_ALG_AES_128_CCM_8,
      tc_alg_bits = 128, tc_digest = QUIC_DIGEST_SHA256, tc_strength_bits = 128\<rparr>]"

text \<open>\<^verbatim>\<open>TLS_CIPHERS_DEF\<close>.\<close>

definition TLS_CIPHERS_DEF :: string where
  "TLS_CIPHERS_DEF = ''TLS_AES_128_GCM_SHA256:TLS_AES_256_GCM_SHA384:TLS_CHACHA20_POLY1305_SHA256''"

definition QuicGetTlsCipherByName :: "string \<Rightarrow> nat \<Rightarrow> TlsCipher option" where
  "QuicGetTlsCipherByName name name_len =
     find (\<lambda>c. length (tc_name c) = name_len \<and> take name_len name = tc_name c) tls_ciphers"

definition QuicGetTlsCipherById :: "u16 \<Rightarrow> TlsCipher option" where
  "QuicGetTlsCipherById i = find (\<lambda>c. tc_id c = i) tls_ciphers"

text \<open>A list of ciphers is its members in order. The size of \<^verbatim>\<open>TlsCipherListNode\<close> is that of a 64-bit target.\<close>

definition sizeof_TlsCipherListNode :: nat where "sizeof_TlsCipherListNode = 24"

fun parse_cipher_loop :: "env \<Rightarrow> nat \<Rightarrow> RPacket \<Rightarrow> TlsCipher list \<Rightarrow> (TlsCipher list \<times> RPacket) res" where
  "parse_cipher_loop e 0 pkt h = Inr (h, pkt)"
| "parse_cipher_loop e (Suc n) pkt h =
     bindR (RPacketGet2 pkt) (\<lambda>(i, pkt1).
       case QuicGetTlsCipherById (ucast i) of
         None \<Rightarrow> Inl Fail
       | Some c \<Rightarrow> bindR (alloc e sizeof_TlsCipherListNode) (\<lambda>_. parse_cipher_loop e n pkt1 (h @ [c])))"

definition TlsParseCipherList :: "env \<Rightarrow> RPacket \<Rightarrow> u64 \<Rightarrow> (TlsCipher list \<times> RPacket) res" where
  "TlsParseCipherList e pkt len = parse_cipher_loop e ((unat len + 1) div 2) pkt []"

definition TlsCipherMatchListById :: "TlsCipher list \<Rightarrow> u16 \<Rightarrow> TlsCipher option" where
  "TlsCipherMatchListById h i = find (\<lambda>c. tc_id c = i) h"

text \<open>The loop of \<^verbatim>\<open>TlsCreateCipherList\<close>; a name that is no cipher is skipped.\<close>

function create_cipher_loop :: "env \<Rightarrow> string \<Rightarrow> u64 \<Rightarrow> TlsCipher list \<Rightarrow> TlsCipher list res" where
  "create_cipher_loop e name str_len h =
     (let n = length (takeWhile (\<lambda>c. c \<noteq> CHR '':'') name);
          over = n < length name \<and> QUIC_GT (of_nat n) str_len;
          sep = n < length name \<and> \<not> over;
          len = (if over then unat str_len else n);
          rest = drop (n + 1) name in
      case QuicGetTlsCipherByName name len of
        None \<Rightarrow> if sep then create_cipher_loop e rest str_len h else Inr h
      | Some c \<Rightarrow>
          bindR (alloc e sizeof_TlsCipherListNode) (\<lambda>_.
            if sep then create_cipher_loop e rest str_len (h @ [c]) else Inr (h @ [c])))"
  by pat_completeness auto

termination by (relation "measure (\<lambda>(_, name, _). length name)") auto

definition TlsCreateCipherList :: "env \<Rightarrow> TlsCipher list \<Rightarrow> string \<Rightarrow> u64 \<Rightarrow> TlsCipher list res" where
  "TlsCreateCipherList e h str str_len = (if h \<noteq> [] then Inr h else create_cipher_loop e str str_len [])"

section \<open>Signature algorithms\<close>

datatype md_nid = NID_md_undef | NID_sha1 | NID_sha256 | NID_sha384 | NID_sha512

datatype pkey_type =
  NID_pkey_undef | EVP_PKEY_RSA | EVP_PKEY_RSA_PSS | EVP_PKEY_EC | EVP_PKEY_ED25519 | EVP_PKEY_ED448 | EVP_PKEY_other nat

datatype sig_nid =
  NID_sig_undef | NID_ecdsa_with_SHA256 | NID_ecdsa_with_SHA384 | NID_ecdsa_with_SHA512 | NID_sha1WithRSAEncryption

datatype curve_nid = NID_curve_undef
| NID_sect163k1 | NID_sect163r1 | NID_sect163r2 | NID_sect193r1 | NID_sect193r2 | NID_sect233k1 | NID_sect233r1
| NID_sect239k1 | NID_sect283k1 | NID_sect283r1 | NID_sect409k1 | NID_sect409r1 | NID_sect571k1 | NID_sect571r1
| NID_secp160k1 | NID_secp160r1 | NID_secp160r2 | NID_secp192k1 | NID_X9_62_prime192v1 | NID_secp224k1 | NID_secp224r1
| NID_secp256k1 | NID_X9_62_prime256v1 | NID_secp384r1 | NID_secp521r1 | NID_brainpoolP256r1 | NID_brainpoolP384r1
| NID_brainpoolP512r1 | NID_X25519 | NID_X448

text \<open>The kinds of keys a certificate store has a place for.\<close>

definition QUIC_PKEY_RSA :: nat where "QUIC_PKEY_RSA = 0"
definition QUIC_PKEY_ECC :: nat where "QUIC_PKEY_ECC = 2"
definition QUIC_PKEY_NUM :: nat where "QUIC_PKEY_NUM = 5"

record SigAlgLookup =
  lu_sigalg :: u16
  lu_hash :: md_nid
  lu_hash_idx :: u32
  lu_sig :: pkey_type
  lu_sig_idx :: nat
  lu_sigandhash :: sig_nid
  lu_curve :: curve_nid

definition tls_sigalgs :: "u16 list" where
  "tls_sigalgs = [0x0403, 0x0503, 0x0603, 0x0804, 0x0805, 0x0806, 0x0401, 0x0501, 0x0601]"

definition lu_ecdsa :: "u16 \<Rightarrow> md_nid \<Rightarrow> u32 \<Rightarrow> sig_nid \<Rightarrow> curve_nid \<Rightarrow> SigAlgLookup" where
  "lu_ecdsa alg h i sh c = \<lparr>lu_sigalg = alg, lu_hash = h, lu_hash_idx = i, lu_sig = EVP_PKEY_EC, lu_sig_idx = QUIC_PKEY_ECC,
     lu_sigandhash = sh, lu_curve = c\<rparr>"

definition lu_rsa :: "u16 \<Rightarrow> md_nid \<Rightarrow> u32 \<Rightarrow> pkey_type \<Rightarrow> sig_nid \<Rightarrow> SigAlgLookup" where
  "lu_rsa alg h i sig sh = \<lparr>lu_sigalg = alg, lu_hash = h, lu_hash_idx = i, lu_sig = sig, lu_sig_idx = QUIC_PKEY_RSA,
     lu_sigandhash = sh, lu_curve = NID_curve_undef\<rparr>"

definition sig_alg_lookup :: "SigAlgLookup list" where
  "sig_alg_lookup =
    [lu_ecdsa 0x0403 NID_sha256 QUIC_DIGEST_SHA256 NID_ecdsa_with_SHA256 NID_X9_62_prime256v1,
     lu_ecdsa 0x0503 NID_sha384 QUIC_DIGEST_SHA384 NID_ecdsa_with_SHA384 NID_secp384r1,
     lu_ecdsa 0x0603 NID_sha512 QUIC_DIGEST_SHA512 NID_ecdsa_with_SHA512 NID_secp521r1,
     lu_rsa 0x0804 NID_sha256 QUIC_DIGEST_SHA256 EVP_PKEY_RSA_PSS NID_sig_undef,
     lu_rsa 0x0805 NID_sha384 QUIC_DIGEST_SHA384 EVP_PKEY_RSA_PSS NID_sig_undef,
     lu_rsa 0x0806 NID_sha512 QUIC_DIGEST_SHA512 EVP_PKEY_RSA_PSS NID_sig_undef,
     lu_rsa 0x0401 NID_sha256 QUIC_DIGEST_SHA256 EVP_PKEY_RSA NID_sig_undef,
     lu_rsa 0x0501 NID_sha384 QUIC_DIGEST_SHA384 EVP_PKEY_RSA NID_sig_undef,
     lu_rsa 0x0601 NID_sha512 QUIC_DIGEST_SHA512 EVP_PKEY_RSA NID_sig_undef,
     lu_rsa 0x0201 NID_sha1 QUIC_DIGEST_SHA512 EVP_PKEY_RSA NID_sha1WithRSAEncryption]"

definition TlsLookupSigAlg :: "u16 \<Rightarrow> SigAlgLookup option" where
  "TlsLookupSigAlg sigalg = find (\<lambda>lu. lu_sigalg lu = sigalg) sig_alg_lookup"

definition TlsLookupSigAlgBySig :: "pkey_type \<Rightarrow> SigAlgLookup option" where
  "TlsLookupSigAlgBySig sig = find (\<lambda>lu. lu_sig lu = sig) sig_alg_lookup"

section \<open>Groups\<close>

datatype curve_flags = TLS_CURVE_PRIME | TLS_CURVE_CHAR2 | TLS_CURVE_CUSTOM

record TlsGroupInfo =
  gi_nid :: curve_nid
  gi_secbits :: u32
  gi_flags :: curve_flags

definition eccurves_default :: "u16 list" where "eccurves_default = [29, 23, 30, 25, 24]"

definition ffdh_group :: "u16 list" where "ffdh_group = [0x0100, 0x0101, 0x0102, 0x0103, 0x0104]"

definition gi :: "curve_nid \<Rightarrow> u32 \<Rightarrow> curve_flags \<Rightarrow> TlsGroupInfo" where
  "gi n b f = \<lparr>gi_nid = n, gi_secbits = b, gi_flags = f\<rparr>"

text \<open>The entry 0 is one the initialiser leaves out.\<close>

definition group_nid_list :: "TlsGroupInfo list" where
  "group_nid_list =
    [gi NID_curve_undef 0 TLS_CURVE_PRIME,
     gi NID_sect163k1 80 TLS_CURVE_CHAR2, gi NID_sect163r1 80 TLS_CURVE_CHAR2, gi NID_sect163r2 80 TLS_CURVE_CHAR2,
     gi NID_sect193r1 80 TLS_CURVE_CHAR2, gi NID_sect193r2 80 TLS_CURVE_CHAR2, gi NID_sect233k1 112 TLS_CURVE_CHAR2,
     gi NID_sect233r1 112 TLS_CURVE_CHAR2, gi NID_sect239k1 112 TLS_CURVE_CHAR2, gi NID_sect283k1 128 TLS_CURVE_CHAR2,
     gi NID_sect283r1 128 TLS_CURVE_CHAR2, gi NID_sect409k1 192 TLS_CURVE_CHAR2, gi NID_sect409r1 192 TLS_CURVE_CHAR2,
     gi NID_sect571k1 256 TLS_CURVE_CHAR2, gi NID_sect571r1 256 TLS_CURVE_CHAR2, gi NID_secp160k1 80 TLS_CURVE_PRIME,
     gi NID_secp160r1 80 TLS_CURVE_PRIME, gi NID_secp160r2 80 TLS_CURVE_PRIME, gi NID_secp192k1 80 TLS_CURVE_PRIME,
     gi NID_X9_62_prime192v1 80 TLS_CURVE_PRIME, gi NID_secp224k1 112 TLS_CURVE_PRIME, gi NID_secp224r1 112 TLS_CURVE_PRIME,
     gi NID_secp256k1 128 TLS_CURVE_PRIME, gi NID_X9_62_prime256v1 128 TLS_CURVE_PRIME, gi NID_secp384r1 192 TLS_CURVE_PRIME,
     gi NID_secp521r1 256 TLS_CURVE_PRIME, gi NID_brainpoolP256r1 128 TLS_CURVE_PRIME, gi NID_brainpoolP384r1 192 TLS_CURVE_PRIME,
     gi NID_brainpoolP512r1 256 TLS_CURVE_PRIME, gi NID_X25519 128 TLS_CURVE_CUSTOM, gi NID_X448 224 TLS_CURVE_CUSTOM]"

definition TlsCheckFfdhGroup :: "u16 \<Rightarrow> unit res" where
  "TlsCheckFfdhGroup i = guardR (i \<in> set ffdh_group)"

definition TlsGroupIdLookup :: "u16 \<Rightarrow> TlsGroupInfo option" where
  "TlsGroupIdLookup i = (if unat i \<ge> length group_nid_list then None else Some (group_nid_list ! unat i))"

definition TlsCheckInList :: "u16 \<Rightarrow> u16 list \<Rightarrow> unit res" where
  "TlsCheckInList group_id groups = guardR (group_id \<in> set groups)"

fun check_groups :: "u16 list \<Rightarrow> unit res" where
  "check_groups [] = Inr ()"
| "check_groups (i # is) =
     (case TlsGroupIdLookup i of
        Some g \<Rightarrow> if gi_secbits g = 0 then Inl Fail else check_groups is
      | None \<Rightarrow> bindR (TlsCheckFfdhGroup i) (\<lambda>_. check_groups is))"

definition TlsSetSupportedGroups :: "env \<Rightarrow> u16 list \<Rightarrow> u16 list res" where
  "TlsSetSupportedGroups e groups =
     (if groups = [] then Inl Fail
      else bindR (check_groups groups) (\<lambda>_. bindR (alloc e (2 * length groups)) (\<lambda>_. Inr groups)))"

section \<open>Certificates and sessions\<close>

type_synonym EVP_PKEY = nat
type_synonym X509 = nat

record QuicCertPkey =
  cpk_x509 :: "X509 option"
  cpk_privatekey :: "EVP_PKEY option"
  cpk_chain :: "X509 list"

text \<open>\<open>ce_key\<close> points to one of the places of \<open>ce_pkeys\<close>.\<close>

record QuicCert =
  ce_key :: "nat option"
  ce_pkeys :: "QuicCertPkey list"
  ce_conf_sigalgs :: "u16 list"

definition TLS_MAX_RESUMPTION_PSK_LENGTH :: nat where "TLS_MAX_RESUMPTION_PSK_LENGTH = 256"

record QuicSessionTicket =
  qt_lifetime_hint :: u64
  qt_time :: int
  qt_age_add :: u32
  qt_ticket :: QUIC_DATA
  qt_master_key :: bytes
  qt_master_key_length :: u64

record QUIC_SESSION =
  ss_cipher :: "TlsCipher option"
  ss_tick_identity :: u32
  ss_max_early_data :: u32
  ss_references :: int
  ss_ticket_queue :: "QuicSessionTicket list"

section \<open>The engine\<close>

definition EVP_MAX_MD_SIZE :: nat where "EVP_MAX_MD_SIZE = 64"
definition TLS_RANDOM_BYTE_LEN :: nat where "TLS_RANDOM_BYTE_LEN = 32"

record TlsTicketKey =
  tk_hmac_key :: bytes
  tk_aes_key :: bytes
  tk_key_name :: bytes

text \<open>
  \<^verbatim>\<open>struct Tls\<close>. The bit \<^verbatim>\<open>server\<close> and the read buffer are fields of the connection, which the engine is a
  part of; \<^verbatim>\<open>early_data_state\<close>, \<^verbatim>\<open>method\<close> and \<^verbatim>\<open>tmp.peer_cert_sigalgs\<close> are never read. A digest that is going
  on is the digest, \<open>None\<close> before it is initialised, and the bytes it was given. \<open>tl_tmp_cert\<close> points to one of
  the places of the certificate store. \<open>tl_draws\<close> counts the draws from the random generator.
\<close>

record Tls =
  tl_state :: TlsState
  tl_alpn_sent :: bool
  tl_hit :: bool
  tl_client_random :: bytes
  tl_server_random :: bytes
  tl_cipher_list :: "TlsCipher list"
  tl_handshake_msg_len :: u64
  tl_cert :: QuicCert
  tl_handshake_cipher :: "TlsCipher option"
  tl_kexch_key :: "EVP_PKEY option"
  tl_peer_kexch_key :: "EVP_PKEY option"
  tl_handshake_dgst :: "(u32 option \<times> bytes) option"
  tl_peer_cert :: "X509 option"
  tl_peer_sigalg :: "SigAlgLookup option"
  tl_group_id :: u16
  tl_psk_kex_mode :: u16
  tl_lifetime_hint :: u32
  tl_max_early_data :: u32
  tl_next_ticket_nonce :: u64
  tl_early_secret :: bytes
  tl_handshake_secret :: bytes
  tl_master_secret :: bytes
  tl_resumption_master_secret :: bytes
  tl_client_finished_secret :: bytes
  tl_server_finished_secret :: bytes
  tl_client_app_traffic_secret :: bytes
  tl_server_app_traffic_secret :: bytes
  tl_handshake_traffic_hash :: bytes
  tl_server_finished_hash :: bytes
  tl_cert_verify_hash :: bytes
  tl_cert_verify_hash_len :: u64
  tl_finish_md :: bytes
  tl_finish_md_len :: u64
  tl_peer_finish_md :: bytes
  tl_peer_finish_md_len :: u64
  tl_alpn_selected :: QUIC_DATA
  tl_alpn_proposed :: QUIC_DATA
  tl_shared_sigalgs :: "SigAlgLookup list"
  tl_tmp_cert :: "nat option"
  tl_tmp_sigalg :: "SigAlgLookup option"
  tl_hostname :: "bytes option"
  tl_alpn :: QUIC_DATA
  tl_supported_groups :: "u16 list"
  tl_peer_supported_groups :: "u16 list"
  tl_peer_sigalgs :: "u16 list"
  tl_key_share_max_group_idx :: u64
  tl_ticket_key :: TlsTicketKey
  tl_tick_identity :: u16
  tl_draws :: nat

definition TlsGetPeerGroups :: "Tls \<Rightarrow> u16 list" where
  "TlsGetPeerGroups s = tl_peer_supported_groups s"

definition TlsGetSupportedGroups :: "Tls \<Rightarrow> u16 list" where
  "TlsGetSupportedGroups s = (if tl_supported_groups s = [] then eccurves_default else tl_supported_groups s)"

definition TlsGetPSigAlgs :: "Tls \<Rightarrow> u16 list" where
  "TlsGetPSigAlgs s = (if ce_conf_sigalgs (tl_cert s) \<noteq> [] then ce_conf_sigalgs (tl_cert s) else tls_sigalgs)"

definition TlsSetSigalgs :: "env \<Rightarrow> QuicCert \<Rightarrow> u16 list \<Rightarrow> QuicCert \<times> unit res" where
  "TlsSetSigalgs e c psig =
     (if \<exists>sig\<in>set psig. TlsLookupSigAlg sig = None then (c, Inl Fail)
      else if \<not> env_alloc e (2 * length psig) then (c\<lparr>ce_conf_sigalgs := []\<rparr>, Inl Fail)
      else (c\<lparr>ce_conf_sigalgs := psig\<rparr>, Inr ()))"

section \<open>Sessions\<close>

text \<open>The sizes of the structures on a 64-bit target; \<^verbatim>\<open>time(NULL)\<close> counts seconds.\<close>

definition sizeof_QuicSessionTicket :: nat where "sizeof_QuicSessionTicket = 320"
definition sizeof_QUIC_SESSION :: nat where "sizeof_QUIC_SESSION = 40"

definition time_now :: "env \<Rightarrow> int" where "time_now e = uint (env_now e) div 1000000"

definition QuicSessionTicketNew :: "env \<Rightarrow> u32 \<Rightarrow> u32 \<Rightarrow> bytes option \<Rightarrow> u64 \<Rightarrow> QuicSessionTicket res" where
  "QuicSessionTicketNew e lifetime_hint age_add ticket len =
     bindR (alloc e sizeof_QuicSessionTicket) (\<lambda>_.
     bindR (snd (QuicDataCopy e qd_empty ticket len)) (\<lambda>_.
       Inr \<lparr>qt_lifetime_hint = ucast lifetime_hint, qt_time = time_now e, qt_age_add = age_add,
            qt_ticket = fst (QuicDataCopy e qd_empty ticket len),
            qt_master_key = replicate TLS_MAX_RESUMPTION_PSK_LENGTH 0, qt_master_key_length = 0\<rparr>))"

definition QuicSessionTicketAdd :: "QUIC_SESSION \<Rightarrow> QuicSessionTicket \<Rightarrow> QUIC_SESSION" where
  "QuicSessionTicketAdd sess t =
     sess\<lparr>ss_ticket_queue := ss_ticket_queue sess @ [t], ss_tick_identity := ss_tick_identity sess + 1\<rparr>"

text \<open>\<^verbatim>\<open>QUIC_GE(t->lifetime_hint, age_sec)\<close> compares a 64-bit value with an \<^verbatim>\<open>int\<close> that is converted to 64 bits.
  Tickets that are too old, or come from the future, leave the queue.\<close>

fun ticket_get_loop :: "int \<Rightarrow> QuicSessionTicket list \<Rightarrow> QuicSessionTicket list \<times> (QuicSessionTicket \<times> u32) option" where
  "ticket_get_loop now [] = ([], None)"
| "ticket_get_loop now (t # ts) =
     (let age_sec = word_of_int (now - qt_time t) :: u32 in
      if 0 \<le> sint age_sec \<and> QUIC_GE (qt_lifetime_hint t) (scast age_sec)
      then (t # ts, Some (t, age_sec * 1000 + qt_age_add t))
      else ticket_get_loop now ts)"

definition QuicSessionTicketGet :: "env \<Rightarrow> QUIC_SESSION \<Rightarrow> QUIC_SESSION \<times> (QuicSessionTicket \<times> u32) option" where
  "QuicSessionTicketGet e sess =
     (let (q, r) = ticket_get_loop (time_now e) (ss_ticket_queue sess) in (sess\<lparr>ss_ticket_queue := q\<rparr>, r))"

definition QuicSessionTicketPickTail :: "QUIC_SESSION \<Rightarrow> QuicSessionTicket option" where
  "QuicSessionTicketPickTail sess = (case ss_ticket_queue sess of [] \<Rightarrow> None | t # ts \<Rightarrow> Some (last (t # ts)))"

definition QuicSessionCreate :: "env \<Rightarrow> QUIC_SESSION res" where
  "QuicSessionCreate e =
     bindR (alloc e sizeof_QUIC_SESSION) (\<lambda>_.
       Inr \<lparr>ss_cipher = None, ss_tick_identity = 0, ss_max_early_data = 0, ss_references = 1, ss_ticket_queue = []\<rparr>)"

definition QuicSessionUpRef :: "QUIC_SESSION \<Rightarrow> QUIC_SESSION" where
  "QuicSessionUpRef sess = sess\<lparr>ss_references := ss_references sess + 1\<rparr>"

text \<open>\<open>None\<close> once the last reference is gone and the session with its tickets is freed.\<close>

definition QuicSessionFree :: "QUIC_SESSION option \<Rightarrow> QUIC_SESSION option" where
  "QuicSessionFree sess =
     (case sess of
        None \<Rightarrow> None
      | Some s \<Rightarrow> let s' = s\<lparr>ss_references := ss_references s - 1\<rparr> in if ss_references s' > 0 then Some s' else None)"

section \<open>A new engine\<close>

text \<open>What \<^verbatim>\<open>QuicNew\<close> and \<^verbatim>\<open>TlsInit\<close> make of a zeroed object, before the settings of the context are copied.\<close>

definition no_pkey :: QuicCertPkey where
  "no_pkey = \<lparr>cpk_x509 = None, cpk_privatekey = None, cpk_chain = []\<rparr>"

definition tls_zero :: Tls where
  "tls_zero = \<lparr>tl_state = TLS_ST_OK, tl_alpn_sent = False, tl_hit = False,
     tl_client_random = replicate TLS_RANDOM_BYTE_LEN 0, tl_server_random = replicate TLS_RANDOM_BYTE_LEN 0,
     tl_cipher_list = [], tl_handshake_msg_len = 0,
     tl_cert = \<lparr>ce_key = None, ce_pkeys = replicate QUIC_PKEY_NUM no_pkey, ce_conf_sigalgs = []\<rparr>,
     tl_handshake_cipher = None, tl_kexch_key = None, tl_peer_kexch_key = None, tl_handshake_dgst = None,
     tl_peer_cert = None, tl_peer_sigalg = None, tl_group_id = 0, tl_psk_kex_mode = 0, tl_lifetime_hint = 0,
     tl_max_early_data = 0, tl_next_ticket_nonce = 0,
     tl_early_secret = replicate EVP_MAX_MD_SIZE 0, tl_handshake_secret = replicate EVP_MAX_MD_SIZE 0,
     tl_master_secret = replicate EVP_MAX_MD_SIZE 0, tl_resumption_master_secret = replicate EVP_MAX_MD_SIZE 0,
     tl_client_finished_secret = replicate EVP_MAX_MD_SIZE 0, tl_server_finished_secret = replicate EVP_MAX_MD_SIZE 0,
     tl_client_app_traffic_secret = replicate EVP_MAX_MD_SIZE 0, tl_server_app_traffic_secret = replicate EVP_MAX_MD_SIZE 0,
     tl_handshake_traffic_hash = replicate EVP_MAX_MD_SIZE 0, tl_server_finished_hash = replicate EVP_MAX_MD_SIZE 0,
     tl_cert_verify_hash = replicate EVP_MAX_MD_SIZE 0, tl_cert_verify_hash_len = 0,
     tl_finish_md = replicate EVP_MAX_MD_SIZE 0, tl_finish_md_len = 0,
     tl_peer_finish_md = replicate EVP_MAX_MD_SIZE 0, tl_peer_finish_md_len = 0,
     tl_alpn_selected = qd_empty, tl_alpn_proposed = qd_empty, tl_shared_sigalgs = [], tl_tmp_cert = None,
     tl_tmp_sigalg = None, tl_hostname = None, tl_alpn = qd_empty, tl_supported_groups = [],
     tl_peer_supported_groups = [], tl_peer_sigalgs = [], tl_key_share_max_group_idx = 0,
     tl_ticket_key = \<lparr>tk_hmac_key = replicate 32 0, tk_aes_key = replicate 32 0, tk_key_name = replicate 16 0\<rparr>,
     tl_tick_identity = 0, tl_draws = 0\<rparr>"

end
