(* ===== verification/Quic_State.thy ===== *)
theory Quic_State
  imports Tls_State Conn_Id
begin

text \<open>
  The connection object (\<^verbatim>\<open>struct Quic\<close> of \<^verbatim>\<open>quic/quic_local.h\<close>) and the access to its packet number
  spaces (\<^verbatim>\<open>quic/core.c\<close>). It extends the part streams use with the identifiers, the token, the three
  spaces, the transmit queue, the TLS engine, the buffer it shares with the CRYPTO frames, the session
  and the state of the state machine. A space is named by its place in the object, as in the code, where a packet type
  gives the offset of the space. Fields of the object that no modelled operation reads (sockets,
  verification parameters, timers) are left out.
\<close>

section \<open>State\<close>

text \<open>The \<^verbatim>\<open>QUIC_STATEM_TLS_ST_\<close> members of the enumeration are never a state of a connection: nothing
  assigns them.\<close>

datatype QuicStatem =
  QUIC_STATEM_INITIAL | QUIC_STATEM_HANDSHAKE | QUIC_STATEM_HANDSHAKE_DONE
| QUIC_STATEM_CLOSING | QUIC_STATEM_DRAINING | QUIC_STATEM_CLOSED

datatype QuicReadWriteState = QUIC_NOTHING | QUIC_READING | QUIC_WRITING | QUIC_ASYNC_PAUSED | QUIC_FINISHED

datatype QuicReadState = QUIC_WANT_DATA | QUIC_DATA_READY

text \<open>\<open>q_next_buf\<close> is the identity the next packet buffer gets in the store \<open>q_bufs\<close>;
  \<open>q_tls_buffer\<close> is the member \<^verbatim>\<open>buffer\<close> of the TLS engine.\<close>

record 'c Quic = QuicTrans +
  q_state :: QuicStatem
  q_read_state :: QuicReadState
  q_rwstate :: QuicReadWriteState
  q_tls :: Tls
  q_tls_buffer :: QUIC_BUFFER
  q_version :: u32
  q_mss :: u32
  q_verify_mode :: u32
  q_pkt_num_len :: "2 word"
  q_cid_len :: u8
  q_fd_mode :: bool
  q_session :: "QUIC_SESSION option"
  q_dcid_inited :: bool
  q_scid_inited :: bool
  q_conn :: QuicConn
  q_dcid :: QUIC_DATA
  q_scid :: QUIC_DATA
  q_token :: QUIC_DATA
  q_initial :: "'c QUIC_CRYPTO"
  q_handshake :: "'c QUIC_CRYPTO"
  q_application :: "'c QUIC_CRYPTO"
  q_tx_queue :: "QBUFF list"
  q_next_buf :: nat

text \<open>\<^verbatim>\<open>TLS_HANDSHAKE_DONE\<close>.\<close>

abbreviation q_tls_done :: "'c Quic \<Rightarrow> bool" where
  "q_tls_done quic \<equiv> tl_state (q_tls quic) = TLS_ST_HANDSHAKE_DONE"

definition QUIC_VERSION_1 :: u32 where "QUIC_VERSION_1 = 1"

section \<open>Packet number spaces\<close>

text \<open>The offset table leaves the entry of Retry packets 0, the start of the object, which is no space.\<close>

datatype crypto_space = CrInitial | CrHandshake | CrApplication | CrStart

definition QuicCryptoOffset :: "crypto_space list" where
  "QuicCryptoOffset = [CrInitial, CrApplication, CrHandshake, CrStart, CrApplication]"

definition QuicCryptoGet :: "u32 \<Rightarrow> crypto_space res" where
  "QuicCryptoGet pkt_type =
     (if QUIC_GE pkt_type QUIC_PKT_TYPE_MAX then Inl Fail
      else if unat pkt_type < length QuicCryptoOffset then Inr (QuicCryptoOffset ! unat pkt_type) else Inl Bad_mem)"

definition QuicGetInitialCrypto :: "crypto_space res" where
  "QuicGetInitialCrypto = QuicCryptoGet QUIC_PKT_TYPE_INITIAL"

definition QuicGetHandshakeCrypto :: "crypto_space res" where
  "QuicGetHandshakeCrypto = QuicCryptoGet QUIC_PKT_TYPE_HANDSHAKE"

definition QuicGetOneRttCrypto :: "crypto_space res" where
  "QuicGetOneRttCrypto = QuicCryptoGet QUIC_PKT_TYPE_1RTT"

text \<open>Reading and updating the object a space names.\<close>

fun crypto_at :: "'c Quic \<Rightarrow> crypto_space \<Rightarrow> 'c QUIC_CRYPTO res" where
  "crypto_at quic CrInitial = Inr (q_initial quic)"
| "crypto_at quic CrHandshake = Inr (q_handshake quic)"
| "crypto_at quic CrApplication = Inr (q_application quic)"
| "crypto_at quic CrStart = Inl Bad_mem"

fun crypto_upd :: "'c Quic \<Rightarrow> crypto_space \<Rightarrow> 'c QUIC_CRYPTO \<Rightarrow> 'c Quic" where
  "crypto_upd quic CrInitial c = quic\<lparr>q_initial := c\<rparr>"
| "crypto_upd quic CrHandshake c = quic\<lparr>q_handshake := c\<rparr>"
| "crypto_upd quic CrApplication c = quic\<lparr>q_application := c\<rparr>"
| "crypto_upd quic CrStart c = quic"

section \<open>Setting up and queries of quic/quic_lib.c\<close>

definition QUIC_set_initial_hp_cipher :: "'c Quic \<Rightarrow> u32 \<Rightarrow> 'c Quic res" where
  "QUIC_set_initial_hp_cipher quic alg =
     bindR (QUIC_set_hp_cipher (q_initial quic) alg) (\<lambda>c. Inr (quic\<lparr>q_initial := c\<rparr>))"

definition QUIC_set_handshake_hp_cipher :: "'c Quic \<Rightarrow> u32 \<Rightarrow> 'c Quic res" where
  "QUIC_set_handshake_hp_cipher quic alg =
     bindR (QUIC_set_hp_cipher (q_handshake quic) alg) (\<lambda>c. Inr (quic\<lparr>q_handshake := c\<rparr>))"

definition QUIC_set_initial_pp_cipher :: "'c Quic \<Rightarrow> u32 \<Rightarrow> 'c Quic res" where
  "QUIC_set_initial_pp_cipher quic alg =
     bindR (QUIC_set_pp_cipher_space_alg (qy_decrypt (q_initial quic)) alg) (\<lambda>d.
     bindR (QUIC_set_pp_cipher_space_alg (qy_encrypt (q_initial quic)) alg) (\<lambda>e.
       Inr (quic\<lparr>q_initial := (q_initial quic)\<lparr>qy_decrypt := d, qy_encrypt := e\<rparr>\<rparr>)))"

definition QuicWantRead :: "'c Quic \<Rightarrow> bool" where
  "QuicWantRead quic \<longleftrightarrow> q_rwstate quic = QUIC_READING"

definition QuicWantWrite :: "'c Quic \<Rightarrow> bool" where
  "QuicWantWrite quic \<longleftrightarrow> q_rwstate quic = QUIC_WRITING"

datatype quic_error = QUIC_ERROR_NONE | QUIC_ERROR_QUIC | QUIC_ERROR_WANT_READ | QUIC_ERROR_WANT_WRITE

definition QUIC_get_error :: "'c Quic \<Rightarrow> int \<Rightarrow> quic_error" where
  "QUIC_get_error quic ret =
     (if ret = 0 then QUIC_ERROR_NONE
      else if QuicWantRead quic then QUIC_ERROR_WANT_READ
      else if QuicWantWrite quic then QUIC_ERROR_WANT_WRITE
      else QUIC_ERROR_QUIC)"

text \<open>\<^verbatim>\<open>QuicCtrl\<close> with \<^verbatim>\<open>QUIC_CTRL_SET_PKT_NUM_MAX_LEN\<close>.\<close>

definition ctrl_set_pkt_num_max_len :: "'c Quic \<Rightarrow> u64 \<Rightarrow> 'c Quic res" where
  "ctrl_set_pkt_num_max_len quic len =
     (if len = 0 \<or> QUIC_GT len 4 then Inl Fail else Inr (quic\<lparr>q_pkt_num_len := ucast (len - 1)\<rparr>))"

definition QuicAddQueue :: "'c Quic \<Rightarrow> QBUFF \<Rightarrow> 'c Quic" where
  "QuicAddQueue quic qb = quic\<lparr>q_tx_queue := QBuffQueueAdd (q_tx_queue quic) qb\<rparr>"

section \<open>Lemmas\<close>

lemma QuicCryptoGet_table:
  "QuicCryptoGet QUIC_PKT_TYPE_INITIAL = Inr CrInitial" "QuicCryptoGet QUIC_PKT_TYPE_0RTT = Inr CrApplication"
  "QuicCryptoGet QUIC_PKT_TYPE_HANDSHAKE = Inr CrHandshake" "QuicCryptoGet QUIC_PKT_TYPE_RETRY = Inr CrStart"
  "QuicCryptoGet QUIC_PKT_TYPE_1RTT = Inr CrApplication"
  by code_simp+

lemmas crypto_get_simps =
  QuicGetInitialCrypto_def QuicGetHandshakeCrypto_def QuicGetOneRttCrypto_def QuicCryptoGet_table

lemma crypto_at_upd [simp]: "s \<noteq> CrStart \<Longrightarrow> crypto_at (crypto_upd quic s c) s = Inr c"
  by (cases s) simp_all

lemma crypto_at_other [simp]: "s \<noteq> t \<Longrightarrow> crypto_at (crypto_upd quic s c) t = crypto_at quic t"
  by (cases s; cases t) simp_all

lemma pkt_num_len_bytes: "unat (ucast (q :: 2 word) + 1 :: u8) = unat q + 1" "unat q + 1 \<le> 4"
proof -
  have "unat q < 4" using unsigned_less[of q, where ?'a = nat] by simp
  then show "unat q + 1 \<le> 4" by simp
  have "unat (ucast q :: u8) = unat q"
    using \<open>unat q < 4\<close> by (simp add: unsigned_ucast_eq take_bit_nat_eq_self)
  then show "unat (ucast q + 1 :: u8) = unat q + 1" using \<open>unat q < 4\<close> by (simp add: unat_word_ariths)
qed

text \<open>A connection in its initial state with the same packet number space three times, for concrete inputs.\<close>

definition sample_quic :: "'c QUIC_CRYPTO \<Rightarrow> 'c Quic" where
  "sample_quic c = QuicTrans.extend demo_quic
     \<lparr>q_state = QUIC_STATEM_INITIAL, q_read_state = QUIC_WANT_DATA, q_rwstate = QUIC_NOTHING, q_tls = tls_zero,
      q_tls_buffer = \<lparr>qbf_buf = None, qbf_offset = 0, qbf_reserved = 0, qbf_data_len = 0\<rparr>,
      q_version = QUIC_VERSION_1, q_mss = 1250, q_verify_mode = 0, q_pkt_num_len = 1, q_cid_len = 8, q_fd_mode = False, q_session = None,
      q_dcid_inited = False, q_scid_inited = False,
      q_conn = \<lparr>conn_dcid = QuicCidPoolInit, conn_scid = QuicCidPoolInit\<rparr>,
      q_dcid = qd_empty, q_scid = qd_empty, q_token = qd_empty,
      q_initial = c, q_handshake = c, q_application = c, q_tx_queue = [], q_next_buf = 1\<rparr>"

lemma sample_quic_space: "sp \<noteq> CrStart \<Longrightarrow> crypto_at (sample_quic c) sp = Inr c"
  by (cases sp) (simp_all add: sample_quic_def QuicTrans.defs)

end
