(* ===== verification/Pkt_Build.thy ===== *)
theory Pkt_Build
  imports Quic_State Protect VarInt_Write
begin

text \<open>
  Building packets (\<^verbatim>\<open>quic/format.c\<close>, with the method table of \<^verbatim>\<open>quic/q_buff.c\<close>): headers, the length
  a packet will have, padding, and sealing a send buffer into a packet. The operations return the
  connection, the packet and the send buffer they leave behind. A pointer into the packet carries the
  generation of its buffer.
\<close>

section \<open>The first byte\<close>

text \<open>The bit fields of \<^verbatim>\<open>QuicPacketFlags\<close>, least significant first.\<close>

definition lh_flags :: "u8 \<Rightarrow> u8 \<Rightarrow> u8 \<Rightarrow> u8 \<Rightarrow> u8 \<Rightarrow> u8" where
  "lh_flags packet_num_len reserved lpacket_type fixed header_form =
     (packet_num_len AND 3) OR push_bit 2 (reserved AND 3) OR push_bit 4 (lpacket_type AND 3)
     OR push_bit 6 (fixed AND 1) OR push_bit 7 (header_form AND 1)"

definition sh_flags :: "u8 \<Rightarrow> u8 \<Rightarrow> u8 \<Rightarrow> u8 \<Rightarrow> u8 \<Rightarrow> u8 \<Rightarrow> u8" where
  "sh_flags packet_num_len key_phase reserved spin fixed header_form =
     (packet_num_len AND 3) OR push_bit 2 (key_phase AND 1) OR push_bit 3 (reserved AND 3)
     OR push_bit 5 (spin AND 1) OR push_bit 6 (fixed AND 1) OR push_bit 7 (header_form AND 1)"

definition flags_packet_num_len :: "u8 \<Rightarrow> u8" where "flags_packet_num_len v = v AND 3"
definition flags_lpacket_type :: "u8 \<Rightarrow> u8" where "flags_lpacket_type v = drop_bit 4 v AND 3"
definition flags_header_form :: "u8 \<Rightarrow> u8" where "flags_header_form v = drop_bit 7 v"

definition QUIC_LPACKET_TYPE_INITIAL :: u8 where "QUIC_LPACKET_TYPE_INITIAL = 0x00"
definition QUIC_LPACKET_TYPE_0RTT :: u8 where "QUIC_LPACKET_TYPE_0RTT = 0x01"
definition QUIC_LPACKET_TYPE_HANDSHAKE :: u8 where "QUIC_LPACKET_TYPE_HANDSHAKE = 0x02"
definition QUIC_LPACKET_TYPE_RETRY :: u8 where "QUIC_LPACKET_TYPE_RETRY = 0x03"
definition QUIC_INITIAL_PKT_DATAGRAM_SIZE_MIN :: u64 where "QUIC_INITIAL_PKT_DATAGRAM_SIZE_MIN = 1200"

section \<open>Headers\<close>

text \<open>\<^verbatim>\<open>WPacketMemcpy\<close> from a C pointer: the bytes it names are read first.\<close>

definition wp_memcpy :: "env \<Rightarrow> WPacket \<Rightarrow> bytes option \<Rightarrow> u64 \<Rightarrow> WPacket \<times> unit res" where
  "wp_memcpy e pkt src len =
     (case src of
        None \<Rightarrow> WPacketMemcpy e pkt None
      | Some m \<Rightarrow>
          (case mem_slice m 0 (unat len) of
             Inl err \<Rightarrow> (pkt, Inl err)
           | Inr bs \<Rightarrow> WPacketMemcpy e pkt (Some bs)))"

definition QuicCidPut :: "env \<Rightarrow> QUIC_DATA \<Rightarrow> WPacket \<Rightarrow> WPacket \<times> unit res" where
  "QuicCidPut e cid pkt =
     bindS (WPacketPut1 e pkt (ucast (qd_len cid))) (\<lambda>pkt1 _.
       if qd_len cid = 0 then (pkt1, Inr ()) else wp_memcpy e pkt1 (qd_data cid) (qd_len cid))"

definition QuicTokenPut :: "env \<Rightarrow> QUIC_DATA \<Rightarrow> WPacket \<Rightarrow> WPacket \<times> unit res" where
  "QuicTokenPut e token pkt =
     (if qd_len token = 0 then WPacketPut1 e pkt 0
      else bindS (QuicVariableLengthWrite e pkt (qd_len token)) (\<lambda>pkt1 _.
             wp_memcpy e pkt1 (qd_data token) (qd_len token)))"

text \<open>The result is the pointer to the first byte.\<close>

definition QuicLHeaderGen :: "env \<Rightarrow> 'c Quic \<Rightarrow> WPacket \<Rightarrow> u8 \<Rightarrow> u8 \<Rightarrow> WPacket \<times> wptr res" where
  "QuicLHeaderGen e quic pkt type pkt_num_len =
     (let flags = lh_flags ((pkt_num_len AND 3) - 1) 0 type 1 1; first_byte = WPacket_get_curr pkt in
      bindS (WPacketPut1 e pkt (ucast flags)) (\<lambda>pkt1 _.
      bindS (WPacketPut4 e pkt1 (q_version quic)) (\<lambda>pkt2 _.
      bindS (QuicCidPut e (q_dcid quic) pkt2) (\<lambda>pkt3 _.
      bindS (QuicCidPut e (q_scid quic) pkt3) (\<lambda>pkt4 _. (pkt4, Inr first_byte))))))"

definition QuicSHeaderGen :: "env \<Rightarrow> 'c Quic \<Rightarrow> WPacket \<Rightarrow> u8 \<Rightarrow> WPacket \<times> wptr res" where
  "QuicSHeaderGen e quic pkt pkt_num_len =
     (let flags = sh_flags ((pkt_num_len AND 3) - 1) 0 0 0 1 0; first_byte = WPacket_get_curr pkt; dcid = q_dcid quic in
      bindS (WPacketPut1 e pkt (ucast flags)) (\<lambda>pkt1 _.
      bindS (if qd_len dcid \<noteq> 0 then wp_memcpy e pkt1 (qd_data dcid) (qd_len dcid) else (pkt1, Inr ())) (\<lambda>pkt2 _.
        (pkt2, Inr first_byte))))"

section \<open>Lengths\<close>

definition QuicGetEncryptedPayloadLen :: "'c QuicPPCipher \<Rightarrow> u64 \<Rightarrow> u64 res" where
  "QuicGetEncryptedPayloadLen pp data_len = QuicCipherLenGet (qc_alg (pp_cipher pp)) data_len"

definition QuicCidWriteLen :: "QUIC_DATA \<Rightarrow> u64" where
  "QuicCidWriteLen cid = 1 + qd_len cid"

text \<open>The \<^verbatim>\<open>int\<close> \<^verbatim>\<open>QuicVariableLengthEncode\<close> returns, -1 on failure, added to a \<^verbatim>\<open>size_t\<close>.\<close>

definition var_wlen :: "u64 \<Rightarrow> u64" where
  "var_wlen v = (case QuicVariableLengthEncode zero8 8 v of Inl _ \<Rightarrow> - 1 | Inr (_, wlen) \<Rightarrow> of_nat wlen)"

definition QuicLPacketGetHeaderLen :: "'c Quic \<Rightarrow> u8 \<Rightarrow> u64" where
  "QuicLPacketGetHeaderLen quic type =
     (let hlen = 1 + 4 + QuicCidWriteLen (q_dcid quic) + QuicCidWriteLen (q_scid quic) in
      if type = QUIC_LPACKET_TYPE_INITIAL
      then hlen + (var_wlen (qd_len (q_token quic)) + qd_len (q_token quic)) else hlen)"

definition QuicSPacketGetHeaderLen :: "'c Quic \<Rightarrow> u64" where
  "QuicSPacketGetHeaderLen quic = 1 + QuicCidWriteLen (q_dcid quic)"

definition quic_pn_len :: "'c Quic \<Rightarrow> u8" where
  "quic_pn_len quic = ucast (q_pkt_num_len quic) + 1"

definition QuicLPacketGetTotalLen :: "'c Quic \<Rightarrow> crypto_space \<Rightarrow> u8 \<Rightarrow> u64 \<Rightarrow> u64 res" where
  "QuicLPacketGetTotalLen quic sp type data_len =
     bindR (crypto_at quic sp) (\<lambda>c.
     bindR (QuicGetEncryptedPayloadLen (qcs_pp_cipher (csp_ciphers (qy_encrypt c))) data_len) (\<lambda>cipher_len.
       let len = cipher_len + ucast (quic_pn_len quic)
       in Inr (QuicLPacketGetHeaderLen quic type + len + var_wlen len)))"

definition QuicSPacketGetTotalLen :: "'c Quic \<Rightarrow> crypto_space \<Rightarrow> u64 \<Rightarrow> u64 res" where
  "QuicSPacketGetTotalLen quic sp data_len =
     bindR (crypto_at quic sp) (\<lambda>c.
     bindR (QuicGetEncryptedPayloadLen (qcs_pp_cipher (csp_ciphers (qy_encrypt c))) data_len) (\<lambda>cipher_len.
       Inr (QuicSPacketGetHeaderLen quic + cipher_len + ucast (quic_pn_len quic))))"

definition QuicInitialPacketGetTotalLen :: "'c Quic \<Rightarrow> u64 \<Rightarrow> u64 res" where
  "QuicInitialPacketGetTotalLen quic data_len =
     bindR QuicGetInitialCrypto (\<lambda>sp. QuicLPacketGetTotalLen quic sp QUIC_LPACKET_TYPE_INITIAL data_len)"

definition QuicHandshakePacketGetTotalLen :: "'c Quic \<Rightarrow> u64 \<Rightarrow> u64 res" where
  "QuicHandshakePacketGetTotalLen quic data_len =
     bindR QuicGetHandshakeCrypto (\<lambda>sp. QuicLPacketGetTotalLen quic sp QUIC_LPACKET_TYPE_HANDSHAKE data_len)"

definition QuicAppDataPacketGetTotalLen :: "'c Quic \<Rightarrow> u64 \<Rightarrow> u64 res" where
  "QuicAppDataPacketGetTotalLen quic data_len =
     bindR QuicGetOneRttCrypto (\<lambda>sp. QuicSPacketGetTotalLen quic sp data_len)"

section \<open>The methods of packet types\<close>

text \<open>\<^verbatim>\<open>QuicBuffPktMethod\<close>: the entries of 0-RTT and Retry packets are null.\<close>

datatype QuicPktMethod = InitialMethod | HandshakeMethod | AppDataMethod

definition QuicBuffPktMethod :: "QuicPktMethod option list" where
  "QuicBuffPktMethod = [Some InitialMethod, None, Some HandshakeMethod, None, Some AppDataMethod]"

definition qb_method :: "u32 \<Rightarrow> QuicPktMethod res" where
  "qb_method ty =
     (if unat ty < length QuicBuffPktMethod
      then (case QuicBuffPktMethod ! unat ty of None \<Rightarrow> Inl Null_ptr | Some m \<Rightarrow> Inr m) else Inl Bad_mem)"

fun method_totallen :: "QuicPktMethod \<Rightarrow> 'c Quic \<Rightarrow> u64 \<Rightarrow> u64 res" where
  "method_totallen InitialMethod quic n = QuicInitialPacketGetTotalLen quic n"
| "method_totallen HandshakeMethod quic n = QuicHandshakePacketGetTotalLen quic n"
| "method_totallen AppDataMethod quic n = QuicAppDataPacketGetTotalLen quic n"

fun method_crypto :: "QuicPktMethod \<Rightarrow> crypto_space res" where
  "method_crypto InitialMethod = QuicGetInitialCrypto"
| "method_crypto HandshakeMethod = QuicGetHandshakeCrypto"
| "method_crypto AppDataMethod = QuicGetOneRttCrypto"

definition QBuffGetCrypto :: "QBUFF \<Rightarrow> crypto_space res" where
  "QBuffGetCrypto qb = bindR (qb_method (qb_pkt_type qb)) method_crypto"

definition QBufPktComputeTotalLenByType :: "'c Quic \<Rightarrow> u32 \<Rightarrow> u64 \<Rightarrow> u64 res" where
  "QBufPktComputeTotalLenByType quic pkt_type data_len =
     (if pkt_type \<ge> QUIC_PKT_TYPE_MAX then Inr 0
      else bindR (qb_method pkt_type) (\<lambda>m. method_totallen m quic data_len))"

definition QBufPktComputeTotalLen :: "'c Quic \<Rightarrow> QBUFF \<Rightarrow> u64 res" where
  "QBufPktComputeTotalLen quic qb =
     bindR (qb_method (qb_pkt_type qb)) (\<lambda>m. method_totallen m quic (QBuffGetDataLen qb))"

section \<open>Building\<close>

definition QuicFramePaddingBuild :: "env \<Rightarrow> WPacket \<Rightarrow> u64 \<Rightarrow> WPacket \<times> unit res" where
  "QuicFramePaddingBuild e pkt len = WPacketMemset e pkt 0 len"

text \<open>The packet writes into the buffer after its data.\<close>

definition QuicFrameBufferAddPadding :: "env \<Rightarrow> u64 \<Rightarrow> QBUFF \<Rightarrow> QBUFF \<times> unit res" where
  "QuicFrameBufferAddPadding e padding_len qb =
     (case QBuffSpace qb of
        Inl err \<Rightarrow> (qb, Inl err)
      | Inr space \<Rightarrow>
          let n = unat (qb_data_len qb);
              (pkt, r) = QuicFramePaddingBuild e (WPacketStaticBufInit (drop n (qb_buff qb)) space) padding_len;
              qb1 = qb\<lparr>qb_buff := take n (qb_buff qb) @ wp_data pkt\<rparr>
          in case r of
               Inl err \<Rightarrow> (qb1, Inl err)
             | Inr _ \<Rightarrow> (case QBuffAddDataLen qb1 padding_len of
                 Inl err \<Rightarrow> (qb1, Inl err) | Inr qb2 \<Rightarrow> (qb2, Inr ())))"

text \<open>The packet's memory is \<open>m\<close>, the header starts at \<open>head\<close>, the output at \<open>p\<close>.\<close>

definition QuicEncryptPayload ::
    "'c evp \<Rightarrow> 'c QuicPPCipher \<Rightarrow> bytes \<Rightarrow> int \<Rightarrow> u64 \<Rightarrow> int \<Rightarrow> u64 \<Rightarrow> u32 \<Rightarrow> QBUFF \<Rightarrow> ('c QuicPPCipher \<times> bytes) res" where
  "QuicEncryptPayload ev pp m head hlen p out_len pkt_num qb =
     bindR (evp_input m head hlen) (\<lambda>h.
     bindR (evp_input (qb_buff qb) (QBuffHead qb) (QBuffGetDataLen qb)) (\<lambda>inp.
     bindR (QuicEncryptMessage ev pp m p 0 out_len h (ucast pkt_num) inp) (\<lambda>(pp', m', outl).
       if out_len \<noteq> outl then Inl Fail else Inr (pp', m'))))"

type_synonym 'c build = "'c Quic \<times> WPacket \<times> QBUFF"

definition QuicPacketBuild ::
    "env \<Rightarrow> 'c evp \<Rightarrow> 'c Quic \<Rightarrow> crypto_space \<Rightarrow> wptr \<Rightarrow> u8 \<Rightarrow> WPacket \<Rightarrow> QBUFF \<Rightarrow> u8 \<Rightarrow> 'c build \<times> unit res" where
  "QuicPacketBuild e ev quic sp first_byte pkt_num_len pkt qb bits =
     (case crypto_at quic sp of Inl err \<Rightarrow> ((quic, pkt, qb), Inl err) | Inr c0 \<Rightarrow>
      if \<not> csp_cipher_inited (qy_encrypt c0) then ((quic, pkt, qb), Inl Fail)
      else
        let c = c0\<lparr>qy_pkt_num := qy_pkt_num c0 + 1\<rparr>;
            ciphers = csp_ciphers (qy_encrypt c);
            quic1 = crypto_upd quic sp c;
            qb1 = qb\<lparr>qb_pkt_num := qy_pkt_num c\<rparr> in
        case QuicPktNumberEncode (qy_pkt_num c) (qy_largest_acked c) (unat (pkt_num_len * 8)) of
          Inl err \<Rightarrow> ((quic1, pkt, qb1), Inl err)
        | Inr pkt_num \<Rightarrow>
        case QuicGetEncryptedPayloadLen (qcs_pp_cipher ciphers) (QBuffGetDataLen qb1) of
          Inl err \<Rightarrow> ((quic1, pkt, qb1), Inl err)
        | Inr cipher_len \<Rightarrow>
        if cipher_len = 0 then ((quic1, pkt, qb1), Inl Fail)
        else
          let (pkt5, r) =
            bindS (if bits = QUIC_LPACKET_TYPE_RESV_MASK
                   then QuicVariableLengthWrite e pkt (cipher_len + ucast pkt_num_len) else (pkt, Inr ())) (\<lambda>pkt2 _.
            let pkt_num_start = WPacket_get_curr pkt2 in
            bindS (WPacketPutBytes e pkt2 pkt_num (ucast pkt_num_len)) (\<lambda>pkt3 _.
            bindS (WPacketAllocateBytes e pkt3 cipher_len) (\<lambda>pkt4 dest. (pkt4, Inr (pkt_num_start, dest)))))
          in case r of Inl err \<Rightarrow> ((quic1, pkt5, qb1), Inl err)
          | Inr (pkt_num_start, dest) \<Rightarrow>
          let res =
            bindR (if fst first_byte = wp_gen pkt5 \<and> fst pkt_num_start = wp_gen pkt5 then Inr () else Inl Bad_mem) (\<lambda>_.
            let offset = word_of_int (snd dest - snd first_byte) :: u32 in
            bindR (assertR (0 < sint offset)) (\<lambda>_.
            bindR (QuicEncryptPayload ev (qcs_pp_cipher ciphers) (wp_data pkt5) (snd first_byte) (scast offset)
                     (snd dest) cipher_len pkt_num qb1) (\<lambda>(pp, m).
            bindR (QuicEncryptHeader ev (qcs_hp_cipher ciphers) m (snd first_byte) (snd pkt_num_start)
                     (ucast pkt_num_len + cipher_len) bits) (\<lambda>(hp, m').
              Inr (c\<lparr>qy_encrypt := (qy_encrypt c)\<lparr>csp_ciphers := \<lparr>qcs_hp_cipher = hp, qcs_pp_cipher = pp\<rparr>\<rparr>\<rparr>, m')))))
          in case res of Inl err \<Rightarrow> ((quic1, pkt5, qb1), Inl err)
          | Inr (c', m') \<Rightarrow> ((crypto_upd quic1 sp c', pkt5\<lparr>wp_data := m'\<rparr>, qb1), Inr ()))"

definition QuicLPacketBuild ::
    "env \<Rightarrow> 'c evp \<Rightarrow> 'c Quic \<Rightarrow> crypto_space \<Rightarrow> u8 \<Rightarrow> WPacket \<Rightarrow> QBUFF \<Rightarrow> bool \<Rightarrow> 'c build \<times> unit res" where
  "QuicLPacketBuild e ev quic sp type pkt qb fin =
     (let pkt_num_len = quic_pn_len quic in
      case QuicLPacketGetTotalLen quic sp type (QBuffGetDataLen qb) of
        Inl err \<Rightarrow> ((quic, pkt, qb), Inl err)
      | Inr len0 \<Rightarrow>
      let total_len = len0 + WPacket_get_written pkt;
          (pkt1, r) = bindS (QuicLHeaderGen e quic pkt type pkt_num_len) (\<lambda>pkt1 first_byte.
            bindS (if type = QUIC_LPACKET_TYPE_INITIAL then QuicTokenPut e (q_token quic) pkt1 else (pkt1, Inr ()))
              (\<lambda>pkt2 _. (pkt2, Inr first_byte)))
      in case r of Inl err \<Rightarrow> ((quic, pkt1, qb), Inl err)
      | Inr first_byte \<Rightarrow>
      let (qb1, r1) =
        (if fin \<and> QUIC_LT total_len QUIC_INITIAL_PKT_DATAGRAM_SIZE_MIN
         then QuicFrameBufferAddPadding e (QUIC_INITIAL_PKT_DATAGRAM_SIZE_MIN - total_len) qb else (qb, Inr ()))
      in case r1 of Inl err \<Rightarrow> ((quic, pkt1, qb1), Inl err)
      | Inr _ \<Rightarrow> QuicPacketBuild e ev quic sp first_byte pkt_num_len pkt1 qb1 QUIC_LPACKET_TYPE_RESV_MASK)"

definition QuicSPacketBuild ::
    "env \<Rightarrow> 'c evp \<Rightarrow> 'c Quic \<Rightarrow> crypto_space \<Rightarrow> WPacket \<Rightarrow> QBUFF \<Rightarrow> bool \<Rightarrow> 'c build \<times> unit res" where
  "QuicSPacketBuild e ev quic sp pkt qb fin =
     (let pkt_num_len = quic_pn_len quic; (pkt1, r) = QuicSHeaderGen e quic pkt pkt_num_len in
      case r of Inl err \<Rightarrow> ((quic, pkt1, qb), Inl err)
      | Inr first_byte \<Rightarrow> QuicPacketBuild e ev quic sp first_byte pkt_num_len pkt1 qb QUIC_SPACKET_TYPE_RESV_MASK)"

definition with_space ::
    "crypto_space res \<Rightarrow> 'c build \<Rightarrow> (crypto_space \<Rightarrow> 'c build \<times> unit res) \<Rightarrow> 'c build \<times> unit res" where
  "with_space sp s f = (case sp of Inl err \<Rightarrow> (s, Inl err) | Inr x \<Rightarrow> f x)"

definition QuicInitialPacketBuild ::
    "env \<Rightarrow> 'c evp \<Rightarrow> 'c Quic \<Rightarrow> WPacket \<Rightarrow> QBUFF \<Rightarrow> bool \<Rightarrow> 'c build \<times> unit res" where
  "QuicInitialPacketBuild e ev quic pkt qb fin =
     with_space QuicGetInitialCrypto (quic, pkt, qb) (\<lambda>sp. QuicLPacketBuild e ev quic sp QUIC_LPACKET_TYPE_INITIAL pkt qb fin)"

definition QuicHandshakePacketBuild ::
    "env \<Rightarrow> 'c evp \<Rightarrow> 'c Quic \<Rightarrow> WPacket \<Rightarrow> QBUFF \<Rightarrow> bool \<Rightarrow> 'c build \<times> unit res" where
  "QuicHandshakePacketBuild e ev quic pkt qb fin =
     with_space QuicGetHandshakeCrypto (quic, pkt, qb) (\<lambda>sp. QuicLPacketBuild e ev quic sp QUIC_LPACKET_TYPE_HANDSHAKE pkt qb fin)"

definition QuicAppDataPacketBuild ::
    "env \<Rightarrow> 'c evp \<Rightarrow> 'c Quic \<Rightarrow> WPacket \<Rightarrow> QBUFF \<Rightarrow> bool \<Rightarrow> 'c build \<times> unit res" where
  "QuicAppDataPacketBuild e ev quic pkt qb fin =
     with_space QuicGetOneRttCrypto (quic, pkt, qb) (\<lambda>sp. QuicSPacketBuild e ev quic sp pkt qb fin)"

definition QBuffBuildPkt ::
    "env \<Rightarrow> 'c evp \<Rightarrow> 'c Quic \<Rightarrow> WPacket \<Rightarrow> QBUFF \<Rightarrow> bool \<Rightarrow> 'c build \<times> unit res" where
  "QBuffBuildPkt e ev quic pkt qb fin =
     (case qb_method (qb_pkt_type qb) of
        Inl err \<Rightarrow> ((quic, pkt, qb), Inl err)
      | Inr InitialMethod \<Rightarrow> QuicInitialPacketBuild e ev quic pkt qb fin
      | Inr HandshakeMethod \<Rightarrow> QuicHandshakePacketBuild e ev quic pkt qb fin
      | Inr AppDataMethod \<Rightarrow> QuicAppDataPacketBuild e ev quic pkt qb fin)"

end
