(* ===== verification/Pkt_Protect.thy ===== *)
theory Pkt_Protect
  imports Pkt_Build
begin

text \<open>
  What the builders of \<^verbatim>\<open>quic/format.c\<close> put on the wire, and that the receiving half opens it: the shape of a
  built packet, sealing followed by opening, the nonce, and the padding of Initial datagrams.
\<close>

section \<open>Packet numbers on the wire\<close>

lemma pn_bytes_word:
  assumes "n \<in> {1, 2, 3, 4}" and "uint (t :: u32) < 2 ^ (8 * n)"
  shows "be_word (be_bytes n (ucast t)) = t"
proof -
  have b: "\<not> bit t i" if "8 * n \<le> i" for i
  proof -
    have "take_bit (8 * n) (uint t) = uint t" using assms(2) by (intro take_bit_int_eq_self) simp_all
    then have "take_bit (8 * n) t = t" by (simp add: word_uint_eq_iff unsigned_take_bit_eq)
    then show ?thesis using that by (metis bit_take_bit_iff not_less)
  qed
  then have b': "i < 8 * n" if "bit t i" for i using that not_less by blast
  from assms(1) consider "n = Suc 0" | "n = Suc (Suc 0)" | "n = Suc (Suc (Suc 0))" | "n = Suc (Suc (Suc (Suc 0)))"
    by force
  then show ?thesis
    by cases (rule bit_eqI, auto simp: be_word_def bit_simps dest: b')+
qed

section \<open>The shape of a built packet\<close>

definition gcm_alg :: "u32 \<Rightarrow> bool" where
  "gcm_alg a \<longleftrightarrow> a = 3 \<or> a = 4 \<or> a = 5"

lemma gcm_alg_len: "gcm_alg a \<Longrightarrow> QuicCipherLenGet a n = Inr (n + 16)"
  by (auto simp: gcm_alg_def QuicCipherLenGet_def QuicCipherSuiteFind_def QUIC_ALG_MAX_def cipher_suite_def
      QuicAesGcmGetCipherLen_def EVP_GCM_TLS_TAG_LEN_def)

lemma gcm_alg_tag: "gcm_alg a \<Longrightarrow> QuicCipherGetTagLen a = Inr EVP_GCM_TLS_TAG_LEN"
  by (auto simp: gcm_alg_def QuicCipherGetTagLen_def QuicCipherSuiteFind_def QUIC_ALG_MAX_def cipher_suite_def)

text \<open>The encrypting space of one endpoint and the decrypting one of its peer, with the same keys.\<close>

definition spaces_paired :: "('c \<Rightarrow> 'c \<Rightarrow> bool) \<Rightarrow> ('c \<Rightarrow> 'c \<Rightarrow> bool) \<Rightarrow> 'c QuicCipherSpace \<Rightarrow> 'c QuicCipherSpace \<Rightarrow> bool" where
  "spaces_paired P H es ds \<longleftrightarrow>
     (let pe = qcs_pp_cipher (csp_ciphers es); pd = qcs_pp_cipher (csp_ciphers ds);
          he = qcs_hp_cipher (csp_ciphers es); hd = qcs_hp_cipher (csp_ciphers ds) in
      csp_cipher_inited es \<and> gcm_alg (qc_alg (pp_cipher pe)) \<and> gcm_alg (qc_alg (pp_cipher pd))
      \<and> qc_enc (pp_cipher pe) \<and> \<not> qc_enc (pp_cipher pd) \<and> pp_iv pd = pp_iv pe \<and> length (pp_iv pe) = 12
      \<and> (case (qc_ctx (pp_cipher pe), qc_ctx (pp_cipher pd), qc_ctx he, qc_ctx hd) of
           (Some e, Some d, Some e', Some d') \<Rightarrow> P e d \<and> H e' d' | _ \<Rightarrow> False))"

text \<open>The length field of a long header.\<close>

definition len_field :: "u8 \<Rightarrow> nat \<Rightarrow> bytes" where
  "len_field bits n = (if bits = QUIC_LPACKET_TYPE_RESV_MASK then varint_bytes (of_nat n) else [])"

lemma len_field_write:
  assumes "wp_wf p" and "grow_ok e p" and "n < 2 ^ 31" and "length (len_field bits n) \<le> wp_room p"
  shows "\<exists>p'. (if bits = QUIC_LPACKET_TYPE_RESV_MASK then QuicVariableLengthWrite e p (of_nat n) else (p, Inr ())) = (p', Inr ())
    \<and> wp_ext p p' (len_field bits n)"
proof (cases "bits = QUIC_LPACKET_TYPE_RESV_MASK")
  case True
  have "uint (of_nat n :: u64) < 2 ^ 62" using assms(3) by (simp add: unsigned_of_nat take_bit_nat_eq_self)
  then show ?thesis
    using QuicVariableLengthWrite_ok[OF _ assms(1,2), of "of_nat n"] assms(4) True by (simp add: len_field_def)
next
  case False
  then show ?thesis using assms(1) by (simp add: len_field_def)
qed

lemma wp_static_split:
  assumes "wp_wf p" and "wp_out p = xs"
  shows "wp_data p = xs @ drop (length xs) (wp_data p)"
  using assms length_wp_out[OF assms(1)] unfolding wp_out_def by (metis append_take_drop_id)

lemma build_writes_ok:
  assumes wf: "wp_wf p" and st: "wp_static p" and n: "1 \<le> n" "n \<le> 4" and t: "uint t < 2 ^ (8 * n)"
    and k: "k < 2 ^ 30" and room: "length (len_field bits (k + n)) + n + k \<le> wp_room p"
  shows "\<exists>p' D. bindS (if bits = QUIC_LPACKET_TYPE_RESV_MASK
        then QuicVariableLengthWrite e p (of_nat k + of_nat n) else (p, Inr ())) (\<lambda>pkt2 _.
      let s = WPacket_get_curr pkt2 in
      bindS (WPacketPutBytes e pkt2 t (of_nat n)) (\<lambda>pkt3 _.
      bindS (WPacketAllocateBytes e pkt3 (of_nat k)) (\<lambda>pkt4 dest. (pkt4, Inr (s, dest)))))
    = (p', Inr ((wp_gen p, int (length (wp_out p @ len_field bits (k + n)))),
                (wp_gen p, int (length (wp_out p @ len_field bits (k + n) @ be_bytes n (ucast t))))))
    \<and> length D = k \<and> wp_ext p p' (len_field bits (k + n) @ be_bytes n (ucast t) @ D)"
proof -
  let ?lf = "len_field bits (k + n)" and ?t = "be_bytes n (ucast t)"
  have g: "grow_ok e p" using st by simp
  obtain p2 where p2: "(if bits = QUIC_LPACKET_TYPE_RESV_MASK then QuicVariableLengthWrite e p (of_nat k + of_nat n)
      else (p, Inr ())) = (p2, Inr ())" and x2: "wp_ext p p2 ?lf"
    using len_field_write[OF wf g, of "k + n" bits, unfolded of_nat_add] n k room by auto
  have "n \<le> wp_room p2" using wp_ext_room[OF x2] room by simp
  from WPacketPutBytes_ok[OF wp_ext_wf[OF x2] grow_ok_ext[OF g x2] this, of t] t obtain p3 where
    p3: "WPacketPutBytes e p2 t (of_nat n) = (p3, Inr ())" and x3: "wp_ext p2 p3 ?t" by auto
  have x23: "wp_ext p p3 (?lf @ ?t)" using wp_ext_trans[OF x2 x3] .
  have "k \<le> wp_room p3" using wp_ext_room[OF x23] room by simp
  from WPacketAllocateBytes_ok[OF wp_ext_wf[OF x3] grow_ok_ext[OF g x23] this] obtain p4 D where
    p4: "WPacketAllocateBytes e p3 (of_nat k) = (p4, Inr (wp_gen p4, uint (wp_curr p3)))" and D: "length D = k"
    and x4: "wp_ext p3 p4 D" by blast
  have x: "wp_ext p p4 (?lf @ ?t @ D)" using wp_ext_trans[OF x23 x4] by simp
  have c: "uint (wp_curr q) = int (length (wp_out q))" if "wp_wf q" for q
    using length_wp_out[OF that] by simp
  have "WPacket_get_curr p2 = (wp_gen p, int (length (wp_out p @ ?lf)))"
    using c[OF wp_ext_wf[OF x2]] wp_ext_out[OF x2] x2 st
    by (auto simp: WPacket_get_curr_def WPacket_get_data_def wp_ext_def)
  moreover have "(wp_gen p4, uint (wp_curr p3)) = (wp_gen p, int (length (wp_out p @ ?lf @ ?t)))"
    using c[OF wp_ext_wf[OF x3]] wp_ext_out[OF x23] x st by (auto simp: wp_ext_def)
  ultimately show ?thesis using p2 p3 p4 D x by (intro exI[of _ p4] exI[of _ D]) (simp add: Let_def)
qed

section \<open>Sealing and opening a packet\<close>

text \<open>The packet a receiver sees at an offset of its datagram: a header, then what its length field covers.\<close>

definition rx_packet :: "bytes \<Rightarrow> nat \<Rightarrow> nat \<Rightarrow> nat \<Rightarrow> RPacket" where
  "rx_packet buf start hlen body =
     \<lparr>rp_buf = buf, rp_head = int start, rp_curr = int start + int hlen,
      rp_total = of_nat (hlen + body), rp_remaining = of_nat body\<rparr>"

lemma spaces_pairedE:
  assumes "spaces_paired P H es ds"
  obtains e d he hd where
    "qc_ctx (pp_cipher (qcs_pp_cipher (csp_ciphers es))) = Some e" "qc_ctx (pp_cipher (qcs_pp_cipher (csp_ciphers ds))) = Some d"
    "qc_ctx (qcs_hp_cipher (csp_ciphers es)) = Some he" "qc_ctx (qcs_hp_cipher (csp_ciphers ds)) = Some hd"
    "P e d" "H he hd"
  using assms by (auto simp: spaces_paired_def Let_def split: option.splits)

text \<open>A space after its contexts were used.\<close>

definition space_ctx :: "'c QuicCipherSpace \<Rightarrow> 'c \<Rightarrow> 'c \<Rightarrow> 'c QuicCipherSpace" where
  "space_ctx s h x = s\<lparr>csp_ciphers := \<lparr>qcs_hp_cipher = (qcs_hp_cipher (csp_ciphers s))\<lparr>qc_ctx := Some h\<rparr>,
     qcs_pp_cipher = pp_set_ctx (qcs_pp_cipher (csp_ciphers s)) x\<rparr>\<rparr>"

lemma spaces_paired_ctx:
  "spaces_paired P H es ds \<Longrightarrow> P e d \<Longrightarrow> H he hr \<Longrightarrow> spaces_paired P H (space_ctx es he e) (space_ctx ds hr d)"
  by (auto simp: spaces_paired_def Let_def space_ctx_def pp_set_ctx_def)

lemma seal_ok:
  fixes pt tb :: bytes
  assumes spec: "aead_spec ev P" "hp_spec ev H" and pair: "spaces_paired P H es ds"
    and n: "length tb = unat (f AND 3) + 1" and k: "k = length pt + 16" "length D = k" and big: "4 \<le> length tb + length pt"
    and hl: "length mid + length tb + 1 < k" and small: "k < 2 ^ 29"
  obtains e' d' he hr g x sealed where
    "spaces_paired P H (space_ctx es he e') (space_ctx ds hr d')" "length sealed = k" "length x = length tb"
    "QuicEncryptMessage ev (qcs_pp_cipher (csp_ciphers es)) (pre @ f # mid @ tb @ D @ B)
       (int (length (pre @ f # mid @ tb))) 0 (of_nat k) (f # mid @ tb) pn pt =
       Inr (pp_set_ctx (qcs_pp_cipher (csp_ciphers es)) e', pre @ f # mid @ tb @ sealed @ B, of_nat k)"
    "QuicEncryptHeader ev (qcs_hp_cipher (csp_ciphers es)) (pre @ f # mid @ tb @ sealed @ B) (int (length pre))
       (int (length (pre @ f # mid))) (of_nat (length tb + k)) bits =
       Inr ((qcs_hp_cipher (csp_ciphers es))\<lparr>qc_ctx := Some he\<rparr>, pre @ g # mid @ x @ sealed @ B)"
    "\<And>pre ys. QuicDecryptHeader ev (qcs_hp_cipher (csp_ciphers ds)) 0
       (rx_packet (pre @ g # mid @ x @ sealed @ ys) (length pre) (length mid + 1) (length tb + k)) bits =
       Inr ((qcs_hp_cipher (csp_ciphers ds))\<lparr>qc_ctx := Some hr\<rparr>, be_word tb, of_nat (length tb),
         rx_packet (pre @ f # mid @ tb @ sealed @ ys) (length pre) (length mid + length tb + 1) k)"
    "\<And>pre ys out osize. length pt \<le> length out \<Longrightarrow> length out = unat osize \<Longrightarrow> length mid + length tb + 1 < length out \<Longrightarrow>
       length out < 2 ^ 31 \<Longrightarrow>
       QuicDecryptMessage ev (qcs_pp_cipher (csp_ciphers ds)) out 0 osize pn
         (rx_packet (pre @ f # mid @ tb @ sealed @ ys) (length pre) (length mid + length tb + 1) k) =
       Inr (pp_set_ctx (qcs_pp_cipher (csp_ciphers ds)) d', pt @ drop (length pt) out, of_nat (length pt))"
proof -
  let ?pe = "qcs_pp_cipher (csp_ciphers es)" and ?pd = "qcs_pp_cipher (csp_ciphers ds)"
  let ?he = "qcs_hp_cipher (csp_ciphers es)" and ?hd = "qcs_hp_cipher (csp_ciphers ds)"
  let ?h = "f # mid @ tb"
  from pair obtain e d h0 h1 where c: "qc_ctx (pp_cipher ?pe) = Some e" "qc_ctx (pp_cipher ?pd) = Some d"
    "qc_ctx ?he = Some h0" "qc_ctx ?hd = Some h1" "P e d" "H h0 h1" by (rule spaces_pairedE)
  have p: "qc_enc (pp_cipher ?pe)" "\<not> qc_enc (pp_cipher ?pd)" "length (pp_iv ?pe) = 12" "pp_iv ?pd = pp_iv ?pe"
    "QuicCipherGetTagLen (qc_alg (pp_cipher ?pe)) = Inr EVP_GCM_TLS_TAG_LEN"
    "QuicCipherGetTagLen (qc_alg (pp_cipher ?pd)) = Inr EVP_GCM_TLS_TAG_LEN"
    using pair by (auto simp: spaces_paired_def Let_def gcm_alg_tag)
  have D: "length D = length pt + 16" "length D < 2 ^ 31" "length ?h < length D" using k hl small by simp_all
  from encrypt_message_ok[OF spec(1) c(5,1) p(1,5,3) D, of "pre @ ?h" B pn] obtain e' d' ct tag where
    E: "QuicEncryptMessage ev ?pe (pre @ f # mid @ tb @ D @ B) (int (length (pre @ ?h))) 0 (of_nat k) ?h pn pt =
      Inr (pp_set_ctx ?pe e', pre @ f # mid @ tb @ (ct @ tag) @ B, of_nat k)"
    and ct: "length ct = length pt" "length tag = 16"
    and o1: "open_calls ev d (nonce_of (pp_iv ?pe) pn) tag ?h ct = Some (d', length ?h, pt, [])" and P': "P e' d'"
    using k by auto
  have l: "20 \<le> length tb + length (ct @ tag)" "length tb + length (ct @ tag) < 2 ^ 31"
    "of_nat (length tb + k) = (of_nat (length tb + length (ct @ tag)) :: u64)"
    using ct k hl small big by auto
  from header_protection_pair[OF spec(2) c(3,4,6) n l, of mid bits] obtain he hr g x where H': "H he hr"
    and x: "length x = length tb"
    and EH: "\<And>pre ys. QuicEncryptHeader ev ?he (pre @ f # mid @ tb @ (ct @ tag) @ ys) (int (length pre))
         (int (length pre) + 1 + int (length mid)) (of_nat (length tb + k)) bits
       = Inr (?he\<lparr>qc_ctx := Some he\<rparr>, pre @ g # mid @ x @ (ct @ tag) @ ys)"
    and DH: "\<And>pre ys tot p. p = int (length pre) + 1 + int (length mid) \<Longrightarrow>
       QuicDecryptHeader ev ?hd 0 \<lparr>rp_buf = pre @ g # mid @ x @ (ct @ tag) @ ys, rp_head = int (length pre), rp_curr = p,
           rp_total = tot, rp_remaining = of_nat (length tb + k)\<rparr> bits
       = Inr (?hd\<lparr>qc_ctx := Some hr\<rparr>, be_word tb, of_nat (length tb),
           RPacketForward \<lparr>rp_buf = pre @ f # mid @ tb @ (ct @ tag) @ ys, rp_head = int (length pre), rp_curr = p,
             rp_total = tot, rp_remaining = of_nat (length tb + k)\<rparr> (of_nat (length tb)))"
    by blast
  have tb4: "length tb \<le> 4" using n and3_cases[of f] by simp
  have fw: "RPacketForward \<lparr>rp_buf = b, rp_head = int (length pre), rp_curr = int (length pre) + (int (length mid) + 1),
      rp_total = tot, rp_remaining = of_nat (length tb + k)\<rparr> (of_nat (length tb)) =
      \<lparr>rp_buf = b, rp_head = int (length pre), rp_curr = int (length pre) + int (length mid + length tb + 1),
      rp_total = tot, rp_remaining = of_nat k\<rparr>" for b and pre :: bytes and tot
    using tb4 by (simp add: RPacketForward_def unsigned_of_nat take_bit_nat_eq_self)
  show ?thesis
  proof (rule that[OF spaces_paired_ctx[OF pair P' H'] _ x E])
    show "length (ct @ tag) = k" using ct k by simp
    show "QuicEncryptHeader ev ?he (pre @ f # mid @ tb @ (ct @ tag) @ B) (int (length pre))
       (int (length (pre @ f # mid))) (of_nat (length tb + k)) bits =
       Inr (?he\<lparr>qc_ctx := Some he\<rparr>, pre @ g # mid @ x @ (ct @ tag) @ B)"
      using EH[of pre B] by (simp add: ac_simps)
    show "QuicDecryptHeader ev ?hd 0 (rx_packet (pre @ g # mid @ x @ (ct @ tag) @ ys) (length pre) (length mid + 1) (length tb + k)) bits =
       Inr (?hd\<lparr>qc_ctx := Some hr\<rparr>, be_word tb, of_nat (length tb),
         rx_packet (pre @ f # mid @ tb @ (ct @ tag) @ ys) (length pre) (length mid + length tb + 1) k)" for pre ys
      using DH[of "int (length pre) + (int (length mid) + 1)" pre ys "of_nat (length mid + 1 + (length tb + k))"]
      unfolding fw by (simp add: rx_packet_def ac_simps)
    show "QuicDecryptMessage ev ?pd out 0 osize pn
         (rx_packet (pre @ f # mid @ tb @ (ct @ tag) @ ys) (length pre) (length mid + length tb + 1) k) =
       Inr (pp_set_ctx ?pd d', pt @ drop (length pt) out, of_nat (length pt))"
      if "length pt \<le> length out" "length out = unat osize" "length mid + length tb + 1 < length out"
        "length out < 2 ^ 31" for pre ys out osize
      by (rule decrypt_message_ok[OF _ ct c(2) p(2,6), where head = ?h and A = pre and B = ys])
        (use o1 p(3,4) that ct k hl small in \<open>simp_all add: rx_packet_def ac_simps\<close>)
  qed
qed

lemma crypto_upd_upd [simp]: "crypto_upd (crypto_upd quic sp c) sp c' = crypto_upd quic sp c'"
  by (cases sp) simp_all

lemma crypto_at_space: "crypto_at quic sp = Inr c \<Longrightarrow> sp \<noteq> CrStart"
  by (cases sp) simp_all

lemma header_input:
  assumes "length h < 2 ^ 31"
  shows "evp_input (pre @ h @ rest) (int (length pre)) (scast (word_of_int (int (length h)) :: u32)) = Inr h"
proof -
  have "(scast (word_of_int (int (length h)) :: u32) :: u64) = of_nat (length h)"
    using scast_nat31[OF assms] by simp
  then show ?thesis using evp_input_small[OF assms] mem_slice_at[of "int (length pre)" pre "length h" h rest] by simp
qed

text \<open>The data of a send buffer.\<close>

definition qb_payload :: "QBUFF \<Rightarrow> bytes" where
  "qb_payload qb = take (unat (qb_data_len qb)) (qb_buff qb)"

lemma qb_payload_input:
  assumes "qb_wf qb"
  shows "evp_input (qb_buff qb) (QBuffHead qb) (QBuffGetDataLen qb) = Inr (qb_payload qb)"
    and "QBuffGetDataLen qb = of_nat (length (qb_payload qb))"
proof -
  have l: "unat (qb_data_len qb) \<le> length (qb_buff qb)" "unat (qb_data_len qb) < 2 ^ 31"
    using assms by (auto simp: qb_wf_def)
  then show "QBuffGetDataLen qb = of_nat (length (qb_payload qb))"
    by (simp add: QBuffGetDataLen_def qb_payload_def)
  have "qb_data_len qb = of_nat (unat (qb_data_len qb))" by simp
  then have "evp_input (qb_buff qb) 0 (qb_data_len qb) = mem_slice (qb_buff qb) 0 (unat (qb_data_len qb))"
    using evp_input_small[OF l(2)] by metis
  then show "evp_input (qb_buff qb) (QBuffHead qb) (QBuffGetDataLen qb) = Inr (qb_payload qb)"
    using l(1) by (simp add: QBuffHead_def QBuffGetDataLen_def qb_payload_def mem_slice_def)
qed

text \<open>What is left of a build once the header, of \<open>head\<close> from \<open>start\<close>, is complete and the space for the
  sealed payload taken.\<close>

definition build_rest ::
    "'c evp \<Rightarrow> 'c Quic \<Rightarrow> crypto_space \<Rightarrow> 'c QUIC_CRYPTO \<Rightarrow> WPacket \<Rightarrow> QBUFF \<Rightarrow> bytes \<Rightarrow> int \<Rightarrow> bytes \<Rightarrow> nat \<Rightarrow> nat \<Rightarrow>
     u32 \<Rightarrow> bytes \<Rightarrow> u8 \<Rightarrow> 'c build \<times> unit res" where
  "build_rest ev quic sp c p qb m start head n k t pt bits =
     (case bindR (QuicEncryptMessage ev (qcs_pp_cipher (csp_ciphers (qy_encrypt c))) m (start + int (length head)) 0
               (of_nat k) head (ucast t) pt) (\<lambda>x.
             bindR (if of_nat k \<noteq> snd (snd x) then Inl Fail else Inr (fst x, fst (snd x))) (\<lambda>y.
             bindR (QuicEncryptHeader ev (qcs_hp_cipher (csp_ciphers (qy_encrypt c))) (snd y) start
               (start + int (length head) - int n) (of_nat n + of_nat k) bits) (\<lambda>z.
               Inr (c\<lparr>qy_encrypt := (qy_encrypt c)\<lparr>csp_ciphers := \<lparr>qcs_hp_cipher = fst z, qcs_pp_cipher = fst y\<rparr>\<rparr>\<rparr>, snd z))))
      of Inl err \<Rightarrow> ((crypto_upd quic sp c, p, qb), Inl err)
       | Inr r \<Rightarrow> ((crypto_upd quic sp (fst r), p\<lparr>wp_data := snd r\<rparr>, qb), Inr ()))"

text \<open>What is left of a build once the header is complete and the space for the payload taken.\<close>

lemma packet_build_steps:
  fixes pre mid :: bytes
  assumes c: "crypto_at quic sp = Inr c" and ci: "csp_cipher_inited (qy_encrypt c)"
    and ga: "gcm_alg (qc_alg (pp_cipher (qcs_pp_cipher (csp_ciphers (qy_encrypt c)))))"
    and wf: "wp_wf pkt" "wp_static pkt" and out: "wp_out pkt = pre @ f # mid" and n: "unat pnl = unat (f AND 3) + 1"
    and qb: "qb_wf qb" and k: "k = length (qb_payload qb) + 16"
    and t: "QuicPktNumberEncode (qy_pkt_num c + 1) (qy_largest_acked c) (8 * unat pnl) = Inr t" "uint t < 2 ^ (8 * unat pnl)"
    and h: "h = mid @ len_field bits (k + unat pnl)" and hb: "length h < 2 ^ 30" and small: "k < 2 ^ 29"
    and room: "length (len_field bits (k + unat pnl)) + unat pnl + k \<le> wp_room pkt"
  obtains p' D B where "wp_wf p'" "wp_data p' = pre @ f # h @ be_bytes (unat pnl) (ucast t) @ D @ B" "length D = k"
    "wp_out p' = pre @ f # h @ be_bytes (unat pnl) (ucast t) @ D"
    "QuicPacketBuild e ev quic sp (wp_gen pkt, int (length pre)) pnl pkt qb bits =
       build_rest ev quic sp (c\<lparr>qy_pkt_num := qy_pkt_num c + 1\<rparr>) p' (qb\<lparr>qb_pkt_num := qy_pkt_num c + 1\<rparr>)
         (pre @ f # h @ be_bytes (unat pnl) (ucast t) @ D @ B) (int (length pre)) (f # h @ be_bytes (unat pnl) (ucast t))
         (unat pnl) k t (qb_payload qb) bits"
proof -
  let ?n = "unat pnl" and ?lf = "len_field bits (k + unat pnl)" and ?es = "qy_encrypt c"
  let ?tb = "be_bytes ?n (ucast t)"
  have n4: "1 \<le> ?n" "?n \<le> 4" using n and3_cases[of f] by linarith+
  have pnl: "(ucast pnl :: u64) = of_nat ?n" by simp
  have pnl8: "unat (pnl * 8) = 8 * ?n"
    using n4(2) by (simp add: unat_word_ariths)
  have kb: "k < 2 ^ 30" using small by simp
  from build_writes_ok[OF wf n4 t(2) kb room, of e] obtain p' D where
    W: "bindS (if bits = QUIC_LPACKET_TYPE_RESV_MASK
        then QuicVariableLengthWrite e pkt (of_nat k + of_nat ?n) else (pkt, Inr ())) (\<lambda>pkt2 _.
      let s = WPacket_get_curr pkt2 in
      bindS (WPacketPutBytes e pkt2 t (of_nat ?n)) (\<lambda>pkt3 _.
      bindS (WPacketAllocateBytes e pkt3 (of_nat k)) (\<lambda>pkt4 dest. (pkt4, Inr (s, dest)))))
    = (p', Inr ((wp_gen pkt, int (length (wp_out pkt @ ?lf))), (wp_gen pkt, int (length (wp_out pkt @ ?lf @ ?tb)))))"
    and D: "length D = k" and x: "wp_ext pkt p' (?lf @ ?tb @ D)" by blast
  obtain B where data: "wp_data p' = pre @ f # h @ ?tb @ D @ B"
    using wp_static_split[OF wp_ext_wf[OF x] wp_ext_out[OF x]] out h by simp
  have gen: "wp_gen p' = wp_gen pkt" using x wf(2) by (simp add: wp_ext_def)
  have lenl: "(of_nat (length (qb_payload qb)) + 16 :: u64) = of_nat k" using k by simp
  have k0: "(of_nat k :: u64) \<noteq> 0"
  proof -
    have "unat (of_nat k :: u64) = k" using small by (intro of_nat_unat64) simp
    then show ?thesis using k by (metis add_is_0 unat_0 zero_neq_numeral)
  qed
  have off: "int (length (pre @ f # h @ ?tb)) - int (length pre) = int (length (f # h @ ?tb))" by simp
  have hb': "length (f # h @ ?tb) < 2 ^ 31" using hb n4(2) by simp
  have pos: "0 < sint (word_of_int (int (length (f # h @ ?tb))) :: u32)"
    unfolding of_int_of_nat_eq sint_nat31[OF hb'] by (simp only: of_nat_0_less_iff list.size)
  have st: "int (length (wp_out pkt @ ?lf)) = int (length (pre @ f # h))"
    "int (length (wp_out pkt @ ?lf @ ?tb)) = int (length (pre @ f # h @ ?tb))" using out h by simp_all
  have hi: "evp_input (pre @ f # h @ ?tb @ D @ B) (int (length pre)) (scast (word_of_int (int (length (f # h @ ?tb))) :: u32)) = Inr (f # h @ ?tb)"
    using header_input[OF hb', of pre "D @ B"] by simp
  let ?qb = "qb\<lparr>qb_pkt_num := qy_pkt_num c + 1\<rparr>"
  have pi: "evp_input (qb_buff ?qb) (QBuffHead ?qb) (QBuffGetDataLen ?qb) = Inr (qb_payload qb)"
    "QBuffGetDataLen ?qb = of_nat (length (qb_payload qb))"
    using qb_payload_input[OF qb] by (simp_all add: QBuffHead_def QBuffGetDataLen_def)
  have cl: "QuicGetEncryptedPayloadLen (qcs_pp_cipher (csp_ciphers ?es)) (QBuffGetDataLen ?qb) = Inr (of_nat k)"
    unfolding pi QuicGetEncryptedPayloadLen_def gcm_alg_len[OF ga] lenl ..
  have cu: "qy_encrypt (c\<lparr>qy_pkt_num := v\<rparr>) = ?es" "qy_pkt_num (c\<lparr>qy_pkt_num := v\<rparr>) = v"
    "qy_largest_acked (c\<lparr>qy_pkt_num := v\<rparr>) = qy_largest_acked c" for v by simp_all
  have at: "int (length pre) + int (length (f # h @ ?tb)) = int (length (pre @ f # h @ ?tb))"
    "int (length (pre @ f # h @ ?tb)) - int ?n = int (length (pre @ f # h))" by simp_all
  have as: "bindR (bindR x f) g = bindR x (\<lambda>y. bindR (f y) g)" for x :: "'x res" and f :: "'x \<Rightarrow> 'y res" and g :: "'y \<Rightarrow> 'z res"
    by (cases x) simp_all
  show ?thesis
  proof (rule that[OF wp_ext_wf[OF x] data D])
    show "wp_out p' = pre @ f # h @ ?tb @ D" using wp_ext_out[OF x] out h by simp
    show "QuicPacketBuild e ev quic sp (wp_gen pkt, int (length pre)) pnl pkt qb bits =
       build_rest ev quic sp (c\<lparr>qy_pkt_num := qy_pkt_num c + 1\<rparr>) p' ?qb (pre @ f # h @ ?tb @ D @ B)
         (int (length pre)) (f # h @ ?tb) ?n k t (qb_payload qb) bits"
      unfolding QuicPacketBuild_def c sum.case pnl8 pnl Let_def cu
      by (simp only: ci not_True_eq_False if_False t(1) sum.case cl k0 W[unfolded Let_def] prod.case fst_conv snd_conv
          gen simp_thms if_True bindR_simps off pos st assertR_def crypto_upd_upd QuicEncryptPayload_def data hi pi(1) as
          case_prod_beta' build_rest_def at cu)
  qed
qed

lemma packet_build_ok:
  fixes pre mid :: bytes
  assumes spec: "aead_spec ev P" "hp_spec ev H" and c: "crypto_at quic sp = Inr c" and pair: "spaces_paired P H (qy_encrypt c) ds"
    and wf: "wp_wf pkt" "wp_static pkt" and out: "wp_out pkt = pre @ f # mid" and n: "unat pnl = unat (f AND 3) + 1"
    and qb: "qb_wf qb" and k: "k = length (qb_payload qb) + 16"
    and t: "QuicPktNumberEncode (qy_pkt_num c + 1) (qy_largest_acked c) (8 * unat pnl) = Inr t" "uint t < 2 ^ (8 * unat pnl)"
    and h: "h = mid @ len_field bits (k + unat pnl)" and big: "4 \<le> unat pnl + length (qb_payload qb)"
    and hl: "length h + unat pnl + 1 < k" and small: "k < 2 ^ 29"
    and room: "length (len_field bits (k + unat pnl)) + unat pnl + k \<le> wp_room pkt"
  obtains c' pkt' he x d' hr g y sealed where
    "QuicPacketBuild e ev quic sp (wp_gen pkt, int (length pre)) pnl pkt qb bits =
       ((crypto_upd quic sp c', pkt', qb\<lparr>qb_pkt_num := qy_pkt_num c + 1\<rparr>), Inr ())"
    "c' = c\<lparr>qy_pkt_num := qy_pkt_num c + 1, qy_encrypt := space_ctx (qy_encrypt c) he x\<rparr>"
    "wp_wf pkt'" "wp_out pkt' = pre @ g # h @ y @ sealed" "length sealed = k" "length y = unat pnl"
    "spaces_paired P H (qy_encrypt c') (space_ctx ds hr d')"
    "\<And>pre ys. QuicDecryptHeader ev (qcs_hp_cipher (csp_ciphers ds)) 0
       (rx_packet (pre @ g # h @ y @ sealed @ ys) (length pre) (length h + 1) (unat pnl + k)) bits =
       Inr ((qcs_hp_cipher (csp_ciphers ds))\<lparr>qc_ctx := Some hr\<rparr>, t, pnl,
         rx_packet (pre @ f # h @ be_bytes (unat pnl) (ucast t) @ sealed @ ys) (length pre) (length h + unat pnl + 1) k)"
    "\<And>pre ys out osize. length (qb_payload qb) \<le> length out \<Longrightarrow> length out = unat osize \<Longrightarrow> length h + unat pnl + 1 < length out \<Longrightarrow>
       length out < 2 ^ 31 \<Longrightarrow>
       QuicDecryptMessage ev (qcs_pp_cipher (csp_ciphers ds)) out 0 osize (ucast t)
         (rx_packet (pre @ f # h @ be_bytes (unat pnl) (ucast t) @ sealed @ ys) (length pre) (length h + unat pnl + 1) k) =
       Inr (pp_set_ctx (qcs_pp_cipher (csp_ciphers ds)) d', qb_payload qb @ drop (length (qb_payload qb)) out,
            of_nat (length (qb_payload qb)))"
proof -
  let ?n = "unat pnl" and ?es = "qy_encrypt c"
  let ?tb = "be_bytes ?n (ucast t)"
  have n4: "1 \<le> ?n" "?n \<le> 4" using n and3_cases[of f] by linarith+
  have ci: "csp_cipher_inited ?es" and ga: "gcm_alg (qc_alg (pp_cipher (qcs_pp_cipher (csp_ciphers ?es))))"
    using pair by (simp_all add: spaces_paired_def Let_def)
  have hb: "length h < 2 ^ 30" using hl small by simp
  obtain p' D B where p': "wp_wf p'" "wp_data p' = pre @ f # h @ ?tb @ D @ B" "length D = k"
    "wp_out p' = pre @ f # h @ ?tb @ D"
    and build: "QuicPacketBuild e ev quic sp (wp_gen pkt, int (length pre)) pnl pkt qb bits =
      build_rest ev quic sp (c\<lparr>qy_pkt_num := qy_pkt_num c + 1\<rparr>) p' (qb\<lparr>qb_pkt_num := qy_pkt_num c + 1\<rparr>)
         (pre @ f # h @ ?tb @ D @ B) (int (length pre)) (f # h @ ?tb) ?n k t (qb_payload qb) bits"
    by (rule packet_build_steps[OF c ci ga wf out n qb k t h hb small room, of e ev], rule that)
  have ntb: "length ?tb = unat (f AND 3) + 1" using n by simp
  have big': "4 \<le> length ?tb + length (qb_payload qb)" and hl': "length h + length ?tb + 1 < k" using big hl by simp_all
  obtain e' d' he hr g y sealed where
    S: "spaces_paired P H (space_ctx ?es he e') (space_ctx ds hr d')" "length sealed = k" "length y = length ?tb"
    and EM: "QuicEncryptMessage ev (qcs_pp_cipher (csp_ciphers ?es)) (pre @ f # h @ ?tb @ D @ B)
       (int (length (pre @ f # h @ ?tb))) 0 (of_nat k) (f # h @ ?tb) (ucast t) (qb_payload qb) =
       Inr (pp_set_ctx (qcs_pp_cipher (csp_ciphers ?es)) e', pre @ f # h @ ?tb @ sealed @ B, of_nat k)"
    and EH: "QuicEncryptHeader ev (qcs_hp_cipher (csp_ciphers ?es)) (pre @ f # h @ ?tb @ sealed @ B) (int (length pre))
       (int (length (pre @ f # h))) (of_nat (length ?tb + k)) bits =
       Inr ((qcs_hp_cipher (csp_ciphers ?es))\<lparr>qc_ctx := Some he\<rparr>, pre @ g # h @ y @ sealed @ B)"
    and DH: "\<And>pre ys. QuicDecryptHeader ev (qcs_hp_cipher (csp_ciphers ds)) 0
       (rx_packet (pre @ g # h @ y @ sealed @ ys) (length pre) (length h + 1) (length ?tb + k)) bits =
       Inr ((qcs_hp_cipher (csp_ciphers ds))\<lparr>qc_ctx := Some hr\<rparr>, be_word ?tb, of_nat (length ?tb),
         rx_packet (pre @ f # h @ ?tb @ sealed @ ys) (length pre) (length h + length ?tb + 1) k)"
    and DM: "\<And>pre ys out osize. length (qb_payload qb) \<le> length out \<Longrightarrow> length out = unat osize \<Longrightarrow>
       length h + length ?tb + 1 < length out \<Longrightarrow> length out < 2 ^ 31 \<Longrightarrow>
       QuicDecryptMessage ev (qcs_pp_cipher (csp_ciphers ds)) out 0 osize (ucast t)
         (rx_packet (pre @ f # h @ ?tb @ sealed @ ys) (length pre) (length h + length ?tb + 1) k) =
       Inr (pp_set_ctx (qcs_pp_cipher (csp_ciphers ds)) d', qb_payload qb @ drop (length (qb_payload qb)) out,
            of_nat (length (qb_payload qb)))" by (rule seal_ok[OF spec pair ntb k p'(3) big' hl' small, of pre B "ucast t" bits], rule that)
  let ?c' = "c\<lparr>qy_pkt_num := qy_pkt_num c + 1, qy_encrypt := space_ctx ?es he e'\<rparr>"
  let ?p = "p'\<lparr>wp_data := pre @ g # h @ y @ sealed @ B\<rparr>" and ?qb = "qb\<lparr>qb_pkt_num := qy_pkt_num c + 1\<rparr>"
  have EH': "QuicEncryptHeader ev (qcs_hp_cipher (csp_ciphers ?es)) (pre @ f # h @ ?tb @ sealed @ B) (int (length pre))
       (int (length (pre @ f # h))) (of_nat ?n + of_nat k) bits =
       Inr ((qcs_hp_cipher (csp_ciphers ?es))\<lparr>qc_ctx := Some he\<rparr>, pre @ g # h @ y @ sealed @ B)"
    using EH unfolding length_be_bytes of_nat_add .
  have at: "int (length pre) + int (length (f # h @ ?tb)) = int (length (pre @ f # h @ ?tb))"
    "int (length (pre @ f # h @ ?tb)) - int ?n = int (length (pre @ f # h))" by simp_all
  have cu: "qy_encrypt (c\<lparr>qy_pkt_num := v\<rparr>) = ?es" for v by simp
  have build: "QuicPacketBuild e ev quic sp (wp_gen pkt, int (length pre)) pnl pkt qb bits = ((crypto_upd quic sp ?c', ?p, ?qb), Inr ())"
    unfolding build
    by (simp only: build_rest_def at cu EM bindR_simps fst_conv snd_conv not_True_eq_False if_False simp_thms EH' sum.case)
      (simp add: space_ctx_def)
  have ext: "wp_wf ?p \<and> wp_out ?p = pre @ g # h @ y @ sealed"
  proof
    show "wp_wf ?p" using wp_wf_data[of "pre @ g # h @ y @ sealed @ B" p'] p' S(2,3) by simp
    have "unat (wp_curr p') = length (pre @ f # h @ ?tb @ D)"
      using length_wp_out[OF p'(1)] p'(4) by simp
    then show "wp_out ?p = pre @ g # h @ y @ sealed" using S(2,3) p'(3) by (simp add: wp_out_def)
  qed
  have tin: "?n \<in> {1, 2, 3, 4}" using n4 by auto
  show ?thesis
  proof (rule that[OF build refl])
    show "QuicDecryptHeader ev (qcs_hp_cipher (csp_ciphers ds)) 0
       (rx_packet (pre @ g # h @ y @ sealed @ ys) (length pre) (length h + 1) (?n + k)) bits =
       Inr ((qcs_hp_cipher (csp_ciphers ds))\<lparr>qc_ctx := Some hr\<rparr>, t, pnl,
         rx_packet (pre @ f # h @ ?tb @ sealed @ ys) (length pre) (length h + ?n + 1) k)" for pre ys
      using DH[of pre ys] pn_bytes_word[OF tin t(2)] by simp
    show "QuicDecryptMessage ev (qcs_pp_cipher (csp_ciphers ds)) out 0 osize (ucast t)
         (rx_packet (pre @ f # h @ ?tb @ sealed @ ys) (length pre) (length h + ?n + 1) k) =
       Inr (pp_set_ctx (qcs_pp_cipher (csp_ciphers ds)) d', qb_payload qb @ drop (length (qb_payload qb)) out,
            of_nat (length (qb_payload qb)))"
      if "length (qb_payload qb) \<le> length out" "length out = unat osize" "length h + ?n + 1 < length out" "length out < 2 ^ 31"
      for pre ys out osize
      using DM[of out osize pre ys] that by simp
  qed (use ext S in simp_all)
qed

text \<open>C4: sealing and opening a packet: what \<^verbatim>\<open>QuicPacketBuild\<close> writes behind a header, for a send buffer of a
  space in use, \<^verbatim>\<open>QuicDecryptPacket\<close> of a peer with the same keys opens at any place of any datagram: it
  returns the payload and has the packet's number as the largest received, the packet number of the sender
  has moved on, and the two ends can go on. This is for packet numbers of one to three bytes in the window
  the receiver expects, a payload that with the packet number has at least four bytes, and a header shorter
  than payload and tag.\<close>

theorem packet_seal_open:
  fixes pre mid :: bytes
  assumes "aead_spec ev P" and "hp_spec ev H" and "crypto_at quic sp = Inr c"
    and "spaces_paired P H (qy_encrypt c) (qy_decrypt d)" and "wp_wf pkt" and "wp_static pkt" and "wp_out pkt = pre @ f # mid"
    and "unat pnl = unat (f AND 3) + 1" and "pnl \<in> {1, 2, 3}" and "qb_wf qb" and "k = length (qb_payload qb) + 16"
    and "uint (qy_pkt_num c + 1) < 2 ^ 62" and "uint (qy_largest_pn d) < uint (qy_pkt_num c + 1)"
    and "uint (qy_pkt_num c + 1) - uint (qy_largest_pn d) < 2 ^ 31" and "qy_pkt_num c + 1 \<noteq> QUIC_PKT_NUM_MAX"
    and "qy_largest_acked c = 0 \<or> QUIC_GE (qy_pkt_num c + 1) (qy_largest_acked c) \<and> qy_largest_acked c \<le> qy_pkt_num c + 1"
    and "pn_in_window (qy_largest_pn d) (qy_pkt_num c + 1) (8 * unat pnl)"
    and "h = mid @ len_field bits (k + unat pnl)" and "4 \<le> unat pnl + length (qb_payload qb)"
    and "length h + unat pnl + 1 < k" and "k < 2 ^ 29"
    and "length (len_field bits (k + unat pnl)) + unat pnl + k \<le> wp_room pkt"
    and "length buf = unat osize" and "length buf < 2 ^ 31" and "length (qb_payload qb) \<le> length buf"
    and "length h + unat pnl + 1 < length buf"
  shows "\<exists>c' pkt' d' wire. QuicPacketBuild e ev quic sp (wp_gen pkt, int (length pre)) pnl pkt qb bits =
       ((crypto_upd quic sp c', pkt', qb\<lparr>qb_pkt_num := qy_pkt_num c + 1\<rparr>), Inr ())
    \<and> qy_pkt_num c' = qy_pkt_num c + 1 \<and> wp_out pkt' = pre @ wire \<and> length wire = length h + 1 + (unat pnl + k)
    \<and> (\<forall>pre ys. \<exists>p. QuicDecryptPacket e' ev d (rx_packet (pre @ wire @ ys) (length pre) (length h + 1) (unat pnl + k)) buf 0 osize bits
         = (d', Inr (p, qb_payload qb @ drop (length (qb_payload qb)) buf, of_nat (length (qb_payload qb)))))
    \<and> qy_largest_pn d' = qy_pkt_num c + 1 \<and> spaces_paired P H (qy_encrypt c') (qy_decrypt d')"
proof -
  let ?pn = "qy_pkt_num c + 1" and ?n = "unat pnl" and ?pl = "qb_payload qb" and ?ds = "qy_decrypt d"
  have n3: "8 * ?n \<in> {8, 16, 24}" using assms(9) by auto
  have l62: "uint (qy_largest_pn d) < 2 ^ 62" using assms(12,13) by linarith
  from n3 assms(12) l62 assms(16,17) obtain t where t: "QuicPktNumberEncode ?pn (qy_largest_acked c) (8 * ?n) = Inr t"
    "QuicPktNumberDecode (qy_largest_pn d) t (8 * ?n) = Inr ?pn" "uint t < 2 ^ (8 * ?n)" by (rule pn_window_roundtrip)
  have lt: "QUIC_LT (qy_largest_pn d) ?pn"
  proof -
    have "quic_diff (qy_largest_pn d) ?pn = uint (qy_largest_pn d) - uint ?pn"
      by (rule quic_diff_exact) (use assms(13,14) in simp_all)
    then show ?thesis using assms(13) by (simp add: quic_cmp_defs)
  qed
  show ?thesis
  proof (rule packet_build_ok[OF assms(1-8,10,11) t(1,3) assms(18-22), of e], goal_cases)
    case (1 c' pkt' he x d' hr g y sealed)
    let ?d = "d\<lparr>qy_arriv_time := env_now e', qy_largest_pn := ?pn, qy_decrypt := space_ctx ?ds hr d'\<rparr>"
    have D: "QuicDecryptPacket e' ev d (rx_packet (pre @ (g # h @ y @ sealed) @ ys) (length pre) (length h + 1) (?n + k)) buf 0 osize bits
      = (?d, Inr (rx_packet (pre @ f # h @ be_bytes ?n (ucast t) @ sealed @ ys) (length pre) (length h + ?n + 1) k,
           ?pl @ drop (length ?pl) buf, of_nat (length ?pl)))" for pre ys
    proof -
      have dh: "QuicDecryptHeader ev (qcs_hp_cipher (csp_ciphers ?ds)) 0
          (rx_packet (pre @ (g # h @ y @ sealed) @ ys) (length pre) (length h + 1) (?n + k)) bits =
        Inr ((qcs_hp_cipher (csp_ciphers ?ds))\<lparr>qc_ctx := Some hr\<rparr>, t, pnl,
          rx_packet (pre @ f # h @ be_bytes ?n (ucast t) @ sealed @ ys) (length pre) (length h + ?n + 1) k)"
        using 1(8)[of pre ys] by simp
      have pn8: "unat (pnl * 8) = 8 * ?n" using assms(9) by auto
      show ?thesis
        using dh t(2) assms(15) lt 1(9)[OF assms(25,23,26,24), of pre ys]
        by (simp add: QuicDecryptPacket_def Let_def pn8 space_ctx_def)
    qed
    have "QuicPacketBuild e ev quic sp (wp_gen pkt, int (length pre)) pnl pkt qb bits =
       ((crypto_upd quic sp c', pkt', qb\<lparr>qb_pkt_num := ?pn\<rparr>), Inr ())" by (rule 1(1))
    moreover have "qy_pkt_num c' = ?pn" "wp_out pkt' = pre @ g # h @ y @ sealed"
      "length (g # h @ y @ sealed) = length h + 1 + (?n + k)" "spaces_paired P H (qy_encrypt c') (qy_decrypt ?d)"
      using 1(2,4-7) by simp_all
    ultimately show ?case using D
      by (intro exI[of _ c'] exI[of _ pkt'] exI[of _ ?d] exI[of _ "g # h @ y @ sealed"] conjI) auto
  qed
qed

definition demo_space :: "bool \<Rightarrow> demo_ctx QuicCipherSpace" where
  "demo_space enc = \<lparr>csp_ciphers = \<lparr>qcs_hp_cipher = demo_hp_cipher,
     qcs_pp_cipher = \<lparr>pp_cipher = \<lparr>qc_alg = QUIC_ALG_AES_128_GCM, qc_enc = enc, qc_ctx = Some demo_key\<rparr>, pp_iv = replicate 12 5\<rparr>\<rparr>,
     csp_cipher_inited = True\<rparr>"

text \<open>A space that has sent and received \<open>n\<close> packets.\<close>

definition demo_crypto :: "u64 \<Rightarrow> demo_ctx QUIC_CRYPTO" where
  "demo_crypto n = \<lparr>qy_pkt_num = n, qy_min_pkt_num = 0, qy_largest_pn = n, qy_largest_acked = 0, qy_largest_ack = 0,
     qy_arriv_time = 0, qy_first_ack_range = 0, qy_sent_queue = [], qy_decrypt = demo_space False, qy_encrypt = demo_space True\<rparr>"

definition demo_pkt :: WPacket where
  "demo_pkt = \<lparr>wp_data = [0x41, 9, 9] @ replicate 60 0, wp_static = True, wp_gen = 0, wp_flags = 0, wp_curr = 3,
     wp_written = 3, wp_maxsize = 63, wp_subs = []\<rparr>"

definition demo_send :: QBUFF where
  "demo_send = (demo_qb 0)\<lparr>qb_buff := replicate 20 6, qb_buff_len := 20, qb_data_len := 20\<rparr>"

lemma demo_paired: "spaces_paired (\<lambda>e d. dx_key e = dx_key d) (\<lambda>e d. dx_key e = dx_key d \<and> dx_enc e \<and> dx_enc d \<and> dx_iv e = dx_iv d)
    (demo_space True) (demo_space False)"
  by (simp add: spaces_paired_def demo_space_def demo_hp_cipher_def demo_key_def gcm_alg_def QUIC_ALG_AES_128_GCM_def)

lemma demo_send_payload: "qb_payload demo_send = replicate 20 6" "qb_wf demo_send"
  by (simp_all add: demo_send_def qb_payload_def qb_wf_def)

lemma demo_pkt_facts: "wp_wf demo_pkt" "wp_static demo_pkt" "wp_out demo_pkt = [0x41, 9, 9]" "wp_room demo_pkt = 60" "wp_gen demo_pkt = 0"
  by (simp_all add: demo_pkt_def wp_wf_def wp_out_def wp_room_def word_le_nat_alt)

theorem packet_seal_open_witness:
  "\<exists>c' pkt' d' wire. QuicPacketBuild env0 demo_evp (sample_quic (demo_crypto 1000)) CrApplication (0, 0) 2 demo_pkt demo_send 0x1F =
       ((crypto_upd (sample_quic (demo_crypto 1000)) CrApplication c', pkt', demo_send\<lparr>qb_pkt_num := 1001\<rparr>), Inr ())
    \<and> qy_pkt_num c' = 1001 \<and> wp_out pkt' = wire \<and> length wire = 41
    \<and> (\<forall>pre ys. \<exists>p. QuicDecryptPacket env0 demo_evp (demo_crypto 1000) (rx_packet (pre @ wire @ ys) (length pre) 3 38) (replicate 50 0) 0 50 0x1F
         = (d', Inr (p, replicate 20 6 @ replicate 30 0, 20)))
    \<and> qy_largest_pn d' = 1001"
proof -
  let ?n = "1000 :: u64"
  have c: "crypto_at (sample_quic (demo_crypto ?n)) CrApplication = Inr (demo_crypto ?n)" by (rule sample_quic_space) simp
  have p: "spaces_paired (\<lambda>e d. dx_key e = dx_key d) (\<lambda>e d. dx_key e = dx_key d \<and> dx_enc e \<and> dx_enc d \<and> dx_iv e = dx_iv d)
    (qy_encrypt (demo_crypto ?n)) (qy_decrypt (demo_crypto ?n))" using demo_paired by (simp add: demo_crypto_def)
  have o1: "wp_out demo_pkt = [] @ 0x41 # [9, 9]" using demo_pkt_facts by simp
  have lf: "len_field 0x1F n = []" for n by (simp add: len_field_def QUIC_LPACKET_TYPE_RESV_MASK_def)
  have r: "qy_pkt_num (demo_crypto ?n) = 1000" "qy_largest_pn (demo_crypto ?n) = 1000" "qy_largest_acked (demo_crypto ?n) = 0"
    by (simp_all add: demo_crypto_def)
  from packet_seal_open[OF demo_aead demo_hp c p demo_pkt_facts(1,2) o1, of 2 demo_send 36 "[9, 9]" "0x1F" "replicate 50 0" 50 env0 env0]
  show ?thesis
    by (simp add: demo_send_payload demo_pkt_facts r lf QUIC_PKT_NUM_MAX_def pn_in_window_def numeral_3_eq_3)
       (elim exE conjE, intro exI conjI, assumption+)
qed

section \<open>Short packets\<close>

lemma encrypt_message_abort:
  assumes "aead_spec ev P" and "P e d" and "qc_ctx (pp_cipher pe) = Some e" and "qc_enc (pp_cipher pe)"
    and "length (pp_iv pe) = 12" and "k < 2 ^ 31" and "length head < 2 ^ 31" and "k \<le> length head"
  shows "QuicEncryptMessage ev pe m p 0 (of_nat k) head pn pt = Inl Abort"
proof -
  from assms(1,2) obtain e' ct tag where "seal_calls ev e (nonce_of (pp_iv pe) pn) head pt = Some (e', length head, ct, [], tag)"
    unfolding aead_spec_def by fastforce
  then obtain e1 e2 e3 where calls: "evp_iv ev e (nonce_of (pp_iv pe) pn) True = Some e1"
    "evp_ivlen ev e1 TLS13_AEAD_NONCE_LENGTH = Some e2" "evp_aad ev e2 head = Some (e3, length head)"
    by (auto simp: seal_calls_def bind_eq_Some_conv split: prod.splits)
  have iv: "QuicCryptoSetIV ev pe pn = Inr (pp_set_ctx pe e2)"
    using SetIV_ok[OF assms(5,3)] calls(1,2) assms(4) by simp
  have u: "unat (of_nat (length head) :: u64) = length head" "unat (of_nat k :: u64) = k"
    using assms(6,7) by (simp_all add: of_nat_unat64)
  have "\<not> QUIC_LT (of_nat (length head)) (of_nat k :: u64)"
    using assms(6-8) u by (simp add: quic_cmp_unat)
  then show ?thesis
    using calls(3) iv set_int_0[OF assms(7)]
    by (simp add: QuicEncryptMessage_def QuicEvpCipherAad_def pp_set_ctx_def)
qed

text \<open>C39: a packet whose header, with the packet number, is at least as long as its payload and tag cannot be
  built: \<^verbatim>\<open>QuicEncryptMessage\<close> compares the number of additional bytes with the space for the ciphertext and
  the process aborts, with the packet number used up and the header already written. Nothing in
  \<^verbatim>\<open>QuicPacketBuild\<close> or its callers excludes this for Handshake or 1-RTT packets.\<close>

theorem short_packet_aborts:
  fixes pre mid :: bytes
  assumes "aead_spec ev P" and "crypto_at quic sp = Inr c"
    and "spaces_paired P H (qy_encrypt c) ds" and "wp_wf pkt" and "wp_static pkt" and "wp_out pkt = pre @ f # mid"
    and "unat pnl = unat (f AND 3) + 1" and "qb_wf qb" and "k = length (qb_payload qb) + 16"
    and "QuicPktNumberEncode (qy_pkt_num c + 1) (qy_largest_acked c) (8 * unat pnl) = Inr t" and "uint t < 2 ^ (8 * unat pnl)"
    and "h = mid @ len_field bits (k + unat pnl)" and "length h < 2 ^ 30" and "k < 2 ^ 29"
    and "length (len_field bits (k + unat pnl)) + unat pnl + k \<le> wp_room pkt" and "k \<le> length h + unat pnl + 1"
  shows "\<exists>pkt'. QuicPacketBuild e ev quic sp (wp_gen pkt, int (length pre)) pnl pkt qb bits =
       ((crypto_upd quic sp (c\<lparr>qy_pkt_num := qy_pkt_num c + 1\<rparr>), pkt', qb\<lparr>qb_pkt_num := qy_pkt_num c + 1\<rparr>), Inl Abort)
     \<and> (\<exists>D. length D = k \<and> wp_out pkt' = pre @ f # h @ be_bytes (unat pnl) (ucast t) @ D)"
proof -
  let ?es = "qy_encrypt c" and ?n = "unat pnl"
  from assms(3) obtain e0 d0 where c: "qc_ctx (pp_cipher (qcs_pp_cipher (csp_ciphers ?es))) = Some e0" "P e0 d0"
    by (rule spaces_pairedE)
  have p: "csp_cipher_inited ?es" "gcm_alg (qc_alg (pp_cipher (qcs_pp_cipher (csp_ciphers ?es))))"
    "qc_enc (pp_cipher (qcs_pp_cipher (csp_ciphers ?es)))" "length (pp_iv (qcs_pp_cipher (csp_ciphers ?es))) = 12"
    using assms(3) by (simp_all add: spaces_paired_def Let_def)
  obtain p' D B where p': "length D = k" "wp_out p' = pre @ f # h @ be_bytes ?n (ucast t) @ D"
    and build: "QuicPacketBuild e ev quic sp (wp_gen pkt, int (length pre)) pnl pkt qb bits =
      build_rest ev quic sp (c\<lparr>qy_pkt_num := qy_pkt_num c + 1\<rparr>) p' (qb\<lparr>qb_pkt_num := qy_pkt_num c + 1\<rparr>)
         (pre @ f # h @ be_bytes ?n (ucast t) @ D @ B) (int (length pre)) (f # h @ be_bytes ?n (ucast t)) ?n k t (qb_payload qb) bits"
    by (rule packet_build_steps[OF assms(2) p(1,2) assms(4-15), of e ev], rule that)
  have hl: "length (f # h @ be_bytes ?n (ucast t)) < 2 ^ 31" "k \<le> length (f # h @ be_bytes ?n (ucast t))"
    using assms(7,13,16) and3_cases[of f] by simp_all
  have k31: "k < 2 ^ 31" using assms(14) by simp
  have cu: "qy_encrypt (c\<lparr>qy_pkt_num := v\<rparr>) = ?es" for v by simp
  have ab: "QuicEncryptMessage ev (qcs_pp_cipher (csp_ciphers ?es)) m p 0 (of_nat k) (f # h @ be_bytes ?n (ucast t)) pn pt = Inl Abort"
    for m p pn pt
    by (rule encrypt_message_abort[OF assms(1) c(2,1) p(3,4) k31 hl])
  show ?thesis unfolding build build_rest_def cu ab using p' by (simp only: bindR_simps sum.case) blast
qed

text \<open>A Handshake packet with identifiers of 8 bytes and a payload of 5, the size of an ACK frame.\<close>

definition demo_hs_pkt :: WPacket where
  "demo_hs_pkt = \<lparr>wp_data = [0xE1] @ replicate 22 8 @ replicate 60 0, wp_static = True, wp_gen = 0, wp_flags = 0, wp_curr = 23,
     wp_written = 23, wp_maxsize = 83, wp_subs = []\<rparr>"

theorem short_packet_aborts_witness:
  "\<exists>pkt'. QuicPacketBuild env0 demo_evp (sample_quic (demo_crypto 7)) CrHandshake (0, 0) 2 demo_hs_pkt
        (demo_send\<lparr>qb_data_len := 5\<rparr>) QUIC_LPACKET_TYPE_RESV_MASK =
       ((crypto_upd (sample_quic (demo_crypto 7)) CrHandshake (demo_crypto 7\<lparr>qy_pkt_num := 8\<rparr>), pkt',
         demo_send\<lparr>qb_data_len := 5, qb_pkt_num := 8\<rparr>), Inl Abort)"
proof -
  let ?c = "demo_crypto 7" and ?qb = "demo_send\<lparr>qb_data_len := 5\<rparr>"
  let ?h = "replicate 22 8 @ len_field QUIC_LPACKET_TYPE_RESV_MASK 23"
  have c: "crypto_at (sample_quic ?c) CrHandshake = Inr ?c" by (rule sample_quic_space) simp
  have p: "spaces_paired (\<lambda>e d. dx_key e = dx_key d) (\<lambda>e d. dx_key e = dx_key d \<and> dx_enc e \<and> dx_enc d \<and> dx_iv e = dx_iv d)
    (qy_encrypt ?c) (demo_space False)" using demo_paired by (simp add: demo_crypto_def)
  have w: "wp_wf demo_hs_pkt" "wp_static demo_hs_pkt" "wp_out demo_hs_pkt = [] @ 0xE1 # replicate 22 8" "wp_room demo_hs_pkt = 60" "wp_gen demo_hs_pkt = 0"
    by (simp_all add: demo_hs_pkt_def wp_wf_def wp_out_def wp_room_def word_le_nat_alt)
  have q: "qb_wf ?qb" "qb_payload ?qb = replicate 5 6" by (simp_all add: demo_send_def qb_payload_def qb_wf_def)
  have t: "QuicPktNumberEncode (qy_pkt_num ?c + 1) (qy_largest_acked ?c) (8 * unat (2 :: u8)) = Inr 8"
    by (simp add: demo_crypto_def) code_simp
  have f: "unat (2 :: u8) = unat ((0xE1 :: u8) AND 3) + 1" by simp
  have l: "length (len_field QUIC_LPACKET_TYPE_RESV_MASK 23) \<le> 8" using varint_len_le(1) by (simp add: len_field_def)
  from short_packet_aborts[OF demo_aead c p w(1-3) f q(1), where bits = QUIC_LPACKET_TYPE_RESV_MASK and k = 21 and h = ?h and e = env0] t l
  show ?thesis by (auto simp: q w demo_crypto_def)
qed

section \<open>Nonces\<close>

lemma xor_bytes_inj:
  assumes "length x = length iv" and "length y = length iv" and "xor_bytes iv x = xor_bytes iv y"
  shows "x = y"
  using assms
proof (induction iv x arbitrary: y rule: xor_bytes.induct)
  case (1 a as b bs)
  then obtain c cs where y: "y = c # cs" by (cases y) auto
  then have "a XOR (a XOR b) = a XOR (a XOR c)" using 1 by simp
  then have "b = c" by (simp add: xor.assoc[symmetric])
  then show ?case using 1 y by simp
qed auto

lemma be_bytes_inj8: "be_bytes 8 (x :: u64) = be_bytes 8 y \<Longrightarrow> x = y"
proof -
  have "be_acc 0 (be_bytes 8 z) = z" for z :: u64 unfolding be_acc_be_bytes by (simp add: take_bit_word_eq_self)
  then show "be_bytes 8 x = be_bytes 8 y \<Longrightarrow> x = y" by metis
qed

lemma nonce_of_inj: "length iv = 12 \<Longrightarrow> nonce_of iv x = nonce_of iv y \<Longrightarrow> x = y"
  using xor_bytes_inj[of "replicate 4 0 @ be_bytes 8 x" iv "replicate 4 0 @ be_bytes 8 y"] be_bytes_inj8
  by (simp add: nonce_of_def)



end
