(* ===== verification/Hkdf.thy ===== *)
theory Hkdf
  imports Packet_Write
begin

text \<open>
  Key derivation (\<^verbatim>\<open>quic/crypto.c\<close>): HKDF of RFC 5869 and the TLS 1.3 label of RFC 8446, section 7.1.
  OpenSSL's HMAC is a parameter: a digest has a size, a function from the message and one from key
  and message, \<open>None\<close> where one of the calls fails; the \<^verbatim>\<open>HMAC_Update\<close> calls between \<^verbatim>\<open>Init\<close> and \<^verbatim>\<open>Final\<close> add to the message. The
  loop of \<^verbatim>\<open>HkdfExpand\<close> is a partial function: \<open>None\<close> means that it does not return.
\<close>

section \<open>Operations\<close>

record evp_md =
  md_size :: nat
  md_new :: bool
  md_hash :: "bytes \<Rightarrow> bytes option"
  md_hmac :: "bytes \<Rightarrow> bytes \<Rightarrow> bytes option"

definition HkdfExtract :: "evp_md \<Rightarrow> bytes \<Rightarrow> bytes \<Rightarrow> bytes \<Rightarrow> (bytes \<times> u64) res" where
  "HkdfExtract md salt key prk =
     (case md_hmac md salt key of
        None \<Rightarrow> Inl Fail
      | Some d \<Rightarrow> bindR (mem_copy prk 0 d) (\<lambda>prk'. Inr (prk', of_nat (length d))))"

partial_function (option) hkdf_loop ::
    "evp_md \<Rightarrow> bytes \<Rightarrow> bytes \<Rightarrow> u64 \<Rightarrow> u64 \<Rightarrow> u8 \<Rightarrow> bytes \<Rightarrow> bytes \<Rightarrow> u64 \<Rightarrow> bytes res option" where
  "hkdf_loop md prk info okm_len n i prev okm done_len =
     (if \<not> ucast i \<le> n then Some (Inr okm)
      else case md_hmac md prk ((if i > 1 then take (md_size md) prev else []) @ info @ [i]) of
        None \<Rightarrow> Some (Inl Fail)
      | Some prev' \<Rightarrow>
          let dig_len = of_nat (md_size md);
              copy_len = (if done_len + dig_len > okm_len then okm_len - done_len else dig_len) in
          case mem_copy okm (uint done_len) (take (unat copy_len) prev') of
            Inl err \<Rightarrow> Some (Inl err)
          | Inr okm' \<Rightarrow> hkdf_loop md prk info okm_len n (i + 1) prev' okm' (done_len + copy_len))"

definition HkdfExpand :: "evp_md \<Rightarrow> bytes \<Rightarrow> bytes \<Rightarrow> bytes option \<Rightarrow> u64 \<Rightarrow> bytes res option" where
  "HkdfExpand md prk info okm okm_len =
     (let dig_len = of_nat (md_size md) :: u64 in
      if dig_len = 0 then Some (Inl Abort)
      else
        let n = okm_len div dig_len + (if okm_len mod dig_len \<noteq> 0 then 1 else 0) in
        case okm of
          None \<Rightarrow> Some (Inl Fail)
        | Some m \<Rightarrow>
            if n > 255 then Some (Inl Fail)
            else if \<not> md_new md then Some (Inl Fail)
            else hkdf_loop md prk info okm_len n 1 (replicate 64 0) m 0)"

text \<open>``tls13 '' in ASCII.\<close>

definition label_prefix :: bytes where "label_prefix = [0x74, 0x6C, 0x73, 0x31, 0x33, 0x20]"

definition sizeof_BUF_MEM :: nat where "sizeof_BUF_MEM = 32"

definition TLS13HkdfExpandLabel ::
    "env \<Rightarrow> evp_md \<Rightarrow> bytes \<Rightarrow> bytes \<Rightarrow> bytes option \<Rightarrow> u64 \<Rightarrow> bytes \<Rightarrow> u64 \<Rightarrow> bytes res option" where
  "TLS13HkdfExpandLabel e md secret label data data_len out out_len =
     (let label_prefix_len = of_nat (length label_prefix) :: u8;
          buf_len = 2 + 1 + of_nat (length label_prefix) + of_nat (length label) + 1 + data_len :: u64 in
      if \<not> env_alloc e sizeof_BUF_MEM then Some (Inl Fail)
      else case env_grow e [] (unat buf_len) of
        None \<Rightarrow> Some (Inl Fail)
      | Some buf \<Rightarrow>
          case bindS (WPacketPut2 e (WPacketBufInit buf) (ucast out_len)) (\<lambda>p1 _.
               bindS (WPacketPut1 e p1 (ucast (label_prefix_len + of_nat (length label)))) (\<lambda>p2 _.
               bindS (WPacketMemcpy e p2 (Some label_prefix)) (\<lambda>p3 _.
               bindS (WPacketMemcpy e p3 (Some label)) (\<lambda>p4 _.
               bindS (WPacketPut1 e p4 (ucast data_len)) (\<lambda>p5 _.
                 case data of
                   None \<Rightarrow> (p5, Inr ())
                 | Some d \<Rightarrow> WPacketMemcpy e p5 (Some (take (unat data_len) d))))))) of
            (p6, Inl err) \<Rightarrow> Some (Inl err)
          | (p6, Inr _) \<Rightarrow> HkdfExpand md secret (wp_data p6) (Some out) out_len)"

definition QuicTLS13HkdfExpandLabel ::
    "env \<Rightarrow> evp_md \<Rightarrow> bytes \<Rightarrow> bytes \<Rightarrow> bytes \<Rightarrow> u64 \<Rightarrow> bytes res option" where
  "QuicTLS13HkdfExpandLabel e md secret label out outlen = TLS13HkdfExpandLabel e md secret label None 0 out outlen"

section \<open>HKDF-Expand\<close>

text \<open>The blocks T(1), T(2), ... of RFC 5869, section 2.3.\<close>

definition md_ok :: "evp_md \<Rightarrow> bool" where
  "md_ok md \<longleftrightarrow> md_new md \<and> 0 < md_size md \<and> md_size md \<le> 64 \<and> (\<forall>k m. \<exists>d. md_hmac md k m = Some d \<and> length d = md_size md)"

definition hmac :: "evp_md \<Rightarrow> bytes \<Rightarrow> bytes \<Rightarrow> bytes" where
  "hmac md k m = the (md_hmac md k m)"

fun hkdf_t :: "evp_md \<Rightarrow> bytes \<Rightarrow> bytes \<Rightarrow> nat \<Rightarrow> bytes" where
  "hkdf_t md prk info 0 = []"
| "hkdf_t md prk info (Suc i) = hmac md prk (hkdf_t md prk info i @ info @ [of_nat (Suc i)])"

definition rfc_hkdf_expand :: "evp_md \<Rightarrow> bytes \<Rightarrow> bytes \<Rightarrow> nat \<Rightarrow> bytes" where
  "rfc_hkdf_expand md prk info len =
     take len (concat (map (hkdf_t md prk info) [1..<Suc ((len + md_size md - 1) div md_size md)]))"

lemma md_hmac_ok: "md_ok md \<Longrightarrow> md_hmac md k m = Some (hmac md k m)"
  and length_hmac: "md_ok md \<Longrightarrow> length (hmac md k m) = md_size md"
  by (metis hmac_def md_ok_def option.sel)+

lemma length_hkdf_t: "md_ok md \<Longrightarrow> length (hkdf_t md prk info (Suc i)) = md_size md"
  by (simp add: length_hmac)

text \<open>What one turn of the loop does.\<close>

lemma hkdf_step:
  assumes md: "md_ok md" and i: "1 \<le> j" "j \<le> 255" and n: "j \<le> unat n"
    and okm: "unat okm_len \<le> length okm" "unat okm_len < 2 ^ 16" and d: "d \<le> unat okm_len"
    and prev: "j = 1 \<or> prev = hkdf_t md prk info (j - 1)"
  defines "c \<equiv> min (md_size md) (unat okm_len - d)"
  shows "hkdf_loop md prk info okm_len n (of_nat j) prev okm (of_nat d) =
    hkdf_loop md prk info okm_len n (of_nat j + 1) (hkdf_t md prk info j)
      (take d okm @ take c (hkdf_t md prk info j) @ drop (d + c) okm) (of_nat (d + c))"
proof -
  let ?s = "md_size md"
  have s: "0 < ?s" "?s \<le> 64" using md by (simp_all add: md_ok_def)
  have ji: "unat (of_nat j :: u8) = j" using i by (simp add: unat_of_nat take_bit_nat_eq_self)
  have "take_bit 64 j = j" using i by (intro take_bit_nat_eq_self) simp
  then have in_range: "ucast (of_nat j :: u8) \<le> n" using n ji by (simp add: word_le_nat_alt unsigned_ucast_eq)
  obtain k where k: "j = Suc k" using i by (cases j) auto
  have msg: "(if (of_nat j :: u8) > 1 then take ?s prev else []) = hkdf_t md prk info k"
  proof (cases k)
    case 0
    then show ?thesis using k by simp
  next
    case (Suc l)
    then have "1 < (of_nat j :: u8)" using ji k by (simp add: word_less_nat_alt)
    moreover have "prev = hkdf_t md prk info k" using prev k Suc by simp
    ultimately show ?thesis using length_hkdf_t[OF md, of prk info l] Suc by simp
  qed
  have t: "md_hmac md prk (hkdf_t md prk info k @ info @ [of_nat j]) = Some (hkdf_t md prk info j)"
    using md_hmac_ok[OF md] k by simp
  have ud: "unat (of_nat d :: u64) = d" "unat (of_nat ?s :: u64) = ?s" using d okm(2) s by (simp_all add: of_nat_unat64)
  have cl: "unat (if (of_nat d :: u64) + of_nat ?s > okm_len then okm_len - of_nat d else of_nat ?s) = c"
  proof -
    have "unat ((of_nat d :: u64) + of_nat ?s) = d + ?s" using ud d okm(2) s by (subst unat_add_lem[THEN iffD1]) simp_all
    moreover have "unat (okm_len - of_nat d) = unat okm_len - d" using d ud by (simp add: unat_sub word_le_nat_alt)
    ultimately show ?thesis using ud d by (auto simp: c_def word_less_nat_alt min_def)
  qed
  have cw: "(if (of_nat d :: u64) + of_nat ?s > okm_len then okm_len - of_nat d else of_nat ?s) = of_nat c"
    by (subst cl[symmetric]) (simp only: of_nat_unat64_inv)
  have cb: "c \<le> length okm - d" "c \<le> ?s" using okm by (auto simp: c_def)
  have "okm = take d okm @ take c (drop d okm) @ drop (d + c) okm"
    by (metis append_take_drop_id drop_drop add.commute)
  moreover have "length (take c (drop d okm)) = length (take c (hkdf_t md prk info j))"
    using cb length_hkdf_t[OF md] k d okm by simp
  ultimately have cp: "mem_copy okm (int d) (take c (hkdf_t md prk info j)) =
      Inr (take d okm @ take c (hkdf_t md prk info j) @ drop (d + c) okm)"
    using mem_copy_append[of "take c (drop d okm)" "take c (hkdf_t md prk info j)" "take d okm" "drop (d + c) okm"] d okm
    by simp
  have uint_d: "uint (of_nat d :: u64) = int d" using ud by (simp add: uint_nat)
  show ?thesis
    by (subst hkdf_loop.simps) (simp only: in_range msg t option.case Let_def cw uint_d cp not_True_eq_False if_False sum.case
        of_nat_add cl[unfolded cw])
qed

text \<open>The first \<open>m\<close> turns.\<close>

definition hkdf_blocks :: "evp_md \<Rightarrow> bytes \<Rightarrow> bytes \<Rightarrow> nat \<Rightarrow> bytes" where
  "hkdf_blocks md prk info m = concat (map (hkdf_t md prk info) [1..<Suc m])"

lemma hkdf_blocks_Suc: "hkdf_blocks md prk info (Suc m) = hkdf_blocks md prk info m @ hkdf_t md prk info (Suc m)"
  by (simp add: hkdf_blocks_def)

lemma length_hkdf_blocks: "md_ok md \<Longrightarrow> length (hkdf_blocks md prk info m) = m * md_size md"
  by (induction m) (simp_all add: hkdf_blocks_Suc length_hmac, simp add: hkdf_blocks_def)

lemma hkdf_run:
  assumes md: "md_ok md" and okm: "unat okm_len \<le> length okm" "unat okm_len < 2 ^ 16" and m: "m \<le> 255" "m \<le> unat n"
  shows "\<exists>prev. (m = 0 \<or> prev = hkdf_t md prk info m) \<and>
    hkdf_loop md prk info okm_len n 1 prev0 okm 0 =
    hkdf_loop md prk info okm_len n (of_nat (Suc m)) prev
      (take (unat okm_len) (hkdf_blocks md prk info m) @ drop (min (m * md_size md) (unat okm_len)) okm) (of_nat (min (m * md_size md) (unat okm_len)))"
  using m
proof (induction m)
  case 0
  then show ?case by (intro exI[of _ prev0]) (simp add: hkdf_blocks_def)
next
  case (Suc m)
  let ?L = "unat okm_len" and ?s = "md_size md" and ?b = "hkdf_blocks md prk info m"
  let ?d = "min (m * ?s) ?L" and ?o = "take ?L ?b @ drop (min (m * ?s) ?L) okm" and ?t = "hkdf_t md prk info (Suc m)"
  from Suc obtain prev where prev: "m = 0 \<or> prev = hkdf_t md prk info m"
    and run: "hkdf_loop md prk info okm_len n 1 prev0 okm 0 = hkdf_loop md prk info okm_len n (of_nat (Suc m)) prev ?o (of_nat ?d)"
    by auto
  have lb: "length ?b = m * ?s" by (rule length_hkdf_blocks[OF md])
  have lo: "?L \<le> length ?o" using lb okm(1) by (simp add: min_def)
  have lt: "length ?t = ?s" by (rule length_hkdf_t[OF md])
  let ?c = "min ?s (?L - ?d)"
  have step: "hkdf_loop md prk info okm_len n (of_nat (Suc m)) prev ?o (of_nat ?d) =
     hkdf_loop md prk info okm_len n (of_nat (Suc m) + 1) ?t (take ?d ?o @ take ?c ?t @ drop (?d + ?c) ?o) (of_nat (?d + ?c))"
    by (rule hkdf_step[OF md _ _ _ lo okm(2)]) (use Suc.prems prev in simp_all)
  have d: "?d + ?c = min (Suc m * ?s) ?L" unfolding mult_Suc by arith
  have "take ?d ?o @ take ?c ?t @ drop (?d + ?c) ?o = take ?L (?b @ ?t) @ drop (min (Suc m * ?s) ?L) okm"
  proof (cases "m * ?s \<le> ?L")
    case True
    then have "?d = m * ?s" by simp
    then show ?thesis using lb lt okm(1) True by (auto simp: min_def take_append)
  next
    case False
    then have "?d = ?L" by simp
    then show ?thesis using lb okm(1) False by simp
  qed
  then show ?case using run step d
    by (intro exI[of _ ?t]) (simp add: hkdf_blocks_Suc del: hkdf_t.simps of_nat_Suc, simp)
qed


lemma hkdf_stop: "\<not> ucast i \<le> n \<Longrightarrow> hkdf_loop md prk info okm_len n i prev okm d = Some (Inr okm)"
  by (subst hkdf_loop.simps) simp

text \<open>The number of blocks, and the branches of \<^verbatim>\<open>HkdfExpand\<close>.\<close>

definition hkdf_n :: "evp_md \<Rightarrow> nat \<Rightarrow> nat" where
  "hkdf_n md len = (len + md_size md - 1) div md_size md"

lemma hkdf_n_word:
  assumes "md_ok md"
  shows "unat (okm_len div of_nat (md_size md) + (if okm_len mod of_nat (md_size md) \<noteq> 0 then 1 else 0) :: u64)
      = hkdf_n md (unat okm_len)"
proof -
  let ?s = "md_size md" and ?L = "unat okm_len"
  have s: "0 < ?s" "?s \<le> 64" using assms by (simp_all add: md_ok_def)
  have us: "unat (of_nat ?s :: u64) = ?s" using s by (simp add: of_nat_unat64)
  have m0: "okm_len mod of_nat ?s \<noteq> 0 \<longleftrightarrow> ?L mod ?s \<noteq> 0" by (metis unat_eq_0 unat_mod us)
  have dv: "unat (okm_len div of_nat ?s) = ?L div ?s" by (simp add: unat_div us)
  have n: "hkdf_n md ?L = ?L div ?s + (if ?L mod ?s \<noteq> 0 then 1 else 0)"
  proof -
    have "?L = ?L div ?s * ?s + ?L mod ?s" by simp
    then have "?L + ?s - 1 = ?L div ?s * ?s + (?L mod ?s + ?s - 1)" using s by linarith
    then have "(?L + ?s - 1) div ?s = ?L div ?s + (?L mod ?s + ?s - 1) div ?s" using s
      by (metis add.commute div_mult_self3 less_not_refl)
    moreover have "(?L mod ?s + ?s - 1) div ?s = (if ?L mod ?s \<noteq> 0 then 1 else 0)"
    proof (cases "?L mod ?s = 0")
      case False
      then have "?s \<le> ?L mod ?s + ?s - 1" "?L mod ?s + ?s - 1 < 2 * ?s"
        using s mod_less_divisor[OF s(1), of ?L] by linarith+
      then have "(?L mod ?s + ?s - 1) div ?s = 1" by (intro div_nat_eqI) simp_all
      then show ?thesis using False by simp
    qed (use s in simp)
    ultimately show ?thesis by (simp add: hkdf_n_def)
  qed
  show ?thesis
  proof (cases "?L mod ?s = 0")
    case True
    then show ?thesis using m0 dv n by simp
  next
    case False
    have "?L div ?s + 1 \<le> ?L" using False s by (metis Suc_eq_plus1 Suc_leI div_less_dividend mod_by_1 mod_0 nat_neq_iff not_less_zero less_one linorder_not_less)
    then have "unat (okm_len div of_nat ?s + 1) = ?L div ?s + 1"
      using dv unsigned_less[of okm_len, where ?'a = nat] by (subst unat_add_lem[THEN iffD1]) simp_all
    then show ?thesis using False m0 n by simp
  qed
qed

lemma HkdfExpand_unfold:
  assumes "md_ok md"
  shows "HkdfExpand md prk info (Some okm) okm_len =
    (if hkdf_n md (unat okm_len) > 255 then Some (Inl Fail)
     else hkdf_loop md prk info okm_len (of_nat (hkdf_n md (unat okm_len))) 1 (replicate 64 0) okm 0)"
proof -
  let ?n = "okm_len div of_nat (md_size md) + (if okm_len mod of_nat (md_size md) \<noteq> 0 then 1 else 0) :: u64"
  have s: "0 < md_size md" "md_size md \<le> 64" "md_new md" using assms by (simp_all add: md_ok_def)
  then have us: "unat (of_nat (md_size md) :: u64) = md_size md" by (intro of_nat_unat64) simp
  have s0: "(of_nat (md_size md) :: u64) \<noteq> 0"
  proof
    assume "(of_nat (md_size md) :: u64) = 0"
    then show False using us s(1) by simp
  qed
  have n: "unat ?n = hkdf_n md (unat okm_len)" by (rule hkdf_n_word[OF assms])
  then have w: "of_nat (hkdf_n md (unat okm_len)) = ?n" by (metis of_nat_unat64_inv)
  have "?n > 255 \<longleftrightarrow> hkdf_n md (unat okm_len) > 255" using n by (simp add: word_less_nat_alt)
  then show ?thesis using s s0 unfolding HkdfExpand_def Let_def w by (simp cong: if_cong split del: if_split)
qed

lemma hkdf_expand_ok:
  assumes md: "md_ok md" and okm: "unat okm_len \<le> length okm" "unat okm_len < 2 ^ 16" and n: "hkdf_n md (unat okm_len) \<le> 254"
  shows "HkdfExpand md prk info (Some okm) okm_len =
    Some (Inr (rfc_hkdf_expand md prk info (unat okm_len) @ drop (unat okm_len) okm))"
proof -
  let ?n = "hkdf_n md (unat okm_len)" and ?L = "unat okm_len" and ?s = "md_size md"
  have s: "0 < ?s" "?s \<le> 64" using md by (simp_all add: md_ok_def)
  have un: "unat (of_nat ?n :: u64) = ?n" using n by (intro of_nat_unat64) simp
  have "?L \<le> ?n * ?s"
  proof -
    have "?L + ?s - 1 < (?n + 1) * ?s" unfolding hkdf_n_def using s by (metis Suc_eq_plus1 dividend_less_times_div mult.commute mult_Suc_right add.commute)
    then show ?thesis using s by simp
  qed
  then have mn: "min (?n * ?s) ?L = ?L" by simp
  have le: "?n \<le> 255" "?n \<le> unat (of_nat ?n :: u64)" using n un by simp_all
  have st: "\<not> ucast (of_nat (Suc ?n) :: u8) \<le> (of_nat ?n :: u64)"
  proof -
    have "unat (ucast (of_nat (Suc ?n) :: u8) :: u64) = Suc ?n" using n
      by (simp add: unsigned_ucast_eq unat_of_nat take_bit_nat_eq_self del: of_nat_Suc)
    then show ?thesis using un by (simp add: word_le_nat_alt)
  qed
  from hkdf_run[OF md okm le, of prk info "replicate 64 0"] hkdf_stop[OF st]
  have "hkdf_loop md prk info okm_len (of_nat ?n) 1 (replicate 64 0) okm 0 =
      Some (Inr (take ?L (hkdf_blocks md prk info ?n) @ drop ?L okm))"
    unfolding mn by auto
  moreover have "take ?L (hkdf_blocks md prk info ?n) = rfc_hkdf_expand md prk info ?L"
    by (simp add: rfc_hkdf_expand_def hkdf_blocks_def hkdf_n_def)
  ultimately show ?thesis using n by (simp add: HkdfExpand_unfold[OF md])
qed

text \<open>With 255 blocks the 8-bit counter never exceeds the number of blocks.\<close>

lemma hkdf_diverges:
  assumes md: "md_ok md" and L: "unat okm_len < 2 ^ 16"
  shows "unat okm_len \<le> length okm \<Longrightarrow> unat d \<le> unat okm_len \<Longrightarrow> hkdf_loop md prk info okm_len 255 i prev okm d = None"
proof (rule ccontr)
  assume a: "unat okm_len \<le> length okm" "unat d \<le> unat okm_len"
  assume "hkdf_loop md prk info okm_len 255 i prev okm d \<noteq> None"
  then obtain r where r: "hkdf_loop md prk info okm_len 255 i prev okm d = Some r" by blast
  let ?P = "\<lambda>md' (prk :: bytes) (info :: bytes) ol (n :: u64) (i :: u8) (prev :: bytes) m d (r :: bytes res). \<not> (md' = md \<and> n = 255 \<and> ol = okm_len \<and> unat ol \<le> length m \<and> unat d \<le> unat ol)"
  have "?P md prk info okm_len 255 i prev okm d r"
  proof (rule hkdf_loop.raw_induct[where P = ?P, OF _ r], goal_cases)
    case (1 loop md' prk info ol n i prev m d r)
    show ?case
    proof
      assume h: "md' = md \<and> n = 255 \<and> ol = okm_len \<and> unat ol \<le> length m \<and> unat d \<le> unat ol"
      have s: "0 < md_size md" "md_size md \<le> 64" using md by (simp_all add: md_ok_def)
      have us: "unat (of_nat (md_size md) :: u64) = md_size md" using s by (simp add: of_nat_unat64)
      have i: "ucast i \<le> (255 :: u64)"
        using unsigned_less[of i, where ?'a = nat] by (simp add: word_le_nat_alt unsigned_ucast_eq take_bit_nat_eq_self)
      let ?c = "if d + of_nat (md_size md) > okm_len then okm_len - d else of_nat (md_size md)"
      let ?k = "(if i > 1 then take (md_size md) prev else []) @ info @ [i]"
      have un: "unat (d + of_nat (md_size md)) = unat d + md_size md"
      proof -
        have "unat d < 65536" using h L by auto
        then have "unat d + md_size md < 18446744073709551616" using s by simp
        then show ?thesis using us by (subst unat_add_lem[THEN iffD1]) simp_all
      qed
      have c: "unat (d + ?c) \<le> unat okm_len" "unat d + unat ?c \<le> unat okm_len" "unat ?c \<le> md_size md"
        using h un us by (auto simp: word_less_nat_alt word_le_nat_alt unat_sub not_less)
      have t: "length (take (unat ?c) (hmac md prk ?k)) = unat ?c" using c(3) length_hmac[OF md] by simp
      let ?x = "take (unat ?c) (hmac md prk ?k)"
      have lm: "unat d + length ?x \<le> length m" unfolding t using c(2) h by (auto intro: le_trans)
      have cp: "\<exists>m'. mem_copy m (int k) x = Inr m' \<and> length m' = length m" if "k + length x \<le> length m" for k x
        using that by (auto simp: mem_copy_def)
      obtain m' where m': "mem_copy m (uint d) ?x = Inr m'" "length m' = length m"
        using cp[OF lm] unfolding uint_nat by blast
      have e: "md' = md" "n = 255" "ol = okm_len" using h by blast+
      have "loop md prk info okm_len 255 (i + 1) (hmac md prk ?k) m' (d + ?c) = Some r"
        using 1(2) i md_hmac_ok[OF md] m'(1) unfolding e by (simp add: Let_def split del: if_split)
      from 1(1)[OF this] show False using h m'(2) c(1) by auto
    qed
  qed
  with a show False by blast
qed

text \<open>C15: \<^verbatim>\<open>HkdfExpand\<close> is the HKDF-Expand of RFC 5869 for outputs of up to 254 blocks: the octets
  are those of the RFC and the rest of the output object keeps its value.\<close>

theorem hkdf_expand_rfc:
  assumes "md_ok md" and "unat okm_len \<le> length okm" and "unat okm_len < 2 ^ 16" and "hkdf_n md (unat okm_len) \<le> 254"
  shows "HkdfExpand md prk info (Some okm) okm_len =
    Some (Inr (rfc_hkdf_expand md prk info (unat okm_len) @ drop (unat okm_len) okm))"
  by (rule hkdf_expand_ok[OF assms])

text \<open>A digest for concrete inputs: four octets made from sums.\<close>

definition demo_md :: evp_md where
  "demo_md = \<lparr>md_size = 4, md_new = True,
     md_hash = (\<lambda>m. Some [sum_list m, of_nat (length m), last (0 # m), 1]),
     md_hmac = (\<lambda>k m. Some [sum_list k + sum_list m, sum_list m, of_nat (length m), last (0 # m)])\<rparr>"

lemma demo_md_ok: "md_ok demo_md"
  by (simp add: md_ok_def demo_md_def)

theorem hkdf_expand_rfc_witness:
  "HkdfExpand demo_md [1] [2] (Some (replicate 8 9)) 6 = Some (Inr (rfc_hkdf_expand demo_md [1] [2] 6 @ replicate 2 9))"
  using hkdf_expand_rfc[OF demo_md_ok, of 6 "replicate 8 9" "[1]" "[2]"]
  by (simp add: hkdf_n_def demo_md_def)



section \<open>Labels\<close>

text \<open>A packet over a buffer that is large enough never grows it.\<close>

definition wp_at :: "WPacket \<Rightarrow> bytes \<Rightarrow> bytes \<Rightarrow> bool" where
  "wp_at p out rest \<longleftrightarrow> \<not> wp_static p \<and> wp_data p = out @ rest \<and> wp_curr p = of_nat (length out)
     \<and> wp_written p = of_nat (length out) \<and> wp_maxsize p = WPACKET_BUF_MAX_LEN \<and> length out + length rest \<le> 65535"

lemma wp_at_alloc:
  assumes "wp_at p out (g @ rest)"
  shows "\<exists>p1. WPacketAllocateBytes e p (of_nat (length g)) = (p1, Inr (wp_gen p1, int (length out)))
    \<and> p1 = p\<lparr>wp_written := of_nat (length out + length g), wp_curr := of_nat (length out + length g)\<rparr>"
proof -
  let ?n = "of_nat (length g) :: u64"
  have a: "\<not> wp_static p" "wp_data p = out @ g @ rest" "wp_curr p = of_nat (length out)" "wp_written p = of_nat (length out)"
    "wp_maxsize p = 65535" "length out + length g + length rest \<le> 65535"
    using assms by (simp_all add: wp_at_def WPACKET_BUF_MAX_LEN_def)
  have "length (wp_data p) < 2 ^ 64" using a by simp
  then have u: "unat ?n = length g" "unat (of_nat (length out) :: u64) = length out"
    "unat (of_nat (length (wp_data p)) :: u64) = length (wp_data p)"
    using a by (simp_all only: of_nat_unat64) (simp_all add: of_nat_unat64)
  have m: "unat (65535 - of_nat (length out) :: u64) = 65535 - length out"
    using u(2) a(6) by (simp add: unat_sub word_le_nat_alt)
  have lt: "\<not> QUIC_LT (wp_maxsize p - wp_written p) ?n"
    using a u m by (simp add: quic_cmp_unat)
  have d: "unat (of_nat (length (wp_data p)) - of_nat (length out) :: u64) = length g + length rest"
  proof -
    have "unat (of_nat (length g + length rest) :: u64) = length g + length rest" using a(6) by (intro of_nat_unat64) simp
    then show ?thesis using a by simp
  qed
  have ng: "\<not> of_nat (length (wp_data p)) - wp_written p < ?n"
    using d u a by (simp add: word_less_nat_alt)
  show ?thesis
    using a lt ng u by (simp add: WPacketAllocateBytes_def WPacketReserveBytes_def Let_def WPacket_get_curr_def WPacket_get_data_def uint_nat)
qed

lemma wp_at_put:
  assumes "wp_at p out (g @ rest)" and "length g = n"
  shows "\<exists>p'. WPacketPutBytes e p v (of_nat n) = (p', if uint v < 2 ^ (8 * n) then Inr () else Inl Fail)
    \<and> wp_at p' (out @ be_bytes n (ucast v)) rest"
proof -
  obtain p1 where p1: "WPacketAllocateBytes e p (of_nat n) = (p1, Inr (wp_gen p1, int (length out)))"
    "p1 = p\<lparr>wp_written := of_nat (length out + n), wp_curr := of_nat (length out + n)\<rparr>"
    using wp_at_alloc[OF assms(1), of e] assms(2) by auto
  have d: "wp_data p1 = out @ g @ rest" "length out + length g + length rest \<le> 65535" using assms(1) p1(2) by (simp_all add: wp_at_def)
  have un: "unat (of_nat n :: u64) = n" using d assms(2) by (simp add: of_nat_unat64)
  have uv: "uint (ucast v :: u64) = uint v" by (rule uint_up_ucast) (simp add: is_up)
  have z: "0 < drop_bit (8 * n) (ucast v :: u64) \<longleftrightarrow> \<not> uint v < 2 ^ (8 * n)"
    by (simp add: drop_bit_pos_iff uv)
  have l: "put_value_loop (wp_data p1) (int (length out)) n (ucast v) =
      Inr (out @ be_bytes n (ucast v) @ rest, drop_bit (8 * n) (ucast v))"
    using put_value_loop_spec[of "length out" n "wp_data p1" "ucast v"] d assms(2) by simp
  have "WPacketPutBytes e p v (of_nat n) =
      (p1\<lparr>wp_data := out @ be_bytes n (ucast v) @ rest\<rparr>, if uint v < 2 ^ (8 * n) then Inr () else Inl Fail)"
    using p1(1) l un z by (simp add: WPacketPutBytes_def WPacketPutValue_def)
  moreover have "wp_at (p1\<lparr>wp_data := out @ be_bytes n (ucast v) @ rest\<rparr>) (out @ be_bytes n (ucast v)) rest"
    using assms p1(2) by (simp add: wp_at_def)
  ultimately show ?thesis by blast
qed

lemma wp_at_copy:
  assumes "wp_at p out (g @ rest)" and "length g = length bs"
  shows "\<exists>p'. WPacketMemcpy e p (Some bs) = (p', Inr ()) \<and> wp_at p' (out @ bs) rest"
proof (cases "bs = []")
  case True
  then show ?thesis using assms by (simp add: WPacketMemcpy_def)
next
  case False
  obtain p1 where p1: "WPacketAllocateBytes e p (of_nat (length bs)) = (p1, Inr (wp_gen p1, int (length out)))"
    "p1 = p\<lparr>wp_written := of_nat (length out + length bs), wp_curr := of_nat (length out + length bs)\<rparr>"
    using wp_at_alloc[OF assms(1), of e] assms(2) by auto
  have "mem_copy (wp_data p1) (int (length out)) bs = Inr (out @ bs @ rest)"
    using assms p1(2) mem_copy_append[of g bs out rest] by (simp add: wp_at_def)
  then have "WPacketMemcpy e p (Some bs) = (p1\<lparr>wp_data := out @ bs @ rest\<rparr>, Inr ())"
    using False p1(1) by (simp add: WPacketMemcpy_def wp_store_def)
  moreover have "wp_at (p1\<lparr>wp_data := out @ bs @ rest\<rparr>) (out @ bs) rest"
    using assms p1(2) by (simp add: wp_at_def)
  ultimately show ?thesis by blast
qed

lemma wp_at_put_drop:
  assumes "wp_at p out rest" and "n \<le> length rest"
  shows "\<exists>p'. WPacketPutBytes e p v (of_nat n) = (p', if uint v < 2 ^ (8 * n) then Inr () else Inl Fail)
    \<and> wp_at p' (out @ be_bytes n (ucast v)) (drop n rest)"
  using wp_at_put[of p out "take n rest" "drop n rest" n e v] assms by simp

lemma wp_at_copy_drop:
  assumes "wp_at p out rest" and "length bs \<le> length rest"
  shows "\<exists>p'. WPacketMemcpy e p (Some bs) = (p', Inr ()) \<and> wp_at p' (out @ bs) (drop (length bs) rest)"
  using wp_at_copy[of p out "take (length bs) rest" "drop (length bs) rest" bs e] assms by simp

text \<open>The \<open>HkdfLabel\<close> structure of RFC 8446, section 7.1.\<close>

definition hkdf_label :: "nat \<Rightarrow> bytes \<Rightarrow> bytes \<Rightarrow> bytes" where
  "hkdf_label len label context =
     be_bytes 2 (of_nat len) @ [of_nat (length label_prefix + length label)] @ label_prefix @ label @
     [of_nat (length context)] @ context"

lemma length_hkdf_label: "length (hkdf_label len label context) = 10 + length label + length context"
  by (simp add: hkdf_label_def label_prefix_def)

lemma expand_label_ok:
  assumes md: "md_ok md" and al: "env_alloc e sizeof_BUF_MEM" and gr: "grow_spec e" "\<forall>n. env_grow e [] n \<noteq> None"
    and lb: "length label \<le> 249" and ctx: "length context \<le> 255" "data = None \<longrightarrow> context = []" "\<And>d. data = Some d \<Longrightarrow> context = take (length context) d"
    and out: "unat out_len \<le> length out" "unat out_len < 2 ^ 16" "hkdf_n md (unat out_len) \<le> 254"
  shows "TLS13HkdfExpandLabel e md secret label data (of_nat (length context)) out out_len =
    Some (Inr (rfc_hkdf_expand md secret (hkdf_label (unat out_len) label context) (unat out_len) @ drop (unat out_len) out))"
proof -
  let ?n = "10 + length label + length context" and ?D = "of_nat (length context) :: u64"
  have bl: "unat (2 + 1 + of_nat (length label_prefix) + of_nat (length label) + 1 + ?D :: u64) = ?n"
  proof -
    have "(2 + 1 + of_nat (length label_prefix) + of_nat (length label) + 1 + ?D :: u64) = of_nat ?n"
      by (simp add: label_prefix_def)
    then show ?thesis using lb ctx(1) by (simp only:) (intro of_nat_unat64, simp)
  qed
  from gr(2) obtain buf where g: "env_grow e [] ?n = Some buf" by blast
  then have lbuf: "length buf = ?n" using gr(1) unfolding grow_spec_def by blast
  have lp: "length label_prefix = 6" by (simp add: label_prefix_def)
  have o16: "uint out_len < 65536" 
  proof -
    have "int (unat out_len) < int 65536" using out(2) by (simp only: of_nat_less_iff) simp
    then show ?thesis by simp
  qed
  have ob: "take_bit 32 (uint out_len) = uint out_len" using o16 by (intro take_bit_int_eq_self) simp_all
  have ol: "uint (ucast out_len :: u32) = uint out_len" using ob by (simp add: unsigned_ucast_eq)
  have ol2: "(ucast (ucast out_len :: u32) :: u64) = of_nat (unat out_len)"
    using ob by (simp add: word_uint_eq_iff unsigned_ucast_eq unsigned_take_bit_eq)
  have b1: "uint (ucast (x :: u8) :: u32) < 2 ^ (8 * 1)" "be_bytes 1 (ucast (ucast x :: u32)) = [x]" for x
  proof -
    show "uint (ucast x :: u32) < 2 ^ (8 * 1)" using unsigned_less[of x, where ?'a = int] by (simp add: unsigned_ucast_eq take_bit_int_eq_self)
    have "be_bytes 1 v = [ucast v]" for v unfolding One_nat_def by simp
    moreover have "ucast (ucast (ucast x :: u32) :: u64) = x" by (rule bit_eqI) (auto simp: bit_simps)
    ultimately show "be_bytes 1 (ucast (ucast x :: u32)) = [x]" by simp
  qed
  have lc: "(ucast ?D :: u32) = ucast (of_nat (length context) :: u8)"
    using ctx(1) by (simp add: word_uint_eq_iff unsigned_ucast_eq unsigned_of_nat take_bit_nat_eq_self)
  have p0: "wp_at (WPacketBufInit buf) [] buf"
    using lbuf lb ctx(1) by (simp add: wp_at_def WPacketBufInit_def WPACKET_BUF_MAX_LEN_def)
  let ?b2 = "be_bytes 2 (of_nat (unat out_len))" and ?lv = "of_nat (length label_prefix) + of_nat (length label) :: u8"
  have "uint (ucast out_len :: u32) < 2 ^ (8 * 2)" unfolding ol using o16 by simp
  then obtain p1 where p1: "WPacketPut2 e (WPacketBufInit buf) (ucast out_len) = (p1, Inr ())" "wp_at p1 ?b2 (drop 2 buf)"
    using wp_at_put_drop[OF p0, of 2 e "ucast out_len"] lbuf ol2 by (auto simp: WPacketPut2_def)
  obtain p2 where p2: "WPacketPut1 e p1 (ucast ?lv) = (p2, Inr ())" "wp_at p2 (?b2 @ [?lv]) (drop 1 (drop 2 buf))"
    using wp_at_put_drop[OF p1(2), of 1 e "ucast ?lv"] lbuf b1[of ?lv] by (auto simp: WPacketPut1_def)
  obtain p3 where p3: "WPacketMemcpy e p2 (Some label_prefix) = (p3, Inr ())" "wp_at p3 (?b2 @ [?lv] @ label_prefix) (drop 6 (drop 1 (drop 2 buf)))"
    using wp_at_copy_drop[OF p2(2), of label_prefix e] lbuf by (auto simp: lp)
  obtain p4 where p4: "WPacketMemcpy e p3 (Some label) = (p4, Inr ())" "wp_at p4 (?b2 @ [?lv] @ label_prefix @ label) (drop (length label) (drop 6 (drop 1 (drop 2 buf))))"
    using wp_at_copy_drop[OF p3(2), of label e] lbuf by auto
  obtain p5 where p5: "WPacketPut1 e p4 (ucast ?D) = (p5, Inr ())"
    "wp_at p5 (?b2 @ [?lv] @ label_prefix @ label @ [of_nat (length context)]) (drop 1 (drop (length label) (drop 6 (drop 1 (drop 2 buf)))))"
    using wp_at_put_drop[OF p4(2), of 1 e "ucast ?D"] lbuf b1[of "of_nat (length context)"] unfolding lc by (auto simp: WPacketPut1_def)
  obtain p6 where p6: "(case data of None \<Rightarrow> (p5, Inr ()) | Some d \<Rightarrow> WPacketMemcpy e p5 (Some (take (unat ?D) d))) = (p6, Inr ())"
    "wp_at p6 (hkdf_label (unat out_len) label context) []"
  proof (cases data)
    case None
    then show ?thesis using that p5(2) ctx(2) lbuf by (simp add: hkdf_label_def)
  next
    case (Some d)
    have "unat ?D = length context" using ctx(1) by (intro of_nat_unat64) simp
    then show ?thesis using that Some ctx(3)[OF Some] wp_at_copy_drop[OF p5(2), of "context" e] lbuf
      by (auto simp: hkdf_label_def)
  qed
  have "wp_data p6 = hkdf_label (unat out_len) label context" using p6(2) by (simp add: wp_at_def)
  then show ?thesis
    using hkdf_expand_ok[OF md out] al g p1(1) p2(1) p3(1) p4(1) p5(1) p6(1)
    unfolding TLS13HkdfExpandLabel_def Let_def bl by simp
qed



end
