(* ===== verification/Key_Derive.thy ===== *)
theory Key_Derive
  imports Hkdf Pkt_Protect
begin

text \<open>
  Installing keys (\<^verbatim>\<open>quic/cipher.c\<close>): the secrets of the Initial packets and the preparation of the ciphers
  of a space from a secret. OpenSSL's part is a record: the digest, \<^verbatim>\<open>EVP_CIPHER_CTX_new\<close>, the key length of
  the cipher \<^verbatim>\<open>EVP_get_cipherbynid\<close> finds (\<open>None\<close> when it finds none), and \<^verbatim>\<open>EVP_CipherInit\<close> with a key.
  \<open>None\<close> as the result of an operation means that a key derivation does not return.
\<close>

section \<open>Operations\<close>

record 'c evp_keys =
  ek_md :: evp_md
  ek_new :: "'c option"
  ek_key_len :: "nid \<Rightarrow> nat option"
  ek_init :: "'c \<Rightarrow> nid \<Rightarrow> bytes \<Rightarrow> bool \<Rightarrow> 'c option"

definition HASH_SHA2_256_LENGTH :: nat where "HASH_SHA2_256_LENGTH = 32"
definition AES_KEY_MAX_SIZE :: nat where "AES_KEY_MAX_SIZE = 32"

record QuicSalt =
  sa_salt :: bytes
  sa_version :: u32

definition handshake_salt_v1 :: bytes where
  "handshake_salt_v1 = [0x38, 0x76, 0x2C, 0xF7, 0xF5, 0x59, 0x34, 0xB3, 0x4D, 0x17,
                        0x9A, 0xE6, 0xA4, 0xC8, 0x0C, 0xAD, 0xCC, 0xBB, 0x7F, 0x0A]"

definition handshake_salt :: "QuicSalt list" where
  "handshake_salt = [\<lparr>sa_salt = handshake_salt_v1, sa_version = QUIC_VERSION_1\<rparr>]"

definition QuicSaltFind :: "QuicSalt list \<Rightarrow> u32 \<Rightarrow> QuicSalt option" where
  "QuicSaltFind salts version = find (\<lambda>s. sa_version s = version) salts"

text \<open>A key derivation that may not return, and what follows it.\<close>

definition bindO :: "'a res option \<Rightarrow> ('a \<Rightarrow> 'b option) \<Rightarrow> (c_err \<Rightarrow> 'b) \<Rightarrow> 'b option" where
  "bindO x f g = (case x of None \<Rightarrow> None | Some (Inl err) \<Rightarrow> Some (g err) | Some (Inr a) \<Rightarrow> f a)"

lemma bindO_simps [simp]:
  "bindO None f g = None" "bindO (Some (Inl err)) f g = Some (g err)" "bindO (Some (Inr a)) f g = f a"
  by (simp_all add: bindO_def)

text \<open>The labels ``client in'', ``server in'', ``quic hp'', ``quic key'' and ``quic iv'' in ASCII.\<close>

definition client_label :: bytes where "client_label = [0x63, 0x6C, 0x69, 0x65, 0x6E, 0x74, 0x20, 0x69, 0x6E]"
definition server_label :: bytes where "server_label = [0x73, 0x65, 0x72, 0x76, 0x65, 0x72, 0x20, 0x69, 0x6E]"
definition quic_hp_label :: bytes where "quic_hp_label = [0x71, 0x75, 0x69, 0x63, 0x20, 0x68, 0x70]"
definition quic_key_label :: bytes where "quic_key_label = [0x71, 0x75, 0x69, 0x63, 0x20, 0x6B, 0x65, 0x79]"
definition quic_iv_label :: bytes where "quic_iv_label = [0x71, 0x75, 0x69, 0x63, 0x20, 0x69, 0x76]"

text \<open>The client's and the server's secret. Arrays on the stack are fresh memory.\<close>

definition QuicDeriveInitialSecrets :: "env \<Rightarrow> evp_md \<Rightarrow> QUIC_DATA \<Rightarrow> u32 \<Rightarrow> (bytes \<times> bytes) res option" where
  "QuicDeriveInitialSecrets e md cid version =
     (case QuicSaltFind handshake_salt version of
        None \<Rightarrow> Some (Inl Fail)
      | Some salt \<Rightarrow>
          let stack = fresh_mem e HASH_SHA2_256_LENGTH in
          bindO (Some (bindR (case qd_data cid of None \<Rightarrow> Inr [] | Some m \<Rightarrow> mem_slice m 0 (unat (qd_len cid)))
                   (\<lambda>key. HkdfExtract md (sa_salt salt) key stack)))
            (\<lambda>(secret, _).
          bindO (QuicTLS13HkdfExpandLabel e md secret client_label stack (of_nat HASH_SHA2_256_LENGTH))
            (\<lambda>client_secret.
          bindO (QuicTLS13HkdfExpandLabel e md secret server_label stack (of_nat HASH_SHA2_256_LENGTH))
            (\<lambda>server_secret. Some (Inr (client_secret, server_secret))) Inl) Inl) Inl)"

definition QuicCipherDoPrepare ::
    "'c evp_keys \<Rightarrow> 'c QUIC_CIPHER \<Rightarrow> nid \<Rightarrow> bytes option \<Rightarrow> bytes \<Rightarrow> bool \<Rightarrow> 'c QUIC_CIPHER \<times> unit res" where
  "QuicCipherDoPrepare ek cipher c secret key enc =
     (let cipher1 = cipher\<lparr>qc_ctx := ek_new ek\<rparr> in
      case ek_new ek of
        None \<Rightarrow> (cipher1, Inl Fail)
      | Some x \<Rightarrow>
          if secret = None then (cipher1, Inr ())
          else let cipher2 = cipher1\<lparr>qc_enc := enc\<rparr> in
            case ek_init ek x c key enc of
              None \<Rightarrow> (cipher2, Inl Fail)
            | Some x' \<Rightarrow> (cipher2\<lparr>qc_ctx := Some x'\<rparr>, Inr ()))"

definition QuicFindCipherByAlg :: "'c evp_keys \<Rightarrow> u32 \<Rightarrow> (nid \<times> nat) res" where
  "QuicFindCipherByAlg ek alg =
     bindR (QuicCipherNidFind alg) (\<lambda>nid. case ek_key_len ek nid of None \<Rightarrow> Inl Fail | Some n \<Rightarrow> Inr (nid, n))"

text \<open>Expanding a secret, if there is one, into an array.\<close>

definition expand_secret :: "env \<Rightarrow> 'c evp_keys \<Rightarrow> bytes option \<Rightarrow> bytes \<Rightarrow> bytes \<Rightarrow> nat \<Rightarrow> bytes res option" where
  "expand_secret e ek secret label out n =
     (case secret of
        None \<Rightarrow> Some (Inr out)
      | Some s \<Rightarrow> QuicTLS13HkdfExpandLabel e (ek_md ek) (take (md_size (ek_md ek)) s) label out (of_nat n))"

definition QuicHPCipherPrepare ::
    "env \<Rightarrow> 'c evp_keys \<Rightarrow> 'c QUIC_CIPHER \<Rightarrow> bytes option \<Rightarrow> ('c QUIC_CIPHER \<times> unit res) option" where
  "QuicHPCipherPrepare e ek cipher secret =
     (case QuicFindCipherByAlg ek (qc_alg cipher) of
        Inl err \<Rightarrow> Some (cipher, Inl err)
      | Inr (c, key_len) \<Rightarrow>
          if key_len > AES_KEY_MAX_SIZE then Some (cipher, Inl Fail)
          else bindO (expand_secret e ek secret quic_hp_label (replicate AES_KEY_MAX_SIZE 0) key_len)
                 (\<lambda>key. Some (QuicCipherDoPrepare ek cipher c secret (take key_len key) True))
                 (\<lambda>err. (cipher, Inl err)))"

definition QuicPPCipherPrepare ::
    "env \<Rightarrow> 'c evp_keys \<Rightarrow> 'c QuicPPCipher \<Rightarrow> bytes option \<Rightarrow> bool \<Rightarrow> ('c QuicPPCipher \<times> unit res) option" where
  "QuicPPCipherPrepare e ek pp secret enc =
     (case QuicFindCipherByAlg ek (qc_alg (pp_cipher pp)) of
        Inl err \<Rightarrow> Some (pp, Inl err)
      | Inr (c, key_len) \<Rightarrow>
          if key_len > AES_KEY_MAX_SIZE then Some (pp, Inl Fail)
          else bindO (expand_secret e ek secret quic_key_label (replicate AES_KEY_MAX_SIZE 0) key_len)
            (\<lambda>key.
               bindO (expand_secret e ek secret quic_iv_label (pp_iv pp) TLS13_AEAD_NONCE_LENGTH)
                 (\<lambda>iv. let pp1 = pp\<lparr>pp_iv := iv\<rparr>;
                           (c', r) = QuicCipherDoPrepare ek (pp_cipher pp1) c secret (take key_len key) enc
                       in Some (pp1\<lparr>pp_cipher := c'\<rparr>, r))
                 (\<lambda>err. (pp, Inl err)))
            (\<lambda>err. (pp, Inl err)))"

text \<open>The value on success: a failure to prepare the header protection is 1, which is no failure to any
  caller, and the packet protection is left alone then.\<close>

definition QuicCiphersPrepare ::
    "env \<Rightarrow> 'c evp_keys \<Rightarrow> 'c QUIC_CIPHERS \<Rightarrow> bytes option \<Rightarrow> bool \<Rightarrow> ('c QUIC_CIPHERS \<times> int res) option" where
  "QuicCiphersPrepare e ek cs secret enc =
     Option.bind (QuicHPCipherPrepare e ek (qcs_hp_cipher cs) secret) (\<lambda>(hp, r).
       let cs1 = cs\<lparr>qcs_hp_cipher := hp\<rparr> in
       case r of
         Inl _ \<Rightarrow> Some (cs1, Inr 1)
       | Inr _ \<Rightarrow> Option.bind (QuicPPCipherPrepare e ek (qcs_pp_cipher cs1) secret enc) (\<lambda>(pp, r2).
           Some (cs1\<lparr>qcs_pp_cipher := pp\<rparr>, case r2 of Inl err \<Rightarrow> Inl err | Inr _ \<Rightarrow> Inr 0)))"

definition QuicPrepareEncoderDecoders ::
    "env \<Rightarrow> 'c evp_keys \<Rightarrow> 'c QUIC_CRYPTO \<Rightarrow> bytes option \<Rightarrow> bytes option \<Rightarrow> ('c QUIC_CRYPTO \<times> unit res) option" where
  "QuicPrepareEncoderDecoders e ek c dec_secret enc_secret =
     Option.bind (QuicCiphersPrepare e ek (csp_ciphers (qy_decrypt c)) dec_secret False) (\<lambda>(d, r1).
       let c1 = c\<lparr>qy_decrypt := (qy_decrypt c)\<lparr>csp_ciphers := d\<rparr>\<rparr> in
       case r1 of
         Inl err \<Rightarrow> Some (c1, Inl err)
       | Inr _ \<Rightarrow> Option.bind (QuicCiphersPrepare e ek (csp_ciphers (qy_encrypt c1)) enc_secret True) (\<lambda>(x, r2).
           let c2 = c1\<lparr>qy_encrypt := (qy_encrypt c1)\<lparr>csp_ciphers := x\<rparr>\<rparr> in
           case r2 of
             Inl err \<Rightarrow> Some (c2, Inl err)
           | Inr _ \<Rightarrow> Some (c2\<lparr>qy_decrypt := (qy_decrypt c2)\<lparr>csp_cipher_inited := True\<rparr>,
                              qy_encrypt := (qy_encrypt c2)\<lparr>csp_cipher_inited := True\<rparr>\<rparr>, Inr ())))"

definition QuicCreateInitialDecoders ::
    "env \<Rightarrow> 'c evp_keys \<Rightarrow> 'c Quic \<Rightarrow> u32 \<Rightarrow> QUIC_DATA \<Rightarrow> ('c Quic \<times> unit res) option" where
  "QuicCreateInitialDecoders e ek quic version cid =
     (let init = q_initial quic in
      if csp_cipher_inited (qy_decrypt init) \<or> csp_cipher_inited (qy_encrypt init) then Some (quic, Inr ())
      else bindO (QuicDeriveInitialSecrets e (ek_md ek) cid version)
        (\<lambda>(client_secret, server_secret).
           let (dec, enc) = (if q_server quic then (client_secret, server_secret) else (server_secret, client_secret)) in
           Option.bind (QuicPrepareEncoderDecoders e ek init (Some dec) (Some enc)) (\<lambda>(c, r). Some (quic\<lparr>q_initial := c\<rparr>, r)))
        (\<lambda>err. (quic, Inl err)))"

section \<open>What the ciphers hold\<close>

text \<open>What the code relies on of OpenSSL: the digest works, contexts can be made, both AES-128 ciphers have keys
  of 16 bytes, and contexts that were given the same key belong together.\<close>

definition keys_spec :: "'c evp_keys \<Rightarrow> ('c \<Rightarrow> 'c \<Rightarrow> bool) \<Rightarrow> ('c \<Rightarrow> 'c \<Rightarrow> bool) \<Rightarrow> bool" where
  "keys_spec ek P H \<longleftrightarrow> md_ok (ek_md ek) \<and> md_size (ek_md ek) = 32
     \<and> ek_key_len ek NID_aes_128_ecb = Some 16 \<and> ek_key_len ek NID_aes_128_gcm = Some 16
     \<and> (\<exists>x. ek_new ek = Some x \<and> (\<forall>k. length k = 16 \<longrightarrow>
          (\<exists>e d. ek_init ek x NID_aes_128_gcm k True = Some e \<and> ek_init ek x NID_aes_128_gcm k False = Some d \<and> P e d)
          \<and> (\<exists>h. ek_init ek x NID_aes_128_ecb k True = Some h \<and> H h h)))"

text \<open>\<^verbatim>\<open>BUF_MEM_new\<close> and \<^verbatim>\<open>BUF_MEM_grow\<close> succeed.\<close>

definition buf_ok :: "env \<Rightarrow> bool" where
  "buf_ok e \<longleftrightarrow> env_alloc e sizeof_BUF_MEM \<and> grow_spec e \<and> (\<forall>n. env_grow e [] n \<noteq> None)"

definition key_of :: "evp_md \<Rightarrow> bytes \<Rightarrow> bytes \<Rightarrow> nat \<Rightarrow> bytes" where
  "key_of md s label n = rfc_hkdf_expand md s (hkdf_label n label []) n"

lemma hkdf_n_le: "0 < md_size md \<Longrightarrow> hkdf_n md n \<le> n"
proof -
  assume s: "0 < md_size md"
  have "n + md_size md - 1 < (n + 1) * md_size md" using s by (cases "md_size md") (auto simp: algebra_simps)
  then have "(n + md_size md - 1) div md_size md < n + 1" using s by (simp add: div_less_iff_less_mult)
  then show ?thesis by (simp add: hkdf_n_def)
qed

lemma length_key_of:
  assumes "md_ok md"
  shows "length (key_of md s label n) = n"
proof -
  have s: "0 < md_size md" using assms by (simp add: md_ok_def)
  have "n + md_size md - 1 < (hkdf_n md n + 1) * md_size md"
    unfolding hkdf_n_def using s by (metis Suc_eq_plus1 dividend_less_times_div mult.commute mult_Suc_right add.commute)
  then have "n \<le> hkdf_n md n * md_size md" using s by simp
  then show ?thesis
    using length_hkdf_blocks[OF assms, of s "hkdf_label n label []" "hkdf_n md n"]
    by (simp add: key_of_def rfc_hkdf_expand_def hkdf_blocks_def hkdf_n_def)
qed

lemma label_ok:
  assumes "md_ok md" and "buf_ok e" and "length label \<le> 249" and "n \<le> 64" and "n \<le> length out"
  shows "QuicTLS13HkdfExpandLabel e md s label out (of_nat n) = Some (Inr (key_of md s label n @ drop n out))"
proof -
  have n: "unat (of_nat n :: u64) = n" using assms(4) by (intro of_nat_unat64) simp
  have h: "hkdf_n md n \<le> 254" using hkdf_n_le[of md n] assms(1,4) by (simp add: md_ok_def)
  from expand_label_ok[OF assms(1) _ _ _ assms(3), of e "[]" None "of_nat n" out s] assms(2,4,5) h
  show ?thesis unfolding n by (simp add: QuicTLS13HkdfExpandLabel_def buf_ok_def key_of_def)
qed

text \<open>The ciphers prepared from a secret.\<close>

definition ciphers_of :: "'c evp_keys \<Rightarrow> bytes \<Rightarrow> bool \<Rightarrow> 'c QUIC_CIPHERS" where
  "ciphers_of ek s enc =
     (let x = the (ek_new ek) in
      \<lparr>qcs_hp_cipher = \<lparr>qc_alg = QUIC_ALG_AES_128_ECB, qc_enc = True,
         qc_ctx = ek_init ek x NID_aes_128_ecb (key_of (ek_md ek) s quic_hp_label 16) True\<rparr>,
       qcs_pp_cipher = \<lparr>pp_cipher = \<lparr>qc_alg = QUIC_ALG_AES_128_GCM, qc_enc = enc,
           qc_ctx = ek_init ek x NID_aes_128_gcm (key_of (ek_md ek) s quic_key_label 16) enc\<rparr>,
         pp_iv = key_of (ek_md ek) s quic_iv_label 12\<rparr>\<rparr>)"

text \<open>A space as a new connection has it: algorithms chosen, no key.\<close>

definition fresh_ciphers :: "'c QUIC_CIPHERS \<Rightarrow> bool" where
  "fresh_ciphers cs \<longleftrightarrow> qc_alg (qcs_hp_cipher cs) = QUIC_ALG_AES_128_ECB
     \<and> qc_alg (pp_cipher (qcs_pp_cipher cs)) = QUIC_ALG_AES_128_GCM \<and> length (pp_iv (qcs_pp_cipher cs)) = 12"

lemma find_ok:
  assumes "keys_spec ek P H"
  shows "QuicFindCipherByAlg ek QUIC_ALG_AES_128_ECB = Inr (NID_aes_128_ecb, 16)"
    and "QuicFindCipherByAlg ek QUIC_ALG_AES_128_GCM = Inr (NID_aes_128_gcm, 16)"
  using assms
  by (simp_all add: keys_spec_def QuicFindCipherByAlg_def QuicCipherNidFind_def QuicCipherSuiteFind_def
      QUIC_ALG_AES_128_ECB_def QUIC_ALG_AES_128_GCM_def QUIC_ALG_MAX_def cipher_suite_def)

lemma label_lengths: "length quic_hp_label \<le> 249" "length quic_key_label \<le> 249" "length quic_iv_label \<le> 249"
    "length client_label \<le> 249" "length server_label \<le> 249"
  by (simp_all add: quic_hp_label_def quic_key_label_def quic_iv_label_def client_label_def server_label_def)

lemma ciphers_prepare_ok:
  assumes k: "keys_spec ek P H" and b: "buf_ok e" and s: "length s = 32" and f: "fresh_ciphers cs"
  shows "QuicCiphersPrepare e ek cs (Some s) enc = Some (ciphers_of ek s enc, Inr 0)"
proof -
  let ?md = "ek_md ek"
  have md: "md_ok ?md" "md_size ?md = 32" using k by (simp_all add: keys_spec_def)
  obtain x where x: "ek_new ek = Some x" using k by (auto simp: keys_spec_def)
  have init: "\<exists>h. ek_init ek x NID_aes_128_ecb (key_of ?md s quic_hp_label 16) True = Some h"
    "\<exists>c. ek_init ek x NID_aes_128_gcm (key_of ?md s quic_key_label 16) enc = Some c"
    using k x length_key_of[OF md(1), of s _ 16] unfolding keys_spec_def by (cases enc; fastforce)+
  have l: "QuicTLS13HkdfExpandLabel e ?md s label (replicate 32 0) 16 = Some (Inr (key_of ?md s label 16 @ replicate 16 0))"
    if "length label \<le> 249" for label
    using label_ok[OF md(1) b that, of 16 "replicate 32 0" s] by simp
  have iv: "QuicTLS13HkdfExpandLabel e ?md s quic_iv_label (pp_iv (qcs_pp_cipher cs)) 12 = Some (Inr (key_of ?md s quic_iv_label 12))"
    using label_ok[OF md(1) b label_lengths(3), of 12 "pp_iv (qcs_pp_cipher cs)" s] f by (simp add: fresh_ciphers_def)
  from init obtain h c where hc: "ek_init ek x NID_aes_128_ecb (key_of ?md s quic_hp_label 16) True = Some h"
    "ek_init ek x NID_aes_128_gcm (key_of ?md s quic_key_label 16) enc = Some c" by blast
  have lk: "length (key_of ?md s label n) = n" for label n using length_key_of[OF md(1)] .
  have hp: "QuicHPCipherPrepare e ek (qcs_hp_cipher cs) (Some s) = Some (qcs_hp_cipher (ciphers_of ek s enc), Inr ())"
    using find_ok[OF k] l[OF label_lengths(1)] f x hc(1) s md(2)
    by (cases "qcs_hp_cipher cs") (simp add: QuicHPCipherPrepare_def expand_secret_def AES_KEY_MAX_SIZE_def
        QuicCipherDoPrepare_def Let_def lk fresh_ciphers_def ciphers_of_def)
  have pp: "QuicPPCipherPrepare e ek (qcs_pp_cipher cs) (Some s) enc = Some (qcs_pp_cipher (ciphers_of ek s enc), Inr ())"
    using find_ok[OF k] l[OF label_lengths(2)] iv f x hc(2) s md(2)
    by (cases "qcs_pp_cipher cs"; cases "pp_cipher (qcs_pp_cipher cs)")
      (simp add: QuicPPCipherPrepare_def expand_secret_def AES_KEY_MAX_SIZE_def QuicCipherDoPrepare_def Let_def lk
        TLS13_AEAD_NONCE_LENGTH_def fresh_ciphers_def ciphers_of_def)
  show ?thesis
    by (cases "ciphers_of ek s enc") (use hp pp in \<open>simp add: QuicCiphersPrepare_def Let_def\<close>)
qed

text \<open>The Initial secrets of RFC 9001, section 5.2.\<close>

definition initial_secret :: "evp_md \<Rightarrow> QUIC_DATA \<Rightarrow> bool \<Rightarrow> bytes" where
  "initial_secret md cid server =
     key_of md (hmac md handshake_salt_v1 (qd_val cid)) (if server then server_label else client_label) 32"

lemma initial_secrets_ok:
  assumes "md_ok md" and "md_size md = 32" and "buf_ok e" and "qd_wf cid"
  shows "QuicDeriveInitialSecrets e md cid QUIC_VERSION_1 = Some (Inr (initial_secret md cid False, initial_secret md cid True))"
proof -
  let ?stack = "fresh_mem e 32" and ?prk = "hmac md handshake_salt_v1 (qd_val cid)"
  have key: "(case qd_data cid of None \<Rightarrow> Inr [] | Some m \<Rightarrow> mem_slice m 0 (unat (qd_len cid))) = Inr (qd_val cid)"
    using assms(4) by (auto simp: qd_wf_def qd_val_def mem_slice_def split: option.splits)
  have lp: "length ?prk = 32" using length_hmac[OF assms(1)] assms(2) by simp
  have "mem_copy ?stack 0 ?prk = Inr ?prk"
    using mem_copy_append[of ?stack ?prk "[]" "[]"] lp by simp
  then have ext: "HkdfExtract md handshake_salt_v1 (qd_val cid) ?stack = Inr (?prk, 32)"
    using lp by (simp add: HkdfExtract_def md_hmac_ok[OF assms(1)])
  have lab: "QuicTLS13HkdfExpandLabel e md ?prk label ?stack 32 = Some (Inr (key_of md ?prk label 32))"
    if "length label \<le> 249" for label
    using label_ok[OF assms(1,3) that, of 32 ?stack ?prk] by simp
  show ?thesis
    by (simp add: QuicDeriveInitialSecrets_def QuicSaltFind_def handshake_salt_def key ext lab label_lengths
        HASH_SHA2_256_LENGTH_def initial_secret_def)
qed

lemma create_initial_ok:
  assumes k: "keys_spec ek P H" and b: "buf_ok e" and cid: "qd_wf cid"
    and f: "fresh_ciphers (csp_ciphers (qy_decrypt (q_initial quic)))" "fresh_ciphers (csp_ciphers (qy_encrypt (q_initial quic)))"
    and n: "\<not> csp_cipher_inited (qy_decrypt (q_initial quic))" "\<not> csp_cipher_inited (qy_encrypt (q_initial quic))"
  shows "QuicCreateInitialDecoders e ek quic QUIC_VERSION_1 cid =
    Some (quic\<lparr>q_initial := (q_initial quic)\<lparr>
        qy_decrypt := \<lparr>csp_ciphers = ciphers_of ek (initial_secret (ek_md ek) cid (\<not> q_server quic)) False, csp_cipher_inited = True\<rparr>,
        qy_encrypt := \<lparr>csp_ciphers = ciphers_of ek (initial_secret (ek_md ek) cid (q_server quic)) True, csp_cipher_inited = True\<rparr>\<rparr>\<rparr>, Inr ())"
proof -
  have md: "md_ok (ek_md ek)" "md_size (ek_md ek) = 32" using k by (simp_all add: keys_spec_def)
  have l: "length (initial_secret (ek_md ek) cid s) = 32" for s
    by (simp add: initial_secret_def length_key_of[OF md(1)])
  note p = ciphers_prepare_ok[OF k b l]
  show ?thesis
    using initial_secrets_ok[OF md b cid] p f n
    by (cases "qy_decrypt (q_initial quic)"; cases "qy_encrypt (q_initial quic)")
      (simp add: QuicCreateInitialDecoders_def QuicPrepareEncoderDecoders_def Let_def)
qed

text \<open>What is prepared from one secret for both ends is paired.\<close>

lemma ciphers_pair:
  assumes "keys_spec ek P H"
  shows "spaces_paired P H \<lparr>csp_ciphers = ciphers_of ek s True, csp_cipher_inited = True\<rparr>
      \<lparr>csp_ciphers = ciphers_of ek s False, csp_cipher_inited = True\<rparr>"
proof -
  have md: "md_ok (ek_md ek)" using assms by (simp add: keys_spec_def)
  have lk: "length (key_of (ek_md ek) s label n) = n" for label n using length_key_of[OF md] .
  obtain x where x: "ek_new ek = Some x" "\<And>k. length k = 16 \<Longrightarrow>
      (\<exists>e d. ek_init ek x NID_aes_128_gcm k True = Some e \<and> ek_init ek x NID_aes_128_gcm k False = Some d \<and> P e d)
      \<and> (\<exists>h. ek_init ek x NID_aes_128_ecb k True = Some h \<and> H h h)"
    using assms unfolding keys_spec_def by blast
  show ?thesis
    using x(2)[of "key_of (ek_md ek) s quic_key_label 16"] x(2)[of "key_of (ek_md ek) s quic_hp_label 16"] x(1) lk
    by (auto simp: spaces_paired_def ciphers_of_def Let_def gcm_alg_def QUIC_ALG_AES_128_GCM_def)
qed

text \<open>C10: the Initial keys agree: when a client and a server derive the Initial keys from the same destination
  connection identifier, both succeed, and each end's encrypting space is paired with the other's decrypting
  one, so that (with \<open>packet_seal_open\<close>) each opens what the other seals.\<close>

theorem initial_keys_agree:
  assumes "keys_spec ek P H" and "buf_ok e" and "qd_wf cid" and "\<not> q_server client" and "q_server server"
    and "\<forall>q \<in> {client, server}. \<forall>s \<in> {qy_decrypt (q_initial q), qy_encrypt (q_initial q)}.
           fresh_ciphers (csp_ciphers s) \<and> \<not> csp_cipher_inited s"
  shows "\<exists>client' server'. QuicCreateInitialDecoders e ek client QUIC_VERSION_1 cid = Some (client', Inr ())
    \<and> QuicCreateInitialDecoders e ek server QUIC_VERSION_1 cid = Some (server', Inr ())
    \<and> spaces_paired P H (qy_encrypt (q_initial client')) (qy_decrypt (q_initial server'))
    \<and> spaces_paired P H (qy_encrypt (q_initial server')) (qy_decrypt (q_initial client'))"
proof -
  show ?thesis
    using create_initial_ok[OF assms(1-3), of client] create_initial_ok[OF assms(1-3), of server] assms(4-6)
      ciphers_pair[OF assms(1)] by simp
qed

definition demo_md32 :: evp_md where
  "demo_md32 = \<lparr>md_size = 32, md_new = True,
     md_hash = (\<lambda>m. Some (map (\<lambda>i. of_nat (length m) + of_nat i * sum_list m) [0..<32])),
     md_hmac = (\<lambda>k m. Some (map (\<lambda>i. sum_list k + of_nat i * sum_list m) [0..<32]))\<rparr>"

definition demo_keys :: "demo_ctx evp_keys" where
  "demo_keys = \<lparr>ek_md = demo_md32, ek_new = Some demo_key, ek_key_len = (\<lambda>n. if n = NID_undef then None else Some 16),
     ek_init = (\<lambda>c n k enc. Some (c\<lparr>dx_key := sum_list k, dx_enc := enc\<rparr>))\<rparr>"

lemma demo_keys_spec:
  "keys_spec demo_keys (\<lambda>e d. dx_key e = dx_key d) (\<lambda>e d. dx_key e = dx_key d \<and> dx_enc e \<and> dx_enc d \<and> dx_iv e = dx_iv d)"
  by (simp add: keys_spec_def demo_keys_def md_ok_def demo_md32_def)

definition demo_fresh :: "demo_ctx QuicCipherSpace" where
  "demo_fresh = \<lparr>csp_ciphers = \<lparr>qcs_hp_cipher = \<lparr>qc_alg = QUIC_ALG_AES_128_ECB, qc_enc = False, qc_ctx = None\<rparr>,
     qcs_pp_cipher = \<lparr>pp_cipher = \<lparr>qc_alg = QUIC_ALG_AES_128_GCM, qc_enc = False, qc_ctx = None\<rparr>, pp_iv = replicate 12 0\<rparr>\<rparr>,
     csp_cipher_inited = False\<rparr>"

definition demo_new :: "demo_ctx Quic" where
  "demo_new = sample_quic ((demo_crypto 0)\<lparr>qy_decrypt := demo_fresh, qy_encrypt := demo_fresh\<rparr>)"

lemma demo_buf_ok: "buf_ok env0"
  using env0_grow_spec by (simp add: buf_ok_def) (simp add: env0_def zero_grow_def)

lemma demo_new_fresh: "q_server demo_new = False"
  "\<forall>s \<in> {qy_decrypt (q_initial demo_new), qy_encrypt (q_initial demo_new)}. fresh_ciphers (csp_ciphers s)
     \<and> qc_ctx (pp_cipher (qcs_pp_cipher (csp_ciphers s))) = None \<and> \<not> csp_cipher_inited s"
  by (simp_all add: demo_new_def sample_quic_def QuicTrans.defs demo_quic_def demo_fresh_def fresh_ciphers_def)

theorem initial_keys_agree_witness:
  "\<exists>client' server'.
      QuicCreateInitialDecoders env0 demo_keys demo_new QUIC_VERSION_1 \<lparr>qd_data = Some [1, 2, 3], qd_len = 3\<rparr> = Some (client', Inr ())
    \<and> QuicCreateInitialDecoders env0 demo_keys (demo_new\<lparr>q_server := True\<rparr>) QUIC_VERSION_1
        \<lparr>qd_data = Some [1, 2, 3], qd_len = 3\<rparr> = Some (server', Inr ())"
proof -
  have w: "qd_wf \<lparr>qd_data = Some [1, 2, 3], qd_len = 3\<rparr>" by (simp add: qd_wf_def)
  have q: "\<forall>q \<in> {demo_new, demo_new\<lparr>q_server := True\<rparr>}. \<forall>s \<in> {qy_decrypt (q_initial q), qy_encrypt (q_initial q)}.
      fresh_ciphers (csp_ciphers s) \<and> \<not> csp_cipher_inited s" using demo_new_fresh(2) by auto
  have s: "\<not> q_server demo_new" "q_server (demo_new\<lparr>q_server := True\<rparr>)" using demo_new_fresh(1) by auto
  show ?thesis using initial_keys_agree[OF demo_keys_spec demo_buf_ok w s q] by blast
qed

text \<open>A failure to make the header protection cipher passes for success: when \<^verbatim>\<open>EVP_CIPHER_CTX_new\<close> fails
  \<^verbatim>\<open>QuicCiphersPrepare\<close> returns 1 where its callers test for a negative value,
  \<^verbatim>\<open>QuicCreateInitialDecoders\<close> reports success with both spaces marked as ready, and the first packet to be
  sealed hands OpenSSL a null context.\<close>

theorem cipher_failure_accepted:
  assumes "md_ok (ek_md ek)" and "md_size (ek_md ek) = 32" and "buf_ok e" and "qd_wf cid" and "ek_new ek = None"
    and "\<forall>s \<in> {qy_decrypt (q_initial quic), qy_encrypt (q_initial quic)}. fresh_ciphers (csp_ciphers s)
           \<and> qc_ctx (pp_cipher (qcs_pp_cipher (csp_ciphers s))) = None \<and> \<not> csp_cipher_inited s"
  shows "\<exists>quic'. QuicCreateInitialDecoders e ek quic QUIC_VERSION_1 cid = Some (quic', Inr ())
    \<and> csp_cipher_inited (qy_decrypt (q_initial quic')) \<and> csp_cipher_inited (qy_encrypt (q_initial quic'))
    \<and> QuicCryptoSetIV ev (qcs_pp_cipher (csp_ciphers (qy_encrypt (q_initial quic')))) pn = Inl Null_ptr"
proof -
  have hp: "\<exists>h r. QuicHPCipherPrepare e ek (qcs_hp_cipher cs) (Some s) = Some (h, Inl r)"
    if "fresh_ciphers cs" "length s = 32" for cs s
  proof -
    have alg: "qc_alg (qcs_hp_cipher cs) = QUIC_ALG_AES_128_ECB" using that by (simp add: fresh_ciphers_def)
    show ?thesis
    proof (cases "QuicFindCipherByAlg ek QUIC_ALG_AES_128_ECB")
      case (Inl err)
      then show ?thesis by (simp add: QuicHPCipherPrepare_def alg)
    next
      case (Inr cn)
      then obtain c n where cn: "QuicFindCipherByAlg ek QUIC_ALG_AES_128_ECB = Inr (c, n)" by (cases cn) auto
      show ?thesis
      proof (cases "n > 32")
        case True
        then show ?thesis using cn by (simp add: QuicHPCipherPrepare_def alg AES_KEY_MAX_SIZE_def)
      next
        case False
        then show ?thesis
          using cn label_ok[OF assms(1,3) label_lengths(1), of n "replicate 32 0" s] that(2) assms(2,5)
          by (simp add: QuicHPCipherPrepare_def alg AES_KEY_MAX_SIZE_def expand_secret_def QuicCipherDoPrepare_def)
      qed
    qed
  qed
  have cp: "\<exists>h. QuicCiphersPrepare e ek cs (Some s) enc = Some (cs\<lparr>qcs_hp_cipher := h\<rparr>, Inr 1)"
    if "fresh_ciphers cs" "length s = 32" for cs s enc
    using hp[OF that] by (auto simp: QuicCiphersPrepare_def Let_def)
  let ?i = "q_initial quic" and ?md = "ek_md ek"
  let ?s = "\<lambda>b. initial_secret ?md cid b"
  have l: "length (?s b) = 32" for b by (simp add: initial_secret_def length_key_of[OF assms(1)])
  have f: "fresh_ciphers (csp_ciphers (qy_decrypt ?i))" "fresh_ciphers (csp_ciphers (qy_encrypt ?i))"
    "\<not> csp_cipher_inited (qy_decrypt ?i)" "\<not> csp_cipher_inited (qy_encrypt ?i)"
    "qc_ctx (pp_cipher (qcs_pp_cipher (csp_ciphers (qy_encrypt ?i)))) = None"
    "length (pp_iv (qcs_pp_cipher (csp_ciphers (qy_encrypt ?i)))) = 12" using assms(6) by (auto simp: fresh_ciphers_def)
  obtain h1 where h1: "QuicCiphersPrepare e ek (csp_ciphers (qy_decrypt ?i)) (Some (?s (\<not> q_server quic))) False =
      Some ((csp_ciphers (qy_decrypt ?i))\<lparr>qcs_hp_cipher := h1\<rparr>, Inr 1)" using cp[OF f(1) l] by blast
  obtain h2 where h2: "QuicCiphersPrepare e ek (csp_ciphers (qy_encrypt ?i)) (Some (?s (q_server quic))) True =
      Some ((csp_ciphers (qy_encrypt ?i))\<lparr>qcs_hp_cipher := h2\<rparr>, Inr 1)" using cp[OF f(2) l] by blast
  have iv: "QuicCryptoSetIV ev (qcs_pp_cipher (csp_ciphers (qy_encrypt ?i))) pn = Inl Null_ptr"
    using f(5,6) nonce_loop_ok[OF f(6)]
    by (simp add: QuicCryptoSetIV_def Let_def mem_slice_def TLS13_AEAD_NONCE_LENGTH_def QuicEvpCipherInit_def)
  show ?thesis
    using initial_secrets_ok[OF assms(1-4)] h1 h2 f(3,4) iv
    by (cases "q_server quic") (simp_all add: QuicCreateInitialDecoders_def QuicPrepareEncoderDecoders_def Let_def)
qed

theorem cipher_failure_accepted_witness:
  "\<exists>quic'. QuicCreateInitialDecoders env0 (demo_keys\<lparr>ek_new := None\<rparr>) demo_new QUIC_VERSION_1
       \<lparr>qd_data = Some [1, 2, 3], qd_len = 3\<rparr> = Some (quic', Inr ())
    \<and> csp_cipher_inited (qy_encrypt (q_initial quic'))
    \<and> QuicCryptoSetIV demo_evp (qcs_pp_cipher (csp_ciphers (qy_encrypt (q_initial quic')))) 0 = Inl Null_ptr"
proof -
  have w: "qd_wf \<lparr>qd_data = Some [1, 2, 3], qd_len = 3\<rparr>" by (simp add: qd_wf_def)
  have k: "md_ok (ek_md (demo_keys\<lparr>ek_new := None\<rparr>))" "md_size (ek_md (demo_keys\<lparr>ek_new := None\<rparr>)) = 32"
    "ek_new (demo_keys\<lparr>ek_new := None\<rparr>) = None" using demo_keys_spec by (simp_all add: keys_spec_def)
  show ?thesis using cipher_failure_accepted[OF k(1,2) demo_buf_ok w k(3) demo_new_fresh(2)] by blast
qed

end
