(* ===== verification/Frame_Build.thy ===== *)
theory Frame_Build
  imports Pkt_Build
begin

text \<open>
  Building frames (\<^verbatim>\<open>quic/frame.c\<close>): the table of frame types, the builders, and the queueing of send
  buffers. A packet is written into the memory of its send buffer: while it is being written that memory is
  the packet's \<open>wp_data\<close>, and it goes back into the buffer when the buffer is queued. The two loops that cut
  data into packets are partial functions: \<open>None\<close> means that they do not return.
\<close>

section \<open>The table of frame types\<close>

definition QUIC_FRAME_TYPE_PADDING :: u64 where "QUIC_FRAME_TYPE_PADDING = 0x00"
definition QUIC_FRAME_TYPE_ACK :: u64 where "QUIC_FRAME_TYPE_ACK = 0x02"
definition QUIC_FRAME_TYPE_RESET_STREAM :: u64 where "QUIC_FRAME_TYPE_RESET_STREAM = 0x04"
definition QUIC_FRAME_TYPE_CRYPTO :: u64 where "QUIC_FRAME_TYPE_CRYPTO = 0x06"
definition QUIC_FRAME_TYPE_NEW_TOKEN :: u64 where "QUIC_FRAME_TYPE_NEW_TOKEN = 0x07"
definition QUIC_FRAME_TYPE_STREAM :: u64 where "QUIC_FRAME_TYPE_STREAM = 0x08"
definition QUIC_FRAME_TYPE_DATA_BLOCKED :: u64 where "QUIC_FRAME_TYPE_DATA_BLOCKED = 0x14"
definition QUIC_FRAME_TYPE_STREAM_DATA_BLOCKED :: u64 where "QUIC_FRAME_TYPE_STREAM_DATA_BLOCKED = 0x15"
definition QUIC_FRAME_TYPE_CONNECTION_CLOSE :: u64 where "QUIC_FRAME_TYPE_CONNECTION_CLOSE = 0x1c"
definition QUIC_FRAME_TYPE_HANDSHAKE_DONE :: u64 where "QUIC_FRAME_TYPE_HANDSHAKE_DONE = 0x1e"
definition QUIC_FRAME_TYPE_MAX :: u64 where "QUIC_FRAME_TYPE_MAX = 0x1f"

definition QUIC_FRAME_STREAM_BIT_FIN :: u64 where "QUIC_FRAME_STREAM_BIT_FIN = 0x01"
definition QUIC_FRAME_STREAM_BIT_LEN :: u64 where "QUIC_FRAME_STREAM_BIT_LEN = 0x02"
definition QUIC_FRAME_STREAM_BIT_OFF :: u64 where "QUIC_FRAME_STREAM_BIT_OFF = 0x04"

definition QUIC_FRAME_CRYPTO_HEADER_MAX_LEN :: u64 where "QUIC_FRAME_CRYPTO_HEADER_MAX_LEN = 12"
definition QUIC_FRAME_STREAM_HEADER_MAX_LEN :: u64 where "QUIC_FRAME_STREAM_HEADER_MAX_LEN = 16"
definition QUIC_NEW_TOKEN_LEN :: u64 where "QUIC_NEW_TOKEN_LEN = 60"

datatype frame_parser =
  PingParser | AckParser | ResetStreamParser | StopSendingParser | CryptoParser | NewTokenParser | StreamParser
| MaxDataParser | MaxStreamDataParser | MaxStreamsBidiParser | MaxStreamsUniParser | DataBlockedParser
| StreamDataBlockedParser | NewConnIdParser | RetireConnIdParser | ConnCloseParser | HandshakeDoneParser

datatype frame_builder = AckBuild | ResetStreamBuild | DataBlockedBuild | StreamDataBlockedBuild | NewTokenBuild

record QuicFrameProcess =
  fp_no_body :: bool
  fp_skip :: bool
  fp_parser :: "frame_parser option"
  fp_builder :: "frame_builder option"

definition fp :: "frame_parser option \<Rightarrow> frame_builder option \<Rightarrow> QuicFrameProcess" where
  "fp p b = \<lparr>fp_no_body = False, fp_skip = False, fp_parser = p, fp_builder = b\<rparr>"

definition fp_none :: QuicFrameProcess where "fp_none = fp None None"

definition fp_empty :: "bool \<Rightarrow> frame_parser option \<Rightarrow> QuicFrameProcess" where
  "fp_empty skip p = \<lparr>fp_no_body = True, fp_skip = skip, fp_parser = p, fp_builder = None\<rparr>"

definition frame_handler :: "QuicFrameProcess list" where
  "frame_handler =
    [fp_empty True None, fp_empty False (Some PingParser),
     fp (Some AckParser) (Some AckBuild), fp_none,
     fp (Some ResetStreamParser) (Some ResetStreamBuild), fp (Some StopSendingParser) None,
     fp (Some CryptoParser) None, fp (Some NewTokenParser) (Some NewTokenBuild),
     fp (Some StreamParser) None, fp (Some StreamParser) None, fp (Some StreamParser) None, fp (Some StreamParser) None,
     fp (Some StreamParser) None, fp (Some StreamParser) None, fp (Some StreamParser) None, fp (Some StreamParser) None,
     fp (Some MaxDataParser) None, fp (Some MaxStreamDataParser) None,
     fp (Some MaxStreamsBidiParser) None, fp (Some MaxStreamsUniParser) None,
     fp (Some DataBlockedParser) (Some DataBlockedBuild), fp (Some StreamDataBlockedParser) (Some StreamDataBlockedBuild),
     fp_none, fp_none, fp (Some NewConnIdParser) None, fp (Some RetireConnIdParser) None, fp_none, fp_none,
     fp (Some ConnCloseParser) None, fp (Some ConnCloseParser) None, fp_empty False (Some HandshakeDoneParser)]"

section \<open>Builders\<close>

text \<open>Writing to the packet while the connection stays as it is.\<close>

definition on_pkt :: "'q \<Rightarrow> WPacket \<times> 'a res \<Rightarrow> ('q \<times> WPacket) \<times> 'a res" where
  "on_pkt quic x = ((quic, fst x), snd x)"

definition QuicFrameCryptoBuild :: "env \<Rightarrow> WPacket \<Rightarrow> u64 \<Rightarrow> bytes \<Rightarrow> u64 \<Rightarrow> WPacket \<times> u32 res" where
  "QuicFrameCryptoBuild e pkt offset data len =
     bindS (QuicVariableLengthWrite e pkt QUIC_FRAME_TYPE_CRYPTO) (\<lambda>pkt1 _.
     bindS (QuicVariableLengthWrite e pkt1 offset) (\<lambda>pkt2 _.
       QuicWPacketSubMemcpyVar e pkt2 (Some data) len))"

definition QuicFrameDataBlockedBuild :: "env \<Rightarrow> 'c Quic \<Rightarrow> WPacket \<Rightarrow> ('c Quic \<times> WPacket) \<times> unit res" where
  "QuicFrameDataBlockedBuild e quic pkt = on_pkt quic (QuicVariableLengthWrite e pkt (stat_sent (scf_stat_all (q_stream quic))))"

definition QuicFrameStreamDataBlockedBuild :: "env \<Rightarrow> 'c Quic \<Rightarrow> WPacket \<Rightarrow> u64 \<Rightarrow> ('c Quic \<times> WPacket) \<times> unit res" where
  "QuicFrameStreamDataBlockedBuild e quic pkt i =
     (case QuicStreamGetInstance quic i of
        (quic1, Inl err) \<Rightarrow> ((quic1, pkt), Inl err)
      | (quic1, Inr si) \<Rightarrow>
          let max_stream_data = stat_sent (si_stat_bytes si);
              quic2 = (if si_send_state si = QUIC_STREAM_STATE_READY
                       then q_stream_upd quic1 i (si\<lparr>si_send_state := QUIC_STREAM_STATE_SEND\<rparr>) else quic1)
          in on_pkt quic2 (bindS (QuicVariableLengthWrite e pkt i) (\<lambda>pkt1 _. QuicVariableLengthWrite e pkt1 max_stream_data)))"

definition QuicFrameAckGen :: "env \<Rightarrow> WPacket \<Rightarrow> 'c QUIC_CRYPTO \<Rightarrow> ('c QUIC_CRYPTO \<times> WPacket) \<times> unit res" where
  "QuicFrameAckGen e pkt c =
     (let largest_ack = qy_largest_pn c; delay = env_now e - qy_arriv_time c in
      case bindS (QuicVariableLengthWrite e pkt largest_ack) (\<lambda>pkt1 _.
           if \<not> QUIC_GE delay 0 then (pkt1, Inl Abort)
           else
             bindS (QuicVariableLengthWrite e pkt1 delay) (\<lambda>pkt2 _.
             bindS (QuicVariableLengthWrite e pkt2 0) (\<lambda>pkt3 _.
               QuicVariableLengthWrite e pkt3 (qy_first_ack_range c)))) of
        (pkt4, Inl err) \<Rightarrow> ((c, pkt4), Inl err)
      | (pkt4, Inr _) \<Rightarrow> ((c\<lparr>qy_largest_ack := largest_ack\<rparr>, pkt4), Inr ()))"

definition QuicFrameAckBuild :: "env \<Rightarrow> 'c Quic \<Rightarrow> WPacket \<Rightarrow> crypto_space \<Rightarrow> ('c Quic \<times> WPacket) \<times> unit res" where
  "QuicFrameAckBuild e quic pkt sp =
     (case crypto_at quic sp of
        Inl err \<Rightarrow> ((quic, pkt), Inl err)
      | Inr c \<Rightarrow> (case QuicFrameAckGen e pkt c of ((c', pkt'), r) \<Rightarrow> ((crypto_upd quic sp c', pkt'), r)))"

text \<open>The error code is read through the node's argument.\<close>

definition QuicFrameResetStreamBuild ::
    "env \<Rightarrow> 'c Quic \<Rightarrow> WPacket \<Rightarrow> u64 option \<Rightarrow> u64 \<Rightarrow> ('c Quic \<times> WPacket) \<times> unit res" where
  "QuicFrameResetStreamBuild e quic pkt arg i =
     (case arg of
        None \<Rightarrow> ((quic, pkt), Inl Null_ptr)
      | Some err_code \<Rightarrow>
          (case QuicStreamGetInstance quic i of
             (quic1, Inl err) \<Rightarrow> ((quic1, pkt), Inl err)
           | (quic1, Inr si) \<Rightarrow>
               if si_send_state si \<notin> {QUIC_STREAM_STATE_READY, QUIC_STREAM_STATE_SEND, QUIC_STREAM_STATE_DATA_SENT}
               then ((quic1, pkt), Inl Fail)
               else
                 on_pkt (q_stream_upd quic1 i (si\<lparr>si_send_state := QUIC_STREAM_STATE_RESET_SENT\<rparr>))
                   (bindS (QuicVariableLengthWrite e pkt i) (\<lambda>pkt1 _.
                    bindS (QuicVariableLengthWrite e pkt1 err_code) (\<lambda>pkt2 _.
                      QuicVariableLengthWrite e pkt2 (stat_sent (si_stat_bytes si)))))))"

text \<open>\<^verbatim>\<open>RAND_bytes\<close> writes into the packet.\<close>

definition QuicFrameNewTokenBuild :: "env \<Rightarrow> 'c Quic \<Rightarrow> WPacket \<Rightarrow> ('c Quic \<times> WPacket) \<times> unit res" where
  "QuicFrameNewTokenBuild e quic pkt =
     (case bindS (QuicVariableLengthWrite e pkt QUIC_NEW_TOKEN_LEN) (\<lambda>pkt1 _.
           bindS (WPacketAllocateBytes e pkt1 QUIC_NEW_TOKEN_LEN) (\<lambda>pkt2 p.
             case env_rand e 0 (unat QUIC_NEW_TOKEN_LEN) of
               None \<Rightarrow> (pkt2, Inl Fail)
             | Some r \<Rightarrow> bindS (wp_store pkt2 p r) (\<lambda>pkt3 _. (pkt3, Inr r)))) of
        (pkt4, Inl err) \<Rightarrow> ((quic, pkt4), Inl err)
      | (pkt4, Inr token) \<Rightarrow>
          (case QuicDataCopy e (q_token quic) (Some token) QUIC_NEW_TOKEN_LEN of
             (d, r) \<Rightarrow> ((quic\<lparr>q_token := d\<rparr>, pkt4), r)))"

definition QuicFrameAckSendCheck :: "'c QUIC_CRYPTO \<Rightarrow> unit res" where
  "QuicFrameAckSendCheck c =
     (if \<not> csp_cipher_inited (qy_encrypt c) then Inl Fail
      else if qy_largest_ack c = qy_largest_pn c then Inl Fail else Inr ())"

text \<open>The number of bytes of \<open>data\<close> that went into the frame, as an \<^verbatim>\<open>int\<close>.\<close>

definition QuicFrameStreamBuild ::
    "env \<Rightarrow> 'c Quic \<Rightarrow> WPacket \<Rightarrow> u64 \<Rightarrow> bytes \<Rightarrow> u64 \<Rightarrow> bool \<Rightarrow> bool \<Rightarrow> ('c Quic \<times> WPacket) \<times> u32 res" where
  "QuicFrameStreamBuild e quic pkt i data len fin last_one =
     (case QuicStreamGetInstance quic i of
        (quic1, Inl err) \<Rightarrow> ((quic1, pkt), Inl err)
      | (quic1, Inr si) \<Rightarrow>
          if si_send_state si \<notin> {QUIC_STREAM_STATE_READY, QUIC_STREAM_STATE_SEND} then ((quic1, pkt), Inl Fail)
          else
            let si1 = (if si_send_state si = QUIC_STREAM_STATE_READY then si\<lparr>si_send_state := QUIC_STREAM_STATE_SEND\<rparr> else si);
                offset = stat_sent (si_stat_bytes si);
                off = (offset \<noteq> 0);
                type1 = (if off then QUIC_FRAME_TYPE_STREAM OR QUIC_FRAME_STREAM_BIT_OFF else QUIC_FRAME_TYPE_STREAM);
                type2 = (if fin then type1 OR QUIC_FRAME_STREAM_BIT_FIN else type1);
                si2 = (if fin \<and> si_send_state si1 = QUIC_STREAM_STATE_SEND
                       then si1\<lparr>si_send_state := QUIC_STREAM_STATE_DATA_SENT\<rparr> else si1);
                type3 = (if \<not> last_one then type2 OR QUIC_FRAME_STREAM_BIT_LEN else type2)
            in on_pkt (q_stream_upd quic1 i si2)
              (bindS (QuicVariableLengthWrite e pkt type3) (\<lambda>pkt1 _.
               bindS (QuicVariableLengthWrite e pkt1 i) (\<lambda>pkt2 _.
               bindS (if type3 AND QUIC_FRAME_STREAM_BIT_OFF \<noteq> 0 then QuicVariableLengthWrite e pkt2 offset else (pkt2, Inr ())) (\<lambda>pkt3 _.
                 if type3 AND QUIC_FRAME_STREAM_BIT_LEN \<noteq> 0 then QuicWPacketSubMemcpyVar e pkt3 (Some data) len
                 else
                   let space = scast (WPacket_get_space pkt3) :: u64;
                       data_len = ucast (if QUIC_GT space len then len else space) :: u32
                   in bindS (WPacketMemcpy e pkt3 (Some (take (unat (scast data_len :: u64)) data)))
                        (\<lambda>pkt4 _. (pkt4, Inr data_len)))))))"

section \<open>Queueing\<close>

text \<open>The buffer takes the packet's memory back.\<close>

definition QuicFrameAddQueue :: "'c Quic \<Rightarrow> WPacket \<Rightarrow> QBUFF \<Rightarrow> 'c Quic \<times> unit res" where
  "QuicFrameAddQueue quic pkt qb =
     (let written = WPacket_get_written pkt in
      if written = 0 then (quic, Inl Fail)
      else case QBuffSetDataLen (qb\<lparr>qb_buff := wp_data pkt\<rparr>) written of
        Inl err \<Rightarrow> (quic, Inl err)
      | Inr qb' \<Rightarrow> (QuicAddQueue quic qb', Inr ()))"

definition QuicFrameBufferNew :: "env \<Rightarrow> u32 \<Rightarrow> u64 \<Rightarrow> (WPacket \<times> QBUFF) res" where
  "QuicFrameBufferNew e pkt_type buf_len =
     bindR (QBuffNew e pkt_type buf_len) (\<lambda>qb. Inr (WPacketStaticBufInit (qb_buff qb) (QBuffLen qb), qb))"

text \<open>When there is no memory for the next buffer the callers free the one just queued, which stays linked
  in the queue (\<open>Bad_mem\<close>); the CRYPTO loop's caller has lost the pointer by then and frees nothing, and the
  stream loop's has not: \<open>keeps\<close> says which.\<close>

definition QuicBuffQueueAndNext ::
    "env \<Rightarrow> bool \<Rightarrow> 'c Quic \<Rightarrow> u32 \<Rightarrow> WPacket \<Rightarrow> QBUFF \<Rightarrow> u64 \<Rightarrow> u64 \<Rightarrow> ('c Quic \<times> WPacket) \<times> QBUFF res" where
  "QuicBuffQueueAndNext e keeps quic pkt_type pkt qb buf_len max_hlen =
     (if QUIC_GT (scast (WPacket_get_space pkt)) max_hlen then ((quic, pkt), Inr qb)
      else case QuicFrameAddQueue quic pkt qb of
        (quic1, Inl err) \<Rightarrow> ((quic1, pkt), Inl err)
      | (quic1, Inr _) \<Rightarrow>
          (case QuicFrameBufferNew e pkt_type buf_len of
             Inl err \<Rightarrow> ((quic1, pkt), Inl (if keeps then Bad_mem else err))
           | Inr (pkt1, qb1) \<Rightarrow> ((quic1, pkt1), Inr qb1)))"

partial_function (option) crypto_split_loop ::
    "env \<Rightarrow> 'c Quic \<Rightarrow> u32 \<Rightarrow> WPacket \<Rightarrow> QBUFF \<Rightarrow> u64 \<Rightarrow> bytes \<Rightarrow> u64 \<Rightarrow> u64 \<Rightarrow> (('c Quic \<times> WPacket) \<times> QBUFF res) option" where
  "crypto_split_loop e quic pkt_type pkt qb buf_len data len offset =
     (if \<not> QUIC_LT offset len then Some ((quic, pkt), Inr qb)
      else case QuicBuffQueueAndNext e False quic pkt_type pkt qb buf_len QUIC_FRAME_CRYPTO_HEADER_MAX_LEN of
        (s1, Inl err) \<Rightarrow> Some (s1, Inl err)
      | (s1, Inr qb1) \<Rightarrow>
          (case QuicFrameCryptoBuild e (snd s1) offset (drop (unat offset) data) (len - offset) of
             (pkt2, Inl err) \<Rightarrow> Some ((fst s1, pkt2), Inl err)
           | (pkt2, Inr wlen) \<Rightarrow>
               if sint wlen \<le> 0 then Some ((fst s1, pkt2), Inl Fail)
               else crypto_split_loop e (fst s1) pkt_type pkt2 qb1 buf_len data len (offset + scast wlen)))"

definition QuicFrameCryptoSplit ::
    "env \<Rightarrow> 'c Quic \<Rightarrow> u32 \<Rightarrow> WPacket \<Rightarrow> QBUFF \<Rightarrow> bytes \<Rightarrow> u64 \<Rightarrow> (('c Quic \<times> WPacket) \<times> QBUFF res) option" where
  "QuicFrameCryptoSplit e quic pkt_type pkt qb data len =
     crypto_split_loop e quic pkt_type pkt qb (QBuffLen qb) data len 0"

definition QuicFrameGetBuffLen :: "'c Quic \<Rightarrow> u32 \<Rightarrow> u64 res" where
  "QuicFrameGetBuffLen quic pkt_type =
     (let mss = ucast (q_mss quic) :: u64 in
      bindR (QBufPktComputeTotalLenByType quic pkt_type mss) (\<lambda>total_len.
      let head_tail_len = total_len - mss; buf_len = mss - head_tail_len in
      bindR (assertR (QUIC_GT buf_len 0)) (\<lambda>_. Inr buf_len)))"

record QuicFrameNode =
  fn_type :: u64
  fn_arg :: "u64 option"
  fn_larg :: u64

fun frame_build :: "env \<Rightarrow> frame_builder \<Rightarrow> 'c Quic \<Rightarrow> WPacket \<Rightarrow> crypto_space \<Rightarrow> QuicFrameNode \<Rightarrow> ('c Quic \<times> WPacket) \<times> unit res" where
  "frame_build e AckBuild quic pkt sp n = QuicFrameAckBuild e quic pkt sp"
| "frame_build e ResetStreamBuild quic pkt sp n = QuicFrameResetStreamBuild e quic pkt (fn_arg n) (fn_larg n)"
| "frame_build e DataBlockedBuild quic pkt sp n = QuicFrameDataBlockedBuild e quic pkt"
| "frame_build e StreamDataBlockedBuild quic pkt sp n = QuicFrameStreamDataBlockedBuild e quic pkt (fn_larg n)"
| "frame_build e NewTokenBuild quic pkt sp n = QuicFrameNewTokenBuild e quic pkt"

text \<open>The loop over the nodes; a type out of range or without a builder and a body is passed over.\<close>

fun build_nodes :: "env \<Rightarrow> 'c Quic \<Rightarrow> WPacket \<Rightarrow> crypto_space \<Rightarrow> QuicFrameNode list \<Rightarrow> ('c Quic \<times> WPacket) \<times> unit res" where
  "build_nodes e quic pkt sp [] = ((quic, pkt), Inr ())"
| "build_nodes e quic pkt sp (n # ns) =
     (if fn_type n \<ge> QUIC_FRAME_TYPE_MAX then build_nodes e quic pkt sp ns
      else
        let p = frame_handler ! unat (fn_type n) in
        if fp_builder p = None \<and> \<not> fp_no_body p then build_nodes e quic pkt sp ns
        else case QuicVariableLengthWrite e pkt (fn_type n) of
          (pkt1, Inl err) \<Rightarrow> ((quic, pkt1), Inl err)
        | (pkt1, Inr _) \<Rightarrow>
            if fp_no_body p then build_nodes e quic pkt1 sp ns
            else case frame_build e (the (fp_builder p)) quic pkt1 sp n of
              ((quic2, pkt2), Inl err) \<Rightarrow> ((quic2, pkt2), Inl err)
            | ((quic2, pkt2), Inr _) \<Rightarrow> build_nodes e quic2 pkt2 sp ns)"

text \<open>The result says whether a buffer was queued; it is the last of the queue then.\<close>

definition QuicFrameBuild :: "env \<Rightarrow> 'c Quic \<Rightarrow> u32 \<Rightarrow> QuicFrameNode list \<Rightarrow> 'c Quic \<times> bool res" where
  "QuicFrameBuild e quic pkt_type nodes =
     (case bindR (QuicFrameGetBuffLen quic pkt_type) (\<lambda>buf_len.
           bindR (QuicFrameBufferNew e pkt_type buf_len) (\<lambda>(pkt, qb).
           bindR (QuicCryptoGet pkt_type) (\<lambda>sp. Inr (pkt, qb, sp)))) of
        Inl err \<Rightarrow> (quic, Inl err)
      | Inr (pkt, qb, sp) \<Rightarrow>
          (case build_nodes e quic pkt sp nodes of
             ((quic1, pkt1), Inl err) \<Rightarrow> (quic1, Inl err)
           | ((quic1, pkt1), Inr _) \<Rightarrow>
               if WPacket_get_written pkt1 = 0 then (quic1, Inr False)
               else case QuicFrameAddQueue quic1 pkt1 qb of
                 (quic2, Inl err) \<Rightarrow> (quic2, Inl err) | (quic2, Inr _) \<Rightarrow> (quic2, Inr True)))"

partial_function (option) stream_write_loop ::
    "env \<Rightarrow> 'c Quic \<Rightarrow> u32 \<Rightarrow> WPacket \<Rightarrow> u64 \<Rightarrow> bytes \<Rightarrow> u64 \<Rightarrow> QBUFF \<Rightarrow> u64 \<Rightarrow> bool \<Rightarrow> bool \<Rightarrow> u64 \<Rightarrow>
     (('c Quic \<times> WPacket) \<times> QBUFF res) option" where
  "stream_write_loop e quic pkt_type pkt i data len qb buf_len fin last_one offset =
     (if \<not> QUIC_LT offset len then Some ((quic, pkt), Inr qb)
      else case QuicBuffQueueAndNext e True quic pkt_type pkt qb buf_len QUIC_FRAME_STREAM_HEADER_MAX_LEN of
        (s1, Inl err) \<Rightarrow> Some (s1, Inl err)
      | (s1, Inr nqb) \<Rightarrow>
          let nqb1 = nqb\<lparr>qb_stream_id := i, qb_flags := (if fin then qb_flags nqb OR QBUFF_FLAGS_STREAM_FIN else qb_flags nqb)\<rparr> in
          case QuicFrameStreamBuild e (fst s1) (snd s1) i (drop (unat offset) data) (len - offset) fin last_one of
            (s2, Inl err) \<Rightarrow> Some (s2, Inl err)
          | (s2, Inr wlen) \<Rightarrow>
              if sint wlen < 0 then Some (s2, Inl Fail)
              else stream_write_loop e (fst s2) pkt_type (snd s2) i data len
                     (nqb1\<lparr>qb_stream_len := qb_stream_len nqb1 + scast wlen\<rparr>) buf_len fin last_one (offset + scast wlen))"

definition QuicFrameStreamWrite ::
    "env \<Rightarrow> 'c Quic \<Rightarrow> u32 \<Rightarrow> WPacket \<Rightarrow> u64 \<Rightarrow> bytes \<Rightarrow> u64 \<Rightarrow> QBUFF \<Rightarrow> u64 \<Rightarrow> bool \<Rightarrow> bool \<Rightarrow>
     (('c Quic \<times> WPacket) \<times> QBUFF res) option" where
  "QuicFrameStreamWrite e quic pkt_type pkt i data len qb buf_len fin last_one =
     stream_write_loop e quic pkt_type pkt i data len qb buf_len fin last_one 0"

record QUIC_STREAM_IOVEC =
  iov_handle :: u64
  iov_flags :: u32
  iov_base :: bytes
  iov_len :: u64
  iov_data_len :: u64

text \<open>The flags are a local variable that is never assigned; every vector but the last is called the last.\<close>

fun stream_iovs ::
    "env \<Rightarrow> 'c Quic \<Rightarrow> u32 \<Rightarrow> WPacket \<Rightarrow> QBUFF \<Rightarrow> u64 \<Rightarrow> u64 \<Rightarrow> QUIC_STREAM_IOVEC list \<Rightarrow> (('c Quic \<times> WPacket) \<times> QBUFF res) option" where
  "stream_iovs e quic pkt_type pkt qb buf_len flags [] = Some ((quic, pkt), Inr qb)"
| "stream_iovs e quic pkt_type pkt qb buf_len flags (v # vs) =
     (case QuicFrameStreamWrite e quic pkt_type pkt (iov_handle v) (iov_base v) (iov_data_len v) qb buf_len
             (flags AND ucast QUIC_STREAM_DATA_FLAGS_FIN \<noteq> 0) (vs \<noteq> []) of
        None \<Rightarrow> None
      | Some (s1, Inl err) \<Rightarrow> Some (s1, Inl err)
      | Some (s1, Inr qb1) \<Rightarrow> stream_iovs e (fst s1) pkt_type (snd s1) qb1 buf_len flags vs)"

definition queue_rest :: "(('c Quic \<times> WPacket) \<times> QBUFF res) option \<Rightarrow> ('c Quic \<times> unit res) option" where
  "queue_rest x = (case x of
     None \<Rightarrow> None
   | Some (s, Inl err) \<Rightarrow> Some (fst s, Inl err)
   | Some (s, Inr qb) \<Rightarrow>
       if WPacket_get_written (snd s) = 0 then Some (fst s, Inr ()) else Some (QuicFrameAddQueue (fst s) (snd s) qb))"

definition QuicStreamFrameBuild :: "env \<Rightarrow> 'c Quic \<Rightarrow> QUIC_STREAM_IOVEC list \<Rightarrow> ('c Quic \<times> unit res) option" where
  "QuicStreamFrameBuild e quic iov =
     (case bindR (QuicFrameGetBuffLen quic QUIC_PKT_TYPE_1RTT) (\<lambda>buf_len.
           bindR (QuicFrameBufferNew e QUIC_PKT_TYPE_1RTT buf_len) (\<lambda>(pkt, qb).
           bindR (QuicCryptoGet QUIC_PKT_TYPE_1RTT) (\<lambda>sp.
           bindR (crypto_at quic sp) (\<lambda>c. Inr (buf_len, pkt, qb, sp, c))))) of
        Inl err \<Rightarrow> Some (quic, Inl err)
      | Inr (buf_len, pkt, qb, sp, c) \<Rightarrow>
          (case (case QuicFrameAckSendCheck c of
                   Inl _ \<Rightarrow> ((quic, pkt), Inr ())
                 | Inr _ \<Rightarrow>
                     (case QuicVariableLengthWrite e pkt QUIC_FRAME_TYPE_ACK of
                        (pkt1, Inl err) \<Rightarrow> ((quic, pkt1), Inl err)
                      | (pkt1, Inr _) \<Rightarrow> QuicFrameAckBuild e quic pkt1 sp)) of
             (s1, Inl err) \<Rightarrow> Some (fst s1, Inl err)
           | (s1, Inr _) \<Rightarrow> queue_rest (stream_iovs e (fst s1) QUIC_PKT_TYPE_1RTT (snd s1) qb buf_len 0 iov)))"

text \<open>The data is that of the TLS buffer.\<close>

definition QuicCryptoFrameBuild :: "env \<Rightarrow> 'c Quic \<Rightarrow> u32 \<Rightarrow> ('c Quic \<times> unit res) option" where
  "QuicCryptoFrameBuild e quic pkt_type =
     (let buf = q_tls_buffer quic; len = QuicBufGetDataLength buf in
      case bindR (case qbf_buf buf of None \<Rightarrow> Inl Null_ptr | Some m \<Rightarrow> mem_slice m 0 (unat len)) (\<lambda>data.
           bindR (QuicFrameGetBuffLen quic pkt_type) (\<lambda>buf_len.
           bindR (QuicFrameBufferNew e pkt_type buf_len) (\<lambda>(pkt, qb). Inr (data, pkt, qb)))) of
        Inl err \<Rightarrow> Some (quic, Inl err)
      | Inr (data, pkt, qb) \<Rightarrow> queue_rest (QuicFrameCryptoSplit e quic pkt_type pkt qb data len))"

definition QuicAckFrameBuild :: "env \<Rightarrow> 'c Quic \<Rightarrow> u32 \<Rightarrow> 'c Quic \<times> unit res" where
  "QuicAckFrameBuild e quic pkt_type =
     (case bindR (QuicCryptoGet pkt_type) (\<lambda>sp. bindR (crypto_at quic sp) QuicFrameAckSendCheck) of
        Inl err \<Rightarrow> (quic, Inl err)
      | Inr _ \<Rightarrow>
          bindS (QuicFrameBuild e quic pkt_type [\<lparr>fn_type = QUIC_FRAME_TYPE_ACK, fn_arg = None, fn_larg = 0\<rparr>])
            (\<lambda>quic1 _. (quic1, Inr ())))"

definition QuicDataBlockedFrameBuild :: "env \<Rightarrow> 'c Quic \<Rightarrow> u64 \<Rightarrow> u32 \<Rightarrow> 'c Quic \<times> unit res" where
  "QuicDataBlockedFrameBuild e quic i pkt_type =
     bindS (QuicFrameBuild e quic pkt_type [\<lparr>fn_type = QUIC_FRAME_TYPE_DATA_BLOCKED, fn_arg = None, fn_larg = 0\<rparr>])
       (\<lambda>quic1 _. (quic1, Inr ()))"

definition QuicStreamDataBlockedFrameBuild :: "env \<Rightarrow> 'c Quic \<Rightarrow> u64 \<Rightarrow> u32 \<Rightarrow> 'c Quic \<times> unit res" where
  "QuicStreamDataBlockedFrameBuild e quic i pkt_type =
     bindS (QuicStreamGetInstance quic i) (\<lambda>quic1 _.
     bindS (QuicFrameBuild e quic1 pkt_type [\<lparr>fn_type = QUIC_FRAME_TYPE_STREAM_DATA_BLOCKED, fn_arg = None, fn_larg = i\<rparr>])
       (\<lambda>quic2 _. (quic2, Inr ())))"

text \<open>The buffer that was queued is marked afterwards.\<close>

definition QuicResetStreamFrameBuild :: "env \<Rightarrow> 'c Quic \<Rightarrow> u64 \<Rightarrow> u32 \<Rightarrow> u64 \<Rightarrow> 'c Quic \<times> unit res" where
  "QuicResetStreamFrameBuild e quic i pkt_type err_code =
     bindS (QuicStreamGetInstance quic i) (\<lambda>quic1 _.
     bindS (QuicFrameBuild e quic1 pkt_type [\<lparr>fn_type = QUIC_FRAME_TYPE_RESET_STREAM, fn_arg = Some err_code, fn_larg = i\<rparr>])
       (\<lambda>quic2 queued.
          if queued then
            let q = q_tx_queue quic2; qb = last q in
            (quic2\<lparr>q_tx_queue := butlast q @ [qb\<lparr>qb_stream_id := i, qb_flags := qb_flags qb OR QBUFF_FLAGS_STREAM_RESET\<rparr>]\<rparr>, Inr ())
          else (quic2, Inr ())))"

definition QuicDataHandshakeDoneFrameBuild :: "env \<Rightarrow> 'c Quic \<Rightarrow> u64 \<Rightarrow> u32 \<Rightarrow> 'c Quic \<times> unit res" where
  "QuicDataHandshakeDoneFrameBuild e quic i pkt_type =
     bindS (QuicFrameBuild e quic pkt_type
         [\<lparr>fn_type = QUIC_FRAME_TYPE_HANDSHAKE_DONE, fn_arg = None, fn_larg = 0\<rparr>,
          \<lparr>fn_type = QUIC_FRAME_TYPE_NEW_TOKEN, fn_arg = None, fn_larg = 0\<rparr>])
       (\<lambda>quic1 _. (quic1, Inr ()))"

end
