(* ===== verification/State_Rules.thy ===== *)
theory State_Rules
  imports Prelude
begin

text \<open>
  Postconditions of operations that pass a state on with their result, in the style of a weakest
  precondition: \<open>post P E r\<close> says that a result satisfies \<open>P\<close> with its state and an error leaves a state
  that satisfies \<open>E\<close>. Through \<open>bindS\<close> the postcondition is an equation, so the simplifier computes it, and
  the operations that stand as they are use their own rules from \<open>post_intros\<close>.
\<close>

named_theorems post_intros \<open>rules for the postcondition of an operation\<close>

definition post :: "('s \<Rightarrow> 'a \<Rightarrow> bool) \<Rightarrow> ('s \<Rightarrow> bool) \<Rightarrow> 's \<times> 'a res \<Rightarrow> bool" where
  "post P E r = (case r of (s, Inl _) \<Rightarrow> E s | (s, Inr x) \<Rightarrow> P s x)"

lemma post_simps [simp]:
  "post P E (s, Inr x) = P s x" "post P E (s, Inl err) = E s"
  "post P E (bindS r f) = post (\<lambda>s x. post P E (f s x)) E r"
  by (auto simp: post_def bindS_def split: prod.splits sum.splits)

lemma post_pair: "post P E (s, r) \<longleftrightarrow> (\<forall>err. r = Inl err \<longrightarrow> E s) \<and> (\<forall>x. r = Inr x \<longrightarrow> P s x)"
  by (auto simp: post_def split: sum.splits)

lemma post_if [post_intros]:
  "(b \<Longrightarrow> post P E r) \<Longrightarrow> (\<not> b \<Longrightarrow> post P E r') \<Longrightarrow> post P E (if b then r else r')"
  by simp

lemma post_let [post_intros]: "(\<And>x. x = a \<Longrightarrow> post P E (f x)) \<Longrightarrow> post P E (let x = a in f x)"
  by simp

lemma post_split [post_intros]: "post P E (f a b) \<Longrightarrow> post P E (case (a, b) of (x, y) \<Rightarrow> f x y)"
  by simp

lemma post_mono:
  assumes "post P' E' r" and "\<And>s x. P' s x \<Longrightarrow> P s x" and "\<And>s. E' s \<Longrightarrow> E s"
  shows "post P E r"
  using assms by (auto simp: post_def split: prod.splits sum.splits)

lemma post_iff: "post P E r \<longleftrightarrow> (\<forall>s x. r = (s, Inr x) \<longrightarrow> P s x) \<and> (\<forall>s err. r = (s, Inl err) \<longrightarrow> E s)"
  by (auto simp: post_def split: prod.splits sum.splits)

text \<open>The same sequencing for operations that may not return, \<open>None\<close>.\<close>

definition bindSO :: "('s \<times> 'a res) option \<Rightarrow> ('s \<Rightarrow> 'a \<Rightarrow> ('s \<times> 'b res) option) \<Rightarrow> ('s \<times> 'b res) option" where
  "bindSO r f = (case r of None \<Rightarrow> None | Some (s, Inl err) \<Rightarrow> Some (s, Inl err) | Some (s, Inr x) \<Rightarrow> f s x)"

lemma bindSO_simps [simp]:
  "bindSO None f = None" "bindSO (Some (s, Inl err)) f = Some (s, Inl err)" "bindSO (Some (s, Inr x)) f = f s x"
  by (simp_all add: bindSO_def)

end
