(* ===== verification/Frame_Parse.thy ===== *)
theory Frame_Parse
  imports Frame_Build State_Rules Pkt_Protect
begin

text \<open>
  Parsing frames (\<^verbatim>\<open>quic/frame.c\<close>): the parser of each frame type and the loop over the frames of a
  packet. A parser gets the packet number space by its place in the connection, and the packet buffer the
  data of a stream frame points into by its identity in the store, \<open>None\<close> for \<^verbatim>\<open>NULL\<close>. What a parser has
  changed before it fails stays changed. The TLS engine, which runs when a packet had a CRYPTO frame, is
  the argument \<open>tls\<close>: it takes the connection and tells whether it reports an error.
\<close>

section \<open>Parsers\<close>

definition decode :: "'q \<Rightarrow> RPacket \<Rightarrow> 'q \<times> (u64 \<times> RPacket) res" where
  "decode quic pkt = (quic, QuicVariableLengthDecode pkt)"

text \<open>Making room for \<open>total_len\<close> bytes in the TLS buffer, and the copy out of the packet, whose destination is the
  buffer's data at the offset of the frame.\<close>

definition crypto_room :: "env \<Rightarrow> QUIC_BUFFER \<Rightarrow> u64 \<Rightarrow> QUIC_BUFFER \<times> unit res" where
  "crypto_room e buf total_len =
     (case QuicBufLength buf of
        Inl err \<Rightarrow> (buf, Inl err)
      | Inr l \<Rightarrow>
          if QUIC_GT total_len l
          then (case QuicBufMemGrow e buf total_len of
                  Inl err \<Rightarrow> (buf, Inl err)
                | Inr (buf1, n) \<Rightarrow> (buf1, if n = 0 then Inl Fail else Inr ()))
          else (buf, Inr ()))"

definition crypto_copy :: "QUIC_BUFFER \<Rightarrow> RPacket \<Rightarrow> u64 \<Rightarrow> u64 \<Rightarrow> (QUIC_BUFFER \<times> RPacket) res" where
  "crypto_copy buf pkt offset len =
     bindR (QuicBufData buf) (\<lambda>data.
     bindR (RPacketCopyBytes pkt len) (\<lambda>(bs, pkt1).
     bindR (case qbf_buf buf of None \<Rightarrow> Inl Null_ptr | Some m \<Rightarrow> mem_copy m (data + uint offset) bs) (\<lambda>m.
       Inr (buf\<lparr>qbf_buf := Some m\<rparr>, pkt1))))"

definition QuicFrameCryptoParser :: "env \<Rightarrow> 'c Quic \<Rightarrow> RPacket \<Rightarrow> 'c Quic \<times> RPacket res" where
  "QuicFrameCryptoParser e quic pkt =
     bindS (decode quic pkt) (\<lambda>_ (offset, pkt1).
     bindS (decode quic pkt1) (\<lambda>_ (length, pkt2).
       let total_len = offset + length; (buf, r) = crypto_room e (q_tls_buffer quic) total_len in
       bindS (quic\<lparr>q_tls_buffer := buf\<rparr>, r) (\<lambda>quic1 _.
       bindS (quic1, crypto_copy buf pkt2 offset length) (\<lambda>_ (buf1, pkt3).
         (quic1\<lparr>q_tls_buffer := if QUIC_GT total_len (QuicBufGetDataLength buf1)
                                 then QuicBufSetDataLength buf1 total_len else buf1\<rparr>, Inr pkt3)))))"

definition QuicFrameNewTokenParser :: "env \<Rightarrow> 'c Quic \<Rightarrow> RPacket \<Rightarrow> 'c Quic \<times> RPacket res" where
  "QuicFrameNewTokenParser e quic pkt =
     (if q_server quic then (quic, Inl Fail)
      else bindS (decode quic pkt) (\<lambda>_ (length, pkt1).
        case QuicDataParse e (q_token quic) pkt1 length of (d, r) \<Rightarrow> (quic\<lparr>q_token := d\<rparr>, r)))"

definition QuicFramePingParser :: "'c Quic \<Rightarrow> RPacket \<Rightarrow> 'c Quic \<times> RPacket res" where
  "QuicFramePingParser quic pkt = (quic, Inr pkt)"

definition QuicFrameResetStreamParser :: "'c Quic \<Rightarrow> RPacket \<Rightarrow> 'c Quic \<times> RPacket res" where
  "QuicFrameResetStreamParser quic pkt =
     bindS (decode quic pkt) (\<lambda>_ (stream_id, pkt1).
     bindS (decode quic pkt1) (\<lambda>_ (error_code, pkt2).
     bindS (decode quic pkt2) (\<lambda>_ (final_size, pkt3).
     bindS (QuicStreamGetInstance quic stream_id) (\<lambda>quic1 si.
       (if si_recv_state si \<in> {QUIC_STREAM_STATE_RECV, QUIC_STREAM_STATE_SIZE_KNOWN, QUIC_STREAM_STATE_DATA_RECVD}
        then q_stream_upd quic1 stream_id (si\<lparr>si_recv_state := QUIC_STREAM_STATE_RESET_RECVD\<rparr>)
        else quic1, Inr pkt3)))))"

definition QuicFrameStopSendingParser :: "'c Quic \<Rightarrow> RPacket \<Rightarrow> 'c Quic \<times> RPacket res" where
  "QuicFrameStopSendingParser quic pkt =
     bindS (decode quic pkt) (\<lambda>_ (i, pkt1).
     bindS (QuicStreamGetInstance quic i) (\<lambda>quic1 si.
       if si_send_state si \<in> {QUIC_STREAM_STATE_START, QUIC_STREAM_STATE_DISABLE} then (quic1, Inl Fail)
       else
         let si1 = si\<lparr>si_send_state := QUIC_STREAM_STATE_DISABLE\<rparr>; quic2 = q_stream_upd quic1 i si1 in
         bindS (decode quic2 pkt1) (\<lambda>_ (err_code, pkt2).
           (if si_recv_state si1 = QUIC_STREAM_STATE_START
            then q_stream_upd quic2 i (si1\<lparr>si_recv_state := QUIC_STREAM_STATE_RECV\<rparr>) else quic2, Inr pkt2))))"

text \<open>\<^verbatim>\<open>QBufAckSentPkt\<close> on the sent queue of the space, which it and the streams are updated in.\<close>

definition ack_sent ::
    "'c Quic \<Rightarrow> crypto_space \<Rightarrow> u64 \<Rightarrow> u64 \<Rightarrow> QBUFF option \<Rightarrow> 'c Quic \<times> QBUFF option res" where
  "ack_sent quic sp smallest largest start =
     (case bindR (crypto_at quic sp) (\<lambda>c. QBufAckSentPkt quic (qy_sent_queue c) smallest largest start) of
        Inl err \<Rightarrow> (quic, Inl err)
      | Inr (quic1, queue, qb) \<Rightarrow>
          (case crypto_at quic1 sp of
             Inl err \<Rightarrow> (quic1, Inl err)
           | Inr c1 \<Rightarrow> (crypto_upd quic1 sp (c1\<lparr>qy_sent_queue := queue\<rparr>), Inr qb)))"

text \<open>The loop over the further ranges: \<open>n\<close> of them are left. Its number comes from the frame, and each turn
  reads at least two bytes, so the recursion is on the number.\<close>

fun ack_ranges ::
    "'c Quic \<Rightarrow> crypto_space \<Rightarrow> nat \<Rightarrow> RPacket \<Rightarrow> u64 \<Rightarrow> QBUFF option \<Rightarrow> 'c Quic \<times> RPacket res" where
  "ack_ranges quic sp 0 pkt smallest_acked qb = (quic, Inr pkt)"
| "ack_ranges quic sp (Suc n) pkt smallest_acked qb =
     bindS (decode quic pkt) (\<lambda>_ (gap, pkt1).
     bindS (decode quic pkt1) (\<lambda>_ (ack_range_len, pkt2).
       let largest_acked = smallest_acked - gap - 2; smallest_acked' = largest_acked - ack_range_len in
       if QUIC_LT largest_acked 0 \<or> QUIC_LT smallest_acked' 0 then (quic, Inl Fail)
       else bindS (ack_sent quic sp smallest_acked' largest_acked qb) (\<lambda>quic1 qb1.
              ack_ranges quic1 sp n pkt2 smallest_acked' qb1)))"

definition QuicFrameAckParser :: "'c Quic \<Rightarrow> RPacket \<Rightarrow> crypto_space \<Rightarrow> 'c Quic \<times> RPacket res" where
  "QuicFrameAckParser quic pkt sp =
     bindS (decode quic pkt) (\<lambda>_ (largest_acked, pkt1).
     bindS (quic, crypto_at quic sp) (\<lambda>_ c.
       let quic1 = (if QUIC_GE largest_acked (qy_largest_acked c)
                    then crypto_upd quic sp (c\<lparr>qy_largest_acked := largest_acked\<rparr>) else quic) in
       bindS (decode quic1 pkt1) (\<lambda>_ (ack_delay, pkt2).
       bindS (decode quic1 pkt2) (\<lambda>_ (range_count, pkt3).
       bindS (decode quic1 pkt3) (\<lambda>_ (first_ack_range, pkt4).
         let smallest_acked = largest_acked - first_ack_range in
         if QUIC_LT smallest_acked 0 then (quic1, Inl Fail)
         else bindS (ack_sent quic1 sp smallest_acked largest_acked None) (\<lambda>quic2 qb.
                ack_ranges quic2 sp (unat range_count) pkt4 smallest_acked qb))))))"

text \<open>The length of a frame without one is what remains of the packet. The type says whether offset and
  length are there and whether the stream ends.\<close>

definition QuicFrameStreamParser ::
    "env \<Rightarrow> 'c Quic \<Rightarrow> RPacket \<Rightarrow> u64 \<Rightarrow> nat option \<Rightarrow> 'c Quic \<times> RPacket res" where
  "QuicFrameStreamParser e quic pkt type buf =
     bindS (decode quic pkt) (\<lambda>_ (i, pkt1).
     bindS (if type AND QUIC_FRAME_STREAM_BIT_OFF \<noteq> 0 then decode quic pkt1 else (quic, Inr (0, pkt1))) (\<lambda>_ (offset, pkt2).
     bindS (if type AND QUIC_FRAME_STREAM_BIT_LEN \<noteq> 0 then decode quic pkt2
            else (quic, Inr (RPacketRemaining pkt2, pkt2))) (\<lambda>_ (len, pkt3).
     bindS (QuicStreamGetInstance quic i) (\<lambda>quic1 si.
       if si_recv_state si = QUIC_STREAM_STATE_DISABLE then (quic1, Inl Fail)
       else
         let si1 = (if si_send_state si = QUIC_STREAM_STATE_START then si\<lparr>si_send_state := QUIC_STREAM_STATE_READY\<rparr> else si);
             si2 = (if type AND QUIC_FRAME_STREAM_BIT_FIN \<noteq> 0 \<and> si_recv_state si1 = QUIC_STREAM_STATE_RECV
                    then si1\<lparr>si_recv_state := QUIC_STREAM_STATE_SIZE_KNOWN\<rparr> else si1)
         in bindS (q_stream_upd quic1 i si2, RPacketGetBytes pkt3 len) (\<lambda>quic2 (data, pkt4).
           let si3 = (if si_recv_state si2 = QUIC_STREAM_STATE_START
                      then si2\<lparr>si_recv_state := QUIC_STREAM_STATE_RECV\<rparr> else si2);
               quic3 = q_stream_upd quic2 i si3
           in if si_recv_state si3 \<notin> {QUIC_STREAM_STATE_RECV, QUIC_STREAM_STATE_SIZE_KNOWN} then (quic3, Inr pkt4)
              else bindS (quic3, QuicStreamDataCreate e (q_bufs quic3) buf offset data len) (\<lambda>_ (sd, st).
                   bindS (quic3, QuicStreamDataAdd (quic3\<lparr>q_bufs := st\<rparr>) sd si3) (\<lambda>_ (quic4, si4).
                     let quic5 = q_stream_upd quic4 i si4 in
                     if si_notified si4 then (quic5, Inr pkt4)
                     else case QuicStreamMsgCreate e i QUIC_STREAM_MSG_TYPE_DATA_RECVED of
                       Inl _ \<Rightarrow> (quic5, Inr pkt4)
                     | Inr msg \<Rightarrow>
                         let quic6 = quic5\<lparr>q_stream := QuicStreamMsgAdd (q_stream quic5) msg\<rparr>
                         in (q_stream_upd quic6 i (si4\<lparr>si_notified := True\<rparr>), Inr pkt4))))))))"

definition QuicFrameDataBlockedParser :: "'c Quic \<Rightarrow> RPacket \<Rightarrow> 'c Quic \<times> RPacket res" where
  "QuicFrameDataBlockedParser quic pkt = bindS (decode quic pkt) (\<lambda>_ (max_data, pkt1). (quic, Inr pkt1))"

definition QuicFrameStreamDataBlockedParser :: "'c Quic \<Rightarrow> RPacket \<Rightarrow> 'c Quic \<times> RPacket res" where
  "QuicFrameStreamDataBlockedParser quic pkt =
     bindS (decode quic pkt) (\<lambda>_ (i, pkt1).
     bindS (QuicStreamGetInstance quic i) (\<lambda>quic1 si.
       if si_recv_state si = QUIC_STREAM_STATE_DISABLE then (quic1, Inl Fail)
       else bindS (decode quic1 pkt1) (\<lambda>_ (max_stream_data, pkt2).
         (if si_recv_state si = QUIC_STREAM_STATE_START
          then q_stream_upd quic1 i (si\<lparr>si_recv_state := QUIC_STREAM_STATE_RECV\<rparr>) else quic1, Inr pkt2))))"

definition QUIC_TRANS_PARAM_INITIAL_MAX_DATA :: u64 where "QUIC_TRANS_PARAM_INITIAL_MAX_DATA = 0x04"
definition QUIC_TRANS_PARAM_INITIAL_MAX_STREAMS_BIDI :: u64 where "QUIC_TRANS_PARAM_INITIAL_MAX_STREAMS_BIDI = 0x08"
definition QUIC_TRANS_PARAM_INITIAL_MAX_STREAMS_UNI :: u64 where "QUIC_TRANS_PARAM_INITIAL_MAX_STREAMS_UNI = 0x09"
definition QUIC_TRANS_PARAM_ACTIVE_CONNECTION_ID_LIMIT :: u64 where "QUIC_TRANS_PARAM_ACTIVE_CONNECTION_ID_LIMIT = 0x0E"

definition QuicFrameStreamParamUpdate ::
    "QuicTransParams \<Rightarrow> RPacket \<Rightarrow> u64 \<Rightarrow> (QuicTransParams \<times> RPacket) res" where
  "QuicFrameStreamParamUpdate param pkt type =
     bindR (QuicVariableLengthDecode pkt) (\<lambda>(max_streams, pkt1).
     bindR (QuicTransParamGet param type) (\<lambda>v.
       if QUIC_GT max_streams v then bindR (QuicTransParamSet param type max_streams) (\<lambda>param1. Inr (param1, pkt1))
       else Inr (param, pkt1)))"

definition param_frame :: "'c Quic \<Rightarrow> RPacket \<Rightarrow> u64 \<Rightarrow> 'c Quic \<times> RPacket res" where
  "param_frame quic pkt type =
     (case QuicFrameStreamParamUpdate (q_peer_param quic) pkt type of
        Inl err \<Rightarrow> (quic, Inl err)
      | Inr (param, pkt1) \<Rightarrow> (quic\<lparr>q_peer_param := param\<rparr>, Inr pkt1))"

definition QuicFrameMaxDataParser :: "'c Quic \<Rightarrow> RPacket \<Rightarrow> 'c Quic \<times> RPacket res" where
  "QuicFrameMaxDataParser quic pkt = param_frame quic pkt QUIC_TRANS_PARAM_INITIAL_MAX_DATA"

definition QuicFrameMaxStreamDataParser :: "'c Quic \<Rightarrow> RPacket \<Rightarrow> 'c Quic \<times> RPacket res" where
  "QuicFrameMaxStreamDataParser quic pkt =
     bindS (decode quic pkt) (\<lambda>_ (i, pkt1).
     bindS (QuicStreamGetInstance quic i) (\<lambda>quic1 si.
       if si_recv_state si \<in> {QUIC_STREAM_STATE_DISABLE, QUIC_STREAM_STATE_START} then (quic1, Inl Fail)
       else bindS (decode quic1 pkt1) (\<lambda>_ (max_stream_data, pkt2).
         (if QUIC_LT (si_max_stream_data si) max_stream_data
          then q_stream_upd quic1 i (si\<lparr>si_max_stream_data := max_stream_data\<rparr>) else quic1, Inr pkt2))))"

definition QuicFrameMaxStreamsBidiParser :: "'c Quic \<Rightarrow> RPacket \<Rightarrow> 'c Quic \<times> RPacket res" where
  "QuicFrameMaxStreamsBidiParser quic pkt = param_frame quic pkt QUIC_TRANS_PARAM_INITIAL_MAX_STREAMS_BIDI"

definition QuicFrameMaxStreamsUniParser :: "'c Quic \<Rightarrow> RPacket \<Rightarrow> 'c Quic \<times> RPacket res" where
  "QuicFrameMaxStreamsUniParser quic pkt = param_frame quic pkt QUIC_TRANS_PARAM_INITIAL_MAX_STREAMS_UNI"

text \<open>The new identifier; the identifiers before \<open>retire_prior_to\<close> are gone before any check that can fail.\<close>

definition new_cid :: "env \<Rightarrow> u64 \<Rightarrow> RPacket \<Rightarrow> u64 \<Rightarrow> (QuicCid \<times> RPacket) res" where
  "new_cid e seq pkt len =
     bindR (QuicCidAlloc e seq) (\<lambda>cid.
       let d = QuicDataParse e (cid_id cid) pkt len in
       bindR (snd d) (\<lambda>pkt1.
       bindR (RPacketCopyBytes pkt1 (of_nat QUIC_STATELESS_RESET_TOKEN_LEN)) (\<lambda>(token, pkt2).
         Inr (cid\<lparr>cid_id := fst d, cid_token := token\<rparr>, pkt2))))"

definition QuicFrameNewConnIdParser :: "env \<Rightarrow> 'c Quic \<Rightarrow> RPacket \<Rightarrow> 'c Quic \<times> RPacket res" where
  "QuicFrameNewConnIdParser e quic pkt =
     bindS (decode quic pkt) (\<lambda>_ (seq, pkt1).
     bindS (decode quic pkt1) (\<lambda>_ (retire_prior_to, pkt2).
     bindS (decode quic pkt2) (\<lambda>_ (len, pkt3).
       if qd_len (q_dcid quic) = 0 then (quic, Inl Fail)
       else
         let p = QuicCidRetirePriorTo (conn_dcid (q_conn quic)) retire_prior_to;
             quic1 = quic\<lparr>q_conn := (q_conn quic)\<lparr>conn_dcid := p\<rparr>\<rparr> in
         bindS (quic1, QuicTransParamGet (q_local_param quic1) QUIC_TRANS_PARAM_ACTIVE_CONNECTION_ID_LIMIT)
           (\<lambda>_ active_conn_limit.
         bindS (quic1, QuicActiveCidLimitCheck p active_conn_limit) (\<lambda>_ _.
         bindS (quic1, new_cid e seq pkt3 len) (\<lambda>_ (cid, pkt4).
           (quic1\<lparr>q_conn := (q_conn quic1)\<lparr>conn_dcid := QuicCidAdd p cid\<rparr>\<rparr>, Inr pkt4)))))))"

definition QuicFrameRetireConnIdParser :: "'c Quic \<Rightarrow> RPacket \<Rightarrow> 'c Quic \<times> RPacket res" where
  "QuicFrameRetireConnIdParser quic pkt =
     bindS (decode quic pkt) (\<lambda>_ (seq, pkt1).
       case QuicCidRetire (conn_dcid (q_conn quic)) seq of
         Inl err \<Rightarrow> if err = Fail then (quic, Inr pkt1) else (quic, Inl err)
       | Inr p \<Rightarrow> (quic\<lparr>q_conn := (q_conn quic)\<lparr>conn_dcid := p\<rparr>\<rparr>, Inr pkt1))"

definition QuicFrameConnCloseParser :: "'c Quic \<Rightarrow> RPacket \<Rightarrow> u64 \<Rightarrow> 'c Quic \<times> RPacket res" where
  "QuicFrameConnCloseParser quic pkt type =
     bindS (decode quic pkt) (\<lambda>_ (err_code, pkt1).
     bindS (if type = QUIC_FRAME_TYPE_CONNECTION_CLOSE then decode quic pkt1 else (quic, Inr (0, pkt1))) (\<lambda>_ (frame_type, pkt2).
     bindS (decode quic pkt2) (\<lambda>_ (reason_phrase_len, pkt3).
     bindS (quic, RPacketGetBytes pkt3 reason_phrase_len) (\<lambda>_ (reason_phrase, pkt4).
       (quic\<lparr>q_state := QUIC_STATEM_DRAINING\<rparr>, Inr pkt4)))))"

definition QuicFrameHandshakeDoneParser :: "'c Quic \<Rightarrow> RPacket \<Rightarrow> 'c Quic \<times> RPacket res" where
  "QuicFrameHandshakeDoneParser quic pkt =
     (if q_server quic then (quic, Inr pkt)
      else (quic\<lparr>q_state := QUIC_STATEM_HANDSHAKE_DONE, q_handshake := QuicCryptoFree (q_handshake quic)\<rparr>, Inr pkt))"

section \<open>The loop over the frames\<close>

fun frame_parse ::
    "env \<Rightarrow> frame_parser \<Rightarrow> 'c Quic \<Rightarrow> RPacket \<Rightarrow> u64 \<Rightarrow> crypto_space \<Rightarrow> nat option \<Rightarrow> 'c Quic \<times> RPacket res" where
  "frame_parse e PingParser quic pkt type sp buf = QuicFramePingParser quic pkt"
| "frame_parse e AckParser quic pkt type sp buf = QuicFrameAckParser quic pkt sp"
| "frame_parse e ResetStreamParser quic pkt type sp buf = QuicFrameResetStreamParser quic pkt"
| "frame_parse e StopSendingParser quic pkt type sp buf = QuicFrameStopSendingParser quic pkt"
| "frame_parse e CryptoParser quic pkt type sp buf = QuicFrameCryptoParser e quic pkt"
| "frame_parse e NewTokenParser quic pkt type sp buf = QuicFrameNewTokenParser e quic pkt"
| "frame_parse e StreamParser quic pkt type sp buf = QuicFrameStreamParser e quic pkt type buf"
| "frame_parse e MaxDataParser quic pkt type sp buf = QuicFrameMaxDataParser quic pkt"
| "frame_parse e MaxStreamDataParser quic pkt type sp buf = QuicFrameMaxStreamDataParser quic pkt"
| "frame_parse e MaxStreamsBidiParser quic pkt type sp buf = QuicFrameMaxStreamsBidiParser quic pkt"
| "frame_parse e MaxStreamsUniParser quic pkt type sp buf = QuicFrameMaxStreamsUniParser quic pkt"
| "frame_parse e DataBlockedParser quic pkt type sp buf = QuicFrameDataBlockedParser quic pkt"
| "frame_parse e StreamDataBlockedParser quic pkt type sp buf = QuicFrameStreamDataBlockedParser quic pkt"
| "frame_parse e NewConnIdParser quic pkt type sp buf = QuicFrameNewConnIdParser e quic pkt"
| "frame_parse e RetireConnIdParser quic pkt type sp buf = QuicFrameRetireConnIdParser quic pkt"
| "frame_parse e ConnCloseParser quic pkt type sp buf = QuicFrameConnCloseParser quic pkt type"
| "frame_parse e HandshakeDoneParser quic pkt type sp buf = QuicFrameHandshakeDoneParser quic pkt"

text \<open>Every parser moves forward in the same buffer, so the loop ends.\<close>

abbreviation moves :: "RPacket \<Rightarrow> 'q \<times> RPacket res \<Rightarrow> bool" where
  "moves p \<equiv> post (\<lambda>_ p'. rp_adv p p') (\<lambda>_. True)"

lemma decode_post [post_intros]:
  assumes "\<And>v p'. rp_adv p p' \<Longrightarrow> P quic (v, p')" and "E quic"
  shows "post P E (decode quic p)"
  using assms QuicVariableLengthDecode_adv[of p] by (auto simp: decode_def post_pair)

lemma moves_trans: "moves q r \<Longrightarrow> rp_adv p q \<Longrightarrow> moves p r"
  by (erule post_mono) (auto intro: rp_adv_trans)

named_theorems moves_intros \<open>rules for the position after an operation\<close>

lemmas [moves_intros] = post_if post_let post_split

lemma moves_base [moves_intros]: "moves p (s, Inr p)" "moves p (s, Inl err)"
  by simp_all

lemma decode_moves [moves_intros]:
  "(\<And>v q. moves q (f quic (v, q))) \<Longrightarrow> moves p (bindS (decode quic p) f)"
  by (simp only: post_simps) (rule decode_post, erule moves_trans[rotated], blast, simp)

lemma read_moves:
  assumes "\<And>v q. r = Inr (v, q) \<Longrightarrow> rp_adv p q" and "\<And>v q. moves q (f s (v, q))"
  shows "moves p (bindS (s, r) f)"
  by (auto simp: post_pair intro: moves_trans[OF assms(2) assms(1)])

lemma get_moves [moves_intros]:
  "(\<And>v q. moves q (f s (v, q))) \<Longrightarrow> moves p (bindS (s, RPacketGetBytes p n) f)"
  by (rule read_moves) (rule read_adv)

text \<open>Operations that do not read the packet.\<close>

lemma bind_moves: "(\<And>s x. moves p (f s x)) \<Longrightarrow> moves p (bindS r f)"
  by (simp only: post_simps) (simp add: post_iff)

lemmas state_moves [moves_intros] =
  bind_moves[where r = "QuicStreamGetInstance quic i" for quic i]
  bind_moves[where r = "ack_sent quic sp s l b" for quic sp s l b]
  bind_moves[where r = "(quic, crypto_at quic sp)" for quic sp]
  bind_moves[where r = "(quic, r :: u64 res)" for quic r]
  bind_moves[where r = "(quic, r :: unit res)" for quic r]

lemma bind_moves2: "(\<And>s x y. moves p (f s (x, y))) \<Longrightarrow> moves p (bindS r f)"
  by (rule bind_moves) auto

lemmas state_moves2 [moves_intros] =
  bind_moves2[where r = "(quic, QuicStreamDataCreate e st b off d n)" for quic e st b off d n]
  bind_moves2[where r = "(quic, QuicStreamDataAdd quic' sd si)" for quic quic' sd si]

lemma if_decode_moves [moves_intros]:
  "(\<And>v q. moves q (f quic (v, q))) \<Longrightarrow>
   moves p (bindS (if b then decode quic p else (quic, Inr (x, p))) f)"
  using decode_moves[of f quic p] by (cases b) simp_all

lemma QuicDataParse_adv: "QuicDataParse e d p n = (d', Inr p') \<Longrightarrow> rp_adv p p'"
  by (auto simp: QuicDataParse_def Let_def intro: read_adv split: if_splits sum.splits c_err.splits)

lemma crypto_copy_adv: "crypto_copy buf p off n = Inr (buf', p') \<Longrightarrow> rp_adv p p'"
  by (auto simp: crypto_copy_def bindR_eq_Inr dest: read_adv(3))

lemma crypto_copy_moves [moves_intros]:
  "(\<And>v q. moves q (f s (v, q))) \<Longrightarrow> moves p (bindS (s, crypto_copy buf p off n) f)"
  by (rule read_moves) (rule crypto_copy_adv)

lemma new_cid_adv:
  assumes "new_cid e seq p len = Inr (cid, p')"
  shows "rp_adv p p'"
proof -
  from assms obtain c :: QuicCid and q token where q: "snd (QuicDataParse e (cid_id c) p len) = Inr q"
    and "RPacketCopyBytes q (of_nat QUIC_STATELESS_RESET_TOKEN_LEN) = Inr (token, p')"
    unfolding new_cid_def Let_def bindR_eq_Inr by auto
  then have "rp_adv q p'" by (auto dest: read_adv(3))
  then show ?thesis using QuicDataParse_adv[of e "cid_id c" p len _ q] q by (metis prod.collapse rp_adv_trans)
qed

lemma new_cid_moves [moves_intros]:
  "(\<And>v q. moves q (f s (v, q))) \<Longrightarrow> moves p (bindS (s, new_cid e seq p len) f)"
  by (rule read_moves) (rule new_cid_adv)

lemma ack_ranges_moves [moves_intros]: "moves p (ack_ranges quic sp n p s qb)"
proof (induction n arbitrary: quic p s qb)
  case 0
  show ?case by simp
next
  case (Suc n)
  show ?case unfolding ack_ranges.simps by (intro moves_intros Suc)
qed

lemma param_frame_moves [moves_intros]: "moves p (param_frame quic p type)"
  by (auto simp: param_frame_def QuicFrameStreamParamUpdate_def bindR_eq_Inr post_pair
      intro: QuicVariableLengthDecode_adv split: sum.splits if_splits)

lemma frame_parse_moves: "moves p (frame_parse e f quic p type sp buf)"
proof (cases f)
  case NewTokenParser
  then show ?thesis
    by (simp only: frame_parse.simps QuicFrameNewTokenParser_def)
      (intro moves_intros; auto simp: post_pair split: prod.splits intro: QuicDataParse_adv)
next
  case CryptoParser
  have "moves p (case r of (x, y) \<Rightarrow> f x y)" if "\<And>x y. moves p (f x y)" for p and r :: "QUIC_BUFFER \<times> unit res" and f :: "QUIC_BUFFER \<Rightarrow> unit res \<Rightarrow> 'a Quic \<times> RPacket res"
    using that by (cases r) simp
  note m = this
  show ?thesis unfolding CryptoParser frame_parse.simps QuicFrameCryptoParser_def
    by (intro moves_intros m)
next
  case StreamParser
  have "moves q (case r of Inl z \<Rightarrow> g z | Inr y \<Rightarrow> h y)" if "\<And>z. moves q (g z)" and "\<And>y. moves q (h y)"
    for q :: RPacket and r :: "c_err + QuicStreamMsg" and g h :: "_ \<Rightarrow> 'a Quic \<times> RPacket res"
    using that by (cases r) simp_all
  note m = this
  show ?thesis unfolding StreamParser frame_parse.simps QuicFrameStreamParser_def
    by (intro moves_intros m)
next
  case RetireConnIdParser
  then show ?thesis
    by (simp only: frame_parse.simps QuicFrameRetireConnIdParser_def) (intro moves_intros; simp split: sum.splits)
qed (simp_all only: frame_parse.simps QuicFrameNewConnIdParser_def QuicFramePingParser_def QuicFrameAckParser_def
    QuicFrameResetStreamParser_def QuicFrameStopSendingParser_def QuicFrameMaxDataParser_def QuicFrameMaxStreamDataParser_def
    QuicFrameMaxStreamsBidiParser_def QuicFrameMaxStreamsUniParser_def QuicFrameDataBlockedParser_def
    QuicFrameStreamDataBlockedParser_def QuicFrameConnCloseParser_def QuicFrameHandshakeDoneParser_def,
    (intro moves_intros)+)

definition QUIC_FRAM_IS_ACK_ELICITING :: "u64 \<Rightarrow> bool" where
  "QUIC_FRAM_IS_ACK_ELICITING type \<longleftrightarrow>
     type \<noteq> QUIC_FRAME_TYPE_PADDING \<and> type \<noteq> QUIC_FRAME_TYPE_ACK \<and> type \<noteq> QUIC_FRAME_TYPE_CONNECTION_CLOSE"

text \<open>The loop of \<^verbatim>\<open>QuicFrameDoParser\<close>; it returns whether there was a CRYPTO frame and whether there was a
  frame to acknowledge. A type that cannot be decoded ends it like the end of the packet.\<close>

function frame_loop ::
    "env \<Rightarrow> crypto_space \<Rightarrow> nat option \<Rightarrow> 'c Quic \<Rightarrow> RPacket \<Rightarrow> bool \<Rightarrow> bool \<Rightarrow> 'c Quic \<times> (bool \<times> bool) res" where
  "frame_loop e sp buf quic pkt crypto_found ack_eliciting =
     (case QuicVariableLengthDecode pkt of
        Inl err \<Rightarrow> (quic, if err = Fail then Inr (crypto_found, ack_eliciting) else Inl err)
      | Inr (type, pkt1) \<Rightarrow>
          if type \<ge> QUIC_FRAME_TYPE_MAX then (quic, Inl Fail)
          else
            let p = frame_handler ! unat type in
            if fp_skip p then frame_loop e sp buf quic pkt1 crypto_found ack_eliciting
            else case fp_parser p of
              None \<Rightarrow> (quic, Inl Fail)
            | Some f \<Rightarrow>
                (case frame_parse e f quic pkt1 type sp buf of
                   (quic1, Inl err) \<Rightarrow> (quic1, Inl err)
                 | (quic1, Inr pkt2) \<Rightarrow>
                     frame_loop e sp buf quic1 pkt2 (crypto_found \<or> type = QUIC_FRAME_TYPE_CRYPTO)
                       (ack_eliciting \<or> QUIC_FRAM_IS_ACK_ELICITING type)))"
  by pat_completeness auto

text \<open>What is left of the buffer gets shorter with every frame.\<close>

definition rp_left :: "RPacket \<Rightarrow> nat" where
  "rp_left pkt = nat (int (length (rp_buf pkt)) - rp_curr pkt)"

lemma rp_left_decode: "QuicVariableLengthDecode p = Inr (v, q) \<Longrightarrow> rp_left q < rp_left p"
  using QuicVariableLengthDecode_strict[of p v q] by (simp add: rp_left_def)

lemma rp_left_adv: "rp_adv p q \<Longrightarrow> rp_left q \<le> rp_left p"
  unfolding rp_left_def rp_adv_def by (intro nat_mono) simp

lemma rp_left_parse: "frame_parse e f quic p type sp buf = (quic', Inr q) \<Longrightarrow> rp_left q \<le> rp_left p"
  using frame_parse_moves[of p e f quic type sp buf] by (auto intro: rp_left_adv)

termination frame_loop
proof (relation "measure (\<lambda>(e, sp, buf, quic, pkt, c, a). rp_left pkt)", goal_cases)
  case 1
  show ?case by simp
next
  case (2 e sp buf quic pkt c a x type pkt1)
  then show ?case using rp_left_decode[of pkt type pkt1] by simp
next
  case (3 e sp buf quic pkt c a x type pkt1 p f r y pkt2)
  then show ?case
    using rp_left_decode[of pkt type pkt1] rp_left_parse[of e f quic pkt1 type sp buf r pkt2] by simp
qed

declare frame_loop.simps [simp del]

text \<open>The acknowledgement may not be built; \<open>quiet\<close> drops the error value and keeps what is no return.\<close>

definition quiet :: "'s \<times> 'a res \<Rightarrow> 's \<times> unit res" where
  "quiet r = (case r of (s, Inl err) \<Rightarrow> (s, if err = Fail then Inr () else Inl err) | (s, Inr _) \<Rightarrow> (s, Inr ()))"

definition QuicFrameDoParser ::
    "env \<Rightarrow> ('c Quic \<Rightarrow> 'c Quic \<times> unit res) \<Rightarrow> 'c Quic \<Rightarrow> RPacket \<Rightarrow> crypto_space \<Rightarrow> u32 \<Rightarrow> nat option \<Rightarrow> 'c Quic \<times> unit res" where
  "QuicFrameDoParser e tls quic pkt sp pkt_type buf =
     bindS (frame_loop e sp buf quic pkt False False) (\<lambda>quic1 (crypto_found, ack_eliciting).
     bindS (if ack_eliciting then quiet (QuicAckFrameBuild e quic1 pkt_type) else (quic1, Inr ())) (\<lambda>quic2 _.
       if crypto_found
       then bindS (if \<not> q_tls_done quic2 then tls quic2 else (quic2, Inr ())) (\<lambda>quic3 _.
              (if q_tls_done quic3 then quic3\<lparr>q_state := QUIC_STATEM_HANDSHAKE_DONE\<rparr> else quic3, Inr ()))
       else (quic2, Inr ())))"
section \<open>CRYPTO frames\<close>

lemma decode_bytes:
  assumes "rp_wf p" and "rp_view p = varint_bytes v @ rest" and "unat v < 2 ^ 62"
  obtains p' where "decode quic p = (quic, Inr (v, p'))" and "rp_wf p'" and "rp_view p' = rest"
proof -
  have "uint v < 2 ^ 62" using assms(3) uint_less_int[of v "2 ^ 62"] by simp
  from varint_decode_bytes[OF assms(1) this assms(2)] show thesis using that by (auto simp: decode_def)
qed

text \<open>The room made for a frame, when the allocation succeeds.\<close>

lemma crypto_room_ok:
  assumes "qbf_buf buf = Some m" and "length m < 2 ^ 31" and "unat total_len < 2 ^ 31"
    and "grow_spec e" and "length m < unat total_len \<Longrightarrow> env_grow e m (unat total_len) \<noteq> None"
  obtains m' where "crypto_room e buf total_len = (buf\<lparr>qbf_buf := Some m'\<rparr>, Inr ())"
    and "length m' = max (length m) (unat total_len)" and "take (length m) m' = m"
proof -
  have gt: "QUIC_GT total_len (of_nat (length m)) \<longleftrightarrow> length m < unat total_len"
    using assms(2,3) by (simp add: quic_cmp_unat of_nat_unat64)
  show thesis
  proof (cases "length m < unat total_len")
    case True
    then obtain m' where m': "env_grow e m (unat total_len) = Some m'" using assms(5) by auto
    then have l: "length m' = unat total_len" and "take (min (unat total_len) (length m)) m' = take (min (unat total_len) (length m)) m"
      using assms(4) by (auto simp: grow_spec_def)
    then have t: "take (length m) m' = m" using True by (simp add: min_def)
    have "total_len \<noteq> 0" using True by auto
    then show thesis using that[of m'] m' l t True gt assms(1)
      by (simp add: crypto_room_def QuicBufLength_def QuicBufMemGrow_def)
  next
    case False
    then show thesis using that[of m] gt assms(1) by (simp add: crypto_room_def QuicBufLength_def)
  qed
qed

lemma crypto_copy_ok:
  assumes "rp_wf p" and "rp_view p = data @ rest" and "data \<noteq> []" and "length data < 2 ^ 31"
    and "qbf_buf buf = Some m"
  obtains p' where "rp_wf p'" and "rp_view p' = rest"
    and "crypto_copy buf p offset (of_nat (length data)) =
      (let at = unat (qbf_reserved buf) + unat offset in
       if at + length data \<le> length m
       then Inr (buf\<lparr>qbf_buf := Some (take at m @ data @ drop (at + length data) m)\<rparr>, p') else Inl Bad_mem)"
proof -
  let ?n = "of_nat (length data) :: u64"
  have un: "unat ?n = length data" using assms(4) by (simp add: of_nat_unat64)
  then have n: "unat ?n = length data" "uint ?n < 2 ^ 31" using assms(4) by (simp, simp only: uint_less_unat)
  have c: "RPacketCopyBytes p ?n = Inr (data, RPacketForward p ?n)"
    using RPacketCopyBytes_spec[OF assms(1) n(2)] n(1) assms(2) by simp
  have w: "rp_wf (RPacketForward p ?n)" "rp_view (RPacketForward p ?n) = rest"
    using rp_Forward_wf[OF assms(1), of ?n] assms(2) n(1) by simp_all
  have "uint (qbf_reserved buf) + uint offset = int (unat (qbf_reserved buf) + unat offset)"
    by (simp only: uint_nat of_nat_add)
  then have "mem_copy m (uint (qbf_reserved buf) + uint offset) data =
      (let at = unat (qbf_reserved buf) + unat offset in
       if at + length data \<le> length m then Inr (take at m @ data @ drop (at + length data) m) else Inl Bad_mem)"
    using assms(3) by (simp only: mem_copy_def Let_def) (simp flip: of_nat_add)
  then show thesis using that[OF w] c assms(5) by (simp add: crypto_copy_def QuicBufData_def Let_def)
qed


text \<open>A client that has sent a ClientHello of 4 bytes from a buffer of 8.\<close>

definition demo_client :: "demo_ctx Quic" where
  "demo_client = (sample_quic (demo_crypto 0))\<lparr>q_tls_buffer :=
     \<lparr>qbf_buf = Some (replicate 8 0), qbf_offset = 0, qbf_reserved = 4, qbf_data_len = 0\<rparr>\<rparr>"


section \<open>ACK frames\<close>

lemma crypto_at_total: "sp \<noteq> CrStart \<Longrightarrow> \<exists>c. crypto_at quic sp = Inr c"
  by (cases sp) simp_all

lemma q_stream_crypto_upd [simp]: "q_stream (crypto_upd quic sp c) = q_stream quic"
  by (cases sp) simp_all

text \<open>Taking the acknowledged packets out of the sent queue of a space: the buffer that comes back is the last
  one below the range.\<close>

lemma ack_sent_ok:
  assumes "conf_wf (q_stream quic)" and "sp \<noteq> CrStart" and "crypto_at quic sp = Inr c" and "sent_wf (qy_sent_queue c)"
    and "smallest \<le> largest" and "unat largest < 2 ^ 31"
  obtains quic' c' where "ack_sent quic sp smallest largest None =
      (quic', Inr (if \<exists>qb\<in>set (qy_sent_queue c). qb_pkt_num qb < smallest
         then Some (last (filter (\<lambda>qb. qb_pkt_num qb < smallest) (qy_sent_queue c))) else None))"
    and "crypto_at quic' sp = Inr c'"
proof -
  have "unat smallest < 2 ^ 31" using assms(5,6) by (simp add: word_le_nat_alt)
  then have b: "uint smallest < 2 ^ 31" "uint largest < 2 ^ 31" using assms(6) by (simp_all only: uint_less_unat)
  obtain quic1 where q: "QBufAckSentPkt quic (qy_sent_queue c) smallest largest None =
      Inr (quic1, filter (\<lambda>qb. \<not> acked smallest largest qb) (qy_sent_queue c),
        if \<exists>qb\<in>set (qy_sent_queue c). qb_pkt_num qb < smallest
        then Some (last (filter (\<lambda>qb. qb_pkt_num qb < smallest) (qy_sent_queue c))) else None)"
    using QBufAckSentPkt_ok[OF assms(1,4,5) b] by blast
  obtain c1 where "crypto_at quic1 sp = Inr c1" using crypto_at_total[OF assms(2)] by blast
  then show thesis using that assms(2,3) q by (simp add: ack_sent_def)
qed

lemma ack_sent_older:
  assumes "conf_wf (q_stream quic)" and "sp \<noteq> CrStart" and "crypto_at quic sp = Inr c" and "sent_wf (qy_sent_queue c)"
    and "smallest \<le> largest" and "unat largest < 2 ^ 31" and "qb \<in> set (qy_sent_queue c)" and "qb_pkt_num qb < smallest"
  obtains quic' c' b where "ack_sent quic sp smallest largest None = (quic', Inr (Some b))"
    and "crypto_at quic' sp = Inr c'"
proof -
  have "\<exists>qb\<in>set (qy_sent_queue c). qb_pkt_num qb < smallest" using assms(7,8) by blast
  then have ex: "(\<exists>qb\<in>set (qy_sent_queue c). qb_pkt_num qb < smallest) = True" by blast
  obtain quic' c' where a: "ack_sent quic sp smallest largest None =
      (quic', Inr (if \<exists>qb\<in>set (qy_sent_queue c). qb_pkt_num qb < smallest
         then Some (last (filter (\<lambda>qb. qb_pkt_num qb < smallest) (qy_sent_queue c))) else None))"
    and c': "crypto_at quic' sp = Inr c'"
    by (rule ack_sent_ok[OF assms(1-6)])
  show thesis by (rule that[OF a[unfolded ex if_True] c'])
qed

lemma ack_sent_start:
  "crypto_at quic sp = Inr c \<Longrightarrow> ack_sent quic sp smallest largest (Some qb) = (quic, Inl Null_ptr)"
  by (simp add: ack_sent_def QBufAckSentPkt_def)

lemma ack_gap_bounds:
  assumes "first_ack_range \<le> largest" and "unat gap + 2 + unat len \<le> unat largest - unat first_ack_range"
    and "unat largest < 2 ^ 31"
  shows "\<not> QUIC_LT (largest - first_ack_range :: u64) 0" and "\<not> QUIC_LT (largest - first_ack_range - gap - 2) 0"
    and "\<not> QUIC_LT (largest - first_ack_range - gap - 2 - len) 0"
proof -
  have s: "unat (largest - first_ack_range) = unat largest - unat first_ack_range" using assms(1) by (rule unat_sub)
  have g: "unat (largest - first_ack_range - gap) = unat largest - unat first_ack_range - unat gap"
    using assms(2) s by (subst unat_sub) (simp_all add: word_le_nat_alt)
  have g2: "unat (largest - first_ack_range - gap - 2) = unat largest - unat first_ack_range - unat gap - 2"
    using assms(2) g by (subst unat_sub) (simp_all add: word_le_nat_alt)
  have l: "unat (largest - first_ack_range - gap - 2 - len) = unat largest - unat first_ack_range - unat gap - 2 - unat len"
    using assms(2) g2 by (subst unat_sub) (simp_all add: word_le_nat_alt)
  show "\<not> QUIC_LT (largest - first_ack_range) 0" "\<not> QUIC_LT (largest - first_ack_range - gap - 2) 0"
    "\<not> QUIC_LT (largest - first_ack_range - gap - 2 - len) 0"
    using assms(3) s g2 l by (simp_all add: quic_cmp_unat)
qed

text \<open>C40: an acknowledgement with a gap while an older packet is still in flight ends in a null pointer: the first
  range returns the buffer to continue from, and continuing from a buffer starts with a null cursor. The
  hypotheses are those of a frame any peer sends when one packet is lost: two ranges, both of them numbers of
  packets sent, and a packet below the first range that is not acknowledged yet.\<close>

theorem ack_gap_null_pointer:
  assumes "conf_wf (q_stream quic)" and "sp \<noteq> CrStart" and "crypto_at quic sp = Inr c" and "sent_wf (qy_sent_queue c)"
    and pkt: "rp_wf pkt" "rp_view pkt = varint_bytes largest @ varint_bytes delay @ varint_bytes (of_nat (Suc n)) @
      varint_bytes first_ack_range @ varint_bytes gap @ varint_bytes len @ rest"
    and "unat largest < 2 ^ 31" and "unat delay < 2 ^ 62" and "Suc n < 2 ^ 62" and "first_ack_range \<le> largest"
    and "unat gap + 2 + unat len \<le> unat largest - unat first_ack_range"
    and "qb \<in> set (qy_sent_queue c)" and "qb_pkt_num qb < largest - first_ack_range"
  shows "snd (QuicFrameAckParser quic pkt sp) = Inl Null_ptr"
proof -
  have small: "unat largest < 2 ^ 62" "unat (of_nat (Suc n) :: u64) < 2 ^ 62" "unat first_ack_range < 2 ^ 62"
    "unat gap < 2 ^ 62" "unat len < 2 ^ 62" "unat (of_nat (Suc n) :: u64) = Suc n"
    using assms(7,9,10,11) by (simp_all add: of_nat_unat64 word_le_nat_alt del: of_nat_Suc)
  obtain p1 where d1: "\<And>q :: 'a Quic. decode q pkt = (q, Inr (largest, p1))" and p1: "rp_wf p1"
    "rp_view p1 = varint_bytes delay @ varint_bytes (of_nat (Suc n)) @
      varint_bytes first_ack_range @ varint_bytes gap @ varint_bytes len @ rest"
    using decode_bytes[OF pkt small(1)] by (metis decode_def prod.inject)
  obtain p2 where d2: "\<And>q :: 'a Quic. decode q p1 = (q, Inr (delay, p2))" and p2: "rp_wf p2"
    "rp_view p2 = varint_bytes (of_nat (Suc n)) @ varint_bytes first_ack_range @ varint_bytes gap @ varint_bytes len @ rest"
    using decode_bytes[OF p1 assms(8)] by (metis decode_def prod.inject)
  obtain p3 where d3: "\<And>q :: 'a Quic. decode q p2 = (q, Inr (of_nat (Suc n), p3))" and p3: "rp_wf p3"
    "rp_view p3 = varint_bytes first_ack_range @ varint_bytes gap @ varint_bytes len @ rest"
    using decode_bytes[OF p2 small(2)] by (metis decode_def prod.inject)
  obtain p4 where d4: "\<And>q :: 'a Quic. decode q p3 = (q, Inr (first_ack_range, p4))" and p4: "rp_wf p4"
    "rp_view p4 = varint_bytes gap @ varint_bytes len @ rest"
    using decode_bytes[OF p3 small(3)] by (metis decode_def prod.inject)
  obtain p5 where d5: "\<And>q :: 'a Quic. decode q p4 = (q, Inr (gap, p5))" and p5: "rp_wf p5" "rp_view p5 = varint_bytes len @ rest"
    using decode_bytes[OF p4 small(4)] by (metis decode_def prod.inject)
  obtain p6 where d6: "\<And>q :: 'a Quic. decode q p5 = (q, Inr (len, p6))"
    using decode_bytes[OF p5 small(5)] by (metis decode_def prod.inject)
  let ?c = "if QUIC_GE largest (qy_largest_acked c) then c\<lparr>qy_largest_acked := largest\<rparr> else c"
  let ?q = "if QUIC_GE largest (qy_largest_acked c) then crypto_upd quic sp (c\<lparr>qy_largest_acked := largest\<rparr>) else quic"
  have q: "conf_wf (q_stream ?q)" "crypto_at ?q sp = Inr ?c" "qy_sent_queue ?c = qy_sent_queue c"
    using assms(1-3) by simp_all
  have "largest - first_ack_range \<le> largest" using assms(10) by (simp add: word_sub_le)
  moreover have "sent_wf (qy_sent_queue ?c)" "qb \<in> set (qy_sent_queue ?c)" using q(3) assms(4,12) by simp_all
  ultimately obtain quic' c' b where a: "ack_sent ?q sp (largest - first_ack_range) largest None = (quic', Inr (Some b))"
    "crypto_at quic' sp = Inr c'"
    using q(1,2) assms(2,7,13) by (elim ack_sent_older)
  note bounds = ack_gap_bounds[OF assms(10,11,7)]
  show ?thesis
    unfolding QuicFrameAckParser_def
    using assms(3) a bounds small(6)
    by (simp add: d1 d2 d3 d4 d5 d6 Let_def ack_sent_start del: of_nat_Suc)
qed

definition demo_in_flight :: "demo_ctx Quic" where
  "demo_in_flight = sample_quic ((demo_crypto 0)\<lparr>qy_sent_queue := [demo_qb 1, demo_qb 3, demo_qb 5]\<rparr>)"

theorem ack_gap_null_pointer_witness:
  "snd (QuicFrameAckParser demo_in_flight (RPacketBufInit [5, 0, 1, 0, 0, 0] 0 6) CrApplication) = Inl Null_ptr"
proof -
  let ?p = "RPacketBufInit [5, 0, 1, 0, 0, 0] 0 6" and ?c = "(demo_crypto 0)\<lparr>qy_sent_queue := [demo_qb 1, demo_qb 3, demo_qb 5]\<rparr>"
  have w: "rp_wf ?p" by (simp add: rp_wf_def RPacketBufInit_def RPacketHeadSync_def)
  have "rp_view ?p = [5, 0, 1, 0, 0, 0]" using rp_view_full[of "[5, 0, 1, 0, 0, 0]"] by simp
  moreover have "varint_bytes 5 = [5]" "varint_bytes 0 = [0]" "varint_bytes 1 = [1]" by code_simp+
  ultimately have v: "rp_view ?p = varint_bytes 5 @ varint_bytes 0 @ varint_bytes (of_nat (Suc 0)) @
      varint_bytes 0 @ varint_bytes 0 @ varint_bytes 0 @ []" by simp
  have "conf_wf (q_stream demo_in_flight)" "CrApplication \<noteq> CrStart" "crypto_at demo_in_flight CrApplication = Inr ?c"
    "sent_wf (qy_sent_queue ?c)"
    by (simp_all add: demo_in_flight_def sample_quic_def QuicTrans.defs demo_quic_def conf_wf_def sent_wf_def demo_qb_def word_less_def)
  from ack_gap_null_pointer[OF this w v, of "demo_qb 1"] show ?thesis by (simp add: demo_qb_def)
qed

end
