(* ===== verification/Frame_Refs.thy ===== *)
theory Frame_Refs
  imports Frame_Parse
begin

text \<open>
  An invariant of the whole frame parser: the reference counts of the packet buffers. Every chunk in the
  queue of a stream holds one reference to the buffer it points into, and the parser of a packet holds one
  more while it runs; a buffer is in the store exactly as long as there is a reference. So no chunk ever
  points into a buffer that has been freed, and no buffer without a chunk stays allocated.
\<close>

section \<open>The invariant\<close>

definition chunks :: "'a QuicTrans_scheme \<Rightarrow> QuicStreamData list" where
  "chunks quic = (case scf_stream (q_stream quic) of None \<Rightarrow> [] | Some sis \<Rightarrow> concat (map si_queue sis))"

text \<open>The references to \<open>b\<close>: its chunks, and the one of the parser, which works on the buffer \<open>h\<close>.\<close>

definition ref_count :: "nat option \<Rightarrow> 'a QuicTrans_scheme \<Rightarrow> nat \<Rightarrow> nat" where
  "ref_count h quic b = chunk_refs (chunks quic) b + (if h = Some b then 1 else 0)"

definition refs_exact :: "nat option \<Rightarrow> 'a QuicTrans_scheme \<Rightarrow> bool" where
  "refs_exact h quic \<longleftrightarrow> (\<forall>b. (q_bufs quic b = None \<longrightarrow> ref_count h quic b = 0)
     \<and> (\<forall>x. q_bufs quic b = Some x \<longrightarrow> unat (db_ref x) = ref_count h quic b \<and> 0 < ref_count h quic b))"

text \<open>With a bound on the number of chunks, which keeps the 32-bit counters from wrapping.\<close>

definition conn_ok :: "nat option \<Rightarrow> nat \<Rightarrow> 'a QuicTrans_scheme \<Rightarrow> bool" where
  "conn_ok h n quic \<longleftrightarrow> conf_wf (q_stream quic) \<and> refs_exact h quic \<and> length (chunks quic) \<le> n"

lemma conn_ok_mono: "conn_ok h n quic \<Longrightarrow> n \<le> m \<Longrightarrow> conn_ok h m quic"
  by (simp add: conn_ok_def)

text \<open>It depends on the table of streams and the store of buffers.\<close>

lemma conf_wf_cong:
  "scf_stream a = scf_stream b \<Longrightarrow> scf_max_id_value a = scf_max_id_value b \<Longrightarrow> conf_wf a = conf_wf b"
  by (simp add: conf_wf_def split: option.splits)

lemma conn_ok_cong:
  assumes "scf_stream (q_stream quic') = scf_stream (q_stream quic)"
    and "scf_max_id_value (q_stream quic') = scf_max_id_value (q_stream quic)" and "q_bufs quic' = q_bufs quic"
  shows "conn_ok h n quic' = conn_ok h n quic"
proof -
  have "chunks quic' = chunks quic" using assms(1) by (simp add: chunks_def)
  then show ?thesis using conf_wf_cong[OF assms(1,2)] assms(3) by (simp add: conn_ok_def refs_exact_def ref_count_def)
qed

text \<open>What the parsers change beside streams and buffers.\<close>

lemma conn_ok_fields [simp]:
  "conn_ok h n (quic\<lparr>q_tls_buffer := a\<rparr>) = conn_ok h n quic" "conn_ok h n (quic\<lparr>q_token := b\<rparr>) = conn_ok h n quic"
  "conn_ok h n (quic\<lparr>q_peer_param := c\<rparr>) = conn_ok h n quic" "conn_ok h n (quic\<lparr>q_conn := d\<rparr>) = conn_ok h n quic"
  "conn_ok h n (quic\<lparr>q_state := f\<rparr>) = conn_ok h n quic" "conn_ok h n (quic\<lparr>q_handshake := g\<rparr>) = conn_ok h n quic"
  "conn_ok h n (crypto_upd quic sp j) = conn_ok h n quic" "conn_ok h n (quic\<lparr>q_tx_queue := k\<rparr>) = conn_ok h n quic"
  by (rule conn_ok_cong; cases sp; simp)+

lemma conn_ok_msg [simp]: "conn_ok h n (quic\<lparr>q_stream := QuicStreamMsgAdd (q_stream quic) msg\<rparr>) = conn_ok h n quic"
  by (rule conn_ok_cong) (simp_all add: QuicStreamMsgAdd_def)

section \<open>Streams\<close>

lemma stream_atE:
  assumes "stream_at scf i = Inr si"
  obtains sis where "scf_stream scf = Some sis" and "unat i < length sis" and "sis ! unat i = si"
  using assms by (auto simp: stream_at_def split: option.splits if_splits)

lemma stream_at_upd:
  assumes "stream_at (q_stream quic) i = Inr si"
  shows "stream_at (q_stream (q_stream_upd quic i si')) i = Inr si'"
proof -
  obtain sis where "scf_stream (q_stream quic) = Some sis" "unat i < length sis" using assms by (rule stream_atE)
  then show ?thesis using assms by (simp add: stream_at_def q_stream_upd_def stream_upd_def split: if_splits)
qed

lemma chunk_refs_concat_upd:
  "i < length qs \<Longrightarrow> chunk_refs (concat (qs[i := q])) b + chunk_refs (qs ! i) b = chunk_refs (concat qs) b + chunk_refs q b"
  by (induction qs arbitrary: i) (auto simp: nth_Cons split: nat.splits)

lemma length_concat_upd:
  "i < length qs \<Longrightarrow> length (concat (qs[i := q])) + length (qs ! i) = length (concat qs) + length q"
  by (induction qs arbitrary: i) (auto simp: nth_Cons split: nat.splits)

lemma chunks_upd:
  assumes "stream_at (q_stream quic) i = Inr si"
  shows "chunk_refs (chunks (q_stream_upd quic i si')) b + chunk_refs (si_queue si) b =
      chunk_refs (chunks quic) b + chunk_refs (si_queue si') b"
    and "length (chunks (q_stream_upd quic i si')) + length (si_queue si) = length (chunks quic) + length (si_queue si')"
proof -
  obtain sis where s: "scf_stream (q_stream quic) = Some sis" "unat i < length sis" "sis ! unat i = si"
    using assms by (rule stream_atE)
  have m: "map si_queue (sis[unat i := si']) = (map si_queue sis)[unat i := si_queue si']" by (rule map_update)
  have i: "unat i < length (map si_queue sis)" using s(2) by simp
  note chunk_refs_concat_upd[OF i, of "si_queue si'" b] length_concat_upd[OF i, of "si_queue si'"]
  then show "chunk_refs (chunks (q_stream_upd quic i si')) b + chunk_refs (si_queue si) b =
      chunk_refs (chunks quic) b + chunk_refs (si_queue si') b"
    and "length (chunks (q_stream_upd quic i si')) + length (si_queue si) = length (chunks quic) + length (si_queue si')"
    using s m by (simp_all add: chunks_def q_stream_upd_def stream_upd_def)
qed

lemma bufs_q_stream_upd [simp]: "q_bufs (q_stream_upd quic i si) = q_bufs quic"
  by (simp add: q_stream_upd_def)

text \<open>Changing the state of an instance and not its queue.\<close>

lemma conn_ok_upd:
  assumes "conn_ok h n quic" and "stream_at (q_stream quic) i = Inr si" and "si_queue si' = si_queue si"
  shows "conn_ok h n (q_stream_upd quic i si')"
proof -
  note c = chunks_upd[OF assms(2), of si', unfolded assms(3)]
  have "ref_count h (q_stream_upd quic i si') b = ref_count h quic b" for b using c(1)[of b] by (simp add: ref_count_def)
  moreover have "conf_wf (q_stream (q_stream_upd quic i si'))"
    using assms(1) by (simp add: conn_ok_def q_stream_upd_def stream_upd_wf)
  ultimately show ?thesis using assms(1) c(2) by (simp add: conn_ok_def refs_exact_def)
qed

lemma recv_open_loop_queues: "recv_open_loop is sis = Inr sis' \<Longrightarrow> map si_queue sis' = map si_queue sis"
proof (induction "is" arbitrary: sis)
  case Nil
  then show ?case by simp
next
  case (Cons i "is")
  then have "map si_queue sis' = map si_queue (sis[i := QuicStreamInstanceRecvOpen (sis ! i)])" and "i < length sis"
    by (auto split: if_splits)
  then show ?case by (simp add: map_update QuicStreamInstanceRecvOpen_def list_update_same_conv)
qed

lemma get_instance_shape:
  assumes "QuicStreamGetInstance quic i = (quic', r)"
  shows "q_bufs quic' = q_bufs quic \<and> chunks quic' = chunks quic \<and> (\<forall>si. r = Inr si \<longrightarrow> stream_at (q_stream quic') i = Inr si)"
  using assms
  by (auto simp: QuicStreamGetInstance_def Let_def chunks_def dest!: recv_open_loop_queues
      split: option.splits sum.splits if_splits)

lemma get_instance_ok [post_intros]:
  assumes "conn_ok h n quic"
    and "\<And>quic' si. conn_ok h n quic' \<Longrightarrow> stream_at (q_stream quic') i = Inr si \<Longrightarrow> P quic' si"
    and "\<And>quic'. conn_ok h n quic' \<Longrightarrow> E quic'"
  shows "post P E (QuicStreamGetInstance quic i)"
proof (cases "QuicStreamGetInstance quic i")
  case (Pair quic' r)
  have "conf_wf (q_stream quic')" using QuicStreamGetInstance_safe[OF _ Pair] assms(1) by (simp add: conn_ok_def)
  then have "conn_ok h n quic'" using get_instance_shape[OF Pair] assms(1)
    by (simp add: conn_ok_def refs_exact_def ref_count_def)
  then show ?thesis using get_instance_shape[OF Pair] assms(2,3) Pair by (simp add: post_pair)
qed

section \<open>Chunks\<close>

text \<open>What adding a chunk does to the buffers: it takes the chunk into the queue with its reference, or gives the
  reference back.\<close>

lemma flow_ctrl_shape:
  "QuicStreamRecvFlowCtrl quic si n = Inr (quic', si') \<Longrightarrow>
     scf_stream (q_stream quic') = scf_stream (q_stream quic) \<and>
     scf_max_id_value (q_stream quic') = scf_max_id_value (q_stream quic) \<and>
     q_bufs quic' = q_bufs quic \<and> si_queue si' = si_queue si"
  by (auto simp: QuicStreamRecvFlowCtrl_def Let_def bindR_eq_Inr split: if_splits)

lemma free_sd_shape:
  "free_sd quic sd = Inr quic' \<Longrightarrow>
     q_stream quic' = q_stream quic \<and> store_free (q_bufs quic) (sd_origin_buf sd) = Inr (q_bufs quic')"
  by (auto simp: free_sd_def QuicStreamDataFree_def bindR_eq_Inr)

definition added :: "'a QuicTrans_scheme \<Rightarrow> nat \<Rightarrow> QuicStreamInstance \<Rightarrow> 'a QuicTrans_scheme \<Rightarrow> QuicStreamInstance \<Rightarrow> bool" where
  "added quic b si quic' si' \<longleftrightarrow> scf_stream (q_stream quic') = scf_stream (q_stream quic)
     \<and> scf_max_id_value (q_stream quic') = scf_max_id_value (q_stream quic)
     \<and> (map sd_origin_buf (si_queue si') = map sd_origin_buf (si_queue si) @ [b] \<and> q_bufs quic' = q_bufs quic
        \<or> si_queue si' = si_queue si \<and> store_free (q_bufs quic) b = Inr (q_bufs quic'))"

lemma data_add_shape:
  assumes "QuicStreamDataAdd quic sd si = Inr (quic', si')"
  shows "added quic (sd_origin_buf sd) si quic' si'"
  using assms
  by (auto simp: QuicStreamDataAdd_def QuicStreamDataAddOfo_def added_def Let_def bindR_eq_Inr
      split: sum.splits if_splits dest!: flow_ctrl_shape free_sd_shape)

lemma data_create_shape:
  assumes "QuicStreamDataCreate e st h offset data len = Inr (sd, st')"
  obtains b x where "h = Some b" and "st b = Some x" and "st' = st(b \<mapsto> x\<lparr>db_ref := db_ref x + 1\<rparr>)" and "sd_origin_buf sd = b"
  using assms by (auto simp: QuicStreamDataCreate_def store_get_def QuicDataBufGet_def bindR_eq_Inr split: option.splits)

lemma unat_succ32: "unat (r :: u32) + 1 < 2 ^ 32 \<Longrightarrow> unat (r + 1) = unat r + 1"
  by (simp add: unat_word_ariths)

lemma chunk_refs_le: "chunk_refs q b \<le> length q"
  by (simp add: chunk_refs_def)

lemma chunk_refs_map: "chunk_refs q b = length (filter (\<lambda>d. d = b) (map sd_origin_buf q))"
  by (simp add: chunk_refs_def filter_map comp_def)

lemma data_add_ok:
  assumes ok: "conn_ok h n quic" and at: "stream_at (q_stream quic) i = Inr si" and n: "n + 2 < 2 ^ 32"
    and create: "QuicStreamDataCreate e (q_bufs quic) h offset data len = Inr (sd, st)"
    and add: "QuicStreamDataAdd (quic\<lparr>q_bufs := st\<rparr>) sd si = Inr (quic', si')"
  shows "conn_ok h (Suc n) (q_stream_upd quic' i si')" and "stream_at (q_stream (q_stream_upd quic' i si')) i = Inr si'"
proof -
  obtain b x where h: "h = Some b" "q_bufs quic b = Some x" "st = (q_bufs quic)(b \<mapsto> x\<lparr>db_ref := db_ref x + 1\<rparr>)" "sd_origin_buf sd = b"
    using create by (rule data_create_shape)
  have shape: "scf_stream (q_stream quic') = scf_stream (q_stream quic)"
    "scf_max_id_value (q_stream quic') = scf_max_id_value (q_stream quic)"
    "map sd_origin_buf (si_queue si') = map sd_origin_buf (si_queue si) @ [b] \<and> q_bufs quic' = st
     \<or> si_queue si' = si_queue si \<and> store_free st b = Inr (q_bufs quic')"
    using data_add_shape[OF add] h(4) by (auto simp: added_def)
  have at': "stream_at (q_stream quic') i = Inr si" using at shape(1) by (simp add: stream_at_def)
  have c: "chunks quic' = chunks quic" using shape(1) by (simp add: chunks_def)
  have "ref_count h quic b \<le> n + 1" using ok chunk_refs_le[of "chunks quic" b] by (simp add: conn_ok_def ref_count_def)
  then have r: "unat (db_ref x + 1) = unat (db_ref x) + 1" using ok h(1,2) n
    by (intro unat_succ32) (simp add: conn_ok_def refs_exact_def)
  note upd = chunks_upd[OF at', of si', unfolded c]
  have wf: "conf_wf (q_stream (q_stream_upd quic' i si'))"
    using ok shape(1,2) by (simp add: conn_ok_def q_stream_upd_def) (rule stream_upd_wf, simp add: conf_wf_cong[OF shape(1,2)])
  show "stream_at (q_stream (q_stream_upd quic' i si')) i = Inr si'" using at' by (rule stream_at_upd)
  show "conn_ok h (Suc n) (q_stream_upd quic' i si')"
  proof (cases "si_queue si' = si_queue si")
    case False
    then have s: "map sd_origin_buf (si_queue si') = map sd_origin_buf (si_queue si) @ [b]" "q_bufs quic' = st"
      using shape(3) by auto
    have q: "chunk_refs (si_queue si') d = chunk_refs (si_queue si) d + (if d = b then 1 else 0)" for d
      by (simp add: chunk_refs_map s(1))
    then have "ref_count h (q_stream_upd quic' i si') d = ref_count h quic d + (if d = b then 1 else 0)" for d
      using upd(1)[of d] by (simp add: ref_count_def)
    then have "refs_exact h (q_stream_upd quic' i si')"
      using ok h r s(2) unfolding conn_ok_def refs_exact_def by auto
    moreover have "length (si_queue si') = Suc (length (si_queue si))" using arg_cong[OF s(1), of length] by simp
    ultimately show ?thesis using wf upd(2) ok by (simp add: conn_ok_def)
  next
    case True
    then have "store_free st b = Inr (q_bufs quic')" using shape(3) by auto
    moreover have "0 < unat (db_ref x)" using ok h(1,2) by (simp add: conn_ok_def refs_exact_def)
    then have "db_ref x \<noteq> 0" by auto
    moreover have "(q_bufs quic)(b \<mapsto> x) = q_bufs quic" using h(2) by (rule fun_upd_idem)
    ultimately have "q_bufs quic' = q_bufs quic"
      using h(3) by (auto simp: store_free_def QuicDataBufFree_def Let_def)
    moreover have "ref_count h (q_stream_upd quic' i si') d = ref_count h quic d" for d
      using upd(1)[of d] True by (simp add: ref_count_def)
    ultimately show ?thesis using wf upd(2) True ok by (simp add: conn_ok_def refs_exact_def)
  qed
qed

section \<open>The parsers\<close>

abbreviation keeps :: "nat option \<Rightarrow> nat \<Rightarrow> ('a QuicTrans_scheme) \<times> 'b res \<Rightarrow> bool" where
  "keeps h n \<equiv> post (\<lambda>quic _. conn_ok h n quic) (conn_ok h n)"

named_theorems keeps_intros \<open>rules for the invariant after an operation\<close>

lemmas [keeps_intros] = post_if post_let post_split

lemma keeps_pair [keeps_intros]: "conn_ok h n quic \<Longrightarrow> keeps h n (quic, r)"
  by (simp add: post_pair)

lemma keeps_bind_pair [keeps_intros]:
  "conn_ok h n quic \<Longrightarrow> (\<And>x. r = Inr x \<Longrightarrow> keeps h n (f quic x)) \<Longrightarrow> keeps h n (bindS (quic, r) f)"
  by (simp add: post_pair)

lemma keeps_bind_pair2:
  "conn_ok h n quic \<Longrightarrow> (\<And>x y. r = Inr (x, y) \<Longrightarrow> keeps h n (f quic (x, y))) \<Longrightarrow> keeps h n (bindS (quic, r) f)"
  by (rule keeps_bind_pair) auto

lemma keeps_decode [keeps_intros]:
  "conn_ok h n quic \<Longrightarrow> (\<And>v q. keeps h n (f quic (v, q))) \<Longrightarrow> keeps h n (bindS (decode quic p) f)"
  unfolding decode_def by (rule keeps_bind_pair) auto

lemma keeps_if_decode [keeps_intros]:
  "conn_ok h n quic \<Longrightarrow> (\<And>v q. keeps h n (f quic (v, q))) \<Longrightarrow>
   keeps h n (bindS (if b then decode quic p else (quic, Inr (x, p'))) f)"
  using keeps_decode[of h n quic f p] by (cases b) simp_all

lemma keeps_instance [keeps_intros]:
  "conn_ok h n quic \<Longrightarrow>
   (\<And>quic' si. conn_ok h n quic' \<Longrightarrow> stream_at (q_stream quic') i = Inr si \<Longrightarrow> keeps h n (f quic' si)) \<Longrightarrow>
   keeps h n (bindS (QuicStreamGetInstance quic i) f)"
  by (simp only: post_simps) (rule get_instance_ok)

lemma keeps_bind:
  "keeps h n r \<Longrightarrow> (\<And>s x. conn_ok h n s \<Longrightarrow> keeps h n (f s x)) \<Longrightarrow> keeps h n (bindS r f)"
  by (simp only: post_simps) (erule post_mono, simp_all)

lemma keeps_mono: "keeps h n r \<Longrightarrow> n \<le> m \<Longrightarrow> keeps h m r"
  by (erule post_mono) (simp_all add: conn_ok_mono)

text \<open>Acknowledging: the flags of a buffer change the send state of its stream.\<close>

lemma stream_flags_ok:
  assumes "conn_ok h n quic" and "QBufStreamFlagsProc quic i fl = Inr quic'"
  shows "conn_ok h n quic'"
proof -
  have "keeps h n (QuicStreamGetInstance quic i)"
    using assms(1) by (rule get_instance_ok)
  moreover have "\<And>q si. QuicStreamGetInstance quic i = (q, Inr si) \<Longrightarrow> stream_at (q_stream q) i = Inr si"
    using get_instance_shape by blast
  ultimately show ?thesis using assms
    by (auto simp: QBufStreamFlagsProc_def Let_def post_iff intro!: conn_ok_upd split: if_splits sum.splits prod.splits)
qed

lemma ack_loop_ok: "ack_loop quic qbs s l = Inr (quic', qbs', r) \<Longrightarrow> conn_ok h n quic \<Longrightarrow> conn_ok h n quic'"
proof (induction qbs arbitrary: quic qbs')
  case Nil
  then show ?case by simp
next
  case (Cons qb qbs)
  then show ?case by (auto simp: bindR_eq_Inr intro: stream_flags_ok split: if_splits)
qed

lemma ack_sent_keeps [keeps_intros]:
  assumes "conn_ok h n quic" and "\<And>quic' x. conn_ok h n quic' \<Longrightarrow> keeps h n (f quic' x)"
  shows "keeps h n (bindS (ack_sent quic sp s l start) f)"
proof (rule keeps_bind)
  show "keeps h n (ack_sent quic sp s l start)"
    using assms(1) by (auto simp: ack_sent_def QBufAckSentPkt_def bindR_eq_Inr split: sum.splits option.splits intro: ack_loop_ok)
qed (rule assms(2))

lemma ack_ranges_keeps [keeps_intros]: "conn_ok h n quic \<Longrightarrow> keeps h n (ack_ranges quic sp k p s qb)"
proof (induction k arbitrary: quic p s qb)
  case 0
  then show ?case by simp
next
  case (Suc k)
  then show ?case unfolding ack_ranges.simps by (intro keeps_intros Suc.IH) simp_all
qed

text \<open>Queueing an acknowledgement touches neither streams nor buffers.\<close>

lemma ack_build_keeps:
  "QuicFrameAckBuild e quic pkt sp = ((quic', pkt'), r) \<Longrightarrow> conn_ok h n quic \<Longrightarrow> conn_ok h n quic'"
  by (auto simp: QuicFrameAckBuild_def split: sum.splits prod.splits)

lemma ack_frame_keeps [keeps_intros]: "conn_ok h n quic \<Longrightarrow> keeps h n (QuicAckFrameBuild e quic pkt_type)"
proof -
  assume ok: "conn_ok h n quic"
  let ?node = "\<lparr>fn_type = QUIC_FRAME_TYPE_ACK, fn_arg = None, fn_larg = 0\<rparr> :: QuicFrameNode"
  have p: "frame_handler ! unat QUIC_FRAME_TYPE_ACK = fp (Some AckParser) (Some AckBuild)" by code_simp
  have "build_nodes e quic pkt sp [?node] = ((quic', pkt'), r) \<Longrightarrow> conn_ok h n quic'" for pkt sp quic' pkt' r
    using ok by (auto simp: p fp_def Let_def intro: ack_build_keeps split: sum.splits prod.splits if_splits)
  then have "QuicFrameBuild e quic pkt_type [?node] = (quic', r) \<Longrightarrow> conn_ok h n quic'" for quic' r
    using ok
    by (auto simp: QuicFrameBuild_def QuicFrameAddQueue_def QuicAddQueue_def Let_def simp del: build_nodes.simps
        split: sum.splits prod.splits if_splits)
  then show ?thesis
    using ok by (auto simp: QuicAckFrameBuild_def post_def bindS_def split: sum.splits prod.splits)
qed

text \<open>The parser of stream frames, the only one that adds a chunk.\<close>

lemma keeps_instance_Suc:
  assumes "conn_ok h n quic"
    and "\<And>quic' si. conn_ok h n quic' \<Longrightarrow> stream_at (q_stream quic') i = Inr si \<Longrightarrow> keeps h (Suc n) (f quic' si)"
  shows "keeps h (Suc n) (bindS (QuicStreamGetInstance quic i) f)"
  by (simp only: post_simps, rule get_instance_ok[OF assms(1)]) (use assms(2) in \<open>auto intro: conn_ok_mono\<close>)

lemma stream_tail_keeps:
  assumes ok: "conn_ok h n quic" and at: "stream_at (q_stream quic) i = Inr si" and n: "n + 2 < 2 ^ 32"
  shows "keeps h (Suc n) (bindS (quic, QuicStreamDataCreate e (q_bufs quic) h offset data len) (\<lambda>_ (sd, st).
       bindS (quic, QuicStreamDataAdd (quic\<lparr>q_bufs := st\<rparr>) sd si) (\<lambda>_ (quic4, si4).
         let quic5 = q_stream_upd quic4 i si4 in
         if si_notified si4 then (quic5, Inr p)
         else case QuicStreamMsgCreate e i QUIC_STREAM_MSG_TYPE_DATA_RECVED of
           Inl _ \<Rightarrow> (quic5, Inr p)
         | Inr msg \<Rightarrow>
             let quic6 = quic5\<lparr>q_stream := QuicStreamMsgAdd (q_stream quic5) msg\<rparr>
             in (q_stream_upd quic6 i (si4\<lparr>si_notified := True\<rparr>), Inr p))))"
proof -
  have ok': "conn_ok h (Suc n) quic" using ok by (rule conn_ok_mono) simp
  have msg: "stream_at (QuicStreamMsgAdd scf msg) i = stream_at scf i" for scf msg
    by (simp add: QuicStreamMsgAdd_def stream_at_def)
  have fin: "keeps h (Suc n) (let quic5 = q_stream_upd quic4 i si4 in
         if si_notified si4 then (quic5, Inr p)
         else case QuicStreamMsgCreate e i QUIC_STREAM_MSG_TYPE_DATA_RECVED of
           Inl _ \<Rightarrow> (quic5, Inr p)
         | Inr msg \<Rightarrow>
             let quic6 = quic5\<lparr>q_stream := QuicStreamMsgAdd (q_stream quic5) msg\<rparr>
             in (q_stream_upd quic6 i (si4\<lparr>si_notified := True\<rparr>), Inr p))"
    if "QuicStreamDataCreate e (q_bufs quic) h offset data len = Inr (sd, st)"
      and "QuicStreamDataAdd (quic\<lparr>q_bufs := st\<rparr>) sd si = Inr (quic4, si4)" for sd st quic4 si4
  proof -
    note d = data_add_ok[OF ok at n that]
    have "conn_ok h (Suc n) (q_stream_upd (q\<lparr>q_stream := QuicStreamMsgAdd (q_stream q) msg\<rparr>) i (si4\<lparr>si_notified := True\<rparr>))"
      if "q = q_stream_upd quic4 i si4" for q msg
      by (rule conn_ok_upd[where si = si4]) (use d that msg in simp_all)
    then show ?thesis using d(1) by (simp add: Let_def split: sum.splits)
  qed
  show ?thesis
    by (rule keeps_bind_pair[OF ok'], clarify, rule keeps_bind_pair[OF ok'], clarify, rule fin)
qed

lemma stream_parser_keeps:
  assumes ok: "conn_ok h n quic" and n: "n + 2 < 2 ^ 32"
  shows "keeps h (Suc n) (QuicFrameStreamParser e quic p type h)"
proof -
  have ok': "conn_ok h (Suc n) q" if "conn_ok h n q" for q :: "'a Quic" using that by (rule conn_ok_mono) simp
  have upd: "conn_ok h n (q_stream_upd q i si') \<and> stream_at (q_stream (q_stream_upd q i si')) i = Inr si'"
    if "conn_ok h n q" and "stream_at (q_stream q) i = Inr si" and "si_queue si' = si_queue si" for q :: "'a Quic" and i si si'
    using that by (blast intro: conn_ok_upd stream_at_upd)
  show ?thesis
    unfolding QuicFrameStreamParser_def
    apply (rule keeps_decode[OF ok'[OF ok]], rule post_split)
    apply (rule keeps_if_decode[OF ok'[OF ok]], rule post_split)
    apply (rule keeps_if_decode[OF ok'[OF ok]], rule post_split)
    apply (rule keeps_instance_Suc[OF ok])
    subgoal premises i for i p1 off p2 len p3 quic1 si
    proof (intro post_if post_let, goal_cases)
      case 1
      show ?case using i(1) by (intro keeps_pair ok')
    next
      case (2 si1 si2)
      have q: "si_queue si2 = si_queue si" by (simp add: 2)
      note u2 = upd[OF i q]
      show ?case
      proof (rule keeps_bind_pair2[OF ok'[OF conjunct1[OF u2]]], rule post_split, intro post_if post_let, goal_cases)
        case (1 x y si3 quic3)
        then have "si_queue si3 = si_queue si2" by simp
        from upd[OF conjunct1[OF u2] conjunct2[OF u2] this] show ?case using 1 by (intro keeps_pair ok') simp
      next
        case (2 x y si3 quic3)
        then have "si_queue si3 = si_queue si2" by simp
        from upd[OF conjunct1[OF u2] conjunct2[OF u2] this] show ?case using 2 n by (intro stream_tail_keeps) simp_all
      qed
    qed
    done
qed

text \<open>All parsers together.\<close>

lemma param_frame_keeps [keeps_intros]: "conn_ok h n quic \<Longrightarrow> keeps h n (param_frame quic p type)"
  by (auto simp: param_frame_def post_pair split: sum.splits)

lemma token_keeps: "conn_ok h n quic \<Longrightarrow> keeps h n (QuicFrameNewTokenParser e quic p)"
  unfolding QuicFrameNewTokenParser_def by (intro keeps_intros) (auto simp: post_pair split: prod.splits)

lemma retire_keeps: "conn_ok h n quic \<Longrightarrow> keeps h n (QuicFrameRetireConnIdParser quic p)"
  unfolding QuicFrameRetireConnIdParser_def by (intro keeps_intros) (auto split: sum.splits)

lemma crypto_keeps: "conn_ok h n quic \<Longrightarrow> keeps h n (QuicFrameCryptoParser e quic p)"
  unfolding QuicFrameCryptoParser_def
  by (intro keeps_intros) (auto split: prod.splits intro!: keeps_intros simp del: post_simps)

lemmas parser_defs = QuicFrameNewConnIdParser_def QuicFramePingParser_def QuicFrameAckParser_def
  QuicFrameResetStreamParser_def QuicFrameStopSendingParser_def QuicFrameMaxDataParser_def QuicFrameMaxStreamDataParser_def
  QuicFrameMaxStreamsBidiParser_def QuicFrameMaxStreamsUniParser_def QuicFrameDataBlockedParser_def
  QuicFrameStreamDataBlockedParser_def QuicFrameConnCloseParser_def QuicFrameHandshakeDoneParser_def

lemma other_parsers_keep:
  assumes "conn_ok h n quic" and "f \<notin> {StreamParser, CryptoParser, NewTokenParser, RetireConnIdParser}"
  shows "keeps h n (frame_parse e f quic p type sp buf)"
proof (cases f)
  case StreamParser
  then show ?thesis using assms(2) by simp
next
  case CryptoParser
  then show ?thesis using assms(2) by simp
next
  case NewTokenParser
  then show ?thesis using assms(2) by simp
next
  case RetireConnIdParser
  then show ?thesis using assms(2) by simp
qed (simp only: frame_parse.simps parser_defs, intro keeps_intros assms(1);
    auto intro!: conn_ok_upd stream_at_upd simp: assms(1) split: if_splits)+

lemma frame_parse_keeps:
  assumes "conn_ok h n quic" and "n + 2 < 2 ^ 32"
  shows "keeps h (Suc n) (frame_parse e f quic p type sp h)"
proof (cases "f = StreamParser")
  case True
  then show ?thesis using stream_parser_keeps[OF assms] by simp
next
  case False
  then have "keeps h n (frame_parse e f quic p type sp h)"
    using other_parsers_keep[OF assms(1), of f] token_keeps[OF assms(1)] retire_keeps[OF assms(1)] crypto_keeps[OF assms(1)]
    by (cases f) simp_all
  then show ?thesis by (rule keeps_mono) simp
qed

section \<open>The loop\<close>

text \<open>A packet of \<open>k\<close> bytes adds at most \<open>k\<close> chunks.\<close>

lemma frame_loop_keeps:
  assumes "conn_ok h n quic" and "n + rp_left pkt + 2 < 2 ^ 32"
  shows "keeps h (n + rp_left pkt) (frame_loop e sp h quic pkt c a)"
  using assms
proof (induction e sp h quic pkt c a arbitrary: n rule: frame_loop.induct)
  case (1 e sp h quic pkt c a)
  have ok: "conn_ok h (n + rp_left pkt) quic" using 1(3) by (rule conn_ok_mono) simp
  show ?case
  proof (cases "QuicVariableLengthDecode pkt")
    case (Inl err)
    then show ?thesis using ok by (subst frame_loop.simps) (simp add: post_pair)
  next
    case (Inr x)
    obtain type pkt1 where x: "x = (type, pkt1)" by (cases x)
    have left: "rp_left pkt1 < rp_left pkt" using Inr x rp_left_decode by blast
    let ?p = "frame_handler ! unat type"
    show ?thesis
    proof (cases "type \<ge> QUIC_FRAME_TYPE_MAX \<or> \<not> fp_skip ?p \<and> fp_parser ?p = None")
      case True
      then show ?thesis using ok Inr x by (subst frame_loop.simps) (auto simp: Let_def split: option.splits)
    next
      case False
      show ?thesis
      proof (cases "fp_skip ?p")
        case True
        have "keeps h (n + rp_left pkt1) (frame_loop e sp h quic pkt1 c a)"
          using 1(1)[OF Inr x[symmetric]] False True 1(3,4) left by simp
        then have "keeps h (n + rp_left pkt) (frame_loop e sp h quic pkt1 c a)" by (rule keeps_mono) (use left in simp)
        then show ?thesis using False True Inr x by (subst frame_loop.simps) (simp add: Let_def)
      next
        case ns: False
        then obtain f where f: "fp_parser ?p = Some f" using False by auto
        have k: "keeps h (Suc n) (frame_parse e f quic pkt1 type sp h)" using 1(3,4) by (intro frame_parse_keeps) simp_all
        show ?thesis
        proof (cases "frame_parse e f quic pkt1 type sp h")
          case (Pair quic1 r)
          show ?thesis
          proof (cases r)
            case (Inl err)
            have "conn_ok h (n + rp_left pkt) quic1"
              by (rule conn_ok_mono[of h "Suc n"]) (use k Pair Inl left in simp_all)
            then show ?thesis using False ns f Pair Inl \<open>QuicVariableLengthDecode pkt = Inr x\<close> x
              by (subst frame_loop.simps) (simp add: Let_def)
          next
            case (Inr pkt2)
            have l2: "rp_left pkt2 \<le> rp_left pkt1" using Pair Inr rp_left_parse by blast
            let ?r = "frame_loop e sp h quic1 pkt2 (c \<or> type = QUIC_FRAME_TYPE_CRYPTO) (a \<or> QUIC_FRAM_IS_ACK_ELICITING type)"
            have "keeps h (Suc n + rp_left pkt2) ?r"
              using 1(2)[OF \<open>QuicVariableLengthDecode pkt = Inr x\<close> x[symmetric] _ refl ns f Pair[symmetric] Inr, of "Suc n"]
                False Pair k Inr 1(4) left l2 by simp
            then have "keeps h (n + rp_left pkt) ?r" by (rule keeps_mono) (use left l2 in simp)
            then show ?thesis using False ns f Pair Inr \<open>QuicVariableLengthDecode pkt = Inr x\<close> x
              by (subst frame_loop.simps) (simp add: Let_def)
          qed
        qed
      qed
    qed
  qed
qed

text \<open>The frames of a packet in a buffer, the acknowledgement they ask for, and the engine.\<close>

lemma do_parser_keeps:
  assumes "conn_ok buf n quic" and "n + length (rp_buf pkt) + 2 < 2 ^ 32" and "0 \<le> rp_curr pkt"
    and tls: "\<And>quic m. conn_ok buf m quic \<Longrightarrow> conn_ok buf m (fst (tls quic))"
  shows "keeps buf (n + length (rp_buf pkt)) (QuicFrameDoParser e tls quic pkt sp pkt_type buf)"
proof -
  let ?m = "n + length (rp_buf pkt)"
  have l: "rp_left pkt \<le> length (rp_buf pkt)" using assms(3) by (simp add: rp_left_def)
  have "keeps buf (n + rp_left pkt) (frame_loop e sp buf quic pkt False False)"
    using assms(1,2) l by (intro frame_loop_keeps) simp_all
  then have loop: "keeps buf ?m (frame_loop e sp buf quic pkt False False)" by (rule keeps_mono) (use l in simp)
  have ack: "keeps buf ?m (quiet (QuicAckFrameBuild e q pkt_type))" if "conn_ok buf ?m q" for q :: "'a Quic"
    using ack_frame_keeps[OF that, of e pkt_type] by (auto simp: quiet_def post_def split: prod.splits sum.splits)
  have eng: "keeps buf ?m (tls q)" if "conn_ok buf ?m q" for q
    using tls[OF that] by (auto simp: post_def split: prod.splits sum.splits)
  show ?thesis
    unfolding QuicFrameDoParser_def
    by (rule keeps_bind[OF loop]) (auto intro!: keeps_bind ack eng keeps_intros simp del: post_simps split: prod.splits)
qed

text \<open>C2: parsing the frames of a packet keeps the table of streams and the reference counts right, whatever the
  packet holds and whether the parser succeeds: afterwards a buffer is in the store exactly when a chunk or the
  parser refers to it, with the exact count, so no stream is left with data in a freed buffer and no buffer
  leaks. The TLS engine is only assumed to keep this too; the bound is that of the 32-bit counters.\<close>

theorem parse_keeps_buffers:
  assumes "conn_ok buf n quic" and "n + length (rp_buf pkt) + 2 < 2 ^ 32" and "0 \<le> rp_curr pkt"
    and tls: "\<And>quic m. conn_ok buf m quic \<Longrightarrow> conn_ok buf m (fst (tls quic))"
  shows "conn_ok buf (n + length (rp_buf pkt)) (fst (QuicFrameDoParser e tls quic pkt sp pkt_type buf))"
  using do_parser_keeps[where tls = tls and e = e and sp = sp and pkt_type = pkt_type, OF assms]
  by (simp add: post_def split: prod.splits sum.splits)

text \<open>A connection with two streams that receives 10 bytes, a stream frame for the first of them, in buffer 0.\<close>

definition demo_receiver :: "demo_ctx Quic" where
  "demo_receiver = (sample_quic (demo_crypto 0))
     \<lparr>q_stream := (q_stream demo_quic)\<lparr>scf_stream := Some [si_zero, si_zero], scf_max_id_value := 2\<rparr>,
      q_bufs := [0 \<mapsto> \<lparr>db_ref = 1, db_data_len = 0, db_buf = \<lparr>qd_data = Some (replicate 10 0), qd_len = 10\<rparr>\<rparr>]\<rparr>"

theorem parse_keeps_buffers_witness:
  "conn_ok (Some 0) 6 (fst (QuicFrameDoParser env0 (\<lambda>quic. (quic, Inr ())) demo_receiver
     (RPacketBufInit [0x0a, 0, 3, 7, 8, 9] 0 6) CrApplication QUIC_PKT_TYPE_1RTT (Some 0)))"
proof -
  have "conn_ok (Some 0) 0 demo_receiver"
    by (auto simp: conn_ok_def refs_exact_def ref_count_def chunks_def conf_wf_def demo_receiver_def si_zero_def)
  moreover have "length (rp_buf (RPacketBufInit [0x0a, 0, 3, 7, 8, 9] 0 6)) = 6"
    and "0 \<le> rp_curr (RPacketBufInit [0x0a, 0, 3, 7, 8, 9] 0 6)"
    by (simp_all add: RPacketBufInit_def RPacketHeadSync_def)
  ultimately show ?thesis
    using parse_keeps_buffers[of "Some 0" 0 demo_receiver "RPacketBufInit [0x0a, 0, 3, 7, 8, 9] 0 6" "\<lambda>quic. (quic, Inr ())"] by simp
qed

end
