(* ===== verification/Pkt_Parse.thy ===== *)
theory Pkt_Parse
  imports Frame_Parse Key_Derive
begin

text \<open>
  Parsing packets (\<^verbatim>\<open>quic/format.c\<close>): long and short headers with the identifiers in them, the length field
  and the opening of Initial, Handshake and 1-RTT packets, whose frames then go to the frame parser. Arguments
  are the ciphers \<open>ev\<close> and key set-up \<open>ek\<close> of OpenSSL and the TLS engine \<open>tls\<close>. A server makes its Initial
  keys while it parses the identifier of the client, so the header parsers may not return (\<open>None\<close>) as
  the key derivation may not. The memory a packet points into is what its pointer leaves of the read buffer.
\<close>

definition QUIC_MAX_CID_LENGTH :: u32 where "QUIC_MAX_CID_LENGTH = 20"
definition QUIC_MIN_CID_LENGTH :: u32 where "QUIC_MIN_CID_LENGTH = 8"

definition ptr_at :: "RPacket \<Rightarrow> int \<Rightarrow> bytes option" where
  "ptr_at pkt p = Some (drop (nat p) (rp_buf pkt))"

section \<open>Identifiers\<close>

definition QuicCidCmp :: "QuicCidPool \<Rightarrow> QUIC_DATA \<Rightarrow> bytes option \<Rightarrow> u64 \<Rightarrow> unit res" where
  "QuicCidCmp p cid data len =
     bindR (if qd_len cid = len then QuicMemCmp (qd_data cid) data (unat len) else Inr False) (\<lambda>eq.
       if eq then Inr () else QuicCidMatch p data len)"

text \<open>The value is what the code returns: 1 says that the identifier is still to be taken from the packet.\<close>

definition QuicClntParseScid :: "'c Quic \<Rightarrow> RPacket \<Rightarrow> u64 \<Rightarrow> (int \<times> RPacket) res" where
  "QuicClntParseScid quic pkt len =
     (if QuicDataIsEmpty (q_dcid quic) then Inl Fail
      else if \<not> q_dcid_inited quic then Inr (1, pkt)
      else if qd_len (q_dcid quic) = len \<and> len = 0 then Inr (0, pkt)
      else bindR (RPacketGetBytes pkt len) (\<lambda>(data, pkt1).
           bindR (QuicCidCmp (conn_dcid (q_conn quic)) (q_dcid quic) (ptr_at pkt data) len) (\<lambda>_. Inr (0, pkt1))))"

definition QuicClntParseDcid :: "'c Quic \<Rightarrow> RPacket \<Rightarrow> u64 \<Rightarrow> RPacket res" where
  "QuicClntParseDcid quic pkt len =
     bindR (RPacketGetBytes pkt len) (\<lambda>(data, pkt1).
     bindR (QuicCidCmp (conn_scid (q_conn quic)) (q_scid quic) (ptr_at pkt data) len) (\<lambda>_. Inr pkt1))"

definition QuicSrvrParseScid :: "env \<Rightarrow> 'c Quic \<Rightarrow> RPacket \<Rightarrow> u64 \<Rightarrow> 'c Quic \<times> (int \<times> RPacket) res" where
  "QuicSrvrParseScid e quic pkt len =
     (case RPacketGetBytes pkt len of
        Inl err \<Rightarrow> (quic, Inl err)
      | Inr (data, pkt1) \<Rightarrow>
          if \<not> q_dcid_inited quic then
            (if len = 0 then (quic\<lparr>q_dcid_inited := True\<rparr>, Inr (0, pkt1))
             else case PRacketMemDup e (RPacketBufInit (rp_buf pkt) data len) of
               Inl err \<Rightarrow> (quic\<lparr>q_dcid := qd_empty\<rparr>, Inl err)
             | Inr d \<Rightarrow> (quic\<lparr>q_dcid := \<lparr>qd_data = d, qd_len = len\<rparr>, q_dcid_inited := True\<rparr>, Inr (0, pkt1)))
          else if qd_len (q_dcid quic) = len \<and> len = 0 then (quic, Inr (0, pkt1))
          else (quic, bindR (QuicCidCmp (conn_dcid (q_conn quic)) (q_dcid quic) (ptr_at pkt data) len) (\<lambda>_. Inr (0, pkt1))))"

text \<open>The first packet of a client fixes the Initial keys and the server's own identifier.\<close>

definition QuicSrvrParseDcid ::
    "env \<Rightarrow> 'c evp_keys \<Rightarrow> 'c Quic \<Rightarrow> RPacket \<Rightarrow> u64 \<Rightarrow> ('c Quic \<times> RPacket res) option" where
  "QuicSrvrParseDcid e ek quic pkt len =
     (case RPacketGetBytes pkt len of
        Inl err \<Rightarrow> Some (quic, Inl err)
      | Inr (data, pkt1) \<Rightarrow>
          bindSO (QuicCreateInitialDecoders e ek quic (q_version quic) \<lparr>qd_data = ptr_at pkt data, qd_len = len\<rparr>) (\<lambda>quic1 _.
            Some (if q_cid_len quic1 = 0 then
                    (if q_scid_inited quic1
                     then (quic1, if len \<noteq> 0 then Inl Fail else Inr pkt1)
                     else (quic1\<lparr>q_scid_inited := True\<rparr>, Inr pkt1))
                  else if \<not> q_scid_inited quic1 then
                    (let (scid, r) = (if len = ucast (q_cid_len quic1)
                        then QuicDataCopy e (q_scid quic1) (ptr_at pkt data) len
                        else QuicCidGen e 0 (q_scid quic1) (ucast (q_cid_len quic1)))
                     in bindS (quic1\<lparr>q_scid := scid\<rparr>, r) (\<lambda>quic2 _. (quic2\<lparr>q_scid_inited := True\<rparr>, Inr pkt1)))
                  else (quic1, bindR (QuicCidCmp (conn_scid (q_conn quic1)) (q_scid quic1) (ptr_at pkt data) len) (\<lambda>_. Inr pkt1)))))"

text \<open>The two functions of the method, which is the client's or the server's.\<close>

definition parse_dcid :: "env \<Rightarrow> 'c evp_keys \<Rightarrow> 'c Quic \<Rightarrow> RPacket \<Rightarrow> u64 \<Rightarrow> ('c Quic \<times> RPacket res) option" where
  "parse_dcid e ek quic pkt len =
     (if q_server quic then QuicSrvrParseDcid e ek quic pkt len else Some (quic, QuicClntParseDcid quic pkt len))"

definition parse_scid :: "env \<Rightarrow> 'c Quic \<Rightarrow> RPacket \<Rightarrow> u64 \<Rightarrow> 'c Quic \<times> (int \<times> RPacket) res" where
  "parse_scid e quic pkt len =
     (if q_server quic then QuicSrvrParseScid e quic pkt len else (quic, QuicClntParseScid quic pkt len))"

section \<open>Headers\<close>

definition QuicVersionSelect :: "'c Quic \<Rightarrow> u32 \<Rightarrow> unit res" where
  "QuicVersionSelect quic version = Inl Fail"

text \<open>The result says which new destination identifier there is, a pointer into the packet.\<close>

definition QuicLPacketHeaderParse ::
    "env \<Rightarrow> 'c evp_keys \<Rightarrow> 'c Quic \<Rightarrow> RPacket \<Rightarrow> ('c Quic \<times> (RPacket \<times> QUIC_DATA option) res) option" where
  "QuicLPacketHeaderParse e ek quic pkt =
     bindSO (Some (quic, RPacketGet4 pkt)) (\<lambda>_ (version, pkt1).
     bindSO (Some (quic, RPacketGet1 pkt1)) (\<lambda>_ (len, pkt2).
       if version \<noteq> q_version quic \<and> QuicVersionSelect quic version \<noteq> Inr () then Some (quic, Inl Fail)
       else if version = QUIC_VERSION_1 \<and> len > QUIC_MAX_CID_LENGTH then Some (quic, Inl Fail)
       else if len > 0 \<and> len < QUIC_MIN_CID_LENGTH then Some (quic, Inl Fail)
       else bindSO (parse_dcid e ek quic pkt2 (ucast len)) (\<lambda>quic1 pkt3.
            bindSO (Some (quic1, RPacketGet1 pkt3)) (\<lambda>_ (slen, pkt4).
            bindSO (Some (parse_scid e quic1 pkt4 (ucast slen))) (\<lambda>quic2 (ret, pkt5).
              if ret = 1
              then Some (quic2, bindR (RPacketGetBytes pkt5 (ucast slen)) (\<lambda>(data, pkt6).
                     Inr (pkt6, Some \<lparr>qd_data = ptr_at pkt5 data, qd_len = ucast slen\<rparr>)))
              else Some (quic2, Inr (pkt5, None)))))))"

definition QuicUpdateDcid :: "env \<Rightarrow> 'c Quic \<Rightarrow> QUIC_DATA \<Rightarrow> u32 \<Rightarrow> 'c Quic \<times> unit res" where
  "QuicUpdateDcid e quic new_dcid pkt_type =
     (case QuicDataDup e (q_dcid quic) new_dcid of
        (d, Inl err) \<Rightarrow> (quic\<lparr>q_dcid := d\<rparr>, Inl err)
      | (d, Inr _) \<Rightarrow>
          let quic1 = quic\<lparr>q_dcid := d\<rparr>
          in (if pkt_type = QUIC_PKT_TYPE_INITIAL then quic1\<lparr>q_dcid_inited := True\<rparr> else quic1, Inr ()))"

definition QuicSPacketDcidParse :: "'c Quic \<Rightarrow> RPacket \<Rightarrow> RPacket res" where
  "QuicSPacketDcidParse quic pkt =
     (let len = ucast (ucast (qd_len (q_scid quic)) :: u32) :: u64 in
      if len = 0 then Inr pkt
      else bindR (RPacketGetBytes pkt len) (\<lambda>(data, pkt1).
           bindR (QuicMemCmp (qd_data (q_scid quic)) (ptr_at pkt data) (unat len)) (\<lambda>eq.
             if eq then Inr pkt1
             else bindR (QuicCidMatch (conn_scid (q_conn quic)) (ptr_at pkt data) len) (\<lambda>_. Inr pkt1))))"

definition QuicSPacketHeaderParse :: "'c Quic \<Rightarrow> RPacket \<Rightarrow> RPacket res" where
  "QuicSPacketHeaderParse quic pkt = QuicSPacketDcidParse quic pkt"

definition QuicPacketTypeMap :: "u32 list" where
  "QuicPacketTypeMap = [QUIC_PKT_TYPE_INITIAL, QUIC_PKT_TYPE_0RTT, QUIC_PKT_TYPE_HANDSHAKE, QUIC_PKT_TYPE_RETRY]"

definition QUIC_PACKET_IS_LONG_PACKET :: "u8 \<Rightarrow> bool" where
  "QUIC_PACKET_IS_LONG_PACKET flags \<longleftrightarrow> flags_header_form flags \<noteq> 0"

definition QuicPktHeaderParse ::
    "env \<Rightarrow> 'c evp_keys \<Rightarrow> 'c Quic \<Rightarrow> RPacket \<Rightarrow> u8 \<Rightarrow> ('c Quic \<times> (RPacket \<times> u32 \<times> QUIC_DATA option) res) option" where
  "QuicPktHeaderParse e ek quic pkt flags =
     (if QUIC_PACKET_IS_LONG_PACKET flags
      then bindSO (QuicLPacketHeaderParse e ek quic pkt) (\<lambda>quic1 (pkt1, new_dcid).
             Some (quic1, Inr (pkt1, QuicPacketTypeMap ! unat (flags_lpacket_type flags), new_dcid)))
      else Some (quic, bindR (QuicSPacketHeaderParse quic pkt) (\<lambda>pkt1. Inr (pkt1, QUIC_PKT_TYPE_1RTT, None))))"

definition QuicGetPktFlags :: "RPacket \<Rightarrow> (u8 \<times> RPacket) res" where
  "QuicGetPktFlags pkt = bindR (RPacketGet1 pkt) (\<lambda>(flag, pkt1). Inr (ucast flag, pkt1))"

text \<open>The identifier of a short packet, for a connection that is still to be found.\<close>

definition QuicGetDcidFromPkt :: "u64 \<Rightarrow> bytes \<Rightarrow> u64 \<Rightarrow> QUIC_DATA res" where
  "QuicGetDcidFromPkt dcid_len data len =
     bindR (QuicGetPktFlags (RPacketBufInit data 0 len)) (\<lambda>(flags, pkt).
       if QUIC_PACKET_IS_LONG_PACKET flags then Inl Fail
       else bindR (RPacketGetBytes pkt dcid_len) (\<lambda>(start, _). Inr \<lparr>qd_data = ptr_at pkt start, qd_len = dcid_len\<rparr>))"

section \<open>Bodies\<close>

text \<open>The message of one packet and what follows it. The message starts at its packet number, with the header
  before it as the head, which the opening of the packet needs as associated data.\<close>

definition QuicLengthParse :: "RPacket \<Rightarrow> (RPacket \<times> RPacket) res" where
  "QuicLengthParse pkt =
     bindR (QuicVariableLengthDecode pkt) (\<lambda>(length, pkt1).
       let remaining = RPacketRemaining pkt1 in
       if QUIC_GT length remaining then Inl Fail
       else
         let offset = ucast (RPacketTotalLen pkt1 - remaining) :: u32 in
         bindR (assertR (0 \<le> sint offset)) (\<lambda>_.
           Inr (RPacketHeadPush (RPacketBufInit (rp_buf pkt1) (RPacketData pkt1) length) (scast offset), RPacketForward pkt1 length)))"

definition QuicFrameParse ::
    "env \<Rightarrow> ('c Quic \<Rightarrow> 'c Quic \<times> unit res) \<Rightarrow> 'c Quic \<Rightarrow> bytes \<Rightarrow> u64 \<Rightarrow> crypto_space \<Rightarrow> u32 \<Rightarrow> nat option \<Rightarrow> 'c Quic \<times> unit res" where
  "QuicFrameParse e tls quic data len sp pkt_type buf = QuicFrameDoParser e tls quic (RPacketBufInit data 0 len) sp pkt_type buf"

text \<open>Opening the message of a space into a buffer, which holds \<open>m\<close>.\<close>

definition open_packet ::
    "env \<Rightarrow> 'c evp \<Rightarrow> 'c Quic \<Rightarrow> crypto_space \<Rightarrow> RPacket \<Rightarrow> bytes \<Rightarrow> u64 \<Rightarrow> u8 \<Rightarrow> 'c Quic \<times> (RPacket \<times> bytes \<times> u64) res" where
  "open_packet e ev quic sp msg m buf_size bit_mask =
     bindS (quic, crypto_at quic sp) (\<lambda>_ c.
       case QuicDecryptPacket e ev c msg m 0 buf_size bit_mask of (c', r) \<Rightarrow> (crypto_upd quic sp c', r))"

text \<open>The header byte and the packet number are unmasked in the read buffer, which the message shares with the
  packets after it. The plaintext buffer is a static one of the thread, that holds what was there before.\<close>

definition QuicInitPacketParse ::
    "env \<Rightarrow> 'c evp \<Rightarrow> ('c Quic \<Rightarrow> 'c Quic \<times> unit res) \<Rightarrow> 'c Quic \<Rightarrow> RPacket \<Rightarrow> crypto_space \<Rightarrow> 'c Quic \<times> RPacket res" where
  "QuicInitPacketParse e ev tls quic pkt sp =
     bindS (decode quic pkt) (\<lambda>_ (token_len, pkt1).
     bindS (quic, QuicTokenVerify (q_token quic) (rp_buf pkt1) (RPacketData pkt1) token_len) (\<lambda>_ _.
     bindS (quic, QuicLengthParse (RPacketForward pkt1 token_len)) (\<lambda>_ (msg, pkt2).
     bindS (open_packet e ev quic sp msg (fresh_mem e QUIC_BUF_MAX_LEN) (of_nat QUIC_BUF_MAX_LEN) QUIC_LPACKET_TYPE_RESV_MASK)
       (\<lambda>quic1 (msg1, data, len).
     bindS (QuicFrameParse e tls quic1 data len sp QUIC_PKT_TYPE_INITIAL None) (\<lambda>quic2 _.
       (quic2, Inr (pkt2\<lparr>rp_buf := rp_buf msg1\<rparr>)))))))"

definition QuicHandshakePacketParse ::
    "env \<Rightarrow> 'c evp \<Rightarrow> ('c Quic \<Rightarrow> 'c Quic \<times> unit res) \<Rightarrow> 'c Quic \<Rightarrow> RPacket \<Rightarrow> crypto_space \<Rightarrow> 'c Quic \<times> RPacket res" where
  "QuicHandshakePacketParse e ev tls quic pkt sp =
     bindS (quic, QuicLengthParse pkt) (\<lambda>_ (msg, pkt2).
     bindS (open_packet e ev quic sp msg (fresh_mem e QUIC_BUF_MAX_LEN) (of_nat QUIC_BUF_MAX_LEN) QUIC_LPACKET_TYPE_RESV_MASK)
       (\<lambda>quic1 (msg1, data, len).
     bindS (QuicFrameParse e tls quic1 data len sp QUIC_PKT_TYPE_HANDSHAKE None) (\<lambda>quic2 _.
       (quic2, Inr (pkt2\<lparr>rp_buf := rp_buf msg1\<rparr>)))))"

text \<open>A 1-RTT packet is opened into a buffer of its own, which stream data keeps pointing into. Whatever happens,
  the parser gives its reference back.\<close>

definition buf_release :: "nat \<Rightarrow> 'c Quic \<times> 'a res \<Rightarrow> 'c Quic \<times> 'a res" where
  "buf_release b r = (case r of (quic, x) \<Rightarrow>
     (case store_free (q_bufs quic) b of
        Inl err \<Rightarrow> (quic, Inl err)
      | Inr st \<Rightarrow> (quic\<lparr>q_bufs := st\<rparr>, x)))"

definition QuicOneRttParse ::
    "env \<Rightarrow> 'c evp \<Rightarrow> ('c Quic \<Rightarrow> 'c Quic \<times> unit res) \<Rightarrow> 'c Quic \<Rightarrow> RPacket \<Rightarrow> crypto_space \<Rightarrow> 'c Quic \<times> RPacket res" where
  "QuicOneRttParse e ev tls quic pkt sp =
     bindS (quic, QuicDataBufCreate e (ucast (q_mss quic))) (\<lambda>_ x.
     let b = q_next_buf quic; m = the (qd_data (db_buf x));
         quic1 = quic\<lparr>q_bufs := (q_bufs quic)(b \<mapsto> x), q_next_buf := Suc b\<rparr> in
     buf_release b
       (bindS (open_packet e ev quic1 sp pkt m (qd_len (db_buf x)) QUIC_SPACKET_TYPE_RESV_MASK) (\<lambda>quic2 (pkt1, data, len).
          let quic3 = quic2\<lparr>q_bufs := (q_bufs quic2)(b \<mapsto> x\<lparr>db_buf := (db_buf x)\<lparr>qd_data := Some data\<rparr>\<rparr>)\<rparr>;
              pkt2 = RPacketForward pkt1 (RPacketRemaining pkt1) in
          bindS (QuicFrameParse e tls quic3 data len sp QUIC_PKT_TYPE_1RTT (Some b)) (\<lambda>quic4 _. (quic4, Inr pkt2)))))"

definition Quic0RttPacketParse :: "'c Quic \<Rightarrow> RPacket \<Rightarrow> 'c Quic \<times> RPacket res" where
  "Quic0RttPacketParse quic pkt = (quic, Inr pkt)"

definition QuicRetryPacketParse :: "'c Quic \<Rightarrow> RPacket \<Rightarrow> 'c Quic \<times> RPacket res" where
  "QuicRetryPacketParse quic pkt = (quic, Inr pkt)"

text \<open>The parser of each packet type.\<close>

datatype pkt_parser = InitParser | ZeroRttParser | HandshakePktParser | RetryParser | OneRttParser

definition QuicPacketsParser :: "pkt_parser list" where
  "QuicPacketsParser = [InitParser, ZeroRttParser, HandshakePktParser, RetryParser, OneRttParser]"

fun pkt_parse ::
    "env \<Rightarrow> 'c evp \<Rightarrow> ('c Quic \<Rightarrow> 'c Quic \<times> unit res) \<Rightarrow> pkt_parser \<Rightarrow> 'c Quic \<Rightarrow> RPacket \<Rightarrow> crypto_space \<Rightarrow> 'c Quic \<times> RPacket res" where
  "pkt_parse e ev tls InitParser quic pkt sp = QuicInitPacketParse e ev tls quic pkt sp"
| "pkt_parse e ev tls ZeroRttParser quic pkt sp = Quic0RttPacketParse quic pkt"
| "pkt_parse e ev tls HandshakePktParser quic pkt sp = QuicHandshakePacketParse e ev tls quic pkt sp"
| "pkt_parse e ev tls RetryParser quic pkt sp = QuicRetryPacketParse quic pkt"
| "pkt_parse e ev tls OneRttParser quic pkt sp = QuicOneRttParse e ev tls quic pkt sp"

definition QuicPktBodyParse ::
    "env \<Rightarrow> 'c evp \<Rightarrow> ('c Quic \<Rightarrow> 'c Quic \<times> unit res) \<Rightarrow> 'c Quic \<Rightarrow> RPacket \<Rightarrow> u32 \<Rightarrow> 'c Quic \<times> RPacket res" where
  "QuicPktBodyParse e ev tls quic pkt type =
     (if QUIC_GE type QUIC_PKT_TYPE_MAX then (quic, Inl Fail)
      else bindS (quic, QuicCryptoGet type) (\<lambda>_ sp. pkt_parse e ev tls (QuicPacketsParser ! unat type) quic pkt sp))"

end
