(* ===== verification/Send.thy ===== *)
theory Send
  imports Frame_Build Pkt_Protect State_Rules
begin

text \<open>
  Sending (\<^verbatim>\<open>quic/core.c\<close>, \<^verbatim>\<open>quic/quic_lib.c\<close>, \<^verbatim>\<open>quic/datagram.c\<close> and the send side of the flow control of
  \<^verbatim>\<open>quic/stream.c\<close>): the buffers of the transmit queue become packets of a datagram and go to the sent queue
  of their space, and the datagram to the socket. The BIO objects of OpenSSL are an argument: what reading and
  writing does to the world \<open>w\<close> outside the program, and \<open>None\<close> for one that is not set.
\<close>

section \<open>Datagrams\<close>

record 'w bio =
  bio_read :: "'w \<Rightarrow> nat \<Rightarrow> 'w \<times> bytes option"
  bio_write :: "'w \<Rightarrow> bytes \<Rightarrow> 'w \<times> int"

record 'w quic_bio =
  q_rbio :: "'w bio option"
  q_wbio :: "'w bio option"

text \<open>The result is the memory of the buffer and how much of it was read.\<close>

definition QuicDatagramRecv ::
    "'w quic_bio \<Rightarrow> 'c Quic \<Rightarrow> 'w \<Rightarrow> bytes \<Rightarrow> ('c Quic \<times> 'w) \<times> (bytes \<times> nat) res" where
  "QuicDatagramRecv bio quic w buf =
     (case q_rbio bio of
        None \<Rightarrow> ((quic\<lparr>q_rwstate := QUIC_NOTHING\<rparr>, w), Inl Fail)
      | Some b \<Rightarrow>
          (case bio_read b w (length buf) of
             (w1, None) \<Rightarrow> ((quic\<lparr>q_rwstate := QUIC_READING\<rparr>, w1), Inl Fail)
           | (w1, Some d) \<Rightarrow>
               ((quic\<lparr>q_rwstate := QUIC_FINISHED\<rparr>, w1), bindR (mem_copy buf 0 d) (\<lambda>m. Inr (m, length d)))))"

definition QuicDatagramSendBytes :: "'w quic_bio \<Rightarrow> 'w \<Rightarrow> bytes \<Rightarrow> 'w \<times> unit res" where
  "QuicDatagramSendBytes bio w data =
     (if data = [] then (w, Inr ())
      else case q_wbio bio of
        None \<Rightarrow> (w, Inl Fail)
      | Some b \<Rightarrow>
          (case bio_write b w data of (w1, write_bytes) \<Rightarrow>
             (w1, if write_bytes < 0 \<or> write_bytes < int (length data) then Inl Fail else Inr ())))"

section \<open>Flow control\<close>

definition QuicStreamSendFlowCtrl :: "env \<Rightarrow> 'c Quic \<Rightarrow> u64 \<Rightarrow> u64 \<Rightarrow> u32 \<Rightarrow> 'c Quic \<times> unit res" where
  "QuicStreamSendFlowCtrl e quic i len pkt_type =
     (if len = 0 then (quic, Inr ())
      else case QuicStreamGetInstance quic i of
        (quic1, Inl err) \<Rightarrow> (quic1, if err = Fail then Inr () else Inl err)
      | (quic1, Inr si) \<Rightarrow>
          let stream_send = stat_sent (si_stat_bytes si) + len in
          if QUIC_GT stream_send (si_max_stream_data si)
          then bindS (QuicStreamDataBlockedFrameBuild e quic1 i pkt_type) (\<lambda>quic2 _. (quic2, Inl Fail))
          else
            let scf = q_stream quic1; total_send = stat_sent (scf_stat_all scf) + len in
            if QUIC_GT total_send (initial_max_data (q_peer_param quic1))
            then bindS (QuicDataBlockedFrameBuild e quic1 i pkt_type) (\<lambda>quic2 _. (quic2, Inl Fail))
            else
              let scf1 = stream_upd scf i (si\<lparr>si_stat_bytes := (si_stat_bytes si)\<lparr>stat_sent := stream_send\<rparr>\<rparr>) in
              (quic1\<lparr>q_stream := scf1\<lparr>scf_stat_all := (scf_stat_all scf1)\<lparr>stat_sent := total_send\<rparr>\<rparr>\<rparr>, Inr ()))"

section \<open>One datagram\<close>

text \<open>The loop of \<^verbatim>\<open>QuicWritePkt\<close> over the buffers that were in the queue when it started, whose last one is its tail.
  The buffer of a packet that could not be built stays at the head of the queue as it is by then.\<close>

fun write_loop ::
    "env \<Rightarrow> 'c evp \<Rightarrow> QBUFF list \<Rightarrow> 'c Quic \<Rightarrow> WPacket \<Rightarrow> bool \<Rightarrow> bool \<Rightarrow> 'c Quic \<times> WPacket res" where
  "write_loop e ev [] quic pkt fin short_header = (quic, Inr pkt)"
| "write_loop e ev (qb # next_qbs) quic pkt fin short_header =
     (if fin \<or> short_header then (quic, Inr pkt)
      else
        bindS (quic, case next_qbs of
            [] \<Rightarrow> Inr True
          | next_qb # _ \<Rightarrow>
              bindR (QBufPktComputeTotalLen quic qb) (\<lambda>l1. bindR (QBufPktComputeTotalLen quic next_qb) (\<lambda>l2.
                Inr (QUIC_GT (l1 + l2) (scast (WPacket_get_space pkt)))))) (\<lambda>_ fin'.
        bindS (QuicStreamSendFlowCtrl e quic (qb_stream_id qb) (qb_stream_len qb) (qb_pkt_type qb)) (\<lambda>quic1 _.
        case QBuffBuildPkt e ev quic1 pkt qb fin' of
          ((quic2, pkt1, qb1), Inl err) \<Rightarrow> (quic2\<lparr>q_tx_queue := qb1 # tl (q_tx_queue quic2)\<rparr>, Inl err)
        | ((quic2, pkt1, qb1), Inr _) \<Rightarrow>
            let quic3 = quic2\<lparr>q_tx_queue := qb1 # tl (q_tx_queue quic2)\<rparr> in
            bindS (quic3, case QBuffGetCrypto qb1 of Inl Fail \<Rightarrow> Inl Abort | r \<Rightarrow> r) (\<lambda>_ sp.
            bindS (quic3, crypto_at quic3 sp) (\<lambda>_ c.
              let quic4 = quic3\<lparr>q_tx_queue := QBuffQueueUnlink (q_tx_queue quic3) qb1\<rparr>;
                  quic5 = crypto_upd quic4 sp (c\<lparr>qy_sent_queue := QBuffQueueAdd (qy_sent_queue c) qb1\<rparr>) in
              write_loop e ev next_qbs quic5 pkt1 fin' (qb_pkt_type qb1 = QUIC_PKT_TYPE_1RTT))))))"

text \<open>The result is what the send buffer has up to its length.\<close>

definition QuicWritePkt :: "env \<Rightarrow> 'c evp \<Rightarrow> 'c Quic \<Rightarrow> 'c Quic \<times> bytes res" where
  "QuicWritePkt e ev quic =
     bindS (write_loop e ev (q_tx_queue quic) quic
              (WPacketStaticBufInit (fresh_mem e QUIC_BUF_MAX_LEN) (ucast (q_mss quic))) False False)
       (\<lambda>quic1 pkt. (quic1, Inr (take (unat (WPacket_get_written pkt)) (wp_data pkt))))"

section \<open>What building a packet changes\<close>

text \<open>Building takes the next packet number of its space for the buffer, and changes nothing else but the ciphers
  and the padding.\<close>

definition qb_key :: "QBUFF \<Rightarrow> u64 \<times> u64 \<times> u32 \<times> u64" where
  "qb_key qb = (qb_flags qb, qb_stream_id qb, qb_pkt_type qb, qb_stream_len qb)"

definition numbered :: "crypto_space \<Rightarrow> 'c Quic \<Rightarrow> 'c Quic \<Rightarrow> QBUFF \<Rightarrow> bool" where
  "numbered sp quic quic' qb \<longleftrightarrow> (\<exists>c c'. crypto_at quic sp = Inr c \<and> quic' = crypto_upd quic sp c'
     \<and> qy_sent_queue c' = qy_sent_queue c \<and> qy_pkt_num c' = qy_pkt_num c + 1 \<and> qb_pkt_num qb = qy_pkt_num c')"

lemma padding_key: "QuicFrameBufferAddPadding e n qb = (qb', r) \<Longrightarrow> qb_key qb' = qb_key qb"
  by (auto simp: QuicFrameBufferAddPadding_def QBuffAddDataLen_def QBuffSetDataLen_def Let_def qb_key_def
      split: sum.splits prod.splits if_splits)

lemma packet_build_rest:
  "QuicPacketBuild e ev quic sp first_byte n pkt qb bits = ((quic', pkt', qb'), x) \<Longrightarrow>
     qb_key qb' = qb_key qb \<and> (numbered sp quic quic' qb' \<or> quic' = quic \<and> x \<noteq> Inr ())"
  by (auto simp: QuicPacketBuild_def Let_def qb_key_def numbered_def bindR_eq_Inr split: sum.splits prod.splits if_splits)

lemma lpacket_build_rest:
  "QuicLPacketBuild e ev quic sp type pkt qb fin = ((quic', pkt', qb'), x) \<Longrightarrow>
     qb_key qb' = qb_key qb \<and> (numbered sp quic quic' qb' \<or> quic' = quic \<and> x \<noteq> Inr ())"
  by (auto simp: QuicLPacketBuild_def Let_def split: sum.splits prod.splits if_splits
      dest!: packet_build_rest padding_key)

lemma spacket_build_rest:
  "QuicSPacketBuild e ev quic sp pkt qb fin = ((quic', pkt', qb'), x) \<Longrightarrow>
     qb_key qb' = qb_key qb \<and> (numbered sp quic quic' qb' \<or> quic' = quic \<and> x \<noteq> Inr ())"
  by (auto simp: QuicSPacketBuild_def Let_def split: sum.splits prod.splits dest!: packet_build_rest)

lemma build_pkt_rest:
  "QBuffBuildPkt e ev quic pkt qb fin = ((quic', pkt', qb'), x) \<Longrightarrow>
     qb_key qb' = qb_key qb \<and>
     ((\<exists>sp. QBuffGetCrypto qb = Inr sp \<and> numbered sp quic quic' qb') \<or> quic' = quic \<and> x \<noteq> Inr ())"
  by (auto simp: QBuffBuildPkt_def QuicInitialPacketBuild_def QuicHandshakePacketBuild_def QuicAppDataPacketBuild_def
      with_space_def QBuffGetCrypto_def split: sum.splits QuicPktMethod.splits dest!: lpacket_build_rest spacket_build_rest)
section \<open>What a refused send changes\<close>

text \<open>The frame that reports the limit goes to the end of the queue; of the rest only the streams can change.\<close>

definition queues_frame :: "'c Quic \<Rightarrow> 'c Quic \<Rightarrow> bool" where
  "queues_frame quic quic' \<longleftrightarrow>
     (\<forall>s t. quic'\<lparr>q_stream := s, q_tx_queue := t\<rparr> = quic\<lparr>q_stream := s, q_tx_queue := t\<rparr>)
     \<and> (\<exists>xs. q_tx_queue quic' = q_tx_queue quic @ xs)"

lemma queues_frame_simps [simp]:
  "queues_frame quic quic" "queues_frame quic (quic\<lparr>q_stream := s\<rparr>)" "queues_frame quic (q_stream_upd quic i si)"
  "queues_frame quic (quic\<lparr>q_tx_queue := q_tx_queue quic @ xs\<rparr>)"
  by (simp_all add: queues_frame_def q_stream_upd_def)

lemma queues_frame_trans [trans]: "queues_frame a b \<Longrightarrow> queues_frame b c \<Longrightarrow> queues_frame a c"
  by (auto simp: queues_frame_def)

lemma get_instance_frame:
  "QuicStreamGetInstance quic i = (quic', r) \<Longrightarrow> queues_frame quic quic' \<and> q_tx_queue quic' = q_tx_queue quic"
  by (auto simp: QuicStreamGetInstance_def Let_def split: option.splits sum.splits if_splits)

lemma add_queue_frame: "QuicFrameAddQueue quic pkt qb = (quic', r) \<Longrightarrow> queues_frame quic quic'"
  by (auto simp: QuicFrameAddQueue_def QuicAddQueue_def QBuffQueueAdd_def Let_def split: if_splits sum.splits)

lemma blocked_handlers:
  "frame_handler ! unat QUIC_FRAME_TYPE_DATA_BLOCKED = fp (Some DataBlockedParser) (Some DataBlockedBuild)"
  "frame_handler ! unat QUIC_FRAME_TYPE_STREAM_DATA_BLOCKED = fp (Some StreamDataBlockedParser) (Some StreamDataBlockedBuild)"
  "\<not> QUIC_FRAME_TYPE_DATA_BLOCKED \<ge> QUIC_FRAME_TYPE_MAX" "\<not> QUIC_FRAME_TYPE_STREAM_DATA_BLOCKED \<ge> QUIC_FRAME_TYPE_MAX"
  by code_simp+

lemma stream_blocked_frame:
  assumes "QuicFrameStreamDataBlockedBuild e quic pkt i = ((quic', pkt'), r)"
  shows "queues_frame quic quic'"
proof (cases "QuicStreamGetInstance quic i")
  case (Pair quic1 x)
  note g = get_instance_frame[OF Pair, THEN conjunct1]
  have "queues_frame quic1 quic'" using assms
    by (auto simp: Pair QuicFrameStreamDataBlockedBuild_def on_pkt_def Let_def split: sum.splits if_splits)
  with g show ?thesis by (rule queues_frame_trans)
qed

abbreviation blocked_node :: "QuicFrameNode \<Rightarrow> u64 \<Rightarrow> bool" where
  "blocked_node n i \<equiv> n = \<lparr>fn_type = QUIC_FRAME_TYPE_DATA_BLOCKED, fn_arg = None, fn_larg = 0\<rparr>
     \<or> n = \<lparr>fn_type = QUIC_FRAME_TYPE_STREAM_DATA_BLOCKED, fn_arg = None, fn_larg = i\<rparr>"

lemma blocked_nodes:
  assumes "blocked_node n i" and "build_nodes e quic pkt sp [n] = ((quic', pkt'), r)"
  shows "queues_frame quic quic'"
  using assms
  by (auto simp: blocked_handlers fp_def Let_def QuicFrameDataBlockedBuild_def on_pkt_def split: prod.splits sum.splits
      dest!: stream_blocked_frame)

lemma blocked_frame_queued:
  assumes n: "blocked_node n i" and b: "QuicFrameBuild e quic pkt_type [n] = (quic', r)"
  shows "queues_frame quic quic'"
proof (cases "bindR (QuicFrameGetBuffLen quic pkt_type) (\<lambda>buf_len.
    bindR (QuicFrameBufferNew e pkt_type buf_len) (\<lambda>(pkt, qb). bindR (QuicCryptoGet pkt_type) (\<lambda>sp. Inr (pkt, qb, sp))))")
  case (Inl err)
  then show ?thesis using b by (simp add: QuicFrameBuild_def)
next
  case (Inr y)
  obtain pkt qb sp where y: "y = (pkt, qb, sp)" by (cases y) auto
  obtain quic1 pkt1 x where bn: "build_nodes e quic pkt sp [n] = ((quic1, pkt1), x)" by (metis prod.collapse)
  have "queues_frame quic1 quic'" using b
    by (auto simp: QuicFrameBuild_def Inr y bn simp del: build_nodes.simps split: sum.splits prod.splits if_splits dest!: add_queue_frame)
  with blocked_nodes[OF n bn] show ?thesis by (rule queues_frame_trans)
qed

lemma data_blocked_queued:
  assumes "QuicDataBlockedFrameBuild e quic i t = (quic', r)"
  shows "queues_frame quic quic'"
  using assms unfolding QuicDataBlockedFrameBuild_def bindS_def
  by (auto split: prod.splits sum.splits intro: blocked_frame_queued)

lemma stream_data_blocked_queued:
  assumes "QuicStreamDataBlockedFrameBuild e quic i t = (quic', r)"
  shows "queues_frame quic quic'"
proof (cases "QuicStreamGetInstance quic i")
  case (Pair quic1 x)
  have "queues_frame quic1 quic'" using assms unfolding QuicStreamDataBlockedFrameBuild_def Pair bindS_def
    by (auto split: prod.splits sum.splits intro: blocked_frame_queued)
  with get_instance_frame[OF Pair, THEN conjunct1] show ?thesis by (rule queues_frame_trans)
qed

lemma flow_ctrl_rest:
  assumes "QuicStreamSendFlowCtrl e quic i n t = (quic', r)"
  shows "queues_frame quic quic'" and "r = Inr u \<Longrightarrow> q_tx_queue quic' = q_tx_queue quic"
proof -
  obtain quic1 x where g: "QuicStreamGetInstance quic i = (quic1, x)" by fastforce
  note f = get_instance_frame[OF g]
  have s: "queues_frame q (q\<lparr>q_stream := s\<rparr>)" for q :: "'a Quic" and s by simp
  show "r = Inr u \<Longrightarrow> q_tx_queue quic' = q_tx_queue quic" using assms f
    by (auto simp: QuicStreamSendFlowCtrl_def g Let_def bindS_def split: prod.splits sum.splits if_splits)
  have "quic' = quic \<or> queues_frame quic1 quic'" using assms
    by (auto simp: QuicStreamSendFlowCtrl_def g Let_def bindS_def split: prod.splits sum.splits if_splits
        dest!: stream_data_blocked_queued data_blocked_queued)
  with f show "queues_frame quic quic'" by (auto intro: queues_frame_trans)
qed
section \<open>Packet numbers and the sent queues\<close>

text \<open>In each space the packets in flight are in the order of their numbers, and no number is above the last one
  given. \<open>B\<close> bounds the numbers.\<close>

definition space_ok :: "nat \<Rightarrow> 'c QUIC_CRYPTO \<Rightarrow> bool" where
  "space_ok B c \<longleftrightarrow> sorted_wrt (\<lambda>a b. qb_pkt_num a < qb_pkt_num b) (qy_sent_queue c)
     \<and> (\<forall>qb\<in>set (qy_sent_queue c). qb_pkt_num qb \<le> qy_pkt_num c) \<and> unat (qy_pkt_num c) \<le> B"

definition spaces_ok :: "nat \<Rightarrow> 'c Quic \<Rightarrow> bool" where
  "spaces_ok B quic \<longleftrightarrow> (\<forall>sp c. crypto_at quic sp = Inr c \<longrightarrow> space_ok B c)"

definition sent_keys :: "'c Quic \<Rightarrow> crypto_space \<Rightarrow> (u64 \<times> u64 \<times> u32 \<times> u64) list" where
  "sent_keys quic sp = (case crypto_at quic sp of Inl _ \<Rightarrow> [] | Inr c \<Rightarrow> map qb_key (qy_sent_queue c))"

text \<open>The first \<open>k\<close> buffers of the transmit queue have gone to the sent queues of their spaces.\<close>

definition moved :: "nat \<Rightarrow> 'c Quic \<Rightarrow> 'c Quic \<Rightarrow> bool" where
  "moved k quic quic' \<longleftrightarrow> k \<le> length (q_tx_queue quic) \<and> q_tx_queue quic' = drop k (q_tx_queue quic)
     \<and> q_fd_mode quic' = q_fd_mode quic
     \<and> (\<forall>sp. sent_keys quic' sp =
          sent_keys quic sp @ map qb_key (filter (\<lambda>qb. QBuffGetCrypto qb = Inr sp) (take k (q_tx_queue quic))))"

lemma moved_refl [simp]: "moved 0 quic quic"
  by (simp add: moved_def)

lemma moved_trans: "moved k a b \<Longrightarrow> moved l b c \<Longrightarrow> moved (k + l) a c"
  by (auto simp: moved_def take_add add.commute)

lemma queues_frameD:
  assumes "queues_frame quic quic'"
  shows "crypto_at quic' sp = crypto_at quic sp" and "q_fd_mode quic' = q_fd_mode quic"
proof -
  have e: "quic'\<lparr>q_stream := s, q_tx_queue := t\<rparr> = quic\<lparr>q_stream := s, q_tx_queue := t\<rparr>" for s t
    using assms by (simp add: queues_frame_def)
  have "crypto_at (q\<lparr>q_stream := s, q_tx_queue := t\<rparr>) sp = crypto_at q sp" for q :: "'a Quic" and s t by (cases sp) simp_all
  then show "crypto_at quic' sp = crypto_at quic sp" using arg_cong[OF e, of "\<lambda>q. crypto_at q sp"] by metis
  show "q_fd_mode quic' = q_fd_mode quic" using arg_cong[OF e, of q_fd_mode] by simp
qed

lemma queues_frame_spaces: "queues_frame quic quic' \<Longrightarrow> spaces_ok B quic' = spaces_ok B quic"
  by (simp add: spaces_ok_def queues_frameD)

lemma crypto_at_tx [simp]: "crypto_at (quic\<lparr>q_tx_queue := t\<rparr>) sp = crypto_at quic sp"
  "crypto_at (quic\<lparr>q_rwstate := w\<rparr>) sp = crypto_at quic sp"
  by (cases sp; simp)+

lemma spaces_ok_tx [simp]: "spaces_ok B (quic\<lparr>q_tx_queue := t\<rparr>) = spaces_ok B quic"
  "spaces_ok B (quic\<lparr>q_rwstate := w\<rparr>) = spaces_ok B quic"
  by (simp_all add: spaces_ok_def)

lemma spaces_ok_upd:
  "spaces_ok B quic \<Longrightarrow> space_ok B c \<Longrightarrow> spaces_ok B (crypto_upd quic sp c)"
  unfolding spaces_ok_def by (metis Inr_inject crypto_at_other crypto_at_space crypto_at_upd)

lemma space_ok_mono: "space_ok B c \<Longrightarrow> B \<le> C \<Longrightarrow> space_ok C c"
  by (auto simp: space_ok_def)

lemma spaces_ok_mono: "spaces_ok B quic \<Longrightarrow> B \<le> C \<Longrightarrow> spaces_ok C quic"
  unfolding spaces_ok_def by (blast intro: space_ok_mono)

text \<open>The next number of a space, and a buffer that carries it at the end of the sent queue.\<close>

lemma space_ok_next:
  assumes "space_ok B c" and "B + 1 < 2 ^ 64" and "qy_sent_queue c' = qy_sent_queue c" and "qy_pkt_num c' = qy_pkt_num c + 1"
  shows "space_ok (B + 1) c'"
    and "qb_pkt_num qb = qy_pkt_num c' \<Longrightarrow> space_ok (B + 1) (c'\<lparr>qy_sent_queue := QBuffQueueAdd (qy_sent_queue c') qb\<rparr>)"
proof -
  have u: "unat (qy_pkt_num c + 1) = unat (qy_pkt_num c) + 1"
    using assms(1,2) by (simp add: space_ok_def unat_word_ariths)
  then have "qb_pkt_num q < qy_pkt_num c + 1" if "q \<in> set (qy_sent_queue c)" for q
    using that assms(1) by (simp add: space_ok_def word_less_nat_alt word_le_nat_alt less_Suc_eq_le)
  then show "space_ok (B + 1) c'"
    and "qb_pkt_num qb = qy_pkt_num c' \<Longrightarrow> space_ok (B + 1) (c'\<lparr>qy_sent_queue := QBuffQueueAdd (qy_sent_queue c') qb\<rparr>)"
    using assms u by (auto simp: space_ok_def QBuffQueueAdd_def sorted_wrt_append less_imp_le)
qed

lemma numbered_spaces:
  assumes "numbered sp quic quic' qb" and "spaces_ok B quic" and "B + 1 < 2 ^ 64"
  shows "spaces_ok (B + 1) quic'"
    and "crypto_at quic' sp = Inr c \<Longrightarrow>
      spaces_ok (B + 1) (crypto_upd quic' sp (c\<lparr>qy_sent_queue := QBuffQueueAdd (qy_sent_queue c) qb\<rparr>))"
proof -
  obtain c0 c1 where c: "crypto_at quic sp = Inr c0" "quic' = crypto_upd quic sp c1"
    "qy_sent_queue c1 = qy_sent_queue c0" "qy_pkt_num c1 = qy_pkt_num c0 + 1" "qb_pkt_num qb = qy_pkt_num c1"
    using assms(1) by (auto simp: numbered_def)
  have s: "space_ok B c0" using assms(2) c(1) by (auto simp: spaces_ok_def)
  have m: "spaces_ok (B + 1) quic" using assms(2) by (rule spaces_ok_mono) simp
  show "spaces_ok (B + 1) quic'" unfolding c(2) by (rule spaces_ok_upd[OF m]) (rule space_ok_next(1)[OF s assms(3) c(3,4)])
  assume "crypto_at quic' sp = Inr c"
  then have "c = c1" using c(1,2) crypto_at_space by fastforce
  then show "spaces_ok (B + 1) (crypto_upd quic' sp (c\<lparr>qy_sent_queue := QBuffQueueAdd (qy_sent_queue c) qb\<rparr>))"
    using spaces_ok_upd[OF m space_ok_next(2)[OF s assms(3) c(3,4,5)], of sp] c(2) by (simp add: crypto_upd_upd)
qed

lemma sent_keys_upd:
  assumes "crypto_at quic sp = Inr c" and "map qb_key (qy_sent_queue c') = map qb_key (qy_sent_queue c) @ ks"
  shows "sent_keys (crypto_upd quic sp c') t = sent_keys quic t @ (if t = sp then ks else [])"
  using assms crypto_at_space[OF assms(1)] by (cases "t = sp") (simp_all add: sent_keys_def)

section \<open>The loop over the queue\<close>

lemma crypto_upd_rest [simp]:
  "q_tx_queue (crypto_upd quic sp c) = q_tx_queue quic" "q_fd_mode (crypto_upd quic sp c) = q_fd_mode quic"
  by (cases sp; simp)+

lemma QBuffGetCrypto_key: "qb_key a = qb_key b \<Longrightarrow> QBuffGetCrypto a = QBuffGetCrypto b"
  by (simp add: qb_key_def QBuffGetCrypto_def)

text \<open>A buffer whose packet is built goes from the head of the queue to the end of the sent queue of its space.\<close>

lemma built_moves:
  assumes f: "q_tx_queue quic1 = q_tx_queue quic" "queues_frame quic quic1"
    and b: "QBuffBuildPkt e ev quic1 pkt qb fin = ((quic2, pkt1, qb1), Inr ())"
    and q: "q_tx_queue quic = qb # rest" "quic4 = quic2\<lparr>q_tx_queue := rest\<rparr>"
  obtains sp c where "QBuffGetCrypto qb1 = Inr sp" and "crypto_at quic4 sp = Inr c"
    and "moved 1 quic (crypto_upd quic4 sp (c\<lparr>qy_sent_queue := QBuffQueueAdd (qy_sent_queue c) qb1\<rparr>))"
    and "\<forall>B. spaces_ok B quic \<longrightarrow> B + 1 < 2 ^ 64 \<longrightarrow>
      spaces_ok (B + 1) (crypto_upd quic4 sp (c\<lparr>qy_sent_queue := QBuffQueueAdd (qy_sent_queue c) qb1\<rparr>))"
proof -
  obtain sp where k: "qb_key qb1 = qb_key qb" and sp: "QBuffGetCrypto qb = Inr sp" and n: "numbered sp quic1 quic2 qb1"
    using build_pkt_rest[OF b] by auto
  obtain c0 c where c: "crypto_at quic1 sp = Inr c0" "quic2 = crypto_upd quic1 sp c" "qy_sent_queue c = qy_sent_queue c0"
    using n by (auto simp: numbered_def)
  let ?q = "crypto_upd quic4 sp (c\<lparr>qy_sent_queue := QBuffQueueAdd (qy_sent_queue c) qb1\<rparr>)"
  have c4: "crypto_at quic4 sp = Inr c" using c(1,2) q(2) crypto_at_space[OF c(1)] by simp
  have u: "(crypto_upd x sp y)\<lparr>q_tx_queue := t\<rparr> = crypto_upd (x\<lparr>q_tx_queue := t\<rparr>) sp y" for x :: "'a Quic" and y t
    by (cases sp) simp_all
  have e: "?q = (crypto_upd quic1 sp (c\<lparr>qy_sent_queue := QBuffQueueAdd (qy_sent_queue c) qb1\<rparr>))\<lparr>q_tx_queue := rest\<rparr>"
    using c(2) q(2) by (simp add: u crypto_upd_upd)
  have s1: "sent_keys quic1 t = sent_keys quic t" for t using queues_frameD(1)[OF f(2)] by (simp add: sent_keys_def)
  have "sent_keys ?q t = sent_keys quic t @ (if t = sp then [qb_key qb] else [])" for t
    using sent_keys_upd[OF c(1), of "c\<lparr>qy_sent_queue := QBuffQueueAdd (qy_sent_queue c) qb1\<rparr>" "[qb_key qb]" t] s1 k c(3)
    unfolding e by (simp add: sent_keys_def QBuffQueueAdd_def)
  then have m: "moved 1 quic ?q" using q sp queues_frameD(2)[OF f(2)] c(2) unfolding moved_def by auto
  have "spaces_ok (B + 1) ?q" if "spaces_ok B quic" "B + 1 < 2 ^ 64" for B
    using numbered_spaces(2)[OF n _ that(2), of c] that(1) queues_frame_spaces[OF f(2), of B] c(1,2) crypto_at_space[OF c(1)]
    unfolding q(2) by (simp add: u[symmetric])
  then show thesis using that[OF _ c4 m] sp QBuffGetCrypto_key[OF k] by simp
qed

definition written_ok :: "nat \<Rightarrow> bool \<Rightarrow> nat \<Rightarrow> 'c Quic \<Rightarrow> 'c Quic \<times> 'a res \<Rightarrow> bool" where
  "written_ok B some n quic = post (\<lambda>quic' _. \<exists>k. moved k quic quic' \<and> (some \<longrightarrow> 0 < k)
       \<and> (spaces_ok B quic \<and> B + n < 2 ^ 64 \<longrightarrow> spaces_ok (B + k) quic'))
     (\<lambda>quic'. spaces_ok B quic \<and> B + n < 2 ^ 64 \<longrightarrow> spaces_ok (B + n) quic')"

lemma written_ok_err:
  "(spaces_ok B quic \<Longrightarrow> B + 1 < 2 ^ 64 \<Longrightarrow> spaces_ok (B + 1) quic') \<Longrightarrow> written_ok B some (Suc n) quic (quic', Inl err)"
  by (auto simp: written_ok_def intro: spaces_ok_mono)

lemma written_ok_step:
  assumes m: "moved 1 quic quic1" and s: "\<forall>B. spaces_ok B quic \<longrightarrow> B + 1 < 2 ^ 64 \<longrightarrow> spaces_ok (B + 1) quic1"
    and w: "written_ok (B + 1) x n quic1 r"
  shows "written_ok B y (Suc n) quic r"
proof -
  have sp: "spaces_ok B quic \<Longrightarrow> B + Suc n < 2 ^ 64 \<Longrightarrow> spaces_ok (B + 1) quic1" using s by simp
  have mv: "moved (Suc k) quic q" if "moved k quic1 q" for k q
    using moved_trans[OF m that] by simp
  have e: "B + 1 + n = B + Suc n" by simp
  show ?thesis using w unfolding written_ok_def e
  proof (rule post_mono)
    fix q assume "\<exists>k. moved k quic1 q \<and> (x \<longrightarrow> 0 < k) \<and> (spaces_ok (B + 1) quic1 \<and> B + Suc n < 2 ^ 64 \<longrightarrow> spaces_ok (B + 1 + k) q)"
    then obtain k where k: "moved k quic1 q" "spaces_ok (B + 1) quic1 \<and> B + Suc n < 2 ^ 64 \<longrightarrow> spaces_ok (B + 1 + k) q" by blast
    have "B + 1 + k = B + Suc k" by simp
    with k sp mv show "\<exists>k. moved k quic q \<and> (y \<longrightarrow> 0 < k) \<and> (spaces_ok B quic \<and> B + Suc n < 2 ^ 64 \<longrightarrow> spaces_ok (B + k) q)"
      by (metis zero_less_Suc)
  qed (use sp in blast)
qed

lemma write_loop_ok:
  assumes "q_tx_queue quic = qbs"
  shows "written_ok B (\<not> fin \<and> \<not> sh \<and> qbs \<noteq> []) (length qbs) quic (write_loop e ev qbs quic pkt fin sh)"
  using assms
proof (induction qbs arbitrary: quic B pkt fin sh)
  case Nil
  then show ?case by (auto simp: written_ok_def intro: exI[of _ 0])
next
  case (Cons qb rest)
  have stop: "written_ok B (\<not> fin \<and> \<not> sh \<and> qb # rest \<noteq> []) (length (qb # rest)) quic (quic, Inr pkt)" if "fin \<or> sh"
    using that by (auto simp: written_ok_def intro: spaces_ok_mono exI[of _ 0])
  have err: "written_ok B x (length (qb # rest)) quic (quic', Inl y)"
    if "\<And>C. spaces_ok C quic \<Longrightarrow> C + 1 < 2 ^ 64 \<Longrightarrow> spaces_ok (C + 1) quic'" for x quic' y
    using that[of B] by (auto intro: written_ok_err)
  let ?l = "case rest of [] \<Rightarrow> Inr True | next_qb # _ \<Rightarrow>
      bindR (QBufPktComputeTotalLen quic qb) (\<lambda>l1. bindR (QBufPktComputeTotalLen quic next_qb) (\<lambda>l2.
        Inr (QUIC_GT (l1 + l2) (scast (WPacket_get_space pkt)))))"
  obtain quic1 r where f: "QuicStreamSendFlowCtrl e quic (qb_stream_id qb) (qb_stream_len qb) (qb_pkt_type qb) = (quic1, r)"
    by fastforce
  note fr = flow_ctrl_rest[OF f]
  have s1: "spaces_ok C quic1 = spaces_ok C quic" for C by (rule queues_frame_spaces[OF fr(1)])
  show ?case
  proof (cases "fin \<or> sh")
    case True
    then show ?thesis using stop by simp
  next
    case False
    consider (len) y where "?l = Inl y" | (flow) fin' y where "?l = Inr fin'" "r = Inl y"
      | (ok) fin' where "?l = Inr fin'" "r = Inr ()"
      by (cases ?l; cases r) auto
    then show ?thesis
    proof cases
      case len
      have "written_ok B True (length (qb # rest)) quic (quic, Inl y)" by (rule err) (auto intro: spaces_ok_mono)
      then show ?thesis using False len by simp
    next
      case flow
      have "written_ok B True (length (qb # rest)) quic (quic1, Inl y)" by (rule err) (auto simp: s1 intro: spaces_ok_mono)
      then show ?thesis using False flow f by simp
    next
      case ok
      obtain quic2 pkt1 qb1 x where b: "QBuffBuildPkt e ev quic1 pkt qb fin' = ((quic2, pkt1, qb1), x)"
        by (metis prod.collapse)
      have tx: "q_tx_queue quic1 = q_tx_queue quic" using fr(2) ok by simp
      show ?thesis
      proof (cases x)
        case (Inl y)
        have "spaces_ok (C + 1) quic2" if "spaces_ok C quic" "C + 1 < 2 ^ 64" for C
          using build_pkt_rest[OF b] that s1 numbered_spaces(1)[of _ quic1 quic2 qb1 C] by (auto intro: spaces_ok_mono)
        then have "written_ok B True (length (qb # rest)) quic (quic2\<lparr>q_tx_queue := qb1 # tl (q_tx_queue quic2)\<rparr>, Inl y)"
          by (intro err) simp
        then show ?thesis using False ok f b Inl by simp
      next
        case built: (Inr v)
        define quic4 where "quic4 = quic2\<lparr>q_tx_queue := rest\<rparr>"
        have b': "QBuffBuildPkt e ev quic1 pkt qb fin' = ((quic2, pkt1, qb1), Inr ())" using b built by simp
        obtain sp c where m: "QBuffGetCrypto qb1 = Inr sp" "crypto_at quic4 sp = Inr c"
          "moved 1 quic (crypto_upd quic4 sp (c\<lparr>qy_sent_queue := QBuffQueueAdd (qy_sent_queue c) qb1\<rparr>))"
          "\<forall>B. spaces_ok B quic \<longrightarrow> B + 1 < 2 ^ 64 \<longrightarrow>
            spaces_ok (B + 1) (crypto_upd quic4 sp (c\<lparr>qy_sent_queue := QBuffQueueAdd (qy_sent_queue c) qb1\<rparr>))"
          by (rule built_moves[OF tx fr(1) b' Cons.prems quic4_def]) blast
        let ?q = "crypto_upd quic4 sp (c\<lparr>qy_sent_queue := QBuffQueueAdd (qy_sent_queue c) qb1\<rparr>)"
        have "q_tx_queue quic2 = qb # rest" using build_pkt_rest[OF b'] tx Cons.prems by (auto simp: numbered_def)
        then have run: "write_loop e ev (qb # rest) quic pkt fin sh =
            write_loop e ev rest ?q pkt1 fin' (qb_pkt_type qb1 = QUIC_PKT_TYPE_1RTT)"
          using False ok f b' m(1,2) by (simp add: QBuffQueueUnlink_def quic4_def)
        have "written_ok (B + 1) (\<not> fin' \<and> qb_pkt_type qb1 \<noteq> QUIC_PKT_TYPE_1RTT \<and> rest \<noteq> []) (length rest) ?q
            (write_loop e ev rest ?q pkt1 fin' (qb_pkt_type qb1 = QUIC_PKT_TYPE_1RTT))"
          by (intro Cons.IH) (simp add: quic4_def)
        from written_ok_step[OF m(3,4) this] show ?thesis unfolding run by simp
      qed
    qed
  qed
qed

lemma QuicWritePkt_ok:
  "written_ok B (q_tx_queue quic \<noteq> []) (length (q_tx_queue quic)) quic (QuicWritePkt e ev quic)"
  using write_loop_ok[OF refl, of B False False quic e ev]
  unfolding QuicWritePkt_def written_ok_def post_simps by (auto elim!: post_mono[rotated 2])

section \<open>Emptying the queue\<close>

text \<open>The loop of \<^verbatim>\<open>QuicSendPacket\<close>. On a socket of its own it goes on until the queue is empty, which it gets
  as every datagram takes a buffer off the queue.\<close>

function send_loop ::
    "env \<Rightarrow> 'c evp \<Rightarrow> 'w quic_bio \<Rightarrow> 'c Quic \<Rightarrow> 'w \<Rightarrow> ('c Quic \<times> 'w) \<times> unit res" where
  "send_loop e ev bio quic w =
     (if QBuffQueueEmpty (q_tx_queue quic) then ((quic, w), Inr ())
      else case QuicWritePkt e ev (quic\<lparr>q_rwstate := QUIC_WRITING\<rparr>) of
        (quic1, Inl err) \<Rightarrow> ((quic1, w), Inl err)
      | (quic1, Inr data) \<Rightarrow>
          (case QuicDatagramSendBytes bio w data of
             (w1, Inl err) \<Rightarrow> ((quic1, w1), Inl err)
           | (w1, Inr _) \<Rightarrow>
               if \<not> q_fd_mode quic1 then ((quic1, w1), Inr ()) else send_loop e ev bio quic1 w1))"
  by pat_completeness auto

lemma moved_rwstate [simp]: "moved k (quic\<lparr>q_rwstate := s\<rparr>) quic' = moved k quic quic'"
  by (simp add: moved_def sent_keys_def)

lemma write_pkt_shorter:
  assumes "QuicWritePkt e ev (quic\<lparr>q_rwstate := s\<rparr>) = (quic1, Inr data)" and "q_tx_queue quic \<noteq> []"
  shows "length (q_tx_queue quic1) < length (q_tx_queue quic)"
  using QuicWritePkt_ok[of 0 "quic\<lparr>q_rwstate := s\<rparr>" e ev] assms
  by (auto simp: written_ok_def moved_def)

termination send_loop
  by (relation "measure (\<lambda>(e, ev, bio, quic, w). length (q_tx_queue quic))")
    (auto simp: QBuffQueueEmpty_def intro: write_pkt_shorter[OF sym])

declare send_loop.simps [simp del]

definition QuicSendPacket ::
    "env \<Rightarrow> 'c evp \<Rightarrow> 'w quic_bio \<Rightarrow> 'c Quic \<Rightarrow> 'w \<Rightarrow> ('c Quic \<times> 'w) \<times> unit res" where
  "QuicSendPacket e ev bio quic w =
     bindS (send_loop e ev bio quic w) (\<lambda>(quic1, w1) _.
       ((if q_rwstate quic1 = QUIC_WRITING \<and> QBuffQueueEmpty (q_tx_queue quic1)
         then quic1\<lparr>q_rwstate := QUIC_FINISHED\<rparr> else quic1, w1), Inr ()))"
section \<open>Properties\<close>

lemma moved_rwstate2 [simp]: "moved k quic (quic'\<lparr>q_rwstate := s\<rparr>) = moved k quic quic'"
  by (simp add: moved_def sent_keys_def)

lemma send_loop_ok:
  assumes "send_loop e ev bio quic w = ((quic', w'), r)"
  shows "r = Inr () \<Longrightarrow> \<exists>k. moved k quic quic' \<and> (q_fd_mode quic \<longrightarrow> q_tx_queue quic' = [])"
    and "spaces_ok B quic \<Longrightarrow> B + length (q_tx_queue quic) < 2 ^ 64 \<Longrightarrow> spaces_ok (B + length (q_tx_queue quic)) quic'"
proof -
  have "(r = Inr () \<longrightarrow> (\<exists>k. moved k quic quic' \<and> (q_fd_mode quic \<longrightarrow> q_tx_queue quic' = [])))
    \<and> (spaces_ok B quic \<longrightarrow> B + length (q_tx_queue quic) < 2 ^ 64 \<longrightarrow> spaces_ok (B + length (q_tx_queue quic)) quic')"
    using assms
  proof (induction e ev bio quic w arbitrary: B rule: send_loop.induct)
    case (1 e ev bio quic w)
    obtain quic1 x where wp: "QuicWritePkt e ev (quic\<lparr>q_rwstate := QUIC_WRITING\<rparr>) = (quic1, x)" by fastforce
    note ok = QuicWritePkt_ok[of C "quic\<lparr>q_rwstate := QUIC_WRITING\<rparr>" e ev for C, unfolded wp written_ok_def, simplified]
    show ?case
    proof (cases "q_tx_queue quic = []")
      case True
      then show ?thesis using 1(2) by (subst (asm) send_loop.simps) (auto simp: QBuffQueueEmpty_def intro: exI[of _ 0])
    next
      case ne: False
      show ?thesis
      proof (cases x)
        case (Inl err)
        then show ?thesis using 1(2) ne wp ok[of B]
          by (subst (asm) send_loop.simps) (auto simp: QBuffQueueEmpty_def)
      next
        case (Inr data)
        obtain k where k: "moved k quic quic1" "spaces_ok B quic \<and> B + length (q_tx_queue quic) < 2 ^ 64 \<longrightarrow> spaces_ok (B + k) quic1"
          using ok[of B] Inr by auto
        have l: "B + k + length (q_tx_queue quic1) = B + length (q_tx_queue quic)" using k(1) by (auto simp: moved_def)
        have stop: "spaces_ok B quic \<Longrightarrow> B + length (q_tx_queue quic) < 2 ^ 64 \<Longrightarrow> spaces_ok (B + length (q_tx_queue quic)) quic1"
          using k l by (metis le_add1 spaces_ok_mono)
        obtain w1 y where d: "QuicDatagramSendBytes bio w data = (w1, y)" by fastforce
        have fd: "q_fd_mode quic1 = q_fd_mode quic" using k(1) by (simp add: moved_def)
        show ?thesis
        proof (cases "y = Inr () \<and> q_fd_mode quic1")
          case True
          then have "send_loop e ev bio quic w = send_loop e ev bio quic1 w1"
            using ne wp Inr d by (subst send_loop.simps) (simp add: QBuffQueueEmpty_def)
          then have "(r = Inr () \<longrightarrow> (\<exists>k. moved k quic1 quic' \<and> (q_fd_mode quic1 \<longrightarrow> q_tx_queue quic' = [])))
            \<and> (spaces_ok (B + k) quic1 \<longrightarrow> B + k + length (q_tx_queue quic1) < 2 ^ 64 \<longrightarrow>
                 spaces_ok (B + k + length (q_tx_queue quic1)) quic')"
            using 1(1)[OF _ wp[symmetric] Inr d[symmetric], of "()" "B + k"] 1(2) ne True
            by (simp add: QBuffQueueEmpty_def)
          then show ?thesis using k(2) fd moved_trans[OF k(1)] unfolding l by auto
        next
          case False
          then show ?thesis using 1(2) ne wp Inr d k(1) stop fd
            by (subst (asm) send_loop.simps) (auto simp: QBuffQueueEmpty_def split: if_splits sum.splits)
        qed
      qed
    qed
  qed
  then show "r = Inr () \<Longrightarrow> \<exists>k. moved k quic quic' \<and> (q_fd_mode quic \<longrightarrow> q_tx_queue quic' = [])"
    and "spaces_ok B quic \<Longrightarrow> B + length (q_tx_queue quic) < 2 ^ 64 \<Longrightarrow> spaces_ok (B + length (q_tx_queue quic)) quic'"
    by auto
qed

text \<open>C12: sending keeps the packets in flight of every space in the order of their numbers, whether it succeeds or
  not, so that acknowledgements find them: with fewer than \<open>2 ^ 31\<close> packets the sent queues stay as
  \<^verbatim>\<open>QBufAckSentPkt\<close> needs them.\<close>

theorem sent_queues_in_order:
  assumes "spaces_ok B quic" and "B + length (q_tx_queue quic) < 2 ^ 31"
    and "crypto_at (fst (fst (QuicSendPacket e ev bio quic w))) sp = Inr c"
  shows "sent_wf (qy_sent_queue c)"
proof -
  obtain quic1 w1 r where s: "send_loop e ev bio quic w = ((quic1, w1), r)" by (metis prod.collapse)
  have "spaces_ok (B + length (q_tx_queue quic)) quic1" using send_loop_ok(2)[OF s assms(1)] assms(2) by simp
  moreover have "crypto_at quic1 sp = Inr c" using assms(3) s by (cases r) (auto simp: QuicSendPacket_def split: if_splits)
  ultimately have "space_ok (B + length (q_tx_queue quic)) c" by (simp add: spaces_ok_def)
  then have "sorted_wrt (\<lambda>a b. qb_pkt_num a < qb_pkt_num b) (qy_sent_queue c)"
    and n: "unat (qb_pkt_num qb) < 2 ^ 31" if "qb \<in> set (qy_sent_queue c)" for qb
    using assms(2) that by (fastforce simp: space_ok_def word_le_nat_alt)+
  moreover have "qy_sent_queue c = [] \<Longrightarrow> ?thesis" by (simp add: sent_wf_def)
  ultimately show ?thesis unfolding sent_wf_def uint_less_unat by (cases "qy_sent_queue c") auto
qed
section \<open>A concrete send\<close>

text \<open>One buffer for the application in the queue, and a socket that takes every datagram and keeps it.\<close>

definition demo_tx :: "demo_ctx Quic" where
  "demo_tx = (sample_quic (demo_crypto 1000))\<lparr>q_tx_queue := [demo_send], q_fd_mode := True, q_rwstate := QUIC_WRITING\<rparr>"

definition demo_bio :: "bytes list quic_bio" where
  "demo_bio = \<lparr>q_rbio = None, q_wbio = Some \<lparr>bio_read = (\<lambda>w n. (w, None)), bio_write = (\<lambda>w d. (w @ [d], int (length d)))\<rparr>\<rparr>"

lemma demo_wire:
  obtains pkt where "QuicSHeaderGen env0 demo_tx (WPacketStaticBufInit (fresh_mem env0 QUIC_BUF_MAX_LEN) 1250) 2 =
      (pkt, Inr (wp_gen pkt, 0))" "wp_wf pkt" "wp_static pkt" "wp_out pkt = [0x41]" "wp_room pkt = 1249"
proof -
  let ?p = "WPacketStaticBufInit (fresh_mem env0 QUIC_BUF_MAX_LEN) 1250"
  have l: "length (fresh_mem env0 QUIC_BUF_MAX_LEN) = 65535" by (simp add: QUIC_BUF_MAX_LEN_def)
  have p: "wp_wf ?p" "wp_static ?p" "wp_out ?p = []" "wp_room ?p = 1250" "WPacket_get_curr ?p = (wp_gen ?p, 0)"
    using l by (simp_all add: WPacketStaticBufInit_def wp_wf_def wp_out_def wp_room_def WPacket_get_curr_def WPacket_get_data_def)
  have f: "ucast (sh_flags 1 0 0 0 1 0) = (0x41 :: u32)" by code_simp
  obtain p' where p': "WPacketPut1 env0 ?p 0x41 = (p', Inr ())" "wp_ext ?p p' [0x41]" "wp_gen p' = wp_gen ?p"
    "wp_room p' = 1249" "wp_static p'"
    using WPacketPutBytes_ok[of ?p env0 1 "0x41"] p by (auto simp: WPacketPut1_def wp_ext_def)
  show thesis
    by (rule that[of p']) (use p p' f in \<open>simp_all add: QuicSHeaderGen_def f demo_tx_def sample_quic_def QuicTrans.defs qd_empty_def wp_ext_def\<close>)
qed

lemma demo_write:
  obtains c' data where "QuicWritePkt env0 demo_evp demo_tx = (demo_tx\<lparr>q_tx_queue := [], q_application := c'\<rparr>, Inr data)"
    "qy_sent_queue c' = [demo_send\<lparr>qb_pkt_num := 1001\<rparr>]" "qy_pkt_num c' = 1001"
proof -
  let ?p = "WPacketStaticBufInit (fresh_mem env0 QUIC_BUF_MAX_LEN) 1250"
  obtain pkt where h: "QuicSHeaderGen env0 demo_tx ?p 2 = (pkt, Inr (wp_gen pkt, 0))"
    and w: "wp_wf pkt" "wp_static pkt" "wp_out pkt = [0x41]" "wp_room pkt = 1249" by (rule demo_wire)
  have t: "QuicPktNumberEncode 1001 0 16 = Inr 1001" by code_simp
  have p: "spaces_paired (\<lambda>e d. dx_key e = dx_key d) (\<lambda>e d. dx_key e = dx_key d \<and> dx_enc e \<and> dx_enc d \<and> dx_iv e = dx_iv d)
    (qy_encrypt (demo_crypto 1000)) (qy_decrypt (demo_crypto 1000))" using demo_paired by (simp add: demo_crypto_def)
  have c: "crypto_at demo_tx CrApplication = Inr (demo_crypto 1000)" by (simp add: demo_tx_def sample_quic_def QuicTrans.defs)
  have lf: "len_field 0x1F n = []" for n by (simp add: len_field_def QUIC_LPACKET_TYPE_RESV_MASK_def)
  have o1: "wp_out pkt = [] @ 0x41 # []" using w by simp
  have t1: "QuicPktNumberEncode (qy_pkt_num (demo_crypto 1000) + 1) (qy_largest_acked (demo_crypto 1000)) (8 * unat (2 :: u8)) = Inr 1001"
    using t by (simp add: demo_crypto_def)
  have pl: "length (qb_payload demo_send) = 20" by (simp add: demo_send_payload)
  have "\<exists>c' pkt'. QuicPacketBuild env0 demo_evp demo_tx CrApplication (wp_gen pkt, 0) 2 pkt demo_send 0x1F =
       ((crypto_upd demo_tx CrApplication c', pkt', demo_send\<lparr>qb_pkt_num := 1001\<rparr>), Inr ())
      \<and> qy_pkt_num c' = 1001 \<and> qy_sent_queue c' = []"
  proof (rule packet_build_ok[OF demo_aead demo_hp c p w(1,2) o1, of 2 demo_send 36 1001 "[]" "0x1F" env0], goal_cases)
    case (11 c' pkt' he x d' hr g y sealed)
    show ?case by (rule exI[of _ c'], rule exI[of _ pkt']) (use 11(1,2) in \<open>simp add: demo_crypto_def\<close>)
  qed (use t1 pl w(4) lf demo_send_payload(2) in simp_all)
  then obtain c' pkt' where b: "QuicPacketBuild env0 demo_evp demo_tx CrApplication (wp_gen pkt, 0) 2 pkt demo_send 0x1F =
       ((crypto_upd demo_tx CrApplication c', pkt', demo_send\<lparr>qb_pkt_num := 1001\<rparr>), Inr ())"
    and c': "qy_pkt_num c' = 1001" "qy_sent_queue c' = []" by blast
  have m: "qb_method (qb_pkt_type demo_send) = Inr AppDataMethod" by code_simp
  have pn: "quic_pn_len demo_tx = 2" by (simp add: quic_pn_len_def demo_tx_def sample_quic_def QuicTrans.defs)
  have bp: "QBuffBuildPkt env0 demo_evp demo_tx ?p demo_send True =
      ((crypto_upd demo_tx CrApplication c', pkt', demo_send\<lparr>qb_pkt_num := 1001\<rparr>), Inr ())"
    using h b by (simp add: QBuffBuildPkt_def m QuicAppDataPacketBuild_def crypto_get_simps with_space_def QuicSPacketBuild_def pn QUIC_SPACKET_TYPE_RESV_MASK_def)
  have "qb_method (qb_pkt_type (demo_send\<lparr>qb_pkt_num := 1001\<rparr>)) = Inr AppDataMethod" using m by simp
  then have g: "QBuffGetCrypto (demo_send\<lparr>qb_pkt_num := 1001\<rparr>) = Inr CrApplication"
    by (simp add: QBuffGetCrypto_def crypto_get_simps)
  have fc: "QuicStreamSendFlowCtrl env0 demo_tx (qb_stream_id demo_send) (qb_stream_len demo_send) (qb_pkt_type demo_send) = (demo_tx, Inr ())"
    by (simp add: QuicStreamSendFlowCtrl_def demo_send_def demo_qb_def)
  have q: "q_tx_queue demo_tx = [demo_send]" "ucast (q_mss demo_tx) = (1250 :: u64)"
    by (simp_all add: demo_tx_def sample_quic_def QuicTrans.defs)
  have "write_loop env0 demo_evp [demo_send] demo_tx ?p False False =
      (demo_tx\<lparr>q_tx_queue := [], q_application := c'\<lparr>qy_sent_queue := [demo_send\<lparr>qb_pkt_num := 1001\<rparr>]\<rparr>\<rparr>, Inr pkt')"
    using fc bp g q c' by (simp add: QBuffQueueUnlink_def QBuffQueueAdd_def)
  then have "QuicWritePkt env0 demo_evp demo_tx =
      (demo_tx\<lparr>q_tx_queue := [], q_application := c'\<lparr>qy_sent_queue := [demo_send\<lparr>qb_pkt_num := 1001\<rparr>]\<rparr>\<rparr>,
       Inr (take (unat (WPacket_get_written pkt')) (wp_data pkt')))"
    by (simp add: QuicWritePkt_def q)
  then show thesis by (rule that) (simp_all add: c')
qed

lemma demo_send_packet:
  obtains c' w' where "QuicSendPacket env0 demo_evp demo_bio demo_tx [] =
      ((demo_tx\<lparr>q_tx_queue := [], q_application := c', q_rwstate := QUIC_FINISHED\<rparr>, w'), Inr ())"
    "qy_sent_queue c' = [demo_send\<lparr>qb_pkt_num := 1001\<rparr>]" "qy_pkt_num c' = 1001"
proof -
  obtain c' data where w: "QuicWritePkt env0 demo_evp demo_tx = (demo_tx\<lparr>q_tx_queue := [], q_application := c'\<rparr>, Inr data)"
    and c': "qy_sent_queue c' = [demo_send\<lparr>qb_pkt_num := 1001\<rparr>]" "qy_pkt_num c' = 1001" by (rule demo_write)
  have r: "demo_tx\<lparr>q_rwstate := QUIC_WRITING\<rparr> = demo_tx" "q_tx_queue demo_tx \<noteq> []" "q_rwstate demo_tx = QUIC_WRITING"
    by (simp_all add: demo_tx_def)
  have w0: "QuicWritePkt env0 demo_evp (demo_tx\<lparr>q_rwstate := QUIC_WRITING\<rparr>) =
      (demo_tx\<lparr>q_tx_queue := [], q_application := c'\<rparr>, Inr data)" using w by (simp only: r(1))
  obtain w' where d: "QuicDatagramSendBytes demo_bio [] data = (w', Inr ())"
    by (cases "data = []") (simp_all add: QuicDatagramSendBytes_def demo_bio_def)
  have "send_loop env0 demo_evp demo_bio demo_tx [] = ((demo_tx\<lparr>q_tx_queue := [], q_application := c'\<rparr>, w'), Inr ())"
    by (subst send_loop.simps) (use w0 r(2) d in \<open>simp add: QBuffQueueEmpty_def send_loop.simps\<close>)
  then show thesis using c' r by (intro that[of c' w']) (simp_all add: QuicSendPacket_def QBuffQueueEmpty_def)
qed

theorem sent_queues_in_order_witness:
  "spaces_ok 1000 demo_tx \<and>
   (\<exists>c. crypto_at (fst (fst (QuicSendPacket env0 demo_evp demo_bio demo_tx []))) CrApplication = Inr c
     \<and> qy_sent_queue c = [demo_send\<lparr>qb_pkt_num := 1001\<rparr>] \<and> sent_wf (qy_sent_queue c))"
proof -
  have s: "spaces_ok 1000 demo_tx"
    unfolding spaces_ok_def
    by (rule allI, rename_tac sp, case_tac sp) (simp_all add: demo_tx_def sample_quic_def QuicTrans.defs demo_crypto_def space_ok_def)
  obtain c' w' where r: "QuicSendPacket env0 demo_evp demo_bio demo_tx [] =
      ((demo_tx\<lparr>q_tx_queue := [], q_application := c', q_rwstate := QUIC_FINISHED\<rparr>, w'), Inr ())"
    and c': "qy_sent_queue c' = [demo_send\<lparr>qb_pkt_num := 1001\<rparr>]" by (rule demo_send_packet)
  have c: "crypto_at (fst (fst (QuicSendPacket env0 demo_evp demo_bio demo_tx []))) CrApplication = Inr c'" by (simp add: r)
  have "sent_wf (qy_sent_queue c')" by (rule sent_queues_in_order[OF s _ c]) (simp add: demo_tx_def)
  with s c c' show ?thesis by blast
qed

text \<open>C11: on a connection with its own socket a send that succeeds empties the transmit queue, and every buffer of
  it has gone, in order, to the end of the sent queue of its packet number space.\<close>

theorem send_drains_queue:
  assumes "QuicSendPacket e ev bio quic w = ((quic', w'), Inr ())" and "q_fd_mode quic"
  shows "q_tx_queue quic' = [] \<and> (\<forall>sp. sent_keys quic' sp =
    sent_keys quic sp @ map qb_key (filter (\<lambda>qb. QBuffGetCrypto qb = Inr sp) (q_tx_queue quic)))"
proof -
  obtain quic1 where s: "send_loop e ev bio quic w = ((quic1, w'), Inr ())"
    and q: "quic' = quic1 \<or> quic' = quic1\<lparr>q_rwstate := QUIC_FINISHED\<rparr>"
    using assms(1) by (auto simp: QuicSendPacket_def bindS_eq_Inr split: if_splits)
  obtain k where k: "moved k quic quic1" "q_tx_queue quic1 = []" using send_loop_ok(1)[OF s] assms(2) by auto
  then have "take k (q_tx_queue quic) = q_tx_queue quic" by (simp add: moved_def)
  moreover have "moved k quic quic'" using k(1) q by auto
  ultimately show ?thesis using k(2) q by (auto simp: moved_def)
qed

theorem send_drains_queue_witness:
  "\<exists>quic' w'. QuicSendPacket env0 demo_evp demo_bio demo_tx [] = ((quic', w'), Inr ())
    \<and> q_tx_queue quic' = [] \<and> sent_keys quic' CrApplication = [qb_key demo_send] \<and> sent_keys quic' CrInitial = []"
proof -
  obtain c' w' where r: "QuicSendPacket env0 demo_evp demo_bio demo_tx [] =
      ((demo_tx\<lparr>q_tx_queue := [], q_application := c', q_rwstate := QUIC_FINISHED\<rparr>, w'), Inr ())" (is "_ = ((?q, _), _)")
    by (rule demo_send_packet)
  have f: "q_fd_mode demo_tx" and t: "q_tx_queue demo_tx = [demo_send]" by (simp_all add: demo_tx_def)
  have k: "sent_keys demo_tx sp = []" for sp
    by (cases sp) (simp_all add: sent_keys_def demo_tx_def sample_quic_def QuicTrans.defs demo_crypto_def)
  have g: "QBuffGetCrypto demo_send = Inr CrApplication" by code_simp
  have "sent_keys ?q sp = (if sp = CrApplication then [qb_key demo_send] else [])" for sp
    using send_drains_queue[OF r f] by (auto simp: k t g)
  with r show ?thesis by (intro exI[of _ ?q] exI[of _ w'] conjI) simp_all
qed
section \<open>A blocked stream\<close>

text \<open>Data of length \<open>n\<close> exceeds what the peer allows on the stream.\<close>

definition blocked_at :: "'c Quic \<Rightarrow> u64 \<Rightarrow> u64 \<Rightarrow> bool" where
  "blocked_at quic i n \<longleftrightarrow> (\<exists>si. QuicStreamGetInstance quic i = (quic, Inr si)
     \<and> QUIC_GT (stat_sent (si_stat_bytes si) + n) (si_max_stream_data si))"

lemma get_instance_same:
  "QuicStreamGetInstance quic i = (quic, Inr si) \<longleftrightarrow>
     scf_stream (q_stream quic) \<noteq> None \<and> QuicStreamIdCheck quic i = Inr () \<and> stream_at (q_stream quic) i = Inr si
     \<and> (QuicStreamPeerOpened i (q_server quic) \<or> si_send_state si \<noteq> QUIC_STREAM_STATE_START)
     \<and> i \<le> scf_max_id_opened (q_stream quic)" (is "?l = ?r")
proof
  assume ?l
  moreover have "quic\<lparr>q_stream := s\<lparr>scf_stream := t, scf_max_id_opened := i\<rparr>\<rparr> = quic \<Longrightarrow> scf_max_id_opened (q_stream quic) = i" for s t
    by (drule arg_cong[where f = "\<lambda>q. scf_max_id_opened (q_stream q)"]) simp
  ultimately show ?r by (fastforce simp: QuicStreamGetInstance_def Let_def not_less split: option.splits sum.splits if_splits)
next
  assume ?r
  then show ?l by (auto simp: QuicStreamGetInstance_def Let_def)
qed

lemma id_check_upd [simp]:
  "QuicStreamIdCheck (quic\<lparr>q_tx_queue := t\<rparr>) i = QuicStreamIdCheck quic i"
  "QuicStreamIdCheck (quic\<lparr>q_rwstate := s\<rparr>) i = QuicStreamIdCheck quic i"
  by (simp_all add: QuicStreamIdCheck_def QuicStreamIdCheckPeer_def Let_def cong: if_cong)

lemma blocked_at_upd [simp]:
  "blocked_at (quic\<lparr>q_tx_queue := t\<rparr>) i n = blocked_at quic i n"
  "blocked_at (quic\<lparr>q_rwstate := s\<rparr>) i n = blocked_at quic i n"
  by (simp_all add: blocked_at_def get_instance_same)

lemma blocked_at_send:
  assumes "blocked_at quic i n" and "stream_at (q_stream quic) i = Inr si" 
  shows "blocked_at (q_stream_upd quic i (si\<lparr>si_send_state := QUIC_STREAM_STATE_SEND\<rparr>)) i n"
proof -
  have at: "stream_at (stream_upd (q_stream quic) i si') i = Inr si'" for si'
    using assms(2) by (auto simp: stream_at_def stream_upd_def split: option.splits if_splits)
  have id: "QuicStreamIdCheck (q_stream_upd quic i si') i = QuicStreamIdCheck quic i" for si'
    by (simp add: QuicStreamIdCheck_def QuicStreamIdCheckPeer_def q_stream_upd_def stream_upd_def Let_def cong: if_cong)
  have m: "scf_max_id_opened (stream_upd (q_stream quic) i si') = scf_max_id_opened (q_stream quic)" for si'
    by (simp add: stream_upd_def)
  have s: "scf_stream (stream_upd (q_stream quic) i si') \<noteq> None" for si'
    using assms(2) by (auto simp: stream_at_def stream_upd_def split: option.splits)
  show ?thesis using assms unfolding blocked_at_def get_instance_same id
    by (auto simp: at m s q_stream_upd_def simp del: not_None_eq)
qed

lemma stream_blocked_keeps:
  assumes b: "blocked_at quic i n" and "QuicFrameStreamDataBlockedBuild e quic pkt i = ((quic', pkt'), r)"
  shows "blocked_at quic' i n"
proof -
  obtain si where g: "QuicStreamGetInstance quic i = (quic, Inr si)" using b by (auto simp: blocked_at_def)
  then have "stream_at (q_stream quic) i = Inr si" by (simp add: get_instance_same)
  with b assms(2) show ?thesis
    by (auto simp: QuicFrameStreamDataBlockedBuild_def g on_pkt_def Let_def intro: blocked_at_send split: if_splits)
qed

lemma add_queue_blocked: "QuicFrameAddQueue quic pkt qb = (quic', r) \<Longrightarrow> blocked_at quic' i n = blocked_at quic i n"
  by (auto simp: QuicFrameAddQueue_def QuicAddQueue_def Let_def split: if_splits sum.splits)

lemma stream_data_blocked_keeps:
  assumes b: "blocked_at quic i n" and s: "QuicStreamDataBlockedFrameBuild e quic i t = (quic', r)"
  shows "blocked_at quic' i n"
proof -
  let ?n = "\<lparr>fn_type = QUIC_FRAME_TYPE_STREAM_DATA_BLOCKED, fn_arg = None, fn_larg = i\<rparr>"
  obtain si where g: "QuicStreamGetInstance quic i = (quic, Inr si)" using b by (auto simp: blocked_at_def)
  obtain r' where fb: "QuicFrameBuild e quic t [?n] = (quic', r')"
    using s by (auto simp: QuicStreamDataBlockedFrameBuild_def g bindS_def split: prod.splits sum.splits)
  show ?thesis
  proof (cases "bindR (QuicFrameGetBuffLen quic t) (\<lambda>buf_len.
    bindR (QuicFrameBufferNew e t buf_len) (\<lambda>(pkt, qb). bindR (QuicCryptoGet t) (\<lambda>sp. Inr (pkt, qb, sp))))")
    case (Inl err)
    then show ?thesis using fb b by (simp add: QuicFrameBuild_def)
  next
    case (Inr y)
    obtain pkt qb sp where y: "y = (pkt, qb, sp)" by (cases y) auto
    obtain quic1 pkt1 x where bn: "build_nodes e quic pkt sp [?n] = ((quic1, pkt1), x)" by (metis prod.collapse)
    have "blocked_at quic1 i n" using bn b
      by (auto simp: blocked_handlers fp_def Let_def split: prod.splits sum.splits dest: stream_blocked_keeps)
    then show ?thesis using fb
      by (auto simp: QuicFrameBuild_def Inr y bn simp del: build_nodes.simps split: sum.splits prod.splits if_splits dest!: add_queue_blocked)
  qed
qed

lemma queues_frame_hd: "queues_frame quic quic' \<Longrightarrow> q_tx_queue quic = qb # rest \<Longrightarrow> \<exists>rest'. q_tx_queue quic' = qb # rest'"
  by (auto simp: queues_frame_def)

text \<open>Nothing is sent and the buffer stays where it is, at the head of the queue.\<close>

lemma blocked_send:
  assumes q: "q_tx_queue quic = qb # rest" and n: "qb_stream_len qb \<noteq> 0" and b: "blocked_at quic (qb_stream_id qb) (qb_stream_len qb)"
  shows "\<exists>quic' err rest'. QuicSendPacket e ev bio quic w = ((quic', w), Inl err) \<and> q_tx_queue quic' = qb # rest'
     \<and> blocked_at quic' (qb_stream_id qb) (qb_stream_len qb)"
proof -
  let ?q = "quic\<lparr>q_rwstate := QUIC_WRITING\<rparr>" and ?i = "qb_stream_id qb" and ?l = "qb_stream_len qb"
  have b': "blocked_at ?q ?i ?l" using b by simp
  then obtain si where g: "QuicStreamGetInstance ?q ?i = (?q, Inr si)" and gt: "QUIC_GT (stat_sent (si_stat_bytes si) + ?l) (si_max_stream_data si)"
    by (auto simp: blocked_at_def)
  obtain quic1 r1 where sb: "QuicStreamDataBlockedFrameBuild e ?q ?i (qb_pkt_type qb) = (quic1, r1)" by fastforce
  have k: "blocked_at quic1 ?i ?l" "\<exists>rest'. q_tx_queue quic1 = qb # rest'"
    using stream_data_blocked_keeps[OF b' sb] queues_frame_hd[OF stream_data_blocked_queued[OF sb], of qb rest] q by simp_all
  obtain err1 where fc: "QuicStreamSendFlowCtrl e ?q ?i ?l (qb_pkt_type qb) = (quic1, Inl err1)"
    using n g gt sb by (cases r1) (simp_all add: QuicStreamSendFlowCtrl_def Let_def)
  have "\<exists>quic' err rest'. QuicWritePkt e ev ?q = (quic', Inl err) \<and> q_tx_queue quic' = qb # rest' \<and> blocked_at quic' ?i ?l"
  proof -
    define len where "len = (case rest of [] \<Rightarrow> Inr True | next_qb # _ \<Rightarrow>
      bindR (QBufPktComputeTotalLen ?q qb) (\<lambda>l1. bindR (QBufPktComputeTotalLen ?q next_qb) (\<lambda>l2.
        Inr (QUIC_GT (l1 + l2) (scast (WPacket_get_space (WPacketStaticBufInit (fresh_mem e QUIC_BUF_MAX_LEN) (ucast (q_mss quic)))))))))"
    show ?thesis
      by (cases len) (use fc k b' q len_def in \<open>simp_all add: QuicWritePkt_def\<close>)
  qed
  then show ?thesis using q
    by (auto simp: QuicSendPacket_def QBuffQueueEmpty_def send_loop.simps[of e ev bio quic w])
qed

fun send_attempts :: "(env \<times> 'c evp) list \<Rightarrow> 'w quic_bio \<Rightarrow> 'c Quic \<Rightarrow> 'w \<Rightarrow> 'c Quic \<times> 'w" where
  "send_attempts [] bio quic w = (quic, w)"
| "send_attempts ((e, ev) # es) bio quic w =
     (case QuicSendPacket e ev bio quic w of ((quic1, w1), _) \<Rightarrow> send_attempts es bio quic1 w1)"

text \<open>C30: once the data at the head of the transmit queue exceeds the limit of its stream, no number of calls of
  \<^verbatim>\<open>QuicSendPacket\<close> sends anything: every call fails, the world is as it was, and the buffer is still at the head.
  The STREAM_DATA_BLOCKED frame that would tell the peer to raise the limit is queued behind it, so it is not
  sent either, nor are packets of other streams, acknowledgements or the handshake.\<close>

theorem blocked_stream_blocks_all:
  assumes "q_tx_queue quic = qb # rest" and "qb_stream_len qb \<noteq> 0" and "blocked_at quic (qb_stream_id qb) (qb_stream_len qb)"
  shows "case send_attempts es bio quic w of (quic', w') \<Rightarrow>
    w' = w \<and> q_tx_queue quic' \<noteq> [] \<and> hd (q_tx_queue quic') = qb \<and> \<not> ok (snd (QuicSendPacket e ev bio quic' w'))"
  using assms
proof (induction es arbitrary: quic rest)
  case Nil
  then show ?case using blocked_send[OF Nil, of e ev bio w] by auto
next
  case (Cons p es)
  obtain e1 ev1 where p: "p = (e1, ev1)" by (cases p)
  obtain quic1 err rest1 where "QuicSendPacket e1 ev1 bio quic w = ((quic1, w), Inl err)" "q_tx_queue quic1 = qb # rest1"
    "blocked_at quic1 (qb_stream_id qb) (qb_stream_len qb)"
    using blocked_send[OF Cons.prems, of e1 ev1 bio w] by auto
  then show ?case using Cons.IH[of quic1 rest1] Cons.prems(2) p by simp
qed
text \<open>The peer's stream 1 with a limit of 100 bytes, and 120 bytes for it in front of a packet of the handshake.\<close>

definition demo_blocked :: "demo_ctx Quic" where
  "demo_blocked = demo_tx\<lparr>q_tx_queue := [demo_send\<lparr>qb_stream_id := 1, qb_stream_len := 120\<rparr>, demo_send],
     q_stream := (q_stream demo_tx)\<lparr>scf_stream := Some [si_zero, si_zero\<lparr>si_max_stream_data := 100\<rparr>],
       scf_max_id_opened := 1, scf_max_id_value := 2\<rparr>\<rparr>"

theorem blocked_stream_blocks_all_witness:
  "blocked_at demo_blocked 1 120 \<and>
   (\<exists>quic'. send_attempts [(env0, demo_evp), (env0, demo_evp), (env0, demo_evp)] demo_bio demo_blocked [] = (quic', [])
     \<and> hd (q_tx_queue quic') = demo_send\<lparr>qb_stream_id := 1, qb_stream_len := 120\<rparr>
     \<and> \<not> ok (snd (QuicSendPacket env0 demo_evp demo_bio quic' [])))"
proof -
  let ?qb = "demo_send\<lparr>qb_stream_id := 1, qb_stream_len := 120\<rparr>"
  have gt: "QUIC_GT 120 (100 :: u64)" by code_simp
  have po: "QuicStreamPeerOpened 1 False" by code_simp
  have id: "QuicStreamIdCheck demo_blocked 1 = Inr ()"
    by (simp add: demo_blocked_def demo_tx_def sample_quic_def QuicTrans.defs demo_quic_def QuicStreamIdCheck_def
        QuicStreamIdCheckPeer_def po word_le_nat_alt)
  have b: "blocked_at demo_blocked 1 120"
    unfolding blocked_at_def get_instance_same
    by (intro exI[of _ "si_zero\<lparr>si_max_stream_data := 100\<rparr>"])
      (use id gt po in \<open>simp add: demo_blocked_def demo_tx_def sample_quic_def QuicTrans.defs demo_quic_def stream_at_def si_zero_def\<close>)
  have q: "q_tx_queue demo_blocked = ?qb # [demo_send]" by (simp add: demo_blocked_def)
  obtain quic' w' where s: "send_attempts [(env0, demo_evp), (env0, demo_evp), (env0, demo_evp)] demo_bio demo_blocked [] = (quic', w')"
    by fastforce
  have "w' = [] \<and> q_tx_queue quic' \<noteq> [] \<and> hd (q_tx_queue quic') = ?qb \<and> \<not> ok (snd (QuicSendPacket env0 demo_evp demo_bio quic' w'))"
    using blocked_stream_blocks_all[OF q, where es = "[(env0, demo_evp), (env0, demo_evp), (env0, demo_evp)]" and bio = demo_bio and w = "[]"
      and e = env0 and ev = demo_evp] s b
    by auto
  then show ?thesis using s b by (auto simp del: send_attempts.simps)
qed

end
