(* ===== verification/Statem.thy ===== *)
theory Statem
  imports Pkt_Parse Send
begin

text \<open>
  The connection state machine (\<^verbatim>\<open>quic/statem.c\<close>, \<^verbatim>\<open>quic/statem_clnt.c\<close>, \<^verbatim>\<open>quic/statem_srvr.c\<close>): what a connection
  does with a packet in each state, the loop that reads datagrams and takes their packets apart, and the loop
  that drives a handshake. The TLS engine \<open>tls\<close> and the world \<open>w\<close> behind the BIO objects are arguments; both loops may
  run for ever, so they are partial functions. What a datagram leaves in the read buffer past its end is
  arbitrary: every read starts on fresh memory.
\<close>

section \<open>Handlers\<close>

datatype QuicFlowReturn =
  QUIC_FLOW_RET_STOP | QUIC_FLOW_RET_NEXT | QUIC_FLOW_RET_WANT_READ | QUIC_FLOW_RET_WANT_WRITE
| QUIC_FLOW_RET_CONTINUE | QUIC_FLOW_RET_FINISH | QUIC_FLOW_RET_DROP | QUIC_FLOW_RET_END

text \<open>\<^verbatim>\<open>QUIC_FLOW_RET_ERROR\<close> is the result \<open>Fail\<close>; the others come with the packet after what the handler has read.\<close>

type_synonym 'c engine = "'c Quic \<Rightarrow> 'c Quic \<times> unit res"
type_synonym 'c recv = "('c Quic \<times> (RPacket \<times> QuicFlowReturn) res) option"

definition QuicLongPktParse ::
    "env \<Rightarrow> 'c evp_keys \<Rightarrow> 'c Quic \<Rightarrow> RPacket \<Rightarrow> u8 \<Rightarrow> u8 \<Rightarrow> ('c Quic \<times> (RPacket \<times> QUIC_DATA option) res) option" where
  "QuicLongPktParse e ek quic pkt flags type =
     (if \<not> QUIC_PACKET_IS_LONG_PACKET flags then Some (quic, Inl Fail)
      else if flags_lpacket_type flags \<noteq> type then Some (quic, Inl Fail)
      else QuicLPacketHeaderParse e ek quic pkt)"

definition update_dcid :: "env \<Rightarrow> 'c Quic \<Rightarrow> QUIC_DATA option \<Rightarrow> u32 \<Rightarrow> RPacket \<Rightarrow> 'c recv" where
  "update_dcid e quic new_dcid type pkt =
     bindSO (Some (case new_dcid of None \<Rightarrow> (quic, Inr ()) | Some d \<Rightarrow> QuicUpdateDcid e quic d type)) (\<lambda>quic1 _.
       Some (quic1, Inr (pkt, QUIC_FLOW_RET_FINISH)))"

definition QuicInitialRecv ::
    "env \<Rightarrow> 'c evp \<Rightarrow> 'c evp_keys \<Rightarrow> 'c engine \<Rightarrow> 'c Quic \<Rightarrow> RPacket \<Rightarrow> u8 \<Rightarrow> 'c recv" where
  "QuicInitialRecv e ev ek tls quic pkt flags =
     bindSO (QuicLongPktParse e ek quic pkt flags QUIC_LPACKET_TYPE_INITIAL) (\<lambda>quic1 (pkt1, new_dcid).
     bindSO (Some (QuicInitPacketParse e ev tls quic1 pkt1 CrInitial)) (\<lambda>quic2 pkt2.
       update_dcid e quic2 new_dcid (ucast QUIC_LPACKET_TYPE_INITIAL) pkt2))"

definition QuicInitialSend :: "'c engine \<Rightarrow> 'c Quic \<Rightarrow> 'c Quic \<times> unit res" where
  "QuicInitialSend tls quic = tls quic"

text \<open>The token may be the one of the peer's parameters, on a client, or that of any identifier of the peer.\<close>

fun token_loop :: "QuicCid list \<Rightarrow> bytes option \<Rightarrow> bool res" where
  "token_loop [] token = Inr False"
| "token_loop (cid # cids) token =
     bindR (QuicMemCmp (Some (cid_token cid)) token QUIC_STATELESS_RESET_TOKEN_LEN) (\<lambda>eq.
       if eq then Inr True else token_loop cids token)"

definition QuicCheckStatelessResetToken :: "'c Quic \<Rightarrow> bytes option \<Rightarrow> 'c Quic \<times> unit res" where
  "QuicCheckStatelessResetToken quic token =
     (if token = None then (quic, Inr ())
      else bindS (quic,
        bindR (if \<not> q_server quic
               then QuicMemCmp (Some (stateless_reset_token (q_peer_param quic))) token QUIC_STATELESS_RESET_TOKEN_LEN
               else Inr False) (\<lambda>eq.
          if eq then Inr True else token_loop (cp_queue (conn_dcid (q_conn quic))) token)) (\<lambda>_ matched.
        (if matched then quic\<lparr>q_state := QUIC_STATEM_CLOSED\<rparr> else quic, Inr ())))"

text \<open>The token is the last 16 bytes of the datagram, when there are more of them. The packet is decrypted in
  place before they are looked at, but what that changes lies more than 16 bytes before the end.\<close>

definition reset_token :: "RPacket \<Rightarrow> bytes option" where
  "reset_token pkt =
     (let offset = RPacketRemaining pkt - of_nat QUIC_STATELESS_RESET_TOKEN_LEN in
      if QUIC_GT offset 0 then ptr_at pkt (RPacketData pkt + uint offset) else None)"

definition or_reset :: "bytes option \<Rightarrow> ('c Quic \<times> 'a res) option \<Rightarrow> ('c Quic \<times> 'a res) option" where
  "or_reset token r = (case r of
     Some (quic, Inl Fail) \<Rightarrow>
       (case QuicCheckStatelessResetToken quic token of (quic1, Inl err) \<Rightarrow> Some (quic1, Inl err) | (quic1, Inr _) \<Rightarrow> Some (quic1, Inl Fail))
   | _ \<Rightarrow> r)"

definition QuicPacketRead ::
    "env \<Rightarrow> 'c evp \<Rightarrow> 'c evp_keys \<Rightarrow> 'c engine \<Rightarrow> 'c Quic \<Rightarrow> RPacket \<Rightarrow> u8 \<Rightarrow> 'c recv" where
  "QuicPacketRead e ev ek tls quic pkt flags =
     bindSO
       (or_reset (reset_token pkt)
         (bindSO (QuicPktHeaderParse e ek quic pkt flags) (\<lambda>quic1 (pkt1, type, new_dcid).
          bindSO (Some (QuicPktBodyParse e ev tls quic1 pkt1 type)) (\<lambda>quic2 pkt2. Some (quic2, Inr (pkt2, type, new_dcid))))))
       (\<lambda>quic3 (pkt3, type, new_dcid). update_dcid e quic3 new_dcid type pkt3)"

definition QuicPacketClosingRecv :: "'c Quic \<Rightarrow> RPacket \<Rightarrow> u8 \<Rightarrow> 'c recv" where
  "QuicPacketClosingRecv quic pkt flags = Some (quic, Inr (pkt, QUIC_FLOW_RET_FINISH))"

definition QuicPacketDrainingRecv :: "'c Quic \<Rightarrow> RPacket \<Rightarrow> u8 \<Rightarrow> 'c recv" where
  "QuicPacketDrainingRecv quic pkt flags = Some (quic, Inr (pkt, QUIC_FLOW_RET_FINISH))"

text \<open>The client's and the server's handler of the first packet. The client chooses the identifier whose packets
  get the Initial keys, when it has none.\<close>

definition QuicClientInitialSend ::
    "env \<Rightarrow> 'c evp_keys \<Rightarrow> 'c engine \<Rightarrow> 'c Quic \<Rightarrow> ('c Quic \<times> unit res) option" where
  "QuicClientInitialSend e ek tls quic =
     bindSO (Some (if qd_data (q_dcid quic) = None
                   then (case QuicCidGen e 0 (q_dcid quic) (ucast (q_cid_len quic)) of (d, r) \<Rightarrow> (quic\<lparr>q_dcid := d\<rparr>, r))
                   else (quic, Inr ()))) (\<lambda>quic1 _.
     bindSO (QuicCreateInitialDecoders e ek quic1 (q_version quic1) (q_dcid quic1)) (\<lambda>quic2 _.
       Some (case QuicInitialSend tls quic2 of
         (quic3, r) \<Rightarrow> (quic3\<lparr>q_tls_buffer := QuicBufReserve (q_tls_buffer quic3)\<rparr>, r))))"

definition QuicClientInitialRecv ::
    "env \<Rightarrow> 'c evp \<Rightarrow> 'c evp_keys \<Rightarrow> 'c engine \<Rightarrow> 'c Quic \<Rightarrow> RPacket \<Rightarrow> u8 \<Rightarrow> 'c recv" where
  "QuicClientInitialRecv e ev ek tls quic pkt flags =
     bindSO (QuicInitialRecv e ev ek tls quic pkt flags) (\<lambda>quic1 (pkt1, ret).
       Some (quic1\<lparr>q_state := QUIC_STATEM_HANDSHAKE\<rparr>, Inr (pkt1, QUIC_FLOW_RET_WANT_READ)))"

definition QuicServerInitialRecv ::
    "env \<Rightarrow> 'c evp \<Rightarrow> 'c evp_keys \<Rightarrow> 'c engine \<Rightarrow> 'c Quic \<Rightarrow> RPacket \<Rightarrow> u8 \<Rightarrow> 'c recv" where
  "QuicServerInitialRecv e ev ek tls quic pkt flags =
     (case QuicInitialRecv e ev ek tls quic pkt flags of
        None \<Rightarrow> None
      | Some (quic1, r) \<Rightarrow>
          let quic2 = (if ok r then quic1\<lparr>q_state := QUIC_STATEM_HANDSHAKE\<rparr> else quic1)
          in Some (quic2\<lparr>q_tls_buffer := QuicBufClear (q_tls_buffer quic2)\<rparr>, r))"

section \<open>The tables\<close>

datatype pre_work = ClientInitialSend | InitialSend
datatype recv_handler = ClientInitialRecv | ServerInitialRecv | PacketRead | ClosingRecv | DrainingRecv

record QuicStatemFlow =
  sf_pre_work :: "pre_work option"
  sf_recv :: "recv_handler option"

text \<open>An entry that the initialiser leaves out is null, as that of \<^verbatim>\<open>QUIC_STATEM_CLOSED\<close>.\<close>

fun client_statem :: "QuicStatem \<Rightarrow> QuicStatemFlow" where
  "client_statem QUIC_STATEM_INITIAL = \<lparr>sf_pre_work = Some ClientInitialSend, sf_recv = Some ClientInitialRecv\<rparr>"
| "client_statem QUIC_STATEM_HANDSHAKE = \<lparr>sf_pre_work = None, sf_recv = Some PacketRead\<rparr>"
| "client_statem QUIC_STATEM_HANDSHAKE_DONE = \<lparr>sf_pre_work = None, sf_recv = Some PacketRead\<rparr>"
| "client_statem QUIC_STATEM_CLOSING = \<lparr>sf_pre_work = None, sf_recv = Some ClosingRecv\<rparr>"
| "client_statem QUIC_STATEM_DRAINING = \<lparr>sf_pre_work = None, sf_recv = Some DrainingRecv\<rparr>"
| "client_statem QUIC_STATEM_CLOSED = \<lparr>sf_pre_work = None, sf_recv = None\<rparr>"

fun server_statem :: "QuicStatem \<Rightarrow> QuicStatemFlow" where
  "server_statem QUIC_STATEM_INITIAL = \<lparr>sf_pre_work = None, sf_recv = Some ServerInitialRecv\<rparr>"
| "server_statem QUIC_STATEM_HANDSHAKE = \<lparr>sf_pre_work = Some InitialSend, sf_recv = Some PacketRead\<rparr>"
| "server_statem QUIC_STATEM_HANDSHAKE_DONE = \<lparr>sf_pre_work = None, sf_recv = Some PacketRead\<rparr>"
| "server_statem QUIC_STATEM_CLOSING = \<lparr>sf_pre_work = None, sf_recv = Some ClosingRecv\<rparr>"
| "server_statem QUIC_STATEM_DRAINING = \<lparr>sf_pre_work = None, sf_recv = Some DrainingRecv\<rparr>"
| "server_statem QUIC_STATEM_CLOSED = \<lparr>sf_pre_work = None, sf_recv = None\<rparr>"

fun statem_pre_work ::
    "env \<Rightarrow> 'c evp_keys \<Rightarrow> 'c engine \<Rightarrow> pre_work option \<Rightarrow> 'c Quic \<Rightarrow> ('c Quic \<times> unit res) option" where
  "statem_pre_work e ek tls None quic = Some (quic, Inr ())"
| "statem_pre_work e ek tls (Some ClientInitialSend) quic = QuicClientInitialSend e ek tls quic"
| "statem_pre_work e ek tls (Some InitialSend) quic = Some (QuicInitialSend tls quic)"

fun statem_recv ::
    "env \<Rightarrow> 'c evp \<Rightarrow> 'c evp_keys \<Rightarrow> 'c engine \<Rightarrow> recv_handler option \<Rightarrow> 'c Quic \<Rightarrow> RPacket \<Rightarrow> u8 \<Rightarrow> 'c recv" where
  "statem_recv e ev ek tls None quic pkt flags = Some (quic, Inl Null_ptr)"
| "statem_recv e ev ek tls (Some ClientInitialRecv) quic pkt flags = QuicClientInitialRecv e ev ek tls quic pkt flags"
| "statem_recv e ev ek tls (Some ServerInitialRecv) quic pkt flags = QuicServerInitialRecv e ev ek tls quic pkt flags"
| "statem_recv e ev ek tls (Some PacketRead) quic pkt flags = QuicPacketRead e ev ek tls quic pkt flags"
| "statem_recv e ev ek tls (Some ClosingRecv) quic pkt flags = QuicPacketClosingRecv quic pkt flags"
| "statem_recv e ev ek tls (Some DrainingRecv) quic pkt flags = QuicPacketDrainingRecv quic pkt flags"

section \<open>The loops\<close>

definition QuicStatemReadBytes ::
    "env \<Rightarrow> 'w quic_bio \<Rightarrow> 'c Quic \<Rightarrow> 'w \<Rightarrow> ('c Quic \<times> 'w) \<times> RPacket res" where
  "QuicStatemReadBytes e bio quic w =
     bindS (QuicDatagramRecv bio quic w (fresh_mem e (unat (q_mss quic)))) (\<lambda>s (m, rlen).
       (s, Inr (RPacketBufInit m 0 (of_nat rlen))))"

text \<open>The next packet: a new datagram, when one is wanted and nothing of the last is left, or the rest of the last.\<close>

definition next_packet ::
    "env \<Rightarrow> 'w quic_bio \<Rightarrow> 'c Quic \<Rightarrow> 'w \<Rightarrow> RPacket \<Rightarrow> ('c Quic \<times> 'w) \<times> RPacket res" where
  "next_packet e bio quic w pkt =
     (if q_read_state quic = QUIC_WANT_DATA \<and> RPacketRemaining pkt = 0
      then bindS (QuicStatemReadBytes e bio quic w) (\<lambda>(quic1, w1) pkt1. ((quic1\<lparr>q_read_state := QUIC_DATA_READY\<rparr>, w1), Inr pkt1))
      else ((quic, w), Inr (RPacketUpdate pkt)))"

partial_function (option) read_loop ::
    "env \<Rightarrow> 'c evp \<Rightarrow> 'c evp_keys \<Rightarrow> 'c engine \<Rightarrow> 'w quic_bio \<Rightarrow> (QuicStatem \<Rightarrow> QuicStatemFlow) \<Rightarrow> 'c Quic \<Rightarrow> 'w \<Rightarrow> RPacket \<Rightarrow>
     QuicFlowReturn option \<Rightarrow> (('c Quic \<times> 'w) \<times> unit res) option" where
  "read_loop e ev ek tls bio sm quic w pkt ret =
     (if ret = Some QUIC_FLOW_RET_FINISH \<and> RPacketRemaining pkt = 0 then Some ((quic, w), Inr ())
      else case next_packet e bio quic w pkt of
        (s1, Inl err) \<Rightarrow> Some (s1, Inl err)
      | (s1, Inr pkt1) \<Rightarrow>
          (case QuicGetPktFlags pkt1 of
             Inl err \<Rightarrow> Some (s1, Inl err)
           | Inr (flags, pkt2) \<Rightarrow>
               (case statem_recv e ev ek tls (sf_recv (sm (q_state (fst s1)))) (fst s1) pkt2 flags of
                  None \<Rightarrow> None
                | Some (quic2, Inl err) \<Rightarrow> Some ((quic2, snd s1), Inl err)
                | Some (quic2, Inr (pkt3, ret')) \<Rightarrow>
                    if ret' = QUIC_FLOW_RET_FINISH then read_loop e ev ek tls bio sm quic2 (snd s1) pkt3 (Some ret')
                    else if ret' = QUIC_FLOW_RET_WANT_READ
                    then read_loop e ev ek tls bio sm (quic2\<lparr>q_read_state := QUIC_WANT_DATA\<rparr>) (snd s1) pkt3 (Some ret')
                    else Some ((quic2, snd s1), Inl Fail))))"

definition QuicReadStateMachine ::
    "env \<Rightarrow> 'c evp \<Rightarrow> 'c evp_keys \<Rightarrow> 'c engine \<Rightarrow> 'w quic_bio \<Rightarrow> (QuicStatem \<Rightarrow> QuicStatemFlow) \<Rightarrow> 'c Quic \<Rightarrow> 'w \<Rightarrow>
     (('c Quic \<times> 'w) \<times> unit res) option" where
  "QuicReadStateMachine e ev ek tls bio sm quic w =
     read_loop e ev ek tls bio sm (quic\<lparr>q_read_state := QUIC_WANT_DATA\<rparr>) w (RPacketBufInit [] 0 0) None"

text \<open>Sending, and giving up when the datagrams could not all be written.\<close>

definition send_all ::
    "env \<Rightarrow> 'c evp \<Rightarrow> 'w quic_bio \<Rightarrow> 'c Quic \<times> 'w \<Rightarrow> ('c Quic \<times> 'w) \<times> unit res" where
  "send_all e ev bio s =
     bindS (QuicSendPacket e ev bio (fst s) (snd s)) (\<lambda>s1 _. (s1, if QuicWantWrite (fst s1) then Inl Fail else Inr ()))"

text \<open>An error of the pre-work or of reading is looked at after what is queued has been sent.\<close>

definition after_send ::
    "env \<Rightarrow> 'c evp \<Rightarrow> 'w quic_bio \<Rightarrow> ('c Quic \<times> 'w) \<times> unit res \<Rightarrow> ('c Quic \<times> 'w) \<times> unit res" where
  "after_send e ev bio r = (case r of
     (s, Inl err) \<Rightarrow> if err = Fail then bindS (send_all e ev bio s) (\<lambda>s1 _. (s1, Inl Fail)) else (s, Inl err)
   | (s, Inr _) \<Rightarrow> send_all e ev bio s)"

partial_function (option) QuicStateMachineAct ::
    "env \<Rightarrow> 'c evp \<Rightarrow> 'c evp_keys \<Rightarrow> 'c engine \<Rightarrow> 'w quic_bio \<Rightarrow> (QuicStatem \<Rightarrow> QuicStatemFlow) \<Rightarrow> 'c Quic \<Rightarrow> 'w \<Rightarrow>
     (('c Quic \<times> 'w) \<times> unit res) option" where
  "QuicStateMachineAct e ev ek tls bio sm quic w =
     (case statem_pre_work e ek tls (sf_pre_work (sm (q_state quic))) quic of
        None \<Rightarrow> None
      | Some (quic1, r) \<Rightarrow>
          (case after_send e ev bio ((quic1, w), r) of
             (s2, Inl err) \<Rightarrow> Some (s2, Inl err)
           | (s2, Inr _) \<Rightarrow>
               (case QuicReadStateMachine e ev ek tls bio sm (fst s2) (snd s2) of
                  None \<Rightarrow> None
                | Some r3 \<Rightarrow>
                    (case after_send e ev bio r3 of
                       (s4, Inl err) \<Rightarrow> Some (s4, Inl err)
                     | (s4, Inr _) \<Rightarrow>
                         if q_state (fst s4) = QUIC_STATEM_HANDSHAKE_DONE then Some (s4, Inr ())
                         else QuicStateMachineAct e ev ek tls bio sm (fst s4) (snd s4)))))"

definition QuicConnect ::
    "env \<Rightarrow> 'c evp \<Rightarrow> 'c evp_keys \<Rightarrow> 'c engine \<Rightarrow> 'w quic_bio \<Rightarrow> 'c Quic \<Rightarrow> 'w \<Rightarrow> (('c Quic \<times> 'w) \<times> unit res) option" where
  "QuicConnect e ev ek tls bio quic w = QuicStateMachineAct e ev ek tls bio client_statem quic w"

definition QuicAccept ::
    "env \<Rightarrow> 'c evp \<Rightarrow> 'c evp_keys \<Rightarrow> 'c engine \<Rightarrow> 'w quic_bio \<Rightarrow> 'c Quic \<Rightarrow> 'w \<Rightarrow> (('c Quic \<times> 'w) \<times> unit res) option" where
  "QuicAccept e ev ek tls bio quic w = QuicStateMachineAct e ev ek tls bio server_statem quic w"

section \<open>Stateless reset\<close>

lemma mem_slice_start: "n \<le> length m \<Longrightarrow> mem_slice m 0 n = Inr (take n m)"
  by (simp add: mem_slice_def)

lemma ptr_bytes_suffix:
  assumes "rp_wf p" and "k \<le> length (rp_view p)"
  shows "ptr_bytes (ptr_at p (rp_curr p + int k)) (length (rp_view p) - k) = Inr (drop k (rp_view p))"
proof -
  have c: "0 \<le> rp_curr p" "nat (rp_curr p + int k) = nat (rp_curr p) + k" using assms(1) by (simp_all add: rp_wf_def nat_add_distrib)
  let ?n = "unat (rp_remaining p)"
  have l: "length (rp_view p) = ?n" using assms(1) by (rule length_rp_view)
  have "nat (rp_curr p) + ?n \<le> length (rp_buf p)" using assms(1) by (simp add: rp_wf_nat)
  then have "?n - k \<le> length (drop (nat (rp_curr p) + k) (rp_buf p))" using assms(2) l by simp
  moreover have "drop k (rp_view p) = take (?n - k) (drop (nat (rp_curr p) + k) (rp_buf p))"
    by (simp add: rp_view_def drop_take add.commute)
  ultimately show ?thesis using c l by (simp only: ptr_bytes_def ptr_at_def option.case mem_slice_start)
qed

text \<open>The last bytes of a packet that is longer than a token are the token.\<close>

lemma reset_token_last:
  assumes "rp_wf pkt" and "rp_view pkt = junk @ token" and "length token = QUIC_STATELESS_RESET_TOKEN_LEN" and "junk \<noteq> []"
  shows "reset_token pkt \<noteq> None" and "ptr_bytes (reset_token pkt) QUIC_STATELESS_RESET_TOKEN_LEN = Inr token"
proof -
  have l: "unat (rp_remaining pkt) = length junk + 16" "length (rp_view pkt) = length junk + 16"
    using length_rp_view[OF assms(1)] assms(2,3) by (simp_all add: QUIC_STATELESS_RESET_TOKEN_LEN_def)
  have "unat (rp_remaining pkt) < 2 ^ 31" using assms(1) length_rp_view[OF assms(1)] by (simp add: rp_wf_nat)
  then have j: "length junk < 2147483648 - 16" using l by simp
  let ?o = "rp_remaining pkt - 16"
  have o: "unat ?o = length junk" using l by (subst unat_sub) (simp_all add: word_le_nat_alt)
  then have gt: "QUIC_GT ?o 0" using j assms(4) by (simp add: quic_cmp_unat)
  have u: "uint ?o = int (length junk)" using o by (simp only: uint_nat)
  then have r: "reset_token pkt = ptr_at pkt (rp_curr pkt + int (length junk))"
    using gt by (simp add: reset_token_def RPacketRemaining_def RPacketData_def QUIC_STATELESS_RESET_TOKEN_LEN_def Let_def)
  show "reset_token pkt \<noteq> None" by (simp add: r ptr_at_def)
  show "ptr_bytes (reset_token pkt) QUIC_STATELESS_RESET_TOKEN_LEN = Inr token"
    using ptr_bytes_suffix[OF assms(1), of "length junk"] assms(2) l(2) by (simp add: r QUIC_STATELESS_RESET_TOKEN_LEN_def)
qed

lemma QuicMemCmp_ok:
  "ptr_bytes p n = Inr a \<Longrightarrow> ptr_bytes q n = Inr b \<Longrightarrow> QuicMemCmp p q n = Inr (a = b)"
  by (simp add: QuicMemCmp_def)

text \<open>A short packet that is not for this connection.\<close>

lemma wrong_dcid_fails:
  assumes "rp_wf pkt" and "qd_data (q_scid quic) = Some scid" and "qd_len (q_scid quic) = of_nat (length scid)"
    and "scid \<noteq> []" and "length scid < 2 ^ 31" and "take (length scid) (rp_view pkt) \<noteq> scid"
    and "cp_queue (conn_scid (q_conn quic)) = []"
  shows "QuicSPacketDcidParse quic pkt = Inl Fail"
proof -
  let ?n = "of_nat (length scid) :: u64"
  have c: "ucast (ucast ?n :: u32) = ?n"
    using assms(5) by (simp add: word_unat_eq_iff unat_of_nat take_bit_nat_eq_self unsigned_ucast_eq unsigned_take_bit_eq)
  have n: "unat ?n = length scid" "uint ?n < 2 ^ 31" using assms(5) by (simp add: of_nat_unat64, simp only: uint_less_unat, simp add: of_nat_unat64)
  have nz: "?n \<noteq> 0" using n(1) assms(4) by auto
  show ?thesis
  proof (cases "length scid \<le> length (rp_view pkt)")
    case False
    then show ?thesis using c n nz assms(3) RPacketGetBytes_spec[OF assms(1) n(2)] by (simp add: QuicSPacketDcidParse_def Let_def)
  next
    case True
    have g: "RPacketGetBytes pkt ?n = Inr (rp_curr pkt, RPacketForward pkt ?n)"
      using RPacketGetBytes_spec[OF assms(1) n(2)] True n(1) by simp
    have "mem_slice (rp_buf pkt) (rp_curr pkt) (length scid) = Inr (take (length scid) (rp_view pkt))"
      using rp_slice[OF assms(1) True] .
    then have "ptr_bytes (ptr_at pkt (rp_curr pkt)) (length scid) = Inr (take (length scid) (rp_view pkt))"
      using assms(1) by (simp add: ptr_bytes_def ptr_at_def mem_slice_def rp_wf_def split: if_splits)
    moreover have "ptr_bytes (Some scid) (length scid) = Inr scid" by (simp add: ptr_bytes_def mem_slice_def)
    ultimately have "QuicMemCmp (qd_data (q_scid quic)) (ptr_at pkt (rp_curr pkt)) (length scid) = Inr False"
      using assms(2,6) by (simp add: QuicMemCmp_ok)
    then show ?thesis using c n nz g assms(3,7) by (simp add: QuicSPacketDcidParse_def Let_def QuicCidMatch_def)
  qed
qed

text \<open>C32: a client whose server sent no stateless reset token compares with the 16 zero bytes the field was made with,
  so a datagram that ends in 16 zero bytes closes it: any short packet that is not even for this connection
  will do, with no key and no secret. The state it is left in has no handler for the next packet, which is
  then a call through a null pointer.\<close>

theorem zero_token_closes_client:
  assumes "\<not> q_server quic" and "stateless_reset_token (q_peer_param quic) = replicate 16 0"
    and "qd_data (q_scid quic) = Some scid" and "qd_len (q_scid quic) = of_nat (length scid)"
    and "scid \<noteq> []" and "length scid < 2 ^ 31" and "cp_queue (conn_scid (q_conn quic)) = []"
    and "rp_wf pkt" and "rp_view pkt = junk @ replicate 16 0" and "junk \<noteq> []"
    and "take (length scid) (rp_view pkt) \<noteq> scid" and "\<not> QUIC_PACKET_IS_LONG_PACKET flags"
  shows "QuicPacketRead e ev ek tls quic pkt flags = Some (quic\<lparr>q_state := QUIC_STATEM_CLOSED\<rparr>, Inl Fail)
    \<and> statem_recv e ev ek tls (sf_recv (client_statem QUIC_STATEM_CLOSED)) quic' pkt' flags' = Some (quic', Inl Null_ptr)"
proof -
  have "length (replicate 16 (0 :: u8)) = QUIC_STATELESS_RESET_TOKEN_LEN" by (simp add: QUIC_STATELESS_RESET_TOKEN_LEN_def)
  note token = reset_token_last[OF assms(8,9) this assms(10)]
  have "ptr_bytes (Some (replicate 16 0)) QUIC_STATELESS_RESET_TOKEN_LEN = Inr (replicate 16 0)"
    by (simp add: ptr_bytes_def mem_slice_start QUIC_STATELESS_RESET_TOKEN_LEN_def)
  from QuicMemCmp_ok[OF this token(2)]
  have check: "QuicCheckStatelessResetToken quic (reset_token pkt) = (quic\<lparr>q_state := QUIC_STATEM_CLOSED\<rparr>, Inr ())"
    using token(1) assms(1,2) by (auto simp: QuicCheckStatelessResetToken_def)
  have "QuicPktHeaderParse e ek quic pkt flags = Some (quic, Inl Fail)"
    using wrong_dcid_fails[OF assms(8,3,4,5,6,11,7)] assms(12) by (simp add: QuicPktHeaderParse_def QuicSPacketHeaderParse_def)
  then show ?thesis using check by (simp add: QuicPacketRead_def or_reset_def)
qed

text \<open>A client with the identifier 1, 2, 3, 4, 5, 6, 7, 8 that receives 17 zero bytes.\<close>

definition demo_peer :: "demo_ctx Quic" where
  "demo_peer = (sample_quic (demo_crypto 0))\<lparr>q_state := QUIC_STATEM_HANDSHAKE,
     q_peer_param := demo_params\<lparr>stateless_reset_token := replicate 16 0\<rparr>,
     q_scid := \<lparr>qd_data = Some [1, 2, 3, 4, 5, 6, 7, 8], qd_len = 8\<rparr>\<rparr>"

theorem zero_token_closes_client_witness:
  "QuicPacketRead env0 demo_evp demo_keys (\<lambda>quic. (quic, Inr ())) demo_peer (RPacketBufInit (replicate 17 0) 0 17) 0x40
     = Some (demo_peer\<lparr>q_state := QUIC_STATEM_CLOSED\<rparr>, Inl Fail)"
proof -
  let ?b = "replicate 17 (0 :: u8)"
  have w: "rp_wf (RPacketBufInit ?b 0 17)" by (rule rp_wf_BufInit) simp_all
  have v: "rp_view (RPacketBufInit ?b 0 17) = [0] @ replicate 16 0" using rp_view_full[of ?b] by (simp flip: replicate_Suc)
  have "\<not> q_server demo_peer" "stateless_reset_token (q_peer_param demo_peer) = replicate 16 0"
    "qd_data (q_scid demo_peer) = Some [1, 2, 3, 4, 5, 6, 7, 8]" "qd_len (q_scid demo_peer) = of_nat (length [1 :: u8, 2, 3, 4, 5, 6, 7, 8])"
    "cp_queue (conn_scid (q_conn demo_peer)) = []"
    by (simp_all add: demo_peer_def sample_quic_def QuicTrans.defs demo_quic_def demo_params_def QuicCidPoolInit_def)
  moreover have "\<not> QUIC_PACKET_IS_LONG_PACKET 0x40" by code_simp
  ultimately show ?thesis
    using zero_token_closes_client[of demo_peer "[1, 2, 3, 4, 5, 6, 7, 8]" "RPacketBufInit ?b 0 17" "[0]" 64] w v
    by (simp add: v)
qed

end
