(* ===== verification/Statem_Inv.thy ===== *)
theory Statem_Inv
  imports Statem Frame_Refs
begin

text \<open>
  What holds of a connection over a whole packet: which packet buffers are live afterwards, and which states
  the frames of a packet can put it in. A property of the connection that survives the updates the frame
  parsers make survives the frames; the locales name these updates, those of queueing an acknowledgement first.
\<close>

section \<open>Properties that survive frames\<close>

abbreviation holds :: "('c Quic \<Rightarrow> bool) \<Rightarrow> 'c Quic \<times> 'b res \<Rightarrow> bool" where
  "holds S \<equiv> post (\<lambda>quic _. S quic) S"

lemma holds_pair: "S quic \<Longrightarrow> holds S (quic, r)"
  by (simp add: post_pair)

lemma holds_bind: "holds S r \<Longrightarrow> (\<And>s x. S s \<Longrightarrow> holds S (f s x)) \<Longrightarrow> holds S (bindS r f)"
  by (simp only: post_simps) (erule post_mono, simp_all)

lemma holds_bind_pair: "S quic \<Longrightarrow> (\<And>x. r = Inr x \<Longrightarrow> holds S (f quic x)) \<Longrightarrow> holds S (bindS (quic, r) f)"
  by (simp add: post_pair)

lemma holds_decode: "S quic \<Longrightarrow> (\<And>v q. holds S (f quic (v, q))) \<Longrightarrow> holds S (bindS (decode quic p) f)"
  unfolding decode_def by (rule holds_bind_pair) auto

lemma holds_if_decode:
  "S quic \<Longrightarrow> (\<And>v q. holds S (f quic (v, q))) \<Longrightarrow> holds S (bindS (if b then decode quic p else (quic, Inr (x, p'))) f)"
  using holds_decode[of S quic f p] by (cases b) simp_all

lemma holdsD: "holds S r \<Longrightarrow> S (fst r)"
  by (simp add: post_def split: prod.splits sum.splits)

lemma holdsI: "S (fst r) \<Longrightarrow> holds S r"
  by (cases r) (simp add: post_pair)

lemma holds_case: "(\<And>a b. x = (a, b) \<Longrightarrow> post P E (f a b)) \<Longrightarrow> post P E (case x of (a, b) \<Rightarrow> f a b)"
  by (cases x) simp

lemma holds_sum:
  "(\<And>a. x = Inl a \<Longrightarrow> post P E (f a)) \<Longrightarrow> (\<And>b. x = Inr b \<Longrightarrow> post P E (g b)) \<Longrightarrow> post P E (case x of Inl a \<Rightarrow> f a | Inr b \<Rightarrow> g b)"
  by (cases x) simp_all

text \<open>Streams: only the table changes.\<close>

lemma instance_update: "QuicStreamGetInstance quic i = (quic', r) \<Longrightarrow> \<exists>s. quic' = quic\<lparr>q_stream := s\<rparr>"
proof -
  have "\<exists>s. quic = quic\<lparr>q_stream := s\<rparr>" by (rule exI[of _ "q_stream quic"]) simp
  then show "QuicStreamGetInstance quic i = (quic', r) \<Longrightarrow> \<exists>s. quic' = quic\<lparr>q_stream := s\<rparr>"
    by (auto simp: QuicStreamGetInstance_def Let_def split: option.splits sum.splits if_splits)
qed

lemma flags_update: "QBufStreamFlagsProc quic i fl = Inr quic' \<Longrightarrow> \<exists>s. quic' = quic\<lparr>q_stream := s\<rparr>"
proof -
  have "\<exists>s. quic = quic\<lparr>q_stream := s\<rparr>" by (rule exI[of _ "q_stream quic"]) simp
  then show "QBufStreamFlagsProc quic i fl = Inr quic' \<Longrightarrow> \<exists>s. quic' = quic\<lparr>q_stream := s\<rparr>"
    by (auto simp: QBufStreamFlagsProc_def q_stream_upd_def Let_def split: sum.splits if_splits prod.splits dest!: instance_update)
qed

lemma ack_loop_update: "ack_loop quic qbs s l = Inr (quic', x) \<Longrightarrow> \<exists>s. quic' = quic\<lparr>q_stream := s\<rparr>"
proof (induction qbs arbitrary: quic quic' x)
  case Nil
  then show ?case by (auto intro!: exI[of _ "q_stream quic"])
next
  case (Cons qb qbs)
  have "\<exists>s. quic = quic\<lparr>q_stream := s\<rparr>" by (rule exI[of _ "q_stream quic"]) simp
  then show ?case using Cons by (auto simp: bindR_eq_Inr split: if_splits dest!: flags_update Cons.IH)
qed

lemma store_free_dom: "store_free st b = Inr st' \<Longrightarrow> dom st' \<subseteq> dom st"
  by (auto simp: store_free_def QuicDataBufFree_def Let_def split: option.splits if_splits)

lemma create_dom: "QuicStreamDataCreate e st h offset data len = Inr (sd, st') \<Longrightarrow> dom st' = dom st"
  by (elim data_create_shape) auto

lemma add_update:
  assumes "QuicStreamDataAdd quic sd si = Inr (quic', si')"
  shows "\<exists>s st. quic' = quic\<lparr>q_stream := s, q_bufs := st\<rparr> \<and> dom st \<subseteq> dom (q_bufs quic)"
proof -
  have flow: "QuicStreamRecvFlowCtrl q si n = Inr (q', si') \<Longrightarrow> \<exists>s. q' = q\<lparr>q_stream := s\<rparr>" for q q' si si' n
    by (auto simp: QuicStreamRecvFlowCtrl_def Let_def bindR_eq_Inr split: if_splits)
  have free: "free_sd q sd = Inr q' \<Longrightarrow> \<exists>st. q' = q\<lparr>q_bufs := st\<rparr> \<and> dom st \<subseteq> dom (q_bufs q)" for q q' sd
    by (auto simp: free_sd_def QuicStreamDataFree_def bindR_eq_Inr dest: store_free_dom)
  have same: "\<exists>s st. quic\<lparr>q_stream := t\<rparr> = quic\<lparr>q_stream := s, q_bufs := st\<rparr> \<and> dom st \<subseteq> dom (q_bufs quic)" for t
    by (intro exI[of _ t] exI[of _ "q_bufs quic"]) simp
  have freed: "\<exists>s st'. quic\<lparr>q_bufs := st\<rparr> = quic\<lparr>q_stream := s, q_bufs := st'\<rparr> \<and> dom st' \<subseteq> dom (q_bufs quic)"
    if "dom st \<subseteq> dom (q_bufs quic)" for st
    using that by (intro exI[of _ "q_stream quic"] exI[of _ st]) simp
  show ?thesis using assms same freed
    by (auto simp: QuicStreamDataAdd_def QuicStreamDataAddOfo_def Let_def bindR_eq_Inr split: sum.splits if_splits dest!: flow free)
qed

section \<open>Queueing an acknowledgement\<close>

locale tx_invariant =
  fixes S :: "'c Quic \<Rightarrow> bool"
  assumes queue: "S quic \<Longrightarrow> S (quic\<lparr>q_tx_queue := t\<rparr>)"

locale queue_invariant = tx_invariant S for S :: "'c Quic \<Rightarrow> bool" +
  assumes streams: "S quic \<Longrightarrow> S (quic\<lparr>q_stream := s\<rparr>)"
    and space: "S quic \<Longrightarrow> S (crypto_upd quic sp c)"
begin

lemma upd: "S quic \<Longrightarrow> S (q_stream_upd quic i si)"
  by (simp add: q_stream_upd_def streams)

lemma ack_build: "QuicFrameAckBuild e quic pkt sp = ((quic', pkt'), r) \<Longrightarrow> S quic \<Longrightarrow> S quic'"
  by (auto simp: QuicFrameAckBuild_def space split: sum.splits prod.splits)

lemma ack_frame: "S quic \<Longrightarrow> S (fst (QuicAckFrameBuild e quic pkt_type))"
proof -
  assume ok: "S quic"
  let ?node = "\<lparr>fn_type = QUIC_FRAME_TYPE_ACK, fn_arg = None, fn_larg = 0\<rparr> :: QuicFrameNode"
  have p: "frame_handler ! unat QUIC_FRAME_TYPE_ACK = fp (Some AckParser) (Some AckBuild)" by code_simp
  have "build_nodes e quic pkt sp [?node] = ((quic', pkt'), r) \<Longrightarrow> S quic'" for pkt sp quic' pkt' r
    using ok by (auto simp: p fp_def Let_def intro: ack_build split: sum.splits prod.splits if_splits)
  then have "QuicFrameBuild e quic pkt_type [?node] = (quic', r) \<Longrightarrow> S quic'" for quic' r
    using ok
    by (auto simp: QuicFrameBuild_def QuicFrameAddQueue_def QuicAddQueue_def Let_def queue simp del: build_nodes.simps
        split: sum.splits prod.splits if_splits)
  then show ?thesis using ok by (auto simp: QuicAckFrameBuild_def bindS_def split: sum.splits prod.splits)
qed

end

section \<open>The parsers\<close>

locale frame_invariant = queue_invariant S for S :: "'c Quic \<Rightarrow> bool" +
  assumes bufs: "S quic \<Longrightarrow> dom st \<subseteq> dom (q_bufs quic) \<Longrightarrow> S (quic\<lparr>q_bufs := st\<rparr>)"
    and tls_buffer: "S quic \<Longrightarrow> S (quic\<lparr>q_tls_buffer := b\<rparr>)"
    and token: "S quic \<Longrightarrow> S (quic\<lparr>q_token := d\<rparr>)"
    and peer: "S quic \<Longrightarrow> S (quic\<lparr>q_peer_param := p\<rparr>)"
    and conn: "S quic \<Longrightarrow> S (quic\<lparr>q_conn := n\<rparr>)"
    and state: "S quic \<Longrightarrow> S (quic\<lparr>q_state := t\<rparr>)"
begin

lemma handshake: "S quic \<Longrightarrow> S (quic\<lparr>q_handshake := c\<rparr>)"
  using space[of quic CrHandshake c] by simp

lemma done_update: "S quic \<Longrightarrow> S (quic\<lparr>q_state := t, q_handshake := c\<rparr>)"
  using handshake[OF state] by simp

lemma instance_holds: "S quic \<Longrightarrow> (\<And>quic' si. S quic' \<Longrightarrow> holds S (f quic' si)) \<Longrightarrow> holds S (bindS (QuicStreamGetInstance quic i) f)"
proof (rule holds_bind)
  assume "S quic"
  obtain quic' r where g: "QuicStreamGetInstance quic i = (quic', r)" by fastforce
  from instance_update[OF g] obtain s where s: "quic' = quic\<lparr>q_stream := s\<rparr>" by blast
  show "holds S (QuicStreamGetInstance quic i)" unfolding g s using \<open>S quic\<close> by (intro holds_pair streams)
qed

lemma ack_sent_holds: "S quic \<Longrightarrow> (\<And>quic' qb. S quic' \<Longrightarrow> holds S (f quic' qb)) \<Longrightarrow> holds S (bindS (ack_sent quic sp a b start) f)"
proof (rule holds_bind)
  assume "S quic"
  then show "holds S (ack_sent quic sp a b start)"
    by (auto simp: ack_sent_def QBufAckSentPkt_def bindR_eq_Inr post_pair split: sum.splits option.splits
        dest!: ack_loop_update intro: streams space)
qed

lemma if_holds: "S a \<Longrightarrow> S b \<Longrightarrow> S (if c then a else b)"
  by simp

lemmas holds_intros = post_if post_let holds_case holds_sum holds_pair holds_bind_pair holds_decode holds_if_decode instance_holds
  ack_sent_holds if_holds space upd tls_buffer token peer conn state done_update streams

lemma ack_ranges_holds: "S quic \<Longrightarrow> holds S (ack_ranges quic sp k p s qb)"
proof (induction k arbitrary: quic p s qb)
  case (Suc k)
  then show ?case unfolding ack_ranges.simps by (intro holds_intros Suc.IH) assumption+
qed (simp add: holds_pair)

lemma data_holds:
  assumes "S quic" and "QuicStreamDataCreate e (q_bufs quic) h offset data len = Inr (sd, st)"
    and "QuicStreamDataAdd (quic\<lparr>q_bufs := st\<rparr>) sd si = Inr (quic', si')"
  shows "S quic'"
proof -
  have "dom st = dom (q_bufs quic)" using assms(2) by (rule create_dom)
  moreover obtain s st' where s: "quic' = quic\<lparr>q_bufs := st\<rparr>\<lparr>q_stream := s, q_bufs := st'\<rparr>" "dom st' \<subseteq> dom st"
    using add_update[OF assms(3)] by auto
  ultimately have "S (quic\<lparr>q_stream := s\<rparr>)" "dom st' \<subseteq> dom (q_bufs (quic\<lparr>q_stream := s\<rparr>))"
    using streams[OF assms(1)] by simp_all
  then show ?thesis using bufs s(1) by fastforce
qed

lemma add_holds:
  assumes "S quic" and "\<And>quic4 si4. S quic4 \<Longrightarrow> holds S (g quic4 si4)"
  shows "holds S (bindS (quic, QuicStreamDataCreate e (q_bufs quic) h offset data len) (\<lambda>_ (sd, st).
     bindS (quic, QuicStreamDataAdd (quic\<lparr>q_bufs := st\<rparr>) sd si) (\<lambda>_ (quic4, si4). g quic4 si4)))"
  using data_holds[OF assms(1)] assms by (intro holds_bind_pair holds_case) auto

lemma stream_holds: "S quic \<Longrightarrow> holds S (QuicFrameStreamParser e quic p type h)"
  unfolding QuicFrameStreamParser_def
  by (rule holds_decode, assumption, rule post_split, rule holds_if_decode, assumption, rule post_split,
    rule holds_if_decode, assumption, rule post_split, rule instance_holds, assumption, rule post_if, erule holds_pair,
    rule post_let, rule post_let, rule holds_bind_pair, erule upd, rule holds_case, rule post_let, rule post_let,
    rule post_if, rule holds_pair, simp add: upd, rule add_holds, simp add: upd)
    (intro post_let post_if holds_sum holds_pair; simp add: upd streams)

lemma parse_holds: "S quic \<Longrightarrow> holds S (frame_parse e f quic p type sp h)"
  by (cases f; simp only: frame_parse.simps parser_defs param_frame_def QuicFrameNewTokenParser_def
      QuicFrameRetireConnIdParser_def QuicFrameCryptoParser_def; intro holds_intros stream_holds ack_ranges_holds;
      (assumption | simp add: space upd tls_buffer conn)?)

lemma loop_holds: "S quic \<Longrightarrow> holds S (frame_loop e sp h quic pkt c a)"
proof (induction e sp h quic pkt c a rule: frame_loop.induct)
  case (1 e sp h quic pkt c a)
  show ?case
  proof (cases "QuicVariableLengthDecode pkt")
    case (Inl err)
    then show ?thesis using 1(3) by (subst frame_loop.simps) (simp add: post_pair)
  next
    case (Inr x)
    obtain type pkt1 where x: "x = (type, pkt1)" by (cases x)
    let ?p = "frame_handler ! unat type"
    have parsed: "holds S (case frame_parse e f quic pkt1 type sp h of
          (quic1, Inl err) \<Rightarrow> (quic1, Inl err)
        | (quic1, Inr pkt2) \<Rightarrow> frame_loop e sp h quic1 pkt2 (c \<or> type = QUIC_FRAME_TYPE_CRYPTO) (a \<or> QUIC_FRAM_IS_ACK_ELICITING type))"
      if "\<not> type \<ge> QUIC_FRAME_TYPE_MAX" and "\<not> fp_skip ?p" and "fp_parser ?p = Some f" for f
    proof (cases "frame_parse e f quic pkt1 type sp h")
      case (Pair quic1 r)
      then have "S quic1" using parse_holds[OF 1(3), of e f pkt1 type sp h] by (auto dest: holdsD)
      then show ?thesis
        using Pair 1(2)[OF Inr x[symmetric] that(1) refl that(2,3) Pair[symmetric]] by (cases r) simp_all
    qed
    show ?thesis
      using Inr x 1(3) 1(1)[OF Inr x[symmetric]] parsed
      by (subst frame_loop.simps) (auto simp: Let_def split: option.splits)
  qed
qed

lemma do_parser_holds:
  assumes "S quic" and tls: "\<And>quic. S quic \<Longrightarrow> S (fst (tls quic))"
  shows "holds S (QuicFrameDoParser e tls quic pkt sp pkt_type buf)"
proof -
  have ack: "holds S (quiet (QuicAckFrameBuild e q pkt_type))" if "S q" for q
    using ack_frame[OF that, of e pkt_type] by (auto simp: quiet_def post_def split: prod.splits sum.splits)
  have eng: "holds S (tls q)" if "S q" for q using tls[OF that] by (rule holdsI)
  show ?thesis
    unfolding QuicFrameDoParser_def
    by (intro holds_bind[OF loop_holds[OF assms(1)]])
      (auto intro!: holds_bind ack eng holds_pair state simp del: post_simps split: prod.splits)
qed

end
section \<open>The packet buffers over a packet\<close>

text \<open>Between packets: exact references, no parser at work, and the next identity not in use.\<close>

definition bufs_live :: "nat \<Rightarrow> 'c Quic \<Rightarrow> bool" where
  "bufs_live n quic \<longleftrightarrow> conn_ok None n quic \<and> (\<forall>b \<ge> q_next_buf quic. q_bufs quic b = None)"

interpretation bufs: frame_invariant "\<lambda>quic. q_next_buf quic = k \<and> dom (q_bufs quic) \<subseteq> D" for k D
proof (unfold_locales, goal_cases)
  case (3 quic sp c)
  then show ?case by (cases sp) simp_all
qed auto

text \<open>What the frames of a packet need of the engine.\<close>

definition engine_ok :: "'c engine \<Rightarrow> bool" where
  "engine_ok tls \<longleftrightarrow> (\<forall>quic. q_next_buf (fst (tls quic)) = q_next_buf quic \<and> dom (q_bufs (fst (tls quic))) \<subseteq> dom (q_bufs quic)
     \<and> (\<forall>h m. conn_ok h m quic \<longrightarrow> conn_ok h m (fst (tls quic))))"

lemma frames_bufs:
  assumes "engine_ok tls" and "conn_ok h n quic" and "n + length data + 2 < 2 ^ 32"
  shows "let quic' = fst (QuicFrameParse e tls quic data len sp t h) in
    conn_ok h (n + length data) quic' \<and> q_next_buf quic' = q_next_buf quic \<and> dom (q_bufs quic') \<subseteq> dom (q_bufs quic)"
proof -
  let ?p = "RPacketBufInit data 0 len"
  have p: "rp_buf ?p = data" "rp_curr ?p = 0" by (simp_all add: RPacketBufInit_def RPacketHeadSync_def)
  have "keeps h (n + length data) (QuicFrameDoParser e tls quic ?p sp t h)"
    using assms do_parser_keeps[where pkt = ?p, OF assms(2), of tls] by (simp add: p engine_ok_def)
  moreover have "holds (\<lambda>q. q_next_buf q = q_next_buf quic \<and> dom (q_bufs q) \<subseteq> dom (q_bufs quic)) (QuicFrameDoParser e tls quic ?p sp t h)"
  proof (rule bufs.do_parser_holds)
    fix q :: "'a Quic"
    assume "q_next_buf q = q_next_buf quic \<and> dom (q_bufs q) \<subseteq> dom (q_bufs quic)"
    moreover have "q_next_buf (fst (tls q)) = q_next_buf q" "dom (q_bufs (fst (tls q))) \<subseteq> dom (q_bufs q)"
      using assms(1) by (simp_all add: engine_ok_def)
    ultimately show "q_next_buf (fst (tls q)) = q_next_buf quic \<and> dom (q_bufs (fst (tls q))) \<subseteq> dom (q_bufs quic)"
      by (metis subset_trans)
  qed simp
  ultimately show ?thesis using holdsD by (fastforce simp: QuicFrameParse_def Let_def post_def split: prod.splits sum.splits)
qed

lemma bufs_live_cong:
  assumes "q_stream quic' = q_stream quic" and "q_bufs quic' = q_bufs quic" and "q_next_buf quic' = q_next_buf quic"
  shows "bufs_live n quic' = bufs_live n quic"
  using assms conn_ok_cong[of quic' quic None n] by (simp add: bufs_live_def)

lemma bufs_live_mono: "bufs_live n quic \<Longrightarrow> n \<le> m \<Longrightarrow> bufs_live m quic"
  by (auto simp: bufs_live_def intro: conn_ok_mono)

lemma frames_live:
  assumes "engine_ok tls" and "bufs_live n quic" and "n + length data + 2 < 2 ^ 32"
  shows "bufs_live (n + length data) (fst (QuicFrameParse e tls quic data len sp t None))"
proof -
  have "conn_ok None n quic" using assms(2) by (simp add: bufs_live_def)
  from frames_bufs[OF assms(1) this assms(3), of e len sp t] show ?thesis
    using assms(2) unfolding bufs_live_def Let_def domIff subset_iff by (metis domIff subsetD)
qed

text \<open>Opening a packet fills the buffer it is given.\<close>

lemma open_packet_shape:
  assumes "open_packet e ev quic sp msg m n bm = (quic', r)"
  shows "q_stream quic' = q_stream quic" and "q_bufs quic' = q_bufs quic" and "q_next_buf quic' = q_next_buf quic"
    and "r = Inr (pkt1, data, len) \<Longrightarrow> length data = length m"
proof -
  have c: "q_stream (crypto_upd quic sp c) = q_stream quic" "q_bufs (crypto_upd quic sp c) = q_bufs quic"
    "q_next_buf (crypto_upd quic sp c) = q_next_buf quic" for c
    by (cases sp; simp)+
  show "q_stream quic' = q_stream quic" "q_bufs quic' = q_bufs quic" "q_next_buf quic' = q_next_buf quic"
    using assms c by (auto simp: open_packet_def bindS_def split: prod.splits sum.splits)
  have "length data = length m" if "QuicDecryptMessage ev cipher m outl k pn p = Inr (pp, data, len)" for cipher outl k pn p pp
    using that
    by (auto simp: QuicDecryptMessage_def QuicDoCipher_def QuicEvpCipherUpdate_def QuicEvpCipherFinal_def bindR_eq_Inr Let_def
        dest!: mem_copy_length split: if_splits)
  then show "r = Inr (pkt1, data, len) \<Longrightarrow> length data = length m"
    using assms by (auto simp: open_packet_def bindS_def QuicDecryptPacket_def Let_def split: prod.splits sum.splits if_splits)
qed

lemma live_bind_pair:
  "bufs_live n quic \<Longrightarrow> (\<And>x. holds (bufs_live (n + k)) (f quic x)) \<Longrightarrow> holds (bufs_live (n + k)) (bindS (quic, r) f)"
  by (simp add: post_pair bufs_live_mono)

lemma live_decode:
  "bufs_live n quic \<Longrightarrow> (\<And>v q. holds (bufs_live (n + k)) (f quic (v, q))) \<Longrightarrow> holds (bufs_live (n + k)) (bindS (decode quic p) f)"
  unfolding decode_def by (rule live_bind_pair) auto

lemma live_open:
  assumes "engine_ok tls" and "bufs_live n quic" and "n + length m + 2 < 2 ^ 32"
  shows "holds (bufs_live (n + length m))
    (bindS (open_packet e ev quic sp msg m k bm) (\<lambda>quic1 (msg1, data, len).
     bindS (QuicFrameParse e tls quic1 data len sp t None) (\<lambda>quic2 _. (quic2, Inr (g msg1)))))"
proof (cases "open_packet e ev quic sp msg m k bm")
  case (Pair quic1 r)
  note o = open_packet_shape[OF Pair]
  have live: "bufs_live n quic1" using assms(2) bufs_live_cong[OF o(1-3)] by simp
  show ?thesis
  proof (cases r)
    case (Inl err)
    then show ?thesis using Pair live by (simp add: bufs_live_mono)
  next
    case (Inr x)
    obtain msg1 data len where x: "x = (msg1, data, len)" by (cases x)
    have "length data = length m" using o(4) Inr x by blast
    then have "bufs_live (n + length m) (fst (QuicFrameParse e tls quic1 data len sp t None))"
      using frames_live[OF assms(1) live, of data e len sp t] assms(3) by simp
    then show ?thesis using Pair Inr x by (auto simp: post_def bindS_def split: prod.splits sum.splits)
  qed
qed

lemma init_live:
  assumes "engine_ok tls" and "bufs_live n quic" and "n + QUIC_BUF_MAX_LEN + 2 < 2 ^ 32"
  shows "holds (bufs_live (n + QUIC_BUF_MAX_LEN)) (QuicInitPacketParse e ev tls quic pkt sp)"
  unfolding QuicInitPacketParse_def
  using live_open[OF assms(1,2), of "fresh_mem e QUIC_BUF_MAX_LEN" e ev] assms
  by (intro live_decode live_bind_pair holds_case; simp)

lemma handshake_live:
  assumes "engine_ok tls" and "bufs_live n quic" and "n + QUIC_BUF_MAX_LEN + 2 < 2 ^ 32"
  shows "holds (bufs_live (n + QUIC_BUF_MAX_LEN)) (QuicHandshakePacketParse e ev tls quic pkt sp)"
  unfolding QuicHandshakePacketParse_def
  by (rule live_bind_pair[OF assms(2)], rule holds_case)
    (use live_open[OF assms(1,2), of "fresh_mem e QUIC_BUF_MAX_LEN" e ev] assms(3) in simp)

section \<open>A 1-RTT packet\<close>

text \<open>The new buffer has the parser's reference only.\<close>

lemma new_buf_ok:
  assumes "bufs_live n quic" and "db_ref x = 1"
  shows "conn_ok (Some (q_next_buf quic)) n (quic\<lparr>q_bufs := (q_bufs quic)(q_next_buf quic \<mapsto> x), q_next_buf := Suc (q_next_buf quic)\<rparr>)"
proof -
  have "q_bufs quic (q_next_buf quic) = None" using assms(1) by (simp add: bufs_live_def)
  moreover have "ref_count None quic (q_next_buf quic) = 0"
    using assms(1) calculation by (auto simp: bufs_live_def conn_ok_def refs_exact_def)
  ultimately show ?thesis
    using assms by (auto simp: bufs_live_def conn_ok_def refs_exact_def ref_count_def chunks_def)
qed

text \<open>Giving it back leaves the references of the chunks.\<close>

lemma release_ok:
  assumes "conn_ok (Some b) n quic"
  shows "\<exists>st. store_free (q_bufs quic) b = Inr st \<and> conn_ok None n (quic\<lparr>q_bufs := st\<rparr>) \<and> dom st \<subseteq> dom (q_bufs quic)"
proof -
  have "ref_count (Some b) quic b \<noteq> 0" by (simp add: ref_count_def)
  then obtain x where x: "q_bufs quic b = Some x" using assms by (fastforce simp: conn_ok_def refs_exact_def)
  then have r: "unat (db_ref x) = chunk_refs (chunks quic) b + 1" using assms by (simp add: conn_ok_def refs_exact_def ref_count_def)
  then have "unat (db_ref x - 1) = chunk_refs (chunks quic) b" by (simp add: unat_sub word_le_nat_alt)
  moreover from this have "db_ref x - 1 = 0 \<longleftrightarrow> chunk_refs (chunks quic) b = 0" by (metis unat_eq_0)
  moreover have "chunks (quic\<lparr>q_bufs := st\<rparr>) = chunks quic" for st by (simp add: chunks_def)
  moreover have "(q_bufs quic c = None \<longrightarrow> chunk_refs (chunks quic) c = 0) \<and>
      (\<forall>x. q_bufs quic c = Some x \<longrightarrow> unat (db_ref x) = chunk_refs (chunks quic) c \<and> 0 < chunk_refs (chunks quic) c)" if "c \<noteq> b" for c
  proof -
    have "refs_exact (Some b) quic" using assms by (simp add: conn_ok_def)
    from this[unfolded refs_exact_def, rule_format, of c] show ?thesis using that by (auto simp: ref_count_def)
  qed
  ultimately have "conn_ok None n (quic\<lparr>q_bufs := (q_bufs quic)(b := QuicDataBufFree (Some x))\<rparr>)"
    using assms by (simp add: conn_ok_def refs_exact_def ref_count_def QuicDataBufFree_def Let_def)
  moreover have "store_free (q_bufs quic) b = Inr ((q_bufs quic)(b := QuicDataBufFree (Some x)))"
    using x by (simp add: store_free_def)
  ultimately show ?thesis using store_free_dom by blast
qed

lemma one_rtt_live:
  assumes "engine_ok tls" and "bufs_live n quic" and "n + unat (q_mss quic) + 2 < 2 ^ 32"
  shows "bufs_live (n + unat (q_mss quic)) (fst (QuicOneRttParse e ev tls quic pkt sp))"
proof (cases "QuicDataBufCreate e (ucast (q_mss quic))")
  case (Inl err)
  then show ?thesis using assms(2) by (simp add: QuicOneRttParse_def bufs_live_mono)
next
  case (Inr x)
  let ?b = "q_next_buf quic" and ?k = "unat (q_mss quic)"
  define quic1 where "quic1 = quic\<lparr>q_bufs := (q_bufs quic)(?b \<mapsto> x), q_next_buf := Suc ?b\<rparr>"
  define m where "m = the (qd_data (db_buf x))"
  have "take_bit 64 ?k = ?k"
    by (rule take_bit_nat_eq_self) (use unsigned_less[of "q_mss quic", where ?'a = nat] in simp)
  then have x: "db_ref x = 1" "length m = ?k"
    using Inr by (auto simp: QuicDataBufCreate_def bindR_eq_Inr m_def unsigned_ucast_eq)
  have ok1: "conn_ok (Some ?b) n quic1" using new_buf_ok[OF assms(2) x(1)] by (simp add: quic1_def)
  obtain quic2 r where o: "open_packet e ev quic1 sp pkt m (qd_len (db_buf x)) QUIC_SPACKET_TYPE_RESV_MASK = (quic2, r)" by fastforce
  note shape = open_packet_shape[OF o]
  define inner where "inner = bindS (quic2, r) (\<lambda>quic2 (pkt1, data, len).
          let quic3 = quic2\<lparr>q_bufs := (q_bufs quic2)(?b \<mapsto> x\<lparr>db_buf := (db_buf x)\<lparr>qd_data := Some data\<rparr>\<rparr>)\<rparr>;
              pkt2 = RPacketForward pkt1 (RPacketRemaining pkt1) in
          bindS (QuicFrameParse e tls quic3 data len sp QUIC_PKT_TYPE_1RTT (Some ?b)) (\<lambda>quic4 _. (quic4, Inr pkt2)))"
  have parse: "QuicOneRttParse e ev tls quic pkt sp = buf_release ?b inner"
    using o by (simp add: QuicOneRttParse_def Inr Let_def quic1_def m_def inner_def)
  have dom1: "\<forall>c \<ge> Suc ?b. q_bufs quic1 c = None" using assms(2) by (simp add: quic1_def bufs_live_def)
  have inner: "conn_ok (Some ?b) (n + ?k) (fst inner) \<and> q_next_buf (fst inner) = Suc ?b \<and> dom (q_bufs (fst inner)) \<subseteq> dom (q_bufs quic1)"
  proof (cases r)
    case (Inl err)
    then show ?thesis using ok1 shape conn_ok_cong[of quic2 quic1 "Some ?b"]
      by (auto simp: inner_def quic1_def intro: conn_ok_mono)
  next
    case (Inr y)
    obtain pkt1 data len where y: "y = (pkt1, data, len)" by (cases y)
    have l: "length data = ?k" using shape(4)[OF Inr[unfolded y]] x(2) by simp
    let ?q3 = "quic2\<lparr>q_bufs := (q_bufs quic2)(?b \<mapsto> x\<lparr>db_buf := (db_buf x)\<lparr>qd_data := Some data\<rparr>\<rparr>)\<rparr>"
    have "conn_ok (Some ?b) n ?q3"
      using new_buf_ok[OF assms(2), of "x\<lparr>db_buf := (db_buf x)\<lparr>qd_data := Some data\<rparr>\<rparr>"] x(1) shape(1,2)
      by (subst conn_ok_cong[of _ "quic\<lparr>q_bufs := (q_bufs quic)(?b \<mapsto> x\<lparr>db_buf := (db_buf x)\<lparr>qd_data := Some data\<rparr>\<rparr>), q_next_buf := Suc ?b\<rparr>"])
        (simp_all add: quic1_def)
    note f = frames_bufs[OF assms(1) this, of data e len sp QUIC_PKT_TYPE_1RTT]
    have q3: "q_next_buf ?q3 = Suc ?b" "dom (q_bufs ?q3) = dom (q_bufs quic1)" using shape(2,3) by (auto simp: quic1_def)
    have "fst inner = fst (QuicFrameParse e tls ?q3 data len sp QUIC_PKT_TYPE_1RTT (Some ?b))"
      by (simp add: inner_def Inr y Let_def bindS_def split: prod.splits sum.splits)
    then show ?thesis using f l assms(3) by (simp only: Let_def q3)
  qed
  obtain quic4 y where i: "inner = (quic4, y)" by fastforce
  from release_ok[of ?b "n + ?k" quic4] inner i obtain st where st: "store_free (q_bufs quic4) ?b = Inr st"
    "conn_ok None (n + ?k) (quic4\<lparr>q_bufs := st\<rparr>)" "dom st \<subseteq> dom (q_bufs quic4)" by auto
  have "st c = None" if "c \<ge> Suc ?b" for c
    using that dom1 st(3) inner i by (metis domIff fst_conv subsetD)
  then show ?thesis using st inner i by (simp add: parse buf_release_def bufs_live_def)
qed

section \<open>A whole packet\<close>

text \<open>Parsing the header makes keys and identifiers.\<close>

definition same_bufs :: "'c Quic \<Rightarrow> 'c Quic \<Rightarrow> bool" where
  "same_bufs quic quic' \<longleftrightarrow> q_stream quic' = q_stream quic \<and> q_bufs quic' = q_bufs quic
     \<and> q_next_buf quic' = q_next_buf quic \<and> q_mss quic' = q_mss quic"

lemma same_bufs_simps [simp]:
  "same_bufs quic quic" "same_bufs quic (quic\<lparr>q_dcid := d\<rparr>) " "same_bufs quic (quic\<lparr>q_scid := d\<rparr>)"
  "same_bufs quic (quic'\<lparr>q_dcid_inited := b\<rparr>) = same_bufs quic quic'" "same_bufs quic (quic'\<lparr>q_scid_inited := b\<rparr>) = same_bufs quic quic'"
  "same_bufs quic (quic'\<lparr>q_initial := c\<rparr>) = same_bufs quic quic'" "same_bufs quic (quic'\<lparr>q_state := s\<rparr>) = same_bufs quic quic'"
  "same_bufs quic (quic'\<lparr>q_scid := d\<rparr>) = same_bufs quic quic'" "same_bufs quic (quic'\<lparr>q_dcid := d\<rparr>) = same_bufs quic quic'"
  by (simp_all add: same_bufs_def)

lemma same_bufs_trans: "same_bufs a b \<Longrightarrow> same_bufs b c \<Longrightarrow> same_bufs a c"
  by (simp add: same_bufs_def)

lemma initial_keys_same: "QuicCreateInitialDecoders e ek quic v cid = Some (quic', r) \<Longrightarrow> same_bufs quic quic'"
  by (auto simp: QuicCreateInitialDecoders_def bindO_def Let_def bind_eq_Some_conv split: if_splits option.splits sum.splits prod.splits)

lemma parse_dcid_same: "parse_dcid e ek quic pkt len = Some (quic', r) \<Longrightarrow> same_bufs quic quic'"
  by (auto simp: parse_dcid_def QuicSrvrParseDcid_def bindSO_def bindS_def Let_def
      split: if_splits option.splits sum.splits prod.splits dest!: initial_keys_same)

lemma parse_scid_same: "parse_scid e quic pkt len = (quic', r) \<Longrightarrow> same_bufs quic quic'"
  by (auto simp: parse_scid_def QuicSrvrParseScid_def split: if_splits sum.splits)

lemma bindSO_eq_Some:
  "bindSO r f = Some y \<longleftrightarrow> (\<exists>s err. r = Some (s, Inl err) \<and> y = (s, Inl err)) \<or> (\<exists>s x. r = Some (s, Inr x) \<and> f s x = Some y)"
  by (auto simp: bindSO_def split: option.splits prod.splits sum.splits)

lemma lheader_same: "QuicLPacketHeaderParse e ek quic pkt = Some (quic', r) \<Longrightarrow> same_bufs quic quic'"
  unfolding QuicLPacketHeaderParse_def
  by (auto simp: bindSO_eq_Some split: if_splits dest!: parse_dcid_same parse_scid_same intro: same_bufs_trans)

lemma header_same: "QuicPktHeaderParse e ek quic pkt flags = Some (quic', r) \<Longrightarrow> same_bufs quic quic'"
  by (auto simp: QuicPktHeaderParse_def bindSO_eq_Some split: if_splits dest!: lheader_same)

lemma update_same: "update_dcid e quic new_dcid type pkt = Some (quic', r) \<Longrightarrow> same_bufs quic quic'"
  by (auto simp: update_dcid_def bindSO_eq_Some QuicUpdateDcid_def Let_def split: option.splits prod.splits sum.splits if_splits)

lemma body_live:
  assumes "engine_ok tls" and "bufs_live n quic" and "n + max QUIC_BUF_MAX_LEN (unat (q_mss quic)) + 2 < 2 ^ 32"
  shows "bufs_live (n + max QUIC_BUF_MAX_LEN (unat (q_mss quic))) (fst (QuicPktBodyParse e ev tls quic pkt type))"
proof -
  let ?k = "max QUIC_BUF_MAX_LEN (unat (q_mss quic))"
  have "bufs_live (n + ?k) (fst (pkt_parse e ev tls p quic pkt sp))" for p sp
  proof (cases p)
    case InitParser
    then show ?thesis using assms(3) by (auto intro!: bufs_live_mono[OF holdsD[OF init_live[OF assms(1,2)]]])
  next
    case HandshakePktParser
    then show ?thesis using assms(3) by (auto intro!: bufs_live_mono[OF holdsD[OF handshake_live[OF assms(1,2)]]])
  next
    case OneRttParser
    then show ?thesis using assms(3) by (auto intro!: bufs_live_mono[OF one_rtt_live[OF assms(1,2)]])
  qed (use assms(2) in \<open>simp_all add: Quic0RttPacketParse_def QuicRetryPacketParse_def bufs_live_mono\<close>)
  then show ?thesis using bufs_live_mono[OF assms(2), of "n + ?k"]
    by (auto simp: QuicPktBodyParse_def bindS_def split: sum.splits)
qed

lemma same_bufs_live: "same_bufs quic quic' \<Longrightarrow> bufs_live n quic' = bufs_live n quic"
  by (rule bufs_live_cong) (simp_all add: same_bufs_def)

text \<open>What every part of reading a packet keeps.\<close>

lemma packet_read_inv:
  assumes read: "QuicPacketRead e ev ek tls quic pkt flags = Some (quic', r)"
    and same: "\<And>q q'. P q \<Longrightarrow> same_bufs q q' \<Longrightarrow> P q'" "\<And>q q'. Q q \<Longrightarrow> same_bufs q q' \<Longrightarrow> Q q'"
    and body: "\<And>q p t. P q \<Longrightarrow> Q (fst (QuicPktBodyParse e ev tls q p t))"
    and P: "P quic" "\<And>q. P q \<Longrightarrow> Q q"
  shows "Q quic'"
proof -
  let ?inner = "bindSO (QuicPktHeaderParse e ek quic pkt flags) (\<lambda>quic1 (pkt1, type, new_dcid).
      bindSO (Some (QuicPktBodyParse e ev tls quic1 pkt1 type)) (\<lambda>quic2 pkt2. Some (quic2, Inr (pkt2, type, new_dcid))))"
  have inner: "Q q" if i: "?inner = Some (q, x)" for q x
    using i body same(1)[OF P(1)] P by (auto simp: bindSO_eq_Some dest!: header_same) (metis fst_conv)+
  have check: "same_bufs q (fst (QuicCheckStatelessResetToken q token))" for q :: "'a Quic" and token
    by (auto simp: QuicCheckStatelessResetToken_def bindS_def split: sum.splits)
  have reset: "Q q" if "or_reset (reset_token pkt) ?inner = Some (q, x)" for q x
  proof -
    obtain q0 y where y: "?inner = Some (q0, y)" using \<open>or_reset (reset_token pkt) ?inner = Some (q, x)\<close>
      by (cases ?inner) (auto simp: or_reset_def)
    have "q = q0 \<or> q = fst (QuicCheckStatelessResetToken q0 (reset_token pkt))"
      using that unfolding y by (auto simp: or_reset_def split: sum.splits c_err.splits prod.splits)
    then show ?thesis using inner[OF y] same(2)[OF _ check[of q0 "reset_token pkt"]] by auto
  qed
  show ?thesis
    using read unfolding QuicPacketRead_def
    by (auto simp: bindSO_eq_Some[of "or_reset _ _"] dest: reset intro: same(2)[OF _ update_same])
qed

text \<open>A whole packet, of any type and with any content, with an engine that keeps the buffers.\<close>

lemma packet_read_live:
  assumes "engine_ok tls" and "bufs_live n quic" and "n + max QUIC_BUF_MAX_LEN (unat (q_mss quic)) + 2 < 2 ^ 32"
    and read: "QuicPacketRead e ev ek tls quic pkt flags = Some (quic', r)"
  shows "bufs_live (n + max QUIC_BUF_MAX_LEN (unat (q_mss quic))) quic'"
proof (rule packet_read_inv[OF read, where P = "\<lambda>q. bufs_live n q \<and> q_mss q = q_mss quic"])
  show "bufs_live (n + max QUIC_BUF_MAX_LEN (unat (q_mss quic))) (fst (QuicPktBodyParse e ev tls q p t))"
    if "bufs_live n q \<and> q_mss q = q_mss quic" for q p t
    using body_live[OF assms(1), of n q e ev p t] assms(3) that by simp
  show "bufs_live n q' \<and> q_mss q' = q_mss quic" if "bufs_live n q \<and> q_mss q = q_mss quic" "same_bufs q q'" for q q'
    using that same_bufs_live[OF that(2)] by (simp add: same_bufs_def)
qed (use assms(2) same_bufs_live bufs_live_mono in \<open>force+\<close>)

section \<open>The end of the handshake\<close>

interpretation quiet_state: queue_invariant "\<lambda>quic. q_state quic = s \<and> q_tls_done quic = d" for s d
proof (unfold_locales, goal_cases)
  case (3 quic sp c)
  then show ?case by (cases sp) simp_all
qed auto

text \<open>PADDING frames up to the end of the packet.\<close>

lemma frame_loop_padding:
  assumes "rp_wf pkt" and "rp_view pkt = replicate k 0"
  shows "frame_loop e sp h quic pkt c a = (quic, Inr (c, a))"
  using assms
proof (induction k arbitrary: pkt)
  case 0
  then have "QuicVariableLengthDecode pkt = Inl Fail" using QuicVariableLengthDecode_short[OF 0(1)] by simp
  then show ?case by (subst frame_loop.simps) simp
next
  case (Suc k)
  have "varint_bytes 0 = [0]" by code_simp
  then have "rp_view pkt = varint_bytes 0 @ replicate k 0" using Suc.prems by simp
  from varint_decode_bytes[OF Suc.prems(1) _ this] obtain p where p: "QuicVariableLengthDecode pkt = Inr (0, p)" "rp_wf p"
    "rp_view p = replicate k 0" by auto
  have "fp_skip (frame_handler ! 0)" "\<not> 0 \<ge> QUIC_FRAME_TYPE_MAX" by code_simp+
  then show ?case using p Suc.IH[OF p(2,3)] by (subst frame_loop.simps) (simp add: Let_def)
qed

text \<open>C29: a client ends its handshake on a HANDSHAKE_DONE frame in a packet of any type, whatever the state of the
  TLS engine: an Initial packet will do, whose keys anyone can derive from the identifier the client sent, so the
  peer need not have been authenticated.\<close>

theorem forged_handshake_done:
  assumes "\<not> q_server quic" and "rp_wf pkt" and "rp_view pkt = 0x1e # replicate k 0"
  shows "q_state (fst (QuicFrameDoParser e tls quic pkt sp pkt_type buf)) = QUIC_STATEM_HANDSHAKE_DONE
    \<and> q_tls_done (fst (QuicFrameDoParser e tls quic pkt sp pkt_type buf)) = q_tls_done quic"
proof -
  let ?q = "quic\<lparr>q_state := QUIC_STATEM_HANDSHAKE_DONE, q_handshake := QuicCryptoFree (q_handshake quic)\<rparr>"
  have "varint_bytes 0x1e = [0x1e]" by code_simp
  then have "rp_view pkt = varint_bytes 0x1e @ replicate k 0" using assms(3) by simp
  from varint_decode_bytes[OF assms(2) _ this] obtain p where p: "QuicVariableLengthDecode pkt = Inr (0x1e, p)" "rp_wf p"
    "rp_view p = replicate k 0" by auto
  have h: "frame_handler ! 30 = fp_empty False (Some HandshakeDoneParser)" "\<not> 0x1e \<ge> QUIC_FRAME_TYPE_MAX"
    "(0x1e = QUIC_FRAME_TYPE_CRYPTO) = False" "QUIC_FRAM_IS_ACK_ELICITING 0x1e"
    by (simp add: frame_handler_def, code_simp+)
  have "frame_loop e sp buf quic pkt False False = (?q, Inr (False, True))"
    using p h assms(1) frame_loop_padding[OF p(2,3)]
    by (subst frame_loop.simps) (simp add: Let_def fp_empty_def QuicFrameHandshakeDoneParser_def)
  moreover have "q_state (fst (quiet (QuicAckFrameBuild e ?q pkt_type))) = QUIC_STATEM_HANDSHAKE_DONE
      \<and> q_tls_done (fst (quiet (QuicAckFrameBuild e ?q pkt_type))) = q_tls_done quic"
    using quiet_state.ack_frame[of ?q QUIC_STATEM_HANDSHAKE_DONE "q_tls_done quic" e pkt_type]
    by (auto simp: quiet_def split: prod.splits sum.splits)
  ultimately show ?thesis by (auto simp: QuicFrameDoParser_def bindS_def split: prod.splits sum.splits)
qed

theorem forged_handshake_done_witness:
  "q_state (fst (QuicFrameDoParser env0 (\<lambda>quic. (quic, Inr ())) demo_peer (RPacketBufInit [0x1e, 0, 0] 0 3)
     CrInitial QUIC_PKT_TYPE_INITIAL None)) = QUIC_STATEM_HANDSHAKE_DONE"
proof -
  have "rp_wf (RPacketBufInit [0x1e, 0, 0] 0 3)" by (rule rp_wf_BufInit) simp_all
  moreover have "rp_view (RPacketBufInit [0x1e, 0, 0] 0 3) = 0x1e # replicate 2 0"
    using rp_view_full[of "[0x1e, 0, 0]"] by (simp add: replicate_app_Cons_same flip: replicate_Suc) (simp add: eval_nat_numeral)
  moreover have "\<not> q_server demo_peer" by (simp add: demo_peer_def sample_quic_def QuicTrans.defs demo_quic_def)
  ultimately show ?thesis using forged_handshake_done by blast
qed

end
