(* ===== verification/Statem_Run.thy ===== *)
theory Statem_Run
  imports Statem_Inv
begin

text \<open>
  What the loops of the state machine leave alone: sending changes no state of the connection, and a connection
  that is closing or draining stays so.
\<close>

section \<open>Sending\<close>

text \<open>A property that survives the queueing of frames, and new packet numbers, survives a send.\<close>

locale send_invariant = queue_invariant S for S :: "'c Quic \<Rightarrow> bool" +
  assumes rwstate: "S quic \<Longrightarrow> S (quic\<lparr>q_rwstate := r\<rparr>)"
begin

lemma queues: "queues_frame quic quic' \<Longrightarrow> S quic \<Longrightarrow> S quic'"
proof -
  assume "S quic" and "queues_frame quic quic'"
  then have "quic'\<lparr>q_stream := q_stream quic', q_tx_queue := q_tx_queue quic'\<rparr> = quic\<lparr>q_stream := q_stream quic', q_tx_queue := q_tx_queue quic'\<rparr>"
    by (simp only: queues_frame_def)
  moreover have "S (quic\<lparr>q_stream := q_stream quic', q_tx_queue := q_tx_queue quic'\<rparr>)"
    using queue[OF streams[OF \<open>S quic\<close>]] by simp
  ultimately show "S quic'" by simp
qed

lemma built: "QBuffBuildPkt e ev quic pkt qb fin = ((quic', pkt', qb'), x) \<Longrightarrow> S quic \<Longrightarrow> S quic'"
  by (auto dest!: build_pkt_rest simp: numbered_def intro: space)

lemma write_loop_state: "S quic \<Longrightarrow> S (fst (write_loop e ev qbs quic pkt fin sh))"
proof (induction qbs arbitrary: quic pkt fin sh)
  case (Cons qb rest)
  have flow: "QuicStreamSendFlowCtrl e quic i n t = (quic', r) \<Longrightarrow> S quic'" for i n t quic' r
    using queues[OF flow_ctrl_rest(1)] Cons.prems by blast
  show ?case using Cons.prems
    by (auto simp: Let_def bindS_def split: prod.splits sum.splits dest!: flow
        dest: built intro!: Cons.IH space queue)
qed simp

lemma write_pkt_state: "S quic \<Longrightarrow> S (fst (QuicWritePkt e ev quic))"
  using write_loop_state[of quic] by (simp add: QuicWritePkt_def bindS_def split: prod.splits sum.splits) (metis fst_conv)

lemma send_loop_state: "S quic \<Longrightarrow> S (fst (fst (send_loop e ev bio quic w)))"
proof (induction e ev bio quic w rule: send_loop.induct)
  case (1 e ev bio quic w)
  obtain quic1 x where wp: "QuicWritePkt e ev (quic\<lparr>q_rwstate := QUIC_WRITING\<rparr>) = (quic1, x)" by fastforce
  have "S quic1" using write_pkt_state[OF rwstate[OF 1(2)], of e ev QUIC_WRITING] wp by simp
  then show ?case using 1 wp
    by (subst send_loop.simps) (auto split: sum.splits prod.splits)
qed

lemma send_state: "S quic \<Longrightarrow> S (fst (fst (QuicSendPacket e ev bio quic w)))"
  using send_loop_state[of quic e ev bio w] rwstate
  by (auto simp: QuicSendPacket_def bindS_def split: prod.splits sum.splits)

lemma send_all_state: "S (fst s) \<Longrightarrow> S (fst (fst (send_all e ev bio s)))"
  using send_state[of "fst s" e ev bio "snd s"] by (auto simp: send_all_def bindS_def split: prod.splits sum.splits)

lemma after_send_state: "S (fst (fst r)) \<Longrightarrow> S (fst (fst (after_send e ev bio r)))"
  using send_all_state[of "fst r" e ev bio]
  by (auto simp: after_send_def bindS_def split: prod.splits sum.splits)

end

interpretation state: send_invariant "\<lambda>quic. q_state quic = s" for s
proof (unfold_locales, goal_cases)
  case (3 quic sp c)
  then show ?case by (cases sp) simp_all
qed auto

section \<open>Closing and draining\<close>

definition is_closing :: "QuicStatem \<Rightarrow> bool" where
  "is_closing s \<longleftrightarrow> s = QUIC_STATEM_CLOSING \<or> s = QUIC_STATEM_DRAINING"

definition conn_table :: "(QuicStatem \<Rightarrow> QuicStatemFlow) \<Rightarrow> bool" where
  "conn_table sm \<longleftrightarrow> sm = client_statem \<or> sm = server_statem"

lemma closing_handlers:
  assumes "conn_table sm" and "is_closing s"
  shows "sf_pre_work (sm s) = None" and "statem_recv e ev ek tls (sf_recv (sm s)) quic pkt flags = Some (quic, Inr (pkt, QUIC_FLOW_RET_FINISH))"
  using assms by (auto simp: conn_table_def is_closing_def QuicPacketClosingRecv_def QuicPacketDrainingRecv_def)

lemma next_packet_state: "next_packet e bio quic w pkt = (s1, r) \<Longrightarrow> q_state (fst s1) = q_state quic"
  by (auto simp: next_packet_def QuicStatemReadBytes_def QuicDatagramRecv_def bindS_def split: if_splits prod.splits sum.splits option.splits)

lemma read_loop_closing:
  assumes r: "read_loop e ev ek tls bio sm quic w pkt ret = Some r" and "conn_table sm" and "is_closing (q_state quic)"
  shows "q_state (fst (fst r)) = q_state quic"
proof -
  let ?P = "\<lambda>e ev ek tls bio sm quic w pkt ret r. conn_table sm \<longrightarrow> is_closing (q_state quic) \<longrightarrow> q_state (fst (fst r)) = q_state quic"
  have "?P e ev ek tls bio sm quic w pkt ret r"
  proof (rule read_loop.raw_induct[where P = ?P, OF _ r], goal_cases)
    case (1 loop e ev ek tls bio sm quic w pkt ret r)
    show ?case
    proof (intro impI)
      assume t: "conn_table sm" and c: "is_closing (q_state quic)"
      obtain s1 x where n: "next_packet e bio quic w pkt = (s1, x)" by fastforce
      have s1: "q_state (fst s1) = q_state quic" using next_packet_state[OF n] .
      have h: "statem_recv e ev ek tls (sf_recv (sm (q_state (fst s1)))) (fst s1) p f = Some (fst s1, Inr (p, QUIC_FLOW_RET_FINISH))" for p f
        using closing_handlers(2)[OF t, of "q_state (fst s1)"] c s1 by simp
      show "q_state (fst (fst r)) = q_state quic"
        using 1(2) n s1 h 1(1)[of e ev ek tls bio sm "fst s1" "snd s1"] t c
        by (auto split: if_splits sum.splits prod.splits)
    qed
  qed
  then show ?thesis using assms(2,3) by blast
qed

text \<open>C31: once a connection is closing or draining, as after a CONNECTION_CLOSE frame during the handshake,
  \<^verbatim>\<open>QuicConnect\<close> and \<^verbatim>\<open>QuicAccept\<close> report no success however many datagrams arrive: if the loop returns
  at all, it returns an error, and the connection is in the state it was in.\<close>

theorem closing_never_connects:
  assumes "QuicStateMachineAct e ev ek tls bio sm quic w = Some r" and "sm = client_statem \<or> sm = server_statem"
    and "q_state quic = QUIC_STATEM_CLOSING \<or> q_state quic = QUIC_STATEM_DRAINING"
  shows "snd r \<noteq> Inr () \<and> q_state (fst (fst r)) = q_state quic"
proof -
  let ?P = "\<lambda>e ev ek tls bio sm quic w r. conn_table sm \<longrightarrow> is_closing (q_state quic) \<longrightarrow>
    snd r \<noteq> Inr () \<and> q_state (fst (fst r)) = q_state quic"
  have "?P e ev ek tls bio sm quic w r"
  proof (rule QuicStateMachineAct.raw_induct[where P = ?P, OF _ assms(1)], goal_cases)
    case (1 act e ev ek tls bio sm quic w r)
    show ?case
    proof (intro impI)
      assume t: "conn_table sm" and c: "is_closing (q_state quic)"
      have nd: "q_state quic \<noteq> QUIC_STATEM_HANDSHAKE_DONE" using c by (auto simp: is_closing_def)
      obtain s2 x2 where a2: "after_send e ev bio ((quic, w), Inr ()) = (s2, x2)" by fastforce
      have s2: "q_state (fst s2) = q_state quic"
        using state.after_send_state[of "((quic, w), Inr ())" "q_state quic" e ev bio] a2 by simp
      have pre: "statem_pre_work e ek tls (sf_pre_work (sm (q_state quic))) quic = Some (quic, Inr ())"
        using closing_handlers(1)[OF t c] by simp
      show "snd r \<noteq> Inr () \<and> q_state (fst (fst r)) = q_state quic"
      proof (cases x2)
        case (Inl err)
        then show ?thesis using 1(2) pre a2 s2 by auto
      next
        case (Inr u)
        obtain r3 where r3: "QuicReadStateMachine e ev ek tls bio sm (fst s2) (snd s2) = Some r3"
          using 1(2) pre a2 Inr by (auto split: option.splits)
        have s3: "q_state (fst (fst r3)) = q_state quic"
          using read_loop_closing[OF r3[unfolded QuicReadStateMachine_def] t] s2 c by simp
        obtain s4 x4 where a4: "after_send e ev bio r3 = (s4, x4)" by fastforce
        have s4: "q_state (fst s4) = q_state quic"
          using state.after_send_state[OF s3, of e ev bio] a4 by simp
        show ?thesis
        proof (cases x4)
          case (Inl err)
          then show ?thesis using 1(2) pre a2 Inr r3 a4 s4 by auto
        next
          case (Inr v)
          then have "act e ev ek tls bio sm (fst s4) (snd s4) = Some r"
            using 1(2) pre a2 \<open>x2 = Inr u\<close> r3 a4 s4 nd by simp
          from 1(1)[OF this] t c s4 show ?thesis by simp
        qed
      qed
    qed
  qed
  then show ?thesis using assms(2,3) by (simp add: conn_table_def is_closing_def)
qed

text \<open>A draining connection with nothing to send whose socket has been taken away.\<close>

theorem closing_never_connects_witness:
  "\<exists>r. QuicStateMachineAct env0 demo_evp demo_keys (\<lambda>quic. (quic, Inr ())) \<lparr>q_rbio = None, q_wbio = None\<rparr> client_statem
     (demo_peer\<lparr>q_state := QUIC_STATEM_DRAINING\<rparr>) () = Some r \<and> snd r \<noteq> Inr ()"
proof -
  let ?q = "demo_peer\<lparr>q_state := QUIC_STATEM_DRAINING\<rparr>" and ?bio = "\<lparr>q_rbio = None, q_wbio = None\<rparr> :: unit quic_bio"
  have tx: "q_tx_queue ?q = []" "q_rwstate ?q = QUIC_NOTHING" by (simp_all add: demo_peer_def sample_quic_def QuicTrans.defs)
  have send: "QuicSendPacket env0 demo_evp ?bio q () = ((q, ()), Inr ())"
    if "q_tx_queue q = []" "q_rwstate q = QUIC_NOTHING" for q :: "demo_ctx Quic"
    using that by (simp add: QuicSendPacket_def send_loop.simps QBuffQueueEmpty_def)
  have all: "after_send env0 demo_evp ?bio ((q, ()), r) = ((q, ()), r)"
    if "q_tx_queue q = []" "q_rwstate q = QUIC_NOTHING" "r = Inr () \<or> r = Inl Fail" for q :: "demo_ctx Quic" and r
    using that by (auto simp: after_send_def send_all_def send QuicWantWrite_def)
  let ?q1 = "?q\<lparr>q_read_state := QUIC_WANT_DATA, q_rwstate := QUIC_NOTHING\<rparr>"
  have "RPacketRemaining (RPacketBufInit [] 0 0) = 0" by code_simp
  then have read: "QuicReadStateMachine env0 demo_evp demo_keys (\<lambda>quic. (quic, Inr ())) ?bio client_statem ?q () = Some ((?q1, ()), Inl Fail)"
    unfolding QuicReadStateMachine_def
    by (subst read_loop.simps) (simp add: next_packet_def QuicStatemReadBytes_def QuicDatagramRecv_def)
  have run: "QuicStateMachineAct env0 demo_evp demo_keys (\<lambda>quic. (quic, Inr ())) ?bio client_statem ?q () = Some ((?q1, ()), Inl Fail)"
    using tx read by (subst QuicStateMachineAct.simps) (simp add: all)
  from closing_never_connects[OF run] show ?thesis using run by auto
qed

end
