(* ===== verification/Tls_Lib.thy ===== *)
theory Tls_Lib
  imports Pkt_Parse
begin

text \<open>
  The engine's use of cryptography (\<^verbatim>\<open>quic/tls/tls_lib.c\<close>, the end of \<^verbatim>\<open>quic/cipher.c\<close> and of \<^verbatim>\<open>quic/session.c\<close>):
  keys of the groups, the digest of the handshake, the secrets, the signature of the handshake, the Finished
  message and the binder of a pre-shared key. OpenSSL's part is the record \<open>ossl\<close>: a field is what a
  sequence of calls gives for its inputs, \<open>None\<close> where one of them fails; an operation that draws random
  numbers has the number of the draw as an argument. Writing into an array of the engine that is
  too short is \<open>Bad_mem\<close>.
\<close>

section \<open>OpenSSL\<close>

text \<open>The sequence \<^verbatim>\<open>QUIC_SESSION_ASN1\<close>; an optional string that is absent is \<open>None\<close>.\<close>

record QUIC_SESSION_ASN1 =
  as_cipher_id :: u32
  as_tick_age_add :: u32
  as_max_early_data :: u32
  as_tick_lifetime_hint :: u64
  as_tlsext_tick :: "bytes option"
  as_master_key :: "bytes option"

text \<open>
  \<open>os_md\<close> is \<^verbatim>\<open>EVP_get_digestbynid\<close> of the digest with an index, \<open>os_extract\<close> the derivation of an HKDF key in
  its mode \<^verbatim>\<open>EXTRACT_ONLY\<close> from salt and key; \<open>os_keygen\<close> and \<open>os_paramgen\<close> make a key or parameters from a
  group that is custom or not; \<open>os_encode_point\<close> is empty when it fails; \<open>os_default_md\<close> is the digest a
  key requires, if it requires one; \<open>os_d2i_x509\<close> gives the certificate and the number of bytes it took;
  \<open>os_cbc_enc\<close> gives what \<^verbatim>\<open>EVP_EncryptUpdate\<close> and \<^verbatim>\<open>EVP_EncryptFinal\<close> write; the ticket's cipher has an
  initialisation vector of \<open>os_iv_len\<close> bytes. Signing and verifying take the digest and whether the
  padding is PSS.
\<close>

record 'c ossl =
  os_keys :: "'c evp_keys"
  os_md :: "u32 \<Rightarrow> evp_md option"
  os_extract :: "evp_md \<Rightarrow> bytes \<Rightarrow> bytes \<Rightarrow> bytes option"
  os_keygen :: "nat \<Rightarrow> bool \<Rightarrow> curve_nid \<Rightarrow> EVP_PKEY option"
  os_keygen_from :: "nat \<Rightarrow> EVP_PKEY \<Rightarrow> EVP_PKEY option"
  os_paramgen :: "bool \<Rightarrow> curve_nid \<Rightarrow> EVP_PKEY option"
  os_encode_point :: "EVP_PKEY \<Rightarrow> bytes"
  os_copy_params :: "EVP_PKEY \<Rightarrow> EVP_PKEY option"
  os_set_point :: "EVP_PKEY \<Rightarrow> bytes \<Rightarrow> EVP_PKEY option"
  os_derive :: "EVP_PKEY \<Rightarrow> EVP_PKEY \<Rightarrow> bytes option"
  os_pkey_id :: "EVP_PKEY \<Rightarrow> pkey_type"
  os_pkey_size :: "EVP_PKEY \<Rightarrow> u32"
  os_default_md :: "EVP_PKEY \<Rightarrow> md_nid option"
  os_ec_curve :: "EVP_PKEY \<Rightarrow> curve_nid"
  os_rsa_size :: "EVP_PKEY \<Rightarrow> int option"
  os_sign :: "EVP_PKEY \<Rightarrow> evp_md \<Rightarrow> bool \<Rightarrow> bytes \<Rightarrow> bytes option"
  os_verify :: "EVP_PKEY \<Rightarrow> evp_md \<Rightarrow> bool \<Rightarrow> bytes \<Rightarrow> bytes \<Rightarrow> bool"
  os_d2i_x509 :: "bytes \<Rightarrow> (X509 \<times> nat) option"
  os_i2d_x509 :: "X509 \<Rightarrow> bytes option"
  os_x509_pubkey :: "X509 \<Rightarrow> EVP_PKEY option"
  os_sha256 :: evp_md
  os_iv_len :: nat
  os_cbc_enc :: "bytes \<Rightarrow> bytes \<Rightarrow> bytes \<Rightarrow> (bytes \<times> bytes) option"
  os_cbc_dec :: "bytes \<Rightarrow> bytes \<Rightarrow> bytes \<Rightarrow> bytes option"
  os_i2d_session :: "QUIC_SESSION_ASN1 \<Rightarrow> bytes option"
  os_d2i_session :: "bytes \<Rightarrow> QUIC_SESSION_ASN1 option"

definition QuicMd :: "'c ossl \<Rightarrow> u32 \<Rightarrow> evp_md option" where
  "QuicMd os idx = (if QUIC_GE idx 4 then None else os_md os idx)"

text \<open>Running an operation of the engine on the connection it is part of.\<close>

definition on_tls :: "'c Quic \<Rightarrow> Tls \<times> 'a res \<Rightarrow> 'c Quic \<times> 'a res" where
  "on_tls quic r = (quic\<lparr>q_tls := fst r\<rparr>, snd r)"

text \<open>A value or the ordinary failure.\<close>

definition someR :: "'a option \<Rightarrow> 'a res" where
  "someR x = (case x of None \<Rightarrow> Inl Fail | Some a \<Rightarrow> Inr a)"

text \<open>The text of a label in ASCII.\<close>

definition ascii :: "string \<Rightarrow> bytes" where "ascii s = map of_char s"

section \<open>Keys\<close>

definition TlsLookupSigAlgByPkey :: "'c ossl \<Rightarrow> EVP_PKEY \<Rightarrow> SigAlgLookup option" where
  "TlsLookupSigAlgByPkey os pk =
     (if os_pkey_id os pk = NID_pkey_undef then None else TlsLookupSigAlgBySig (os_pkey_id os pk))"

definition TlsGeneratePkey :: "'c ossl \<Rightarrow> Tls \<Rightarrow> EVP_PKEY option \<Rightarrow> Tls \<times> EVP_PKEY option" where
  "TlsGeneratePkey os s pm =
     (case pm of
        None \<Rightarrow> (s, None)
      | Some k \<Rightarrow> (s\<lparr>tl_draws := Suc (tl_draws s)\<rparr>, os_keygen_from os (tl_draws s) k))"

definition TlsGeneratePkeyGroup :: "'c ossl \<Rightarrow> Tls \<Rightarrow> u16 \<Rightarrow> Tls \<times> EVP_PKEY option" where
  "TlsGeneratePkeyGroup os s i =
     (case TlsGroupIdLookup i of
        None \<Rightarrow> (s, None)
      | Some g \<Rightarrow>
          (s\<lparr>tl_draws := Suc (tl_draws s)\<rparr>, os_keygen os (tl_draws s) (gi_flags g = TLS_CURVE_CUSTOM) (gi_nid g)))"

definition TlsGenerateParamGroup :: "'c ossl \<Rightarrow> u16 \<Rightarrow> EVP_PKEY option" where
  "TlsGenerateParamGroup os i =
     (case TlsGroupIdLookup i of
        None \<Rightarrow> None
      | Some g \<Rightarrow> os_paramgen os (gi_flags g = TLS_CURVE_CUSTOM) (gi_nid g))"

section \<open>The digest of the handshake\<close>

text \<open>The digest of the chosen cipher.\<close>

definition TlsHandshakeMd :: "'c ossl \<Rightarrow> Tls \<Rightarrow> evp_md option" where
  "TlsHandshakeMd os s = (case tl_handshake_cipher s of None \<Rightarrow> None | Some c \<Rightarrow> QuicMd os (tc_digest c))"

definition TlsDigestCachedRecords :: "'c ossl \<Rightarrow> 'c Quic \<Rightarrow> 'c Quic \<times> unit res" where
  "TlsDigestCachedRecords os quic =
     (let s = q_tls quic; buf = q_tls_buffer quic;
          hdatalen = tl_handshake_msg_len s + QuicBufGetReserved buf in
      if tl_handshake_dgst s \<noteq> None then (quic, Inr ())
      else if hdatalen = 0 then (quic, Inl Fail)
      else case qbf_buf buf of
        None \<Rightarrow> (quic, Inl Abort)
      | Some m \<Rightarrow>
          (case tl_handshake_cipher s of
             None \<Rightarrow> (quic\<lparr>q_tls := s\<lparr>tl_handshake_dgst := Some (None, [])\<rparr>\<rparr>, Inl Fail)
           | Some c \<Rightarrow>
               if QuicMd os (tc_digest c) = None
               then (quic\<lparr>q_tls := s\<lparr>tl_handshake_dgst := Some (None, [])\<rparr>\<rparr>, Inl Fail)
               else case mem_slice m 0 (unat hdatalen) of
                 Inl err \<Rightarrow> (quic, Inl err)
               | Inr d \<Rightarrow> (quic\<lparr>q_tls := s\<lparr>tl_handshake_dgst := Some (Some (tc_digest c), d)\<rparr>\<rparr>, Inr ())))"

definition TlsFinishMac :: "Tls \<Rightarrow> bytes \<Rightarrow> Tls \<times> unit res" where
  "TlsFinishMac s d =
     (case tl_handshake_dgst s of
        None \<Rightarrow> (s, Inr ())
      | Some (None, _) \<Rightarrow> (s, Inl Fail)
      | Some (Some i, m) \<Rightarrow> (s\<lparr>tl_handshake_dgst := Some (Some i, m @ d)\<rparr>, Inr ()))"

text \<open>The hash goes to an array of \<open>outlen\<close> bytes; the result is the array and the size of the hash.\<close>

definition TlsHandshakeHash :: "'c ossl \<Rightarrow> Tls \<Rightarrow> bytes \<Rightarrow> nat \<Rightarrow> (bytes \<times> nat) res" where
  "TlsHandshakeHash os s hash outlen =
     (case tl_handshake_dgst s of
        None \<Rightarrow> Inl Fail
      | Some (None, _) \<Rightarrow> Inl Fail
      | Some (Some i, m) \<Rightarrow>
          bindR (someR (QuicMd os i)) (\<lambda>md.
            if md_size md > outlen then Inl Fail
            else bindR (someR (md_hash md m)) (\<lambda>d. bindR (mem_copy hash 0 d) (\<lambda>hash'. Inr (hash', md_size md)))))"

section \<open>Secrets\<close>

text \<open>
  The engine derives at most 64 bytes at a time, for which the derivation returns (\<open>label_returns\<close> and
  \<open>ciphers_return\<close> of \<open>Tls_Keys\<close>), so its operations have a value: the branch of a derivation that does not return is never
  taken.
\<close>

definition returned :: "'a res option \<Rightarrow> 'a res" where
  "returned x = (case x of None \<Rightarrow> Inl Abort | Some r \<Rightarrow> r)"

definition hkdf_label_array ::
    "env \<Rightarrow> evp_md \<Rightarrow> bytes \<Rightarrow> bytes \<Rightarrow> bytes option \<Rightarrow> nat \<Rightarrow> bytes \<Rightarrow> nat \<Rightarrow> bytes res" where
  "hkdf_label_array e md secret label data data_len out out_len =
     bindR (mem_slice secret 0 (md_size md)) (\<lambda>s.
       returned (TLS13HkdfExpandLabel e md s label data (of_nat data_len) out (of_nat out_len)))"

definition TlsDeriveSecrets :: "env \<Rightarrow> evp_md \<Rightarrow> bytes \<Rightarrow> bytes \<Rightarrow> bytes \<Rightarrow> bytes \<Rightarrow> bytes res" where
  "TlsDeriveSecrets e md in_secret label hash out =
     (if md_size md = 0 then Inl Fail
      else hkdf_label_array e md in_secret label (Some hash) (md_size md) out (md_size md))"

definition default_zeros :: bytes where "default_zeros = replicate EVP_MAX_MD_SIZE 0"

definition TlsGenerateSecret ::
    "env \<Rightarrow> 'c ossl \<Rightarrow> evp_md option \<Rightarrow> bytes option \<Rightarrow> (bytes \<times> nat) option \<Rightarrow> bytes \<Rightarrow> bytes res" where
  "TlsGenerateSecret e os md prevsecret insecret outsecret =
     bindR (someR md) (\<lambda>md.
       let (key, keylen) = (case insecret of None \<Rightarrow> (default_zeros, md_size md) | Some x \<Rightarrow> x) in
       bindR (case prevsecret of
                None \<Rightarrow> Inr []
              | Some prev \<Rightarrow>
                  bindR (someR (md_hash md [])) (\<lambda>h.
                  bindR (mem_copy (replicate EVP_MAX_MD_SIZE 0) 0 h) (\<lambda>hash.
                  bindR (hkdf_label_array e md prev (ascii ''derived'') (Some hash) (md_size md)
                           (replicate EVP_MAX_MD_SIZE 0) (md_size md)) (\<lambda>pre.
                    mem_slice pre 0 (md_size md))))) (\<lambda>salt.
       bindR (mem_slice key 0 keylen) (\<lambda>k.
       bindR (someR (os_extract os md salt k)) (\<lambda>d. mem_copy outsecret 0 d))))"

definition TlsKeyDerive ::
    "env \<Rightarrow> 'c ossl \<Rightarrow> Tls \<Rightarrow> EVP_PKEY option \<Rightarrow> EVP_PKEY option \<Rightarrow> Tls \<times> unit res" where
  "TlsKeyDerive e os s privkey pubkey =
     (case (privkey, pubkey) of
        (Some priv, Some pub) \<Rightarrow>
          (case os_derive os priv pub of
             None \<Rightarrow> (s, Inl Fail)
           | Some pms \<Rightarrow>
               if \<not> env_alloc e (length pms) then (s, Inl Fail)
               else let md = TlsHandshakeMd os s in
                 bindS (if tl_hit s then (s, Inr ())
                        else case TlsGenerateSecret e os md None None (tl_early_secret s) of
                          Inl err \<Rightarrow> (s, Inl err)
                        | Inr x \<Rightarrow> (s\<lparr>tl_early_secret := x\<rparr>, Inr ())) (\<lambda>s1 _.
                   case TlsGenerateSecret e os md (Some (tl_early_secret s1)) (Some (pms, length pms)) (tl_handshake_secret s1) of
                     Inl err \<Rightarrow> (s1, Inl err)
                   | Inr x \<Rightarrow> (s1\<lparr>tl_handshake_secret := x\<rparr>, Inr ())))
      | _ \<Rightarrow> (s, Inl Fail))"

definition TlsDeriveFinishedKey :: "env \<Rightarrow> evp_md \<Rightarrow> bytes \<Rightarrow> bytes \<Rightarrow> nat \<Rightarrow> bytes res" where
  "TlsDeriveFinishedKey e md secret finsecret len = hkdf_label_array e md secret (ascii ''finished'') None 0 finsecret len"

text \<open>\<^verbatim>\<open>EVP_MD_size\<close> of a null pointer is an error, whose value nobody looks at.\<close>

definition TlsGenerateMasterSecret :: "env \<Rightarrow> 'c ossl \<Rightarrow> Tls \<Rightarrow> Tls \<times> unit res" where
  "TlsGenerateMasterSecret e os s =
     (case TlsGenerateSecret e os (TlsHandshakeMd os s) (Some (tl_handshake_secret s)) None (tl_master_secret s) of
        Inl err \<Rightarrow> (s, Inl err)
      | Inr x \<Rightarrow> (s\<lparr>tl_master_secret := x\<rparr>, Inr ()))"

definition QuicSessionMasterKeyGen ::
    "env \<Rightarrow> 'c ossl \<Rightarrow> Tls \<Rightarrow> QuicSessionTicket \<Rightarrow> RPacket \<Rightarrow> QuicSessionTicket res" where
  "QuicSessionMasterKeyGen e os s t nonce =
     (case TlsHandshakeMd os s of
        None \<Rightarrow> Inl Fail
      | Some md \<Rightarrow>
          if QUIC_LE (of_nat (md_size md) :: u64) 0 then Inl Fail
          else bindR (mem_slice (rp_buf nonce) (RPacketData nonce) (unat (RPacketRemaining nonce))) (\<lambda>n.
               bindR (hkdf_label_array e md (tl_resumption_master_secret s) (ascii ''resumption'') (Some n) (length n)
                        (qt_master_key t) (md_size md)) (\<lambda>k.
                 Inr (t\<lparr>qt_master_key := k, qt_master_key_length := of_nat (md_size md)\<rparr>))))"

definition QuicGetSession :: "env \<Rightarrow> 'c Quic \<Rightarrow> 'c Quic \<times> unit res" where
  "QuicGetSession e quic =
     (if q_session quic \<noteq> None then (quic, Inr ())
      else case QuicSessionCreate e of
        Inl err \<Rightarrow> (quic, Inl err)
      | Inr sess \<Rightarrow> (quic\<lparr>q_session := Some (sess\<lparr>ss_cipher := tl_handshake_cipher (q_tls quic)\<rparr>)\<rparr>, Inr ()))"

section \<open>Signatures\<close>

definition TlsCheckPeerSigAlg :: "Tls \<Rightarrow> u16 \<Rightarrow> Tls \<times> unit res" where
  "TlsCheckPeerSigAlg s sig =
     (case TlsLookupSigAlg sig of None \<Rightarrow> (s, Inl Fail) | Some lu \<Rightarrow> (s\<lparr>tl_peer_sigalg := Some lu\<rparr>, Inr ()))"

definition TlsGetSharedSigAlgsInfo :: "u16 list \<Rightarrow> u16 list \<Rightarrow> SigAlgLookup list" where
  "TlsGetSharedSigAlgsInfo sigalg1 sigalg2 =
     concat (map (\<lambda>sig. case TlsLookupSigAlg sig of
                           None \<Rightarrow> []
                         | Some lu \<Rightarrow> map (\<lambda>_. lu) (filter (\<lambda>b. sig = b) sigalg2)) sigalg1)"

definition TlsGetSharedSigAlgs :: "env \<Rightarrow> Tls \<Rightarrow> u16 list \<Rightarrow> u16 list \<Rightarrow> Tls \<times> unit res" where
  "TlsGetSharedSigAlgs e s sigalg1 sigalg2 =
     (if sigalg1 = [] \<or> sigalg2 = [] then (s, Inl Fail)
      else let salgs = TlsGetSharedSigAlgsInfo sigalg1 sigalg2 in
        if salgs = [] then (s, Inl Fail)
        else if \<not> env_alloc e (8 * length salgs) then (s, Inl Fail)
        else (s\<lparr>tl_shared_sigalgs := salgs\<rparr>, Inr ()))"

definition TlsSetServerSigAlgs :: "env \<Rightarrow> Tls \<Rightarrow> Tls \<times> unit res" where
  "TlsSetServerSigAlgs e s =
     (let s1 = s\<lparr>tl_shared_sigalgs := []\<rparr> in TlsGetSharedSigAlgs e s1 (tl_peer_sigalgs s1) (TlsGetPSigAlgs s1))"

text \<open>The types of keys of \<^verbatim>\<open>QuicCertInfo\<close> in \<^verbatim>\<open>quic/cert.c\<close>.\<close>

definition QuicCertInfo :: "pkey_type list" where
  "QuicCertInfo = [EVP_PKEY_RSA, EVP_PKEY_RSA_PSS, EVP_PKEY_EC, EVP_PKEY_ED25519, EVP_PKEY_ED448]"

definition QuicCertLookupByNid :: "pkey_type \<Rightarrow> nat option" where
  "QuicCertLookupByNid nid = (let i = index_of nid QuicCertInfo in if i < length QuicCertInfo then Some i else None)"

definition QuicCertLookupByPkey :: "'c ossl \<Rightarrow> EVP_PKEY \<Rightarrow> nat option" where
  "QuicCertLookupByPkey os pk =
     (if os_pkey_id os pk = NID_pkey_undef then None else QuicCertLookupByNid (os_pkey_id os pk))"

definition TlsHasCert :: "Tls \<Rightarrow> nat \<Rightarrow> bool" where
  "TlsHasCert s idx \<longleftrightarrow> idx < QUIC_PKEY_NUM \<and> cpk_x509 (ce_pkeys (tl_cert s) ! idx) \<noteq> None
     \<and> cpk_privatekey (ce_pkeys (tl_cert s) ! idx) \<noteq> None"

definition TlsCheckCertUsable :: "'c ossl \<Rightarrow> SigAlgLookup \<Rightarrow> EVP_PKEY \<Rightarrow> bool" where
  "TlsCheckCertUsable os sig pkey \<longleftrightarrow> (case os_default_md os pkey of None \<Rightarrow> True | Some nid \<Rightarrow> lu_hash sig = nid)"

definition TlsHasUsableCert :: "'c ossl \<Rightarrow> Tls \<Rightarrow> SigAlgLookup \<Rightarrow> bool" where
  "TlsHasUsableCert os s sig \<longleftrightarrow> TlsHasCert s (lu_sig_idx sig)
     \<and> TlsCheckCertUsable os sig (the (cpk_privatekey (ce_pkeys (tl_cert s) ! lu_sig_idx sig)))"

definition TlsIsUsableCert :: "'c ossl \<Rightarrow> SigAlgLookup \<Rightarrow> EVP_PKEY \<Rightarrow> bool" where
  "TlsIsUsableCert os sig pkey \<longleftrightarrow> QuicCertLookupByPkey os pkey = Some (lu_sig_idx sig) \<and> TlsCheckCertUsable os sig pkey"

definition TlsLookupMd :: "'c ossl \<Rightarrow> SigAlgLookup option \<Rightarrow> evp_md option" where
  "TlsLookupMd os lu =
     (case lu of None \<Rightarrow> None | Some l \<Rightarrow> if lu_hash l = NID_md_undef then None else QuicMd os (lu_hash_idx l))"

definition TlsRsaPssCheckMinKeySize :: "'c ossl \<Rightarrow> EVP_PKEY \<Rightarrow> SigAlgLookup \<Rightarrow> unit res" where
  "TlsRsaPssCheckMinKeySize os pkey lu =
     (case os_rsa_size os pkey of
        None \<Rightarrow> Inl Fail
      | Some n \<Rightarrow>
          (case TlsLookupMd os (Some lu) of
             None \<Rightarrow> Inl Fail
           | Some md \<Rightarrow> guardR (\<not> n < 2 * int (md_size md) + 2)))"

text \<open>The curve of the key is looked up once.\<close>

fun find_sigalg_loop ::
    "'c ossl \<Rightarrow> Tls \<Rightarrow> EVP_PKEY option \<Rightarrow> curve_nid option \<Rightarrow> SigAlgLookup list \<Rightarrow> SigAlgLookup option" where
  "find_sigalg_loop os s pkey curve [] = None"
| "find_sigalg_loop os s pkey curve (lu # lus) =
     (if TlsLookupMd os (Some lu) = None
         \<or> (case pkey of None \<Rightarrow> \<not> TlsHasUsableCert os s lu | Some k \<Rightarrow> \<not> TlsIsUsableCert os lu k)
      then find_sigalg_loop os s pkey curve lus
      else let k = (case pkey of Some k \<Rightarrow> k | None \<Rightarrow> the (cpk_privatekey (ce_pkeys (tl_cert s) ! lu_sig_idx lu))) in
        if lu_sig lu = EVP_PKEY_EC
        then let c = (case curve of Some c \<Rightarrow> c | None \<Rightarrow> os_ec_curve os k) in
          if lu_curve lu \<noteq> NID_curve_undef \<and> c \<noteq> lu_curve lu then find_sigalg_loop os s pkey (Some c) lus else Some lu
        else if lu_sig lu = EVP_PKEY_RSA_PSS \<and> \<not> ok (TlsRsaPssCheckMinKeySize os k lu)
        then find_sigalg_loop os s pkey curve lus
        else Some lu)"

definition TlsFindSigAlg :: "'c ossl \<Rightarrow> Tls \<Rightarrow> EVP_PKEY option \<Rightarrow> SigAlgLookup option" where
  "TlsFindSigAlg os s pkey = find_sigalg_loop os s pkey None (tl_shared_sigalgs s)"

definition TlsChooseSigalg :: "'c ossl \<Rightarrow> Tls \<Rightarrow> Tls \<times> unit res" where
  "TlsChooseSigalg os s =
     (case TlsFindSigAlg os s None of
        None \<Rightarrow> (s, Inl Fail)
      | Some lu \<Rightarrow> (s\<lparr>tl_tmp_cert := Some (lu_sig_idx lu), tl_cert := (tl_cert s)\<lparr>ce_key := Some (lu_sig_idx lu)\<rparr>,
                      tl_tmp_sigalg := Some lu\<rparr>, Inr ()))"

text \<open>The data that is signed. A reader uses the hash it saved with the certificate.\<close>

definition TLS_TBS_START_SIZE :: nat where "TLS_TBS_START_SIZE = 64"

definition TlsGetCertVerifyData :: "'c ossl \<Rightarrow> Tls \<Rightarrow> bytes res" where
  "TlsGetCertVerifyData os s =
     (let context = (if tl_state s = TLS_ST_CR_CERT_VERIFY \<or> tl_state s = TLS_ST_SW_CERT_VERIFY
                     then ascii ''TLS 1.3, server CertificateVerify'' else ascii ''TLS 1.3, client CertificateVerify'');
          preamble = replicate TLS_TBS_START_SIZE 32 @ context @ [0] in
      bindR (if tl_state s = TLS_ST_CR_CERT_VERIFY \<or> tl_state s = TLS_ST_SR_CERT_VERIFY
             then mem_slice (tl_cert_verify_hash s) 0 (unat (tl_cert_verify_hash_len s))
             else bindR (TlsHandshakeHash os s (replicate EVP_MAX_MD_SIZE 0) EVP_MAX_MD_SIZE) (\<lambda>(h, n). mem_slice h 0 n)) (\<lambda>h.
        Inr (preamble @ h)))"

definition TLS_USE_PSS :: "Tls \<Rightarrow> bool" where
  "TLS_USE_PSS s \<longleftrightarrow> (case tl_peer_sigalg s of None \<Rightarrow> False | Some lu \<Rightarrow> lu_sig lu = EVP_PKEY_RSA_PSS)"

definition TlsDoCertVerify :: "'c ossl \<Rightarrow> Tls \<Rightarrow> bytes \<Rightarrow> EVP_PKEY \<Rightarrow> evp_md \<Rightarrow> unit res" where
  "TlsDoCertVerify os s data pkey md =
     bindR (TlsGetCertVerifyData os s) (\<lambda>tbs. guardR (os_verify os pkey md (TLS_USE_PSS s) data tbs))"

text \<open>Once the checks of its arguments are done, \<^verbatim>\<open>TlsConstructCertVerify\<close> fails with \<^verbatim>\<open>QUIC_FLOW_RET_ERROR\<close>, which
  is 0 and so no failure to its caller.\<close>

definition TlsConstructCertVerify :: "env \<Rightarrow> 'c ossl \<Rightarrow> Tls \<Rightarrow> WPacket \<Rightarrow> WPacket \<times> unit res" where
  "TlsConstructCertVerify e os s pkt =
     (case (tl_tmp_sigalg s, tl_tmp_cert s) of
        (Some lu, Some i) \<Rightarrow>
          (case (cpk_privatekey (ce_pkeys (tl_cert s) ! i), TlsLookupMd os (Some lu)) of
             (Some pkey, Some md) \<Rightarrow>
               quiet
                 (bindS (pkt, TlsGetCertVerifyData os s) (\<lambda>pkt1 tbs.
                  bindS (WPacketPut2 e pkt1 (ucast (lu_sigalg lu))) (\<lambda>pkt2 _.
                  bindS (pkt2, alloc e (unat (os_pkey_size os pkey))) (\<lambda>pkt3 _.
                  bindS (pkt3, someR (os_sign os pkey md (lu_sig lu = EVP_PKEY_RSA_PSS) tbs)) (\<lambda>pkt4 sig.
                    WPacketSubMemcpyU16 e pkt4 (Some sig))))))
           | _ \<Rightarrow> (pkt, Inl Fail))
      | _ \<Rightarrow> (pkt, Inl Fail))"

section \<open>Finished messages and binders\<close>

text \<open>The result 0 is \<open>Fail\<close>.\<close>

definition TlsFinalFinishMac :: "'c ossl \<Rightarrow> Tls \<Rightarrow> bool \<Rightarrow> bytes \<Rightarrow> (bytes \<times> u64) res" where
  "TlsFinalFinishMac os s srv out =
     bindR (TlsHandshakeHash os s (replicate EVP_MAX_MD_SIZE 0) EVP_MAX_MD_SIZE) (\<lambda>(hash, hashlen).
     bindR (mem_slice (if srv then tl_server_finished_secret s else tl_client_finished_secret s) 0 hashlen) (\<lambda>key.
     bindR (someR (TlsHandshakeMd os s)) (\<lambda>md.
     bindR (someR (md_hmac md key (take hashlen hash))) (\<lambda>d.
       if d = [] then Inl Fail else bindR (mem_copy out 0 d) (\<lambda>out'. Inr (out', of_nat (length d)))))))"

definition TlsTakeMac :: "'c ossl \<Rightarrow> 'c Quic \<Rightarrow> 'c Quic \<times> unit res" where
  "TlsTakeMac os quic =
     (let s = q_tls quic in
      on_tls quic (case TlsFinalFinishMac os s (\<not> q_server quic) (tl_peer_finish_md s) of
        Inl err \<Rightarrow> (s\<lparr>tl_peer_finish_md_len := 0\<rparr>, Inl err)
      | Inr (d, n) \<Rightarrow> (s\<lparr>tl_peer_finish_md := d, tl_peer_finish_md_len := n\<rparr>, Inr ())))"

definition TlsFinishedBuild :: "env \<Rightarrow> 'c ossl \<Rightarrow> 'c Quic \<Rightarrow> WPacket \<Rightarrow> ('c Quic \<times> WPacket) \<times> unit res" where
  "TlsFinishedBuild e os quic pkt =
     (let s = q_tls quic in
      case TlsFinalFinishMac os s (q_server quic) (tl_finish_md s) of
        Inl err \<Rightarrow> ((quic, pkt), Inl err)
      | Inr (d, n) \<Rightarrow>
          let quic1 = quic\<lparr>q_tls := s\<lparr>tl_finish_md := d, tl_finish_md_len := n\<rparr>\<rparr> in
          (case mem_slice d 0 (unat n) of
             Inl err \<Rightarrow> ((quic1, pkt), Inl err)
           | Inr fin \<Rightarrow> (case WPacketMemcpy e pkt (Some fin) of (pkt1, r) \<Rightarrow> ((quic1, pkt1), r))))"

definition TlsFinishedCheck :: "Tls \<Rightarrow> RPacket \<Rightarrow> unit res" where
  "TlsFinishedCheck s pkt =
     (let len = tl_peer_finish_md_len s in
      if RPacketRemaining pkt \<noteq> len then Inl Fail
      else bindR (mem_slice (rp_buf pkt) (RPacketData pkt) (unat len)) (\<lambda>a.
           bindR (mem_slice (tl_peer_finish_md s) 0 (unat len)) (\<lambda>b. guardR (a = b))))"

text \<open>The binder of the message up to it.\<close>

definition TlsPskDoBinder ::
    "env \<Rightarrow> 'c ossl \<Rightarrow> Tls \<Rightarrow> evp_md \<Rightarrow> bytes \<Rightarrow> bytes option \<Rightarrow> QuicSessionTicket \<Rightarrow> Tls \<times> bytes res" where
  "TlsPskDoBinder e os s md msg binder_in t =
     (case TlsGenerateSecret e os (Some md) None (Some (qt_master_key t, unat (qt_master_key_length t))) (tl_early_secret s) of
        Inl err \<Rightarrow> (s, Inl err)
      | Inr x \<Rightarrow>
          let s1 = s\<lparr>tl_early_secret := x\<rparr>; zeros = replicate EVP_MAX_MD_SIZE 0; hashsize = md_size md in
          (s1,
           bindR (someR (md_hash md [])) (\<lambda>h0.
           bindR (hkdf_label_array e md (tl_early_secret s1) (ascii ''res binder'') (Some (h0 @ drop (length h0) zeros)) hashsize
                    zeros hashsize) (\<lambda>binderkey.
           bindR (TlsDeriveFinishedKey e md binderkey zeros hashsize) (\<lambda>finishedkey.
           bindR (someR (md_hash md msg)) (\<lambda>h.
           bindR (mem_slice finishedkey 0 hashsize) (\<lambda>key.
           bindR (someR (md_hmac md key (take hashsize h))) (\<lambda>binder.
             if length binder \<noteq> hashsize then Inl Fail
             else case binder_in of
               None \<Rightarrow> Inr binder
             | Some b \<Rightarrow> if b = binder then Inr binder else Inl Fail))))))))"

section \<open>Tickets\<close>

definition QuicSessionMemcpy :: "bytes \<Rightarrow> bytes option \<Rightarrow> (bytes \<times> u64) res" where
  "QuicSessionMemcpy dst src =
     (case src of
        None \<Rightarrow> Inr (dst, 0)
      | Some d \<Rightarrow>
          if d = [] then Inr (dst, 0)
          else if length d > TLS_MAX_RESUMPTION_PSK_LENGTH then Inl Fail
          else bindR (mem_copy dst 0 d) (\<lambda>dst'. Inr (dst', of_nat (length d))))"

definition i2dQuicSession :: "'c ossl \<Rightarrow> QUIC_SESSION \<Rightarrow> bytes res" where
  "i2dQuicSession os sess =
     (case (ss_cipher sess, QuicSessionTicketPickTail sess) of
        (Some c, Some t) \<Rightarrow>
          bindR (if QuicDataIsEmpty (qt_ticket t) then Inr None
                 else bindR (ptr_bytes (qd_data (qt_ticket t)) (unat (qd_len (qt_ticket t)))) (\<lambda>d. Inr (Some d))) (\<lambda>tick.
          bindR (mem_slice (qt_master_key t) 0 (unat (qt_master_key_length t))) (\<lambda>k.
            someR (os_i2d_session os \<lparr>as_cipher_id = ucast (tc_id c), as_tick_age_add = qt_age_add t,
              as_max_early_data = ss_max_early_data sess, as_tick_lifetime_hint = qt_lifetime_hint t,
              as_tlsext_tick = tick, as_master_key = Some k\<rparr>)))
      | _ \<Rightarrow> Inl Fail)"

definition d2iQuicSession :: "env \<Rightarrow> 'c ossl \<Rightarrow> bytes \<Rightarrow> QUIC_SESSION res" where
  "d2iQuicSession e os p =
     bindR (someR (os_d2i_session os p)) (\<lambda>as.
     bindR (QuicSessionCreate e) (\<lambda>sess0.
     bindR (someR (QuicGetTlsCipherById (ucast (as_cipher_id as)))) (\<lambda>c.
     let sess = sess0\<lparr>ss_cipher := Some c, ss_max_early_data := as_max_early_data as\<rparr> in
     bindR (QuicSessionTicketNew e (ucast (as_tick_lifetime_hint as)) (as_tick_age_add as) None 0) (\<lambda>t.
     let t1 = (case as_tlsext_tick as of
                 None \<Rightarrow> t
               | Some d \<Rightarrow> t\<lparr>qt_ticket := \<lparr>qd_data = Some d, qd_len = of_nat (length d)\<rparr>\<rparr>) in
     bindR (QuicSessionMemcpy (qt_master_key t1) (as_master_key as)) (\<lambda>(k, n).
       Inr (QuicSessionTicketAdd sess (t1\<lparr>qt_master_key := k, qt_master_key_length := n\<rparr>)))))))"

definition TLSEXT_KEYNAME_LENGTH :: nat where "TLSEXT_KEYNAME_LENGTH = 16"
definition EVP_MAX_IV_LENGTH :: nat where "EVP_MAX_IV_LENGTH = 16"

text \<open>The ticket is the bytes the packet holds of it. The session found before stays when this fails, until the
  decrypted bytes are parsed.\<close>

definition TlsDecryptTicket ::
    "env \<Rightarrow> 'c ossl \<Rightarrow> Tls \<Rightarrow> bytes \<Rightarrow> QUIC_SESSION option \<Rightarrow> QUIC_SESSION option \<times> unit res" where
  "TlsDecryptTicket e os s etick sess =
     (let tk = tl_ticket_key s; n = length etick; iv_len = os_iv_len os; mlen = md_size (os_sha256 os) in
      if n < TLSEXT_KEYNAME_LENGTH + EVP_MAX_IV_LENGTH then (sess, Inl Fail)
      else if take TLSEXT_KEYNAME_LENGTH etick \<noteq> tk_key_name tk then (sess, Inl Fail)
      else if mlen = 0 then (sess, Inl Fail)
      else if n \<le> TLSEXT_KEYNAME_LENGTH + iv_len + mlen then (sess, Inl Fail)
      else
        let body = take (n - mlen) etick in
        bindS (sess, someR (md_hmac (os_sha256 os) (tk_hmac_key tk) body)) (\<lambda>sess tick_hmac.
          if take mlen tick_hmac \<noteq> drop (n - mlen) etick then (sess, Inl Fail)
          else
            let p = drop (TLSEXT_KEYNAME_LENGTH + iv_len) body;
                iv = take iv_len (drop TLSEXT_KEYNAME_LENGTH etick) in
            bindS (sess, alloc e (length p)) (\<lambda>sess _.
            bindS (sess, someR (os_cbc_dec os (tk_aes_key tk) iv p)) (\<lambda>sess sdec.
              case d2iQuicSession e os sdec of
                Inl err \<Rightarrow> (None, Inl err)
              | Inr x \<Rightarrow> (Some x, Inr ())))))"

section \<open>Installing the keys\<close>

text \<open>A pointer to an array of the engine: how to read it and how to write it.\<close>

type_synonym tls_array = "(Tls \<Rightarrow> bytes) \<times> ((bytes \<Rightarrow> bytes) \<Rightarrow> Tls \<Rightarrow> Tls)"

definition arr_get :: "tls_array \<Rightarrow> Tls \<Rightarrow> bytes" where "arr_get a s = fst a s"
definition arr_set :: "tls_array \<Rightarrow> bytes \<Rightarrow> Tls \<Rightarrow> Tls" where "arr_set a d s = snd a (\<lambda>_. d) s"

text \<open>The callback that logs a secret only observes it and is left out.\<close>

definition QuicInstallEncryptorDecryptor ::
    "env \<Rightarrow> 'c ossl \<Rightarrow> Tls \<Rightarrow> evp_md \<Rightarrow> bytes \<Rightarrow> tls_array option \<Rightarrow> bytes \<Rightarrow> bytes \<Rightarrow> 'c QuicCipherSpace \<Rightarrow>
     tls_array option \<Rightarrow> bool \<Rightarrow> (Tls \<times> 'c QuicCipherSpace) \<times> unit res" where
  "QuicInstallEncryptorDecryptor e os s md in_secret out_secret label hash cs finsecret enc =
     (case TlsDeriveSecrets e md in_secret label hash
             (case out_secret of None \<Rightarrow> fresh_mem e EVP_MAX_MD_SIZE | Some a \<Rightarrow> arr_get a s) of
        Inl err \<Rightarrow> ((s, cs), Inl err)
      | Inr sec \<Rightarrow>
          let s1 = (case out_secret of None \<Rightarrow> s | Some a \<Rightarrow> arr_set a sec s) in
          (case (case finsecret of
                   None \<Rightarrow> (s1, Inr ())
                 | Some a \<Rightarrow>
                     (case TlsDeriveFinishedKey e md sec (arr_get a s1) (md_size md) of
                        Inl err \<Rightarrow> (s1, Inl err)
                      | Inr f \<Rightarrow> (arr_set a f s1, Inr ()))) of
             (s2, Inl err) \<Rightarrow> ((s2, cs), Inl err)
           | (s2, Inr _) \<Rightarrow>
               (case QuicCiphersPrepare e ((os_keys os)\<lparr>ek_md := md\<rparr>) (csp_ciphers cs) (Some sec) enc of
                  None \<Rightarrow> ((s2, cs), Inl Abort)
                | Some (c, Inl err) \<Rightarrow> ((s2, cs\<lparr>csp_ciphers := c\<rparr>), Inl err)
                | Some (c, Inr _) \<Rightarrow> ((s2, cs\<lparr>csp_ciphers := c, csp_cipher_inited := True\<rparr>), Inr ()))))"

text \<open>The side of a packet number space, and writing it back.\<close>

definition space_side :: "bool \<Rightarrow> 'c QUIC_CRYPTO \<Rightarrow> 'c QuicCipherSpace" where
  "space_side enc c = (if enc then qy_encrypt c else qy_decrypt c)"

definition space_set :: "bool \<Rightarrow> 'c QuicCipherSpace \<Rightarrow> 'c QUIC_CRYPTO \<Rightarrow> 'c QUIC_CRYPTO" where
  "space_set enc cs c = (if enc then c\<lparr>qy_encrypt := cs\<rparr> else c\<lparr>qy_decrypt := cs\<rparr>)"

definition res_master_secret :: "env \<Rightarrow> evp_md \<Rightarrow> bytes \<Rightarrow> bytes \<Rightarrow> nat \<Rightarrow> Tls \<Rightarrow> Tls \<times> unit res" where
  "res_master_secret e md in_secret hashval hlen s =
     (case hkdf_label_array e md in_secret (ascii ''res master'') (Some hashval) hlen (tl_resumption_master_secret s) hlen of
        Inl err \<Rightarrow> (s, Inl err)
      | Inr m \<Rightarrow> (s\<lparr>tl_resumption_master_secret := m\<rparr>, Inr ()))"

text \<open>\<open>res_master\<close> says that the label is that of the client's application traffic. When an algorithm cannot
  be set, the result is \<^verbatim>\<open>QUIC_FLOW_RET_ERROR\<close>, which is 0: no failure.\<close>

definition QuicCreateEncryptorDecryptor ::
    "env \<Rightarrow> 'c ossl \<Rightarrow> 'c Quic \<Rightarrow> crypto_space \<Rightarrow> (Tls \<Rightarrow> bytes) \<Rightarrow> tls_array option \<Rightarrow> tls_array \<Rightarrow> string \<Rightarrow>
     tls_array option \<Rightarrow> bool \<Rightarrow> bool \<Rightarrow> bool \<Rightarrow> 'c Quic \<times> unit res" where
  "QuicCreateEncryptorDecryptor e os quic sp in_secret out_secret hash label finsecret res_master server_traffic enc =
     bindS (quic, crypto_at quic sp) (\<lambda>quic c.
       if csp_cipher_inited (space_side enc c) then (quic, Inr ())
       else case tl_handshake_cipher (q_tls quic) of
         None \<Rightarrow> (quic, Inl Fail)
       | Some cipher \<Rightarrow>
           bindS (TlsDigestCachedRecords os quic) (\<lambda>quic1 _.
           bindS (quic1, TlsHandshakeHash os (q_tls quic1) (replicate EVP_MAX_MD_SIZE 0) EVP_MAX_MD_SIZE)
             (\<lambda>quic1 (hashval, hlen).
           let s1 = q_tls quic1 in
           bindS (quic1, if server_traffic then mem_copy (arr_get hash s1) 0 (take hlen hashval) else Inr (arr_get hash s1))
             (\<lambda>quic1 h.
           let s2 = arr_set hash h s1; quic2 = quic1\<lparr>q_tls := s2\<rparr> in
           case QUIC_set_hp_cipher_space_alg (space_side enc c) QUIC_ALG_AES_128_ECB of
             Inl err \<Rightarrow> (quic2, if err = Fail then Inr () else Inl err)
           | Inr cs1 \<Rightarrow>
               (case QUIC_set_pp_cipher_space_alg cs1 (tc_algorithm_enc cipher) of
                  Inl err \<Rightarrow> (crypto_upd quic2 sp (space_set enc cs1 c), if err = Fail then Inr () else Inl err)
                | Inr cs2 \<Rightarrow>
                    let quic3 = crypto_upd quic2 sp (space_set enc cs2 c) in
                    (case TlsHandshakeMd os s2 of
                       None \<Rightarrow> (quic3, Inl Fail)
                     | Some md \<Rightarrow>
                         if md_size md = 0 then (quic3, Inl Fail)
                         else
                           bindS (on_tls quic3 (if res_master then res_master_secret e md (in_secret s2) hashval hlen s2
                                                else (s2, Inr ()))) (\<lambda>quic4 _.
                             case QuicInstallEncryptorDecryptor e os (q_tls quic4) md (in_secret (q_tls quic4)) out_secret
                                    (ascii label) (arr_get hash (q_tls quic4)) cs2 finsecret enc of
                               ((s5, cs5), r) \<Rightarrow> (crypto_upd (quic4\<lparr>q_tls := s5\<rparr>) sp (space_set enc cs5 c), r))))))))"

definition hs_traffic_hash :: tls_array where
  "hs_traffic_hash = (tl_handshake_traffic_hash, tl_handshake_traffic_hash_update)"

definition fin_hash :: tls_array where
  "fin_hash = (tl_server_finished_hash, tl_server_finished_hash_update)"

definition QuicCreateHandshakeClientEncryptorDecryptor :: "env \<Rightarrow> 'c ossl \<Rightarrow> 'c Quic \<Rightarrow> bool \<Rightarrow> 'c Quic \<times> unit res" where
  "QuicCreateHandshakeClientEncryptorDecryptor e os quic enc =
     QuicCreateEncryptorDecryptor e os quic CrHandshake tl_handshake_secret None hs_traffic_hash ''c hs traffic''
       (Some (tl_client_finished_secret, tl_client_finished_secret_update)) False False enc"

definition QuicCreateHandshakeServerEncryptorDecryptor :: "env \<Rightarrow> 'c ossl \<Rightarrow> 'c Quic \<Rightarrow> bool \<Rightarrow> 'c Quic \<times> unit res" where
  "QuicCreateHandshakeServerEncryptorDecryptor e os quic enc =
     QuicCreateEncryptorDecryptor e os quic CrHandshake tl_handshake_secret None hs_traffic_hash ''s hs traffic''
       (Some (tl_server_finished_secret, tl_server_finished_secret_update)) False True enc"

definition QuicCreateAppDataClientEncryptorDecryptor :: "env \<Rightarrow> 'c ossl \<Rightarrow> 'c Quic \<Rightarrow> bool \<Rightarrow> 'c Quic \<times> unit res" where
  "QuicCreateAppDataClientEncryptorDecryptor e os quic enc =
     QuicCreateEncryptorDecryptor e os quic CrApplication tl_master_secret
       (Some (tl_client_app_traffic_secret, tl_client_app_traffic_secret_update)) fin_hash ''c ap traffic'' None True False enc"

definition QuicCreateAppDataServerEncryptorDecryptor :: "env \<Rightarrow> 'c ossl \<Rightarrow> 'c Quic \<Rightarrow> bool \<Rightarrow> 'c Quic \<times> unit res" where
  "QuicCreateAppDataServerEncryptorDecryptor e os quic enc =
     QuicCreateEncryptorDecryptor e os quic CrApplication tl_master_secret
       (Some (tl_server_app_traffic_secret, tl_server_app_traffic_secret_update)) fin_hash ''s ap traffic'' None False True enc"

definition QuicCreateHandshakeClientEncoders :: "env \<Rightarrow> 'c ossl \<Rightarrow> 'c Quic \<Rightarrow> 'c Quic \<times> unit res" where
  "QuicCreateHandshakeClientEncoders e os quic = QuicCreateHandshakeClientEncryptorDecryptor e os quic True"

definition QuicCreateHandshakeClientDecoders :: "env \<Rightarrow> 'c ossl \<Rightarrow> 'c Quic \<Rightarrow> 'c Quic \<times> unit res" where
  "QuicCreateHandshakeClientDecoders e os quic = QuicCreateHandshakeClientEncryptorDecryptor e os quic False"

definition QuicCreateHandshakeServerEncoders :: "env \<Rightarrow> 'c ossl \<Rightarrow> 'c Quic \<Rightarrow> 'c Quic \<times> unit res" where
  "QuicCreateHandshakeServerEncoders e os quic = QuicCreateHandshakeServerEncryptorDecryptor e os quic True"

definition QuicCreateHandshakeServerDecoders :: "env \<Rightarrow> 'c ossl \<Rightarrow> 'c Quic \<Rightarrow> 'c Quic \<times> unit res" where
  "QuicCreateHandshakeServerDecoders e os quic = QuicCreateHandshakeServerEncryptorDecryptor e os quic False"

definition QuicCreateAppDataClientEncoders :: "env \<Rightarrow> 'c ossl \<Rightarrow> 'c Quic \<Rightarrow> 'c Quic \<times> unit res" where
  "QuicCreateAppDataClientEncoders e os quic = QuicCreateAppDataClientEncryptorDecryptor e os quic True"

definition QuicCreateAppDataClientDecoders :: "env \<Rightarrow> 'c ossl \<Rightarrow> 'c Quic \<Rightarrow> 'c Quic \<times> unit res" where
  "QuicCreateAppDataClientDecoders e os quic = QuicCreateAppDataClientEncryptorDecryptor e os quic False"

definition QuicCreateAppDataServerEncoders :: "env \<Rightarrow> 'c ossl \<Rightarrow> 'c Quic \<Rightarrow> 'c Quic \<times> unit res" where
  "QuicCreateAppDataServerEncoders e os quic = QuicCreateAppDataServerEncryptorDecryptor e os quic True"

definition QuicCreateAppDataServerDecoders :: "env \<Rightarrow> 'c ossl \<Rightarrow> 'c Quic \<Rightarrow> 'c Quic \<times> unit res" where
  "QuicCreateAppDataServerDecoders e os quic = QuicCreateAppDataServerEncryptorDecryptor e os quic False"

end
