(* ===== verification/Tls_Ext.thy ===== *)
theory Tls_Ext
  imports Tls_Lib
begin

text \<open>
  TLS extensions, the part the client and the server share (\<^verbatim>\<open>quic/tls/extension.c\<close>): building and parsing
  the extensions of a message from a table, and the transport parameters. A certificate and its place in
  the chain are passed to every handler by the code and used by none, so they are left out. The hooks of the
  test build are left out.
\<close>

section \<open>Tables\<close>

definition TLSEXT_CLIENT_HELLO :: u32 where "TLSEXT_CLIENT_HELLO = 0x0001"
definition TLSEXT_SERVER_HELLO :: u32 where "TLSEXT_SERVER_HELLO = 0x0002"
definition TLSEXT_CERTIFICATE :: u32 where "TLSEXT_CERTIFICATE = 0x0004"
definition TLSEXT_ENCRYPTED_EXT :: u32 where "TLSEXT_ENCRYPTED_EXT = 0x0008"
definition TLSEXT_NEW_SESSION_TICKET :: u32 where "TLSEXT_NEW_SESSION_TICKET = 0x0010"

definition EXT_TYPE_SERVER_NAME :: u16 where "EXT_TYPE_SERVER_NAME = 0"
definition EXT_TYPE_SUPPORTED_GROUPS :: u16 where "EXT_TYPE_SUPPORTED_GROUPS = 10"
definition EXT_TYPE_SIGNATURE_ALGORITHMS :: u16 where "EXT_TYPE_SIGNATURE_ALGORITHMS = 13"
definition EXT_TYPE_ALPN :: u16 where "EXT_TYPE_ALPN = 16"
definition EXT_TYPE_PRE_SHARED_KEY :: u16 where "EXT_TYPE_PRE_SHARED_KEY = 41"
definition EXT_TYPE_EARLY_DATA :: u16 where "EXT_TYPE_EARLY_DATA = 42"
definition EXT_TYPE_SUPPORTED_VERSIONS :: u16 where "EXT_TYPE_SUPPORTED_VERSIONS = 43"
definition EXT_TYPE_PSK_KEY_EXCHANGE_MODES :: u16 where "EXT_TYPE_PSK_KEY_EXCHANGE_MODES = 45"
definition EXT_TYPE_KEY_SHARE :: u16 where "EXT_TYPE_KEY_SHARE = 51"
definition EXT_TYPE_QUIC_TRANS_PARAMS :: u16 where "EXT_TYPE_QUIC_TRANS_PARAMS = 57"

text \<open>\<^verbatim>\<open>EXT_RETURN_FAIL\<close> is \<open>Fail\<close>.\<close>

datatype ExtReturn = EXT_RETURN_SENT | EXT_RETURN_NOT_SENT

record 'c TlsExtConstruct =
  ec_type :: u16
  ec_context :: u32
  ec_check :: "('c Quic \<Rightarrow> unit res) option"
  ec_construct :: "('c Quic \<Rightarrow> WPacket \<Rightarrow> u32 \<Rightarrow> ('c Quic \<times> WPacket) \<times> ExtReturn res) option"

record 'c TlsExtParse =
  ep_type :: u16
  ep_context :: u32
  ep_parse :: "'c Quic \<Rightarrow> RPacket \<Rightarrow> u32 \<Rightarrow> 'c Quic \<times> unit res"

definition TlsShouldAddExtension :: "u32 \<Rightarrow> u32 \<Rightarrow> bool" where
  "TlsShouldAddExtension extctx thisctx \<longleftrightarrow> extctx AND thisctx \<noteq> 0"

definition TlsShouldParseExtension :: "u32 \<Rightarrow> u32 \<Rightarrow> bool" where
  "TlsShouldParseExtension extctx thisctx \<longleftrightarrow> extctx AND thisctx \<noteq> 0"

text \<open>An operation on the packet next to the connection.\<close>

definition on_wpkt :: "'q \<Rightarrow> WPacket \<times> 'a res \<Rightarrow> ('q \<times> WPacket) \<times> 'a res" where
  "on_wpkt quic r = ((quic, fst r), snd r)"

section \<open>Building\<close>

text \<open>An extension that is not sent is taken back: the packet structure is what it was, the buffer is not.\<close>

definition wp_restore :: "WPacket \<Rightarrow> WPacket \<Rightarrow> WPacket" where
  "wp_restore old new = old\<lparr>wp_data := wp_data new, wp_gen := wp_gen new\<rparr>"

fun construct_ext_loop ::
    "env \<Rightarrow> 'c TlsExtConstruct list \<Rightarrow> u32 \<Rightarrow> 'c Quic \<Rightarrow> WPacket \<Rightarrow> ('c Quic \<times> WPacket) \<times> unit res" where
  "construct_ext_loop e [] cxt quic pkt = ((quic, pkt), Inr ())"
| "construct_ext_loop e (x # xs) cxt quic pkt =
     (if \<not> TlsShouldAddExtension (ec_context x) cxt then construct_ext_loop e xs cxt quic pkt
      else if (case ec_check x of None \<Rightarrow> False | Some f \<Rightarrow> \<not> ok (f quic)) then construct_ext_loop e xs cxt quic pkt
      else case ec_construct x of
        None \<Rightarrow> construct_ext_loop e xs cxt quic pkt
      | Some f \<Rightarrow>
          bindS (on_wpkt quic (bindS (WPacketPut2 e pkt (ucast (ec_type x))) (\<lambda>pkt1 _. WPacketStartSubU16 e pkt1)))
            (\<lambda>(quic1, pkt2) _.
          bindS (f quic1 pkt2 cxt) (\<lambda>(quic2, pkt3) ret.
            case WPacketClose pkt3 of
              (pkt4, Inl err) \<Rightarrow>
                if err \<noteq> Fail \<or> ret \<noteq> EXT_RETURN_NOT_SENT then ((quic2, pkt4), Inl err)
                else construct_ext_loop e xs cxt quic2 (wp_restore pkt pkt4)
            | (pkt4, Inr _) \<Rightarrow>
                construct_ext_loop e xs cxt quic2 (if ret = EXT_RETURN_NOT_SENT then wp_restore pkt pkt4 else pkt4))))"

definition TlsConstructExtensions ::
    "env \<Rightarrow> 'c TlsExtConstruct list \<Rightarrow> u32 \<Rightarrow> 'c Quic \<Rightarrow> WPacket \<Rightarrow> ('c Quic \<times> WPacket) \<times> unit res" where
  "TlsConstructExtensions e ext cxt quic pkt =
     bindS (on_wpkt quic (WPacketStartSubU16 e pkt)) (\<lambda>(quic1, pkt1) _.
     bindS (construct_ext_loop e ext cxt quic1 pkt1) (\<lambda>(quic2, pkt2) _. on_wpkt quic2 (WPacketClose pkt2)))"

definition TlsExtConstructAlpn :: "env \<Rightarrow> QUIC_DATA \<Rightarrow> WPacket \<Rightarrow> WPacket \<times> unit res" where
  "TlsExtConstructAlpn e alpn pkt =
     bindS (WPacketStartSubU16 e pkt) (\<lambda>pkt1 _.
     bindS (pkt1, ptr_bytes (qd_data alpn) (unat (qd_len alpn))) (\<lambda>pkt2 d.
     bindS (WPacketSubMemcpyU8 e pkt2 (if qd_data alpn = None then None else Some d)) (\<lambda>pkt3 _. WPacketClose pkt3)))"

section \<open>Parsing\<close>

definition TlsExtLenParse :: "RPacket \<Rightarrow> RPacket res" where
  "TlsExtLenParse pkt =
     bindR (RPacketGet2 pkt) (\<lambda>(ext_len, pkt1). if RPacketRemaining pkt1 \<noteq> ucast ext_len then Inl Fail else Inr pkt1)"

lemma Get2_left:
  assumes "RPacketGet2 p = Inr (v, q)"
  shows "rp_left q < rp_left p"
  using assms
  by (auto simp: RPacketGet2_def RPacketGetData_def RPacketPeekData_def res_simps mem_get_Inr rp_left_def RPacketForward_def
      split: if_splits)

lemma Pull_left: "RPacketPull p n = Inr q \<Longrightarrow> rp_left q \<le> rp_left p"
  by (auto simp: RPacketPull_def intro!: rp_left_adv split: if_splits)

text \<open>The search for the extension of one type. Empty extensions are passed over, whatever their type, and the
  result of \<^verbatim>\<open>RPacketPull\<close> is not looked at. The data of the extension is as long as it says, whether the
  packet holds as much or not; its head is that of the message.\<close>

function find_ext_loop :: "u16 \<Rightarrow> RPacket \<Rightarrow> RPacket option res" where
  "find_ext_loop type tmp =
     (if RPacketRemaining tmp = 0 then Inr None
      else case RPacketGet2 tmp of
        Inl err \<Rightarrow> Inl err
      | Inr (t, tmp1) \<Rightarrow>
          (case RPacketGet2 tmp1 of
             Inl err \<Rightarrow> Inl err
           | Inr (len, tmp2) \<Rightarrow>
               if len = 0 then find_ext_loop type tmp2
               else if t \<noteq> ucast type
               then find_ext_loop type (case RPacketPull tmp2 (ucast len) of Inr tmp3 \<Rightarrow> tmp3 | Inl _ \<Rightarrow> tmp2)
               else Inr (Some (RPacketHeadSet (RPacketBufInit (rp_buf tmp2) (RPacketData tmp2) (ucast len)) (RPacketHead tmp2)))))"
  by pat_completeness auto

termination
proof (relation "measure (\<lambda>(_, tmp). rp_left tmp)", goal_cases)
  case (2 type tmp x t tmp1 y len tmp2)
  then show ?case using Get2_left[of tmp t tmp1] Get2_left[of tmp1 len tmp2] by simp
next
  case (3 type tmp x t tmp1 y len tmp2)
  moreover have "rp_left (case RPacketPull tmp2 (ucast len) of Inr tmp3 \<Rightarrow> tmp3 | Inl _ \<Rightarrow> tmp2) \<le> rp_left tmp2"
    by (auto split: sum.split dest: Pull_left)
  ultimately show ?case using Get2_left[of tmp t tmp1] Get2_left[of tmp1 len tmp2] by simp
qed simp

fun parse_ext_loop :: "'c TlsExtParse list \<Rightarrow> u32 \<Rightarrow> 'c Quic \<Rightarrow> RPacket \<Rightarrow> 'c Quic \<times> unit res" where
  "parse_ext_loop [] cxt quic pkt = (quic, Inr ())"
| "parse_ext_loop (x # xs) cxt quic pkt =
     (if \<not> TlsShouldParseExtension (ep_context x) cxt then parse_ext_loop xs cxt quic pkt
      else case find_ext_loop (ep_type x) pkt of
        Inl err \<Rightarrow> (quic, Inl err)
      | Inr None \<Rightarrow> parse_ext_loop xs cxt quic pkt
      | Inr (Some ext_data) \<Rightarrow>
          bindS (ep_parse x quic ext_data cxt) (\<lambda>quic1 _. parse_ext_loop xs cxt quic1 pkt))"

definition TlsParseExtensions :: "'c TlsExtParse list \<Rightarrow> u32 \<Rightarrow> 'c Quic \<Rightarrow> RPacket \<Rightarrow> 'c Quic \<times> RPacket res" where
  "TlsParseExtensions ext cxt quic pkt =
     bindS (quic, TlsExtLenParse pkt) (\<lambda>quic pkt1.
     bindS (parse_ext_loop ext cxt quic pkt1) (\<lambda>quic1 _.
       (quic1, Inr (case RPacketPull pkt1 (RPacketRemaining pkt1) of Inr pkt2 \<Rightarrow> pkt2 | Inl _ \<Rightarrow> pkt1))))"

section \<open>Transport parameters\<close>

datatype qtp_parser = QtpParseInteger | QtpParseStatelessResetToken | QtpParseSourceConnId
datatype qtp_check = QtpCheckInteger | QtpCheckStatelessResetToken | QtpCheckGrease | QtpCheckGoogleVersion
datatype qtp_constructor = QtpConstructInteger | QtpConstructSourceConnId | QtpConstructGrease | QtpConstructGoogleVersion

record TlsExtQtpDefinition =
  qd_type :: u64
  qd_parse :: "qtp_parser option"
  qd_check :: "qtp_check option"
  qd_construct :: "qtp_constructor option"

definition QUIC_TRANS_PARAM_STATELESS_RESET_TOKEN :: u64 where "QUIC_TRANS_PARAM_STATELESS_RESET_TOKEN = 0x02"

definition TlsExtQtpCheckInteger :: "QuicTransParams \<Rightarrow> u64 \<Rightarrow> unit res" where
  "TlsExtQtpCheckInteger param offset =
     bindR (QUIC_GET_U64_VALUE_BY_OFFSET param offset) (\<lambda>v. guardR (v \<noteq> 0))"

definition TlsExtClntQtpCheckStatelessResetToken :: "unit res" where
  "TlsExtClntQtpCheckStatelessResetToken = Inl Fail"

definition TlsExtQtpCheckGrease :: "unit res" where "TlsExtQtpCheckGrease = Inl Fail"

definition TlsExtQtpCheckGoogleVersion :: "unit res" where "TlsExtQtpCheckGoogleVersion = Inl Fail"

fun qtp_check_run :: "qtp_check \<Rightarrow> QuicTransParams \<Rightarrow> u64 \<Rightarrow> unit res" where
  "qtp_check_run QtpCheckInteger param offset = TlsExtQtpCheckInteger param offset"
| "qtp_check_run QtpCheckStatelessResetToken param offset = TlsExtClntQtpCheckStatelessResetToken"
| "qtp_check_run QtpCheckGrease param offset = TlsExtQtpCheckGrease"
| "qtp_check_run QtpCheckGoogleVersion param offset = TlsExtQtpCheckGoogleVersion"

definition TlsExtQtpConstructCid :: "env \<Rightarrow> QUIC_DATA \<Rightarrow> WPacket \<Rightarrow> WPacket \<times> unit res" where
  "TlsExtQtpConstructCid e cid pkt =
     bindS (QuicVariableLengthWrite e pkt (qd_len cid)) (\<lambda>pkt1 _.
       if qd_len cid = 0 then (pkt1, Inr ())
       else bindS (pkt1, ptr_bytes (qd_data cid) (unat (qd_len cid))) (\<lambda>pkt2 d. WPacketMemcpy e pkt2 (Some d)))"

definition TlsExtQtpConstructSourceConnId :: "env \<Rightarrow> 'c Quic \<Rightarrow> WPacket \<Rightarrow> WPacket \<times> unit res" where
  "TlsExtQtpConstructSourceConnId e quic pkt = TlsExtQtpConstructCid e (q_scid quic) pkt"

definition TlsExtQtpConstructInteger :: "env \<Rightarrow> QuicTransParams \<Rightarrow> u64 \<Rightarrow> WPacket \<Rightarrow> WPacket \<times> unit res" where
  "TlsExtQtpConstructInteger e param offset pkt =
     bindS (pkt, QUIC_GET_U64_VALUE_BY_OFFSET param offset) (\<lambda>pkt v. QuicVariableLengthValueWrite e pkt v)"

definition TlsExtQtpConstructGrease :: "env \<Rightarrow> WPacket \<Rightarrow> WPacket \<times> unit res" where
  "TlsExtQtpConstructGrease e pkt =
     bindS (QuicVariableLengthWrite e pkt 12) (\<lambda>pkt1 _.
       WPacketMemcpy e pkt1 (Some [0xB9, 0xF8, 0xCB, 0xDE, 0x38, 0x55, 0x6D, 0x9D, 0x34, 0x30, 0x0F, 0x89]))"

definition TlsExtQtpConstructGoogleVersion :: "env \<Rightarrow> WPacket \<Rightarrow> WPacket \<times> unit res" where
  "TlsExtQtpConstructGoogleVersion e pkt = bindS (QuicVariableLengthWrite e pkt 4) (\<lambda>pkt1 _. WPacketPut4 e pkt1 1)"

fun qtp_construct_run :: "env \<Rightarrow> qtp_constructor \<Rightarrow> 'c Quic \<Rightarrow> u64 \<Rightarrow> WPacket \<Rightarrow> WPacket \<times> unit res" where
  "qtp_construct_run e QtpConstructInteger quic offset pkt = TlsExtQtpConstructInteger e (q_local_param quic) offset pkt"
| "qtp_construct_run e QtpConstructSourceConnId quic offset pkt = TlsExtQtpConstructSourceConnId e quic pkt"
| "qtp_construct_run e QtpConstructGrease quic offset pkt = TlsExtQtpConstructGrease e pkt"
| "qtp_construct_run e QtpConstructGoogleVersion quic offset pkt = TlsExtQtpConstructGoogleVersion e pkt"

text \<open>An offset that is not found is that of the parameter before. A parameter without a constructor is
  written as its type alone.\<close>

fun construct_qtp_loop :: "env \<Rightarrow> TlsExtQtpDefinition list \<Rightarrow> 'c Quic \<Rightarrow> u64 \<Rightarrow> WPacket \<Rightarrow> WPacket \<times> unit res" where
  "construct_qtp_loop e [] quic offset pkt = (pkt, Inr ())"
| "construct_qtp_loop e (p # ps) quic offset pkt =
     (let off = (case QuicTransParamGetOffset (qd_type p) of Inr x \<Rightarrow> x | Inl _ \<Rightarrow> offset);
          c = (case qd_check p of None \<Rightarrow> Inr () | Some k \<Rightarrow> qtp_check_run k (q_local_param quic) off) in
      case c of
        Inl err \<Rightarrow> if err = Fail then construct_qtp_loop e ps quic off pkt else (pkt, Inl err)
      | Inr _ \<Rightarrow>
          bindS (QuicVariableLengthWrite e pkt (qd_type p)) (\<lambda>pkt1 _.
            case qd_construct p of
              None \<Rightarrow> construct_qtp_loop e ps quic off pkt1
            | Some f \<Rightarrow> bindS (qtp_construct_run e f quic off pkt1) (\<lambda>pkt2 _. construct_qtp_loop e ps quic off pkt2)))"

definition TlsConstructQtpExtension ::
    "env \<Rightarrow> TlsExtQtpDefinition list \<Rightarrow> 'c Quic \<Rightarrow> WPacket \<Rightarrow> ('c Quic \<times> WPacket) \<times> ExtReturn res" where
  "TlsConstructQtpExtension e param quic pkt =
     bindS (on_wpkt quic (construct_qtp_loop e param quic 0 pkt)) (\<lambda>s _. (s, Inr EXT_RETURN_SENT))"

text \<open>The parsers write to the parameters of the peer.\<close>

definition TlsExtQtpParseInteger :: "'c Quic \<Rightarrow> u64 \<Rightarrow> RPacket \<Rightarrow> u64 \<Rightarrow> 'c Quic \<times> RPacket res" where
  "TlsExtQtpParseInteger quic offset pkt len =
     bindS (quic, QuicVariableLengthDecode pkt) (\<lambda>quic (v, pkt1).
     bindS (quic, QUIC_SET_U64_VALUE_BY_OFFSET (q_peer_param quic) offset v) (\<lambda>quic param.
       (quic\<lparr>q_peer_param := param\<rparr>, Inr pkt1)))"

definition TlsExtQtpParseStatelessResetToken :: "'c Quic \<Rightarrow> RPacket \<Rightarrow> u64 \<Rightarrow> 'c Quic \<times> RPacket res" where
  "TlsExtQtpParseStatelessResetToken quic pkt len =
     (if len \<noteq> of_nat QUIC_STATELESS_RESET_TOKEN_LEN then (quic, Inl Fail)
      else bindS (quic, RPacketCopyBytes pkt len) (\<lambda>quic (d, pkt1).
        (quic\<lparr>q_peer_param := (q_peer_param quic)\<lparr>stateless_reset_token := d\<rparr>\<rparr>, Inr pkt1)))"

definition TlsExtQtpParseSourceConnId :: "'c Quic \<Rightarrow> RPacket \<Rightarrow> u64 \<Rightarrow> 'c Quic \<times> RPacket res" where
  "TlsExtQtpParseSourceConnId quic pkt len =
     bindS (quic, RPacketGetBytes pkt len) (\<lambda>quic (p, pkt1).
       if qd_len (q_dcid quic) = 0 then (quic, Inr pkt1)
       else bindS (quic, QuicDataEq (q_dcid quic) \<lparr>qd_data = ptr_at pkt p, qd_len = len\<rparr>) (\<lambda>quic eq.
         (quic, if eq then Inr pkt1 else Inl Fail)))"

fun qtp_parse_run :: "qtp_parser \<Rightarrow> 'c Quic \<Rightarrow> u64 \<Rightarrow> RPacket \<Rightarrow> u64 \<Rightarrow> 'c Quic \<times> RPacket res" where
  "qtp_parse_run QtpParseInteger quic offset pkt len = TlsExtQtpParseInteger quic offset pkt len"
| "qtp_parse_run QtpParseStatelessResetToken quic offset pkt len = TlsExtQtpParseStatelessResetToken quic pkt len"
| "qtp_parse_run QtpParseSourceConnId quic offset pkt len = TlsExtQtpParseSourceConnId quic pkt len"

text \<open>What is done with one parameter.\<close>

definition qtp_param :: "TlsExtQtpDefinition list \<Rightarrow> 'c Quic \<Rightarrow> u64 \<Rightarrow> u64 \<Rightarrow> RPacket \<Rightarrow> 'c Quic \<times> RPacket res" where
  "qtp_param tp quic type len pkt =
     (case (find (\<lambda>p. qd_type p = type) tp, QuicTransParamGetOffset type) of
        (Some p, Inr offset) \<Rightarrow>
          (case qd_parse p of
             None \<Rightarrow> (quic, RPacketPull pkt len)
           | Some f \<Rightarrow> qtp_parse_run f quic offset pkt len)
      | _ \<Rightarrow> (quic, RPacketPull pkt len))"

lemma qtp_parse_left: "qtp_parse_run f quic offset pkt len = (quic', Inr q) \<Longrightarrow> rp_left q \<le> rp_left pkt"
  by (cases f)
    (auto simp: TlsExtQtpParseInteger_def TlsExtQtpParseStatelessResetToken_def TlsExtQtpParseSourceConnId_def
      bindS_eq_Inr RPacketCopyBytes_def RPacketGetBytes_def res_simps split: if_splits
      dest!: rp_left_decode intro: rp_left_adv less_imp_le)

lemma qtp_param_left: "qtp_param tp quic type len pkt = (quic', Inr q) \<Longrightarrow> rp_left q \<le> rp_left pkt"
  by (auto simp: qtp_param_def split: option.splits sum.splits dest!: qtp_parse_left Pull_left)

function parse_qtp_loop :: "TlsExtQtpDefinition list \<Rightarrow> 'c Quic \<Rightarrow> RPacket \<Rightarrow> 'c Quic \<times> unit res" where
  "parse_qtp_loop tp quic pkt =
     (if RPacketRemaining pkt = 0 then (quic, Inr ())
      else case QuicVariableLengthDecode pkt of
        Inl err \<Rightarrow> (quic, Inl err)
      | Inr (type, pkt1) \<Rightarrow>
          (case QuicVariableLengthDecode pkt1 of
             Inl err \<Rightarrow> (quic, Inl err)
           | Inr (len, pkt2) \<Rightarrow>
               (case qtp_param tp quic type len pkt2 of
                  (quic1, Inl err) \<Rightarrow> (quic1, Inl err)
                | (quic1, Inr pkt3) \<Rightarrow> parse_qtp_loop tp quic1 pkt3)))"
  by pat_completeness auto

termination
proof (relation "measure (\<lambda>(_, _, pkt). rp_left pkt)", goal_cases)
  case (2 tp quic pkt x type pkt1 y len pkt2 quic1 r pkt3)
  then show ?case
    using rp_left_decode[of pkt type pkt1] rp_left_decode[of pkt1 len pkt2] qtp_param_left[of tp quic type len pkt2 quic1 pkt3]
    by simp
qed simp

definition TlsParseQtpExtension :: "TlsExtQtpDefinition list \<Rightarrow> 'c Quic \<Rightarrow> RPacket \<Rightarrow> 'c Quic \<times> unit res" where
  "TlsParseQtpExtension tp quic pkt = parse_qtp_loop tp quic pkt"

declare find_ext_loop.simps [simp del] parse_qtp_loop.simps [simp del]

end
