(* ===== verification/Tls_Ext_Clnt.thy ===== *)
theory Tls_Ext_Clnt
  imports Tls_Ext
begin

text \<open>
  The client's extensions (\<^verbatim>\<open>quic/tls/extension_clnt.c\<close>): what it puts into its ClientHello, and what it makes of
  the extensions of the server's messages.
\<close>

section \<open>Building\<close>

fun put_u16s :: "env \<Rightarrow> u16 list \<Rightarrow> WPacket \<Rightarrow> WPacket \<times> unit res" where
  "put_u16s e [] pkt = (pkt, Inr ())"
| "put_u16s e (v # vs) pkt = bindS (WPacketPut2 e pkt (ucast v)) (\<lambda>pkt1 _. put_u16s e vs pkt1)"

text \<open>The end of an extension that was sent.\<close>

definition ext_sent :: "'q \<Rightarrow> WPacket \<times> unit res \<Rightarrow> ('q \<times> WPacket) \<times> ExtReturn res" where
  "ext_sent quic r = bindS (on_wpkt quic r) (\<lambda>s _. (s, Inr EXT_RETURN_SENT))"

definition TlsExtClntCheckServerName :: "'c Quic \<Rightarrow> unit res" where
  "TlsExtClntCheckServerName quic = guardR (tl_hostname (q_tls quic) \<noteq> None)"

definition TlsExtClntConstructServerName :: "env \<Rightarrow> 'c Quic \<Rightarrow> WPacket \<Rightarrow> u32 \<Rightarrow> ('c Quic \<times> WPacket) \<times> ExtReturn res" where
  "TlsExtClntConstructServerName e quic pkt cxt =
     ext_sent quic
       (bindS (WPacketStartSubU16 e pkt) (\<lambda>pkt1 _.
        bindS (WPacketPut1 e pkt1 0) (\<lambda>pkt2 _.
        bindS (case tl_hostname (q_tls quic) of None \<Rightarrow> (pkt2, Inl Null_ptr) | Some h \<Rightarrow> WPacketSubMemcpyU16 e pkt2 (Some h)) (\<lambda>pkt3 _.
          WPacketClose pkt3))))"

definition TlsExtClntConstructSupportedGroups :: "env \<Rightarrow> 'c Quic \<Rightarrow> WPacket \<Rightarrow> u32 \<Rightarrow> ('c Quic \<times> WPacket) \<times> ExtReturn res" where
  "TlsExtClntConstructSupportedGroups e quic pkt cxt =
     ext_sent quic
       (bindS (WPacketStartSubU16 e pkt) (\<lambda>pkt1 _.
        bindS (put_u16s e (TlsGetSupportedGroups (q_tls quic)) pkt1) (\<lambda>pkt2 _. WPacketClose pkt2)))"

fun TlsCopySigAlgs :: "env \<Rightarrow> u16 list \<Rightarrow> WPacket \<Rightarrow> WPacket \<times> unit res" where
  "TlsCopySigAlgs e [] pkt = (pkt, Inr ())"
| "TlsCopySigAlgs e (sig # sigs) pkt =
     (if TlsLookupSigAlg sig = None then (pkt, Inl Fail)
      else bindS (WPacketPut2 e pkt (ucast sig)) (\<lambda>pkt1 _. TlsCopySigAlgs e sigs pkt1))"

definition TlsExtClntConstructSigAlgs :: "env \<Rightarrow> 'c Quic \<Rightarrow> WPacket \<Rightarrow> u32 \<Rightarrow> ('c Quic \<times> WPacket) \<times> ExtReturn res" where
  "TlsExtClntConstructSigAlgs e quic pkt cxt =
     ext_sent quic
       (bindS (WPacketStartSubU16 e pkt) (\<lambda>pkt1 _.
        bindS (TlsCopySigAlgs e (TlsGetPSigAlgs (q_tls quic)) pkt1) (\<lambda>pkt2 _. WPacketClose pkt2)))"

definition TlsExtClntCheckAlpn :: "'c Quic \<Rightarrow> unit res" where
  "TlsExtClntCheckAlpn quic = guardR (\<not> QuicDataIsEmpty (tl_alpn (q_tls quic)))"

definition TlsExtClntConstructAlpn :: "env \<Rightarrow> 'c Quic \<Rightarrow> WPacket \<Rightarrow> u32 \<Rightarrow> ('c Quic \<times> WPacket) \<times> ExtReturn res" where
  "TlsExtClntConstructAlpn e quic pkt cxt =
     (let quic0 = quic\<lparr>q_tls := (q_tls quic)\<lparr>tl_alpn_sent := False\<rparr>\<rparr> in
      bindS (on_wpkt quic0 (TlsExtConstructAlpn e (tl_alpn (q_tls quic0)) pkt)) (\<lambda>(quic1, pkt1) _.
        ((quic1\<lparr>q_tls := (q_tls quic1)\<lparr>tl_alpn_sent := True\<rparr>\<rparr>, pkt1), Inr EXT_RETURN_SENT)))"

definition TlsExtClntCheckPreSharedKey :: "'c Quic \<Rightarrow> unit res" where
  "TlsExtClntCheckPreSharedKey quic =
     (case q_session quic of None \<Rightarrow> Inl Fail | Some sess \<Rightarrow> guardR (ss_ticket_queue sess \<noteq> []))"

text \<open>The identity, then a binder of zeros whose place is filled in once the lengths of the whole message are.\<close>

definition psk_identity :: "env \<Rightarrow> QuicSessionTicket \<Rightarrow> u32 \<Rightarrow> WPacket \<Rightarrow> WPacket \<times> unit res" where
  "psk_identity e t age_ms pkt =
     bindS (WPacketStartSubU16 e pkt) (\<lambda>pkt1 _.
     bindS (pkt1, ptr_bytes (qd_data (qt_ticket t)) (unat (qd_len (qt_ticket t)))) (\<lambda>pkt1 d.
     bindS (WPacketSubMemcpyU16 e pkt1 (if qd_data (qt_ticket t) = None then None else Some d)) (\<lambda>pkt2 _.
     bindS (WPacketPut4 e pkt2 age_ms) (\<lambda>pkt3 _. WPacketClose pkt3))))"

definition TlsExtClntConstructPreSharedKey ::
    "env \<Rightarrow> 'c ossl \<Rightarrow> 'c Quic \<Rightarrow> WPacket \<Rightarrow> u32 \<Rightarrow> ('c Quic \<times> WPacket) \<times> ExtReturn res" where
  "TlsExtClntConstructPreSharedKey e os quic pkt cxt =
     (case q_session quic of
        None \<Rightarrow> ((quic, pkt), Inl Null_ptr)
      | Some sess \<Rightarrow>
          (case ss_cipher sess of
             None \<Rightarrow> ((quic, pkt), Inl Fail)
           | Some c \<Rightarrow>
               let (sess1, r) = QuicSessionTicketGet e sess; quic1 = quic\<lparr>q_session := Some sess1\<rparr> in
               (case r of
                  None \<Rightarrow> ((quic1, pkt), Inr EXT_RETURN_NOT_SENT)
                | Some (t, age_ms) \<Rightarrow>
                    (case QuicMd os (tc_digest c) of
                       None \<Rightarrow> ((quic1, pkt), Inl Fail)
                     | Some md \<Rightarrow>
                         bindS (on_wpkt quic1 (psk_identity e t age_ms pkt)) (\<lambda>(quic1, pkt1) _.
                         let binder_offset = WPacket_get_written pkt1 in
                         bindS (on_wpkt quic1
                           (bindS (WPacketStartSubU16 e pkt1) (\<lambda>pkt2 _.
                            bindS (WPacketSubAllocBytesU8 e pkt2 (of_nat (md_size md))) (\<lambda>pkt3 binder.
                            bindS (WPacketClose pkt3) (\<lambda>pkt4 _.
                            bindS (WPacketForceClose pkt4) (\<lambda>pkt5 _. (pkt5, Inr binder))))))) (\<lambda>(quic1, pkt5) binder.
                         bindS ((quic1, pkt5), mem_slice (wp_data pkt5) (uint (wp_curr pkt5) - uint (WPacket_get_written pkt5))
                                  (unat binder_offset)) (\<lambda>(quic1, pkt5) msg.
                           (case TlsPskDoBinder e os (q_tls quic1) md msg None t of
                              (s, Inl err) \<Rightarrow> ((quic1\<lparr>q_tls := s\<rparr>, pkt5), Inl err)
                            | (s, Inr b) \<Rightarrow> ext_sent (quic1\<lparr>q_tls := s\<rparr>) (wp_store pkt5 binder b)))))))))"

definition TLS_VERSION_1_2 :: u32 where "TLS_VERSION_1_2 = 0x0303"
definition TLS_VERSION_1_3 :: u32 where "TLS_VERSION_1_3 = 0x0304"
definition TLSEXT_KEX_MODE_KE_DHE :: u32 where "TLSEXT_KEX_MODE_KE_DHE = 0x01"

definition TlsExtClntConstructSupportedVersion :: "env \<Rightarrow> 'c Quic \<Rightarrow> WPacket \<Rightarrow> u32 \<Rightarrow> ('c Quic \<times> WPacket) \<times> ExtReturn res" where
  "TlsExtClntConstructSupportedVersion e quic pkt cxt =
     ext_sent quic
       (bindS (WPacketStartSubU8 e pkt) (\<lambda>pkt1 _.
        bindS (WPacketPut2 e pkt1 TLS_VERSION_1_3) (\<lambda>pkt2 _. WPacketClose pkt2)))"

definition TlsExtClntConstructKeyExchModes :: "env \<Rightarrow> 'c Quic \<Rightarrow> WPacket \<Rightarrow> u32 \<Rightarrow> ('c Quic \<times> WPacket) \<times> ExtReturn res" where
  "TlsExtClntConstructKeyExchModes e quic pkt cxt =
     ext_sent quic
       (bindS (WPacketStartSubU8 e pkt) (\<lambda>pkt1 _.
        bindS (WPacketPut1 e pkt1 TLSEXT_KEX_MODE_KE_DHE) (\<lambda>pkt2 _. WPacketClose pkt2)))"

definition TlsExtClntAddKeyShare :: "env \<Rightarrow> 'c ossl \<Rightarrow> 'c Quic \<Rightarrow> WPacket \<Rightarrow> u16 \<Rightarrow> ('c Quic \<times> WPacket) \<times> unit res" where
  "TlsExtClntAddKeyShare e os quic pkt i =
     (let (s, k) = (case tl_kexch_key (q_tls quic) of
                      None \<Rightarrow> TlsGeneratePkeyGroup os (q_tls quic) i
                    | Some k \<Rightarrow> (q_tls quic, Some k));
          quic1 = quic\<lparr>q_tls := s\<rparr> in
      case k of
        None \<Rightarrow> ((quic1, pkt), Inl Fail)
      | Some key \<Rightarrow>
          let point = os_encode_point os key in
          if point = [] then ((quic1, pkt), Inl Fail)
          else bindS (on_wpkt quic1 (bindS (WPacketPut2 e pkt (ucast i)) (\<lambda>pkt1 _. WPacketSubMemcpyU16 e pkt1 (Some point))))
            (\<lambda>(quic2, pkt2) _. ((quic2\<lparr>q_tls := (q_tls quic2)\<lparr>tl_kexch_key := Some key, tl_group_id := i\<rparr>\<rparr>, pkt2), Inr ())))"

fun add_key_shares :: "env \<Rightarrow> 'c ossl \<Rightarrow> u16 list \<Rightarrow> 'c Quic \<Rightarrow> WPacket \<Rightarrow> ('c Quic \<times> WPacket) \<times> unit res" where
  "add_key_shares e os [] quic pkt = ((quic, pkt), Inr ())"
| "add_key_shares e os (i # is) quic pkt =
     bindS (TlsExtClntAddKeyShare e os quic pkt i) (\<lambda>(quic1, pkt1) _. add_key_shares e os is quic1 pkt1)"

text \<open>The groups of the list up to the highest index a key share is offered for.\<close>

definition key_share_groups :: "Tls \<Rightarrow> u16 list" where
  "key_share_groups s =
     (let groups = TlsGetSupportedGroups s; max_idx = unat (tl_key_share_max_group_idx s) in
      take (Suc (if max_idx \<ge> length groups then length groups - 1 else max_idx)) groups)"

definition TlsExtClntConstructKeyShare :: "env \<Rightarrow> 'c ossl \<Rightarrow> 'c Quic \<Rightarrow> WPacket \<Rightarrow> u32 \<Rightarrow> ('c Quic \<times> WPacket) \<times> ExtReturn res" where
  "TlsExtClntConstructKeyShare e os quic pkt cxt =
     bindS (on_wpkt quic (WPacketStartSubU16 e pkt)) (\<lambda>(quic1, pkt1) _.
     bindS ((quic1, pkt1), assertR (TlsGetSupportedGroups (q_tls quic1) \<noteq> [])) (\<lambda>(quic1, pkt1) _.
     bindS (add_key_shares e os (key_share_groups (q_tls quic1)) quic1 pkt1) (\<lambda>(quic2, pkt2) _.
       ext_sent quic2 (WPacketClose pkt2))))"

definition TlsExtClntCheckUnknown :: "'c Quic \<Rightarrow> unit res" where "TlsExtClntCheckUnknown quic = Inl Fail"

definition TlsExtClntConstructUnknown :: "env \<Rightarrow> 'c Quic \<Rightarrow> WPacket \<Rightarrow> u32 \<Rightarrow> ('c Quic \<times> WPacket) \<times> ExtReturn res" where
  "TlsExtClntConstructUnknown e quic pkt cxt = ext_sent quic (WPacketMemcpy e pkt (Some [0x00, 0x03, 0x02, 0x68, 0x33]))"

text \<open>An integer parameter of the tables.\<close>

definition qtp_int :: "u64 \<Rightarrow> TlsExtQtpDefinition" where
  "qtp_int type = \<lparr>qd_type = type, qd_parse = Some QtpParseInteger, qd_check = Some QtpCheckInteger,
     qd_construct = Some QtpConstructInteger\<rparr>"

definition client_transport_param :: "TlsExtQtpDefinition list" where
  "client_transport_param =
    [\<lparr>qd_type = QUIC_TRANS_PARAM_STATELESS_RESET_TOKEN, qd_parse = Some QtpParseStatelessResetToken,
      qd_check = Some QtpCheckStatelessResetToken, qd_construct = None\<rparr>,
     qtp_int 0x01, qtp_int 0x03, qtp_int 0x04, qtp_int 0x05, qtp_int 0x06, qtp_int 0x07, qtp_int 0x08, qtp_int 0x09,
     \<lparr>qd_type = 0x0F, qd_parse = None, qd_check = None, qd_construct = Some QtpConstructSourceConnId\<rparr>,
     qtp_int 0x20,
     \<lparr>qd_type = 0x1CD4C8D5641422F0, qd_parse = None, qd_check = Some QtpCheckGrease, qd_construct = Some QtpConstructGrease\<rparr>,
     \<lparr>qd_type = 0x4752, qd_parse = None, qd_check = Some QtpCheckGoogleVersion, qd_construct = Some QtpConstructGoogleVersion\<rparr>]"

definition TlsExtClntConstructTlsExtQtp :: "env \<Rightarrow> 'c Quic \<Rightarrow> WPacket \<Rightarrow> u32 \<Rightarrow> ('c Quic \<times> WPacket) \<times> ExtReturn res" where
  "TlsExtClntConstructTlsExtQtp e quic pkt cxt = TlsConstructQtpExtension e client_transport_param quic pkt"

definition client_ext_construct :: "env \<Rightarrow> 'c ossl \<Rightarrow> 'c TlsExtConstruct list" where
  "client_ext_construct e os =
    [\<lparr>ec_type = EXT_TYPE_SERVER_NAME, ec_context = TLSEXT_CLIENT_HELLO,
      ec_check = Some TlsExtClntCheckServerName, ec_construct = Some (TlsExtClntConstructServerName e)\<rparr>,
     \<lparr>ec_type = EXT_TYPE_SUPPORTED_GROUPS, ec_context = TLSEXT_CLIENT_HELLO,
      ec_check = None, ec_construct = Some (TlsExtClntConstructSupportedGroups e)\<rparr>,
     \<lparr>ec_type = EXT_TYPE_SIGNATURE_ALGORITHMS, ec_context = TLSEXT_CLIENT_HELLO,
      ec_check = None, ec_construct = Some (TlsExtClntConstructSigAlgs e)\<rparr>,
     \<lparr>ec_type = EXT_TYPE_ALPN, ec_context = TLSEXT_CLIENT_HELLO,
      ec_check = Some TlsExtClntCheckAlpn, ec_construct = Some (TlsExtClntConstructAlpn e)\<rparr>,
     \<lparr>ec_type = EXT_TYPE_SUPPORTED_VERSIONS, ec_context = TLSEXT_CLIENT_HELLO,
      ec_check = None, ec_construct = Some (TlsExtClntConstructSupportedVersion e)\<rparr>,
     \<lparr>ec_type = EXT_TYPE_PSK_KEY_EXCHANGE_MODES, ec_context = TLSEXT_CLIENT_HELLO,
      ec_check = None, ec_construct = Some (TlsExtClntConstructKeyExchModes e)\<rparr>,
     \<lparr>ec_type = EXT_TYPE_KEY_SHARE, ec_context = TLSEXT_CLIENT_HELLO,
      ec_check = None, ec_construct = Some (TlsExtClntConstructKeyShare e os)\<rparr>,
     \<lparr>ec_type = EXT_TYPE_QUIC_TRANS_PARAMS, ec_context = TLSEXT_CLIENT_HELLO,
      ec_check = None, ec_construct = Some (TlsExtClntConstructTlsExtQtp e)\<rparr>,
     \<lparr>ec_type = 0x4469, ec_context = TLSEXT_CLIENT_HELLO,
      ec_check = Some TlsExtClntCheckUnknown, ec_construct = Some (TlsExtClntConstructUnknown e)\<rparr>,
     \<lparr>ec_type = EXT_TYPE_PRE_SHARED_KEY, ec_context = TLSEXT_CLIENT_HELLO,
      ec_check = Some TlsExtClntCheckPreSharedKey, ec_construct = Some (TlsExtClntConstructPreSharedKey e os)\<rparr>]"

definition TlsClntConstructExtensions :: "env \<Rightarrow> 'c ossl \<Rightarrow> u32 \<Rightarrow> 'c Quic \<Rightarrow> WPacket \<Rightarrow> ('c Quic \<times> WPacket) \<times> unit res" where
  "TlsClntConstructExtensions e os cxt quic pkt = TlsConstructExtensions e (client_ext_construct e os) cxt quic pkt"

section \<open>Parsing\<close>

definition TlsExtClntParseServerName :: "'c Quic \<Rightarrow> RPacket \<Rightarrow> u32 \<Rightarrow> 'c Quic \<times> unit res" where
  "TlsExtClntParseServerName quic pkt cxt = (quic, Inr ())"

definition TlsExtClntParseAlpn :: "env \<Rightarrow> 'c Quic \<Rightarrow> RPacket \<Rightarrow> u32 \<Rightarrow> 'c Quic \<times> unit res" where
  "TlsExtClntParseAlpn e quic pkt cxt =
     (if \<not> tl_alpn_sent (q_tls quic) then (quic, Inl Fail)
      else bindS (quic, RPacketGet2 pkt) (\<lambda>quic (len, pkt1).
        if RPacketRemaining pkt1 \<noteq> ucast len then (quic, Inl Fail)
        else bindS (quic, RPacketGet1 pkt1) (\<lambda>quic (len1, pkt2).
          if RPacketRemaining pkt2 \<noteq> ucast len1 then (quic, Inl Fail)
          else let quic0 = quic\<lparr>q_tls := (q_tls quic)\<lparr>tl_alpn_selected := qd_empty\<rparr>\<rparr> in
            bindS (quic0, PRacketMemDup e pkt2) (\<lambda>quic0 d.
            let quic1 = quic0\<lparr>q_tls := (q_tls quic0)\<lparr>tl_alpn_selected := \<lparr>qd_data = d, qd_len = RPacketRemaining pkt2\<rparr>\<rparr>\<rparr> in
            bindS (quic1, RPacketPull pkt2 (RPacketRemaining pkt2)) (\<lambda>quic1 _. (quic1, Inr ()))))))"

definition TlsExtClntParsePreSharedKey :: "'c Quic \<Rightarrow> RPacket \<Rightarrow> u32 \<Rightarrow> 'c Quic \<times> unit res" where
  "TlsExtClntParsePreSharedKey quic pkt cxt =
     bindS (quic, RPacketGet2 pkt) (\<lambda>quic (identity, _).
       case q_session quic of
         None \<Rightarrow> (quic, Inl Null_ptr)
       | Some sess \<Rightarrow>
           if QUIC_GE identity (ss_tick_identity sess) then (quic, Inl Fail)
           else (quic\<lparr>q_tls := (q_tls quic)\<lparr>tl_hit := True\<rparr>\<rparr>, Inr ()))"

definition TlsExtClntParseSupportedVersion :: "'c Quic \<Rightarrow> RPacket \<Rightarrow> u32 \<Rightarrow> 'c Quic \<times> unit res" where
  "TlsExtClntParseSupportedVersion quic pkt cxt =
     (if RPacketRemaining pkt \<noteq> 2 then (quic, Inl Fail)
      else bindS (quic, RPacketGet2 pkt) (\<lambda>quic (version, _). (quic, guardR (version = TLS_VERSION_1_3))))"

definition TlsExtClntParseTlsExtQtp :: "'c Quic \<Rightarrow> RPacket \<Rightarrow> u32 \<Rightarrow> 'c Quic \<times> unit res" where
  "TlsExtClntParseTlsExtQtp quic pkt cxt = TlsParseQtpExtension client_transport_param quic pkt"

definition TlsExtClntParsePsk :: "'c Quic \<Rightarrow> RPacket \<Rightarrow> u32 \<Rightarrow> 'c Quic \<times> unit res" where
  "TlsExtClntParsePsk quic pkt cxt =
     bindS (quic, RPacketGet2 pkt) (\<lambda>quic (identity, _).
       case q_session quic of
         None \<Rightarrow> (quic, Inl Fail)
       | Some sess \<Rightarrow> (quic, guardR (\<not> identity \<ge> ss_tick_identity sess)))"

definition TlsExtClntParseEarlyData :: "'c Quic \<Rightarrow> RPacket \<Rightarrow> u32 \<Rightarrow> 'c Quic \<times> unit res" where
  "TlsExtClntParseEarlyData quic pkt cxt =
     (if cxt = TLSEXT_NEW_SESSION_TICKET
      then bindS (quic, RPacketGet4 pkt) (\<lambda>quic (max_early_data, _).
        case q_session quic of
          None \<Rightarrow> (quic, Inl Null_ptr)
        | Some sess \<Rightarrow> (quic\<lparr>q_session := Some (sess\<lparr>ss_max_early_data := max_early_data\<rparr>)\<rparr>, Inr ()))
      else (quic, Inr ()))"

text \<open>The server's key share must be for a group that was offered, and for the one of the last key made.\<close>

definition TlsExtClntParseKeyShare :: "env \<Rightarrow> 'c ossl \<Rightarrow> 'c Quic \<Rightarrow> RPacket \<Rightarrow> u32 \<Rightarrow> 'c Quic \<times> unit res" where
  "TlsExtClntParseKeyShare e os quic pkt cxt =
     (case tl_kexch_key (q_tls quic) of
        None \<Rightarrow> (quic, Inl Fail)
      | Some ckey \<Rightarrow>
          bindS (quic, RPacketGet2 pkt) (\<lambda>quic (group_id, pkt1).
          bindS (quic, assertR (TlsGetSupportedGroups (q_tls quic) \<noteq> [])) (\<lambda>quic _.
            if group_id \<notin> ucast ` set (key_share_groups (q_tls quic)) then (quic, Inl Fail)
            else if group_id \<noteq> ucast (tl_group_id (q_tls quic)) then (quic, Inl Fail)
            else bindS (quic, RPacketGet2 pkt1) (\<lambda>quic (key_ex_len, pkt2).
            bindS (quic, RPacketPull pkt2 (ucast key_ex_len)) (\<lambda>quic _.
            bindS (quic, mem_slice (rp_buf pkt2) (RPacketData pkt2) (unat key_ex_len)) (\<lambda>quic point.
              case Option.bind (os_copy_params os ckey) (\<lambda>k. os_set_point os k point) of
                None \<Rightarrow> (quic, Inl Fail)
              | Some skey \<Rightarrow>
                  bindS (on_tls quic (TlsKeyDerive e os (q_tls quic) (Some ckey) (Some skey))) (\<lambda>quic1 _.
                    (quic1\<lparr>q_tls := (q_tls quic1)\<lparr>tl_peer_kexch_key := Some skey\<rparr>\<rparr>, Inr ()))))))))"

definition client_ext_parse :: "env \<Rightarrow> 'c ossl \<Rightarrow> 'c TlsExtParse list" where
  "client_ext_parse e os =
    [\<lparr>ep_type = EXT_TYPE_SERVER_NAME, ep_context = TLSEXT_SERVER_HELLO, ep_parse = TlsExtClntParseServerName\<rparr>,
     \<lparr>ep_type = EXT_TYPE_ALPN, ep_context = TLSEXT_SERVER_HELLO, ep_parse = TlsExtClntParseAlpn e\<rparr>,
     \<lparr>ep_type = EXT_TYPE_PRE_SHARED_KEY, ep_context = TLSEXT_SERVER_HELLO, ep_parse = TlsExtClntParsePreSharedKey\<rparr>,
     \<lparr>ep_type = EXT_TYPE_SUPPORTED_VERSIONS, ep_context = TLSEXT_SERVER_HELLO, ep_parse = TlsExtClntParseSupportedVersion\<rparr>,
     \<lparr>ep_type = EXT_TYPE_KEY_SHARE, ep_context = TLSEXT_SERVER_HELLO, ep_parse = TlsExtClntParseKeyShare e os\<rparr>,
     \<lparr>ep_type = EXT_TYPE_QUIC_TRANS_PARAMS, ep_context = TLSEXT_SERVER_HELLO, ep_parse = TlsExtClntParseTlsExtQtp\<rparr>,
     \<lparr>ep_type = EXT_TYPE_EARLY_DATA, ep_context = TLSEXT_NEW_SESSION_TICKET, ep_parse = TlsExtClntParseEarlyData\<rparr>,
     \<lparr>ep_type = EXT_TYPE_PRE_SHARED_KEY, ep_context = TLSEXT_SERVER_HELLO, ep_parse = TlsExtClntParsePsk\<rparr>]"

definition TlsClntParseExtensions :: "env \<Rightarrow> 'c ossl \<Rightarrow> u32 \<Rightarrow> 'c Quic \<Rightarrow> RPacket \<Rightarrow> 'c Quic \<times> RPacket res" where
  "TlsClntParseExtensions e os cxt quic pkt = TlsParseExtensions (client_ext_parse e os) cxt quic pkt"

end
