(* ===== verification/Tls_Ext_Srvr.thy ===== *)
theory Tls_Ext_Srvr
  imports Tls_Ext_Clnt
begin

text \<open>
  The server's extensions (\<^verbatim>\<open>quic/tls/extension_srvr.c\<close>): what it makes of the extensions of the ClientHello, and
  what it puts into its own messages.
\<close>

section \<open>Building\<close>

definition TlsExtSrvrConstructServerName :: "'c Quic \<Rightarrow> WPacket \<Rightarrow> u32 \<Rightarrow> ('c Quic \<times> WPacket) \<times> ExtReturn res" where
  "TlsExtSrvrConstructServerName quic pkt cxt = ((quic, pkt), Inr EXT_RETURN_SENT)"

definition TlsExtSrvrConstructSupportedVersion :: "env \<Rightarrow> 'c Quic \<Rightarrow> WPacket \<Rightarrow> u32 \<Rightarrow> ('c Quic \<times> WPacket) \<times> ExtReturn res" where
  "TlsExtSrvrConstructSupportedVersion e quic pkt cxt = ext_sent quic (WPacketPut2 e pkt TLS_VERSION_1_3)"

definition TlsExtSrvrCheckKeyShare :: "'c Quic \<Rightarrow> unit res" where
  "TlsExtSrvrCheckKeyShare quic = guardR (tl_peer_kexch_key (q_tls quic) \<noteq> None)"

definition TlsExtSrvrCheckPreSharedKey :: "'c Quic \<Rightarrow> unit res" where
  "TlsExtSrvrCheckPreSharedKey quic = guardR (tl_hit (q_tls quic))"

definition TlsExtSrvrConstructKeyShare :: "env \<Rightarrow> 'c ossl \<Rightarrow> 'c Quic \<Rightarrow> WPacket \<Rightarrow> u32 \<Rightarrow> ('c Quic \<times> WPacket) \<times> ExtReturn res" where
  "TlsExtSrvrConstructKeyShare e os quic pkt cxt =
     (case tl_peer_kexch_key (q_tls quic) of
        None \<Rightarrow> ((quic, pkt), Inl Fail)
      | Some ckey \<Rightarrow>
          bindS (on_wpkt quic (WPacketPut2 e pkt (ucast (tl_group_id (q_tls quic))))) (\<lambda>(quic1, pkt1) _.
          let (s, k) = TlsGeneratePkey os (q_tls quic1) (Some ckey); quic2 = quic1\<lparr>q_tls := s\<rparr> in
          case k of
            None \<Rightarrow> ((quic2, pkt1), Inl Fail)
          | Some skey \<Rightarrow>
              let point = os_encode_point os skey in
              if point = [] then ((quic2, pkt1), Inl Fail)
              else bindS (on_wpkt quic2 (WPacketSubMemcpyU16 e pkt1 (Some point))) (\<lambda>(quic3, pkt3) _.
                let quic4 = quic3\<lparr>q_tls := (q_tls quic3)\<lparr>tl_kexch_key := Some skey\<rparr>\<rparr> in
                case on_tls quic4 (TlsKeyDerive e os (q_tls quic4) (Some skey) (Some ckey)) of
                  (quic5, Inl err) \<Rightarrow> ((quic5, pkt3), Inl err)
                | (quic5, Inr _) \<Rightarrow> ((quic5, pkt3), Inr EXT_RETURN_SENT))))"

definition TlsExtSrvrConstructPreSharedKey :: "env \<Rightarrow> 'c Quic \<Rightarrow> WPacket \<Rightarrow> u32 \<Rightarrow> ('c Quic \<times> WPacket) \<times> ExtReturn res" where
  "TlsExtSrvrConstructPreSharedKey e quic pkt cxt =
     ext_sent quic (WPacketPut2 e pkt (ucast (tl_tick_identity (q_tls quic))))"

definition TlsExtSrvrCheckAlpn :: "'c Quic \<Rightarrow> unit res" where
  "TlsExtSrvrCheckAlpn quic = guardR (\<not> QuicDataIsEmpty (tl_alpn_selected (q_tls quic)))"

definition TlsExtSrvrConstructAlpn :: "env \<Rightarrow> 'c Quic \<Rightarrow> WPacket \<Rightarrow> u32 \<Rightarrow> ('c Quic \<times> WPacket) \<times> ExtReturn res" where
  "TlsExtSrvrConstructAlpn e quic pkt cxt = ext_sent quic (TlsExtConstructAlpn e (tl_alpn_selected (q_tls quic)) pkt)"

definition server_transport_param :: "TlsExtQtpDefinition list" where
  "server_transport_param =
    [\<lparr>qd_type = 0x00, qd_parse = None, qd_check = None, qd_construct = Some QtpConstructSourceConnId\<rparr>,
     qtp_int 0x01, qtp_int 0x03, qtp_int 0x04, qtp_int 0x05, qtp_int 0x06, qtp_int 0x07, qtp_int 0x08, qtp_int 0x09,
     \<lparr>qd_type = 0x0F, qd_parse = Some QtpParseSourceConnId, qd_check = None, qd_construct = Some QtpConstructSourceConnId\<rparr>,
     qtp_int 0x20]"

definition TlsExtSrvrConstructQtp :: "env \<Rightarrow> 'c Quic \<Rightarrow> WPacket \<Rightarrow> u32 \<Rightarrow> ('c Quic \<times> WPacket) \<times> ExtReturn res" where
  "TlsExtSrvrConstructQtp e quic pkt cxt = TlsConstructQtpExtension e server_transport_param quic pkt"

definition TlsExtSrvrConstructEarlyData :: "env \<Rightarrow> 'c Quic \<Rightarrow> WPacket \<Rightarrow> u32 \<Rightarrow> ('c Quic \<times> WPacket) \<times> ExtReturn res" where
  "TlsExtSrvrConstructEarlyData e quic pkt cxt =
     (if cxt = TLSEXT_NEW_SESSION_TICKET
      then if tl_max_early_data (q_tls quic) = 0 then ((quic, pkt), Inr EXT_RETURN_NOT_SENT)
           else ext_sent quic (WPacketPut4 e pkt (tl_max_early_data (q_tls quic)))
      else ((quic, pkt), Inr EXT_RETURN_SENT))"

definition server_ext_construct :: "env \<Rightarrow> 'c ossl \<Rightarrow> 'c TlsExtConstruct list" where
  "server_ext_construct e os =
    [\<lparr>ec_type = EXT_TYPE_SERVER_NAME, ec_context = TLSEXT_ENCRYPTED_EXT,
      ec_check = None, ec_construct = Some TlsExtSrvrConstructServerName\<rparr>,
     \<lparr>ec_type = EXT_TYPE_SUPPORTED_VERSIONS, ec_context = TLSEXT_SERVER_HELLO,
      ec_check = None, ec_construct = Some (TlsExtSrvrConstructSupportedVersion e)\<rparr>,
     \<lparr>ec_type = EXT_TYPE_KEY_SHARE, ec_context = TLSEXT_SERVER_HELLO,
      ec_check = Some TlsExtSrvrCheckKeyShare, ec_construct = Some (TlsExtSrvrConstructKeyShare e os)\<rparr>,
     \<lparr>ec_type = EXT_TYPE_ALPN, ec_context = TLSEXT_ENCRYPTED_EXT,
      ec_check = Some TlsExtSrvrCheckAlpn, ec_construct = Some (TlsExtSrvrConstructAlpn e)\<rparr>,
     \<lparr>ec_type = EXT_TYPE_QUIC_TRANS_PARAMS, ec_context = TLSEXT_ENCRYPTED_EXT,
      ec_check = None, ec_construct = Some (TlsExtSrvrConstructQtp e)\<rparr>,
     \<lparr>ec_type = EXT_TYPE_EARLY_DATA, ec_context = TLSEXT_NEW_SESSION_TICKET,
      ec_check = None, ec_construct = Some (TlsExtSrvrConstructEarlyData e)\<rparr>,
     \<lparr>ec_type = EXT_TYPE_PRE_SHARED_KEY, ec_context = TLSEXT_SERVER_HELLO,
      ec_check = Some TlsExtSrvrCheckPreSharedKey, ec_construct = Some (TlsExtSrvrConstructPreSharedKey e)\<rparr>]"

definition TlsSrvrConstructExtensions :: "env \<Rightarrow> 'c ossl \<Rightarrow> u32 \<Rightarrow> 'c Quic \<Rightarrow> WPacket \<Rightarrow> ('c Quic \<times> WPacket) \<times> unit res" where
  "TlsSrvrConstructExtensions e os cxt quic pkt = TlsConstructExtensions e (server_ext_construct e os) cxt quic pkt"

section \<open>Parsing\<close>

definition TLSEXT_MAXLEN_HOST_NAME :: u64 where "TLSEXT_MAXLEN_HOST_NAME = 255"

definition TlsExtSrvrParseServerName :: "env \<Rightarrow> 'c Quic \<Rightarrow> RPacket \<Rightarrow> u32 \<Rightarrow> 'c Quic \<times> unit res" where
  "TlsExtSrvrParseServerName e quic pkt cxt =
     bindS (quic, RPacketGetLengthPrefixed2 pkt) (\<lambda>quic (sni, _).
     bindS (quic, RPacketGet1 sni) (\<lambda>quic (servname_type, sni1).
       if servname_type \<noteq> 0 then (quic, Inl Fail)
       else bindS (quic, RPacketGetLengthPrefixed2 sni1) (\<lambda>quic (hostname, _).
         if RPacketRemaining hostname > TLSEXT_MAXLEN_HOST_NAME then (quic, Inl Fail)
         else bindS (quic, PRacketContainsZeroByte hostname) (\<lambda>quic zero.
           if zero then (quic, Inl Fail)
           else case RPacketStrndup e hostname of
             Inl err \<Rightarrow> (quic\<lparr>q_tls := (q_tls quic)\<lparr>tl_hostname := None\<rparr>\<rparr>, Inl err)
           | Inr h \<Rightarrow> (quic\<lparr>q_tls := (q_tls quic)\<lparr>tl_hostname := Some h\<rparr>\<rparr>, Inr ())))))"

definition TlsExtSrvrParseSigAlgs :: "env \<Rightarrow> 'c Quic \<Rightarrow> RPacket \<Rightarrow> u32 \<Rightarrow> 'c Quic \<times> unit res" where
  "TlsExtSrvrParseSigAlgs e quic pkt cxt =
     bindS (quic, RPacketGetLengthPrefixed2 pkt) (\<lambda>quic (sig_algs, _).
     bindS (quic, RPacketSaveU16 e sig_algs) (\<lambda>quic (v, _).
       (quic\<lparr>q_tls := (q_tls quic)\<lparr>tl_peer_sigalgs := v\<rparr>\<rparr>, Inr ())))"

definition TlsExtSrvrParseQtp :: "'c Quic \<Rightarrow> RPacket \<Rightarrow> u32 \<Rightarrow> 'c Quic \<times> unit res" where
  "TlsExtSrvrParseQtp quic pkt cxt = TlsParseQtpExtension server_transport_param quic pkt"

definition TlsExtSrvrParseEarlyData :: "'c Quic \<Rightarrow> RPacket \<Rightarrow> u32 \<Rightarrow> 'c Quic \<times> unit res" where
  "TlsExtSrvrParseEarlyData quic pkt cxt = (quic, guardR (RPacketRemaining pkt = 0))"

definition TlsExtSrvrParseSupportedGroups :: "env \<Rightarrow> 'c Quic \<Rightarrow> RPacket \<Rightarrow> u32 \<Rightarrow> 'c Quic \<times> unit res" where
  "TlsExtSrvrParseSupportedGroups e quic pkt cxt =
     bindS (quic, RPacketGetLengthPrefixed2 pkt) (\<lambda>quic (groups, _).
     bindS (quic, RPacketSaveU16 e groups) (\<lambda>quic (v, _).
       (quic\<lparr>q_tls := (q_tls quic)\<lparr>tl_peer_supported_groups := v\<rparr>\<rparr>, Inr ())))"

text \<open>Only the first version of the list is looked at.\<close>

definition TlsExtSrvrParseSupportedVersion :: "'c Quic \<Rightarrow> RPacket \<Rightarrow> u32 \<Rightarrow> 'c Quic \<times> unit res" where
  "TlsExtSrvrParseSupportedVersion quic pkt cxt =
     bindS (quic, RPacketGetLengthPrefixed1 pkt) (\<lambda>quic (versions, _).
     bindS (quic, RPacketGet2 versions) (\<lambda>quic (version, _). (quic, guardR (version = TLS_VERSION_1_3))))"

lemma Get1_left:
  assumes "RPacketGet1 p = Inr (v, q)"
  shows "rp_left q < rp_left p"
  using assms
  by (auto simp: RPacketGet1_def RPacketGetData_def RPacketPeekData_def res_simps mem_get_Inr rp_left_def RPacketForward_def
      split: if_splits)

lemma GetLengthPrefixed1_left: "RPacketGetLengthPrefixed1 p = Inr (s, q) \<Longrightarrow> rp_left q < rp_left p"
  by (auto simp: RPacketGetLengthPrefixed1_def RPacketGetLengthPrefixed_def RPacketGetBytes_def RPacketPeekBytes_def res_simps
      split: if_splits dest!: Get1_left intro: order.strict_trans1 rp_left_adv rp_adv_Forward)

lemma GetLengthPrefixed2_left: "RPacketGetLengthPrefixed2 p = Inr (s, q) \<Longrightarrow> rp_left q < rp_left p"
  by (auto simp: RPacketGetLengthPrefixed2_def RPacketGetLengthPrefixed_def RPacketGetBytes_def RPacketPeekBytes_def res_simps
      split: if_splits dest!: Get2_left intro: order.strict_trans1 rp_left_adv rp_adv_Forward)

function kex_modes_loop :: "RPacket \<Rightarrow> unit res" where
  "kex_modes_loop modes =
     (case RPacketGet1 modes of
        Inl err \<Rightarrow> Inl err
      | Inr (mode, modes1) \<Rightarrow> if mode = TLSEXT_KEX_MODE_KE_DHE then Inr () else kex_modes_loop modes1)"
  by pat_completeness auto

termination by (relation "measure rp_left") (auto dest: Get1_left)

definition TlsExtSrvrParseKeyExchModes :: "'c Quic \<Rightarrow> RPacket \<Rightarrow> u32 \<Rightarrow> 'c Quic \<times> unit res" where
  "TlsExtSrvrParseKeyExchModes quic pkt cxt =
     bindS (quic, RPacketGetLengthPrefixed1 pkt) (\<lambda>quic (modes, _).
     bindS (quic, kex_modes_loop modes) (\<lambda>quic _.
       (quic\<lparr>q_tls := (q_tls quic)\<lparr>tl_psk_kex_mode := tl_psk_kex_mode (q_tls quic) OR ucast TLSEXT_KEX_MODE_KE_DHE\<rparr>\<rparr>, Inr ())))"

text \<open>The first share for a group of both sides is taken; the rest of the list is still read. Once the key's parameters
  are there they stay, whether the point can be set or not.\<close>

function key_share_loop :: "'c ossl \<Rightarrow> 'c Quic \<Rightarrow> bool \<Rightarrow> RPacket \<Rightarrow> 'c Quic \<times> unit res" where
  "key_share_loop os quic found key_share_list =
     (if RPacketRemaining key_share_list = 0 then (quic, Inr ())
      else case RPacketGet2 key_share_list of
        Inl err \<Rightarrow> (quic, Inl err)
      | Inr (gid, list1) \<Rightarrow>
          (case RPacketGetLengthPrefixed2 list1 of
             Inl err \<Rightarrow> (quic, Inl err)
           | Inr (encoded_pt, list2) \<Rightarrow>
               let group_id = ucast gid :: u16; s = q_tls quic in
               if RPacketRemaining encoded_pt = 0 then (quic, Inl Fail)
               else if found then key_share_loop os quic True list2
               else if \<not> ok (TlsCheckInList group_id (TlsGetPeerGroups s)) then (quic, Inl Fail)
               else if \<not> ok (TlsCheckInList group_id (TlsGetSupportedGroups s)) then key_share_loop os quic False list2
               else case TlsGenerateParamGroup os group_id of
                 None \<Rightarrow> (quic\<lparr>q_tls := s\<lparr>tl_peer_kexch_key := None\<rparr>\<rparr>, Inl Fail)
               | Some params \<Rightarrow>
                   let quic1 = quic\<lparr>q_tls := s\<lparr>tl_peer_kexch_key := Some params, tl_group_id := group_id\<rparr>\<rparr> in
                   (case mem_slice (rp_buf encoded_pt) (RPacketData encoded_pt) (unat (RPacketRemaining encoded_pt)) of
                      Inl err \<Rightarrow> (quic1, Inl err)
                    | Inr point \<Rightarrow>
                        (case os_set_point os params point of
                           None \<Rightarrow> (quic1, Inl Fail)
                         | Some key \<Rightarrow>
                             key_share_loop os (quic1\<lparr>q_tls := (q_tls quic1)\<lparr>tl_peer_kexch_key := Some key\<rparr>\<rparr>) True list2))))"
  by pat_completeness auto

termination
  by (relation "measure (\<lambda>(_, _, _, p). rp_left p)") (auto dest!: Get2_left GetLengthPrefixed2_left)

definition TlsExtSrvrParseKeyShare :: "'c ossl \<Rightarrow> 'c Quic \<Rightarrow> RPacket \<Rightarrow> u32 \<Rightarrow> 'c Quic \<times> unit res" where
  "TlsExtSrvrParseKeyShare os quic pkt cxt =
     bindS (quic, RPacketGetLengthPrefixed2 pkt) (\<lambda>quic (key_share_list, _).
       if TlsGetPeerGroups (q_tls quic) = [] then (quic, Inl Fail)
       else key_share_loop os quic False key_share_list)"

function alpn_list_loop :: "RPacket \<Rightarrow> unit res" where
  "alpn_list_loop protocol_list =
     (case RPacketGetLengthPrefixed1 protocol_list of
        Inl err \<Rightarrow> Inl err
      | Inr (protocol, list1) \<Rightarrow>
          if RPacketRemaining protocol = 0 then Inl Fail
          else if RPacketRemaining list1 \<noteq> 0 then alpn_list_loop list1 else Inr ())"
  by pat_completeness auto

termination by (relation "measure rp_left") (auto dest: GetLengthPrefixed1_left)

declare kex_modes_loop.simps [simp del] key_share_loop.simps [simp del] alpn_list_loop.simps [simp del]

text \<open>What is selected is the list of the client without its first byte, which is the length of the first name:
  all names, with the lengths between them.\<close>

definition TlsExtSrvrParseAlpn :: "env \<Rightarrow> 'c Quic \<Rightarrow> RPacket \<Rightarrow> u32 \<Rightarrow> 'c Quic \<times> unit res" where
  "TlsExtSrvrParseAlpn e quic pkt cxt =
     bindS (quic, RPacketGetLengthPrefixed2 pkt) (\<lambda>quic (protocol_list, _).
       if RPacketRemaining protocol_list < 2 then (quic, Inl Fail)
       else bindS (quic, alpn_list_loop protocol_list) (\<lambda>quic _.
         let quic0 = quic\<lparr>q_tls := (q_tls quic)\<lparr>tl_alpn_proposed := qd_empty\<rparr>\<rparr> in
         bindS (quic0, PRacketMemDup e protocol_list) (\<lambda>quic0 d.
         let len = RPacketRemaining protocol_list;
             quic1 = quic0\<lparr>q_tls := (q_tls quic0)\<lparr>tl_alpn_proposed := \<lparr>qd_data = d, qd_len = len\<rparr>\<rparr>\<rparr>;
             selected = \<lparr>qd_data = map_option tl d, qd_len = len - 1\<rparr>;
             (a, r) = QuicDataDup e (tl_alpn_selected (q_tls quic1)) selected in
         (quic1\<lparr>q_tls := (q_tls quic1)\<lparr>tl_alpn_selected := a\<rparr>\<rparr>, r))))"

text \<open>
  The tickets of the client, up to the first one whose session has the digest of the chosen cipher: the session
  and the number of the ticket. A session of another digest is kept while the search goes on, and is
  what is found when no other session is.
\<close>

definition ticket_session :: "env \<Rightarrow> 'c ossl \<Rightarrow> Tls \<Rightarrow> RPacket \<Rightarrow> QUIC_SESSION option \<Rightarrow> QUIC_SESSION option \<times> unit res" where
  "ticket_session e os s identity sess =
     (if RPacketRemaining identity < of_nat (TLSEXT_KEYNAME_LENGTH + EVP_MAX_IV_LENGTH) then (sess, Inl Fail)
      else bindS (sess, mem_slice (rp_buf identity) (RPacketData identity) (unat (RPacketRemaining identity)))
             (\<lambda>sess etick. TlsDecryptTicket e os s etick sess))"

definition same_digest :: "Tls \<Rightarrow> QUIC_SESSION option \<Rightarrow> bool res" where
  "same_digest s sess =
     (case (Option.bind sess ss_cipher, tl_handshake_cipher s) of
        (Some c, Some h) \<Rightarrow> Inr (tc_digest c = tc_digest h)
      | _ \<Rightarrow> Inl Null_ptr)"

lemma Get4_left:
  assumes "RPacketGet4 p = Inr (v, q)"
  shows "rp_left q < rp_left p"
  using assms
  by (auto simp: RPacketGet4_def RPacketGetData_def RPacketPeekData_def res_simps mem_get_Inr rp_left_def RPacketForward_def
      split: if_splits)

function psk_loop ::
    "env \<Rightarrow> 'c ossl \<Rightarrow> Tls \<Rightarrow> RPacket \<Rightarrow> u32 \<Rightarrow> QUIC_SESSION option \<Rightarrow> (QUIC_SESSION option \<times> u32) res" where
  "psk_loop e os s identities i sess =
     (if RPacketRemaining identities = 0 then Inr (sess, i)
      else case RPacketGetLengthPrefixed2 identities of
        Inl err \<Rightarrow> Inl err
      | Inr (identity, list1) \<Rightarrow>
          (case RPacketGet4 list1 of
             Inl err \<Rightarrow> Inl err
           | Inr (ticket_agel, list2) \<Rightarrow>
               (case ticket_session e os s identity sess of
                  (sess1, Inl err) \<Rightarrow> if err = Fail then psk_loop e os s list2 (i + 1) sess1 else Inl err
                | (sess1, Inr _) \<Rightarrow>
                    (case same_digest s sess1 of
                       Inl err \<Rightarrow> Inl err
                     | Inr same \<Rightarrow> if same then Inr (sess1, i) else psk_loop e os s list2 (i + 1) sess1))))"
  by pat_completeness auto

termination
  by (relation "measure (\<lambda>(_, _, _, p, _). rp_left p)") (auto dest!: Get4_left GetLengthPrefixed2_left)

fun binder_loop :: "nat \<Rightarrow> RPacket \<Rightarrow> RPacket \<Rightarrow> RPacket res" where
  "binder_loop 0 binders binder = Inr binder"
| "binder_loop (Suc n) binders binder =
     bindR (RPacketGetLengthPrefixed1 binders) (\<lambda>(b, binders1). binder_loop n binders1 b)"

declare psk_loop.simps [simp del]

text \<open>The binder is checked over the message up to the binders, from the head of the packet. \<^verbatim>\<open>EVP_MD_size\<close> of no digest is
  -1, which no binder has as its length.\<close>

definition psk_binder ::
    "env \<Rightarrow> 'c ossl \<Rightarrow> 'c Quic \<Rightarrow> RPacket \<Rightarrow> u32 \<Rightarrow> QUIC_SESSION \<Rightarrow> 'c Quic \<times> unit res" where
  "psk_binder e os quic pkt i sess =
     bindS (quic, RPacketGetLengthPrefixed2 pkt) (\<lambda>quic (binders, _).
     bindS (quic, binder_loop (Suc (unat i)) binders (RPacketBufInit [] 0 0)) (\<lambda>quic binder.
       case Option.bind (ss_cipher sess) (\<lambda>c. QuicMd os (tc_digest c)) of
         None \<Rightarrow> (quic, Inl Fail)
       | Some md \<Rightarrow>
           if RPacketRemaining binder \<noteq> of_nat (md_size md) then (quic, Inl Fail)
           else case QuicSessionTicketPickTail sess of
             None \<Rightarrow> (quic, Inl Fail)
           | Some t \<Rightarrow>
               bindS (quic, mem_slice (rp_buf pkt) (RPacketHead pkt) (unat (RPacketReadLen pkt))) (\<lambda>quic msg.
               bindS (quic, mem_slice (rp_buf binder) (RPacketData binder) (md_size md)) (\<lambda>quic b.
               bindS (on_tls quic (TlsPskDoBinder e os (q_tls quic) md msg (Some b) t)) (\<lambda>quic1 _. (quic1, Inr ()))))))"

definition TlsExtsrvrParsePsk :: "env \<Rightarrow> 'c ossl \<Rightarrow> 'c Quic \<Rightarrow> RPacket \<Rightarrow> u32 \<Rightarrow> 'c Quic \<times> unit res" where
  "TlsExtsrvrParsePsk e os quic pkt cxt =
     bindS (quic, RPacketGetLengthPrefixed2 pkt) (\<lambda>quic (identities, pkt1).
     bindS (quic, psk_loop e os (q_tls quic) identities 0 None) (\<lambda>quic (sess, i).
       case sess of
         None \<Rightarrow> (quic, Inr ())
       | Some ss \<Rightarrow>
           bindS (psk_binder e os quic pkt1 i ss) (\<lambda>quic1 _.
             (quic1\<lparr>q_session := Some ss, q_tls := (q_tls quic1)\<lparr>tl_hit := True, tl_tick_identity := ucast i\<rparr>\<rparr>, Inr ()))))"

definition server_ext_parse :: "env \<Rightarrow> 'c ossl \<Rightarrow> 'c TlsExtParse list" where
  "server_ext_parse e os =
    [\<lparr>ep_type = EXT_TYPE_SERVER_NAME, ep_context = TLSEXT_CLIENT_HELLO, ep_parse = TlsExtSrvrParseServerName e\<rparr>,
     \<lparr>ep_type = EXT_TYPE_SUPPORTED_GROUPS, ep_context = TLSEXT_CLIENT_HELLO, ep_parse = TlsExtSrvrParseSupportedGroups e\<rparr>,
     \<lparr>ep_type = EXT_TYPE_SIGNATURE_ALGORITHMS, ep_context = TLSEXT_CLIENT_HELLO, ep_parse = TlsExtSrvrParseSigAlgs e\<rparr>,
     \<lparr>ep_type = EXT_TYPE_ALPN, ep_context = TLSEXT_CLIENT_HELLO, ep_parse = TlsExtSrvrParseAlpn e\<rparr>,
     \<lparr>ep_type = EXT_TYPE_SUPPORTED_VERSIONS, ep_context = TLSEXT_CLIENT_HELLO, ep_parse = TlsExtSrvrParseSupportedVersion\<rparr>,
     \<lparr>ep_type = EXT_TYPE_PSK_KEY_EXCHANGE_MODES, ep_context = TLSEXT_CLIENT_HELLO, ep_parse = TlsExtSrvrParseKeyExchModes\<rparr>,
     \<lparr>ep_type = EXT_TYPE_KEY_SHARE, ep_context = TLSEXT_CLIENT_HELLO, ep_parse = TlsExtSrvrParseKeyShare os\<rparr>,
     \<lparr>ep_type = EXT_TYPE_QUIC_TRANS_PARAMS, ep_context = TLSEXT_CLIENT_HELLO, ep_parse = TlsExtSrvrParseQtp\<rparr>,
     \<lparr>ep_type = EXT_TYPE_EARLY_DATA, ep_context = TLSEXT_CLIENT_HELLO, ep_parse = TlsExtSrvrParseEarlyData\<rparr>,
     \<lparr>ep_type = EXT_TYPE_PRE_SHARED_KEY, ep_context = TLSEXT_CLIENT_HELLO, ep_parse = TlsExtsrvrParsePsk e os\<rparr>]"

definition TlsSrvrParseExtensions :: "env \<Rightarrow> 'c ossl \<Rightarrow> u32 \<Rightarrow> 'c Quic \<Rightarrow> RPacket \<Rightarrow> 'c Quic \<times> RPacket res" where
  "TlsSrvrParseExtensions e os cxt quic pkt = TlsParseExtensions (server_ext_parse e os) cxt quic pkt"

end
