(* ===== verification/Tls_Hs.thy ===== *)
theory Tls_Hs
  imports Tls_Ext_Srvr Statem
begin

text \<open>
  The handshake (\<^verbatim>\<open>quic/tls/tls.c\<close>, \<^verbatim>\<open>quic/tls/tls_msg.c\<close>): the loop that takes the messages out of the buffer of the CRYPTO
  frames and puts the answers into it, and what the messages of both sides have in common. The table that says
  what is to be done in a state is an argument. The messages are read from the buffer that
  answers are written to, from its start; reading never follows writing in one run, so a reader may
  keep the contents the buffer had. A write makes them those of the connection's buffer.
\<close>

section \<open>Tables\<close>

text \<open>\<^verbatim>\<open>QUIC_FLOW_RET_ERROR\<close> is \<open>Fail\<close>. A handler gets the message to read, or the packet to write to.\<close>

datatype 'c tls_handler =
  Read_handler "'c Quic \<Rightarrow> RPacket \<Rightarrow> 'c Quic \<times> QuicFlowReturn res"
| Write_handler "'c Quic \<Rightarrow> WPacket \<Rightarrow> ('c Quic \<times> WPacket) \<times> QuicFlowReturn res"

record 'c TlsProcess =
  tp_flow_state :: QuicFlowState
  tp_next_state :: TlsState
  tp_msg_type :: u32
  tp_handler :: "'c tls_handler option"
  tp_post_work :: "('c Quic \<Rightarrow> 'c Quic \<times> unit res) option"
  tp_skip_check :: "('c Quic \<Rightarrow> unit res) option"
  tp_pkt_type :: u32

type_synonym 'c tls_table = "TlsState \<Rightarrow> 'c TlsProcess"

text \<open>What an entry that the initialiser of a table does not name is.\<close>

definition no_process :: "'c TlsProcess" where
  "no_process = \<lparr>tp_flow_state = QUIC_FLOW_NOTHING, tp_next_state = TLS_ST_OK, tp_msg_type = 0, tp_handler = None,
     tp_post_work = None, tp_skip_check = None, tp_pkt_type = 0\<rparr>"

definition set_state :: "TlsState \<Rightarrow> 'c Quic \<Rightarrow> 'c Quic" where
  "set_state st quic = quic\<lparr>q_tls := (q_tls quic)\<lparr>tl_state := st\<rparr>\<rparr>"

abbreviation hs_state :: "'c Quic \<Rightarrow> TlsState" where "hs_state quic \<equiv> tl_state (q_tls quic)"

definition TlsFlowFinish :: "'c Quic \<Rightarrow> TlsState \<Rightarrow> TlsState \<Rightarrow> 'c Quic" where
  "TlsFlowFinish quic prev_state next_state = (if prev_state = hs_state quic then set_state next_state quic else quic)"

text \<open>Whether the message is one of an earlier state.\<close>

definition TlsHandshakeMsgRetrans :: "u32 \<Rightarrow> TlsState \<Rightarrow> 'c tls_table \<Rightarrow> bool" where
  "TlsHandshakeMsgRetrans type state proc =
     (case find (\<lambda>st. tp_flow_state (proc st) = QUIC_FLOW_READING \<and> tp_msg_type (proc st) = type) tls_states of
        None \<Rightarrow> False
      | Some st \<Rightarrow> st_index state > st_index st)"

text \<open>The digest takes the bytes of a message, which are not looked at before there is a digest.\<close>

definition finish_mac :: "'c Quic \<Rightarrow> bytes res \<Rightarrow> 'c Quic \<times> unit res" where
  "finish_mac quic d =
     (if tl_handshake_dgst (q_tls quic) = None then (quic, Inr ())
      else bindS (quic, d) (\<lambda>quic d. on_tls quic (TlsFinishMac (q_tls quic) d)))"

section \<open>Reading a message\<close>

text \<open>States whose message need not come are left for the message that came, when the check allows it. The result is the entry
  for the message, or the last one that did not fit.\<close>

partial_function (option) read_skip ::
    "'c tls_table \<Rightarrow> u32 \<Rightarrow> 'c Quic \<Rightarrow> 'c TlsProcess \<Rightarrow> ('c Quic \<times> 'c TlsProcess res) option" where
  "read_skip proc type quic p =
     (if type = tp_msg_type p then Some (quic, Inr p)
      else case tp_skip_check p of
        None \<Rightarrow> Some (quic, Inl Fail)
      | Some check \<Rightarrow>
          if ok (check quic) then read_skip proc type (set_state (tp_next_state p) quic) (proc (tp_next_state p))
          else Some (quic, Inl Fail))"

definition run_read_handler :: "'c tls_handler option \<Rightarrow> 'c Quic \<Rightarrow> RPacket \<Rightarrow> 'c Quic \<times> QuicFlowReturn res" where
  "run_read_handler h quic msg =
     (case h of
        None \<Rightarrow> (quic, Inl Null_ptr)
      | Some (Read_handler f) \<Rightarrow> f quic msg
      | Some (Write_handler f) \<Rightarrow> (quic, Inl Bad_mem))"

text \<open>The message after its type: all of it has to be there. The digest gets its header too.\<close>

definition read_message ::
    "'c ossl \<Rightarrow> 'c Quic \<Rightarrow> 'c TlsProcess \<Rightarrow> RPacket \<Rightarrow> RPacket \<Rightarrow> u32 \<Rightarrow> ('c Quic \<times> RPacket) \<times> QuicFlowReturn res" where
  "read_message os quic p packet pkt type =
     (let state = hs_state quic in
      case RPacketGet3 pkt of
        Inl err \<Rightarrow> if err = Fail then ((quic, packet), Inr QUIC_FLOW_RET_WANT_READ) else ((quic, pkt), Inl err)
      | Inr (len, pkt1) \<Rightarrow>
          let offset = ucast (RPacketRemaining packet - RPacketRemaining pkt1) :: u32 in
          if \<not> sint offset > 0 then ((quic, pkt1), Inl Abort)
          else case RPacketTransfer pkt1 (ucast len) of
            Inl err \<Rightarrow> ((quic, packet), Inr QUIC_FLOW_RET_WANT_READ)
          | Inr (msg0, pkt2) \<Rightarrow>
              let msg = RPacketHeadPush msg0 (scast offset) in
              (case bindS (if type = TLS_MT_FINISHED then TlsTakeMac os quic else (quic, Inr ())) (\<lambda>quic1 _.
                    bindS (finish_mac quic1 (mem_slice (rp_buf msg) (RPacketHead msg) (unat (RPacketTotalLen msg)))) (\<lambda>quic2 _.
                      run_read_handler (tp_handler p) quic2 msg)) of
                 (quic3, Inl err) \<Rightarrow> ((quic3, pkt2), Inl err)
               | (quic3, Inr ret) \<Rightarrow> ((TlsFlowFinish quic3 state (tp_next_state p), pkt2), Inr ret)))"

text \<open>A message that does not fit is passed over when it is one of an earlier state, and an error otherwise.\<close>

definition drop_message :: "'c tls_table \<Rightarrow> 'c Quic \<Rightarrow> RPacket \<Rightarrow> u32 \<Rightarrow> ('c Quic \<times> RPacket) \<times> QuicFlowReturn res" where
  "drop_message proc quic pkt type =
     (if \<not> TlsHandshakeMsgRetrans type (hs_state quic) proc then ((quic, pkt), Inl Fail)
      else case RPacketGet3 pkt of
        Inl err \<Rightarrow> ((quic, pkt), Inl err)
      | Inr (len, pkt1) \<Rightarrow>
          (case RPacketPull pkt1 (ucast len) of
             Inl err \<Rightarrow> ((quic, pkt1), Inl err)
           | Inr pkt2 \<Rightarrow> ((quic, pkt2), Inr QUIC_FLOW_RET_DROP)))"

definition TlsHandshakeRead ::
    "'c ossl \<Rightarrow> 'c tls_table \<Rightarrow> 'c Quic \<Rightarrow> 'c TlsProcess \<Rightarrow> RPacket \<Rightarrow> (('c Quic \<times> RPacket) \<times> QuicFlowReturn res) option" where
  "TlsHandshakeRead os proc quic p pkt =
     (if tp_handler p = None then Some ((quic, pkt), Inl Fail)
      else if RPacketRemaining pkt = 0 then Some ((quic, pkt), Inr QUIC_FLOW_RET_WANT_READ)
      else case RPacketGet1 pkt of
        Inl err \<Rightarrow> Some ((quic, pkt), if err = Fail then Inr QUIC_FLOW_RET_WANT_READ else Inl err)
      | Inr (type, pkt1) \<Rightarrow>
          (case read_skip proc type quic p of
             None \<Rightarrow> None
           | Some (quic1, Inl err) \<Rightarrow> Some (drop_message proc quic1 pkt1 type)
           | Some (quic1, Inr p1) \<Rightarrow> Some (read_message os quic1 p1 pkt pkt1 type)))"

section \<open>Writing a message\<close>

text \<open>Reading through a pointer into the packet: a pointer of before the buffer moved must not be used.\<close>

definition wp_load :: "WPacket \<Rightarrow> wptr \<Rightarrow> nat \<Rightarrow> bytes res" where
  "wp_load pkt p n = (if fst p \<noteq> wp_gen pkt then Inl Bad_mem else mem_slice (wp_data pkt) (snd p) n)"

definition run_write_handler :: "'c tls_handler option \<Rightarrow> 'c Quic \<Rightarrow> WPacket \<Rightarrow> ('c Quic \<times> WPacket) \<times> QuicFlowReturn res" where
  "run_write_handler h quic pkt =
     (case h of
        None \<Rightarrow> ((quic, pkt), Inl Fail)
      | Some (Write_handler f) \<Rightarrow> f quic pkt
      | Some (Read_handler f) \<Rightarrow> ((quic, pkt), Inl Bad_mem))"

text \<open>The packet writes to the connection's buffer.\<close>

definition sync_buffer :: "'c Quic \<times> WPacket \<Rightarrow> 'c Quic \<times> WPacket" where
  "sync_buffer s = ((fst s)\<lparr>q_tls_buffer := (q_tls_buffer (fst s))\<lparr>qbf_buf := Some (wp_data (snd s))\<rparr>\<rparr>, snd s)"

definition TlsHandshakeWrite ::
    "env \<Rightarrow> 'c Quic \<Rightarrow> 'c TlsProcess \<Rightarrow> WPacket \<Rightarrow> ('c Quic \<times> WPacket) \<times> QuicFlowReturn res" where
  "TlsHandshakeWrite e quic p pkt =
     (if tp_handler p = None then ((quic, pkt), Inl Fail)
      else
        let msg = WPacket_get_curr pkt; wlen = WPacket_get_written pkt; state = hs_state quic;
            (s, r) =
              bindS (on_wpkt quic (bindS (WPacketPut1 e pkt (tp_msg_type p)) (\<lambda>pkt1 _. WPacketStartSubU24 e pkt1)))
                (\<lambda>(quic1, pkt2) _.
              bindS (run_write_handler (tp_handler p) quic1 pkt2) (\<lambda>(quic3, pkt3) ret.
              bindS (on_wpkt quic3 (WPacketClose pkt3)) (\<lambda>(quic4, pkt4) _.
                let msg_len = WPacket_get_written pkt4 - wlen in
                if \<not> QUIC_GT msg_len 0 then ((quic4, pkt4), Inl Abort)
                else case finish_mac quic4 (wp_load pkt4 msg (unat msg_len)) of
                  (quic5, Inl err) \<Rightarrow> ((quic5, pkt4), Inl err)
                | (quic5, Inr _) \<Rightarrow> ((TlsFlowFinish quic5 state (tp_next_state p), pkt4), Inr ret))))
        in (sync_buffer s, r))"

section \<open>The loop\<close>

type_synonym 'c hs = "'c Quic \<times> RPacket \<times> WPacket \<times> u32"

definition statem_step ::
    "env \<Rightarrow> 'c ossl \<Rightarrow> 'c tls_table \<Rightarrow> 'c hs \<Rightarrow> ('c hs \<times> QuicFlowReturn res) option" where
  "statem_step e os proc s =
     (case s of (quic, rpkt, wpkt, _) \<Rightarrow>
        let p = proc (hs_state quic); type = tp_pkt_type p in
        (case tp_flow_state p of
           QUIC_FLOW_READING \<Rightarrow>
             (case TlsHandshakeRead os proc quic p rpkt of
                None \<Rightarrow> None
              | Some ((quic1, rpkt1), r) \<Rightarrow> Some ((quic1, rpkt1, wpkt, type), r))
         | QUIC_FLOW_WRITING \<Rightarrow>
             (case TlsHandshakeWrite e quic p wpkt of ((quic1, wpkt1), r) \<Rightarrow> Some ((quic1, rpkt, wpkt1, type), r))
         | _ \<Rightarrow> Some ((set_state (tp_next_state p) quic, rpkt, wpkt, type), Inr QUIC_FLOW_RET_CONTINUE)))"

definition post_work :: "'c TlsProcess \<Rightarrow> 'c hs \<Rightarrow> 'c hs \<times> unit res" where
  "post_work p s =
     (case tp_post_work p of
        None \<Rightarrow> (s, Inr ())
      | Some f \<Rightarrow> (case f (fst s) of (quic1, r) \<Rightarrow> ((quic1, snd s), r)))"

text \<open>The work that follows a message is that of the state the step began in.\<close>

partial_function (option) TlsHandshakeStatem ::
    "env \<Rightarrow> 'c ossl \<Rightarrow> 'c tls_table \<Rightarrow> 'c hs \<Rightarrow> ('c hs \<times> QuicFlowReturn res) option" where
  "TlsHandshakeStatem e os proc s =
     (if tp_flow_state (proc (hs_state (fst s))) = QUIC_FLOW_FINISHED then Some (s, Inr QUIC_FLOW_RET_END)
      else case statem_step e os proc s of
        None \<Rightarrow> None
      | Some (s1, Inl err) \<Rightarrow> Some (s1, Inl err)
      | Some (s1, Inr ret) \<Rightarrow>
          if ret \<in> {QUIC_FLOW_RET_DROP, QUIC_FLOW_RET_WANT_READ, QUIC_FLOW_RET_WANT_WRITE} then Some (s1, Inr ret)
          else case post_work (proc (hs_state (fst s))) s1 of
            (s2, Inl err) \<Rightarrow> Some (s2, Inl err)
          | (s2, Inr _) \<Rightarrow> if ret = QUIC_FLOW_RET_NEXT then Some (s2, Inr ret) else TlsHandshakeStatem e os proc s2)"

text \<open>After a run: the offset moves past the messages that were read, when there is a part of one left, and goes back to the start
  otherwise; what was written is sent, even after an error.\<close>

definition tls_offset :: "QuicFlowReturn res \<Rightarrow> RPacket \<Rightarrow> QUIC_BUFFER \<Rightarrow> QUIC_BUFFER res" where
  "tls_offset ret rpkt buf =
     (if (ret = Inr QUIC_FLOW_RET_WANT_READ \<or> ret = Inr QUIC_FLOW_RET_NEXT) \<and> RPacketRemaining rpkt \<noteq> 0
      then QuicBufAddOffset buf (RPacketReadLen rpkt)
      else Inr (QuicBufResetOffset buf))"

definition tls_flush ::
    "env \<Rightarrow> 'c hs \<Rightarrow> QuicFlowReturn res \<Rightarrow> ('c Quic \<times> unit res) option" where
  "tls_flush e s ret =
     (case s of (quic, rpkt, wpkt, pkt_type) \<Rightarrow>
        case tls_offset ret rpkt (q_tls_buffer quic) of
          Inl err \<Rightarrow> Some (quic, Inl err)
        | Inr buf \<Rightarrow>
            let wlen = WPacket_get_written wpkt; quic1 = quic\<lparr>q_tls_buffer := QuicBufSetDataLength buf wlen\<rparr> in
            if wlen = 0 then Some (quic1, Inr ()) else QuicCryptoFrameBuild e quic1 pkt_type)"

definition tls_done :: "env \<Rightarrow> 'c Quic \<Rightarrow> u32 \<Rightarrow> QuicFlowReturn res \<Rightarrow> 'c Quic \<times> QuicFlowReturn res" where
  "tls_done e quic pkt_type ret =
     (if hs_state quic = TLS_ST_SW_HANDSHAKE_DONE
      then bindS (quiet (QuicDataHandshakeDoneFrameBuild e quic 0 pkt_type)) (\<lambda>quic1 _.
             (set_state TLS_ST_HANDSHAKE_DONE quic1, ret))
      else (quic, ret))"

partial_function (option) tls_loop ::
    "env \<Rightarrow> 'c ossl \<Rightarrow> 'c tls_table \<Rightarrow> 'c Quic \<Rightarrow> RPacket \<Rightarrow> u32 \<Rightarrow> ('c Quic \<times> QuicFlowReturn res) option" where
  "tls_loop e os proc quic rpkt pkt_type =
     (case qbf_buf (q_tls_buffer quic) of
        None \<Rightarrow> Some (quic, Inl Null_ptr)
      | Some m \<Rightarrow>
          (case TlsHandshakeStatem e os proc (quic, rpkt, WPacketBufInit m, pkt_type) of
             None \<Rightarrow> None
           | Some (s, ret) \<Rightarrow>
               if ret \<noteq> Inl Fail \<and> \<not> ok ret then Some (fst s, ret)
               else case tls_flush e s ret of
                 None \<Rightarrow> None
               | Some (quic1, Inl err) \<Rightarrow> Some (quic1, Inl err)
               | Some (quic1, Inr _) \<Rightarrow>
                   if ret = Inr QUIC_FLOW_RET_WANT_WRITE then tls_loop e os proc quic1 (fst (snd s)) (snd (snd (snd s)))
                   else Some (tls_done e quic1 (snd (snd (snd s))) ret)))"

definition TlsHandshake ::
    "env \<Rightarrow> 'c ossl \<Rightarrow> 'c tls_table \<Rightarrow> 'c Quic \<Rightarrow> ('c Quic \<times> QuicFlowReturn res) option" where
  "TlsHandshake e os proc quic =
     (let buf = q_tls_buffer quic; data_len = QuicBufGetDataLength buf - QuicBufGetOffset buf in
      if \<not> QUIC_GE data_len 0 then Some (quic, Inl Abort)
      else case QuicBufMsg buf of
        Inl err \<Rightarrow> Some (quic, Inl err)
      | Inr p \<Rightarrow> tls_loop e os proc quic (RPacketBufInit (case qbf_buf buf of None \<Rightarrow> [] | Some m \<Rightarrow> m) p data_len) 0)"

section \<open>Parts of messages\<close>

definition TlsGenRandom :: "env \<Rightarrow> nat \<Rightarrow> bytes \<Rightarrow> WPacket \<Rightarrow> (bytes \<times> WPacket) \<times> unit res" where
  "TlsGenRandom e k random pkt =
     (case QuicRandBytes e k random of
        (d, Inl err) \<Rightarrow> ((d, pkt), Inl err)
      | (d, Inr _) \<Rightarrow> (case WPacketMemcpy e pkt (Some d) of (pkt1, r) \<Rightarrow> ((d, pkt1), r)))"

fun put_ciphers :: "env \<Rightarrow> TlsCipher list \<Rightarrow> WPacket \<Rightarrow> WPacket \<times> unit res" where
  "put_ciphers e [] pkt = (pkt, Inr ())"
| "put_ciphers e (c # cs) pkt = bindS (WPacketPut2 e pkt (ucast (tc_id c))) (\<lambda>pkt1 _. put_ciphers e cs pkt1)"

text \<open>The list is closed even when a cipher could not be put.\<close>

definition TlsPutCipherList :: "env \<Rightarrow> Tls \<Rightarrow> WPacket \<Rightarrow> WPacket \<times> unit res" where
  "TlsPutCipherList e tls pkt =
     bindS (WPacketStartSubU16 e pkt) (\<lambda>pkt1 _.
       case put_ciphers e (tl_cipher_list tls) pkt1 of (pkt2, r) \<Rightarrow>
         if r \<noteq> Inl Fail \<and> \<not> ok r then (pkt2, r)
         else bindS (WPacketClose pkt2) (\<lambda>pkt3 _. (pkt3, r)))"

definition TlsPutCompressionMethod :: "env \<Rightarrow> WPacket \<Rightarrow> WPacket \<times> unit res" where
  "TlsPutCompressionMethod e pkt = WPacketPut1 e pkt 0"

definition TlsHelloHeadParse :: "RPacket \<Rightarrow> bytes \<Rightarrow> u64 \<Rightarrow> bytes \<times> RPacket res" where
  "TlsHelloHeadParse pkt random random_size =
     bindS (random, RPacketGet2 pkt) (\<lambda>random (legacy_version, pkt1).
     bindS (random, RPacketCopyBytes pkt1 random_size) (\<lambda>random (d, pkt2).
     bindS (d, RPacketGet1 pkt2) (\<lambda>d (session_id_len, pkt3).
       (d, RPacketPull pkt3 (ucast session_id_len)))))"

type_synonym 'c ext_constructor = "u32 \<Rightarrow> 'c Quic \<Rightarrow> WPacket \<Rightarrow> ('c Quic \<times> WPacket) \<times> unit res"

definition TlsAddCertToWpacket ::
    "env \<Rightarrow> 'c ossl \<Rightarrow> 'c Quic \<Rightarrow> WPacket \<Rightarrow> X509 \<Rightarrow> 'c ext_constructor \<Rightarrow> ('c Quic \<times> WPacket) \<times> unit res" where
  "TlsAddCertToWpacket e os quic pkt x ext =
     bindS ((quic, pkt), someR (os_i2d_x509 os x)) (\<lambda>(quic, pkt) der.
     bindS (on_wpkt quic (bindS (WPacketSubAllocBytesU24 e pkt (of_nat (length der))) (\<lambda>pkt1 outbytes. wp_store pkt1 outbytes der)))
       (\<lambda>(quic1, pkt2) _. ext TLSEXT_CERTIFICATE quic1 pkt2))"

fun add_certs ::
    "env \<Rightarrow> 'c ossl \<Rightarrow> X509 list \<Rightarrow> 'c ext_constructor \<Rightarrow> 'c Quic \<times> WPacket \<Rightarrow> ('c Quic \<times> WPacket) \<times> unit res" where
  "add_certs e os [] ext s = (s, Inr ())"
| "add_certs e os (x # xs) ext s =
     bindS (TlsAddCertToWpacket e os (fst s) (snd s) x ext) (\<lambda>s1 _. add_certs e os xs ext s1)"

definition TlsAddCertChain ::
    "env \<Rightarrow> 'c ossl \<Rightarrow> 'c Quic \<Rightarrow> WPacket \<Rightarrow> QuicCertPkey option \<Rightarrow> 'c ext_constructor \<Rightarrow> ('c Quic \<times> WPacket) \<times> unit res" where
  "TlsAddCertChain e os quic pkt cpk ext =
     (case cpk of
        None \<Rightarrow> ((quic, pkt), Inl Fail)
      | Some c \<Rightarrow>
          (case cpk_x509 c of
             None \<Rightarrow> ((quic, pkt), Inl Fail)
           | Some x \<Rightarrow> add_certs e os (x # cpk_chain c) ext (quic, pkt)))"

definition TlsCertChainBuild ::
    "env \<Rightarrow> 'c ossl \<Rightarrow> 'c Quic \<Rightarrow> WPacket \<Rightarrow> QuicCertPkey option \<Rightarrow> 'c ext_constructor \<Rightarrow>
     ('c Quic \<times> WPacket) \<times> QuicFlowReturn res" where
  "TlsCertChainBuild e os quic pkt cpk ext =
     bindS (on_wpkt quic (WPacketStartSubU24 e pkt)) (\<lambda>(quic1, pkt1) _.
     bindS (TlsAddCertChain e os quic1 pkt1 cpk ext) (\<lambda>(quic2, pkt2) _.
     bindS (on_wpkt quic2 (WPacketClose pkt2)) (\<lambda>s _. (s, Inr QUIC_FLOW_RET_FINISH))))"

definition TlsCertVerifyBuild :: "env \<Rightarrow> 'c ossl \<Rightarrow> 'c Quic \<Rightarrow> WPacket \<Rightarrow> ('c Quic \<times> WPacket) \<times> QuicFlowReturn res" where
  "TlsCertVerifyBuild e os quic pkt =
     bindS (on_wpkt quic (TlsConstructCertVerify e os (q_tls quic) pkt)) (\<lambda>s _. (s, Inr QUIC_FLOW_RET_FINISH))"

end
