(* ===== verification/Tls_Clnt.thy ===== *)
theory Tls_Clnt
  imports Tls_Hs
begin

text \<open>The client's handshake (\<^verbatim>\<open>quic/tls/tls_clnt.c\<close>): its messages, what it makes of the server's, and its table.\<close>

section \<open>Messages of the client\<close>

definition TlsClientHelloBuild :: "env \<Rightarrow> 'c ossl \<Rightarrow> 'c Quic \<Rightarrow> WPacket \<Rightarrow> ('c Quic \<times> WPacket) \<times> QuicFlowReturn res" where
  "TlsClientHelloBuild e os quic pkt =
     bindS (on_wpkt quic (WPacketPut2 e pkt TLS_VERSION_1_2)) (\<lambda>(quic1, pkt1) _.
     let s = q_tls quic1;
         ((d, pkt2), r) = TlsGenRandom e (tl_draws s) (tl_client_random s) pkt1;
         quic2 = quic1\<lparr>q_tls := s\<lparr>tl_client_random := d, tl_draws := Suc (tl_draws s)\<rparr>\<rparr> in
     bindS ((quic2, pkt2), r) (\<lambda>(quic2, pkt2) _.
     bindS (on_wpkt quic2
       (bindS (WPacketPut1 e pkt2 0) (\<lambda>pkt3 _.
        bindS (TlsPutCipherList e (q_tls quic2) pkt3) (\<lambda>pkt4 _.
        bindS (WPacketPut1 e pkt4 1) (\<lambda>pkt5 _. TlsPutCompressionMethod e pkt5))))) (\<lambda>(quic3, pkt6) _.
     bindS (TlsClntConstructExtensions e os TLSEXT_CLIENT_HELLO quic3 pkt6) (\<lambda>s1 _. (s1, Inr QUIC_FLOW_RET_NEXT)))))"

definition TlsClntCertBuild :: "'c Quic \<Rightarrow> WPacket \<Rightarrow> ('c Quic \<times> WPacket) \<times> QuicFlowReturn res" where
  "TlsClntCertBuild quic pkt = ((quic, pkt), Inr QUIC_FLOW_RET_NEXT)"

definition TlsClntCertVerifyBuild :: "'c Quic \<Rightarrow> WPacket \<Rightarrow> ('c Quic \<times> WPacket) \<times> QuicFlowReturn res" where
  "TlsClntCertVerifyBuild quic pkt = ((quic, pkt), Inr QUIC_FLOW_RET_NEXT)"

definition TlsClntFinishedBuild :: "env \<Rightarrow> 'c ossl \<Rightarrow> 'c Quic \<Rightarrow> WPacket \<Rightarrow> ('c Quic \<times> WPacket) \<times> QuicFlowReturn res" where
  "TlsClntFinishedBuild e os quic pkt = bindS (TlsFinishedBuild e os quic pkt) (\<lambda>s _. (s, Inr QUIC_FLOW_RET_NEXT))"

section \<open>Messages of the server\<close>

text \<open>The cipher must be one of the client's own. The session is made here, when there is none.\<close>

definition TlsServerHelloProc :: "env \<Rightarrow> 'c ossl \<Rightarrow> 'c Quic \<Rightarrow> RPacket \<Rightarrow> 'c Quic \<times> QuicFlowReturn res" where
  "TlsServerHelloProc e os quic pkt =
     (let tls = q_tls quic;
          (d, r) = TlsHelloHeadParse pkt (tl_server_random tls) (of_nat TLS_RANDOM_BYTE_LEN) in
      bindS (quic\<lparr>q_tls := tls\<lparr>tl_server_random := d\<rparr>\<rparr>, r) (\<lambda>quic1 pkt1.
      bindS (quic1, TlsParseCipherList e pkt1 2) (\<lambda>quic1 (cipher_list, pkt2).
      let i = (case cipher_list of [] \<Rightarrow> 0 | c # _ \<Rightarrow> tc_id c) in
      if i = 0 then (quic1, Inl Fail)
      else case TlsCipherMatchListById (tl_cipher_list (q_tls quic1)) i of
        None \<Rightarrow> (quic1, Inl Fail)
      | Some cipher \<Rightarrow>
          let quic2 = quic1\<lparr>q_tls := (q_tls quic1)\<lparr>tl_handshake_cipher := Some cipher\<rparr>\<rparr> in
          bindS (quic2, RPacketPull pkt2 1) (\<lambda>quic2 pkt3.
          bindS (TlsClntParseExtensions e os TLSEXT_SERVER_HELLO quic2 pkt3) (\<lambda>quic3 pkt4.
          bindS (QuicCreateHandshakeServerDecoders e os
                   (quic3\<lparr>q_tls := (q_tls quic3)\<lparr>tl_handshake_msg_len := RPacketTotalLen pkt4\<rparr>\<rparr>)) (\<lambda>quic4 _.
          bindS (QuicGetSession e
                   (quic4\<lparr>q_tls := (q_tls quic4)\<lparr>tl_handshake_msg_len := 0\<rparr>,
                          q_tls_buffer := QuicBufClear (q_tls_buffer quic4)\<rparr>)) (\<lambda>quic5 _.
            (quic5, Inr QUIC_FLOW_RET_FINISH))))))))"

definition TlsEncExtProc :: "env \<Rightarrow> 'c ossl \<Rightarrow> 'c Quic \<Rightarrow> RPacket \<Rightarrow> 'c Quic \<times> QuicFlowReturn res" where
  "TlsEncExtProc e os quic pkt =
     bindS (TlsClntParseExtensions e os TLSEXT_SERVER_HELLO quic pkt) (\<lambda>quic1 _. (quic1, Inr QUIC_FLOW_RET_FINISH))"

definition TlsCertRequestProc :: "'c Quic \<Rightarrow> RPacket \<Rightarrow> 'c Quic \<times> QuicFlowReturn res" where
  "TlsCertRequestProc quic pkt = (quic, Inr QUIC_FLOW_RET_FINISH)"

definition QUIC_TLS_VERIFY_NONE :: u32 where "QUIC_TLS_VERIFY_NONE = 0"

definition QuicVerifyCertChain :: "'c Quic \<Rightarrow> X509 list \<Rightarrow> unit res" where
  "QuicVerifyCertChain quic sk = Inr ()"

text \<open>One certificate of the list, and the list. An entry has its extensions with a length before them, and the parser expects
  another length there.\<close>

definition cert_der :: "RPacket \<Rightarrow> (bytes \<times> RPacket) res" where
  "cert_der pkt =
     bindR (RPacketGet3 pkt) (\<lambda>(cert_len, pkt1).
     bindR (RPacketGetBytes pkt1 (ucast cert_len)) (\<lambda>(certbytes, pkt2).
     bindR (mem_slice (rp_buf pkt1) certbytes (unat cert_len)) (\<lambda>der. Inr (der, pkt2))))"

definition cert_entry :: "env \<Rightarrow> 'c ossl \<Rightarrow> 'c Quic \<Rightarrow> RPacket \<Rightarrow> 'c Quic \<times> (X509 \<times> RPacket) res" where
  "cert_entry e os quic pkt =
     (case cert_der pkt of
        Inl err \<Rightarrow> (quic, Inl err)
      | Inr (der, pkt2) \<Rightarrow>
          (case os_d2i_x509 os der of
             None \<Rightarrow> (quic, Inl Fail)
           | Some (x, n) \<Rightarrow>
               if n \<noteq> length der then (quic, Inl Fail)
               else case RPacketGetLengthPrefixed2 pkt2 of
                 Inl err \<Rightarrow> (quic, Inl err)
               | Inr (extensions, pkt3) \<Rightarrow>
                   if RPacketRemaining extensions = 0 then (quic, Inr (x, pkt3))
                   else case TlsClntParseExtensions e os TLSEXT_CERTIFICATE quic extensions of
                     (quic1, Inl err) \<Rightarrow> (quic1, Inl err)
                   | (quic1, Inr _) \<Rightarrow> (quic1, Inr (x, pkt3))))"

lemma Get3_left:
  assumes "RPacketGet3 p = Inr (v, q)"
  shows "rp_left q < rp_left p"
  using assms
  by (auto simp: RPacketGet3_def RPacketGetData_def RPacketPeekData_def res_simps mem_get_Inr rp_left_def RPacketForward_def
      split: if_splits)

lemma GetBytes_left: "RPacketGetBytes p n = Inr (x, q) \<Longrightarrow> rp_left q \<le> rp_left p"
  by (auto simp: RPacketGetBytes_def RPacketPeekBytes_def res_simps split: if_splits intro: rp_left_adv rp_adv_Forward)

lemma cert_der_left: "cert_der p = Inr (d, q) \<Longrightarrow> rp_left q < rp_left p"
  by (auto simp: cert_der_def bindR_eq_Inr dest!: Get3_left GetBytes_left)

lemma cert_entry_left:
  assumes "cert_entry e os quic pkt = (quic', Inr (x, q))"
  shows "rp_left q < rp_left pkt"
  using assms unfolding cert_entry_def
  by (auto split: option.split_asm if_split_asm prod.split_asm sum.split_asm
      dest!: cert_der_left GetLengthPrefixed2_left)

function cert_list_loop :: "env \<Rightarrow> 'c ossl \<Rightarrow> 'c Quic \<Rightarrow> RPacket \<Rightarrow> 'c Quic \<times> X509 list res" where
  "cert_list_loop e os quic pkt =
     (if RPacketRemaining pkt = 0 then (quic, Inr [])
      else case cert_entry e os quic pkt of
        (quic1, Inl err) \<Rightarrow> (quic1, Inl err)
      | (quic1, Inr (x, pkt1)) \<Rightarrow>
          bindS (cert_list_loop e os quic1 pkt1) (\<lambda>quic2 sk. (quic2, Inr (x # sk))))"
  by pat_completeness auto

termination by (relation "measure (\<lambda>(_, _, _, p). rp_left p)") (auto dest: cert_entry_left[OF sym])

declare cert_list_loop.simps [simp del]

text \<open>Whatever is wrong with the list of certificates, the result is that of success: the certificate is not taken then.\<close>

definition server_certs :: "env \<Rightarrow> 'c ossl \<Rightarrow> 'c Quic \<Rightarrow> RPacket \<Rightarrow> 'c Quic \<times> unit res" where
  "server_certs e os quic pkt =
     bindS (cert_list_loop e os quic pkt) (\<lambda>quic1 sk.
       if q_verify_mode quic1 \<noteq> QUIC_TLS_VERIFY_NONE \<and> \<not> ok (QuicVerifyCertChain quic1 sk) then (quic1, Inl Fail)
       else case sk of
         [] \<Rightarrow> (quic1, Inl Fail)
       | x # _ \<Rightarrow>
           let s = (q_tls quic1)\<lparr>tl_peer_cert := Some x\<rparr> in
           (case TlsHandshakeHash os s (tl_cert_verify_hash s) EVP_MAX_MD_SIZE of
              Inl err \<Rightarrow> (quic1\<lparr>q_tls := s\<rparr>, Inl err)
            | Inr (h, n) \<Rightarrow>
                (quic1\<lparr>q_tls := s\<lparr>tl_cert_verify_hash := h, tl_cert_verify_hash_len := of_nat n\<rparr>\<rparr>, Inr ())))"

definition TlsServerCertProc :: "env \<Rightarrow> 'c ossl \<Rightarrow> 'c Quic \<Rightarrow> RPacket \<Rightarrow> 'c Quic \<times> QuicFlowReturn res" where
  "TlsServerCertProc e os quic pkt =
     bindS (quic, RPacketGet1 pkt) (\<lambda>quic (context, pkt1).
     bindS (quic, RPacketGet3 pkt1) (\<lambda>quic (cert_list_len, pkt2).
       if RPacketRemaining pkt2 \<noteq> ucast cert_list_len then (quic, Inl Fail)
       else bindS (quiet (server_certs e os quic pkt2)) (\<lambda>quic1 _. (quic1, Inr QUIC_FLOW_RET_FINISH))))"

definition TlsCertVerifyProc :: "'c ossl \<Rightarrow> 'c Quic \<Rightarrow> RPacket \<Rightarrow> 'c Quic \<times> QuicFlowReturn res" where
  "TlsCertVerifyProc os quic pkt =
     (case Option.bind (tl_peer_cert (q_tls quic)) (os_x509_pubkey os) of
        None \<Rightarrow> (quic, Inl Fail)
      | Some pkey \<Rightarrow>
          if TlsLookupSigAlgByPkey os pkey = None then (quic, Inl Fail)
          else bindS (quic, RPacketGet2 pkt) (\<lambda>quic (sigalg, pkt1).
          bindS (on_tls quic (TlsCheckPeerSigAlg (q_tls quic) (ucast sigalg))) (\<lambda>quic1 _.
          case TlsLookupMd os (tl_peer_sigalg (q_tls quic1)) of
            None \<Rightarrow> (quic1, Inl Fail)
          | Some md \<Rightarrow>
              bindS (quic1, RPacketGet2 pkt1) (\<lambda>quic1 (len, pkt2).
                if os_pkey_size os pkey \<noteq> len then (quic1, Inl Fail)
                else bindS (quic1, RPacketGetBytes pkt2 (ucast len)) (\<lambda>quic1 (p, _).
                bindS (quic1, mem_slice (rp_buf pkt2) p (unat len)) (\<lambda>quic1 data.
                bindS (quic1, TlsDoCertVerify os (q_tls quic1) data pkey md) (\<lambda>quic1 _.
                  (quic1, Inr QUIC_FLOW_RET_FINISH))))))))"

definition TlsClientFinishedProc :: "env \<Rightarrow> 'c ossl \<Rightarrow> 'c Quic \<Rightarrow> RPacket \<Rightarrow> 'c Quic \<times> QuicFlowReturn res" where
  "TlsClientFinishedProc e os quic pkt =
     bindS (quic, TlsFinishedCheck (q_tls quic) pkt) (\<lambda>quic _.
     bindS (on_tls quic (TlsGenerateMasterSecret e os (q_tls quic))) (\<lambda>quic1 _.
     bindS (QuicCreateAppDataServerDecoders e os quic1) (\<lambda>quic2 _.
     bindS (QuicCreateHandshakeClientEncoders e os quic2) (\<lambda>quic3 _. (quic3, Inr QUIC_FLOW_RET_FINISH)))))"

text \<open>The ticket is in the queue of the session before it has its key.\<close>

definition new_ticket :: "env \<Rightarrow> 'c ossl \<Rightarrow> 'c Quic \<Rightarrow> RPacket \<Rightarrow> QuicSessionTicket \<Rightarrow> RPacket \<Rightarrow> 'c Quic \<times> unit res" where
  "new_ticket e os quic pkt t nonce =
     (case q_session quic of
        None \<Rightarrow> (quic, Inl Null_ptr)
      | Some sess \<Rightarrow>
          bindS (TlsClntParseExtensions e os TLSEXT_NEW_SESSION_TICKET
                   (quic\<lparr>q_session := Some (QuicSessionTicketAdd sess t)\<rparr>) pkt) (\<lambda>quic1 _.
          bindS (quic1, QuicSessionMasterKeyGen e os (q_tls quic1) t nonce) (\<lambda>quic1 t1.
            (quic1\<lparr>q_session := map_option (\<lambda>ss. ss\<lparr>ss_ticket_queue := butlast (ss_ticket_queue ss) @ [t1]\<rparr>) (q_session quic1)\<rparr>,
             Inr ()))))"

definition TlsClntNewSessionTicketProc :: "env \<Rightarrow> 'c ossl \<Rightarrow> 'c Quic \<Rightarrow> RPacket \<Rightarrow> 'c Quic \<times> QuicFlowReturn res" where
  "TlsClntNewSessionTicketProc e os quic pkt =
     bindS (quic, RPacketGet4 pkt) (\<lambda>quic (ticket_lifetime_hint, pkt1).
     bindS (quic, RPacketGet4 pkt1) (\<lambda>quic (age_add, pkt2).
     bindS (quic, RPacketGetLengthPrefixed1 pkt2) (\<lambda>quic (nonce, pkt3).
     bindS (quic, RPacketGet2 pkt3) (\<lambda>quic (ticket_len, pkt4).
       if ticket_len = 0 then (quic, Inr QUIC_FLOW_RET_FINISH)
       else bindS (quic, RPacketGetBytes pkt4 (ucast ticket_len)) (\<lambda>quic (ticket, pkt5).
       bindS (quic, QuicSessionTicketNew e ticket_lifetime_hint age_add (ptr_at pkt4 ticket) (ucast ticket_len)) (\<lambda>quic t.
       bindS (new_ticket e os quic pkt5 t nonce) (\<lambda>quic1 _. (quic1, Inr QUIC_FLOW_RET_FINISH))))))))"

section \<open>The table\<close>

definition TlsClientEncExtPostWork :: "env \<Rightarrow> 'c Quic \<Rightarrow> 'c Quic \<times> unit res" where
  "TlsClientEncExtPostWork e quic = QuicStreamInit e quic"

definition TlsClientFinishedPostWork :: "env \<Rightarrow> 'c ossl \<Rightarrow> 'c Quic \<Rightarrow> 'c Quic \<times> unit res" where
  "TlsClientFinishedPostWork e os quic = QuicCreateAppDataClientEncoders e os quic"

definition TlsClientSkipCheckCertRequest :: "'c Quic \<Rightarrow> unit res" where
  "TlsClientSkipCheckCertRequest quic = Inr ()"

definition TlsClientSkipCheckServerCert :: "'c Quic \<Rightarrow> unit res" where
  "TlsClientSkipCheckServerCert quic = guardR (tl_hit (q_tls quic))"

definition TlsClientSkipCheckCertVerify :: "'c Quic \<Rightarrow> unit res" where
  "TlsClientSkipCheckCertVerify quic = guardR (tl_hit (q_tls quic))"

definition client_read :: "TlsState \<Rightarrow> u32 \<Rightarrow> ('c Quic \<Rightarrow> RPacket \<Rightarrow> 'c Quic \<times> QuicFlowReturn res) \<Rightarrow> 'c TlsProcess" where
  "client_read next_st msg_type f =
     no_process\<lparr>tp_flow_state := QUIC_FLOW_READING, tp_next_state := next_st, tp_msg_type := msg_type,
       tp_handler := Some (Read_handler f), tp_pkt_type := QUIC_PKT_TYPE_INITIAL\<rparr>"

definition client_write ::
    "TlsState \<Rightarrow> u32 \<Rightarrow> ('c Quic \<Rightarrow> WPacket \<Rightarrow> ('c Quic \<times> WPacket) \<times> QuicFlowReturn res) \<Rightarrow> 'c TlsProcess" where
  "client_write next_st msg_type f =
     no_process\<lparr>tp_flow_state := QUIC_FLOW_WRITING, tp_next_state := next_st, tp_msg_type := msg_type,
       tp_handler := Some (Write_handler f), tp_pkt_type := QUIC_PKT_TYPE_INITIAL\<rparr>"

fun client_proc :: "env \<Rightarrow> 'c ossl \<Rightarrow> 'c tls_table" where
  "client_proc e os TLS_ST_OK = no_process\<lparr>tp_next_state := TLS_ST_CW_CLIENT_HELLO\<rparr>"
| "client_proc e os TLS_ST_CW_CLIENT_HELLO =
     client_write TLS_ST_CR_SERVER_HELLO TLS_MT_CLIENT_HELLO (TlsClientHelloBuild e os)"
| "client_proc e os TLS_ST_CR_SERVER_HELLO =
     client_read TLS_ST_CR_ENCRYPTED_EXTENSIONS TLS_MT_SERVER_HELLO (TlsServerHelloProc e os)"
| "client_proc e os TLS_ST_CR_ENCRYPTED_EXTENSIONS =
     (client_read TLS_ST_CR_CERT_REQUEST TLS_MT_ENCRYPTED_EXTENSIONS (TlsEncExtProc e os))
       \<lparr>tp_post_work := Some (TlsClientEncExtPostWork e)\<rparr>"
| "client_proc e os TLS_ST_CR_CERT_REQUEST =
     (client_read TLS_ST_CR_SERVER_CERTIFICATE TLS_MT_CERTIFICATE_REQUEST TlsCertRequestProc)
       \<lparr>tp_skip_check := Some TlsClientSkipCheckCertRequest\<rparr>"
| "client_proc e os TLS_ST_CR_SERVER_CERTIFICATE =
     (client_read TLS_ST_CR_CERT_VERIFY TLS_MT_CERTIFICATE (TlsServerCertProc e os))
       \<lparr>tp_skip_check := Some TlsClientSkipCheckServerCert\<rparr>"
| "client_proc e os TLS_ST_CR_CERT_VERIFY =
     (client_read TLS_ST_CR_FINISHED TLS_MT_CERTIFICATE_VERIFY (TlsCertVerifyProc os))
       \<lparr>tp_skip_check := Some TlsClientSkipCheckCertVerify\<rparr>"
| "client_proc e os TLS_ST_CR_FINISHED =
     client_read TLS_ST_CW_FINISHED TLS_MT_FINISHED (TlsClientFinishedProc e os)"
| "client_proc e os TLS_ST_CW_CLIENT_CERTIFICATE =
     client_write TLS_ST_CW_CERT_VERIFY TLS_MT_CERTIFICATE TlsClntCertBuild"
| "client_proc e os TLS_ST_CW_CERT_VERIFY =
     client_write TLS_ST_CW_FINISHED TLS_MT_CERTIFICATE_VERIFY TlsClntCertVerifyBuild"
| "client_proc e os TLS_ST_CW_FINISHED =
     (client_write TLS_ST_CR_NEW_SESSION_TICKET TLS_MT_FINISHED (TlsClntFinishedBuild e os))
       \<lparr>tp_post_work := Some (TlsClientFinishedPostWork e os), tp_pkt_type := QUIC_PKT_TYPE_HANDSHAKE\<rparr>"
| "client_proc e os TLS_ST_CR_NEW_SESSION_TICKET =
     (client_read TLS_ST_CR_NEW_SESSION_TICKET TLS_MT_NEW_SESSION_TICKET (TlsClntNewSessionTicketProc e os))
       \<lparr>tp_pkt_type := QUIC_PKT_TYPE_1RTT\<rparr>"
| "client_proc e os TLS_ST_HANDSHAKE_DONE =
     no_process\<lparr>tp_flow_state := QUIC_FLOW_FINISHED, tp_next_state := TLS_ST_HANDSHAKE_DONE\<rparr>"
| "client_proc e os _ = no_process"

definition TlsConnect :: "env \<Rightarrow> 'c ossl \<Rightarrow> 'c Quic \<Rightarrow> ('c Quic \<times> QuicFlowReturn res) option" where
  "TlsConnect e os quic = TlsHandshake e os (client_proc e os) quic"

end
