(* ===== verification/Tls_Srvr.thy ===== *)
theory Tls_Srvr
  imports Tls_Clnt
begin

text \<open>The server's handshake (\<^verbatim>\<open>quic/tls/tls_srvr.c\<close>): what it makes of the client's messages, its own, and its table.\<close>

section \<open>Messages of the client\<close>

text \<open>The first cipher of the server that the client has too; the entry is that of the client's list.\<close>

fun shared_cipher :: "TlsCipher list \<Rightarrow> TlsCipher list \<Rightarrow> TlsCipher option" where
  "shared_cipher [] cipher_list = None"
| "shared_cipher (c # cs) cipher_list =
     (case TlsCipherMatchListById cipher_list (tc_id c) of
        None \<Rightarrow> shared_cipher cs cipher_list
      | Some cipher \<Rightarrow> Some cipher)"

definition TlsClientHelloProc :: "env \<Rightarrow> 'c ossl \<Rightarrow> 'c Quic \<Rightarrow> RPacket \<Rightarrow> 'c Quic \<times> QuicFlowReturn res" where
  "TlsClientHelloProc e os quic pkt =
     (let s = q_tls quic;
          (d, r) = TlsHelloHeadParse pkt (tl_client_random s) (of_nat TLS_RANDOM_BYTE_LEN) in
      bindS (quic\<lparr>q_tls := s\<lparr>tl_client_random := d\<rparr>\<rparr>, r) (\<lambda>quic1 pkt1.
      bindS (quic1, RPacketGet2 pkt1) (\<lambda>quic1 (cipher_len, pkt2).
      if cipher_len AND 1 \<noteq> 0 then (quic1, Inl Fail)
      else if RPacketRemaining pkt2 < ucast cipher_len then (quic1, Inl Fail)
      else bindS (quic1, TlsParseCipherList e pkt2 (ucast cipher_len)) (\<lambda>quic1 (cipher_list, pkt3).
        case shared_cipher (tl_cipher_list (q_tls quic1)) cipher_list of
          None \<Rightarrow> (quic1, Inl Fail)
        | Some cipher \<Rightarrow>
            let quic2 = quic1\<lparr>q_tls := (q_tls quic1)\<lparr>tl_handshake_cipher := Some cipher\<rparr>\<rparr> in
            bindS (quic2, RPacketGet1 pkt3) (\<lambda>quic2 (compress_len, pkt4).
            bindS (quic2, RPacketPull pkt4 (ucast compress_len)) (\<lambda>quic2 pkt5.
            bindS (TlsSrvrParseExtensions e os TLSEXT_CLIENT_HELLO quic2 pkt5) (\<lambda>quic3 pkt6.
            bindS (TlsDigestCachedRecords os
                     (quic3\<lparr>q_tls := (q_tls quic3)\<lparr>tl_handshake_msg_len := RPacketTotalLen pkt6\<rparr>\<rparr>)) (\<lambda>quic4 _.
            bindS (QuicGetSession e (quic4\<lparr>q_tls := (q_tls quic4)\<lparr>tl_handshake_msg_len := 0\<rparr>\<rparr>)) (\<lambda>quic5 _.
              (quic5, Inr QUIC_FLOW_RET_FINISH))))))))))"

definition TlsSrvrCertProc :: "'c Quic \<Rightarrow> RPacket \<Rightarrow> 'c Quic \<times> QuicFlowReturn res" where
  "TlsSrvrCertProc quic pkt = (quic, Inr QUIC_FLOW_RET_FINISH)"

definition TlsSrvrCertVerifyProc :: "'c Quic \<Rightarrow> RPacket \<Rightarrow> 'c Quic \<times> QuicFlowReturn res" where
  "TlsSrvrCertVerifyProc quic pkt = (quic, Inr QUIC_FLOW_RET_FINISH)"

definition TlsSrvrFinishedProc :: "env \<Rightarrow> 'c ossl \<Rightarrow> 'c Quic \<Rightarrow> RPacket \<Rightarrow> 'c Quic \<times> QuicFlowReturn res" where
  "TlsSrvrFinishedProc e os quic pkt =
     bindS (quic, TlsFinishedCheck (q_tls quic) pkt) (\<lambda>quic _.
     bindS (QuicCreateAppDataClientDecoders e os quic) (\<lambda>quic1 _. (quic1, Inr QUIC_FLOW_RET_FINISH)))"

section \<open>Messages of the server\<close>

definition TlsServerHelloBuild :: "env \<Rightarrow> 'c ossl \<Rightarrow> 'c Quic \<Rightarrow> WPacket \<Rightarrow> ('c Quic \<times> WPacket) \<times> QuicFlowReturn res" where
  "TlsServerHelloBuild e os quic pkt =
     bindS (on_wpkt quic (WPacketPut2 e pkt TLS_VERSION_1_2)) (\<lambda>(quic1, pkt1) _.
     let s = q_tls quic1;
         ((d, pkt2), r) = TlsGenRandom e (tl_draws s) (tl_server_random s) pkt1;
         quic2 = quic1\<lparr>q_tls := s\<lparr>tl_server_random := d, tl_draws := Suc (tl_draws s)\<rparr>\<rparr> in
     bindS ((quic2, pkt2), r) (\<lambda>(quic2, pkt2) _.
     bindS (on_wpkt quic2 (WPacketPut1 e pkt2 0)) (\<lambda>(quic3, pkt3) _.
     case tl_handshake_cipher (q_tls quic3) of
       None \<Rightarrow> ((quic3, pkt3), Inl Abort)
     | Some cipher \<Rightarrow>
         bindS (on_wpkt quic3
           (bindS (WPacketPut2 e pkt3 (ucast (tc_id cipher))) (\<lambda>pkt4 _. WPacketPut1 e pkt4 0))) (\<lambda>(quic4, pkt5) _.
         bindS (TlsSrvrConstructExtensions e os TLSEXT_SERVER_HELLO quic4 pkt5) (\<lambda>s1 _.
           (s1, Inr QUIC_FLOW_RET_NEXT))))))"

definition TlsSrvrEncryptedExtBuild :: "env \<Rightarrow> 'c ossl \<Rightarrow> 'c Quic \<Rightarrow> WPacket \<Rightarrow> ('c Quic \<times> WPacket) \<times> QuicFlowReturn res" where
  "TlsSrvrEncryptedExtBuild e os quic pkt =
     bindS (TlsSrvrConstructExtensions e os TLSEXT_ENCRYPTED_EXT quic pkt) (\<lambda>(quic1, pkt1) _.
       ((if tl_hit (q_tls quic1) then set_state TLS_ST_SW_FINISHED quic1 else quic1, pkt1), Inr QUIC_FLOW_RET_FINISH))"

definition TlsSrvrCertRequestBuild :: "'c Quic \<Rightarrow> WPacket \<Rightarrow> ('c Quic \<times> WPacket) \<times> QuicFlowReturn res" where
  "TlsSrvrCertRequestBuild quic pkt = ((quic, pkt), Inr QUIC_FLOW_RET_FINISH)"

definition TlsSrvrServerCertBuild :: "env \<Rightarrow> 'c ossl \<Rightarrow> 'c Quic \<Rightarrow> WPacket \<Rightarrow> ('c Quic \<times> WPacket) \<times> QuicFlowReturn res" where
  "TlsSrvrServerCertBuild e os quic pkt =
     bindS (on_wpkt quic (WPacketPut1 e pkt 0)) (\<lambda>(quic1, pkt1) _.
       TlsCertChainBuild e os quic1 pkt1 (map_option ((!) (ce_pkeys (tl_cert (q_tls quic1)))) (tl_tmp_cert (q_tls quic1)))
         (TlsSrvrConstructExtensions e os))"

definition TlsSrvrCertVerifyBuild :: "env \<Rightarrow> 'c ossl \<Rightarrow> 'c Quic \<Rightarrow> WPacket \<Rightarrow> ('c Quic \<times> WPacket) \<times> QuicFlowReturn res" where
  "TlsSrvrCertVerifyBuild e os quic pkt = TlsCertVerifyBuild e os quic pkt"

definition TlsSrvrFinishedBuild :: "env \<Rightarrow> 'c ossl \<Rightarrow> 'c Quic \<Rightarrow> WPacket \<Rightarrow> ('c Quic \<times> WPacket) \<times> QuicFlowReturn res" where
  "TlsSrvrFinishedBuild e os quic pkt = bindS (TlsFinishedBuild e os quic pkt) (\<lambda>s _. (s, Inr QUIC_FLOW_RET_NEXT))"

section \<open>Session tickets\<close>

definition EVP_MAX_BLOCK_LENGTH :: nat where "EVP_MAX_BLOCK_LENGTH = 32"
definition QUIC_SESSION_TICKET_LEN :: nat where "QUIC_SESSION_TICKET_LEN = 64"
definition TICKET_NONCE_SIZE :: nat where "TICKET_NONCE_SIZE = 8"
definition TLS_NEW_SESS_TICKET_NUM :: u64 where "TLS_NEW_SESS_TICKET_NUM = 2"

text \<open>A draw of random bytes.\<close>

definition tls_draw :: "env \<Rightarrow> 'c Quic \<Rightarrow> nat \<Rightarrow> 'c Quic \<times> bytes res" where
  "tls_draw e quic n =
     (let s = q_tls quic in (quic\<lparr>q_tls := s\<lparr>tl_draws := Suc (tl_draws s)\<rparr>\<rparr>, someR (env_rand e (tl_draws s) n)))"

text \<open>The session, encrypted in place and closed with a MAC. The room for what is encrypted is reserved before it is known how long it
  is; a pointer that is not the reserved one is an error.\<close>

definition ticket_encrypt :: "env \<Rightarrow> 'c ossl \<Rightarrow> TlsTicketKey \<Rightarrow> bytes \<Rightarrow> bytes \<Rightarrow> WPacket \<Rightarrow> WPacket \<times> unit res" where
  "ticket_encrypt e os tk iv senc pkt =
     bindS (WPacketReserveBytes e pkt (of_nat (length senc + EVP_MAX_BLOCK_LENGTH))) (\<lambda>pkt1 encdata1.
     bindS (pkt1, someR (os_cbc_enc os (tk_aes_key tk) iv senc)) (\<lambda>pkt1 (upd, fin).
     bindS (wp_store pkt1 encdata1 upd) (\<lambda>pkt2 _.
     bindS (WPacketAllocateBytes e pkt2 (of_nat (length upd))) (\<lambda>pkt3 encdata2.
       if encdata1 \<noteq> encdata2 then (pkt3, Inl Fail)
       else let p = (fst encdata1, snd encdata1 + int (length upd)) in
         bindS (wp_store pkt3 p fin) (\<lambda>pkt4 _.
         bindS (WPacketAllocateBytes e pkt4 (of_nat (length fin))) (\<lambda>pkt5 encdata3.
           if p \<noteq> encdata3 then (pkt5, Inl Fail)
           else if length upd + length fin > length senc + EVP_MAX_BLOCK_LENGTH then (pkt5, Inl Fail)
           else (pkt5, Inr ())))))))"

definition ticket_mac :: "env \<Rightarrow> 'c ossl \<Rightarrow> TlsTicketKey \<Rightarrow> u64 \<Rightarrow> WPacket \<Rightarrow> WPacket \<times> unit res" where
  "ticket_mac e os tk macoffset pkt =
     (let tkhead = WPacket_get_data pkt macoffset; macendoffset = WPacket_get_written pkt in
      if \<not> QUIC_GT macendoffset macoffset then (pkt, Inl Abort)
      else bindS (pkt, wp_load pkt tkhead (unat (macendoffset - macoffset))) (\<lambda>pkt d.
           bindS (WPacketReserveBytes e pkt (of_nat EVP_MAX_MD_SIZE)) (\<lambda>pkt1 macdata1.
           bindS (pkt1, someR (md_hmac (os_sha256 os) (tk_hmac_key tk) d)) (\<lambda>pkt1 mac.
           bindS (wp_store pkt1 macdata1 mac) (\<lambda>pkt2 _.
             if length mac > EVP_MAX_MD_SIZE then (pkt2, Inl Fail)
             else bindS (WPacketAllocateBytes e pkt2 (of_nat (length mac))) (\<lambda>pkt3 macdata2.
               if macdata1 \<noteq> macdata2 then (pkt3, Inl Fail) else WPacketClose pkt3))))))"

definition TlsConstructStatelessTicket ::
    "env \<Rightarrow> 'c ossl \<Rightarrow> 'c Quic \<Rightarrow> QUIC_SESSION \<Rightarrow> WPacket \<Rightarrow> RPacket \<Rightarrow> ('c Quic \<times> WPacket) \<times> unit res" where
  "TlsConstructStatelessTicket e os quic sess pkt tick_nonce =
     (let tk = tl_ticket_key (q_tls quic) in
      case QuicSessionTicketPickTail sess of
        None \<Rightarrow> ((quic, pkt), Inl Fail)
      | Some t \<Rightarrow>
          bindS ((quic, pkt), i2dQuicSession os sess) (\<lambda>(quic, pkt) senc.
            if senc = [] \<or> \<not> env_alloc e (length senc) then ((quic, pkt), Inl Fail)
            else case tls_draw e quic (os_iv_len os) of
              (quic1, Inl err) \<Rightarrow> ((quic1, pkt), Inl err)
            | (quic1, Inr iv) \<Rightarrow>
                on_wpkt quic1
                  (bindS (WPacketPut4 e pkt (ucast (qt_lifetime_hint t))) (\<lambda>pkt1 _.
                   bindS (WPacketPut4 e pkt1 (qt_age_add t)) (\<lambda>pkt2 _.
                   bindS (pkt2, mem_slice (rp_buf tick_nonce) (RPacketData tick_nonce) (unat (RPacketRemaining tick_nonce))) (\<lambda>pkt2 nonce.
                   bindS (WPacketSubMemcpyU8 e pkt2 (Some nonce)) (\<lambda>pkt3 _.
                   bindS (WPacketStartSubU16 e pkt3) (\<lambda>pkt4 _.
                   let macoffset = WPacket_get_written pkt4 in
                   bindS (WPacketMemcpy e pkt4 (Some (tk_key_name tk))) (\<lambda>pkt5 _.
                   bindS (WPacketMemcpy e pkt5 (Some iv)) (\<lambda>pkt6 _.
                   bindS (ticket_encrypt e os tk iv senc pkt6) (\<lambda>pkt7 _.
                     ticket_mac e os tk macoffset pkt7)))))))))))"

text \<open>A new ticket joins the session and is sent; the message counts when all of it was built.\<close>

definition ticket_nonce :: "u64 \<Rightarrow> bytes" where
  "ticket_nonce nonce = map (\<lambda>i. ucast (drop_bit (8 * (TICKET_NONCE_SIZE - Suc i)) nonce)) [0..<TICKET_NONCE_SIZE]"

definition send_ticket ::
    "env \<Rightarrow> 'c ossl \<Rightarrow> 'c Quic \<Rightarrow> QUIC_SESSION \<Rightarrow> QuicSessionTicket \<Rightarrow> WPacket \<Rightarrow> ('c Quic \<times> WPacket) \<times> unit res" where
  "send_ticket e os quic sess t pkt =
     (let tnonce = RPacketBufInit (ticket_nonce (tl_next_ticket_nonce (q_tls quic))) 0 (of_nat TICKET_NONCE_SIZE) in
      bindS ((quic, pkt), QuicSessionMasterKeyGen e os (q_tls quic) t tnonce) (\<lambda>(quic, pkt) t1.
      let sess1 = QuicSessionTicketAdd sess t1; quic1 = quic\<lparr>q_session := Some sess1\<rparr> in
      bindS (TlsConstructStatelessTicket e os quic1 sess1 pkt tnonce) (\<lambda>(quic2, pkt2) _.
      bindS (TlsSrvrConstructExtensions e os TLSEXT_NEW_SESSION_TICKET quic2 pkt2) (\<lambda>(quic3, pkt3) _.
        ((quic3\<lparr>q_tls := (q_tls quic3)\<lparr>tl_next_ticket_nonce := tl_next_ticket_nonce (q_tls quic3) + 1\<rparr>\<rparr>, pkt3), Inr ())))))"

definition tickets_done :: "('c Quic \<times> WPacket) \<times> unit res \<Rightarrow> ('c Quic \<times> WPacket) \<times> QuicFlowReturn res" where
  "tickets_done x =
     (case x of ((quic, pkt), r) \<Rightarrow>
        ((if tl_next_ticket_nonce (q_tls quic) \<ge> TLS_NEW_SESS_TICKET_NUM then set_state TLS_ST_SW_HANDSHAKE_DONE quic else quic, pkt),
         bindR r (\<lambda>_. Inr QUIC_FLOW_RET_FINISH)))"

definition TlsSrvrNewSessionTicketBuild :: "env \<Rightarrow> 'c ossl \<Rightarrow> 'c Quic \<Rightarrow> WPacket \<Rightarrow> ('c Quic \<times> WPacket) \<times> QuicFlowReturn res" where
  "TlsSrvrNewSessionTicketBuild e os quic pkt =
     (case q_session quic of
        None \<Rightarrow> tickets_done ((quic, pkt), Inl Fail)
      | Some sess \<Rightarrow>
          (case bindS (tls_draw e quic 4) (\<lambda>quic1 a.
                bindS (tls_draw e quic1 QUIC_SESSION_TICKET_LEN) (\<lambda>quic2 ticket.
                bindS (quic2, QuicSessionTicketNew e (tl_lifetime_hint (q_tls quic2)) (word_rcat (rev a)) (Some ticket)
                               (of_nat QUIC_SESSION_TICKET_LEN)) (\<lambda>quic2 t. (quic2, Inr t)))) of
             (quic2, Inl err) \<Rightarrow> ((quic2, pkt), Inl err)
           | (quic2, Inr t) \<Rightarrow> tickets_done (send_ticket e os quic2 sess t pkt)))"

section \<open>The table\<close>

definition TlsSrvrServerHelloPostWork :: "env \<Rightarrow> 'c ossl \<Rightarrow> 'c Quic \<Rightarrow> 'c Quic \<times> unit res" where
  "TlsSrvrServerHelloPostWork e os quic = QuicCreateHandshakeServerEncoders e os quic"

definition TlsEarlyPostProcessClientHello :: "env \<Rightarrow> 'c Quic \<Rightarrow> 'c Quic \<times> unit res" where
  "TlsEarlyPostProcessClientHello e quic = on_tls quic (TlsSetServerSigAlgs e (q_tls quic))"

definition TlsSrvrClientHelloPostWork :: "env \<Rightarrow> 'c ossl \<Rightarrow> 'c Quic \<Rightarrow> 'c Quic \<times> unit res" where
  "TlsSrvrClientHelloPostWork e os quic =
     bindS (TlsEarlyPostProcessClientHello e quic) (\<lambda>quic1 _.
     bindS (on_tls quic1 (TlsChooseSigalg os (q_tls quic1))) (\<lambda>quic2 _. QuicStreamInit e quic2))"

definition TlsServerWriteFinishedPostWork :: "env \<Rightarrow> 'c ossl \<Rightarrow> 'c Quic \<Rightarrow> 'c Quic \<times> unit res" where
  "TlsServerWriteFinishedPostWork e os quic =
     bindS (on_tls quic (TlsGenerateMasterSecret e os (q_tls quic))) (\<lambda>quic1 _.
     bindS (QuicCreateHandshakeClientDecoders e os quic1) (\<lambda>quic2 _. QuicCreateAppDataServerEncoders e os quic2))"

definition TlsServerReadFinishedPostWork :: "'c Quic \<Rightarrow> 'c Quic \<times> unit res" where
  "TlsServerReadFinishedPostWork quic = (quic, Inr ())"

definition server_read :: "TlsState \<Rightarrow> u32 \<Rightarrow> ('c Quic \<Rightarrow> RPacket \<Rightarrow> 'c Quic \<times> QuicFlowReturn res) \<Rightarrow> 'c TlsProcess" where
  "server_read next_st msg_type f = (client_read next_st msg_type f)\<lparr>tp_pkt_type := QUIC_PKT_TYPE_HANDSHAKE\<rparr>"

definition server_write ::
    "TlsState \<Rightarrow> u32 \<Rightarrow> ('c Quic \<Rightarrow> WPacket \<Rightarrow> ('c Quic \<times> WPacket) \<times> QuicFlowReturn res) \<Rightarrow> 'c TlsProcess" where
  "server_write next_st msg_type f = (client_write next_st msg_type f)\<lparr>tp_pkt_type := QUIC_PKT_TYPE_HANDSHAKE\<rparr>"

fun server_proc :: "env \<Rightarrow> 'c ossl \<Rightarrow> 'c tls_table" where
  "server_proc e os TLS_ST_OK = no_process\<lparr>tp_next_state := TLS_ST_SR_CLIENT_HELLO\<rparr>"
| "server_proc e os TLS_ST_SR_CLIENT_HELLO =
     (server_read TLS_ST_SW_SERVER_HELLO TLS_MT_CLIENT_HELLO (TlsClientHelloProc e os))
       \<lparr>tp_post_work := Some (TlsSrvrClientHelloPostWork e os), tp_pkt_type := QUIC_PKT_TYPE_INITIAL\<rparr>"
| "server_proc e os TLS_ST_SW_SERVER_HELLO =
     (server_write TLS_ST_SW_ENCRYPTED_EXTENSIONS TLS_MT_SERVER_HELLO (TlsServerHelloBuild e os))
       \<lparr>tp_post_work := Some (TlsSrvrServerHelloPostWork e os), tp_pkt_type := QUIC_PKT_TYPE_INITIAL\<rparr>"
| "server_proc e os TLS_ST_SW_ENCRYPTED_EXTENSIONS =
     server_write TLS_ST_SW_SERVER_CERTIFICATE TLS_MT_ENCRYPTED_EXTENSIONS (TlsSrvrEncryptedExtBuild e os)"
| "server_proc e os TLS_ST_SW_CERT_REQUEST =
     server_write TLS_ST_SW_SERVER_CERTIFICATE TLS_MT_CERTIFICATE_REQUEST TlsSrvrCertRequestBuild"
| "server_proc e os TLS_ST_SW_SERVER_CERTIFICATE =
     server_write TLS_ST_SW_CERT_VERIFY TLS_MT_CERTIFICATE (TlsSrvrServerCertBuild e os)"
| "server_proc e os TLS_ST_SW_CERT_VERIFY =
     server_write TLS_ST_SW_FINISHED TLS_MT_CERTIFICATE_VERIFY (TlsSrvrCertVerifyBuild e os)"
| "server_proc e os TLS_ST_SW_FINISHED =
     (server_write TLS_ST_SR_FINISHED TLS_MT_FINISHED (TlsSrvrFinishedBuild e os))
       \<lparr>tp_post_work := Some (TlsServerWriteFinishedPostWork e os)\<rparr>"
| "server_proc e os TLS_ST_SR_CLIENT_CERTIFICATE = server_read TLS_ST_SR_CERT_VERIFY TLS_MT_CERTIFICATE TlsSrvrCertProc"
| "server_proc e os TLS_ST_SR_CERT_VERIFY = server_read TLS_ST_SR_FINISHED TLS_MT_CERTIFICATE_VERIFY TlsSrvrCertVerifyProc"
| "server_proc e os TLS_ST_SR_FINISHED =
     (server_read TLS_ST_SW_NEW_SESSION_TICKET TLS_MT_FINISHED (TlsSrvrFinishedProc e os))
       \<lparr>tp_post_work := Some TlsServerReadFinishedPostWork\<rparr>"
| "server_proc e os TLS_ST_SW_NEW_SESSION_TICKET =
     (server_write TLS_ST_SW_NEW_SESSION_TICKET TLS_MT_NEW_SESSION_TICKET (TlsSrvrNewSessionTicketBuild e os))
       \<lparr>tp_pkt_type := QUIC_PKT_TYPE_1RTT\<rparr>"
| "server_proc e os TLS_ST_SW_HANDSHAKE_DONE =
     no_process\<lparr>tp_flow_state := QUIC_FLOW_FINISHED, tp_next_state := TLS_ST_HANDSHAKE_DONE\<rparr>"
| "server_proc e os TLS_ST_HANDSHAKE_DONE =
     no_process\<lparr>tp_flow_state := QUIC_FLOW_FINISHED, tp_next_state := TLS_ST_HANDSHAKE_DONE\<rparr>"
| "server_proc e os _ = no_process"

definition TlsAccept :: "env \<Rightarrow> 'c ossl \<Rightarrow> 'c Quic \<Rightarrow> ('c Quic \<times> QuicFlowReturn res) option" where
  "TlsAccept e os quic = TlsHandshake e os (server_proc e os) quic"

text \<open>The engine of a connection, as the frame loop and the driver use it.\<close>

definition TlsDoHandshake :: "env \<Rightarrow> 'c ossl \<Rightarrow> 'c Quic \<Rightarrow> ('c Quic \<times> QuicFlowReturn res) option" where
  "TlsDoHandshake e os quic = (if q_server quic then TlsAccept e os quic else TlsConnect e os quic)"

end
