(* ===== verification/Tls_Term.thy ===== *)
theory Tls_Term
  imports Tls_Srvr
begin

text \<open>
  The engine always returns: the loop over the messages ends on both sides, and so does the cutting of what was written into
  CRYPTO frames. A message that is read makes the buffer shorter, and the states that write or do nothing come
  one after the other until one of them ends the run.
\<close>

section \<open>CRYPTO frames\<close>

text \<open>The bytes of a frame are not more than what is left, as far as the 32 bits tell that the code compares.\<close>

lemma sint_add_mixed:
  fixes a b :: u32
  assumes "sint a < 0" and "0 < sint b"
  shows "sint (a + b) = sint a + sint b"
proof -
  have "sint (a + b) = signed_take_bit 31 (sint a + sint b)"
    by (simp add: sint_word_ariths)
  moreover have "- (2 ^ 31) \<le> sint a" "sint b < 2 ^ 31" using sint_ge[of a] sint_lt[of b] by simp_all
  ultimately show ?thesis using assms by (simp add: signed_take_bit_int_eq_self)
qed

lemma ucast_diff32: "(ucast (a - b :: u64) :: u32) = ucast a - ucast b"
proof (rule word_uint_eqI)
  have "uint (ucast (a - b) :: u32) = (uint a - uint b) mod 2 ^ 64 mod 2 ^ 32"
    by (simp add: unsigned_ucast_eq take_bit_eq_mod uint_word_ariths)
  also have "\<dots> = (uint a - uint b) mod 2 ^ 32" by (simp add: mod_mod_cancel)
  also have "\<dots> = uint (ucast a - ucast b :: u32)"
    by (simp add: unsigned_ucast_eq take_bit_eq_mod uint_word_ariths mod_diff_eq)
  finally show "uint (ucast (a - b) :: u32) = uint (ucast a - ucast b :: u32)" .
qed

lemma ucast_add32: "(ucast (a + b :: u64) :: u32) = ucast a + ucast b"
  using ucast_diff32[of "a + b" b] by (simp add: algebra_simps)

lemma var_copy_progress:
  assumes "QuicWPacketSubMemcpyVar e pkt src len = (pkt', Inr wlen)"
  shows "wlen = ucast len \<or> sint (wlen - ucast len) < 0"
proof -
  have "\<exists>w. wlen = ucast (scast (WPacket_get_space pkt) - of_nat w :: u64) \<and>
      QUIC_LT (scast (WPacket_get_space pkt)) (len + of_nat w) \<or> wlen = ucast len"
    using assms
    by (auto simp: QuicWPacketSubMemcpyVar_def Let_def bindS_eq_Inr bindR_eq_Inr split: sum.split_asm if_split_asm prod.split_asm)
  then show ?thesis
  proof (elim exE disjE conjE)
    fix w assume w: "wlen = ucast (scast (WPacket_get_space pkt) - of_nat w :: u64)"
      and lt: "QUIC_LT (scast (WPacket_get_space pkt)) (len + of_nat w)"
    have "wlen - ucast len = ucast (scast (WPacket_get_space pkt) - (len + of_nat w) :: u64)"
      unfolding w by (simp add: ucast_diff32 ucast_add32 algebra_simps)
    with lt show ?thesis by (simp add: QUIC_LT_def quic_diff_def)
  qed auto
qed

lemma ucast_scast32: "ucast (scast (w :: u32) :: u64) = w"
proof (rule word_uint_eqI)
  have "uint (ucast (scast w :: u64) :: u32) = sint w mod 2 ^ 64 mod 2 ^ 32"
    by (simp only: unsigned_ucast_eq scast_eq uint_word_of_int take_bit_eq_mod len_bit0 len_num1) simp
  also have "\<dots> = sint w mod 2 ^ 32" by (simp add: mod_mod_cancel)
  also have "\<dots> = uint (word_of_int (sint w) :: u32)" unfolding uint_word_of_int by simp
  also have "\<dots> = uint w" by (simp only: of_int_sint scast_id)
  finally show "uint (ucast (scast w :: u64) :: u32) = uint w" .
qed

lemma crypto_build_len:
  assumes "QuicFrameCryptoBuild e pkt offset data len = (pkt', Inr wlen)"
  shows "wlen = ucast len \<or> sint (wlen - ucast len) < 0"
  using assms by (auto simp: QuicFrameCryptoBuild_def bindS_eq_Inr dest: var_copy_progress)

lemma crypto_progress:
  fixes offset len :: u64 and wlen :: u32
  assumes "QUIC_LT offset len" and "0 < sint wlen"
    and "wlen = ucast (len - offset) \<or> sint (wlen - ucast (len - offset)) < 0"
  shows "nat (- quic_diff (offset + scast wlen) len) < nat (- quic_diff offset len)"
proof -
  have d: "quic_diff offset len = sint (ucast offset - ucast len :: u32)"
    by (simp add: quic_diff_def ucast_diff32)
  have d': "quic_diff (offset + scast wlen) len = sint ((ucast offset - ucast len) + wlen)"
    by (simp add: quic_diff_def ucast_diff32 ucast_add32 algebra_simps ucast_scast32)
  have neg: "sint (ucast offset - ucast len :: u32) < 0" using assms(1) d by (simp add: QUIC_LT_def)
  have "sint ((ucast offset - ucast len) + wlen) = sint (ucast offset - ucast len :: u32) + sint wlen"
    by (rule sint_add_mixed[OF neg assms(2)])
  moreover have "sint ((ucast offset - ucast len) + wlen) \<le> 0"
    using assms(3) by (auto simp: ucast_diff32 algebra_simps)
  ultimately show ?thesis using d d' neg assms(2) by simp
qed

lemma crypto_split_returns: "crypto_split_loop e quic pkt_type pkt qb buf_len data len offset \<noteq> None"
proof (induction "nat (- quic_diff offset len)" arbitrary: quic pkt qb offset rule: less_induct)
  case less
  show ?case
  proof (cases "QUIC_LT offset len")
    case True
    obtain s1 r1 where q: "QuicBuffQueueAndNext e False quic pkt_type pkt qb buf_len QUIC_FRAME_CRYPTO_HEADER_MAX_LEN = (s1, r1)"
      by fastforce
    obtain pkt2 r2 where b: "QuicFrameCryptoBuild e (snd s1) offset (drop (unat offset) data) (len - offset) = (pkt2, r2)"
      by fastforce
    show ?thesis
      using True q b less[OF crypto_progress[OF True _ crypto_build_len]]
      by (subst crypto_split_loop.simps) (auto split: sum.splits)
  qed (simp add: crypto_split_loop.simps)
qed

lemma crypto_frame_returns: "QuicCryptoFrameBuild e quic pkt_type \<noteq> None"
proof -
  have "queue_rest (QuicFrameCryptoSplit e quic pkt_type pkt qb data len) \<noteq> None" for pkt qb data len
    using crypto_split_returns[of e quic pkt_type pkt qb "QBuffLen qb" data len 0]
    by (auto simp: QuicFrameCryptoSplit_def queue_rest_def split: sum.splits)
  then show ?thesis
    by (simp add: QuicCryptoFrameBuild_def Let_def del: not_None_eq split: sum.split)
qed

section \<open>Reading\<close>

lemma Forward_left: "rp_left (RPacketForward p n) \<le> rp_left p"
  by (intro rp_left_adv rp_adv_Forward)

text \<open>A message that was read is no longer in the packet.\<close>

lemma read_message_left:
  assumes "read_message os quic p packet pkt type = ((quic', pkt'), Inr ret)"
    and "ret \<noteq> QUIC_FLOW_RET_WANT_READ" and "rp_left pkt < rp_left packet"
  shows "rp_left pkt' < rp_left packet"
proof -
  obtain len pkt1 where g: "RPacketGet3 pkt = Inr (len, pkt1)"
    using assms(1,2) by (cases "RPacketGet3 pkt") (auto simp: read_message_def Let_def split: if_splits)
  obtain msg pkt2 where t: "RPacketTransfer pkt1 (ucast len) = Inr (msg, pkt2)"
    using assms(1,2) g by (cases "RPacketTransfer pkt1 (ucast len)") (auto simp: read_message_def Let_def split: if_splits)
  have "pkt' = pkt2"
    using assms(1) g t by (auto simp: read_message_def Let_def split: if_splits prod.split_asm sum.split_asm)
  moreover have "pkt2 = RPacketForward pkt1 (ucast len)" using t by (simp add: RPacketTransfer_def split: if_splits)
  ultimately show ?thesis using Forward_left[of pkt1 "ucast len"] Get3_left[OF g] assms(3) by simp
qed

lemma handshake_read_cases:
  assumes "TlsHandshakeRead os proc quic p pkt = Some ((quic', pkt'), Inr ret)"
  obtains "ret = QUIC_FLOW_RET_WANT_READ" "quic' = quic" "pkt' = pkt"
  | type pkt1 quic1 err where "RPacketGet1 pkt = Inr (type, pkt1)" "read_skip proc type quic p = Some (quic1, Inl err)"
      "drop_message proc quic1 pkt1 type = ((quic', pkt'), Inr ret)"
  | type pkt1 quic1 p1 where "RPacketGet1 pkt = Inr (type, pkt1)" "read_skip proc type quic p = Some (quic1, Inr p1)"
      "read_message os quic1 p1 pkt pkt1 type = ((quic', pkt'), Inr ret)"
proof (cases "RPacketGet1 pkt")
  case (Inr x)
  obtain type pkt1 where x: "x = (type, pkt1)" by force
  show thesis
  proof (cases "RPacketRemaining pkt = 0")
    case False
    then show thesis
      using assms Inr x that(2,3)
      by (simp add: TlsHandshakeRead_def split: if_split_asm option.split_asm prod.split_asm sum.split_asm)
  qed (use assms that(1) in \<open>simp add: TlsHandshakeRead_def split: if_split_asm\<close>)
qed (use assms that(1) in \<open>simp add: TlsHandshakeRead_def split: if_split_asm\<close>)

lemma handshake_read_left:
  assumes "TlsHandshakeRead os proc quic p pkt = Some ((quic', pkt'), Inr ret)"
    and "ret \<notin> {QUIC_FLOW_RET_WANT_READ, QUIC_FLOW_RET_DROP}"
  shows "rp_left pkt' < rp_left pkt"
  using assms(1)
proof (cases rule: handshake_read_cases)
  case (2 type pkt1 quic1 err)
  then show ?thesis using assms(2) by (simp add: drop_message_def split: if_split_asm sum.split_asm prod.split_asm)
next
  case (3 type pkt1 quic1 p1)
  then show ?thesis using assms(2) Get1_left[OF 3(1)] by (intro read_message_left[OF 3(3)]) simp_all
qed (use assms(2) in simp)

text \<open>The states a client skips lead to the one for Finished; a server skips none.\<close>

lemma no_skip_returns: "tp_skip_check p = None \<Longrightarrow> read_skip proc type quic p \<noteq> None"
  by (subst read_skip.simps) simp

lemma skip_returns:
  "tp_skip_check p = Some f \<Longrightarrow> tp_next_state p = st \<Longrightarrow> (\<And>quic. read_skip proc type quic (proc st) \<noteq> None) \<Longrightarrow>
     read_skip proc type quic p \<noteq> None"
  by (subst read_skip.simps) (simp del: not_None_eq)

lemma client_skip_returns: "read_skip (client_proc e os) type quic (client_proc e os st) \<noteq> None"
proof -
  let ?p = "client_proc e os"
  have fin: "read_skip ?p type quic (?p TLS_ST_CR_FINISHED) \<noteq> None" for quic
    by (rule no_skip_returns) (simp add: client_read_def no_process_def)
  have verify: "read_skip ?p type quic (?p TLS_ST_CR_CERT_VERIFY) \<noteq> None" for quic
    by (rule skip_returns[OF _ _ fin]) (simp_all add: client_read_def no_process_def)
  have cert: "read_skip ?p type quic (?p TLS_ST_CR_SERVER_CERTIFICATE) \<noteq> None" for quic
    by (rule skip_returns[OF _ _ verify]) (simp_all add: client_read_def no_process_def)
  have req: "read_skip ?p type quic (?p TLS_ST_CR_CERT_REQUEST) \<noteq> None"
    by (rule skip_returns[OF _ _ cert]) (simp_all add: client_read_def no_process_def)
  show ?thesis
  proof (cases "st \<in> {TLS_ST_CR_CERT_VERIFY, TLS_ST_CR_SERVER_CERTIFICATE, TLS_ST_CR_CERT_REQUEST}")
    case True
    then show ?thesis using verify[of quic] cert[of quic] req by (auto simp del: client_proc.simps not_None_eq)
  next
    case False
    then show ?thesis
      by (intro no_skip_returns, cases st) (simp_all add: client_read_def client_write_def no_process_def)
  qed
qed

lemma server_skip_returns: "read_skip (server_proc e os) type quic (server_proc e os st) \<noteq> None"
  by (rule no_skip_returns, cases st)
    (simp_all add: server_read_def server_write_def client_read_def client_write_def no_process_def)

lemma read_returns:
  "(\<And>type. read_skip proc type quic p \<noteq> None) \<Longrightarrow> TlsHandshakeRead os proc quic p pkt \<noteq> None"
  by (simp add: TlsHandshakeRead_def del: not_None_eq split: sum.split option.split prod.split)

section \<open>Writing\<close>

text \<open>What the extensions leave of the connection, when their handlers leave all of it.\<close>

lemma construct_ext_same:
  assumes "\<And>x f quic pkt s r. x \<in> set ext \<Longrightarrow> TlsShouldAddExtension (ec_context x) cxt \<Longrightarrow> ec_construct x = Some f \<Longrightarrow>
      f quic pkt cxt = (s, r) \<Longrightarrow> fst s = quic"
  shows "construct_ext_loop e ext cxt quic pkt = (s, r) \<Longrightarrow> fst s = quic"
  using assms
proof (induction ext arbitrary: quic pkt s r)
  case (Cons x xs)
  have IH: "construct_ext_loop e xs cxt quic pkt = (s, r) \<Longrightarrow> fst s = quic" for quic pkt s r
    using Cons.IH Cons.prems(2) by (metis list.set_intros(2))
  show ?case
    using Cons.prems(1) Cons.prems(2)[of x]
    by (auto simp: on_wpkt_def bindS_def dest: IH split: if_split_asm option.split_asm prod.split_asm sum.split_asm)
qed simp

definition quiet_contexts :: "u32 list" where
  "quiet_contexts = [TLSEXT_ENCRYPTED_EXT, TLSEXT_CERTIFICATE, TLSEXT_NEW_SESSION_TICKET]"

lemma server_ext_same:
  fixes quic :: "'c Quic"
  assumes "cxt \<in> set quiet_contexts" and "TlsSrvrConstructExtensions e os cxt quic pkt = (s, r)"
  shows "fst s = quic"
proof -
  have hello: "\<not> TlsShouldAddExtension TLSEXT_SERVER_HELLO cxt"
    using assms(1) by (auto simp: quiet_contexts_def TlsShouldAddExtension_def TLSEXT_SERVER_HELLO_def
        TLSEXT_ENCRYPTED_EXT_def TLSEXT_CERTIFICATE_def TLSEXT_NEW_SESSION_TICKET_def)
  have handlers: "fst s = quic"
    if "x \<in> set (server_ext_construct e os)" "TlsShouldAddExtension (ec_context x) cxt" "ec_construct x = Some f"
      "f quic pkt cxt = (s, r)" for x f and quic :: "'c Quic" and pkt s and r :: "ExtReturn res"
    using that hello
    by (auto simp: server_ext_construct_def TlsExtSrvrConstructServerName_def TlsExtSrvrConstructAlpn_def
        TlsExtSrvrConstructQtp_def TlsConstructQtpExtension_def TlsExtSrvrConstructEarlyData_def ext_sent_def on_wpkt_def
        bindS_def split: if_split_asm prod.split_asm sum.split_asm)
  have loop: "construct_ext_loop e (server_ext_construct e os) cxt quic p = (s, r) \<Longrightarrow> fst s = quic" for p s and r :: "unit res"
    by (erule construct_ext_same[rotated]) (rule handlers)
  show ?thesis
    using assms(2)
    by (auto simp: TlsSrvrConstructExtensions_def TlsConstructExtensions_def on_wpkt_def bindS_def
        split: prod.split_asm sum.split_asm dest: loop)
qed

text \<open>A write that succeeds has the state its handler leaves, or the next one.\<close>

lemma finish_mac_same:
  "finish_mac quic d = (quic', r) \<Longrightarrow> \<exists>g. quic' = quic\<lparr>q_tls := (q_tls quic)\<lparr>tl_handshake_dgst := g\<rparr>\<rparr>"
proof -
  have same: "\<exists>g. quic = quic\<lparr>q_tls := (q_tls quic)\<lparr>tl_handshake_dgst := g\<rparr>\<rparr>"
    by (rule exI[of _ "tl_handshake_dgst (q_tls quic)"]) simp
  show "finish_mac quic d = (quic', r) \<Longrightarrow> \<exists>g. quic' = quic\<lparr>q_tls := (q_tls quic)\<lparr>tl_handshake_dgst := g\<rparr>\<rparr>"
    using same
    by (auto simp: finish_mac_def TlsFinishMac_def on_tls_def bindS_def split: if_split_asm option.split_asm prod.split_asm sum.split_asm)
qed

lemma handshake_write_effect:
  assumes "TlsHandshakeWrite e quic p pkt = ((quic', pkt'), Inr ret)"
  obtains pkt1 quic3 pkt3 where "run_write_handler (tp_handler p) quic pkt1 = ((quic3, pkt3), Inr ret)"
    and "hs_state quic' = (if hs_state quic = hs_state quic3 then tp_next_state p else hs_state quic3)"
    and "tl_next_ticket_nonce (q_tls quic') = tl_next_ticket_nonce (q_tls quic3)"
  using assms
  by (auto simp: TlsHandshakeWrite_def on_wpkt_def bindS_def Let_def sync_buffer_def TlsFlowFinish_def set_state_def
      split: if_split_asm prod.split_asm sum.split_asm dest!: finish_mac_same)

section \<open>The loop\<close>

definition leaves :: "QuicFlowReturn set" where
  "leaves = {QUIC_FLOW_RET_DROP, QUIC_FLOW_RET_WANT_READ, QUIC_FLOW_RET_WANT_WRITE, QUIC_FLOW_RET_NEXT}"

lemma statem_returns:
  assumes "wf R"
    and step: "\<And>s. statem_step e os proc s \<noteq> None"
    and dec: "\<And>s s1 ret s2. statem_step e os proc s = Some (s1, Inr ret) \<Longrightarrow> ret \<notin> leaves \<Longrightarrow>
      tp_flow_state (proc (hs_state (fst s))) \<noteq> QUIC_FLOW_FINISHED \<Longrightarrow>
      post_work (proc (hs_state (fst s))) s1 = (s2, Inr ()) \<Longrightarrow> (s2, s) \<in> R"
  shows "TlsHandshakeStatem e os proc s \<noteq> None"
  using assms(1)
proof (induction s rule: wf_induct_rule)
  case (less s)
  show ?case
  proof (cases "tp_flow_state (proc (hs_state (fst s))) = QUIC_FLOW_FINISHED")
    case False
    obtain s1 r where st: "statem_step e os proc s = Some (s1, r)" using step[of s] by auto
    obtain s2 r2 where w: "post_work (proc (hs_state (fst s))) s1 = (s2, r2)" by fastforce
    show ?thesis
      using less.IH[of s2] dec[OF _ _ False, of s1 _ s2] st w False
      by (subst TlsHandshakeStatem.simps) (simp add: leaves_def del: not_None_eq split: sum.split)
  qed (simp add: TlsHandshakeStatem.simps)
qed

lemma post_work_None: "tp_post_work p = None \<Longrightarrow> post_work p s = (s, Inr ())"
  by (simp add: post_work_def)

lemma post_work_rest: "post_work p s = (s', r) \<Longrightarrow> snd s' = snd s"
  by (auto simp: post_work_def split: option.split_asm prod.split_asm)

lemma step_read:
  assumes "statem_step e os proc s = Some (s1, Inr ret)" and "ret \<notin> leaves"
    and "tp_flow_state (proc (hs_state (fst s))) = QUIC_FLOW_READING"
    and "post_work (proc (hs_state (fst s))) s1 = (s2, Inr ())"
  shows "rp_left (fst (snd s2)) < rp_left (fst (snd s))"
proof -
  obtain quic rpkt wpkt t where s: "s = (quic, rpkt, wpkt, t)" by (cases s)
  obtain quic1 rpkt1 where r: "TlsHandshakeRead os proc quic (proc (hs_state quic)) rpkt = Some ((quic1, rpkt1), Inr ret)"
    and s1: "s1 = (quic1, rpkt1, wpkt, tp_pkt_type (proc (hs_state quic)))"
    using assms(1,3) by (auto simp: s statem_step_def Let_def split: option.split_asm prod.split_asm)
  have "rp_left rpkt1 < rp_left rpkt" using handshake_read_left[OF r] assms(2) by (auto simp: leaves_def)
  then show ?thesis using post_work_rest[OF assms(4)] by (simp add: s s1)
qed

lemma step_write:
  assumes "statem_step e os proc s = Some (s1, Inr ret)"
    and "tp_flow_state (proc (hs_state (fst s))) = QUIC_FLOW_WRITING"
    and "post_work (proc (hs_state (fst s))) s1 = (s2, Inr ())"
  obtains pkt quic' pkt' where "TlsHandshakeWrite e (fst s) (proc (hs_state (fst s))) pkt = ((quic', pkt'), Inr ret)"
    and "fst s1 = quic'" and "fst (snd s2) = fst (snd s)"
  using assms post_work_rest[OF assms(3)]
  by (cases s) (auto simp: statem_step_def Let_def split: prod.split_asm)

lemma step_nothing:
  assumes "statem_step e os proc s = Some (s1, Inr ret)"
    and "tp_flow_state (proc (hs_state (fst s))) = QUIC_FLOW_NOTHING"
    and "post_work (proc (hs_state (fst s))) s1 = (s2, Inr ())" and "tp_post_work (proc (hs_state (fst s))) = None"
  shows "fst (snd s2) = fst (snd s)" and "hs_state (fst s2) = tp_next_state (proc (hs_state (fst s)))"
  using assms by (cases s, auto simp: statem_step_def Let_def post_work_def set_state_def)+

lemma statem_step_returns:
  "(\<And>type quic. read_skip proc type quic (proc (hs_state quic)) \<noteq> None) \<Longrightarrow> statem_step e os proc s \<noteq> None"
  by (cases s) (simp add: statem_step_def Let_def read_returns del: not_None_eq split: QuicFlowState.split option.split prod.split)

section \<open>What handlers return\<close>

definition gives :: "'a set \<Rightarrow> 's \<times> 'a res \<Rightarrow> bool" where
  "gives R r \<longleftrightarrow> (\<forall>x. snd r = Inr x \<longrightarrow> x \<in> R)"

named_theorems gives_intros \<open>what an operation returns\<close>

lemma gives_bind [gives_intros]: "(\<And>s x. gives R (f s x)) \<Longrightarrow> gives R (bindS r f)"
  by (auto simp: gives_def bindS_def split: prod.split sum.split)

lemma gives_leaf [gives_intros]: "x \<in> R \<Longrightarrow> gives R (s, Inr x)" "gives R (s, Inl err)"
  by (simp_all add: gives_def)

lemma gives_if [gives_intros]: "gives R a \<Longrightarrow> gives R b \<Longrightarrow> gives R (if c then a else b)"
  by simp

lemma gives_case [gives_intros]:
  "(\<And>a b. gives R (f a b)) \<Longrightarrow> gives R (case p of (a, b) \<Rightarrow> f a b)"
  "gives R n \<Longrightarrow> (\<And>a. gives R (g a)) \<Longrightarrow> gives R (case x of None \<Rightarrow> n | Some a \<Rightarrow> g a)"
  "(\<And>a b. gives R (h a b y)) \<Longrightarrow> gives R ((case p of (a, b) \<Rightarrow> h a b) y)"
  by (auto split: prod.split option.split)

lemmas client_writes = TlsClientHelloBuild_def TlsClntCertBuild_def TlsClntCertVerifyBuild_def TlsClntFinishedBuild_def
lemmas client_reads = TlsServerHelloProc_def TlsEncExtProc_def TlsCertRequestProc_def TlsServerCertProc_def TlsCertVerifyProc_def
  TlsClientFinishedProc_def TlsClntNewSessionTicketProc_def
lemmas server_reads = TlsClientHelloProc_def TlsSrvrCertProc_def TlsSrvrCertVerifyProc_def TlsSrvrFinishedProc_def
lemmas server_writes = TlsServerHelloBuild_def TlsSrvrEncryptedExtBuild_def TlsSrvrCertRequestBuild_def TlsSrvrServerCertBuild_def
  TlsCertChainBuild_def TlsSrvrCertVerifyBuild_def TlsCertVerifyBuild_def TlsSrvrFinishedBuild_def

lemma client_gives:
  "gives {QUIC_FLOW_RET_NEXT} (TlsClientHelloBuild e os quic pkt)"
  "gives {QUIC_FLOW_RET_NEXT} (TlsClntCertBuild quic pkt)"
  "gives {QUIC_FLOW_RET_NEXT} (TlsClntCertVerifyBuild quic pkt)"
  "gives {QUIC_FLOW_RET_NEXT} (TlsClntFinishedBuild e os quic pkt)"
  "gives {QUIC_FLOW_RET_FINISH} (TlsServerHelloProc e os quic m)"
  "gives {QUIC_FLOW_RET_FINISH} (TlsEncExtProc e os quic m)"
  "gives {QUIC_FLOW_RET_FINISH} (TlsCertRequestProc quic m)"
  "gives {QUIC_FLOW_RET_FINISH} (TlsServerCertProc e os quic m)"
  "gives {QUIC_FLOW_RET_FINISH} (TlsCertVerifyProc os quic m)"
  "gives {QUIC_FLOW_RET_FINISH} (TlsClientFinishedProc e os quic m)"
  "gives {QUIC_FLOW_RET_FINISH} (TlsClntNewSessionTicketProc e os quic m)"
  unfolding client_writes client_reads Let_def by (rule gives_intros | simp)+

lemma server_gives:
  "gives {QUIC_FLOW_RET_FINISH} (TlsClientHelloProc e os quic m)"
  "gives {QUIC_FLOW_RET_FINISH} (TlsSrvrCertProc quic m)"
  "gives {QUIC_FLOW_RET_FINISH} (TlsSrvrCertVerifyProc quic m)"
  "gives {QUIC_FLOW_RET_FINISH} (TlsSrvrFinishedProc e os quic m)"
  "gives {QUIC_FLOW_RET_NEXT} (TlsServerHelloBuild e os quic pkt)"
  "gives {QUIC_FLOW_RET_FINISH} (TlsSrvrEncryptedExtBuild e os quic pkt)"
  "gives {QUIC_FLOW_RET_FINISH} (TlsSrvrCertRequestBuild quic pkt)"
  "gives {QUIC_FLOW_RET_FINISH} (TlsSrvrServerCertBuild e os quic pkt)"
  "gives {QUIC_FLOW_RET_FINISH} (TlsSrvrCertVerifyBuild e os quic pkt)"
  "gives {QUIC_FLOW_RET_NEXT} (TlsSrvrFinishedBuild e os quic pkt)"
  unfolding server_writes server_reads Let_def by (rule gives_intros | simp)+

lemma tickets_give: "gives {QUIC_FLOW_RET_FINISH} (TlsSrvrNewSessionTicketBuild e os quic pkt)"
  by (auto simp: TlsSrvrNewSessionTicketBuild_def tickets_done_def gives_def bindR_eq_Inr
      split: option.split prod.split sum.split)

text \<open>All handlers of a table: readers finish, writers finish or end the run.\<close>

definition table_gives :: "'c tls_table \<Rightarrow> bool" where
  "table_gives proc \<longleftrightarrow>
     (\<forall>st f quic m. tp_handler (proc st) = Some (Read_handler f) \<longrightarrow> gives {QUIC_FLOW_RET_FINISH} (f quic m)) \<and>
     (\<forall>st f quic pkt. tp_handler (proc st) = Some (Write_handler f) \<longrightarrow> gives {QUIC_FLOW_RET_FINISH, QUIC_FLOW_RET_NEXT} (f quic pkt))"

lemma gives_mono: "gives R r \<Longrightarrow> R \<subseteq> R' \<Longrightarrow> gives R' r"
  by (auto simp: gives_def)

lemma client_table_gives: "table_gives (client_proc e os)"
proof -
  have "tp_handler (client_proc e os st) = Some (Read_handler f) \<Longrightarrow> gives {QUIC_FLOW_RET_FINISH} (f quic m)" for st f quic m
    by (cases st) (auto simp: client_read_def client_write_def no_process_def client_gives)
  moreover have "tp_handler (client_proc e os st) = Some (Write_handler f) \<Longrightarrow>
      gives {QUIC_FLOW_RET_FINISH, QUIC_FLOW_RET_NEXT} (f quic pkt)" for st f quic pkt
    by (rule gives_mono[of "{QUIC_FLOW_RET_NEXT}"], cases st)
      (auto simp: client_read_def client_write_def no_process_def client_gives)
  ultimately show ?thesis by (simp add: table_gives_def)
qed

lemma server_table_gives: "table_gives (server_proc e os)"
proof -
  have "tp_handler (server_proc e os st) = Some (Read_handler f) \<Longrightarrow> gives {QUIC_FLOW_RET_FINISH} (f quic m)" for st f quic m
    by (cases st) (auto simp: server_read_def server_write_def client_read_def client_write_def no_process_def server_gives)
  moreover have "tp_handler (server_proc e os st) = Some (Write_handler f) \<Longrightarrow>
      gives {QUIC_FLOW_RET_FINISH, QUIC_FLOW_RET_NEXT} (f quic pkt)" for st f quic pkt
    by (cases st) (auto simp: server_read_def server_write_def client_read_def client_write_def no_process_def
        intro: gives_mono[OF server_gives(5)] gives_mono[OF server_gives(6)] gives_mono[OF server_gives(7)]
          gives_mono[OF server_gives(8)] gives_mono[OF server_gives(9)] gives_mono[OF server_gives(10)] gives_mono[OF tickets_give])
  ultimately show ?thesis by (simp add: table_gives_def)
qed

lemma read_skip_entry:
  fixes quic :: "'c Quic"
  assumes "read_skip proc type quic p = Some (quic', Inr p')" and "p \<in> range proc"
  shows "p' \<in> range proc"
proof -
  let ?P = "\<lambda>(proc :: 'c tls_table) (type :: u32) (quic :: 'c Quic) p (x :: 'c Quic \<times> 'c TlsProcess res).
      p \<in> range proc \<longrightarrow> (\<forall>p'. snd x = Inr p' \<longrightarrow> p' \<in> range proc)"
  have "?P proc type quic p (quic', Inr p')"
  proof (rule read_skip.raw_induct[where P = ?P, OF _ assms(1)])
    fix skip and proc :: "'c tls_table" and type :: u32 and quic :: "'c Quic" and p x
    assume IH: "\<And>(proc :: 'c tls_table) type quic p x. skip proc type quic p = Some x \<Longrightarrow> ?P proc type quic p x"
    assume r: "(if type = tp_msg_type p then Some (quic, Inr p)
      else case tp_skip_check p of None \<Rightarrow> Some (quic, Inl Fail)
        | Some check \<Rightarrow> if ok (check quic) then skip proc type (set_state (tp_next_state p) quic) (proc (tp_next_state p))
            else Some (quic, Inl Fail)) = Some (x :: 'c Quic \<times> 'c TlsProcess res)"
    then show "?P proc type quic p x" by (auto split: if_split_asm option.split_asm dest: IH)
  qed
  with assms(2) show ?thesis by simp
qed

lemma read_message_gives:
  assumes "read_message os quic p packet pkt type = (s, Inr ret)" and "ret \<noteq> QUIC_FLOW_RET_WANT_READ"
  obtains f quic1 m where "tp_handler p = Some (Read_handler f)" and "snd (f quic1 m) = Inr ret"
proof -
  obtain quic1 m x where "run_read_handler (tp_handler p) quic1 m = (x, Inr ret)"
    using assms
    by (auto simp: read_message_def Let_def bindS_eq_Inr split: if_split_asm sum.split_asm prod.split_asm)
  then show thesis using that[of _ quic1 m]
    by (auto simp: run_read_handler_def split: option.split_asm tls_handler.split_asm)
qed

lemma statem_step_gives:
  assumes "table_gives proc" and "statem_step e os proc s = Some (s1, Inr ret)"
  shows "ret \<noteq> QUIC_FLOW_RET_WANT_WRITE"
proof -
  obtain quic rpkt wpkt t where s: "s = (quic, rpkt, wpkt, t)" by (cases s)
  let ?p = "proc (hs_state quic)"
  show ?thesis
  proof (cases "tp_flow_state ?p")
    case QUIC_FLOW_READING
    then obtain quic1 rpkt1 where "TlsHandshakeRead os proc quic ?p rpkt = Some ((quic1, rpkt1), Inr ret)"
      using assms(2) by (auto simp: s statem_step_def Let_def split: option.split_asm prod.split_asm)
    then show ?thesis
    proof (cases rule: handshake_read_cases)
      case (2 type pkt1 quic1 err)
      then show ?thesis by (auto simp: drop_message_def split: if_split_asm sum.split_asm prod.split_asm)
    next
      case (3 type pkt1 quic1 p1)
      then have "p1 \<in> range proc" using read_skip_entry by blast
      then have "tp_handler p1 = Some (Read_handler f) \<Longrightarrow> gives {QUIC_FLOW_RET_FINISH} (f quic m)" for f quic m
        using assms(1) by (auto simp: table_gives_def)
      then show ?thesis
        by (cases "ret = QUIC_FLOW_RET_WANT_READ")
          (simp, rule read_message_gives[OF 3(3)], auto simp: gives_def)
    qed simp
  next
    case QUIC_FLOW_WRITING
    then obtain quic1 wpkt1 where "TlsHandshakeWrite e quic ?p wpkt = ((quic1, wpkt1), Inr ret)"
      using assms(2) by (auto simp: s statem_step_def Let_def split: prod.split_asm)
    then obtain pkt1 x where "run_write_handler (tp_handler ?p) quic pkt1 = (x, Inr ret)"
      by (rule handshake_write_effect)
    then obtain f where h: "tp_handler ?p = Some (Write_handler f)" and f: "f quic pkt1 = (x, Inr ret)"
      by (auto simp: run_write_handler_def split: option.split_asm tls_handler.split_asm)
    from assms(1) h have "gives {QUIC_FLOW_RET_FINISH, QUIC_FLOW_RET_NEXT} (f quic pkt1)"
      unfolding table_gives_def by blast
    then show ?thesis unfolding gives_def f by auto
  qed (use assms(2) in \<open>auto simp: s statem_step_def Let_def\<close>)
qed

lemma statem_gives:
  assumes "table_gives proc" and "TlsHandshakeStatem e os proc s = Some (s', Inr ret)"
  shows "ret \<noteq> QUIC_FLOW_RET_WANT_WRITE"
proof -
  let ?P = "\<lambda>e os proc (s :: 'a hs) (x :: 'a hs \<times> QuicFlowReturn res). table_gives proc \<longrightarrow> (\<forall>ret. snd x = Inr ret \<longrightarrow> ret \<noteq> QUIC_FLOW_RET_WANT_WRITE)"
  have "?P e os proc s (s', Inr ret)"
  proof (rule TlsHandshakeStatem.raw_induct[where P = ?P, OF _ assms(2)], goal_cases)
    case (1 loop e os proc s x)
    show ?case
      using 1(2) statem_step_gives[of proc e os s]
      by (auto split: if_split_asm option.split_asm prod.split_asm sum.split_asm dest: 1(1))
  qed
  with assms(1) show ?thesis by simp
qed

text \<open>The order of the states in which a run passes them without reading.\<close>

fun tls_rank :: "TlsState \<Rightarrow> nat" where
  "tls_rank TLS_ST_SW_ENCRYPTED_EXTENSIONS = 4"
| "tls_rank TLS_ST_SW_CERT_REQUEST = 4"
| "tls_rank TLS_ST_SW_SERVER_CERTIFICATE = 3"
| "tls_rank TLS_ST_SW_CERT_VERIFY = 2"
| "tls_rank TLS_ST_SW_FINISHED = 1"
| "tls_rank TLS_ST_SW_NEW_SESSION_TICKET = 1"
| "tls_rank st = 0"

definition hs_rank :: "'c tls_table \<Rightarrow> TlsState \<Rightarrow> nat" where
  "hs_rank proc st =
     (if tp_flow_state (proc st) \<noteq> QUIC_FLOW_NOTHING then tls_rank st else if st = TLS_ST_OK then 7 else 8)"

definition tickets_left :: "u64 \<Rightarrow> nat" where
  "tickets_left n = (if n \<ge> TLS_NEW_SESS_TICKET_NUM then 3 else 2 - unat n)"

definition tls_progress :: "'c tls_table \<Rightarrow> ('c hs \<times> 'c hs) set" where
  "tls_progress proc = measures [\<lambda>s. rp_left (fst (snd s)), \<lambda>s. hs_rank proc (hs_state (fst s)),
     \<lambda>s. tickets_left (tl_next_ticket_nonce (q_tls (fst s)))]"

lemma client_returns: "TlsHandshakeStatem e os (client_proc e os) s \<noteq> None"
proof (rule statem_returns[of "tls_progress (client_proc e os)"])
  show "statem_step e os (client_proc e os) s \<noteq> None" for s
    by (rule statem_step_returns) (rule client_skip_returns)
next
  fix s s1 s2 :: "'a hs" and ret
  let ?p = "client_proc e os (hs_state (fst s))"
  assume st: "statem_step e os (client_proc e os) s = Some (s1, Inr ret)" and ret: "ret \<notin> leaves"
    and fin: "tp_flow_state ?p \<noteq> QUIC_FLOW_FINISHED" and w: "post_work ?p s1 = (s2, Inr ())"
  show "(s2, s) \<in> tls_progress (client_proc e os)"
  proof (cases "tp_flow_state ?p")
    case QUIC_FLOW_READING
    with st ret w have "rp_left (fst (snd s2)) < rp_left (fst (snd s))" by (intro step_read)
    then show ?thesis by (simp add: tls_progress_def)
  next
    case QUIC_FLOW_WRITING
    obtain pkt quic' pkt' where "TlsHandshakeWrite e (fst s) ?p pkt = ((quic', pkt'), Inr ret)"
      using st QUIC_FLOW_WRITING w by (rule step_write)
    then obtain pkt1 x where h: "run_write_handler (tp_handler ?p) (fst s) pkt1 = (x, Inr ret)"
      by (rule handshake_write_effect)
    obtain f where f: "tp_handler ?p = Some (Write_handler f)" "f (fst s) pkt1 = (x, Inr ret)"
      using h by (auto simp: run_write_handler_def split: option.split_asm tls_handler.split_asm)
    have "gives {QUIC_FLOW_RET_NEXT} (f (fst s) pkt1)"
      using QUIC_FLOW_WRITING f(1)
      by (cases "hs_state (fst s)") (auto simp: client_read_def client_write_def no_process_def client_gives)
    then show ?thesis using ret f(2) by (simp add: gives_def leaves_def)
  next
    case QUIC_FLOW_NOTHING
    have "tp_post_work ?p = None"
      using QUIC_FLOW_NOTHING by (cases "hs_state (fst s)") (simp_all add: client_read_def client_write_def no_process_def)
    note n = step_nothing[OF st QUIC_FLOW_NOTHING w this]
    have "hs_rank (client_proc e os) (tp_next_state ?p) < hs_rank (client_proc e os) (hs_state (fst s))"
      using QUIC_FLOW_NOTHING
      by (cases "hs_state (fst s)") (simp_all add: hs_rank_def client_read_def client_write_def no_process_def)
    then show ?thesis using n by (simp add: tls_progress_def)
  qed (use fin in simp)
qed (simp add: tls_progress_def)

section \<open>The server\<close>

lemma enc_ext_effect:
  assumes "TlsSrvrEncryptedExtBuild e os quic pkt = ((quic', pkt'), Inr ret)"
  shows "quic' = quic \<or> quic' = set_state TLS_ST_SW_FINISHED quic"
  using assms server_ext_same[of TLSEXT_ENCRYPTED_EXT e os quic pkt]
  by (auto simp: TlsSrvrEncryptedExtBuild_def bindS_eq_Inr quiet_contexts_def split: if_split_asm)

lemma add_certs_same:
  fixes s :: "'c Quic \<times> WPacket"
  shows "add_certs e os xs (TlsSrvrConstructExtensions e os) s = (s', r) \<Longrightarrow> fst s' = fst s"
proof (induction xs arbitrary: s s' r)
  case (Cons x xs)
  have one: "fst s' = fst s" if "TlsAddCertToWpacket e os (fst s) (snd s) x (TlsSrvrConstructExtensions e os) = (s', r)"
    for s s' :: "'c Quic \<times> WPacket" and r
    using that server_ext_same[of TLSEXT_CERTIFICATE e os "fst s"]
    by (cases s)
      (auto simp: TlsAddCertToWpacket_def on_wpkt_def bindS_def quiet_contexts_def split: prod.split_asm sum.split_asm)
  obtain s1 r1 where h: "TlsAddCertToWpacket e os (fst s) (snd s) x (TlsSrvrConstructExtensions e os) = (s1, r1)"
    by fastforce
  have "fst s1 = fst s" using h by (rule one)
  moreover have "s' = s1 \<or> add_certs e os xs (TlsSrvrConstructExtensions e os) s1 = (s', r)"
    using Cons.prems h by (auto simp: bindS_def split: prod.split_asm sum.split_asm)
  ultimately show ?case using Cons.IH[of s1 s' r] by auto
qed simp

lemma cert_build_same:
  assumes "TlsSrvrServerCertBuild e os quic pkt = ((quic', pkt'), Inr ret)"
  shows "quic' = quic"
  using assms
  by (auto simp: TlsSrvrServerCertBuild_def TlsCertChainBuild_def TlsAddCertChain_def on_wpkt_def bindS_eq_Inr
      simp del: add_certs.simps split: option.split_asm prod.split_asm dest!: add_certs_same)

lemma draw_effect:
  "tls_draw e quic n = (quic', r) \<Longrightarrow> \<exists>k. quic' = quic\<lparr>q_tls := (q_tls quic)\<lparr>tl_draws := k\<rparr>\<rparr>"
  by (auto simp: tls_draw_def Let_def)

lemma stateless_ticket_effect:
  assumes "TlsConstructStatelessTicket e os quic sess pkt n = ((quic', pkt'), Inr ())"
  shows "\<exists>k. quic' = quic\<lparr>q_tls := (q_tls quic)\<lparr>tl_draws := k\<rparr>\<rparr>"
  using assms
  by (auto simp: TlsConstructStatelessTicket_def Let_def bindS_eq_Inr on_wpkt_def
      split: option.split_asm if_split_asm prod.split_asm sum.split_asm dest!: draw_effect)

lemma send_ticket_effect:
  assumes "send_ticket e os quic sess t pkt = ((quic', pkt'), Inr ())"
  shows "tl_next_ticket_nonce (q_tls quic') = tl_next_ticket_nonce (q_tls quic) + 1 \<and> hs_state quic' = hs_state quic"
  using assms
  by (auto simp: send_ticket_def Let_def bindS_eq_Inr quiet_contexts_def
      dest!: stateless_ticket_effect server_ext_same[rotated, of _ _ TLSEXT_NEW_SESSION_TICKET])

lemma ticket_effect:
  assumes "TlsSrvrNewSessionTicketBuild e os quic pkt = ((quic', pkt'), Inr ret)"
  shows "tl_next_ticket_nonce (q_tls quic') = tl_next_ticket_nonce (q_tls quic) + 1"
    and "hs_state quic' = (if tl_next_ticket_nonce (q_tls quic) + 1 \<ge> TLS_NEW_SESS_TICKET_NUM then TLS_ST_SW_HANDSHAKE_DONE
      else hs_state quic)"
proof -
  obtain quic2 sess t pkt2 where t: "send_ticket e os quic2 sess t pkt = (pkt2, Inr ())"
    and d: "tickets_done (pkt2, Inr ()) = ((quic', pkt'), Inr ret)"
    and q: "tl_next_ticket_nonce (q_tls quic2) = tl_next_ticket_nonce (q_tls quic)" "hs_state quic2 = hs_state quic"
  proof -
    obtain sess where s: "q_session quic = Some sess"
      using assms by (auto simp: TlsSrvrNewSessionTicketBuild_def tickets_done_def split: option.split_asm prod.split_asm)
    obtain k t where d: "tickets_done (send_ticket e os (quic\<lparr>q_tls := (q_tls quic)\<lparr>tl_draws := k\<rparr>\<rparr>) sess t pkt)
        = ((quic', pkt'), Inr ret)"
      using assms
      by (auto simp: TlsSrvrNewSessionTicketBuild_def s bindS_eq_Inr split: prod.split_asm sum.split_asm dest!: draw_effect)
    obtain pkt2 where "send_ticket e os (quic\<lparr>q_tls := (q_tls quic)\<lparr>tl_draws := k\<rparr>\<rparr>) sess t pkt = (pkt2, Inr ())"
      using d by (auto simp: tickets_done_def bindR_eq_Inr split: prod.split_asm)
    with d show thesis by (intro that[of "quic\<lparr>q_tls := (q_tls quic)\<lparr>tl_draws := k\<rparr>\<rparr>" sess t pkt2]) simp_all
  qed
  from t d q show "tl_next_ticket_nonce (q_tls quic') = tl_next_ticket_nonce (q_tls quic) + 1"
    "hs_state quic' = (if tl_next_ticket_nonce (q_tls quic) + 1 \<ge> TLS_NEW_SESS_TICKET_NUM then TLS_ST_SW_HANDSHAKE_DONE
      else hs_state quic)"
    by (auto simp: tickets_done_def set_state_def split: prod.split_asm dest!: send_ticket_effect)
qed

lemma tickets_left_Suc: "\<not> n + 1 \<ge> TLS_NEW_SESS_TICKET_NUM \<Longrightarrow> tickets_left (n + 1) < tickets_left n"
proof -
  assume "\<not> n + 1 \<ge> TLS_NEW_SESS_TICKET_NUM"
  then have "unat (n + 1) < 2" by (simp add: TLS_NEW_SESS_TICKET_NUM_def word_le_nat_alt)
  then have "unat (n + 1) = unat (0::u64) \<or> unat (n + 1) = unat (1::u64)" by auto
  then have "n + 1 = 0 \<or> n + 1 = 1" by (simp only: word_unat_eq_iff)
  then have "n = - 1 \<or> n = 0" by (metis add_cancel_left_left add.commute add_eq_0_iff)
  then show ?thesis by (auto simp: tickets_left_def TLS_NEW_SESS_TICKET_NUM_def word_le_nat_alt unsigned_minus_1_eq_mask mask_eq_exp_minus_1)
qed

lemma server_write:
  assumes "TlsHandshakeWrite e quic (server_proc e os (hs_state quic)) pkt = ((quic', pkt'), Inr ret)" and "ret \<notin> leaves"
  shows "tp_post_work (server_proc e os (hs_state quic)) = None"
    and "0 < tls_rank (hs_state quic') \<and> tls_rank (hs_state quic') < tls_rank (hs_state quic) \<or> hs_state quic' = TLS_ST_SW_HANDSHAKE_DONE \<and> tls_rank (hs_state quic) > 0
      \<or> hs_state quic' = hs_state quic
         \<and> tickets_left (tl_next_ticket_nonce (q_tls quic')) < tickets_left (tl_next_ticket_nonce (q_tls quic))"
proof -
  let ?p = "server_proc e os (hs_state quic)"
  obtain pkt1 quic3 pkt3 where h: "run_write_handler (tp_handler ?p) quic pkt1 = ((quic3, pkt3), Inr ret)"
    and st: "hs_state quic' = (if hs_state quic = hs_state quic3 then tp_next_state ?p else hs_state quic3)"
    and n: "tl_next_ticket_nonce (q_tls quic') = tl_next_ticket_nonce (q_tls quic3)"
    using assms(1) by (rule handshake_write_effect)
  obtain f where f: "tp_handler ?p = Some (Write_handler f)" "f quic pkt1 = ((quic3, pkt3), Inr ret)"
    using h by (auto simp: run_write_handler_def split: option.split_asm tls_handler.split_asm)
  note tables = server_read_def server_write_def client_read_def client_write_def no_process_def
  have no_next: "\<not> gives {QUIC_FLOW_RET_NEXT} (f quic pkt1)"
    using f(2) assms(2) by (simp add: gives_def leaves_def)
  show "tp_post_work ?p = None"
    using f(1) no_next by (cases "hs_state quic") (auto simp: tables server_gives)
  show "0 < tls_rank (hs_state quic') \<and> tls_rank (hs_state quic') < tls_rank (hs_state quic) \<or> hs_state quic' = TLS_ST_SW_HANDSHAKE_DONE \<and> tls_rank (hs_state quic) > 0
      \<or> hs_state quic' = hs_state quic
         \<and> tickets_left (tl_next_ticket_nonce (q_tls quic')) < tickets_left (tl_next_ticket_nonce (q_tls quic))"
  proof (cases "hs_state quic")
    case TLS_ST_SW_ENCRYPTED_EXTENSIONS
    with f have "quic3 = quic \<or> quic3 = set_state TLS_ST_SW_FINISHED quic"
      by (intro enc_ext_effect) (auto simp: tables)
    with st TLS_ST_SW_ENCRYPTED_EXTENSIONS show ?thesis by (auto simp: tables set_state_def)
  next
    case TLS_ST_SW_CERT_REQUEST
    with f st show ?thesis by (auto simp: tables TlsSrvrCertRequestBuild_def)
  next
    case TLS_ST_SW_SERVER_CERTIFICATE
    with f have "quic3 = quic" by (intro cert_build_same) (auto simp: tables)
    with st TLS_ST_SW_SERVER_CERTIFICATE show ?thesis by (simp add: tables)
  next
    case TLS_ST_SW_CERT_VERIFY
    with f have "quic3 = quic"
      by (auto simp: tables TlsSrvrCertVerifyBuild_def TlsCertVerifyBuild_def bindS_eq_Inr on_wpkt_def split: prod.split_asm)
    with st TLS_ST_SW_CERT_VERIFY show ?thesis by (simp add: tables)
  next
    case TLS_ST_SW_NEW_SESSION_TICKET
    let ?n = "tl_next_ticket_nonce (q_tls quic)"
    have t: "TlsSrvrNewSessionTicketBuild e os quic pkt1 = ((quic3, pkt3), Inr ret)"
      using f TLS_ST_SW_NEW_SESSION_TICKET by (auto simp: tables)
    have "hs_state quic' = (if ?n + 1 \<ge> TLS_NEW_SESS_TICKET_NUM then TLS_ST_SW_HANDSHAKE_DONE else TLS_ST_SW_NEW_SESSION_TICKET)"
      using st ticket_effect(2)[OF t] TLS_ST_SW_NEW_SESSION_TICKET by (simp add: tables)
    moreover have "tickets_left (tl_next_ticket_nonce (q_tls quic')) < tickets_left ?n" if "\<not> ?n + 1 \<ge> TLS_NEW_SESS_TICKET_NUM"
      using that n ticket_effect(1)[OF t] tickets_left_Suc by simp
    ultimately show ?thesis using TLS_ST_SW_NEW_SESSION_TICKET by auto
  qed (use f no_next server_gives(5)[of e os quic pkt1] server_gives(10)[of e os quic pkt1] in \<open>auto simp: tables\<close>)
qed

lemma server_returns: "TlsHandshakeStatem e os (server_proc e os) s \<noteq> None"
proof (rule statem_returns[of "tls_progress (server_proc e os)"])
  show "statem_step e os (server_proc e os) s \<noteq> None" for s
    by (rule statem_step_returns) (rule server_skip_returns)
next
  fix s s1 s2 :: "'a hs" and ret
  let ?p = "server_proc e os (hs_state (fst s))"
  note tables = server_read_def server_write_def client_read_def client_write_def no_process_def
  assume st: "statem_step e os (server_proc e os) s = Some (s1, Inr ret)" and ret: "ret \<notin> leaves"
    and fin: "tp_flow_state ?p \<noteq> QUIC_FLOW_FINISHED" and w: "post_work ?p s1 = (s2, Inr ())"
  show "(s2, s) \<in> tls_progress (server_proc e os)"
  proof (cases "tp_flow_state ?p")
    case QUIC_FLOW_READING
    with st ret w have "rp_left (fst (snd s2)) < rp_left (fst (snd s))" by (intro step_read)
    then show ?thesis by (simp add: tls_progress_def)
  next
    case QUIC_FLOW_WRITING
    obtain pkt quic' pkt' where h: "TlsHandshakeWrite e (fst s) ?p pkt = ((quic', pkt'), Inr ret)"
      and q: "fst s1 = quic'" "fst (snd s2) = fst (snd s)"
      using st QUIC_FLOW_WRITING w by (rule step_write)
    have "s2 = s1" using w server_write(1)[OF h ret] by (simp add: post_work_None)
    moreover have rank: "hs_rank (server_proc e os) (hs_state (fst s)) = tls_rank (hs_state (fst s))"
      using QUIC_FLOW_WRITING by (simp add: hs_rank_def)
    moreover have "hs_rank (server_proc e os) st = tls_rank st" if "tls_rank st > 0 \<or> st = TLS_ST_SW_HANDSHAKE_DONE" for st
      using that by (cases st) (simp_all add: hs_rank_def tables)
    ultimately show ?thesis
      using server_write(2)[OF h ret] q by (auto simp: tls_progress_def)
  next
    case QUIC_FLOW_NOTHING
    have "tp_post_work ?p = None"
      using QUIC_FLOW_NOTHING by (cases "hs_state (fst s)") (simp_all add: tables)
    note n = step_nothing[OF st QUIC_FLOW_NOTHING w this]
    have "hs_rank (server_proc e os) (tp_next_state ?p) < hs_rank (server_proc e os) (hs_state (fst s))"
      using QUIC_FLOW_NOTHING
      by (cases "hs_state (fst s)") (simp_all add: hs_rank_def tables)
    then show ?thesis using n by (simp add: tls_progress_def)
  qed (use fin in simp)
qed (simp add: tls_progress_def)

section \<open>The engine\<close>

lemma flush_returns: "tls_flush e s ret \<noteq> None"
  by (cases s) (simp add: tls_flush_def Let_def crypto_frame_returns del: not_None_eq split: sum.split)

text \<open>No handler asks for a flush, so that the loop of the engine runs once.\<close>

lemma tls_loop_returns:
  assumes "table_gives proc" and "\<And>s. TlsHandshakeStatem e os proc s \<noteq> None"
  shows "tls_loop e os proc quic rpkt pkt_type \<noteq> None"
proof (cases "qbf_buf (q_tls_buffer quic)")
  case (Some m)
  obtain s ret where r: "TlsHandshakeStatem e os proc (quic, rpkt, WPacketBufInit m, pkt_type) = Some (s, ret)"
    using assms(2) by fastforce
  obtain f where f: "tls_flush e s ret = Some f" using flush_returns[of e s ret] by auto
  have "ret \<noteq> Inr QUIC_FLOW_RET_WANT_WRITE" using statem_gives[OF assms(1), of e os _ s] r by blast
  then show ?thesis by (subst tls_loop.simps) (simp add: Some r f split: prod.split sum.split)
qed (simp add: tls_loop.simps)

lemma handshake_returns:
  "table_gives proc \<Longrightarrow> (\<And>s. TlsHandshakeStatem e os proc s \<noteq> None) \<Longrightarrow> TlsHandshake e os proc quic \<noteq> None"
  by (simp add: TlsHandshake_def Let_def tls_loop_returns del: not_None_eq split: sum.split)

text \<open>C3: a run of the TLS engine, on either side and from any state, with any configuration, cryptography and received bytes,
returns: it never loops for ever, neither over the messages it reads nor over the ones it writes.\<close>

theorem handshake_terminates: "TlsDoHandshake e os quic \<noteq> None"
  by (simp add: TlsDoHandshake_def TlsAccept_def TlsConnect_def handshake_returns client_table_gives server_table_gives
      client_returns server_returns del: not_None_eq)

end
