(* ===== verification/Tls_Keys.thy ===== *)
theory Tls_Keys
  imports Tls_Srvr
begin

text \<open>
  What the secrets and keys of the handshake are: every derivation returns, the steps of the key schedule are those
  of RFC 8446, both ends derive the same handshake keys from the same secret and transcript, and a
  Finished message is accepted by a peer that derived the same keys.
\<close>

section \<open>Derivations return\<close>

named_theorems returns_intros \<open>operations that return\<close>

lemma returns_steps [returns_intros]:
  "Some x \<noteq> None"
  "r \<noteq> None \<Longrightarrow> (\<And>a. f a \<noteq> None) \<Longrightarrow> bindO r f g \<noteq> None"
  "q \<noteq> None \<Longrightarrow> (\<And>s b. h s b \<noteq> None) \<Longrightarrow> bindSO q h \<noteq> None"
  "c \<noteq> None \<Longrightarrow> (\<And>d. k d \<noteq> None) \<Longrightarrow> Option.bind c k \<noteq> None"
  "t \<noteq> None \<Longrightarrow> u \<noteq> None \<Longrightarrow> (if b then t else u) \<noteq> None"
  "(\<And>x y. l x y \<noteq> None) \<Longrightarrow> (case z of (x, y) \<Rightarrow> l x y) \<noteq> None"
  "(\<And>x. m x \<noteq> None) \<Longrightarrow> (\<And>y. n y \<noteq> None) \<Longrightarrow> (case w of Inl x \<Rightarrow> m x | Inr y \<Rightarrow> n y) \<noteq> None"
  "t \<noteq> None \<Longrightarrow> (\<And>y. v y \<noteq> None) \<Longrightarrow> (case j of None \<Rightarrow> t | Some y \<Rightarrow> v y) \<noteq> None"
  by (auto simp: bindO_def bindSO_def split: option.split sum.split prod.split)

text \<open>A key derivation of up to 64 bytes returns, whatever the digest does.\<close>

lemma hkdf_loop_returns:
  assumes "unat n \<le> 254"
  shows "hkdf_loop md prk info len n i prev okm d \<noteq> None"
proof (induction "255 - unat i" arbitrary: i prev okm d rule: less_induct)
  case less
  have "hkdf_loop md prk info len n (i + 1) p o' d' \<noteq> None" if "(ucast i :: u64) \<le> n" for p o' d'
  proof (rule less)
    have "unat i \<le> 254" using that assms unsigned_less[of i, where 'a = nat]
      by (simp add: word_le_nat_alt unsigned_ucast_eq unsigned_take_bit_eq take_bit_nat_eq_self)
    then have "unat (i + 1) = unat i + 1" by (simp add: unat_word_ariths)
    then show "255 - unat (i + 1) < 255 - unat i" using \<open>unat i \<le> 254\<close> by simp
  qed
  then show ?case
    by (subst hkdf_loop.simps) (simp del: not_None_eq add: Let_def split: option.split sum.split)
qed

lemma expand_returns:
  assumes "unat len \<le> 64"
  shows "HkdfExpand md prk info okm len \<noteq> None"
proof -
  have "unat (len div k + (if len mod k \<noteq> 0 then 1 else 0)) \<le> 254" for k
  proof -
    have "unat (len div k) \<le> 64" using assms order_trans[OF div_le_dividend[of "unat len" "unat k"]] by (simp add: unat_div)
    then show ?thesis by (simp add: unat_word_ariths)
  qed
  then show ?thesis unfolding HkdfExpand_def Let_def by - (rule returns_intros hkdf_loop_returns | assumption)+
qed

lemma label_returns:
  assumes "unat len \<le> 64"
  shows "TLS13HkdfExpandLabel e md secret label data data_len out len \<noteq> None"
  by (simp del: not_None_eq add: TLS13HkdfExpandLabel_def Let_def expand_returns[OF assms]
      split: option.split sum.split prod.split)

lemma secret_returns [returns_intros]: "n \<le> 64 \<Longrightarrow> expand_secret e ek s label out n \<noteq> None"
  by (simp add: expand_secret_def QuicTLS13HkdfExpandLabel_def label_returns unat_of_nat take_bit_nat_eq_self del: not_None_eq split: option.split)

lemma ciphers_return [returns_intros]: "QuicCiphersPrepare e ek cs secret enc \<noteq> None"
proof -
  have hp [returns_intros]: "QuicHPCipherPrepare e ek c s \<noteq> None" for c s
  proof (cases "QuicFindCipherByAlg ek (qc_alg c)")
    case (Inr x)
    then show ?thesis unfolding QuicHPCipherPrepare_def AES_KEY_MAX_SIZE_def
      by (cases x) (simp del: not_None_eq add: returns_intros)
  qed (simp add: QuicHPCipherPrepare_def)
  have pp [returns_intros]: "QuicPPCipherPrepare e ek c s enc \<noteq> None" for c s enc
  proof (cases "QuicFindCipherByAlg ek (qc_alg (pp_cipher c))")
    case (Inr x)
    then show ?thesis unfolding QuicPPCipherPrepare_def AES_KEY_MAX_SIZE_def TLS13_AEAD_NONCE_LENGTH_def
      by (cases x) (simp del: not_None_eq add: returns_intros Let_def split: prod.split)
  qed (simp add: QuicPPCipherPrepare_def)
  show ?thesis unfolding QuicCiphersPrepare_def Let_def by (rule returns_intros)+
qed

section \<open>The key schedule\<close>

text \<open>HKDF-Expand-Label of RFC 8446, section 7.1.\<close>

definition rfc_expand_label :: "evp_md \<Rightarrow> bytes \<Rightarrow> bytes \<Rightarrow> bytes \<Rightarrow> nat \<Rightarrow> bytes" where
  "rfc_expand_label md secret label ctx n = rfc_hkdf_expand md secret (hkdf_label n label ctx) n"

lemma length_rfc_expand_label: "md_ok md \<Longrightarrow> length (rfc_expand_label md secret label ctx n) = n"
proof -
  assume md: "md_ok md"
  then have s: "0 < md_size md" by (simp add: md_ok_def)
  have "n + md_size md - 1 < (hkdf_n md n + 1) * md_size md"
    unfolding hkdf_n_def using s by (metis Suc_eq_plus1 dividend_less_times_div mult.commute mult_Suc_right add.commute)
  then have "n \<le> hkdf_n md n * md_size md" using s by simp
  then show ?thesis
    using length_hkdf_blocks[OF md, of secret "hkdf_label n label ctx" "hkdf_n md n"]
    by (simp add: rfc_expand_label_def rfc_hkdf_expand_def hkdf_blocks_def hkdf_n_def)
qed

lemma label_array_ok:
  assumes md: "md_ok md" and b: "buf_ok e" and lb: "length label \<le> 249"
    and d: "k \<le> 255" "case data of None \<Rightarrow> k = 0 | Some d \<Rightarrow> k \<le> length d"
    and s: "md_size md \<le> length secret" and n: "n \<le> 64" "n \<le> length out"
  shows "hkdf_label_array e md secret label data k out n =
    Inr (rfc_expand_label md (take (md_size md) secret) label (take k (case data of None \<Rightarrow> [] | Some d \<Rightarrow> d)) n @ drop n out)"
proof -
  let ?ctx = "take k (case data of None \<Rightarrow> [] | Some d \<Rightarrow> d)"
  have l: "length ?ctx = k" using d(2) by (auto split: option.split_asm)
  have un: "unat (of_nat n :: u64) = n" using n(1) by (intro of_nat_unat64) simp
  have h: "hkdf_n md n \<le> 254" using hkdf_n_le[of md n] md n(1) by (simp add: md_ok_def)
  have "TLS13HkdfExpandLabel e md (take (md_size md) secret) label data (of_nat k) out (of_nat n) =
      Some (Inr (rfc_expand_label md (take (md_size md) secret) label ?ctx n @ drop n out))"
    using expand_label_ok[OF md _ _ _ lb, of e ?ctx data "of_nat n" out "take (md_size md) secret"] b d l n h un
    by (cases data) (simp_all add: buf_ok_def rfc_expand_label_def min_absorb2)
  moreover have "mem_slice secret 0 (md_size md) = Inr (take (md_size md) secret)" using s by (simp add: mem_slice_def)
  ultimately show ?thesis by (simp add: hkdf_label_array_def returned_def)
qed

text \<open>HKDF-Extract of RFC 5869, an absent salt being zeros, and Derive-Secret of RFC 8446 on a hash of messages.\<close>

definition rfc_extract :: "evp_md \<Rightarrow> bytes \<Rightarrow> bytes \<Rightarrow> bytes" where
  "rfc_extract md salt ikm = hmac md (if salt = [] then replicate (md_size md) 0 else salt) ikm"

definition rfc_derive :: "evp_md \<Rightarrow> bytes \<Rightarrow> string \<Rightarrow> bytes \<Rightarrow> bytes" where
  "rfc_derive md secret label h = rfc_expand_label md secret (ascii label) h (md_size md)"

definition rfc_zeros :: "evp_md \<Rightarrow> bytes" where
  "rfc_zeros md = replicate (md_size md) 0"

definition rfc_next :: "evp_md \<Rightarrow> bytes \<Rightarrow> bytes \<Rightarrow> bytes" where
  "rfc_next md secret ikm = rfc_extract md (rfc_derive md secret ''derived'' (the (md_hash md []))) ikm"

text \<open>OpenSSL's HKDF in extract-only mode, and a digest that hashes.\<close>

definition kdf_spec :: "'c ossl \<Rightarrow> evp_md \<Rightarrow> bool" where
  "kdf_spec os md \<longleftrightarrow> md_ok md \<and> (\<forall>m. \<exists>h. md_hash md m = Some h \<and> length h = md_size md)
     \<and> (\<forall>salt k. os_extract os md salt k = Some (rfc_extract md salt k))"

lemma length_rfc_extract: "md_ok md \<Longrightarrow> length (rfc_extract md salt k) = md_size md"
  by (simp add: rfc_extract_def length_hmac)

lemma length_rfc_derive: "md_ok md \<Longrightarrow> length (rfc_derive md s l h) = md_size md"
  by (simp add: rfc_derive_def length_rfc_expand_label)

lemma mem_copy_start:
  "length d \<le> length m \<Longrightarrow> mem_copy m 0 d = Inr (d @ drop (length d) m)"
  by (auto simp: mem_copy_def)

lemma mem_slice_front: "n \<le> length m \<Longrightarrow> mem_slice m 0 n = Inr (take n m)"
  by (auto simp: mem_slice_def)

lemma generate_first:
  assumes "kdf_spec os md" and "length out = EVP_MAX_MD_SIZE"
    and "case key of None \<Rightarrow> True | Some (k, n) \<Rightarrow> n \<le> length k"
  shows "TlsGenerateSecret e os (Some md) None key out =
    Inr (rfc_extract md [] (case key of None \<Rightarrow> rfc_zeros md | Some (k, n) \<Rightarrow> take n k) @ drop (md_size md) out)"
  using assms length_rfc_extract[of md]
  by (cases key) (auto simp: TlsGenerateSecret_def kdf_spec_def md_ok_def someR_def default_zeros_def EVP_MAX_MD_SIZE_def
      rfc_zeros_def mem_slice_front mem_copy_start min_absorb1)

lemma generate_next:
  assumes k: "kdf_spec os md" and b: "buf_ok e" and out: "length out = EVP_MAX_MD_SIZE" and p: "length prev = EVP_MAX_MD_SIZE"
    and key: "case key of None \<Rightarrow> True | Some (k, n) \<Rightarrow> n \<le> length k"
  shows "TlsGenerateSecret e os (Some md) (Some prev) key out =
    Inr (rfc_next md (take (md_size md) prev) (case key of None \<Rightarrow> rfc_zeros md | Some (k, n) \<Rightarrow> take n k) @ drop (md_size md) out)"
proof -
  have md: "md_ok md" "md_size md \<le> 64" using k by (simp_all add: kdf_spec_def md_ok_def)
  obtain h where h: "md_hash md [] = Some h" "length h = md_size md" using k unfolding kdf_spec_def by blast
  let ?z = "replicate EVP_MAX_MD_SIZE 0 :: bytes"
  let ?salt = "rfc_derive md (take (md_size md) prev) ''derived'' h"
  have c: "mem_copy ?z 0 h = Inr (h @ drop (md_size md) ?z)"
    using mem_copy_start[of h ?z] h md by (simp add: EVP_MAX_MD_SIZE_def)
  have "hkdf_label_array e md prev (ascii ''derived'') (Some (h @ drop (md_size md) ?z)) (md_size md) ?z (md_size md)
      = Inr (?salt @ drop (md_size md) ?z)"
    using label_array_ok[OF md(1) b, of "ascii ''derived''" "md_size md" "Some (h @ drop (md_size md) ?z)" prev "md_size md" ?z]
      h md p by (simp add: rfc_derive_def ascii_def EVP_MAX_MD_SIZE_def)
  moreover have "mem_slice (?salt @ drop (md_size md) ?z) 0 (md_size md) = Inr ?salt"
    using length_rfc_derive[OF md(1), of "take (md_size md) prev" "''derived''" h] by (simp add: mem_slice_front)
  moreover have "mem_slice (case key of None \<Rightarrow> default_zeros | Some (k, n) \<Rightarrow> k) 0 (case key of None \<Rightarrow> md_size md | Some (k, n) \<Rightarrow> n) =
      Inr (case key of None \<Rightarrow> rfc_zeros md | Some (k, n) \<Rightarrow> take n k)"
    using key md by (auto simp: default_zeros_def rfc_zeros_def EVP_MAX_MD_SIZE_def mem_slice_front min_absorb1 split: option.split)
  moreover have "mem_copy out 0 (rfc_extract md ?salt ikm) = Inr (rfc_extract md ?salt ikm @ drop (md_size md) out)" for ikm
    using mem_copy_start[of "rfc_extract md ?salt ikm" out] length_rfc_extract[OF md(1)] out md(2) by (simp add: EVP_MAX_MD_SIZE_def)
  ultimately show ?thesis
    using k h c by (cases key) (auto simp: TlsGenerateSecret_def someR_def kdf_spec_def rfc_next_def)
qed

text \<open>C8: the key schedule: \<^verbatim>\<open>TlsKeyDerive\<close> and \<^verbatim>\<open>TlsGenerateMasterSecret\<close> compute the handshake and the master secret of RFC
  8446, section 7.1, from the shared secret of the key exchange: two steps of Extract over Derive-Secret with the label
  ``derived'', which start from the early secret of the pre-shared key when there is one and from that of zeros otherwise.\<close>

theorem key_schedule_rfc:
  assumes "kdf_spec os md" and "buf_ok e" and "TlsHandshakeMd os s = Some md"
    and "os_derive os priv pub = Some pms" and "env_alloc e (length pms)"
    and "length (tl_early_secret s) = EVP_MAX_MD_SIZE" and "length (tl_handshake_secret s) = EVP_MAX_MD_SIZE"
    and "length (tl_master_secret s) = EVP_MAX_MD_SIZE"
    and "early = (if tl_hit s then take (md_size md) (tl_early_secret s) else rfc_extract md [] (rfc_zeros md))"
  shows "\<exists>s1 s2. TlsKeyDerive e os s (Some priv) (Some pub) = (s1, Inr ()) \<and> TlsGenerateMasterSecret e os s1 = (s2, Inr ())
    \<and> take (md_size md) (tl_handshake_secret s1) = rfc_next md early pms
    \<and> take (md_size md) (tl_master_secret s2) = rfc_next md (rfc_next md early pms) (rfc_zeros md)"
proof -
  have md: "md_ok md" "md_size md \<le> 64" using assms(1) by (simp_all add: kdf_spec_def md_ok_def)
  have ln: "length (rfc_next md x y) = md_size md" for x y
    using length_rfc_extract[OF md(1)] by (simp add: rfc_next_def)
  define x1 where "x1 = (if tl_hit s then tl_early_secret s else rfc_extract md [] (rfc_zeros md) @ drop (md_size md) (tl_early_secret s))"
  have x1: "take (md_size md) x1 = early" "length x1 = EVP_MAX_MD_SIZE"
    using assms(6,9) md length_rfc_extract[OF md(1)] by (simp_all add: x1_def EVP_MAX_MD_SIZE_def)
  let ?s0 = "s\<lparr>tl_early_secret := x1\<rparr>"
  define x2 where "x2 = rfc_next md early pms @ drop (md_size md) (tl_handshake_secret s)"
  have e1: "TlsGenerateSecret e os (Some md) None None (tl_early_secret s) = Inr x1" if "\<not> tl_hit s"
    using generate_first[OF assms(1,6), of None e] that by (simp add: x1_def)
  have e2: "TlsGenerateSecret e os (Some md) (Some x1) (Some (pms, length pms)) (tl_handshake_secret s) = Inr x2"
    using generate_next[OF assms(1,2,7) x1(2), of "Some (pms, length pms)"] x1(1) by (simp add: x2_def)
  have k: "TlsKeyDerive e os s (Some priv) (Some pub) = (?s0\<lparr>tl_handshake_secret := x2\<rparr>, Inr ())"
  proof (cases "tl_hit s")
    case True
    then have "?s0 = s" by (simp add: x1_def)
    with True show ?thesis using assms(3-5) e2 by (simp add: TlsKeyDerive_def Let_def x1_def bindS_def)
  next
    case False
    then show ?thesis using assms(3-5) e1 e2 by (simp add: TlsKeyDerive_def Let_def bindS_def)
  qed
  have l2: "length x2 = EVP_MAX_MD_SIZE" "take (md_size md) x2 = rfc_next md early pms"
    using assms(7) md ln by (simp_all add: x2_def EVP_MAX_MD_SIZE_def)
  define x3 where "x3 = rfc_next md (rfc_next md early pms) (rfc_zeros md) @ drop (md_size md) (tl_master_secret s)"
  have "TlsGenerateSecret e os (Some md) (Some x2) None (tl_master_secret s) = Inr x3"
    using generate_next[OF assms(1,2,8) l2(1), of None] l2(2) by (simp add: x3_def)
  then have "TlsGenerateMasterSecret e os (?s0\<lparr>tl_handshake_secret := x2\<rparr>) =
      (?s0\<lparr>tl_handshake_secret := x2, tl_master_secret := x3\<rparr>, Inr ())"
    using assms(3) by (simp add: TlsGenerateMasterSecret_def TlsHandshakeMd_def)
  with k l2 show ?thesis using ln by (auto simp: x3_def)
qed

text \<open>A library for concrete inputs: keys are numbers, a shared secret is their sum.\<close>

definition demo_ossl :: "demo_ctx ossl" where
  "demo_ossl = \<lparr>os_keys = demo_keys, os_md = (\<lambda>i. if i = QUIC_DIGEST_SHA256 then Some demo_md32 else None),
     os_extract = (\<lambda>md salt k. Some (rfc_extract md salt k)),
     os_keygen = (\<lambda>k custom nid. Some k), os_keygen_from = (\<lambda>k pk. Some (k + pk)), os_paramgen = (\<lambda>custom nid. Some 0),
     os_encode_point = (\<lambda>pk. [of_nat pk]), os_copy_params = Some, os_set_point = (\<lambda>pk d. if d = [] then None else Some (unat (hd d))),
     os_derive = (\<lambda>a b. Some [of_nat (a + b)]), os_pkey_id = (\<lambda>pk. EVP_PKEY_EC), os_pkey_size = (\<lambda>pk. 64),
     os_default_md = (\<lambda>pk. None), os_ec_curve = (\<lambda>pk. NID_curve_undef), os_rsa_size = (\<lambda>pk. None),
     os_sign = (\<lambda>pk md pss d. Some [of_nat pk, sum_list d]), os_verify = (\<lambda>pk md pss sig d. sig = [of_nat pk, sum_list d]),
     os_d2i_x509 = (\<lambda>d. if d = [] then None else Some (unat (hd d), 1)), os_i2d_x509 = (\<lambda>x. Some [of_nat x]),
     os_x509_pubkey = Some, os_sha256 = demo_md32, os_iv_len = 16,
     os_cbc_enc = (\<lambda>k iv d. Some (d, [])), os_cbc_dec = (\<lambda>k iv d. Some d),
     os_i2d_session = (\<lambda>as. as_master_key as), os_d2i_session = (\<lambda>d. None)\<rparr>"

lemma demo_kdf: "kdf_spec demo_ossl demo_md32"
  by (simp add: kdf_spec_def demo_ossl_def md_ok_def demo_md32_def)

theorem key_schedule_rfc_witness:
  "\<exists>s1 s2. TlsKeyDerive env0 demo_ossl (tls_zero\<lparr>tl_handshake_cipher := Some (tls_ciphers ! 0)\<rparr>) (Some 3) (Some 4) = (s1, Inr ())
    \<and> TlsGenerateMasterSecret env0 demo_ossl s1 = (s2, Inr ())
    \<and> take 32 (tl_handshake_secret s1) = rfc_next demo_md32 (rfc_extract demo_md32 [] (rfc_zeros demo_md32)) [7]"
proof -
  let ?s = "tls_zero\<lparr>tl_handshake_cipher := Some (tls_ciphers ! 0)\<rparr>"
  have "TlsHandshakeMd demo_ossl ?s = Some demo_md32"
    by (simp add: TlsHandshakeMd_def QuicMd_def tls_ciphers_def demo_ossl_def QUIC_DIGEST_SHA256_def QUIC_GE_def quic_diff_def)
  from key_schedule_rfc[OF demo_kdf demo_buf_ok this, of 3 4 "[7]" "rfc_extract demo_md32 [] (rfc_zeros demo_md32)"]
  show ?thesis by (simp add: demo_ossl_def tls_zero_def env0_def demo_md32_def) blast
qed

section \<open>The keys of the handshake\<close>

text \<open>What a side needs to derive keys: the first cipher suite was chosen, which hashes with the digest
  \<open>md\<close>, the messages so far are \<open>m\<close>, and the arrays have their sizes.\<close>

definition tls_ready :: "'c ossl \<Rightarrow> evp_md \<Rightarrow> bytes \<Rightarrow> Tls \<Rightarrow> bool" where
  "tls_ready os md m s \<longleftrightarrow> tl_handshake_cipher s = Some (tls_ciphers ! 0) \<and> QuicMd os QUIC_DIGEST_SHA256 = Some md
     \<and> tl_handshake_dgst s = Some (Some QUIC_DIGEST_SHA256, m)
     \<and> (\<forall>a \<in> {tl_handshake_secret, tl_handshake_traffic_hash, tl_client_finished_secret, tl_server_finished_secret,
              tl_finish_md, tl_peer_finish_md}. length (a s) = EVP_MAX_MD_SIZE)"

text \<open>A side of the handshake space that has no keys yet.\<close>

definition hs_side_new :: "bool \<Rightarrow> 'c Quic \<Rightarrow> bool" where
  "hs_side_new enc quic \<longleftrightarrow> \<not> csp_cipher_inited (space_side enc (q_handshake quic))
     \<and> length (pp_iv (qcs_pp_cipher (csp_ciphers (space_side enc (q_handshake quic))))) = 12"

definition hs_label :: "bool \<Rightarrow> string" where
  "hs_label srv = (if srv then ''s hs traffic'' else ''c hs traffic'')"

definition finished_key :: "evp_md \<Rightarrow> bytes \<Rightarrow> bytes" where
  "finished_key md secret = rfc_expand_label md secret (ascii ''finished'') [] (md_size md)"

text \<open>Only the start of a secret counts.\<close>

lemma prepare_take:
  "QuicCiphersPrepare e ek cs (Some s) enc = QuicCiphersPrepare e ek cs (Some (take (md_size (ek_md ek)) s)) enc"
proof -
  have a: "expand_secret e ek (Some s) label out n = expand_secret e ek (Some (take (md_size (ek_md ek)) s)) label out n" for label out n
    by (simp add: expand_secret_def)
  have c: "QuicCipherDoPrepare ek c n (Some s) key enc = QuicCipherDoPrepare ek c n (Some (take (md_size (ek_md ek)) s)) key enc"
    for c n key enc by (simp add: QuicCipherDoPrepare_def Let_def split: option.split)
  show ?thesis
    unfolding QuicCiphersPrepare_def QuicHPCipherPrepare_def QuicPPCipherPrepare_def a[symmetric] c[symmetric] by simp
qed

lemma handshake_hash_ok:
  assumes "tls_ready os md m s" and "kdf_spec os md" and "md_hash md m = Some h" and "n = EVP_MAX_MD_SIZE"
  shows "TlsHandshakeHash os s (replicate n 0) EVP_MAX_MD_SIZE = Inr (h @ replicate (n - md_size md) 0, md_size md)"
proof -
  have "length h = md_size md" "md_size md \<le> 64" using assms(2,3) unfolding kdf_spec_def md_ok_def by (metis option.inject, blast)
  then show ?thesis
    using assms by (simp add: TlsHandshakeHash_def tls_ready_def someR_def mem_copy_start EVP_MAX_MD_SIZE_def)
qed

text \<open>The keys one side installs, for either direction of traffic.\<close>

lemma handshake_keys_installed:
  fixes quic :: "'c Quic"
  assumes k: "keys_spec ((os_keys os)\<lparr>ek_md := md\<rparr>) P H" and kdf: "kdf_spec os md" and b: "buf_ok e"
    and rdy: "tls_ready os md m (q_tls quic)" and h: "md_hash md m = Some h" and new: "hs_side_new enc quic"
    and sec: "sec = take 32 (tl_handshake_secret (q_tls quic))"
    and hs: "hs = (if srv then h else take 32 (tl_handshake_traffic_hash (q_tls quic)))"
    and tr: "tr = rfc_derive md sec (hs_label srv) hs"
  shows "\<exists>s' f. (if srv then QuicCreateHandshakeServerEncryptorDecryptor e os quic enc
      else QuicCreateHandshakeClientEncryptorDecryptor e os quic enc) =
    (quic\<lparr>q_tls := s', q_handshake := space_set enc
       \<lparr>csp_ciphers = ciphers_of ((os_keys os)\<lparr>ek_md := md\<rparr>) tr enc, csp_cipher_inited = True\<rparr> (q_handshake quic)\<rparr>, Inr ())
    \<and> tls_ready os md m s' \<and> take 32 (tl_handshake_traffic_hash s') = hs
    \<and> tl_handshake_secret s' = tl_handshake_secret (q_tls quic)
    \<and> take 32 (if srv then tl_server_finished_secret s' else tl_client_finished_secret s') = finished_key md tr
    \<and> (if srv then tl_client_finished_secret s' = tl_client_finished_secret (q_tls quic)
       else tl_server_finished_secret s' = tl_server_finished_secret (q_tls quic))"
proof -
  let ?s = "q_tls quic" and ?ek = "(os_keys os)\<lparr>ek_md := md\<rparr>" and ?c = "q_handshake quic"
  have md: "md_ok md" "md_size md = 32" using k by (simp_all add: keys_spec_def)
  have lh: "length h = 32" using kdf h md(2) unfolding kdf_spec_def by (metis option.inject)
  have d: "TlsDigestCachedRecords os quic = (quic, Inr ())"
    using rdy by (simp add: TlsDigestCachedRecords_def tls_ready_def Let_def)
  have hh: "TlsHandshakeHash os ?s (replicate EVP_MAX_MD_SIZE 0) EVP_MAX_MD_SIZE = Inr (h @ replicate 32 0, 32)"
    using handshake_hash_ok[OF rdy kdf h refl] md(2) by (simp add: EVP_MAX_MD_SIZE_def)
  have hm: "TlsHandshakeMd os s = Some md" if "tl_handshake_cipher s = tl_handshake_cipher ?s" for s
    using that rdy by (simp add: TlsHandshakeMd_def tls_ready_def tls_ciphers_def)
  have la: "hkdf_label_array e md (tl_handshake_secret ?s) (ascii (hs_label srv)) (Some x) 32 (fresh_mem e 64) 32 = Inr (tr @ drop 32 (fresh_mem e 64))"
    if "take 32 x = hs" "32 \<le> length x" for x
  proof -
    have "32 \<le> length (tl_handshake_secret ?s)" using rdy by (simp add: tls_ready_def EVP_MAX_MD_SIZE_def)
    then show ?thesis
      using label_array_ok[OF md(1) b, of "ascii (hs_label srv)" 32 "Some x" "tl_handshake_secret ?s" 32 "fresh_mem e 64"] that md(2)
      by (simp add: hs_label_def ascii_def tr rfc_derive_def sec)
  qed
  have ltr: "length tr = 32" using length_rfc_derive[OF md(1)] md(2) by (simp add: tr)
  have lf: "hkdf_label_array e md (tr @ drop 32 (fresh_mem e 64)) (ascii ''finished'') None 0 out 32 = Inr (finished_key md tr @ drop 32 out)"
    if "length out = EVP_MAX_MD_SIZE" for out
    using label_array_ok[OF md(1) b, of "ascii ''finished''" 0 None "tr @ drop 32 (fresh_mem e 64)" 32 out] that md(2) ltr
    by (simp add: ascii_def finished_key_def EVP_MAX_MD_SIZE_def)
  have lfk: "length (finished_key md tr) = 32" using length_rfc_expand_label[OF md(1)] md(2) by (simp add: finished_key_def)
  have pr: "QuicCiphersPrepare e ?ek cs (Some (tr @ drop 32 (fresh_mem e 64))) enc = Some (ciphers_of ?ek tr enc, Inr 0)"
    if "fresh_ciphers cs" for cs
    using prepare_take[of e ?ek cs "tr @ drop 32 (fresh_mem e 64)" enc] ciphers_prepare_ok[OF k b ltr that] md(2) ltr by simp
  define cs where "cs = csp_ciphers (space_side enc ?c)"
  define cs1 where "cs1 = cs\<lparr>qcs_hp_cipher := (qcs_hp_cipher cs)\<lparr>qc_alg := QUIC_ALG_AES_128_ECB\<rparr>,
     qcs_pp_cipher := (qcs_pp_cipher cs)\<lparr>pp_cipher := (pp_cipher (qcs_pp_cipher cs))\<lparr>qc_alg := QUIC_ALG_AES_128_GCM\<rparr>\<rparr>\<rparr>"
  have fr: "fresh_ciphers cs1" using new by (simp add: fresh_ciphers_def cs1_def cs_def hs_side_new_def)
  have side: "space_side enc ?c = \<lparr>csp_ciphers = cs, csp_cipher_inited = False\<rparr>"
    using new by (cases "space_side enc ?c") (simp add: cs_def hs_side_new_def)
  have hpset: "QUIC_set_hp_cipher_space_alg (space_side enc ?c) QUIC_ALG_AES_128_ECB =
      Inr \<lparr>csp_ciphers = cs\<lparr>qcs_hp_cipher := (qcs_hp_cipher cs)\<lparr>qc_alg := QUIC_ALG_AES_128_ECB\<rparr>\<rparr>, csp_cipher_inited = False\<rparr>"
    by (simp add: side QUIC_set_hp_cipher_space_alg_def QUIC_set_hp_ciphers_alg_def QUIC_set_cipher_alg_def
        QUIC_ALG_AES_128_ECB_def QUIC_ALG_MAX_def)
  have ppset: "QUIC_set_pp_cipher_space_alg \<lparr>csp_ciphers = cs\<lparr>qcs_hp_cipher := (qcs_hp_cipher cs)\<lparr>qc_alg := QUIC_ALG_AES_128_ECB\<rparr>\<rparr>,
      csp_cipher_inited = False\<rparr> (tc_algorithm_enc (tls_ciphers ! 0)) = Inr \<lparr>csp_ciphers = cs1, csp_cipher_inited = False\<rparr>"
    by (simp add: QUIC_set_pp_cipher_space_alg_def QUIC_set_pp_ciphers_alg_def QUIC_set_cipher_alg_def tls_ciphers_def
        QUIC_ALG_AES_128_GCM_def QUIC_ALG_MAX_def cs1_def)
  have put: "space_set enc a (space_set enc a' ?c) = space_set enc a ?c" for a a' by (simp add: space_set_def)
  have inst: "QuicInstallEncryptorDecryptor e os s2 md (tl_handshake_secret ?s) None (ascii (hs_label srv)) x
      \<lparr>csp_ciphers = cs1, csp_cipher_inited = False\<rparr> (Some fin) enc =
      ((arr_set fin (finished_key md tr @ drop 32 (arr_get fin s2)) s2, \<lparr>csp_ciphers = ciphers_of ?ek tr enc, csp_cipher_inited = True\<rparr>), Inr ())"
    if "take 32 x = hs" "32 \<le> length x" "length (arr_get fin s2) = EVP_MAX_MD_SIZE" for s2 x fin
    using la[OF that(1,2)] lf[OF that(3)] pr[OF fr] md(2)
    by (simp add: QuicInstallEncryptorDecryptor_def TlsDeriveSecrets_def TlsDeriveFinishedKey_def EVP_MAX_MD_SIZE_def)
  note r = rdy[unfolded tls_ready_def]
  have r': "tl_handshake_cipher ?s = Some (tls_ciphers ! 0)" using rdy by (simp add: tls_ready_def)
  have go: "QuicCreateEncryptorDecryptor e os quic CrHandshake tl_handshake_secret None hs_traffic_hash (hs_label srv) (Some fin) False srv enc =
      (quic\<lparr>q_tls := arr_set fin (finished_key md tr @ drop 32 (arr_get fin s2)) s2, q_handshake := space_set enc
       \<lparr>csp_ciphers = ciphers_of ?ek tr enc, csp_cipher_inited = True\<rparr> (q_handshake quic)\<rparr>, Inr ())"
    if hc: "(if srv then mem_copy (tl_handshake_traffic_hash ?s) 0 h else Inr (tl_handshake_traffic_hash ?s)) = Inr x"
      and s2: "s2 = ?s\<lparr>tl_handshake_traffic_hash := x\<rparr>" and fin: "length (arr_get fin s2) = EVP_MAX_MD_SIZE"
      and x: "take 32 x = hs" "32 \<le> length x" for fin x s2
  proof -
    have g: "arr_get hs_traffic_hash ?s = tl_handshake_traffic_hash ?s" "arr_set hs_traffic_hash x ?s = s2" "arr_get hs_traffic_hash s2 = x"
      by (simp_all add: arr_get_def arr_set_def hs_traffic_hash_def s2)
    have i: "\<not> csp_cipher_inited (space_side enc (q_handshake quic))" using new by (simp add: hs_side_new_def)
    have s: "tl_handshake_secret s2 = tl_handshake_secret ?s" "tl_handshake_cipher s2 = tl_handshake_cipher ?s" by (simp_all add: s2)
    have hc': "(if srv then mem_copy (arr_get hs_traffic_hash ?s) 0 (take 32 (h @ replicate 32 0)) else Inr (arr_get hs_traffic_hash ?s)) = Inr x"
      using hc lh g(1) by (auto split: if_splits)
    show ?thesis
      unfolding QuicCreateEncryptorDecryptor_def
      using inst[OF x fin] hm[OF s(2)]
      by (simp add: bindS_def d hh i r' g hc' hpset ppset put s md(2) on_tls_def Let_def del: take_append split del: if_split)
  qed
  have ls: "length (tl_handshake_traffic_hash ?s) = 64" "length (tl_server_finished_secret ?s) = 64"
    "length (tl_client_finished_secret ?s) = 64"
    using rdy by (simp_all add: tls_ready_def EVP_MAX_MD_SIZE_def)
  let ?x = "if srv then h @ drop 32 (tl_handshake_traffic_hash ?s) else tl_handshake_traffic_hash ?s"
  let ?s2 = "?s\<lparr>tl_handshake_traffic_hash := ?x\<rparr>"
  have hc: "(if srv then mem_copy (tl_handshake_traffic_hash ?s) 0 h else Inr (tl_handshake_traffic_hash ?s)) = Inr ?x"
    using ls lh by (simp add: mem_copy_start)
  have x: "take 32 ?x = hs" "32 \<le> length ?x" using lh ls by (simp_all add: hs)
  have lx: "length ?x = 64" using lh ls by simp
  show ?thesis
  proof (cases srv)
    case True
    let ?fin = "(tl_server_finished_secret, tl_server_finished_secret_update)"
    let ?s3 = "?s2\<lparr>tl_server_finished_secret := finished_key md tr @ drop 32 (tl_server_finished_secret ?s)\<rparr>"
    have "QuicCreateHandshakeServerEncryptorDecryptor e os quic enc = (quic\<lparr>q_tls := ?s3, q_handshake := space_set enc
       \<lparr>csp_ciphers = ciphers_of ?ek tr enc, csp_cipher_inited = True\<rparr> (q_handshake quic)\<rparr>, Inr ())"
      using go[OF hc refl _ x, of ?fin] True ls
      by (simp add: QuicCreateHandshakeServerEncryptorDecryptor_def hs_label_def arr_get_def arr_set_def EVP_MAX_MD_SIZE_def)
    moreover have "tls_ready os md m ?s3" using rdy True lx lfk ls by (simp add: tls_ready_def EVP_MAX_MD_SIZE_def)
    ultimately show ?thesis using True x lfk by auto
  next
    case False
    let ?fin = "(tl_client_finished_secret, tl_client_finished_secret_update)"
    let ?s3 = "?s2\<lparr>tl_client_finished_secret := finished_key md tr @ drop 32 (tl_client_finished_secret ?s)\<rparr>"
    have "QuicCreateHandshakeClientEncryptorDecryptor e os quic enc = (quic\<lparr>q_tls := ?s3, q_handshake := space_set enc
       \<lparr>csp_ciphers = ciphers_of ?ek tr enc, csp_cipher_inited = True\<rparr> (q_handshake quic)\<rparr>, Inr ())"
      using go[OF hc refl _ x, of ?fin] False ls
      by (simp add: QuicCreateHandshakeClientEncryptorDecryptor_def hs_label_def arr_get_def arr_set_def EVP_MAX_MD_SIZE_def)
    moreover have "tls_ready os md m ?s3" using rdy False lx lfk ls by (simp add: tls_ready_def EVP_MAX_MD_SIZE_def)
    ultimately show ?thesis using False x lfk by auto
  qed
qed

text \<open>A handshake message that enters the transcript.\<close>

definition hashed :: "bytes \<Rightarrow> 'c Quic \<Rightarrow> 'c Quic" where
  "hashed x quic = fst (on_tls quic (TlsFinishMac (q_tls quic) x))"

lemma hashed_ready:
  "tls_ready os md m (q_tls quic) \<Longrightarrow> tls_ready os md (m @ x) (q_tls (hashed x quic))
    \<and> hashed x quic = quic\<lparr>q_tls := (q_tls quic)\<lparr>tl_handshake_dgst := Some (Some QUIC_DIGEST_SHA256, m @ x)\<rparr>\<rparr>"
  by (simp add: hashed_def on_tls_def TlsFinishMac_def tls_ready_def)

lemma hashed_other: "q_handshake (hashed x quic) = q_handshake quic" "q_server (hashed x quic) = q_server quic"
  by (simp_all add: hashed_def on_tls_def)

lemma space_side_set: "space_side a (space_set b cs c) = (if a = b then cs else space_side a c)"
  by (simp add: space_side_def space_set_def)

text \<open>The keys one side has after both directions: its own come from one call, those of the peer from the other.\<close>

lemma both_directions:
  fixes quic :: "'c Quic"
  assumes k: "keys_spec ((os_keys os)\<lparr>ek_md := md\<rparr>) P H" and kdf: "kdf_spec os md" and b: "buf_ok e"
    and rdy: "tls_ready os md m (q_tls quic)" and h: "md_hash md m = Some h"
    and new: "hs_side_new True quic" "hs_side_new False quic"
    and sec: "sec = take 32 (tl_handshake_secret (q_tls quic))"
  shows "\<exists>quic1 quic2. QuicCreateHandshakeServerEncryptorDecryptor e os quic enc = (quic1, Inr ())
    \<and> QuicCreateHandshakeClientEncryptorDecryptor e os (hashed x quic1) (\<not> enc) = (quic2, Inr ())
    \<and> space_side enc (q_handshake quic2) = \<lparr>csp_ciphers = ciphers_of ((os_keys os)\<lparr>ek_md := md\<rparr>)
         (rfc_derive md sec ''s hs traffic'' h) enc, csp_cipher_inited = True\<rparr>
    \<and> space_side (\<not> enc) (q_handshake quic2) = \<lparr>csp_ciphers = ciphers_of ((os_keys os)\<lparr>ek_md := md\<rparr>)
         (rfc_derive md sec ''c hs traffic'' h) (\<not> enc), csp_cipher_inited = True\<rparr>
    \<and> tls_ready os md (m @ x) (q_tls quic2)
    \<and> take 32 (tl_server_finished_secret (q_tls quic2)) = finished_key md (rfc_derive md sec ''s hs traffic'' h)
    \<and> take 32 (tl_client_finished_secret (q_tls quic2)) = finished_key md (rfc_derive md sec ''c hs traffic'' h)"
proof -
  obtain h' where h': "md_hash md (m @ x) = Some h'" using kdf unfolding kdf_spec_def by blast
  have "hs_side_new enc quic" using new by (cases enc) simp_all
  from handshake_keys_installed[OF k kdf b rdy h this sec refl refl, of True]
  obtain s1 where r1: "QuicCreateHandshakeServerEncryptorDecryptor e os quic enc = (quic\<lparr>q_tls := s1, q_handshake := space_set enc
       \<lparr>csp_ciphers = ciphers_of ((os_keys os)\<lparr>ek_md := md\<rparr>) (rfc_derive md sec (hs_label True) h) enc, csp_cipher_inited = True\<rparr> (q_handshake quic)\<rparr>, Inr ())"
    and s1: "tls_ready os md m s1" "take 32 (tl_handshake_traffic_hash s1) = h" "tl_handshake_secret s1 = tl_handshake_secret (q_tls quic)"
      "take 32 (tl_server_finished_secret s1) = finished_key md (rfc_derive md sec (hs_label True) h)"
    by auto
  define quic1 where "quic1 = fst (QuicCreateHandshakeServerEncryptorDecryptor e os quic enc)"
  have q1: "q_tls quic1 = s1" "QuicCreateHandshakeServerEncryptorDecryptor e os quic enc = (quic1, Inr ())"
    using r1 by (simp_all add: quic1_def)
  have rdy1: "tls_ready os md (m @ x) (q_tls (hashed x quic1))"
    and hx: "hashed x quic1 = quic1\<lparr>q_tls := s1\<lparr>tl_handshake_dgst := Some (Some QUIC_DIGEST_SHA256, m @ x)\<rparr>\<rparr>"
    using hashed_ready[of os md m quic1 x] s1(1) unfolding q1(1) by blast+
  have qh: "q_handshake quic1 = space_set enc \<lparr>csp_ciphers = ciphers_of ((os_keys os)\<lparr>ek_md := md\<rparr>)
      (rfc_derive md sec (hs_label True) h) enc, csp_cipher_inited = True\<rparr> (q_handshake quic)"
    by (simp add: quic1_def r1)
  have new1: "hs_side_new (\<not> enc) (hashed x quic1)"
    using new by (cases enc) (simp_all add: hs_side_new_def hashed_other qh space_side_set)
  have "take 32 (tl_handshake_secret (q_tls (hashed x quic1))) = sec" "take 32 (tl_handshake_traffic_hash (q_tls (hashed x quic1))) = h"
    using s1(2,3) by (simp_all add: hx sec)
  from handshake_keys_installed[OF k kdf b rdy1 h' new1 this(1)[symmetric] refl refl, of False] this(2)
  obtain s2 where r2: "QuicCreateHandshakeClientEncryptorDecryptor e os (hashed x quic1) (\<not> enc) = ((hashed x quic1)\<lparr>q_tls := s2,
       q_handshake := space_set (\<not> enc) \<lparr>csp_ciphers = ciphers_of ((os_keys os)\<lparr>ek_md := md\<rparr>) (rfc_derive md sec (hs_label False) h) (\<not> enc),
         csp_cipher_inited = True\<rparr> (q_handshake (hashed x quic1))\<rparr>, Inr ())"
    and s2: "tls_ready os md (m @ x) s2" "tl_server_finished_secret s2 = tl_server_finished_secret (q_tls (hashed x quic1))"
      "take 32 (tl_client_finished_secret s2) = finished_key md (rfc_derive md sec (hs_label False) h)"
    by auto
  have "tl_server_finished_secret s2 = tl_server_finished_secret s1" using s2(2) by (simp add: hx)
  then show ?thesis
    using r2 s2(1,3) s1(4) by (simp add: q1(2) space_side_set hashed_other qh hs_label_def)
qed

text \<open>C7: the handshake keys agree: when client and server have the same handshake secret and transcript, and each goes on
  with whatever messages, both derive the keys of both directions, each end's encrypting side of the handshake
  space is paired with the other's decrypting one, so that (with \<open>packet_seal_open\<close>) each opens what the other
  seals, and both have the same keys for the Finished messages, those of RFC 8446.\<close>

theorem handshake_keys_agree:
  assumes "keys_spec ((os_keys os)\<lparr>ek_md := md\<rparr>) P H" and "kdf_spec os md" and "buf_ok e"
    and "\<forall>q \<in> {client, server}. tls_ready os md m (q_tls q) \<and> hs_side_new True q \<and> hs_side_new False q
           \<and> take 32 (tl_handshake_secret (q_tls q)) = sec"
  shows "\<exists>server1 server2 client1 client2.
    QuicCreateHandshakeServerEncoders e os server = (server1, Inr ())
    \<and> QuicCreateHandshakeClientDecoders e os (hashed x server1) = (server2, Inr ())
    \<and> QuicCreateHandshakeServerDecoders e os client = (client1, Inr ())
    \<and> QuicCreateHandshakeClientEncoders e os (hashed y client1) = (client2, Inr ())
    \<and> spaces_paired P H (qy_encrypt (q_handshake server2)) (qy_decrypt (q_handshake client2))
    \<and> spaces_paired P H (qy_encrypt (q_handshake client2)) (qy_decrypt (q_handshake server2))
    \<and> (\<forall>q \<in> {client2, server2}.
         take 32 (tl_server_finished_secret (q_tls q)) = finished_key md (rfc_derive md sec ''s hs traffic'' (the (md_hash md m)))
       \<and> take 32 (tl_client_finished_secret (q_tls q)) = finished_key md (rfc_derive md sec ''c hs traffic'' (the (md_hash md m))))"
proof -
  obtain h where h: "md_hash md m = Some h" using assms(2) unfolding kdf_spec_def by blast
  note bd = both_directions[OF assms(1-3) _ h _ _ refl]
  obtain s1 s2 where s: "QuicCreateHandshakeServerEncoders e os server = (s1, Inr ())"
      "QuicCreateHandshakeClientDecoders e os (hashed x s1) = (s2, Inr ())"
    and se: "qy_encrypt (q_handshake s2) = \<lparr>csp_ciphers = ciphers_of ((os_keys os)\<lparr>ek_md := md\<rparr>) (rfc_derive md sec ''s hs traffic'' h) True, csp_cipher_inited = True\<rparr>"
    and sd: "qy_decrypt (q_handshake s2) = \<lparr>csp_ciphers = ciphers_of ((os_keys os)\<lparr>ek_md := md\<rparr>) (rfc_derive md sec ''c hs traffic'' h) False, csp_cipher_inited = True\<rparr>"
    and sf: "take 32 (tl_server_finished_secret (q_tls s2)) = finished_key md (rfc_derive md sec ''s hs traffic'' h)"
      "take 32 (tl_client_finished_secret (q_tls s2)) = finished_key md (rfc_derive md sec ''c hs traffic'' h)"
    using bd[of server True x] assms(4)
    by (auto simp: QuicCreateHandshakeServerEncoders_def QuicCreateHandshakeClientDecoders_def space_side_def)
  obtain c1 c2 where c: "QuicCreateHandshakeServerDecoders e os client = (c1, Inr ())"
      "QuicCreateHandshakeClientEncoders e os (hashed y c1) = (c2, Inr ())"
    and ce: "qy_encrypt (q_handshake c2) = \<lparr>csp_ciphers = ciphers_of ((os_keys os)\<lparr>ek_md := md\<rparr>) (rfc_derive md sec ''c hs traffic'' h) True, csp_cipher_inited = True\<rparr>"
    and cd: "qy_decrypt (q_handshake c2) = \<lparr>csp_ciphers = ciphers_of ((os_keys os)\<lparr>ek_md := md\<rparr>) (rfc_derive md sec ''s hs traffic'' h) False, csp_cipher_inited = True\<rparr>"
    and cf: "take 32 (tl_server_finished_secret (q_tls c2)) = finished_key md (rfc_derive md sec ''s hs traffic'' h)"
      "take 32 (tl_client_finished_secret (q_tls c2)) = finished_key md (rfc_derive md sec ''c hs traffic'' h)"
    using bd[of client False y] assms(4)
    by (auto simp: QuicCreateHandshakeServerDecoders_def QuicCreateHandshakeClientEncoders_def space_side_def)
  show ?thesis using s c se sd sf ce cd cf h ciphers_pair[OF assms(1)]
    by (intro exI[of _ s1] exI[of _ s2] exI[of _ c1] exI[of _ c2]) simp
qed

lemma demo_hash: "md_hash demo_md32 m = Some (map (\<lambda>i. of_nat (length m) + of_nat i * sum_list m) [0..<32])"
  by (simp add: demo_md32_def)

definition demo_hs :: "bool \<Rightarrow> demo_ctx Quic" where
  "demo_hs srv = (sample_quic ((demo_crypto 0)\<lparr>qy_decrypt := demo_fresh, qy_encrypt := demo_fresh\<rparr>))
     \<lparr>q_server := srv, q_tls := tls_zero\<lparr>tl_handshake_cipher := Some (tls_ciphers ! 0),
        tl_handshake_dgst := Some (Some QUIC_DIGEST_SHA256, [1, 2, 3])\<rparr>\<rparr>"

lemma demo_hs_ready:
  "tls_ready demo_ossl demo_md32 [1, 2, 3] (q_tls (demo_hs srv))" "hs_side_new enc (demo_hs srv)"
  "q_server (demo_hs srv) = srv" "tl_handshake_secret (q_tls (demo_hs srv)) = replicate 64 0"
  by (simp_all add: tls_ready_def demo_hs_def tls_zero_def QuicMd_def QUIC_GE_def quic_diff_def QUIC_DIGEST_SHA256_def
      demo_ossl_def EVP_MAX_MD_SIZE_def hs_side_new_def space_side_def sample_quic_def QuicTrans.defs demo_fresh_def)

lemma demo_ossl_keys: "(os_keys demo_ossl)\<lparr>ek_md := demo_md32\<rparr> = demo_keys"
  by (simp add: demo_ossl_def demo_keys_def)

theorem handshake_keys_agree_witness:
  "\<exists>server1 server2 client1 client2.
    QuicCreateHandshakeServerEncoders env0 demo_ossl (demo_hs True) = (server1, Inr ())
    \<and> QuicCreateHandshakeClientDecoders env0 demo_ossl (hashed [4] server1) = (server2, Inr ())
    \<and> QuicCreateHandshakeServerDecoders env0 demo_ossl (demo_hs False) = (client1, Inr ())
    \<and> QuicCreateHandshakeClientEncoders env0 demo_ossl (hashed [4, 5] client1) = (client2, Inr ())
    \<and> take 32 (tl_server_finished_secret (q_tls server2)) = take 32 (tl_server_finished_secret (q_tls client2))"
proof -
  have "\<forall>q \<in> {demo_hs False, demo_hs True}. tls_ready demo_ossl demo_md32 [1, 2, 3] (q_tls q) \<and> hs_side_new True q \<and> hs_side_new False q
           \<and> take 32 (tl_handshake_secret (q_tls q)) = replicate 32 0"
    using demo_hs_ready by simp
  from handshake_keys_agree[OF demo_keys_spec[folded demo_ossl_keys] demo_kdf demo_buf_ok this, of "[4]" "[4, 5]"]
  show ?thesis by - (elim exE conjE, intro exI conjI, assumption+, simp)
qed

section \<open>Finished messages\<close>

text \<open>The verify_data of RFC 8446, section 4.4.4.\<close>

definition rfc_verify_data :: "evp_md \<Rightarrow> bytes \<Rightarrow> bytes \<Rightarrow> bytes" where
  "rfc_verify_data md key m = hmac md key (the (md_hash md m))"

lemma final_mac_ok:
  assumes rdy: "tls_ready os md m s" and kdf: "kdf_spec os md" and out: "length out = EVP_MAX_MD_SIZE"
    and key: "key = take (md_size md) (if srv then tl_server_finished_secret s else tl_client_finished_secret s)"
  shows "TlsFinalFinishMac os s srv out = Inr (rfc_verify_data md key m @ drop (md_size md) out, of_nat (md_size md))"
proof -
  have md: "md_ok md" "md_size md \<le> 64" "0 < md_size md" using kdf by (simp_all add: kdf_spec_def md_ok_def)
  obtain h where h: "md_hash md m = Some h" "length h = md_size md" using kdf unfolding kdf_spec_def by blast
  have sl: "mem_slice (if srv then tl_server_finished_secret s else tl_client_finished_secret s) 0 (md_size md) = Inr key"
    using rdy md by (simp add: tls_ready_def EVP_MAX_MD_SIZE_def mem_slice_front key)
  have hm: "TlsHandshakeMd os s = Some md" using rdy by (simp add: TlsHandshakeMd_def tls_ready_def tls_ciphers_def)
  have v: "length (hmac md key h) = md_size md" "hmac md key h \<noteq> []" using length_hmac[OF md(1), of key h] md(3) by auto
  have c: "mem_copy out 0 (hmac md key h) = Inr (hmac md key h @ drop (md_size md) out)"
    using mem_copy_start[of "hmac md key h" out] v(1) out md(2) by (simp add: EVP_MAX_MD_SIZE_def)
  have t: "take (md_size md) (h @ replicate (EVP_MAX_MD_SIZE - md_size md) 0) = h" using h(2) by simp
  show ?thesis
    unfolding TlsFinalFinishMac_def handshake_hash_ok[OF rdy kdf h(1) refl] hm
    by (simp add: sl t someR_def md_hmac_ok[OF md(1)] v c rfc_verify_data_def h(1) del: take_append split del: if_split)
qed

lemma slice_view: "rp_wf p \<Longrightarrow> mem_slice (rp_buf p) (RPacketData p) (unat (RPacketRemaining p)) = Inr (rp_view p)"
proof -
  have "int (unat (rp_remaining p)) = uint (rp_remaining p)" by simp
  then show "rp_wf p \<Longrightarrow> ?thesis"
    by (auto simp: rp_wf_def mem_slice_def RPacketData_def RPacketRemaining_def rp_view_def)
qed

text \<open>C9: Finished messages verify: what one end builds from its Finished key and the transcript is the verify_data of RFC 8446,
  and an end of the other role with the same transcript and the same key accepts exactly this message.\<close>

theorem finished_verified:
  assumes "kdf_spec os md" and "tls_ready os md m (q_tls sender)" and "tls_ready os md m (q_tls receiver)"
    and "q_server receiver = (\<not> q_server sender)"
    and "\<forall>q \<in> {sender, receiver}. take (md_size md)
           (if q_server sender then tl_server_finished_secret (q_tls q) else tl_client_finished_secret (q_tls q)) = key"
    and "wp_wf pkt" and "grow_ok e pkt" and "md_size md \<le> wp_room pkt"
  shows "\<exists>sender' pkt' receiver'. TlsFinishedBuild e os sender pkt = ((sender', pkt'), Inr ())
    \<and> wp_ext pkt pkt' (rfc_verify_data md key m) \<and> TlsTakeMac os receiver = (receiver', Inr ())
    \<and> (\<forall>p. rp_wf p \<longrightarrow> TlsFinishedCheck (q_tls receiver') p = (if rp_view p = rfc_verify_data md key m then Inr () else Inl Fail))"
proof -
  let ?v = "rfc_verify_data md key m"
  have md: "md_ok md" "md_size md \<le> 64" using assms(1) by (simp_all add: kdf_spec_def md_ok_def)
  have lv: "length ?v = md_size md" using length_hmac[OF md(1)] by (simp add: rfc_verify_data_def)
  have un: "unat (of_nat (md_size md) :: u64) = md_size md" using md(2) by (intro of_nat_unat64) simp
  have lens: "length (tl_finish_md (q_tls sender)) = EVP_MAX_MD_SIZE" "length (tl_peer_finish_md (q_tls receiver)) = EVP_MAX_MD_SIZE"
    using assms(2,3) by (simp_all add: tls_ready_def)
  obtain pkt' where p: "WPacketMemcpy e pkt (Some ?v) = (pkt', Inr ())" "wp_ext pkt pkt' ?v"
    using WPacketMemcpy_ok[OF assms(6,7), of ?v] assms(8) lv by auto
  have "TlsFinalFinishMac os (q_tls sender) (q_server sender) (tl_finish_md (q_tls sender)) =
      Inr (?v @ drop (md_size md) (tl_finish_md (q_tls sender)), of_nat (md_size md))"
    using final_mac_ok[OF assms(2,1) lens(1), of key "q_server sender"] assms(5) by simp
  then have b: "\<exists>sender'. TlsFinishedBuild e os sender pkt = ((sender', pkt'), Inr ())"
    using p(1) lv un by (simp add: TlsFinishedBuild_def Let_def mem_slice_front)
  have "TlsFinalFinishMac os (q_tls receiver) (\<not> q_server receiver) (tl_peer_finish_md (q_tls receiver)) =
      Inr (?v @ drop (md_size md) (tl_peer_finish_md (q_tls receiver)), of_nat (md_size md))"
    using final_mac_ok[OF assms(3,1) lens(2), of key "q_server sender"] assms(4,5) by simp
  then obtain receiver' where t: "TlsTakeMac os receiver = (receiver', Inr ())"
    and r: "tl_peer_finish_md_len (q_tls receiver') = of_nat (md_size md)"
      "tl_peer_finish_md (q_tls receiver') = ?v @ drop (md_size md) (tl_peer_finish_md (q_tls receiver))"
    by (simp add: TlsTakeMac_def on_tls_def Let_def)
  have "TlsFinishedCheck (q_tls receiver') p = (if rp_view p = ?v then Inr () else Inl Fail)" if wf: "rp_wf p" for p
  proof (cases "RPacketRemaining p = of_nat (md_size md)")
    case True
    then show ?thesis
      using slice_view[OF wf] r lv un by (simp add: TlsFinishedCheck_def Let_def mem_slice_front guardR_def)
  next
    case False
    have "length (rp_view p) = unat (RPacketRemaining p)"
      using mem_slice_length[OF slice_view[OF wf]] .
    moreover have "unat (RPacketRemaining p) \<noteq> md_size md"
      using False un word_unat_eq_iff[of "RPacketRemaining p" "of_nat (md_size md)"] by simp
    ultimately have "rp_view p \<noteq> ?v" using lv by auto
    then show ?thesis using False r by (simp add: TlsFinishedCheck_def Let_def)
  qed
  with b p(2) t show ?thesis by blast
qed

theorem finished_verified_witness:
  "\<exists>sender' pkt' receiver'. TlsFinishedBuild env0 demo_ossl (demo_hs True) (WPacketStaticBufInit (replicate 40 0) 40) = ((sender', pkt'), Inr ())
    \<and> TlsTakeMac demo_ossl (demo_hs False) = (receiver', Inr ())
    \<and> TlsFinishedCheck (q_tls receiver')
        (RPacketBufInit (rfc_verify_data demo_md32 (replicate 32 0) [1, 2, 3]) 0 32) = Inr ()
    \<and> TlsFinishedCheck (q_tls receiver') (RPacketBufInit (replicate 32 1) 0 32) = Inl Fail"
proof -
  let ?p = "WPacketStaticBufInit (replicate 40 0) 40" and ?v = "rfc_verify_data demo_md32 (replicate 32 0) [1, 2, 3]"
  have f: "\<forall>q \<in> {demo_hs True, demo_hs False}. take (md_size demo_md32)
      (if q_server (demo_hs True) then tl_server_finished_secret (q_tls q) else tl_client_finished_secret (q_tls q)) = replicate 32 0"
    by (simp add: demo_hs_def tls_zero_def demo_md32_def EVP_MAX_MD_SIZE_def)
  have w: "wp_wf ?p" "grow_ok env0 ?p" "md_size demo_md32 \<le> wp_room ?p"
    by (simp_all add: WPacketStaticBufInit_def wp_wf_def grow_ok_def wp_room_def demo_md32_def)
  have l: "length ?v = 32" by (simp add: rfc_verify_data_def hmac_def demo_md32_def)
  have "?v \<noteq> replicate 32 1" by code_simp
  moreover have "rp_wf (RPacketBufInit ?v 0 32)" "rp_view (RPacketBufInit ?v 0 32) = ?v"
    using rp_wf_BufInit[of 0 32 ?v] rp_view_full[of ?v] l by simp_all
  moreover have "rp_wf (RPacketBufInit (replicate 32 1) 0 32)" "rp_view (RPacketBufInit (replicate 32 1) 0 32) = replicate 32 1"
    using rp_wf_BufInit[of 0 32 "replicate 32 1"] rp_view_full[of "replicate 32 1"] by simp_all
  moreover have o: "q_server (demo_hs False) = (\<not> q_server (demo_hs True))" by (simp add: demo_hs_ready(3))
  moreover obtain sender' pkt' receiver' where "TlsFinishedBuild env0 demo_ossl (demo_hs True) ?p = ((sender', pkt'), Inr ())"
      "TlsTakeMac demo_ossl (demo_hs False) = (receiver', Inr ())"
      "\<And>p. rp_wf p \<Longrightarrow> TlsFinishedCheck (q_tls receiver') p = (if rp_view p = ?v then Inr () else Inl Fail)"
    using finished_verified[OF demo_kdf demo_hs_ready(1) demo_hs_ready(1) o f w] by blast
  ultimately show ?thesis by (intro exI[of _ sender'] exI[of _ pkt'] exI[of _ receiver']) simp
qed

end
