(* ===== verification/Tls_Auth.thy ===== *)
theory Tls_Auth
  imports Tls_Term Tls_Keys Statem_Inv
begin

text \<open>
  Authentication of the server: a client that did not resume a session is past the CertificateVerify message only when the
  signature in it was verified under the key of the server's certificate; and a forged EncryptedExtensions message that
  makes a client believe that it resumed one.
\<close>

section \<open>Frames leave the engine alone\<close>

text \<open>Cutting what the engine wrote into CRYPTO frames only queues them.\<close>

context tx_invariant
begin

lemma queued: "QuicFrameAddQueue quic pkt qb = (quic', r) \<Longrightarrow> S quic \<Longrightarrow> S quic'"
  by (auto simp: QuicFrameAddQueue_def QuicAddQueue_def Let_def queue split: if_split_asm sum.split_asm)

lemma crypto_split_queued:
  fixes quic :: "'c Quic"
  assumes "crypto_split_loop e quic pkt_type pkt qb buf_len data len offset = Some x" and "S quic"
  shows "S (fst (fst x))"
proof -
  let ?P = "\<lambda>e (quic :: 'c Quic) pkt_type pkt qb buf_len data len offset (x :: ('c Quic \<times> WPacket) \<times> QBUFF res). S quic \<longrightarrow> S (fst (fst x))"
  have next_buf: "S (fst s1)" if "QuicBuffQueueAndNext e k quic t pkt qb n m = (s1, r1)" "S quic" for e k quic t pkt qb n m s1 r1
    using that
    by (auto simp: QuicBuffQueueAndNext_def split: if_split_asm prod.split_asm sum.split_asm dest: queued)
  have "?P e quic pkt_type pkt qb buf_len data len offset x"
  proof (rule crypto_split_loop.raw_induct[where P = ?P, OF _ assms(1)], goal_cases)
    case (1 loop e quic pkt_type pkt qb buf_len data len offset x)
    obtain s1 r1 where q: "QuicBuffQueueAndNext e False quic pkt_type pkt qb buf_len QUIC_FRAME_CRYPTO_HEADER_MAX_LEN = (s1, r1)"
      by fastforce
    show ?case
      using 1(2) next_buf[OF q] by (auto simp: q split: if_split_asm prod.split_asm sum.split_asm dest: 1(1))
  qed
  with assms(2) show ?thesis by simp
qed

lemma crypto_queued: "QuicCryptoFrameBuild e quic pkt_type = Some (quic', r) \<Longrightarrow> S quic \<Longrightarrow> S quic'"
  by (auto simp: QuicCryptoFrameBuild_def Let_def queue_rest_def QuicFrameCryptoSplit_def
      split: sum.split_asm option.split_asm prod.split_asm if_split_asm dest!: crypto_split_queued queued)

end

context frame_invariant
begin

lemma frame_built: "frame_build e f quic pkt sp n = ((quic', pkt'), r) \<Longrightarrow> S quic \<Longrightarrow> S quic'"
  by (cases f)
    (auto simp: QuicFrameResetStreamBuild_def QuicFrameDataBlockedBuild_def QuicFrameStreamDataBlockedBuild_def
      QuicFrameNewTokenBuild_def bindS_def on_pkt_def Let_def streams upd token dest: ack_build dest!: instance_update
      split: option.split_asm prod.split_asm sum.split_asm if_split_asm)

lemma nodes_built: "build_nodes e quic pkt sp ns = ((quic', pkt'), r) \<Longrightarrow> S quic \<Longrightarrow> S quic'"
proof (induction ns arbitrary: quic pkt)
  case (Cons n ns)
  show ?case
    using Cons.prems
    by (auto simp: Let_def split: if_split_asm prod.split_asm sum.split_asm intro: Cons.IH dest: frame_built)
qed simp

lemma frame_queued: "S quic \<Longrightarrow> S (fst (QuicFrameBuild e quic pkt_type nodes))"
  by (auto simp: QuicFrameBuild_def Let_def simp del: build_nodes.simps split: sum.split prod.split if_split
      dest: nodes_built queued)

end

interpretation tls_kept: frame_invariant "\<lambda>quic. q_tls quic = s" for s
proof (unfold_locales, goal_cases)
  case (3 quic sp c)
  then show ?case by (cases sp) simp_all
qed auto

section \<open>What handlers leave alone\<close>

text \<open>The state of the engine, and what a verified signature rests on.\<close>

definition auth :: "Tls \<Rightarrow> TlsState \<times> bool \<times> X509 option \<times> bytes \<times> u64" where
  "auth s = (tl_state s, tl_hit s, tl_peer_cert s, tl_cert_verify_hash s, tl_cert_verify_hash_len s)"

lemma auth_eq: "auth s = auth t \<longleftrightarrow> tl_state s = tl_state t \<and> tl_hit s = tl_hit t \<and> tl_peer_cert s = tl_peer_cert t
    \<and> tl_cert_verify_hash s = tl_cert_verify_hash t \<and> tl_cert_verify_hash_len s = tl_cert_verify_hash_len t"
  by (auto simp: auth_def)

lemma auth_updates [simp]:
  "auth (s\<lparr>tl_handshake_dgst := a\<rparr>) = auth s" "auth (s\<lparr>tl_peer_finish_md := b\<rparr>) = auth s" "auth (s\<lparr>tl_peer_finish_md_len := n\<rparr>) = auth s"
  "auth (s\<lparr>tl_finish_md := b\<rparr>) = auth s" "auth (s\<lparr>tl_finish_md_len := n\<rparr>) = auth s" "auth (s\<lparr>tl_master_secret := b\<rparr>) = auth s"
  "auth (s\<lparr>tl_early_secret := b\<rparr>) = auth s" "auth (s\<lparr>tl_handshake_secret := b\<rparr>) = auth s"
  "auth (s\<lparr>tl_resumption_master_secret := b\<rparr>) = auth s" "auth (s\<lparr>tl_handshake_traffic_hash := b\<rparr>) = auth s"
  "auth (s\<lparr>tl_server_finished_hash := b\<rparr>) = auth s" "auth (s\<lparr>tl_server_finished_secret := b\<rparr>) = auth s"
  "auth (s\<lparr>tl_client_finished_secret := b\<rparr>) = auth s" "auth (s\<lparr>tl_server_app_traffic_secret := b\<rparr>) = auth s"
  "auth (s\<lparr>tl_client_app_traffic_secret := b\<rparr>) = auth s" "auth (s\<lparr>tl_peer_kexch_key := k\<rparr>) = auth s"
  "auth (s\<lparr>tl_alpn_selected := q\<rparr>) = auth s" "auth (s\<lparr>tl_server_random := b\<rparr>) = auth s" "auth (s\<lparr>tl_handshake_cipher := c\<rparr>) = auth s"
  "auth (s\<lparr>tl_handshake_msg_len := n\<rparr>) = auth s" "auth (s\<lparr>tl_client_random := b\<rparr>) = auth s" "auth (s\<lparr>tl_draws := d\<rparr>) = auth s"
  by (simp_all add: auth_def)

text \<open>A part of the engine that an operation leaves as it was, whatever its result.\<close>

definition stays :: "(Tls \<Rightarrow> 'v) \<Rightarrow> Tls \<Rightarrow> 'c Quic \<times> 'a res \<Rightarrow> bool" where
  "stays f s r \<longleftrightarrow> f (q_tls (fst r)) = f s"

named_theorems stays_intros \<open>what operations leave alone\<close>

lemma stays_bind [stays_intros]:
  "stays f s r \<Longrightarrow> (\<And>q x. f (q_tls q) = f s \<Longrightarrow> stays f s (g q x)) \<Longrightarrow> stays f s (bindS r g)"
  by (auto simp: stays_def bindS_def split: prod.split sum.split)

lemma stays_pair [stays_intros]: "f (q_tls q) = f s \<Longrightarrow> stays f s (q, x)"
  by (simp add: stays_def)

lemma stays_if [stays_intros]: "stays f s a \<Longrightarrow> stays f s b \<Longrightarrow> stays f s (if c then a else b)"
  by simp

lemma stays_case [stays_intros]:
  "(\<And>a b. stays f s (g a b)) \<Longrightarrow> stays f s (case p of (a, b) \<Rightarrow> g a b)"
  "stays f s n \<Longrightarrow> (\<And>a. stays f s (g' a)) \<Longrightarrow> stays f s (case x of None \<Rightarrow> n | Some a \<Rightarrow> g' a)"
  "(\<And>a. stays f s (h a)) \<Longrightarrow> (\<And>b. stays f s (k b)) \<Longrightarrow> stays f s (case r of Inl a \<Rightarrow> h a | Inr b \<Rightarrow> k b)"
  "stays f s n \<Longrightarrow> (\<And>a l'. stays f s (m a l')) \<Longrightarrow> stays f s (case l of [] \<Rightarrow> n | a # l' \<Rightarrow> m a l')"
  by (auto split: prod.split option.split sum.split list.split)

lemma stays_on_tls [stays_intros]: "f (fst r) = f s \<Longrightarrow> stays f s (on_tls q r)"
  by (simp add: stays_def on_tls_def)

lemma stays_state: "stays auth (q_tls q) r \<Longrightarrow> stays tl_state (q_tls q) r"
  by (simp add: stays_def auth_def)

lemma res_master_auth: "auth (fst (res_master_secret e md x h n s)) = auth s"
  by (simp add: res_master_secret_def split: sum.split)

definition arr_quiet :: "tls_array \<Rightarrow> bool" where
  "arr_quiet a \<longleftrightarrow> (\<forall>d s. auth (arr_set a d s) = auth s)"

lemma install_auth:
  assumes "\<And>a. out_secret = Some a \<Longrightarrow> arr_quiet a" and "\<And>a. fin = Some a \<Longrightarrow> arr_quiet a"
  shows "auth (fst (fst (QuicInstallEncryptorDecryptor e os s md sec out_secret label hash cs fin enc))) = auth s"
  using assms
  by (auto simp: QuicInstallEncryptorDecryptor_def Let_def arr_quiet_def split: sum.split option.split prod.split)

lemma cached_auth: "f (q_tls q) = f s \<Longrightarrow> f = auth \<Longrightarrow> stays f s (TlsDigestCachedRecords os q)"
  by (auto simp: TlsDigestCachedRecords_def Let_def stays_def split: option.split sum.split)

lemma upd_tls: "q_tls (crypto_upd q sp c) = q_tls q"
  by (cases sp) simp_all

lemma create_auth:
  assumes "auth (q_tls q) = auth s" and "arr_quiet h" and o: "\<And>a. out_secret = Some a \<Longrightarrow> arr_quiet a"
    and fin: "\<And>a. fin = Some a \<Longrightarrow> arr_quiet a"
  shows "stays auth s (QuicCreateEncryptorDecryptor e os q sp in_secret out_secret h label fin rm st enc)"
proof -
  have set_h: "auth (arr_set h d t) = auth t" for d t using assms(2) by (simp add: arr_quiet_def)
  have inst: "stays auth s (case QuicInstallEncryptorDecryptor e os (q_tls q4) md x out_secret l hh cs fin enc of
      ((s5, cs5), r) \<Rightarrow> (crypto_upd (q4\<lparr>q_tls := s5\<rparr>) sp (space_set enc cs5 c), r))" if "auth (q_tls q4) = auth s" for q4 md x l hh cs c
    using install_auth[of out_secret fin e os "q_tls q4" md x l hh cs enc, OF o fin] that
    by (auto simp: stays_def upd_tls split: prod.split)
  show ?thesis
    unfolding QuicCreateEncryptorDecryptor_def Let_def
    by (rule stays_intros assms(1) cached_auth[OF _ refl] inst | simp add: upd_tls set_h res_master_auth | assumption)+
qed

lemmas installer_defs = QuicCreateHandshakeServerDecoders_def QuicCreateHandshakeClientEncoders_def
  QuicCreateAppDataServerDecoders_def QuicCreateAppDataClientEncoders_def
  QuicCreateHandshakeServerEncryptorDecryptor_def QuicCreateHandshakeClientEncryptorDecryptor_def
  QuicCreateAppDataServerEncryptorDecryptor_def QuicCreateAppDataClientEncryptorDecryptor_def

lemma arrays_quiet [simp]:
  "arr_quiet hs_traffic_hash" "arr_quiet fin_hash"
  "arr_quiet (tl_server_finished_secret, tl_server_finished_secret_update)"
  "arr_quiet (tl_client_finished_secret, tl_client_finished_secret_update)"
  "arr_quiet (tl_server_app_traffic_secret, tl_server_app_traffic_secret_update)"
  "arr_quiet (tl_client_app_traffic_secret, tl_client_app_traffic_secret_update)"
  by (simp_all add: arr_quiet_def arr_set_def hs_traffic_hash_def fin_hash_def)

lemma installers [stays_intros]:
  "auth (q_tls q) = auth s \<Longrightarrow> stays auth s (QuicCreateHandshakeServerDecoders e os q)"
  "auth (q_tls q) = auth s \<Longrightarrow> stays auth s (QuicCreateHandshakeClientEncoders e os q)"
  "auth (q_tls q) = auth s \<Longrightarrow> stays auth s (QuicCreateAppDataServerDecoders e os q)"
  "auth (q_tls q) = auth s \<Longrightarrow> stays auth s (QuicCreateAppDataClientEncoders e os q)"
  unfolding installer_defs by (rule create_auth; (assumption | auto))+

lemma master_auth: "auth (fst (TlsGenerateMasterSecret e os s)) = auth s"
  by (simp add: TlsGenerateMasterSecret_def split: sum.split)

lemma finished_proc_auth: "stays auth (q_tls q) (TlsClientFinishedProc e os q m)"
  unfolding TlsClientFinishedProc_def
  by (rule stays_intros refl | simp add: master_auth)+

text \<open>Extensions: what all the parsers of a context leave alone, the loop leaves alone.\<close>

lemma parse_loop_stays:
  assumes "\<And>x q pkt. x \<in> set ext \<Longrightarrow> TlsShouldParseExtension (ep_context x) cxt \<Longrightarrow> stays f (q_tls q) (ep_parse x q pkt cxt)"
  shows "stays f (q_tls q) (parse_ext_loop ext cxt q pkt)"
  using assms
proof (induction ext arbitrary: q)
  case (Cons x xs)
  have IH: "stays f s (parse_ext_loop xs cxt q' pkt)" if "f (q_tls q') = f s" for q' s
    using Cons.IH[of q'] Cons.prems that by (simp add: stays_def)
  have x: "stays f (q_tls q) (ep_parse x q p cxt)" if "TlsShouldParseExtension (ep_context x) cxt" for p
    using Cons.prems that by simp
  show ?case
    using IH x by (auto simp: stays_pair split: sum.split option.split intro!: stays_bind)
qed (simp add: stays_def)

lemma parse_stays:
  assumes "\<And>x q pkt. x \<in> set ext \<Longrightarrow> TlsShouldParseExtension (ep_context x) cxt \<Longrightarrow> stays f (q_tls q) (ep_parse x q pkt cxt)"
  shows "stays f (q_tls q) (TlsParseExtensions ext cxt q pkt)"
proof -
  have "stays f (q_tls q) (parse_ext_loop ext cxt q p)" for p using assms by (rule parse_loop_stays)
  then show ?thesis
    by (auto simp: TlsParseExtensions_def stays_def bindS_def split: sum.split prod.split)
      (metis fst_conv)+
qed

lemma ticket_ext_auth: "stays auth (q_tls q) (TlsClntParseExtensions e os TLSEXT_NEW_SESSION_TICKET q pkt)"
  unfolding TlsClntParseExtensions_def
proof (rule parse_stays)
  fix x :: "'a TlsExtParse" and q :: "'a Quic" and pkt
  assume "x \<in> set (client_ext_parse e os)" and "TlsShouldParseExtension (ep_context x) TLSEXT_NEW_SESSION_TICKET"
  then have "ep_parse x = TlsExtClntParseEarlyData"
    by (auto simp: client_ext_parse_def TlsShouldParseExtension_def TLSEXT_NEW_SESSION_TICKET_def TLSEXT_SERVER_HELLO_def)
  then show "stays auth (q_tls q) (ep_parse x q pkt TLSEXT_NEW_SESSION_TICKET)"
    by (simp add: TlsExtClntParseEarlyData_def) (rule stays_intros refl | simp)+
qed

lemma ticket_proc_auth: "stays auth (q_tls q) (TlsClntNewSessionTicketProc e os q m)"
proof -
  have ext: "stays auth s (TlsClntParseExtensions e os TLSEXT_NEW_SESSION_TICKET q pkt)"
    if "auth (q_tls q) = auth s" for s and q :: "'a Quic" and pkt
    using ticket_ext_auth[of q e os pkt] that by (simp add: stays_def)
  have new: "stays auth s (new_ticket e os q pkt t nonce)" if "auth (q_tls q) = auth s" for s and q :: "'a Quic" and pkt t nonce
    unfolding new_ticket_def using that by - (rule stays_intros ext | simp)+
  show ?thesis
    unfolding TlsClntNewSessionTicketProc_def by (rule stays_intros refl new | assumption)+
qed

lemma key_derive_auth: "auth (fst (TlsKeyDerive e os s a b)) = auth s"
  by (auto simp: TlsKeyDerive_def Let_def bindS_def split: option.split sum.split prod.split)

lemma key_derive_state: "tl_state (fst (TlsKeyDerive e os s a b)) = tl_state s"
  using key_derive_auth[of e os s a b] by (simp add: auth_def)

lemma qtp_param_tls: "q_tls (fst (qtp_param tp q type len pkt)) = q_tls q"
proof -
  have "q_tls (fst (qtp_parse_run f q off pkt len)) = q_tls q" for f off
    by (cases f)
      (simp_all add: TlsExtQtpParseInteger_def TlsExtQtpParseStatelessResetToken_def TlsExtQtpParseSourceConnId_def bindS_def
        split: sum.split prod.split)
  then show ?thesis by (simp add: qtp_param_def split: option.split sum.split)
qed

lemma qtp_loop_tls: "q_tls (fst (parse_qtp_loop tp q pkt)) = q_tls q"
proof (induction tp q pkt rule: parse_qtp_loop.induct)
  case (1 tp q pkt)
  show ?case
    using 1 qtp_param_tls[of tp q]
    by (subst parse_qtp_loop.simps) (auto split: sum.split prod.split, metis fst_conv, metis fst_conv)
qed

lemma hello_ext_state: "stays tl_state (q_tls q) (TlsClntParseExtensions e os TLSEXT_SERVER_HELLO q pkt)"
  unfolding TlsClntParseExtensions_def
proof (rule parse_stays)
  fix x :: "'a TlsExtParse" and q :: "'a Quic" and pkt
  assume "x \<in> set (client_ext_parse e os)"
  then consider "ep_parse x = TlsExtClntParseServerName" | "ep_parse x = TlsExtClntParseAlpn e" | "ep_parse x = TlsExtClntParsePreSharedKey"
    | "ep_parse x = TlsExtClntParseSupportedVersion" | "ep_parse x = TlsExtClntParseKeyShare e os"
    | "ep_parse x = TlsExtClntParseTlsExtQtp" | "ep_parse x = TlsExtClntParseEarlyData" | "ep_parse x = TlsExtClntParsePsk"
    by (auto simp: client_ext_parse_def)
  then show "stays tl_state (q_tls q) (ep_parse x q pkt TLSEXT_SERVER_HELLO)"
  proof cases
    case 6
    then show ?thesis by (simp add: stays_def TlsExtClntParseTlsExtQtp_def TlsParseQtpExtension_def qtp_loop_tls)
  qed (simp only: TlsExtClntParseServerName_def TlsExtClntParseAlpn_def TlsExtClntParsePreSharedKey_def Let_def
      TlsExtClntParseSupportedVersion_def TlsExtClntParseKeyShare_def TlsExtClntParseEarlyData_def TlsExtClntParsePsk_def,
      ((rule stays_intros refl | simp add: key_derive_state)+)[1])+
qed

lemma hello_proc_state: "stays tl_state (q_tls q) (TlsServerHelloProc e os q m)"
proof -
  have ext: "stays tl_state s (TlsClntParseExtensions e os TLSEXT_SERVER_HELLO q' pkt)" if "tl_state (q_tls q') = tl_state s"
    for s and q' :: "'a Quic" and pkt
    using hello_ext_state[of q' e os pkt] that by (simp add: stays_def)
  have keys: "stays tl_state s (QuicCreateHandshakeServerDecoders e os q')" if "tl_state (q_tls q') = tl_state s"
    for s and q' :: "'a Quic"
    using installers(1)[OF refl, of q' e os] that by (simp add: stays_def auth_def)
  have sess: "stays tl_state s (QuicGetSession e q')" if "tl_state (q_tls q') = tl_state s" for s and q' :: "'a Quic"
    using that by (simp add: QuicGetSession_def stays_def split: sum.split)
  show ?thesis
    unfolding TlsServerHelloProc_def Let_def by (rule stays_intros refl ext keys sess | simp)+
qed

lemma enc_ext_proc_state: "stays tl_state (q_tls q) (TlsEncExtProc e os q m)"
  unfolding TlsEncExtProc_def by (rule stays_intros hello_ext_state | assumption)+

lemma no_cert_ext: "TlsClntParseExtensions e os TLSEXT_CERTIFICATE q pkt = (q', r) \<Longrightarrow> q' = q"
proof -
  have "parse_ext_loop ext TLSEXT_CERTIFICATE q pkt = (q, Inr ())"
    if "\<forall>x \<in> set ext. ep_context x \<in> {TLSEXT_SERVER_HELLO, TLSEXT_NEW_SESSION_TICKET}" for ext :: "'a TlsExtParse list" and q pkt
    using that by (induction ext) (auto simp: TlsShouldParseExtension_def TLSEXT_SERVER_HELLO_def TLSEXT_NEW_SESSION_TICKET_def
        TLSEXT_CERTIFICATE_def)
  then have "parse_ext_loop (client_ext_parse e os) TLSEXT_CERTIFICATE q pkt = (q, Inr ())" for q pkt
    by (simp add: client_ext_parse_def del: parse_ext_loop.simps)
  then show "TlsClntParseExtensions e os TLSEXT_CERTIFICATE q pkt = (q', r) \<Longrightarrow> q' = q"
    by (auto simp: TlsClntParseExtensions_def TlsParseExtensions_def bindS_def split: sum.split_asm)
qed

lemma cert_entry_same: "cert_entry e os q pkt = (q', r) \<Longrightarrow> q' = q"
  by (auto simp: cert_entry_def dest: no_cert_ext split: sum.split_asm option.split_asm prod.split_asm if_split_asm)

lemma cert_list_same: "fst (cert_list_loop e os q pkt) = q"
proof (induction e os q pkt rule: cert_list_loop.induct)
  case (1 e os q pkt)
  show ?case
    using 1 by (subst cert_list_loop.simps)
      (auto simp: bindS_def split: sum.split prod.split dest: cert_entry_same)
qed

lemma cert_proc_state: "stays tl_state (q_tls q) (TlsServerCertProc e os q m)"
proof -
  have "stays tl_state s (quiet (server_certs e os q pkt))" if "tl_state (q_tls q) = tl_state s" for s and q :: "'a Quic" and pkt
    using that cert_list_same[of e os q pkt]
    by (auto simp: server_certs_def quiet_def stays_def bindS_def Let_def split: sum.split prod.split list.split)
  then show ?thesis unfolding TlsServerCertProc_def by (intro stays_intros refl) auto
qed

text \<open>The same with a packet next to the connection.\<close>

definition pstays :: "(Tls \<Rightarrow> 'v) \<Rightarrow> Tls \<Rightarrow> ('c Quic \<times> WPacket) \<times> 'a res \<Rightarrow> bool" where
  "pstays f s r \<longleftrightarrow> f (q_tls (fst (fst r))) = f s"

named_theorems pstays_intros \<open>what writers leave alone\<close>

lemma pstays_bind [pstays_intros]:
  "pstays f s r \<Longrightarrow> (\<And>q p x. f (q_tls q) = f s \<Longrightarrow> pstays f s (g (q, p) x)) \<Longrightarrow> pstays f s (bindS r g)"
  by (auto simp: pstays_def bindS_def split: prod.split sum.split)

lemma pstays_leaf [pstays_intros]:
  "f (q_tls q) = f s \<Longrightarrow> pstays f s ((q, p), x)" "f (q_tls q) = f s \<Longrightarrow> pstays f s (on_wpkt q y)"
  "f (q_tls q) = f s \<Longrightarrow> pstays f s (ext_sent q z)"
  by (simp_all add: pstays_def on_wpkt_def ext_sent_def bindS_def split: sum.split)

lemma pstays_if [pstays_intros]: "pstays f s a \<Longrightarrow> pstays f s b \<Longrightarrow> pstays f s (if c then a else b)"
  by simp

lemma pstays_case [pstays_intros]:
  "(\<And>a b. p = (a, b) \<Longrightarrow> pstays f s (g a b)) \<Longrightarrow> pstays f s (case p of (a, b) \<Rightarrow> g a b)"
  "(\<And>a b. p = (a, b) \<Longrightarrow> pstays f s (gx a b y)) \<Longrightarrow> pstays f s ((case p of (a, b) \<Rightarrow> gx a b) y)"
  "pstays f s n \<Longrightarrow> (\<And>a. pstays f s (g' a)) \<Longrightarrow> pstays f s (case x of None \<Rightarrow> n | Some a \<Rightarrow> g' a)"
  "(\<And>a. pstays f s (h a)) \<Longrightarrow> (\<And>b. pstays f s (k b)) \<Longrightarrow> pstays f s (case r of Inl a \<Rightarrow> h a | Inr b \<Rightarrow> k b)"
  by (auto split: prod.split option.split sum.split)

lemma construct_stays:
  assumes "\<And>x f q pkt. x \<in> set ext \<Longrightarrow> ec_construct x = Some f \<Longrightarrow> pstays v (q_tls q) (f q pkt cxt)"
  shows "pstays v (q_tls q) (construct_ext_loop e ext cxt q pkt)"
  using assms
proof (induction ext arbitrary: q pkt)
  case (Cons x xs)
  have IH: "pstays v s (construct_ext_loop e xs cxt q' p)" if "v (q_tls q') = v s" for q' s p
  proof -
    have "pstays v (q_tls q') (construct_ext_loop e xs cxt q' p)" by (rule Cons.IH) (rule Cons.prems, auto)
    with that show ?thesis by (simp add: pstays_def)
  qed
  have x: "pstays v s (f q' p cxt)" if "ec_construct x = Some f" "v (q_tls q') = v s" for f q' p s
    using Cons.prems[of x f q' p] that by (simp add: pstays_def)
  show ?case
    using IH x
    by (auto split: option.split prod.split sum.split simp: on_wpkt_def intro!: pstays_bind pstays_leaf)
qed (simp add: pstays_def)

lemma key_share_state: "tl_state (q_tls q) = tl_state s \<Longrightarrow> pstays tl_state s (add_key_shares e os is q pkt)"
proof (induction "is" arbitrary: q pkt)
  case (Cons i "is")
  have gen: "tl_state (fst (TlsGeneratePkeyGroup os t i)) = tl_state t" for t i
    by (simp add: TlsGeneratePkeyGroup_def split: option.split)
  have "pstays tl_state s (TlsExtClntAddKeyShare e os q p i)" if "tl_state (q_tls q) = tl_state s" for q :: "'a Quic" and p
    using that gen[of "q_tls q" i]
    by (auto simp: TlsExtClntAddKeyShare_def Let_def pstays_def bindS_def on_wpkt_def split: option.split prod.split sum.split)
  then show ?case using Cons by (auto intro!: pstays_bind)
qed (simp add: pstays_def)

lemma binder_state: "tl_state (fst (TlsPskDoBinder e os s md m b t)) = tl_state s"
  by (simp add: TlsPskDoBinder_def Let_def split: sum.split)

lemma binder_stays:
  assumes "tl_state (q_tls q) = tl_state s"
  shows "pstays tl_state s (case TlsPskDoBinder e os (q_tls q) md m b t of
      (s', Inl err) \<Rightarrow> ((q\<lparr>q_tls := s'\<rparr>, p), Inl err)
    | (s', Inr b') \<Rightarrow> ext_sent (q\<lparr>q_tls := s'\<rparr>) (z b'))"
proof -
  obtain s1 r where r: "TlsPskDoBinder e os (q_tls q) md m b t = (s1, r)" by fastforce
  then have "tl_state s1 = tl_state s" using assms binder_state[of e os "q_tls q" md m b t] by simp
  then show ?thesis by (cases r) (auto simp: r intro: pstays_leaf)
qed

lemma hello_construct_state: "pstays tl_state (q_tls q) (TlsClntConstructExtensions e os cxt q pkt)"
proof -
  have h: "pstays tl_state (q_tls q) (f q pkt cxt)" if "x \<in> set (client_ext_construct e os)" "ec_construct x = Some f"
    for x f and q :: "'a Quic" and pkt
  proof -
    from that consider "f = TlsExtClntConstructPreSharedKey e os" | "f = TlsExtClntConstructKeyShare e os" | "f = TlsExtClntConstructAlpn e"
      | "f = TlsExtClntConstructServerName e" | "f = TlsExtClntConstructSupportedGroups e" | "f = TlsExtClntConstructSigAlgs e"
      | "f = TlsExtClntConstructSupportedVersion e" | "f = TlsExtClntConstructKeyExchModes e" | "f = TlsExtClntConstructTlsExtQtp e"
      | "f = TlsExtClntConstructUnknown e"
      by (auto simp: client_ext_construct_def)
    then show ?thesis
    proof cases
      case 1
      show ?thesis unfolding 1 TlsExtClntConstructPreSharedKey_def Let_def
        by (rule binder_stays pstays_intros | simp)+
    next
      case 2
      show ?thesis unfolding 2 TlsExtClntConstructKeyShare_def
        by (rule pstays_intros key_share_state refl | simp)+
    next
      case 3
      show ?thesis unfolding 3 TlsExtClntConstructAlpn_def Let_def
        by (rule pstays_intros | simp)+
    qed (simp_all add: TlsExtClntConstructServerName_def TlsExtClntConstructSupportedGroups_def TlsExtClntConstructSigAlgs_def
        TlsExtClntConstructSupportedVersion_def TlsExtClntConstructKeyExchModes_def TlsExtClntConstructTlsExtQtp_def
        TlsConstructQtpExtension_def TlsExtClntConstructUnknown_def pstays_leaf pstays_bind)
  qed
  have "pstays tl_state s (construct_ext_loop e (client_ext_construct e os) cxt q p)" if "tl_state (q_tls q) = tl_state s"
    for s and q :: "'a Quic" and p
  proof -
    have "pstays tl_state (q_tls q) (construct_ext_loop e (client_ext_construct e os) cxt q p)"
      by (rule construct_stays) (rule h)
    with that show ?thesis by (simp add: pstays_def)
  qed
  then show ?thesis
    unfolding TlsClntConstructExtensions_def TlsConstructExtensions_def
    by (intro pstays_bind) (auto intro!: pstays_bind pstays_leaf)
qed

lemma hello_build_state: "pstays tl_state (q_tls q) (TlsClientHelloBuild e os q pkt)"
proof -
  have ext: "pstays tl_state s (TlsClntConstructExtensions e os cxt q' p)" if "tl_state (q_tls q') = tl_state s"
    for s and q' :: "'a Quic" and cxt p
    using hello_construct_state[of q' e os cxt p] that by (simp add: pstays_def)
  show ?thesis
    unfolding TlsClientHelloBuild_def Let_def by (rule pstays_intros ext | simp)+
qed

lemma finished_build_auth: "pstays auth (q_tls q) (TlsClntFinishedBuild e os q pkt)"
proof -
  have "pstays auth (q_tls q) (TlsFinishedBuild e os q pkt)"
    by (auto simp: TlsFinishedBuild_def Let_def pstays_def split: sum.split prod.split)
  then show ?thesis unfolding TlsClntFinishedBuild_def by (intro pstays_bind pstays_leaf)
qed

section \<open>A verified server\<close>

text \<open>A signature over the server's context string and the saved hash of the transcript was accepted under the key of the
  certificate.\<close>

definition cert_verified :: "'c ossl \<Rightarrow> Tls \<Rightarrow> bool" where
  "cert_verified os s \<longleftrightarrow> (\<exists>x pkey md pss sig h. tl_peer_cert s = Some x \<and> os_x509_pubkey os x = Some pkey
     \<and> mem_slice (tl_cert_verify_hash s) 0 (unat (tl_cert_verify_hash_len s)) = Inr h
     \<and> os_verify os pkey md pss sig (replicate 64 32 @ ascii ''TLS 1.3, server CertificateVerify'' @ [0] @ h))"

text \<open>The states after the CertificateVerify message, the end of the handshake included.\<close>

definition past_verify :: "TlsState list" where
  "past_verify = [TLS_ST_CR_FINISHED, TLS_ST_CW_CLIENT_CERTIFICATE, TLS_ST_CW_CERT_VERIFY, TLS_ST_CW_FINISHED,
     TLS_ST_CR_NEW_SESSION_TICKET, TLS_ST_SW_HANDSHAKE_DONE, TLS_ST_HANDSHAKE_DONE]"

definition server_known :: "'c ossl \<Rightarrow> Tls \<Rightarrow> bool" where
  "server_known os s \<longleftrightarrow> (tl_state s \<in> set past_verify \<and> \<not> tl_hit s \<longrightarrow> cert_verified os s)"

lemma cert_verified_cong: "auth s = auth t \<Longrightarrow> cert_verified os s = cert_verified os t"
  by (auto simp: cert_verified_def auth_def)

lemma server_known_cong: "auth s = auth t \<Longrightarrow> server_known os s = server_known os t"
  using cert_verified_cong[of s t os] by (auto simp: server_known_def auth_def)

lemma verify_proc:
  assumes "TlsCertVerifyProc os q m = (q', r)" and "tl_state (q_tls q) = TLS_ST_CR_CERT_VERIFY"
  shows "tl_state (q_tls q') = TLS_ST_CR_CERT_VERIFY \<and> (ok r \<longrightarrow> cert_verified os (q_tls q'))"
proof -
  have same: "stays auth (q_tls q) (TlsCertVerifyProc os q m)"
  proof -
    have sig: "auth (fst (TlsCheckPeerSigAlg t i)) = auth t" for t i
      by (simp add: TlsCheckPeerSigAlg_def auth_def split: option.split)
    show ?thesis unfolding TlsCertVerifyProc_def by (rule stays_intros refl | simp add: sig)+
  qed
  then have a: "auth (q_tls q') = auth (q_tls q)" using assms(1) by (simp add: stays_def)
  have "cert_verified os (q_tls q')" if ok: "r = Inr v" for v
  proof -
    obtain x pkey where c: "tl_peer_cert (q_tls q) = Some x" "os_x509_pubkey os x = Some pkey"
      using assms(1) ok by (auto simp: TlsCertVerifyProc_def split: option.split_asm bind_split_asm)
    obtain md data where v: "TlsDoCertVerify os (q_tls q') data pkey md = Inr ()"
      using assms(1) c ok
      by (auto simp: TlsCertVerifyProc_def bindS_eq_Inr split: option.split_asm if_split_asm prod.split_asm)
    have s: "tl_state (q_tls q') = TLS_ST_CR_CERT_VERIFY" "tl_peer_cert (q_tls q') = Some x"
      using a assms(2) c(1) by (simp_all add: auth_def)
    from v obtain h where "mem_slice (tl_cert_verify_hash (q_tls q')) 0 (unat (tl_cert_verify_hash_len (q_tls q'))) = Inr h"
      "os_verify os pkey md (TLS_USE_PSS (q_tls q')) data (replicate 64 32 @ ascii ''TLS 1.3, server CertificateVerify'' @ [0] @ h)"
      using s(1) by (auto simp: TlsDoCertVerify_def TlsGetCertVerifyData_def Let_def bindR_eq_Inr guardR_def
          TLS_TBS_START_SIZE_def split: if_split_asm)
    then show ?thesis using s(2) c(2) unfolding cert_verified_def by blast
  qed
  then show ?thesis using a assms(2) by (auto simp: auth_def ok_def split: sum.split)
qed

lemma not_past: "tl_state s \<notin> set past_verify \<Longrightarrow> server_known os s"
  by (simp add: server_known_def)

lemma known_next: "cert_verified os (q_tls q) \<or> tl_hit (q_tls q) \<or> st \<notin> set past_verify \<Longrightarrow> server_known os (q_tls (set_state st q))"
  using cert_verified_def by (auto simp: server_known_def set_state_def cert_verified_def)

lemma known_hit: "server_known os (q_tls q) \<Longrightarrow> hs_state q \<in> set past_verify \<Longrightarrow> cert_verified os (q_tls q) \<or> tl_hit (q_tls q)"
  by (auto simp: server_known_def)

text \<open>A state of the table: what its message makes of the invariant.\<close>

lemma client_handler_known:
  assumes h: "tp_handler (client_proc e os (hs_state q)) = Some (Read_handler f)" and k: "server_known os (q_tls q)"
    and f: "f q m = (q', r)"
  shows "server_known os (q_tls q')"
    and "ok r \<Longrightarrow> server_known os (q_tls (TlsFlowFinish q' (hs_state q) (tp_next_state (client_proc e os (hs_state q)))))"
proof -
  have pre: "server_known os (q_tls q') \<and> server_known os (q_tls (TlsFlowFinish q' (hs_state q) st))"
    if "stays tl_state (q_tls q) (q', r)" "hs_state q \<notin> set past_verify" "st \<notin> set past_verify" for st
    using that by (auto simp: stays_def TlsFlowFinish_def intro: not_past known_next)
  have post: "server_known os (q_tls q') \<and> server_known os (q_tls (TlsFlowFinish q' (hs_state q) st))"
    if "stays auth (q_tls q) (q', r)" "hs_state q \<in> set past_verify" for st
  proof -
    have a: "auth (q_tls q') = auth (q_tls q)" using that(1) by (simp add: stays_def)
    then have "server_known os (q_tls q')" "hs_state q' \<in> set past_verify" using k that(2) server_known_cong by (auto simp: auth_def)
    then show ?thesis using known_hit[of os q'] by (auto simp: TlsFlowFinish_def intro: known_next)
  qed
  let ?n = "tp_next_state (client_proc e os (hs_state q))"
  note tables = client_read_def client_write_def no_process_def past_verify_def
  have "server_known os (q_tls q') \<and>
    (ok r \<longrightarrow> server_known os (q_tls (TlsFlowFinish q' (hs_state q) (tp_next_state (client_proc e os (hs_state q))))))"
  proof (cases "hs_state q")
    case TLS_ST_CR_SERVER_HELLO
    with h f have "stays tl_state (q_tls q) (q', r)" using hello_proc_state[of q e os m] by (simp add: tables)
    with pre[of ?n] TLS_ST_CR_SERVER_HELLO show ?thesis by (simp add: tables)
  next
    case TLS_ST_CR_ENCRYPTED_EXTENSIONS
    with h f have "stays tl_state (q_tls q) (q', r)" using enc_ext_proc_state[of q e os m] by (simp add: tables)
    with pre[of ?n] TLS_ST_CR_ENCRYPTED_EXTENSIONS show ?thesis by (simp add: tables)
  next
    case TLS_ST_CR_CERT_REQUEST
    with h f have "stays tl_state (q_tls q) (q', r)" by (simp add: tables TlsCertRequestProc_def stays_def)
    with pre[of ?n] TLS_ST_CR_CERT_REQUEST show ?thesis by (simp add: tables)
  next
    case TLS_ST_CR_SERVER_CERTIFICATE
    with h f have "stays tl_state (q_tls q) (q', r)" using cert_proc_state[of q e os m] by (simp add: tables)
    with pre[of ?n] TLS_ST_CR_SERVER_CERTIFICATE show ?thesis by (simp add: tables)
  next
    case TLS_ST_CR_CERT_VERIFY
    with h f have "TlsCertVerifyProc os q m = (q', r)" by (simp add: tables)
    from verify_proc[OF this] TLS_ST_CR_CERT_VERIFY
    show ?thesis by (auto simp: TlsFlowFinish_def past_verify_def intro: not_past known_next)
  next
    case TLS_ST_CR_FINISHED
    with h f have "stays auth (q_tls q) (q', r)" using finished_proc_auth[of q e os m] by (simp add: tables)
    with post TLS_ST_CR_FINISHED show ?thesis by (simp add: tables)
  next
    case TLS_ST_CR_NEW_SESSION_TICKET
    with h f have "stays auth (q_tls q) (q', r)" using ticket_proc_auth[of q e os m] by (simp add: tables)
    with post TLS_ST_CR_NEW_SESSION_TICKET show ?thesis by (simp add: tables)
  qed (use h in \<open>simp_all add: tables\<close>)
  then show "server_known os (q_tls q')"
    "ok r \<Longrightarrow> server_known os (q_tls (TlsFlowFinish q' (hs_state q) (tp_next_state (client_proc e os (hs_state q)))))" by auto
qed

lemma skip_known:
  fixes q :: "'c Quic"
  assumes "read_skip (client_proc e os) type q (client_proc e os (hs_state q)) = Some (q', r)" and "server_known os (q_tls q)"
  shows "server_known os (q_tls q') \<and> (\<forall>p. r = Inr p \<longrightarrow> p = client_proc e os (hs_state q'))"
proof -
  let ?P = "\<lambda>(proc :: 'c tls_table) (type :: u32) (q :: 'c Quic) p (x :: 'c Quic \<times> 'c TlsProcess res).
      proc = client_proc e os \<longrightarrow> p = client_proc e os (hs_state q) \<longrightarrow> server_known os (q_tls q) \<longrightarrow>
      server_known os (q_tls (fst x)) \<and> (\<forall>p'. snd x = Inr p' \<longrightarrow> p' = client_proc e os (hs_state (fst x)))"
  have "?P (client_proc e os) type q (client_proc e os (hs_state q)) (q', r)"
  proof (rule read_skip.raw_induct[where P = ?P, OF _ assms(1)])
    fix skip and proc :: "'c tls_table" and type :: u32 and q :: "'c Quic" and p x
    assume IH: "\<And>(proc :: 'c tls_table) type q p x. skip proc type q p = Some x \<Longrightarrow> ?P proc type q p x"
    assume r: "(if type = tp_msg_type p then Some (q, Inr p)
      else case tp_skip_check p of None \<Rightarrow> Some (q, Inl Fail)
        | Some check \<Rightarrow> if ok (check q) then skip proc type (set_state (tp_next_state p) q) (proc (tp_next_state p))
            else Some (q, Inl Fail)) = Some (x :: 'c Quic \<times> 'c TlsProcess res)"
    show "?P proc type q p x"
    proof (intro impI)
      assume proc: "proc = client_proc e os" and p: "p = client_proc e os (hs_state q)" and k: "server_known os (q_tls q)"
      have nxt: "server_known os (q_tls (set_state (tp_next_state p) q))" if "tp_skip_check p = Some check" "ok (check q)" for check
      proof (rule known_next, cases "hs_state q")
        case TLS_ST_CR_CERT_REQUEST
        then show "cert_verified os (q_tls q) \<or> tl_hit (q_tls q) \<or> tp_next_state p \<notin> set past_verify"
          by (simp add: p client_read_def no_process_def past_verify_def)
      next
        case TLS_ST_CR_SERVER_CERTIFICATE
        then show "cert_verified os (q_tls q) \<or> tl_hit (q_tls q) \<or> tp_next_state p \<notin> set past_verify"
          by (simp add: p client_read_def no_process_def past_verify_def)
      next
        case TLS_ST_CR_CERT_VERIFY
        then have "tl_hit (q_tls q)" using that
          by (auto simp: p client_read_def no_process_def TlsClientSkipCheckCertVerify_def guardR_def ok_def split: if_split_asm)
        then show "cert_verified os (q_tls q) \<or> tl_hit (q_tls q) \<or> tp_next_state p \<notin> set past_verify" by simp
      qed (use that in \<open>simp_all add: p client_read_def client_write_def no_process_def\<close>)
      show "server_known os (q_tls (fst x)) \<and> (\<forall>p'. snd x = Inr p' \<longrightarrow> p' = client_proc e os (hs_state (fst x)))"
        using r k p nxt IH[of proc type "set_state (tp_next_state p) q" "proc (tp_next_state p)" x] proc
        by (auto simp: set_state_def split: if_split_asm option.split_asm)
    qed
  qed
  with assms(2) show ?thesis by simp
qed

lemma take_mac_auth: "stays auth (q_tls q) (TlsTakeMac os q)"
  by (simp add: TlsTakeMac_def Let_def stays_def on_tls_def split: sum.split prod.split)

lemma finish_mac_auth: "finish_mac q d = (q', r) \<Longrightarrow> auth (q_tls q') = auth (q_tls q)"
  by (auto dest!: finish_mac_same)

text \<open>The part of reading a message that runs its handler.\<close>

lemma handled_known:
  assumes p: "p = client_proc e os (hs_state q)" and k: "server_known os (q_tls q)"
    and r: "bindS (if fin then TlsTakeMac os q else (q, Inr ())) (\<lambda>q1 _. bindS (finish_mac q1 d) (\<lambda>q2 _.
      run_read_handler (tp_handler p) q2 msg)) = (q3, r)"
  shows "server_known os (q_tls q3)" and "ok r \<Longrightarrow> server_known os (q_tls (TlsFlowFinish q3 (hs_state q) (tp_next_state p)))"
proof -
  obtain q1 r1 where m: "(if fin then TlsTakeMac os q else (q, Inr ())) = (q1, r1)" by fastforce
  have a1: "auth (q_tls q1) = auth (q_tls q)"
    using m take_mac_auth[of q os] by (auto simp: stays_def split: if_split_asm)
  obtain q2 r2 where f: "finish_mac q1 d = (q2, r2)" by fastforce
  have a2: "auth (q_tls q2) = auth (q_tls q)" using finish_mac_auth[OF f] a1 by simp
  have k1: "server_known os (q_tls q1)" and k2: "server_known os (q_tls q2)" and s2: "hs_state q2 = hs_state q"
    using k server_known_cong a1 a2 by (auto simp: auth_def)
  have "server_known os (q_tls q3) \<and> (ok r \<longrightarrow> server_known os (q_tls (TlsFlowFinish q3 (hs_state q) (tp_next_state p))))"
  proof (cases "\<exists>f. r1 = Inr () \<and> r2 = Inr () \<and> tp_handler p = Some (Read_handler f)")
    case True
    then obtain g where g: "r1 = Inr ()" "r2 = Inr ()" "tp_handler (client_proc e os (hs_state q2)) = Some (Read_handler g)"
      by (auto simp: p s2)
    then have "g q2 msg = (q3, r)" using r m f p s2 by (simp add: bindS_def run_read_handler_def)
    from client_handler_known[OF g(3) k2 this] show ?thesis by (simp add: p s2)
  next
    case False
    then have "(q3 = q1 \<or> q3 = q2) \<and> \<not> ok r"
      using r m f by (auto simp: bindS_def run_read_handler_def split: sum.split_asm option.split_asm tls_handler.split_asm)
    then show ?thesis using k1 k2 by auto
  qed
  then show "server_known os (q_tls q3)" "ok r \<Longrightarrow> server_known os (q_tls (TlsFlowFinish q3 (hs_state q) (tp_next_state p)))"
    by auto
qed

lemma read_message_known:
  assumes p: "p = client_proc e os (hs_state q)" and k: "server_known os (q_tls q)"
    and r: "read_message os q p packet pkt type = ((q', pkt'), r)"
  shows "server_known os (q_tls q')"
proof (cases "q' = q")
  case False
  then obtain d msg q3 r3 where h: "bindS (if type = TLS_MT_FINISHED then TlsTakeMac os q else (q, Inr ()))
      (\<lambda>q1 _. bindS (finish_mac q1 d) (\<lambda>q2 _. run_read_handler (tp_handler p) q2 msg)) = (q3, r3)"
    and c: "q' = q3 \<or> ok r3 \<and> q' = TlsFlowFinish q3 (hs_state q) (tp_next_state p)"
    using r by (fastforce simp: read_message_def Let_def ok_def split: sum.split_asm prod.split_asm if_split_asm)
  show ?thesis using handled_known[OF p k h] c by auto
qed (use k in simp)

lemma read_known:
  assumes k: "server_known os (q_tls q)"
    and r: "TlsHandshakeRead os (client_proc e os) q (client_proc e os (hs_state q)) pkt = Some ((q', pkt'), r)"
  shows "server_known os (q_tls q')"
proof (cases "q' = q")
  case False
  then obtain type pkt1 q1 r1 where g: "RPacketGet1 pkt = Inr (type, pkt1)"
    and sk: "read_skip (client_proc e os) type q (client_proc e os (hs_state q)) = Some (q1, r1)"
    and rest: "case r1 of Inl err \<Rightarrow> drop_message (client_proc e os) q1 pkt1 type = ((q', pkt'), r)
      | Inr p1 \<Rightarrow> read_message os q1 p1 pkt pkt1 type = ((q', pkt'), r)"
    using r by (auto simp: TlsHandshakeRead_def split: if_split_asm sum.split_asm option.split_asm prod.split_asm)
  note s = skip_known[OF sk k]
  show ?thesis
  proof (cases r1)
    case (Inl err)
    then have "q' = q1" using rest by (auto simp: drop_message_def split: if_split_asm sum.split_asm prod.split_asm)
    then show ?thesis using s by simp
  next
    case (Inr p1)
    then show ?thesis using s rest read_message_known[of p1 e os q1] by auto
  qed
qed (use k in simp)

text \<open>Writing.\<close>

lemma client_writer_known:
  assumes h: "tp_handler (client_proc e os (hs_state q)) = Some (Write_handler f)" and k: "server_known os (q_tls q)"
    and f: "f q p = ((q', p'), r)"
  shows "server_known os (q_tls q')"
    and "server_known os (q_tls (TlsFlowFinish (q'\<lparr>q_tls := (q_tls q')\<lparr>tl_handshake_dgst := g\<rparr>\<rparr>) (hs_state q)
      (tp_next_state (client_proc e os (hs_state q)))))"
proof -
  note tables = client_read_def client_write_def no_process_def past_verify_def
  let ?n = "tp_next_state (client_proc e os (hs_state q))" and ?q = "q'\<lparr>q_tls := (q_tls q')\<lparr>tl_handshake_dgst := g\<rparr>\<rparr>"
  have pre: "server_known os (q_tls q') \<and> server_known os (q_tls (TlsFlowFinish ?q (hs_state q) ?n))"
    if "pstays tl_state (q_tls q) ((q', p'), r)" "hs_state q \<notin> set past_verify" "?n \<notin> set past_verify"
    using that by (auto simp: pstays_def TlsFlowFinish_def intro: not_past known_next)
  have post: "server_known os (q_tls q') \<and> server_known os (q_tls (TlsFlowFinish ?q (hs_state q) ?n))"
    if "pstays auth (q_tls q) ((q', p'), r)" "hs_state q \<in> set past_verify"
  proof -
    have a: "auth (q_tls q') = auth (q_tls q)" "auth (q_tls ?q) = auth (q_tls q)" using that(1) by (simp_all add: pstays_def)
    then have "server_known os (q_tls q')" "server_known os (q_tls ?q)" "hs_state ?q \<in> set past_verify"
      using k that(2) server_known_cong[OF a(1), of os] server_known_cong[OF a(2), of os] a(1)[unfolded auth_eq] by simp_all
    then show ?thesis using known_hit[of os ?q] by (auto simp: TlsFlowFinish_def intro: known_next)
  qed
  have "server_known os (q_tls q') \<and> server_known os (q_tls (TlsFlowFinish ?q (hs_state q) ?n))"
  proof (cases "hs_state q")
    case TLS_ST_CW_CLIENT_HELLO
    with h f have "pstays tl_state (q_tls q) ((q', p'), r)" using hello_build_state[of q e os p] by (simp add: tables)
    with pre TLS_ST_CW_CLIENT_HELLO show ?thesis by (simp add: tables)
  next
    case TLS_ST_CW_CLIENT_CERTIFICATE
    with h f have "pstays auth (q_tls q) ((q', p'), r)" by (simp add: tables TlsClntCertBuild_def pstays_def)
    with post TLS_ST_CW_CLIENT_CERTIFICATE show ?thesis by (simp add: tables)
  next
    case TLS_ST_CW_CERT_VERIFY
    with h f have "pstays auth (q_tls q) ((q', p'), r)" by (simp add: tables TlsClntCertVerifyBuild_def pstays_def)
    with post TLS_ST_CW_CERT_VERIFY show ?thesis by (simp add: tables)
  next
    case TLS_ST_CW_FINISHED
    with h f have "pstays auth (q_tls q) ((q', p'), r)" using finished_build_auth[of q e os p] by (simp add: tables)
    with post TLS_ST_CW_FINISHED show ?thesis by (simp add: tables)
  qed (use h in \<open>simp_all add: tables\<close>)
  then show "server_known os (q_tls q')" "server_known os (q_tls (TlsFlowFinish ?q (hs_state q) ?n))" by auto
qed

lemma sync_tls: "q_tls (fst (sync_buffer s)) = q_tls (fst s)"
  by (simp add: sync_buffer_def)

lemma write_known:
  assumes k: "server_known os (q_tls q)"
    and r: "TlsHandshakeWrite e q (client_proc e os (hs_state q)) pkt = ((q', pkt'), r)"
  shows "server_known os (q_tls q')"
proof (cases "tp_handler (client_proc e os (hs_state q))")
  case (Some h)
  let ?p = "client_proc e os (hs_state q)"
  have w: "server_known os (q_tls q3)" "server_known os ((q_tls q3)\<lparr>tl_handshake_dgst := g\<rparr>)"
    if "run_write_handler (Some h) q pkt2 = ((q3, pkt3), x)" for pkt2 q3 pkt3 x g
  proof -
    show "server_known os (q_tls q3)"
      using that Some k client_writer_known(1)[of e os q _ pkt2 q3 pkt3 x]
      by (auto simp: run_write_handler_def split: tls_handler.split_asm)
    then show "server_known os ((q_tls q3)\<lparr>tl_handshake_dgst := g\<rparr>)"
      using server_known_cong[of "(q_tls q3)\<lparr>tl_handshake_dgst := g\<rparr>" "q_tls q3" os] by simp
  qed
  have fin: "server_known os (q_tls (TlsFlowFinish (q3\<lparr>q_tls := (q_tls q3)\<lparr>tl_handshake_dgst := g\<rparr>\<rparr>) (hs_state q) (tp_next_state ?p)))"
    if "run_write_handler (Some h) q pkt2 = ((q3, pkt3), Inr x)" for pkt2 q3 pkt3 x g
    using that Some k client_writer_known(2)[of e os q _ pkt2 q3 pkt3 "Inr x" g]
    by (auto simp: run_write_handler_def split: tls_handler.split_asm)
  show ?thesis
    using r Some k
    by (auto simp: TlsHandshakeWrite_def Let_def bindS_def on_wpkt_def sync_buffer_def
        split: prod.split_asm sum.split_asm if_split_asm dest!: finish_mac_same intro: w fin)
qed (use k r in \<open>simp add: TlsHandshakeWrite_def\<close>)

section \<open>The loop\<close>

lemma step_known:
  assumes k: "server_known os (q_tls (fst s))" and r: "statem_step e os (client_proc e os) s = Some (s1, r)"
  shows "server_known os (q_tls (fst s1))"
proof -
  obtain q rp wp t where s: "s = (q, rp, wp, t)" by (cases s)
  let ?p = "client_proc e os (hs_state q)"
  have nxt: "server_known os (q_tls (set_state (tp_next_state ?p) q))" if "tp_flow_state ?p \<in> {QUIC_FLOW_NOTHING, QUIC_FLOW_FINISHED}"
    using that k by (cases "hs_state q")
      (auto simp: client_read_def client_write_def no_process_def past_verify_def s set_state_def server_known_def cert_verified_def)
  have kq: "server_known os (q_tls q)" using k by (simp add: s)
  show ?thesis
  proof (cases "tp_flow_state ?p")
    case QUIC_FLOW_READING
    then obtain q1 rp1 where "TlsHandshakeRead os (client_proc e os) q ?p rp = Some ((q1, rp1), r)" "fst s1 = q1"
      using r by (auto simp: s statem_step_def Let_def split: option.split_asm prod.split_asm)
    then show ?thesis using read_known[OF kq] by simp
  next
    case QUIC_FLOW_WRITING
    then obtain q1 wp1 where "TlsHandshakeWrite e q ?p wp = ((q1, wp1), r)" "fst s1 = q1"
      using r by (auto simp: s statem_step_def Let_def split: prod.split_asm)
    then show ?thesis using write_known[OF kq] by simp
  qed (use r nxt in \<open>auto simp: s statem_step_def Let_def\<close>)
qed

lemma post_work_known:
  assumes k: "server_known os (q_tls (fst s))" and r: "post_work (client_proc e os st) s = (s', r)"
  shows "server_known os (q_tls (fst s'))"
proof -
  have a: "auth (q_tls q') = auth (q_tls q)" if "tp_post_work (client_proc e os st) = Some f" "f q = (q', r)" for f q q' r
    using that installers(4)[of q "q_tls q" e os]
    by (cases st) (auto simp: client_read_def client_write_def no_process_def TlsClientEncExtPostWork_def QuicStreamInit_def Let_def
        TlsClientFinishedPostWork_def stays_def split: prod.split_asm)
  have "auth (q_tls (fst s')) = auth (q_tls (fst s))"
    using r a[of _ "fst s"] by (auto simp: post_work_def split: option.split_asm prod.split_asm)
  then show ?thesis using server_known_cong k by blast
qed

text \<open>What the steps of the loop keep, and the work after a message, the sending and the end, a whole run of the engine keeps.\<close>

locale run_invariant =
  fixes e :: env and os :: "'c ossl" and proc :: "'c tls_table" and S :: "'c Quic \<Rightarrow> bool"
  assumes step: "statem_step e os proc s = Some (s1, r) \<Longrightarrow> S (fst s) \<Longrightarrow> S (fst s1)"
    and post: "post_work (proc st) s = (s1, r') \<Longrightarrow> S (fst s) \<Longrightarrow> S (fst s1)"
    and flush: "tls_flush e s ret = Some (q', r') \<Longrightarrow> S (fst s) \<Longrightarrow> S q'"
    and finish: "tls_done e q t ret = (q', r) \<Longrightarrow> S q \<Longrightarrow> S q'"
begin

lemma statem: "TlsHandshakeStatem e os proc s = Some x \<Longrightarrow> S (fst s) \<Longrightarrow> S (fst (fst x))"
proof -
  assume r: "TlsHandshakeStatem e os proc s = Some x" and s: "S (fst s)"
  let ?P = "\<lambda>e' os' proc' (s :: 'c hs) (x :: 'c hs \<times> QuicFlowReturn res). e' = e \<longrightarrow> os' = os \<longrightarrow> proc' = proc \<longrightarrow>
      S (fst s) \<longrightarrow> S (fst (fst x))"
  have "?P e os proc s x"
  proof (rule TlsHandshakeStatem.raw_induct[where P = ?P, OF _ r], goal_cases)
    case (1 loop e' os' proc' s x)
    show ?case
    proof (intro impI)
      assume eq: "e' = e" "os' = os" "proc' = proc" and k: "S (fst s)"
      let ?p = "proc (hs_state (fst s))"
      show "S (fst (fst x))"
      proof (cases "tp_flow_state ?p = QUIC_FLOW_FINISHED")
        case False
        then obtain s1 r1 where st: "statem_step e os proc s = Some (s1, r1)"
          using 1(2) eq by (auto split: option.split_asm)
        have k1: "S (fst s1)" using step[OF st k] .
        obtain s2 r2 where w: "post_work ?p s1 = (s2, r2)" by fastforce
        have k2: "S (fst s2)" using post[OF w k1] .
        show ?thesis
          using 1(2) False st w k1 k2 1(1)[of e os proc s2 x] eq by (auto split: if_split_asm sum.split_asm)
      qed (use 1(2) k eq in auto)
    qed
  qed
  with s show ?thesis by simp
qed

lemma loop: "tls_loop e os proc q rp t = Some x \<Longrightarrow> S q \<Longrightarrow> S (fst x)"
proof -
  assume r: "tls_loop e os proc q rp t = Some x" and q: "S q"
  let ?P = "\<lambda>e' os' proc' (q :: 'c Quic) (rp :: RPacket) (t :: u32) (x :: 'c Quic \<times> QuicFlowReturn res). e' = e \<longrightarrow> os' = os \<longrightarrow>
      proc' = proc \<longrightarrow> S q \<longrightarrow> S (fst x)"
  have "?P e os proc q rp t x"
  proof (rule tls_loop.raw_induct[where P = ?P, OF _ r], goal_cases)
    case (1 loop e' os' proc' q rp t x)
    show ?case
    proof (intro impI)
      assume eq: "e' = e" "os' = os" "proc' = proc" and k: "S q"
      show "S (fst x)"
      proof (cases "qbf_buf (q_tls_buffer q)")
        case (Some m)
        then obtain s ret where s: "TlsHandshakeStatem e os proc (q, rp, WPacketBufInit m, t) = Some (s, ret)"
          using 1(2) eq by (auto split: option.split_asm)
        have ks: "S (fst s)" using statem[OF s] k by simp
        show ?thesis
        proof (cases "ret \<noteq> Inl Fail \<and> \<not> ok ret")
          case True
          then show ?thesis using 1(2) Some s ks eq by auto
        next
          case False
          then obtain q1 r1 where f: "tls_flush e s ret = Some (q1, r1)" using 1(2) Some s eq by (auto split: option.split_asm)
          have k1: "S q1" using flush[OF f ks] .
          have d: "S (fst (tls_done e q1 t' ret'))" for t' ret' using finish[of q1 t' ret'] k1 by (metis prod.collapse)
          show ?thesis
            using 1(2) Some s False f k1 d eq 1(1)[of e os proc q1 "fst (snd s)" "snd (snd (snd s))" x]
            by (auto split: sum.split_asm if_split_asm)
        qed
      qed (use 1(2) k eq in auto)
    qed
  qed
  with q show ?thesis by simp
qed

lemma handshake: "TlsHandshake e os proc q = Some (q', r) \<Longrightarrow> S q \<Longrightarrow> S q'"
  using loop by (fastforce simp: TlsHandshake_def Let_def split: if_split_asm sum.split_asm)

end

section \<open>The engine\<close>

lemma flush_tls: "tls_flush e s ret = Some (q', r) \<Longrightarrow> q_tls q' = q_tls (fst s)"
  by (auto simp: tls_flush_def Let_def split: prod.split_asm sum.split_asm if_split_asm
      intro: tls_kept.crypto_queued)

lemma done_known:
  assumes "tls_done e q t ret = (q', r)" and "server_known os (q_tls q)"
  shows "server_known os (q_tls q')"
proof (cases "hs_state q = TLS_ST_SW_HANDSHAKE_DONE")
  case True
  obtain q1 r1 where b: "QuicDataHandshakeDoneFrameBuild e q 0 t = (q1, r1)" by fastforce
  have t: "q_tls q1 = q_tls q"
    using b tls_kept.frame_queued[OF refl, of e q t]
    by (auto simp: QuicDataHandshakeDoneFrameBuild_def bindS_def split: sum.split_asm prod.split_asm) (metis fst_conv)+
  have "cert_verified os (q_tls q1) \<or> tl_hit (q_tls q1)"
    using known_hit[OF assms(2)] True by (simp add: t past_verify_def)
  then have "server_known os (q_tls (set_state TLS_ST_HANDSHAKE_DONE q1))" by (intro known_next) auto
  then show ?thesis
    using assms True b t by (auto simp: tls_done_def quiet_def bindS_def split: sum.split_asm if_split_asm prod.split_asm)
qed (use assms in \<open>simp add: tls_done_def\<close>)

interpretation client_known: run_invariant e os "client_proc e os" "\<lambda>q. server_known os (q_tls q)" for e os
  by unfold_locales (auto simp: flush_tls intro: step_known post_work_known done_known)


text \<open>A client that waits for tickets, with a certificate whose key 5 signed.\<close>

definition demo_done :: "demo_ctx Quic" where
  "demo_done = (demo_hs False)\<lparr>q_tls := tls_zero\<lparr>tl_state := TLS_ST_CR_NEW_SESSION_TICKET, tl_peer_cert := Some 5\<rparr>\<rparr>"


section \<open>A forged EncryptedExtensions\<close>

text \<open>The message: one extension, of type 41, with the identity 0.\<close>

lemma forged_message:
  "case TlsExtLenParse (RPacketBufInit [0, 6, 0, 41, 0, 2, 0, 0] 0 8) of Inl _ \<Rightarrow> False | Inr p \<Rightarrow>
     (\<forall>t \<in> set [EXT_TYPE_SERVER_NAME, EXT_TYPE_ALPN, EXT_TYPE_SUPPORTED_VERSIONS, EXT_TYPE_KEY_SHARE, EXT_TYPE_QUIC_TRANS_PARAMS].
        find_ext_loop t p = Inr None)
     \<and> (case find_ext_loop EXT_TYPE_PRE_SHARED_KEY p of Inr (Some d) \<Rightarrow>
            (case RPacketGet2 d of Inr (v, _) \<Rightarrow> v = 0 | _ \<Rightarrow> False) | _ \<Rightarrow> False)"
  by code_simp

lemma below_identity:
  fixes t :: u32
  assumes "0 < sint t"
  shows "\<not> QUIC_GE 0 t" and "\<not> 0 \<ge> t"
proof -
  have b: "sint t < 2 ^ 31" using sint_lt[of t] by simp
  have "sint (0 - t) = signed_take_bit 31 (- sint t)" by (simp add: sint_word_ariths)
  also have "\<dots> = - sint t" using assms b by (intro signed_take_bit_int_eq_self) simp_all
  finally show "\<not> QUIC_GE 0 t" using assms by (simp add: QUIC_GE_def quic_diff_def)
  show "\<not> 0 \<ge> t" using assms by auto
qed

text \<open>C28: \<^verbatim>\<open>TlsEncExtProc\<close> parses EncryptedExtensions as if they were the extensions of a ServerHello, so a pre_shared_key extension
  there makes a client that holds a ticket believe that the server resumed its session, although no pre-shared key is
  part of the secrets: it then passes over Certificate and CertificateVerify, and a Finished message, which anyone can
  make who did the key exchange with it, is the next message it takes.\<close>

theorem forged_resumption:
  assumes "q_session quic = Some sess" and "0 < sint (ss_tick_identity sess)" and "hs_state quic = TLS_ST_CR_ENCRYPTED_EXTENSIONS"
  shows "\<exists>quic'. TlsEncExtProc e os quic (RPacketBufInit [0, 6, 0, 41, 0, 2, 0, 0] 0 8) = (quic', Inr QUIC_FLOW_RET_FINISH)
    \<and> read_skip (client_proc e os) TLS_MT_FINISHED (set_state TLS_ST_CR_CERT_REQUEST quic') (client_proc e os TLS_ST_CR_CERT_REQUEST) =
        Some (set_state TLS_ST_CR_FINISHED quic', Inr (client_proc e os TLS_ST_CR_FINISHED))
    \<and> tl_peer_cert (q_tls quic') = tl_peer_cert (q_tls quic)"
proof -
  let ?m = "RPacketBufInit [0, 6, 0, 41, 0, 2, 0, 0] 0 8 :: RPacket"
  obtain p where m: "TlsExtLenParse ?m = Inr p"
    using forged_message by (auto split: sum.split_asm)
  have n: "find_ext_loop t p = Inr None"
    if "t \<in> set [EXT_TYPE_SERVER_NAME, EXT_TYPE_ALPN, EXT_TYPE_SUPPORTED_VERSIONS, EXT_TYPE_KEY_SHARE, EXT_TYPE_QUIC_TRANS_PARAMS]" for t
    using forged_message that unfolding m by (simp only: sum.case)
  have g: "case find_ext_loop EXT_TYPE_PRE_SHARED_KEY p of Inr (Some d) \<Rightarrow> (case RPacketGet2 d of Inr (v, _) \<Rightarrow> v = 0 | _ \<Rightarrow> False) | _ \<Rightarrow> False"
    using forged_message unfolding m by (simp only: sum.case)
  then obtain d where d: "find_ext_loop EXT_TYPE_PRE_SHARED_KEY p = Inr (Some d)"
    by (cases "find_ext_loop EXT_TYPE_PRE_SHARED_KEY p") (simp, metis option.simps(4) option.exhaust sum.case(2))
  from g obtain x where x: "RPacketGet2 d = Inr (0, x)"
    unfolding d by (cases "RPacketGet2 d") auto
  let ?q = "quic\<lparr>q_tls := (q_tls quic)\<lparr>tl_hit := True\<rparr>\<rparr>"
  have psk: "TlsExtClntParsePreSharedKey quic d cxt = (?q, Inr ())" "TlsExtClntParsePsk ?q d cxt = (?q, Inr ())" for cxt
    using x assms(1) below_identity[OF assms(2)]
    by (simp_all add: TlsExtClntParsePreSharedKey_def TlsExtClntParsePsk_def bindS_def guardR_def not_le word_gt_0)
  have ctx: "TlsShouldParseExtension TLSEXT_SERVER_HELLO TLSEXT_SERVER_HELLO"
    "\<not> TlsShouldParseExtension TLSEXT_NEW_SESSION_TICKET TLSEXT_SERVER_HELLO"
    by code_simp+
  have "parse_ext_loop (client_ext_parse e os) TLSEXT_SERVER_HELLO quic p = (?q, Inr ())"
    using n d ctx psk by (simp add: client_ext_parse_def bindS_def)
  then have r: "TlsEncExtProc e os quic ?m = (?q, Inr QUIC_FLOW_RET_FINISH)"
    using m by (simp add: TlsEncExtProc_def TlsClntParseExtensions_def TlsParseExtensions_def bindS_def)
  have "read_skip (client_proc e os) TLS_MT_FINISHED (set_state TLS_ST_CR_CERT_REQUEST ?q) (client_proc e os TLS_ST_CR_CERT_REQUEST) =
      Some (set_state TLS_ST_CR_FINISHED ?q, Inr (client_proc e os TLS_ST_CR_FINISHED))"
    by (subst read_skip.simps, simp add: client_read_def no_process_def set_state_def ok_def TLS_MT_FINISHED_def TLS_MT_CERTIFICATE_REQUEST_def
        TlsClientSkipCheckCertRequest_def,
      subst read_skip.simps, simp add: client_read_def no_process_def set_state_def ok_def TLS_MT_FINISHED_def TLS_MT_CERTIFICATE_def
        TlsClientSkipCheckServerCert_def guardR_def,
      subst read_skip.simps, simp add: client_read_def no_process_def set_state_def ok_def TLS_MT_FINISHED_def TLS_MT_CERTIFICATE_VERIFY_def
        TlsClientSkipCheckCertVerify_def guardR_def,
      subst read_skip.simps, simp add: client_read_def no_process_def set_state_def ok_def TLS_MT_FINISHED_def)
  with r show ?thesis by (intro exI[of _ ?q]) simp
qed

definition demo_session :: QUIC_SESSION where
  "demo_session = \<lparr>ss_cipher = None, ss_tick_identity = 1, ss_max_early_data = 0, ss_references = 1, ss_ticket_queue = []\<rparr>"

theorem forged_resumption_witness:
  "\<exists>quic'. TlsEncExtProc env0 demo_ossl ((set_state TLS_ST_CR_ENCRYPTED_EXTENSIONS (demo_hs False))\<lparr>q_session := Some demo_session\<rparr>)
      (RPacketBufInit [0, 6, 0, 41, 0, 2, 0, 0] 0 8) = (quic', Inr QUIC_FLOW_RET_FINISH)"
proof -
  have "hs_state ((set_state TLS_ST_CR_ENCRYPTED_EXTENSIONS (demo_hs False))\<lparr>q_session := Some demo_session\<rparr>) = TLS_ST_CR_ENCRYPTED_EXTENSIONS"
    by (simp add: set_state_def)
  moreover have "0 < sint (ss_tick_identity demo_session)"
    by (simp add: demo_session_def)
  ultimately show ?thesis
    using forged_resumption[of "(set_state TLS_ST_CR_ENCRYPTED_EXTENSIONS (demo_hs False))\<lparr>q_session := Some demo_session\<rparr>" demo_session env0 demo_ossl]
    by auto
qed

end
