(* ===== verification/Tls_Engine.thy ===== *)
theory Tls_Engine
  imports Tls_Auth
begin

text \<open>
  The TLS engine in the connection: what the frame loop needs of its engine, the engine of the code gives. No message of a
  handshake touches the packet buffers or the streams, and the work after two of them makes the table of streams, which
  is refused when there is one; so a whole packet, with all the handshake it sets going, keeps the packet buffers
  and streams as they have to be.
\<close>

section \<open>What handlers leave alone\<close>

text \<open>A function \<open>f\<close> of the state has the value \<open>v\<close> afterwards, whatever the result.\<close>

definition fixed :: "('s \<Rightarrow> 'v) \<Rightarrow> 'v \<Rightarrow> 's \<times> 'a res \<Rightarrow> bool" where
  "fixed f v r \<longleftrightarrow> f (fst r) = v"

named_theorems fixed_intros \<open>operations that leave a part alone\<close>

lemma fixed_bind [fixed_intros]:
  "fixed f v r \<Longrightarrow> (\<And>s x. f s = v \<Longrightarrow> fixed f v (g s x)) \<Longrightarrow> fixed f v (bindS r g)"
  by (auto simp: fixed_def bindS_def split: prod.split sum.split)

lemma fixed_pair [fixed_intros]: "f s = v \<Longrightarrow> fixed f v (s, x)"
  by (simp add: fixed_def)

lemma fixed_if [fixed_intros]: "fixed f v a \<Longrightarrow> fixed f v b \<Longrightarrow> fixed f v (if c then a else b)"
  by simp

lemma fixed_case [fixed_intros]:
  "(\<And>a b. p = (a, b) \<Longrightarrow> fixed f v (g a b)) \<Longrightarrow> fixed f v (case p of (a, b) \<Rightarrow> g a b)"
  "(\<And>a b. p = (a, b) \<Longrightarrow> fixed f v (gx a b y)) \<Longrightarrow> fixed f v ((case p of (a, b) \<Rightarrow> gx a b) y)"
  "fixed f v n \<Longrightarrow> (\<And>a. fixed f v (g' a)) \<Longrightarrow> fixed f v (case x of None \<Rightarrow> n | Some a \<Rightarrow> g' a)"
  "(\<And>a. fixed f v (h a)) \<Longrightarrow> (\<And>b. fixed f v (k b)) \<Longrightarrow> fixed f v (case r of Inl a \<Rightarrow> h a | Inr b \<Rightarrow> k b)"
  "fixed f v n \<Longrightarrow> (\<And>a l'. fixed f v (m a l')) \<Longrightarrow> fixed f v (case l of [] \<Rightarrow> n | a # l' \<Rightarrow> m a l')"
  by (auto split: prod.split option.split sum.split list.split)

lemma fixed_quiet [fixed_intros]: "fixed f v r \<Longrightarrow> fixed f v (quiet r)"
  by (auto simp: fixed_def quiet_def split: prod.split sum.split)

text \<open>The part: the streams and the packet buffers, with the size that buffers are made with.\<close>

definition store_part :: "'c Quic \<Rightarrow> QuicStreamConf \<times> buf_store \<times> nat \<times> u32" where
  "store_part quic = (q_stream quic, q_bufs quic, q_next_buf quic, q_mss quic)"

lemma store_part_updates [simp]:
  "store_part (quic\<lparr>q_tls := t\<rparr>) = store_part quic" "store_part (quic\<lparr>q_session := s\<rparr>) = store_part quic"
  "store_part (quic\<lparr>q_tls_buffer := b\<rparr>) = store_part quic" "store_part (quic\<lparr>q_peer_param := p\<rparr>) = store_part quic"
  "store_part (quic\<lparr>q_token := d\<rparr>) = store_part quic" "store_part (quic\<lparr>q_tx_queue := x\<rparr>) = store_part quic"
  "store_part (crypto_upd quic sp c) = store_part quic" "store_part (set_state st quic) = store_part quic"
  "store_part (quic\<lparr>q_dcid := d\<rparr>) = store_part quic" "store_part (quic\<lparr>q_conn := n\<rparr>) = store_part quic"
  "store_part (quic\<lparr>q_tls := t, q_tls_buffer := b\<rparr>) = store_part quic" "store_part (quic\<lparr>q_session := s, q_tls := t\<rparr>) = store_part quic"
  by (simp_all add: store_part_def set_state_def) (cases sp; simp)

abbreviation keeps_store :: "QuicStreamConf \<times> buf_store \<times> nat \<times> u32 \<Rightarrow> 'c Quic \<times> 'a res \<Rightarrow> bool" where
  "keeps_store \<equiv> fixed store_part"

abbreviation keeps_store_pkt :: "QuicStreamConf \<times> buf_store \<times> nat \<times> u32 \<Rightarrow> ('c Quic \<times> WPacket) \<times> 'a res \<Rightarrow> bool" where
  "keeps_store_pkt \<equiv> fixed (\<lambda>s. store_part (fst s))"

lemma keeps_on_tls [fixed_intros]: "store_part q = v \<Longrightarrow> keeps_store v (on_tls q r)"
  by (simp add: fixed_def on_tls_def)

lemma keeps_on_wpkt [fixed_intros]: "store_part q = v \<Longrightarrow> keeps_store_pkt v (on_wpkt q r)"
  "store_part q = v \<Longrightarrow> keeps_store_pkt v (ext_sent q r')"
  by (simp_all add: fixed_def on_wpkt_def ext_sent_def bindS_def split: sum.split)

text \<open>Keys.\<close>

lemma cached_store [fixed_intros]: "store_part q = v \<Longrightarrow> keeps_store v (TlsDigestCachedRecords os q)"
  unfolding TlsDigestCachedRecords_def Let_def by (rule fixed_intros | simp)+

lemma create_store [fixed_intros]:
  "store_part q = v \<Longrightarrow> keeps_store v (QuicCreateEncryptorDecryptor e os q sp in_secret out_secret h label fin rm st enc)"
  unfolding QuicCreateEncryptorDecryptor_def Let_def by (rule fixed_intros | simp)+

lemmas all_installer_defs = installer_defs QuicCreateHandshakeServerEncoders_def QuicCreateHandshakeClientDecoders_def
  QuicCreateAppDataServerEncoders_def QuicCreateAppDataClientDecoders_def

lemma installers_store [fixed_intros]:
  "store_part q = v \<Longrightarrow> keeps_store v (QuicCreateHandshakeServerDecoders e os q)"
  "store_part q = v \<Longrightarrow> keeps_store v (QuicCreateHandshakeServerEncoders e os q)"
  "store_part q = v \<Longrightarrow> keeps_store v (QuicCreateHandshakeClientDecoders e os q)"
  "store_part q = v \<Longrightarrow> keeps_store v (QuicCreateHandshakeClientEncoders e os q)"
  "store_part q = v \<Longrightarrow> keeps_store v (QuicCreateAppDataServerDecoders e os q)"
  "store_part q = v \<Longrightarrow> keeps_store v (QuicCreateAppDataServerEncoders e os q)"
  "store_part q = v \<Longrightarrow> keeps_store v (QuicCreateAppDataClientDecoders e os q)"
  "store_part q = v \<Longrightarrow> keeps_store v (QuicCreateAppDataClientEncoders e os q)"
  unfolding all_installer_defs by (simp_all add: create_store)

lemma session_store [fixed_intros]: "store_part q = v \<Longrightarrow> keeps_store v (QuicGetSession e q)"
  unfolding QuicGetSession_def by (rule fixed_intros | simp)+

lemma take_mac_store [fixed_intros]: "store_part q = v \<Longrightarrow> keeps_store v (TlsTakeMac os q)"
  unfolding TlsTakeMac_def Let_def by (rule fixed_intros | simp)+

lemma finish_mac_store [fixed_intros]: "store_part q = v \<Longrightarrow> keeps_store v (finish_mac q d)"
  unfolding finish_mac_def by (rule fixed_intros | simp)+

section \<open>Extensions\<close>

lemma parse_loop_fixed:
  assumes "\<And>x q p v. x \<in> set ext \<Longrightarrow> store_part q = v \<Longrightarrow> keeps_store v (ep_parse x q p cxt)" and "store_part q = v"
  shows "keeps_store v (parse_ext_loop ext cxt q pkt)"
  using assms
proof (induction ext arbitrary: q)
  case (Cons x xs)
  have IH: "keeps_store v (parse_ext_loop xs cxt q' pkt)" if "store_part q' = v" for q'
    using Cons.IH[of q'] Cons.prems that by simp
  have x: "keeps_store v (ep_parse x q p cxt)" for p using Cons.prems by simp
  show ?case unfolding parse_ext_loop.simps by (rule fixed_intros IH x Cons.prems(2) | assumption)+
qed (simp add: fixed_def)

lemma parse_fixed:
  assumes "\<And>x q p v. x \<in> set ext \<Longrightarrow> store_part q = v \<Longrightarrow> keeps_store v (ep_parse x q p cxt)" and "store_part q = v"
  shows "keeps_store v (TlsParseExtensions ext cxt q pkt)"
  unfolding TlsParseExtensions_def by (rule fixed_intros parse_loop_fixed assms | assumption)+

lemma construct_fixed:
  assumes "\<And>x f q p v. x \<in> set ext \<Longrightarrow> ec_construct x = Some f \<Longrightarrow> store_part q = v \<Longrightarrow> keeps_store_pkt v (f q p cxt)"
    and "store_part q = v"
  shows "keeps_store_pkt v (construct_ext_loop e ext cxt q pkt)"
  using assms
proof (induction ext arbitrary: q pkt)
  case (Cons x xs)
  have IH: "keeps_store_pkt v (construct_ext_loop e xs cxt q' p)" if "store_part q' = v" for q' p
    using Cons.IH[of q' p] Cons.prems(1)[OF list.set_intros(2)] that by auto
  have x: "keeps_store_pkt v (f q' p cxt)" if "ec_construct x = Some f" "store_part q' = v" for f q' p
    using Cons.prems(1)[OF list.set_intros(1)] that by blast
  show ?case
    using IH x Cons.prems(2)
    by (auto split: option.split prod.split sum.split intro!: fixed_bind keeps_on_wpkt fixed_pair)
qed (simp add: fixed_def)

text \<open>Transport parameters.\<close>

lemma qtp_param_store [fixed_intros]: "store_part q = v \<Longrightarrow> keeps_store v (qtp_param tp q type len pkt)"
proof -
  assume "store_part q = v"
  moreover have "store_part (fst (qtp_parse_run f q off pkt len)) = store_part q" for f off
    by (cases f)
      (simp_all add: TlsExtQtpParseInteger_def TlsExtQtpParseStatelessResetToken_def TlsExtQtpParseSourceConnId_def bindS_def
        split: sum.split prod.split)
  ultimately show ?thesis by (simp add: qtp_param_def fixed_def split: option.split sum.split)
qed

lemma qtp_loop_store [fixed_intros]: "store_part q = v \<Longrightarrow> keeps_store v (parse_qtp_loop tp q pkt)"
proof (induction tp q pkt rule: parse_qtp_loop.induct)
  case (1 tp q pkt)
  show ?case
    using 1 qtp_param_store[of q v tp]
    by (subst parse_qtp_loop.simps) (auto simp: fixed_def split: sum.split prod.split, metis fst_conv, metis fst_conv)
qed

lemma client_parse_store [fixed_intros]:
  assumes "store_part q = v"
  shows "keeps_store v (TlsClntParseExtensions e os cxt q pkt)"
  unfolding TlsClntParseExtensions_def
proof (rule parse_fixed[OF _ assms])
  fix x :: "'a TlsExtParse" and q :: "'a Quic" and p v
  assume s: "store_part q = v" and "x \<in> set (client_ext_parse e os)"
  then consider "ep_parse x = TlsExtClntParseServerName" | "ep_parse x = TlsExtClntParseAlpn e" | "ep_parse x = TlsExtClntParsePreSharedKey"
    | "ep_parse x = TlsExtClntParseSupportedVersion" | "ep_parse x = TlsExtClntParseKeyShare e os"
    | "ep_parse x = TlsExtClntParseTlsExtQtp" | "ep_parse x = TlsExtClntParseEarlyData" | "ep_parse x = TlsExtClntParsePsk"
    by (auto simp: client_ext_parse_def)
  then show "keeps_store v (ep_parse x q p cxt)"
    by cases (simp only: TlsExtClntParseServerName_def TlsExtClntParseAlpn_def TlsExtClntParsePreSharedKey_def Let_def
        TlsExtClntParseSupportedVersion_def TlsExtClntParseKeyShare_def TlsExtClntParseEarlyData_def TlsExtClntParsePsk_def
        TlsExtClntParseTlsExtQtp_def TlsParseQtpExtension_def, ((rule fixed_intros s | simp)+)[1])+
qed

lemma key_share_loop_store [fixed_intros]: "store_part q = v \<Longrightarrow> keeps_store v (key_share_loop os q found pkt)"
proof (induction os q found pkt rule: key_share_loop.induct)
  case (1 os q found pkt)
  show ?case
    using 1 by (subst key_share_loop.simps) (auto simp: fixed_pair Let_def split: sum.split prod.split option.split)
qed

lemma server_parse_store [fixed_intros]:
  assumes "store_part q = v"
  shows "keeps_store v (TlsSrvrParseExtensions e os cxt q pkt)"
  unfolding TlsSrvrParseExtensions_def
proof (rule parse_fixed[OF _ assms])
  fix x :: "'a TlsExtParse" and q :: "'a Quic" and p v
  assume s: "store_part q = v" and "x \<in> set (server_ext_parse e os)"
  then consider "ep_parse x = TlsExtSrvrParseServerName e" | "ep_parse x = TlsExtSrvrParseSupportedGroups e"
    | "ep_parse x = TlsExtSrvrParseSigAlgs e" | "ep_parse x = TlsExtSrvrParseAlpn e" | "ep_parse x = TlsExtSrvrParseSupportedVersion"
    | "ep_parse x = TlsExtSrvrParseKeyExchModes" | "ep_parse x = TlsExtSrvrParseKeyShare os" | "ep_parse x = TlsExtSrvrParseQtp"
    | "ep_parse x = TlsExtSrvrParseEarlyData" | "ep_parse x = TlsExtsrvrParsePsk e os"
    by (auto simp: server_ext_parse_def)
  then show "keeps_store v (ep_parse x q p cxt)"
    by cases (simp only: TlsExtSrvrParseServerName_def TlsExtSrvrParseSupportedGroups_def TlsExtSrvrParseSigAlgs_def Let_def
        TlsExtSrvrParseAlpn_def TlsExtSrvrParseSupportedVersion_def TlsExtSrvrParseKeyExchModes_def TlsExtSrvrParseKeyShare_def
        TlsExtSrvrParseQtp_def TlsParseQtpExtension_def TlsExtSrvrParseEarlyData_def TlsExtsrvrParsePsk_def psk_binder_def,
        ((rule fixed_intros s | simp)+)[1])+
qed

lemma add_key_shares_store [fixed_intros]: "store_part q = v \<Longrightarrow> keeps_store_pkt v (add_key_shares e os is q pkt)"
proof (induction "is" arbitrary: q pkt)
  case (Cons i "is")
  have "keeps_store_pkt v (TlsExtClntAddKeyShare e os q p i)" if "store_part q = v" for q :: "'a Quic" and p
    unfolding TlsExtClntAddKeyShare_def Let_def using that by - (rule fixed_intros | simp)+
  then show ?case using Cons by (auto intro!: fixed_bind)
qed (simp add: fixed_def)

lemma client_construct_store [fixed_intros]:
  assumes "store_part q = v"
  shows "keeps_store_pkt v (TlsClntConstructExtensions e os cxt q pkt)"
proof -
  have h: "keeps_store_pkt v (f q p cxt)" if "x \<in> set (client_ext_construct e os)" "ec_construct x = Some f" "store_part q = v"
    for x f and q :: "'a Quic" and p v
  proof -
    note s = that(3)
    from that consider "f = TlsExtClntConstructPreSharedKey e os" | "f = TlsExtClntConstructKeyShare e os" | "f = TlsExtClntConstructAlpn e"
      | "f = TlsExtClntConstructServerName e" | "f = TlsExtClntConstructSupportedGroups e" | "f = TlsExtClntConstructSigAlgs e"
      | "f = TlsExtClntConstructSupportedVersion e" | "f = TlsExtClntConstructKeyExchModes e" | "f = TlsExtClntConstructTlsExtQtp e"
      | "f = TlsExtClntConstructUnknown e"
      by (auto simp: client_ext_construct_def)
    then show ?thesis
      by cases (simp only: TlsExtClntConstructPreSharedKey_def TlsExtClntConstructKeyShare_def TlsExtClntConstructAlpn_def Let_def
          TlsExtClntConstructServerName_def TlsExtClntConstructSupportedGroups_def TlsExtClntConstructSigAlgs_def
          TlsExtClntConstructSupportedVersion_def TlsExtClntConstructKeyExchModes_def TlsExtClntConstructTlsExtQtp_def
          TlsConstructQtpExtension_def TlsExtClntConstructUnknown_def, ((rule fixed_intros s | simp)+)[1])+
  qed
  show ?thesis
    unfolding TlsClntConstructExtensions_def TlsConstructExtensions_def
    by (intro fixed_bind keeps_on_wpkt assms fixed_case construct_fixed) (auto intro: h fixed_bind keeps_on_wpkt)
qed

lemma server_construct_store [fixed_intros]:
  assumes "store_part q = v"
  shows "keeps_store_pkt v (TlsSrvrConstructExtensions e os cxt q pkt)"
proof -
  have h: "keeps_store_pkt v (f q p cxt)" if "x \<in> set (server_ext_construct e os)" "ec_construct x = Some f" "store_part q = v"
    for x f and q :: "'a Quic" and p v
  proof -
    note s = that(3)
    from that consider "f = TlsExtSrvrConstructServerName" | "f = TlsExtSrvrConstructSupportedVersion e" | "f = TlsExtSrvrConstructKeyShare e os"
      | "f = TlsExtSrvrConstructAlpn e" | "f = TlsExtSrvrConstructQtp e" | "f = TlsExtSrvrConstructEarlyData e"
      | "f = TlsExtSrvrConstructPreSharedKey e"
      by (auto simp: server_ext_construct_def)
    then show ?thesis
      by cases (simp only: TlsExtSrvrConstructServerName_def TlsExtSrvrConstructSupportedVersion_def TlsExtSrvrConstructKeyShare_def Let_def
          TlsExtSrvrConstructAlpn_def TlsExtSrvrConstructQtp_def TlsConstructQtpExtension_def TlsExtSrvrConstructEarlyData_def
          TlsExtSrvrConstructPreSharedKey_def, ((rule fixed_intros s | simp | (auto simp: on_tls_def)[1])+)[1])+
  qed
  show ?thesis
    unfolding TlsSrvrConstructExtensions_def TlsConstructExtensions_def
    by (intro fixed_bind keeps_on_wpkt assms fixed_case construct_fixed) (auto intro: h fixed_bind keeps_on_wpkt)
qed

section \<open>Messages\<close>

text \<open>Reading, on both sides.\<close>

lemma cert_list_store [fixed_intros]: "store_part q = v \<Longrightarrow> keeps_store v (cert_list_loop e os q pkt)"
  using cert_list_same[of e os q pkt] by (simp add: fixed_def)

lemma client_readers_store:
  assumes "store_part q = v"
  shows "keeps_store v (TlsServerHelloProc e os q m)" and "keeps_store v (TlsEncExtProc e os q m)"
    and "keeps_store v (TlsCertRequestProc q m)" and "keeps_store v (TlsServerCertProc e os q m)"
    and "keeps_store v (TlsCertVerifyProc os q m)" and "keeps_store v (TlsClientFinishedProc e os q m)"
    and "keeps_store v (TlsClntNewSessionTicketProc e os q m)"
  unfolding TlsServerHelloProc_def TlsEncExtProc_def TlsCertRequestProc_def TlsServerCertProc_def server_certs_def
    TlsCertVerifyProc_def TlsClientFinishedProc_def TlsClntNewSessionTicketProc_def new_ticket_def Let_def
  by ((rule fixed_intros assms | simp)+)[7]

lemma server_readers_store:
  assumes "store_part q = v"
  shows "keeps_store v (TlsClientHelloProc e os q m)" and "keeps_store v (TlsSrvrCertProc q m)"
    and "keeps_store v (TlsSrvrCertVerifyProc q m)" and "keeps_store v (TlsSrvrFinishedProc e os q m)"
  unfolding TlsClientHelloProc_def TlsSrvrCertProc_def TlsSrvrCertVerifyProc_def TlsSrvrFinishedProc_def Let_def
  by ((rule fixed_intros assms | simp)+)[4]

text \<open>Writing.\<close>

lemma client_writers_store:
  assumes "store_part q = v"
  shows "keeps_store_pkt v (TlsClientHelloBuild e os q p)" and "keeps_store_pkt v (TlsClntCertBuild q p)"
    and "keeps_store_pkt v (TlsClntCertVerifyBuild q p)" and "keeps_store_pkt v (TlsClntFinishedBuild e os q p)"
  unfolding TlsClientHelloBuild_def TlsClntCertBuild_def TlsClntCertVerifyBuild_def TlsClntFinishedBuild_def TlsFinishedBuild_def Let_def
  by ((rule fixed_intros assms | simp)+)[4]

lemma add_certs_store [fixed_intros]:
  "store_part (fst s) = v \<Longrightarrow> keeps_store_pkt v (add_certs e os xs (TlsSrvrConstructExtensions e os) s)"
  using add_certs_same[of e os xs s] by (auto simp: fixed_def) (metis prod.collapse)

lemma stateless_ticket_store [fixed_intros]:
  "store_part q = v \<Longrightarrow> keeps_store_pkt v (TlsConstructStatelessTicket e os q sess p n)"
  unfolding TlsConstructStatelessTicket_def Let_def tls_draw_def by (rule fixed_intros | auto)+

lemma send_ticket_store [fixed_intros]: "store_part q = v \<Longrightarrow> keeps_store_pkt v (send_ticket e os q sess t p)"
  unfolding send_ticket_def Let_def by (rule fixed_intros | simp)+

lemma tickets_done_store [fixed_intros]: "keeps_store_pkt v r \<Longrightarrow> keeps_store_pkt v (tickets_done r)"
  by (auto simp: tickets_done_def fixed_def split: prod.split)

lemma cert_chain_store [fixed_intros]:
  assumes "store_part q = v"
  shows "keeps_store_pkt v (TlsCertChainBuild e os q p cpk (TlsSrvrConstructExtensions e os))"
  unfolding TlsCertChainBuild_def TlsAddCertChain_def
  by (rule fixed_intros assms | simp del: add_certs.simps)+

text \<open>What goes on with a state that another operation left.\<close>

lemma fixed_after:
  "fixed f v x \<Longrightarrow> (\<And>a r. f a = v \<Longrightarrow> fixed f' v (g a r)) \<Longrightarrow> fixed f' v (case x of (a, r) \<Rightarrow> g a r)"
  by (cases x) (simp add: fixed_def)

lemma new_ticket_store:
  assumes "store_part q = v"
  shows "keeps_store_pkt v (TlsSrvrNewSessionTicketBuild e os q p)"
  unfolding TlsSrvrNewSessionTicketBuild_def tls_draw_def Let_def
  by (rule fixed_case(3), rule fixed_intros, rule fixed_intros, simp add: assms, rule fixed_after[where f = store_part])
    (rule fixed_intros assms | simp)+

lemma server_writers_store:
  assumes "store_part q = v"
  shows "keeps_store_pkt v (TlsServerHelloBuild e os q p)" and "keeps_store_pkt v (TlsSrvrEncryptedExtBuild e os q p)"
    and "keeps_store_pkt v (TlsSrvrCertRequestBuild q p)" and "keeps_store_pkt v (TlsSrvrServerCertBuild e os q p)"
    and "keeps_store_pkt v (TlsSrvrCertVerifyBuild e os q p)" and "keeps_store_pkt v (TlsSrvrFinishedBuild e os q p)"
  unfolding TlsServerHelloBuild_def TlsSrvrEncryptedExtBuild_def TlsSrvrCertRequestBuild_def TlsSrvrServerCertBuild_def
    TlsSrvrCertVerifyBuild_def TlsCertVerifyBuild_def TlsSrvrFinishedBuild_def TlsFinishedBuild_def Let_def
  by ((rule fixed_intros assms | simp)+)[6]

text \<open>A table whose handlers leave the store alone, and whose work after a message keeps \<open>S\<close>.\<close>

definition table_fixed :: "'c tls_table \<Rightarrow> bool" where
  "table_fixed proc \<longleftrightarrow> (\<forall>st q. (\<forall>f m. tp_handler (proc st) = Some (Read_handler f) \<longrightarrow> keeps_store (store_part q) (f q m))
     \<and> (\<forall>f p. tp_handler (proc st) = Some (Write_handler f) \<longrightarrow> keeps_store_pkt (store_part q) (f q p)))"

lemma client_fixed: "table_fixed (client_proc e os)"
  unfolding table_fixed_def
proof (intro allI)
  show "(\<forall>f m. tp_handler (client_proc e os st) = Some (Read_handler f) \<longrightarrow> keeps_store (store_part q) (f q m))
     \<and> (\<forall>f p. tp_handler (client_proc e os st) = Some (Write_handler f) \<longrightarrow> keeps_store_pkt (store_part q) (f q p))" for st and q :: "'a Quic"
    by (cases st) (auto simp: client_read_def client_write_def no_process_def client_readers_store[OF refl] client_writers_store[OF refl])
qed

lemma server_fixed: "table_fixed (server_proc e os)"
  unfolding table_fixed_def
proof (intro allI)
  show "(\<forall>f m. tp_handler (server_proc e os st) = Some (Read_handler f) \<longrightarrow> keeps_store (store_part q) (f q m))
     \<and> (\<forall>f p. tp_handler (server_proc e os st) = Some (Write_handler f) \<longrightarrow> keeps_store_pkt (store_part q) (f q p))" for st and q :: "'a Quic"
    by (cases st) (auto simp: server_read_def server_write_def client_read_def client_write_def no_process_def
        server_readers_store[OF refl] server_writers_store[OF refl] new_ticket_store[OF refl])
qed

section \<open>The loop\<close>

lemma read_skip_store:
  assumes "read_skip proc type q p = Some (q', r)" and "\<exists>st. p = proc st"
  shows "store_part q' = store_part q \<and> (\<forall>p'. r = Inr p' \<longrightarrow> (\<exists>st. p' = proc st))"
proof -
  let ?P = "\<lambda>proc type (q :: 'a Quic) p x. (\<exists>st. p = proc st) \<longrightarrow>
      store_part (fst x) = store_part q \<and> (\<forall>p'. snd x = Inr p' \<longrightarrow> (\<exists>st. p' = proc st))"
  have "?P proc type q p (q', r)"
  proof (rule read_skip.raw_induct[where P = ?P, OF _ assms(1)], goal_cases)
    case (1 skip proc type q p x)
    show ?case
      using 1(2) 1(1)[of proc type "set_state (tp_next_state p) q" "proc (tp_next_state p)" x]
      by (auto split: if_split_asm option.split_asm)
  qed
  with assms(2) show ?thesis by simp
qed

lemma read_store:
  assumes "table_fixed proc" and "TlsHandshakeRead os proc q (proc st) pkt = Some ((q', pkt'), r)"
  shows "store_part q' = store_part q"
proof -
  have run: "keeps_store v (run_read_handler (tp_handler (proc st')) q2 m)" if "store_part q2 = v" for st' q2 m v
    using that assms(1) by (auto simp: run_read_handler_def table_fixed_def fixed_pair split: option.split tls_handler.split)
  have flow: "store_part (TlsFlowFinish q2 a b) = store_part q2" for q2 a b
    by (simp add: TlsFlowFinish_def)
  have msg: "store_part q2 = store_part q1" if "read_message os q1 (proc st') packet p type = ((q2, p2), x)" for st' q1 packet p type q2 p2 x
  proof -
    have "fixed (\<lambda>s. store_part (fst s)) (store_part q1) (read_message os q1 (proc st') packet p type)"
      unfolding read_message_def Let_def
      by (rule fixed_after[where f = store_part] | rule fixed_intros run | simp add: flow)+
    then show ?thesis using that by (simp add: fixed_def)
  qed
  have drop: "store_part q2 = store_part q1" if "drop_message proc q1 p type = ((q2, p2), x)" for q1 p type q2 p2 x
    using that by (auto simp: drop_message_def split: if_split_asm sum.split_asm prod.split_asm)
  show ?thesis
    using assms(2) by (auto simp: TlsHandshakeRead_def split: if_split_asm sum.split_asm option.split_asm prod.split_asm
        dest!: read_skip_store msg drop)
qed

lemma write_store:
  assumes "table_fixed proc" and "TlsHandshakeWrite e q (proc st) pkt = ((q', pkt'), r)"
  shows "store_part q' = store_part q"
proof -
  have run: "keeps_store_pkt v (run_write_handler (tp_handler (proc st)) q2 p)" if "store_part q2 = v" for q2 p v
    using that assms(1) by (auto simp: run_write_handler_def table_fixed_def fixed_pair split: option.split tls_handler.split)
  have flow: "store_part (TlsFlowFinish q2 a b) = store_part q2" for q2 a b
    by (simp add: TlsFlowFinish_def)
  have sync: "fixed (\<lambda>s. store_part (fst s)) v (case x of (s, r) \<Rightarrow> (sync_buffer s, r))"
    if "keeps_store_pkt v x" for v and x :: "('a Quic \<times> WPacket) \<times> QuicFlowReturn res"
    using that by (auto simp: fixed_def sync_buffer_def split: prod.split)
  have "keeps_store_pkt (store_part q) (TlsHandshakeWrite e q (proc st) pkt)"
    unfolding TlsHandshakeWrite_def Let_def
    by (rule sync | rule fixed_after[where f = store_part] | rule fixed_intros run | simp add: flow)+
  then show ?thesis using assms(2) by (simp add: fixed_def)
qed

text \<open>Sending queues frames; the end of the server's handshake queues two more, one of them with a new token.\<close>

interpretation store_tx: tx_invariant "\<lambda>quic. store_part quic = v" for v
  by unfold_locales simp

lemma flush_store: "tls_flush e s ret = Some (q', r) \<Longrightarrow> store_part q' = store_part (fst s)"
  by (auto simp: tls_flush_def Let_def split: prod.split_asm sum.split_asm if_split_asm
      intro: store_tx.crypto_queued)

lemma done_store: "tls_done e q t ret = (q', r) \<Longrightarrow> store_part q' = store_part q"
proof -
  have p: "fp_builder (frame_handler ! unat QUIC_FRAME_TYPE_HANDSHAKE_DONE) = None"
    "fp_builder (frame_handler ! unat QUIC_FRAME_TYPE_NEW_TOKEN) = Some NewTokenBuild"
    by code_simp+
  have built: "store_part q1 = store_part q0"
    if "build_nodes e q0 pkt sp [\<lparr>fn_type = QUIC_FRAME_TYPE_HANDSHAKE_DONE, fn_arg = None, fn_larg = 0\<rparr>,
          \<lparr>fn_type = QUIC_FRAME_TYPE_NEW_TOKEN, fn_arg = None, fn_larg = 0\<rparr>] = ((q1, pkt'), x)" for q0 pkt sp q1 pkt' x
    using that
    by (auto simp: p Let_def QuicFrameNewTokenBuild_def bindS_def on_pkt_def split: if_split_asm prod.split_asm sum.split_asm)
  have "store_part q1 = store_part q" if "QuicDataHandshakeDoneFrameBuild e q 0 t = (q1, x)" for q1 x
    using that
    by (auto simp: QuicDataHandshakeDoneFrameBuild_def QuicFrameBuild_def bindS_def Let_def simp del: build_nodes.simps
        split: sum.split_asm prod.split_asm if_split_asm dest!: built dest: store_tx.queued[OF _ refl])
  then show "tls_done e q t ret = (q', r) \<Longrightarrow> store_part q' = store_part q"
    by (auto simp: tls_done_def quiet_def bindS_def split: if_split_asm prod.split_asm sum.split_asm)
qed

section \<open>The engine\<close>

text \<open>What depends on the store only, and the making of the table of streams keeps, every run of the engine keeps.\<close>

locale store_invariant =
  fixes S :: "'c Quic \<Rightarrow> bool"
  assumes same: "S q \<Longrightarrow> store_part q' = store_part q \<Longrightarrow> S q'"
    and streams: "S q \<Longrightarrow> S (fst (QuicStreamInit e q))"
begin

lemma post: "tp_post_work (proc st) = Some f \<Longrightarrow> f q = (q', r) \<Longrightarrow> proc \<in> {client_proc e os, server_proc e os} \<Longrightarrow> S q \<Longrightarrow> S q'"
proof -
  assume f: "tp_post_work (proc st) = Some f" "f q = (q', r)" and proc: "proc \<in> {client_proc e os, server_proc e os}" and s: "S q"
  have c: "store_part q1 = store_part q" if "keeps_store (store_part q) (q1, x)" for q1 and x :: "unit res"
    using that by (simp add: fixed_def)
  have hello: "S q1" if "TlsSrvrClientHelloPostWork e os q = (q1, x)" for q1 x
  proof -
    have init: "S q3" if "QuicStreamInit e q2 = (q3, y)" "store_part q2 = store_part q" for q2 q3 y
      using that streams[OF same[OF s that(2)], of e] by simp
    show ?thesis
      using that s by (auto simp: TlsSrvrClientHelloPostWork_def TlsEarlyPostProcessClientHello_def on_tls_def bindS_def
          split: prod.split_asm sum.split_asm intro: same init)
  qed
  have fin: "keeps_store (store_part q) (TlsServerWriteFinishedPostWork e os q)"
    unfolding TlsServerWriteFinishedPostWork_def by (rule fixed_intros refl | simp)+
  have init: "S q1" if "QuicStreamInit e q = (q1, x)" for q1 x using streams[OF s, of e] that by simp
  show "S q'"
    using f proc hello fin init c installers_store[of q "store_part q" e os] s
    by (cases st; auto simp: client_read_def client_write_def server_read_def server_write_def no_process_def
        TlsClientEncExtPostWork_def TlsClientFinishedPostWork_def TlsSrvrServerHelloPostWork_def TlsServerReadFinishedPostWork_def
        fixed_def; metis same fst_conv)
qed

end

lemma step_store:
  assumes "table_fixed proc" and "statem_step e os proc s = Some (s1, r)"
  shows "store_part (fst s1) = store_part (fst s)"
  using assms
  by (cases s) (auto simp: statem_step_def Let_def split: QuicFlowState.split_asm option.split_asm prod.split_asm
      dest: read_store write_store)

sublocale store_invariant \<subseteq> client_run: run_invariant e os "client_proc e os" S for e os
proof (unfold_locales, goal_cases)
  case (1 s s1 r)
  then show ?case using same step_store[OF client_fixed] by blast
next
  case (2 st s s1 r)
  moreover have "S q'" if "tp_post_work (client_proc e os st) = Some f" "f (fst s) = (q', r)" for f q' using post[of "client_proc e os" st f "fst s" q' r e os] that 2 by simp
  ultimately show ?case by (auto simp: post_work_def split: option.split_asm prod.split_asm)
next
  case (3 s ret q' r)
  then show ?case using same flush_store by blast
next
  case (4 q t ret q' r)
  then show ?case using same done_store by blast
qed

sublocale store_invariant \<subseteq> server_run: run_invariant e os "server_proc e os" S for e os
proof (unfold_locales, goal_cases)
  case (1 s s1 r)
  then show ?case using same step_store[OF server_fixed] by blast
next
  case (2 st s s1 r)
  moreover have "S q'" if "tp_post_work (server_proc e os st) = Some f" "f (fst s) = (q', r)" for f q' using post[of "server_proc e os" st f "fst s" q' r e os] that 2 by simp
  ultimately show ?case by (auto simp: post_work_def split: option.split_asm prod.split_asm)
next
  case (3 s ret q' r)
  then show ?case using same flush_store by blast
next
  case (4 q t ret q' r)
  then show ?case using same done_store by blast
qed

context store_invariant
begin

lemma engine_keeps: "TlsDoHandshake e os q = Some (q', r) \<Longrightarrow> S q \<Longrightarrow> S q'"
  using client_run.handshake server_run.handshake
  by (auto simp: TlsDoHandshake_def TlsConnect_def TlsAccept_def split: if_split_asm)

end

text \<open>The table that is made has no more than \<open>2 ^ 34\<close> instances, and no chunks.\<close>

lemma max_id_bound: "unat (QuicStreamComputeMaxId (ucast (n :: u32)) uni server) < 2 ^ 34"
proof -
  have small: "w < 2 ^ 34 \<longleftrightarrow> take_bit 34 w = w" for w :: u64
    by (simp add: word_less_nat_alt word_unat_eq_iff unsigned_take_bit_eq take_bit_nat_eq_self_iff)
  have either: "a OR b < 2 ^ 34" if "a < 2 ^ 34" "b < 2 ^ 34" for a b :: u64
    using that unfolding small by simp
  have n: "(ucast n :: u64) \<le> 2 ^ 32 - 1"
    using unsigned_less[of n, where 'a = nat] by (simp add: word_le_nat_alt unsigned_ucast_eq unsigned_take_bit_eq take_bit_nat_eq_self)
  have part: "ucast n AND c \<le> (2 ^ 32 - 1 :: u64)" for c
    using word_and_le2[of "ucast n" c] n by order
  have "push_bit 1 (ucast n AND NOT QUIC_STREAM_ID_MASK) < (2 ^ 34 :: u64)"
    using part[of "NOT QUIC_STREAM_ID_MASK"] by (simp add: push_bit_eq_mult word_less_nat_alt word_le_nat_alt unat_word_ariths)
  moreover have "ucast n AND QUIC_STREAM_ID_MASK < (2 ^ 34 :: u64)"
    using part[of QUIC_STREAM_ID_MASK] by (simp add: word_less_nat_alt word_le_nat_alt)
  ultimately have "QuicStreamComputeMaxId (ucast n) uni server < 2 ^ 34"
    unfolding QuicStreamComputeMaxId_def Let_def
    by (intro either) (auto simp: QUIC_STREAM_UNIDIRECTIONAL_def QUIC_STREAM_INITIATED_BY_SERVER_def intro!: either[simplified])
  then show ?thesis by (simp add: word_less_nat_alt)
qed

lemma init_table_ok:
  assumes "conn_ok h m quic"
  shows "conn_ok h m (fst (QuicStreamInit e quic))"
proof (cases "scf_stream (q_stream quic)")
  case (Some sis)
  then show ?thesis using assms by (simp add: QuicStreamInit_def QuicStreamConfInit_def Let_def)
next
  case None
  have "concat (map si_queue (stream_init_table k b)) = []" for k b
    by (induction k) (simp_all add: stream_init_table_def QuicStreamInstanceInit_def Let_def)
  then have "chunks (fst (QuicStreamInit e quic)) = chunks quic" "q_bufs (fst (QuicStreamInit e quic)) = q_bufs quic"
    using None by (auto simp: QuicStreamInit_def QuicStreamConfInit_def Let_def chunks_def)
  moreover have "unat (QUIC_MAX (QuicStreamComputeMaxId (ucast (a :: u32)) False b) (QuicStreamComputeMaxId (ucast (c :: u32)) True b)) < 2 ^ 62"
    for a b c
    using max_id_bound[of a False b] max_id_bound[of c True b] by (auto simp: QUIC_MAX_def)
  then have "conf_wf (q_stream (fst (QuicStreamInit e quic)))"
    using None by (simp add: QuicStreamInit_def QuicStreamConfInit_def Let_def conf_wf_def stream_init_table_def)
  ultimately show ?thesis
    using assms by (simp add: conn_ok_def refs_exact_def ref_count_def)
qed

interpretation conn_kept: store_invariant "\<lambda>q :: 'c Quic. q_mss q = l \<and> q_next_buf q = k \<and> q_bufs q = B \<and> (\<forall>h m. conn_ok h m quic \<longrightarrow> conn_ok h m q)"
  for l k B and quic :: "'c Quic"
proof (unfold_locales, goal_cases)
  case (1 q q')
  then show ?case using conn_ok_cong[of q' q] by (auto simp: store_part_def)
next
  case (2 q e)
  then show ?case using init_table_ok[of _ _ q e] by (auto simp: QuicStreamInit_def Let_def split: prod.split)
qed

text \<open>The engine as the frame loop and the driver call it: the value is compared with that of an error only.\<close>

definition tls_engine :: "env \<Rightarrow> 'c ossl \<Rightarrow> 'c engine" where
  "tls_engine e os quic = (case TlsDoHandshake e os quic of None \<Rightarrow> (quic, Inl Abort) | Some (quic', r) \<Rightarrow> (quic', bindR r (\<lambda>_. Inr ())))"

lemma handshake_keeps:
  "TlsDoHandshake e os q = Some (q', r) \<Longrightarrow>
     q_mss q' = q_mss q \<and> q_next_buf q' = q_next_buf q \<and> q_bufs q' = q_bufs q \<and> (\<forall>h m. conn_ok h m q \<longrightarrow> conn_ok h m q')"
  using conn_kept.engine_keeps by blast

lemma engine_keeps_conn: "engine_ok (tls_engine e os)"
  and engine_keeps_mss: "q_mss (fst (tls_engine e os quic)) = q_mss quic"
  by (auto simp: engine_ok_def tls_engine_def split: option.split prod.split dest!: handshake_keeps)

section \<open>Reading a packet returns\<close>

lemma initial_keys_return [returns_intros]: "QuicCreateInitialDecoders e ek quic version cid \<noteq> None"
proof -
  have derive [returns_intros]: "QuicDeriveInitialSecrets e md cid version \<noteq> None" for md
    unfolding QuicDeriveInitialSecrets_def QuicTLS13HkdfExpandLabel_def Let_def HASH_SHA2_256_LENGTH_def
    by (rule returns_intros label_returns | simp)+
  show ?thesis
    unfolding QuicCreateInitialDecoders_def QuicPrepareEncoderDecoders_def Let_def
    by (rule returns_intros)+
qed

lemma header_returns [returns_intros]: "QuicPktHeaderParse e ek quic pkt flags \<noteq> None"
  unfolding QuicPktHeaderParse_def QuicLPacketHeaderParse_def parse_dcid_def QuicSrvrParseDcid_def Let_def
  by (rule returns_intros)+

lemma packet_read_returns: "QuicPacketRead e ev ek tls quic pkt flags \<noteq> None"
proof -
  have reset: "or_reset t x \<noteq> None" if "x \<noteq> None" for t and x :: "('a Quic \<times> 'b res) option"
    using that by (auto simp: or_reset_def split: sum.split c_err.split prod.split)
  show ?thesis
    unfolding QuicPacketRead_def update_dcid_def by (rule reset returns_intros)+
qed

section \<open>A packet\<close>

text \<open>C5: a packet of any type and with any content is read to its end, with all the handshake it sets going, and
  the packet buffers stay well-typed, whether it is accepted or refused. Afterwards a buffer is in the store exactly when a
  stream has a chunk in it, with the exact count, the parser's own reference given back, and the next identity is
  not in use: so no packet leaks its buffer, no chunk is left in a freed one, and no packet makes an endpoint loop for ever.\<close>

theorem packet_read_keeps_buffers:
  assumes "bufs_live n quic" and "n + max QUIC_BUF_MAX_LEN (unat (q_mss quic)) + 2 < 2 ^ 32"
  shows "\<exists>quic' r. QuicPacketRead e ev ek (tls_engine e os) quic pkt flags = Some (quic', r)
      \<and> bufs_live (n + max QUIC_BUF_MAX_LEN (unat (q_mss quic))) quic'"
proof -
  obtain quic' r where read: "QuicPacketRead e ev ek (tls_engine e os) quic pkt flags = Some (quic', r)"
    using packet_read_returns[of e ev ek "tls_engine e os" quic pkt flags] by auto
  then show ?thesis using packet_read_live[OF engine_keeps_conn assms] by auto
qed

text \<open>The client of before with no packet buffer.\<close>

theorem packet_read_keeps_buffers_witness:
  "\<exists>quic' r. QuicPacketRead env0 demo_evp demo_keys (tls_engine env0 demo_ossl) (demo_peer\<lparr>q_bufs := Map.empty\<rparr>)
      (RPacketBufInit (1 # 2 # 3 # 4 # 5 # 6 # 7 # 8 # replicate 40 0) 0 48) 0x40 = Some (quic', r)
    \<and> bufs_live (max QUIC_BUF_MAX_LEN 1250) quic'"
proof -
  have live: "bufs_live 0 (demo_peer\<lparr>q_bufs := Map.empty\<rparr>)"
    by (simp add: bufs_live_def conn_ok_def refs_exact_def ref_count_def chunks_def conf_wf_def demo_peer_def sample_quic_def
        QuicTrans.defs demo_quic_def)
  have mss: "unat (q_mss (demo_peer\<lparr>q_bufs := Map.empty\<rparr>)) = 1250" by (simp add: demo_peer_def sample_quic_def QuicTrans.defs)
  have "0 + max QUIC_BUF_MAX_LEN 1250 + 2 < 2 ^ 32" by (simp add: QUIC_BUF_MAX_LEN_def)
  from packet_read_keeps_buffers[OF live, unfolded mss, OF this] show ?thesis by (simp only: add_0)
qed

end
