(* ===== verification/Spec2Isabelle.thy ===== *)
theory Spec2Isabelle
  imports Prelude Packet_Read VarInt Pkt_Num Packet_Write VarInt_Write
    Data_Base Trans_Param Conn_Id Stream_Data Stream_Conn
    Quic_Buffer QBuff Cipher Protect Quic_State Pkt_Build
    Pkt_Protect Hkdf Key_Derive Frame_Build State_Rules Frame_Parse Frame_Refs
    Pkt_Parse Send Statem Statem_Inv Statem_Run
    Tls_State Tls_Lib Tls_Ext Tls_Ext_Clnt Tls_Ext_Srvr Tls_Hs Tls_Clnt Tls_Srvr Tls_Term Tls_Keys Tls_Auth Tls_Engine
begin

text \<open>
  A verification development for tbquic, a QUIC transport with its own TLS 1.3 in C. The C sources are
  under \<^verbatim>\<open>src/quic\<close>; a definition has the name of the C function it translates.

  \<^bold>\<open>The program.\<close> A datagram is read into a buffer and parsed packet by packet: the header and its connection
  identifiers (\<^verbatim>\<open>format.c\<close>, \<^verbatim>\<open>connection.c\<close>), then header protection and AEAD are undone with the keys of
  the packet's number space (\<^verbatim>\<open>format.c\<close>, \<^verbatim>\<open>cipher.c\<close>, \<^verbatim>\<open>crypto.c\<close>), then the frames (\<^verbatim>\<open>frame.c\<close>) act on the
  streams (\<^verbatim>\<open>stream.c\<close>), the acknowledgement state (\<^verbatim>\<open>q_buff.c\<close>), the transport parameters
  (\<^verbatim>\<open>transport.c\<close>), the identifier pools and the buffer of the TLS engine (\<^verbatim>\<open>buffer.c\<close>). In the other direction
  frames are written into send buffers, the buffers are queued, sealed into packets and sent as datagrams
  (\<^verbatim>\<open>core.c\<close>, \<^verbatim>\<open>quic_lib.c\<close>, \<^verbatim>\<open>datagram.c\<close>). All of it reads and writes bytes through \<^verbatim>\<open>packet.c\<close>.

  \<^bold>\<open>How C is modelled.\<close> Machine integers are words of their width and wrap. A function that can fail returns a sum
  whose left side is \<open>Fail\<close>, the error value of the C function, or what C does instead of returning: \<open>Abort\<close>
  (a failed assertion), \<open>Bad_mem\<close> (an access outside an object, or to a freed one), \<open>Null_ptr\<close>. A state that
  the function changes is returned beside the result, as it is when the error is returned. Memory is a byte
  list with bounds-checked access, a pointer an offset into it; reference-counted packet buffers live in a
  store. A list of the kernel-style \<^verbatim>\<open>list_head\<close> is a HOL list in list order. Allocation, randomness, the clock and
  the contents of fresh memory come from a record \<open>env\<close>; an allocation fails when \<open>env\<close> says so. A function that
  may not return is a partial function into \<open>option\<close>, \<open>None\<close> for not returning. OpenSSL (the AEAD and header
  ciphers, HMAC, BIO) is an argument of the operations that call it, and its documented behaviour is a named
  hypothesis of the properties that need it (\<open>aead_spec\<close>, \<open>hp_spec\<close>, \<open>md_ok\<close>, \<open>keys_spec\<close>), with a concrete
  instance in the witness.

  \<^bold>\<open>The theories.\<close>
    \<^item> \<open>Prelude\<close>: C types, results, the comparison macros of \<^verbatim>\<open>common.h\<close>, memory, the environment, the locale
      \<open>simulation\<close> of a step of the code by a step of a specification. \<open>State_Rules\<close>: postconditions of operations that pass
      a state on, with their rules.
    \<^item> \<open>Packet_Read\<close>, \<open>Packet_Write\<close>: the packet reader and writer of \<^verbatim>\<open>packet.c\<close>, with the contracts \<open>byte_reader\<close> and
      \<open>byte_writer\<close> that \<open>VarInt\<close> and \<open>VarInt_Write\<close> (the variable-length integers of \<^verbatim>\<open>format.c\<close>) are proved against.
    \<^item> \<open>Pkt_Num\<close>: packet numbers. \<open>Data_Base\<close>: \<^verbatim>\<open>base.c\<close>, byte strings and counted buffers. \<open>Trans_Param\<close>: transport
      parameters, refining a map (locale \<open>param_store\<close>). \<open>Conn_Id\<close>: identifier pools, refining the set of sequence numbers in use.
    \<^item> \<open>Stream_Data\<close>, \<open>Stream_Conn\<close>: \<^verbatim>\<open>stream.c\<close>, the data of a stream and the table of streams.
    \<^item> \<open>Quic_Buffer\<close>, \<open>QBuff\<close>: \<^verbatim>\<open>buffer.c\<close> and \<^verbatim>\<open>q_buff.c\<close>, the TLS buffer and the send buffers with the effect of
      an acknowledgement.
    \<^item> \<open>Cipher\<close>, \<open>Protect\<close>, \<open>Pkt_Protect\<close>: cipher state, header protection and AEAD, and the sealing and opening of packets.
      \<open>Hkdf\<close>, \<open>Key_Derive\<close>: \<^verbatim>\<open>crypto.c\<close> and the Initial keys of \<^verbatim>\<open>cipher.c\<close>.
    \<^item> \<open>Quic_State\<close>: the connection object and its packet number spaces. \<open>Pkt_Build\<close>, \<open>Pkt_Parse\<close>: the packets of
      \<^verbatim>\<open>format.c\<close> in both directions.
    \<^item> \<open>Frame_Build\<close>, \<open>Frame_Parse\<close>: the frames of \<^verbatim>\<open>frame.c\<close>. \<open>Frame_Refs\<close>: parsing frames keeps the stream table well-formed and
      the reference counts of the packet buffers exact.
    \<^item> \<open>Send\<close>: flow control on sending, the datagram out of the queue, and the sending of the queue.
    \<^item> \<open>Statem\<close>: the state machines of \<^verbatim>\<open>statem.c\<close>, \<^verbatim>\<open>statem_clnt.c\<close> and \<^verbatim>\<open>statem_srvr.c\<close>, that read datagrams and drive a
      handshake. \<open>Statem_Inv\<close>, \<open>Statem_Run\<close>: what a whole packet, and a whole run, keeps.
    \<^item> \<open>Tls_State\<close>, \<open>Tls_Lib\<close>: the TLS engine of \<^verbatim>\<open>quic/tls\<close>: its state, cipher suites, groups, signature algorithms, sessions;
      then \<^verbatim>\<open>tls_lib.c\<close>, the transcript, the key schedule, signatures, Finished, binders and tickets, with the keys of the
      packet number spaces from \<^verbatim>\<open>cipher.c\<close>. \<open>Tls_Ext\<close>, \<open>Tls_Ext_Clnt\<close>, \<open>Tls_Ext_Srvr\<close>: extensions and transport parameters.
    \<^item> \<open>Tls_Hs\<close>, \<open>Tls_Clnt\<close>, \<open>Tls_Srvr\<close>: the loop over handshake messages of \<^verbatim>\<open>tls.c\<close>, the messages of both sides with the tables
      that say which message follows which, up to \<open>TlsDoHandshake\<close>.
    \<^item> \<open>Tls_Term\<close>: the engine returns. \<open>Tls_Keys\<close>: the key schedule is that of RFC 8446, both sides derive the same keys, Finished
      messages verify. \<open>Tls_Auth\<close>: a client is past CertificateVerify only after it verified a signature, and how a
      forged message gets around it. \<open>Tls_Engine\<close>: the engine put where the frame loop calls it, and a whole packet with the
      handshake it sets going.

  \<^bold>\<open>What the lemmas show.\<close> The codecs are inverse to each other and the decoders stay inside their packet; the
  key schedule is that of the RFCs and both sides agree on the Initial keys; a sealed packet is opened to its
  payload; identifier pools and transport parameters refine abstract ones; streams deliver in-order data byte for
  byte; acknowledgements remove exactly the packets of their range from a sent queue whose order sending keeps; the
  frame loop ends and keeps the invariant of the connection, and so does a whole packet with all the handshake it causes; a run of the TLS engine ends, derives the keys of the RFC and
  authenticates the server. Other theorems make precise where the code departs
  from what it is for: lengths of 2^32 pass bounds tests, packet numbers in the next window are lost, nonces
  repeat, a reordered or partly read stream stalls, and so on. They are listed as findings of the manifest.

  \<^bold>\<open>Bounds.\<close> Hypotheses such as a length below 2^31 are those under which the truncating comparison macros are
  exact. No fuel is used: loops that end have a termination proof (the frame loop by what is left of
  the packet, the send loop by the length of the queue, the TLS loop by the rank of its state), the others (key expansion, the cutting of data into frames)
  are partial functions.

  \<^bold>\<open>Not modelled.\<close> Loading certificates and keys (\<^verbatim>\<open>cert.c\<close>, \<^verbatim>\<open>cert_and_key.c\<close>) is a sequence of OpenSSL calls;
  \<^verbatim>\<open>address.c\<close>, \<^verbatim>\<open>quic_time.c\<close> and \<^verbatim>\<open>log.h\<close> are system calls and output. \<^verbatim>\<open>list.h\<close> is represented by HOL lists. The
  dispenser, which finds the connection of a datagram, and the creation of the connection object are left out. In the
  packet and frame theories the TLS engine is an argument; \<open>Tls_Engine\<close> gives them the engine of the code, \<open>TlsDoHandshake\<close>.
  The calls of \<^verbatim>\<open>stream.c\<close> by which a program sends and receives are not modelled as a whole, their parts are: the
  instance of a stream, the building of its frames, the sending of a packet, the reading of its data.
\<close>

end
